(* ===== verification/Prelude.thy ===== *)
theory Prelude
  imports Complex_Main
begin

text \<open>
  Shared vocabulary of the development.

  \<^item> Numbers: \<open>dec\<close> stands for Python's \<open>Decimal\<close> and \<open>flt\<close> for a float that the code only
    compares, adds or converts with \<open>Decimal(str(x))\<close>; both are exact rationals here.
    \<open>time\<close> is a UTC instant and \<open>span\<close> a timedelta, both in microseconds, the resolution of
    Python's \<open>datetime\<close>.
  \<^item> Python dictionaries keep insertion order and the code iterates over them, so they are
    association lists with the update and removal operations below.
  \<^item> A Python f-string is a template and its arguments (\<open>fmt\<close>).
  \<^item> Code that mutates an object and may raise is a state-and-exception computation \<open>se\<close>.
    The locale \<open>step_rel\<close> is the proof rule of such code: a reflexive and transitive relation
    between the state before and the state after is kept by a composition when it is kept by
    every part.
\<close>

named_theorems keeps_intros \<open>compositional rules for computations\<close>
named_theorems dict_simps \<open>rewriting rules for ordered dictionaries\<close>

section \<open>Numbers and time\<close>

type_synonym dec = rat
type_synonym flt = rat
type_synonym time = int
type_synonym span = int

definition seconds :: "rat \<Rightarrow> rat" where
  "seconds x = x * 1000000"

definition minutes :: "int \<Rightarrow> span" where
  "minutes m = m * 60000000"

definition days :: "int \<Rightarrow> span" where
  "days d = d * 86400000000"

definition total_seconds :: "span \<Rightarrow> rat" where
  "total_seconds d = of_int d / 1000000"

definition floor_step :: "dec \<Rightarrow> dec \<Rightarrow> dec" where
  "floor_step x step = of_int \<lfloor>x / step\<rfloor> * step"

text \<open>\<open>x or y\<close> on an optional Decimal: None and zero are both false.\<close>

definition dec_or :: "dec option \<Rightarrow> dec \<Rightarrow> dec" where
  "dec_or x y = (case x of None \<Rightarrow> y | Some v \<Rightarrow> if v = 0 then y else v)"

lemma floor_step_le: "0 < step \<Longrightarrow> floor_step x step \<le> x"
proof -
  assume pos: "0 < step"
  have "of_int \<lfloor>x / step\<rfloor> \<le> x / step" by (rule of_int_floor_le)
  with pos have "of_int \<lfloor>x / step\<rfloor> * step \<le> (x / step) * step"
    by (simp only: mult_right_mono less_imp_le)
  with pos show ?thesis by (simp add: floor_step_def)
qed

lemma floor_step_gap: "0 < step \<Longrightarrow> x < floor_step x step + step"
proof -
  assume pos: "0 < step"
  have "x / step < of_int \<lfloor>x / step\<rfloor> + 1" by linarith
  with pos have "x < (of_int \<lfloor>x / step\<rfloor> + 1) * step"
    by (simp add: pos_divide_less_eq)
  then show ?thesis by (simp add: floor_step_def algebra_simps)
qed

lemma floor_step_nonneg: "0 < step \<Longrightarrow> 0 \<le> x \<Longrightarrow> 0 \<le> floor_step x step"
  by (simp add: floor_step_def)

lemma floor_step_multiple: "\<exists>k. floor_step x step = of_int k * step"
  by (auto simp: floor_step_def)

lemma floor_step_mono: "0 < step \<Longrightarrow> x \<le> y \<Longrightarrow> floor_step x step \<le> floor_step y step"
  by (simp add: floor_step_def divide_right_mono floor_mono)

text \<open>A multiple of the step is its own floor.\<close>

lemma floor_step_idem: "0 < step \<Longrightarrow> floor_step (of_int k * step) step = of_int k * step"
  by (simp add: floor_step_def)

datatype rounding = HalfEven | Ceiling | Floor

fun round_int :: "rounding \<Rightarrow> rat \<Rightarrow> int" where
  "round_int Floor x = \<lfloor>x\<rfloor>"
| "round_int Ceiling x = \<lceil>x\<rceil>"
| "round_int HalfEven x =
     (let f = \<lfloor>x\<rfloor>; d = x - of_int f
      in if d < 1 / 2 then f else if 1 / 2 < d then f + 1 else if even f then f else f + 1)"

text \<open>\<open>timedelta(seconds=x)\<close>: rounded to the microsecond, ties to even.\<close>

definition delta_seconds :: "flt \<Rightarrow> span" where
  "delta_seconds x = round_int HalfEven (x * 1000000)"

text \<open>\<open>(lots / lot_step) % 1 != 0\<close> on positive numbers.\<close>

definition off_step :: "dec \<Rightarrow> dec \<Rightarrow> bool" where
  "off_step lots step \<longleftrightarrow> of_int \<lfloor>lots / step\<rfloor> \<noteq> lots / step"

section \<open>Strings\<close>

fun join_with :: "string \<Rightarrow> string list \<Rightarrow> string" where
  "join_with sep [] = []"
| "join_with sep [x] = x"
| "join_with sep (x # xs) = x @ sep @ join_with sep xs"

text \<open>\<open>x or ""\<close> on an optional string.\<close>

definition str_or_empty :: "string option \<Rightarrow> string" where
  "str_or_empty x = (case x of None \<Rightarrow> [] | Some s \<Rightarrow> s)"

text \<open>\<open>str(n)\<close> of a natural number, and its inverse.\<close>

fun nat_str :: "nat \<Rightarrow> string" where
  "nat_str n = (if n < 10 then [char_of (48 + n)] else nat_str (n div 10) @ [char_of (48 + n mod 10)])"

declare nat_str.simps [simp del]

definition read_nat :: "string \<Rightarrow> nat" where
  "read_nat s = foldl (\<lambda>a c. 10 * a + (of_char c - 48)) 0 s"

lemma read_nat_str: "read_nat (nat_str n) = n"
proof (induction n rule: nat_str.induct)
  case (1 n)
  then show ?case
    by (subst nat_str.simps) (auto simp: read_nat_def)
qed

lemma nat_str_inj [simp]: "nat_str m = nat_str n \<longleftrightarrow> m = n"
  by (metis read_nat_str)

lemma nat_str_nonempty [simp]: "nat_str n \<noteq> []"
  by (subst nat_str.simps) simp

definition int_str :: "int \<Rightarrow> string" where
  "int_str i = (if i < 0 then ''-'' @ nat_str (nat (- i)) else nat_str (nat i))"

text \<open>\<open>s.strip()\<close> and \<open>s.startswith(p)\<close>.\<close>

fun is_space :: "char \<Rightarrow> bool" where
  "is_space c = (c \<in> {CHR '' '', CHR 0x09, CHR 0x0A, CHR 0x0B, CHR 0x0C, CHR 0x0D})"

definition strip :: "string \<Rightarrow> string" where
  "strip s = rev (dropWhile is_space (rev (dropWhile is_space s)))"

definition starts_with :: "string \<Rightarrow> string \<Rightarrow> bool" where
  "starts_with p s \<longleftrightarrow> take (length p) s = p"

section \<open>Templates with arguments\<close>

datatype arg = AStr string | ADec dec | AInt int | AOpt "dec option"

type_synonym fmt = "string \<times> arg list"

section \<open>Ordered dictionaries\<close>

type_synonym ('k, 'v) dict = "('k \<times> 'v) list"

abbreviation dict_get :: "('k, 'v) dict \<Rightarrow> 'k \<Rightarrow> 'v option" where
  "dict_get d k \<equiv> map_of d k"

abbreviation dict_keys :: "('k, 'v) dict \<Rightarrow> 'k set" where
  "dict_keys d \<equiv> fst ` set d"

definition dict_values :: "('k, 'v) dict \<Rightarrow> 'v list" where
  "dict_values d = map snd d"

text \<open>\<open>d[k] = v\<close>: an existing key keeps its place, a new one goes to the end.\<close>

fun dict_set :: "'k \<Rightarrow> 'v \<Rightarrow> ('k, 'v) dict \<Rightarrow> ('k, 'v) dict" where
  "dict_set k v [] = [(k, v)]"
| "dict_set k v ((a, b) # d) = (if a = k then (a, v) # d else (a, b) # dict_set k v d)"

text \<open>\<open>d.pop(k, None)\<close> and \<open>del d[k]\<close>.\<close>

fun dict_del :: "'k \<Rightarrow> ('k, 'v) dict \<Rightarrow> ('k, 'v) dict" where
  "dict_del k [] = []"
| "dict_del k ((a, b) # d) = (if a = k then d else (a, b) # dict_del k d)"

text \<open>In-place mutation of the object stored under a key.\<close>

definition dict_upd :: "'k \<Rightarrow> ('v \<Rightarrow> 'v) \<Rightarrow> ('k, 'v) dict \<Rightarrow> ('k, 'v) dict" where
  "dict_upd k f d = (case dict_get d k of None \<Rightarrow> d | Some v \<Rightarrow> dict_set k (f v) d)"

text \<open>\<open>{key(x): x for x in xs}\<close>: a later element replaces an earlier one with its key.\<close>

fun dict_of :: "('v \<Rightarrow> 'k) \<Rightarrow> 'v list \<Rightarrow> ('k, 'v) dict \<Rightarrow> ('k, 'v) dict" where
  "dict_of key [] acc = acc"
| "dict_of key (x # xs) acc = dict_of key xs (dict_set (key x) x acc)"

lemma get_set [dict_simps, simp]:
  "dict_get (dict_set k v d) j = (if j = k then Some v else dict_get d j)"
  by (induction d rule: dict_set.induct) auto

lemma keys_set [dict_simps, simp]: "dict_keys (dict_set k v d) = insert k (dict_keys d)"
  by (induction d rule: dict_set.induct) (auto simp: image_iff)

lemma get_upd [dict_simps, simp]:
  "dict_get (dict_upd k f d) j = (if j = k then map_option f (dict_get d k) else dict_get d j)"
  by (auto simp: dict_upd_def split: option.splits)

lemma get_Some_key: "dict_get d k = Some v \<Longrightarrow> k \<in> dict_keys d"
  by (metis domI dom_map_of_conv_image_fst)

lemma key_get: "k \<in> dict_keys d \<Longrightarrow> \<exists>v. dict_get d k = Some v"
  by (metis map_of_eq_None_iff not_None_eq)

lemma keys_upd [dict_simps, simp]: "dict_keys (dict_upd k f d) = dict_keys d"
proof (cases "dict_get d k")
  case None
  then show ?thesis by (simp add: dict_upd_def)
next
  case (Some v)
  then have "k \<in> dict_keys d" by (rule get_Some_key)
  with Some show ?thesis by (simp add: dict_upd_def insert_absorb)
qed

lemma distinct_set [dict_simps, simp]:
  "distinct (map fst (dict_set k v d)) \<longleftrightarrow> distinct (map fst d)"
proof (induction d)
  case (Cons p d)
  then show ?case using keys_set [of k v d] by (cases p) auto
qed simp

lemma distinct_upd [dict_simps, simp]:
  "distinct (map fst (dict_upd k f d)) \<longleftrightarrow> distinct (map fst d)"
  by (simp add: dict_upd_def split: option.splits)

lemma keys_del_subset: "dict_keys (dict_del k d) \<subseteq> dict_keys d"
  by (induction d rule: dict_del.induct) auto

lemma key_del: "distinct (map fst d) \<Longrightarrow> k \<notin> dict_keys (dict_del k d)"
  by (induction d rule: dict_del.induct) auto

lemma distinct_del [dict_simps, simp]:
  "distinct (map fst d) \<Longrightarrow> distinct (map fst (dict_del k d))"
proof (induction d)
  case (Cons p d)
  then show ?case using keys_del_subset [of k d] by (cases p) auto
qed simp

lemma get_del [dict_simps, simp]:
  "distinct (map fst d) \<Longrightarrow>
    dict_get (dict_del k d) j = (if j = k then None else dict_get d j)"
proof (induction d)
  case (Cons p d)
  then show ?case using key_del [of d j] by (cases p) (auto simp: map_of_eq_None_iff)
qed simp

lemma set_del_subset: "set (dict_del k d) \<subseteq> set d"
  by (induction d rule: dict_del.induct) auto

lemma get_None_iff [dict_simps]: "dict_get d k = None \<longleftrightarrow> k \<notin> dict_keys d"
  by (rule map_of_eq_None_iff)

section \<open>Finding the first element\<close>

text \<open>\<open>next((x for x in xs if p(x)), None)\<close>.\<close>

fun find_first :: "('a \<Rightarrow> bool) \<Rightarrow> 'a list \<Rightarrow> 'a option" where
  "find_first p [] = None"
| "find_first p (x # xs) = (if p x then Some x else find_first p xs)"

lemma find_first_Some: "find_first p xs = Some x \<Longrightarrow> x \<in> set xs \<and> p x"
  by (induction xs) (auto split: if_splits)

lemma find_first_None [simp]: "find_first p xs = None \<longleftrightarrow> (\<forall>x \<in> set xs. \<not> p x)"
  by (induction xs) auto

lemma sum_list_filter_nonneg:
  "(\<And>x. x \<in> set xs \<Longrightarrow> 0 \<le> (f x :: rat)) \<Longrightarrow> 0 \<le> sum_list (map f (filter p xs))"
  by (induction xs) auto

section \<open>Errors as values\<close>

datatype exn =
    Unavailable string        \<comment> \<open>BrokerUnavailableError\<close>
  | KeyErr string
  | ArithErr                  \<comment> \<open>a Decimal division by zero\<close>
  | ZeroDiv                   \<comment> \<open>a float division by zero\<close>
  | IndexErr                  \<comment> \<open>an index outside of a list or column\<close>
  | ValueErr string
  | RuntimeErr "string list"
  | StrategyErr string        \<comment> \<open>a strategy broke its contract\<close>
  | IllegalTransition fmt
  | JournalCorrupt string
  | LedgerCorrupt nat
  | StartupRefused fmt

fun sbind :: "exn + 'a \<Rightarrow> ('a \<Rightarrow> exn + 'b) \<Rightarrow> exn + 'b" where
  "sbind (Inl e) f = Inl e"
| "sbind (Inr x) f = f x"

lemma sbind_Inr [simp]: "sbind m f = Inr y \<longleftrightarrow> (\<exists>x. m = Inr x \<and> f x = Inr y)"
  by (cases m) auto

lemma sbind_Inl: "sbind m f = Inl e \<longleftrightarrow> m = Inl e \<or> (\<exists>x. m = Inr x \<and> f x = Inl e)"
  by (cases m) auto

definition ddiv :: "dec \<Rightarrow> dec \<Rightarrow> exn + dec" where
  "ddiv a b = (if b = 0 then Inl ArithErr else Inr (a / b))"

definition fdiv :: "flt \<Rightarrow> flt \<Rightarrow> exn + flt" where
  "fdiv a b = (if b = 0 then Inl ZeroDiv else Inr (a / b))"

fun smap :: "('a \<Rightarrow> exn + 'b) \<Rightarrow> 'a list \<Rightarrow> exn + 'b list" where
  "smap f [] = Inr []"
| "smap f (x # xs) = sbind (f x) (\<lambda>y. sbind (smap f xs) (\<lambda>ys. Inr (y # ys)))"

lemma smap_Inr_map: "smap f xs = Inr ys \<Longrightarrow> map (\<lambda>x. projr (f x)) xs = ys \<and> (\<forall>x \<in> set xs. \<exists>y. f x = Inr y)"
  by (induction xs arbitrary: ys) auto

section \<open>Computations with state and exceptions\<close>

type_synonym ('s, 'a) se = "'s \<Rightarrow> (exn + 'a) \<times> 's"

definition ret :: "'a \<Rightarrow> ('s, 'a) se" where
  "ret x = (\<lambda>s. (Inr x, s))"

definition raise :: "exn \<Rightarrow> ('s, 'a) se" where
  "raise e = (\<lambda>s. (Inl e, s))"

definition bnd :: "('s, 'a) se \<Rightarrow> ('a \<Rightarrow> ('s, 'b) se) \<Rightarrow> ('s, 'b) se" where
  "bnd m f = (\<lambda>s. case m s of (Inl e, t) \<Rightarrow> (Inl e, t) | (Inr x, t) \<Rightarrow> f x t)"

definition seq :: "('s, unit) se \<Rightarrow> ('s, 'b) se \<Rightarrow> ('s, 'b) se" where
  "seq m n = bnd m (\<lambda>_. n)"

definition gets :: "('s \<Rightarrow> 'a) \<Rightarrow> ('s, 'a) se" where
  "gets f = (\<lambda>s. (Inr (f s), s))"

definition modif :: "('s \<Rightarrow> 's) \<Rightarrow> ('s, unit) se" where
  "modif f = (\<lambda>s. (Inr (), f s))"

definition lift :: "exn + 'a \<Rightarrow> ('s, 'a) se" where
  "lift r = (case r of Inl e \<Rightarrow> raise e | Inr x \<Rightarrow> ret x)"

text \<open>\<open>try: m except BrokerUnavailableError as e: h(e)\<close>.\<close>

definition catch_unavailable :: "('s, 'a) se \<Rightarrow> (string \<Rightarrow> ('s, 'a) se) \<Rightarrow> ('s, 'a) se" where
  "catch_unavailable m h =
     (\<lambda>s. case m s of (Inl (Unavailable e), t) \<Rightarrow> h e t | r \<Rightarrow> r)"

fun for_each :: "('a \<Rightarrow> ('s, unit) se) \<Rightarrow> 'a list \<Rightarrow> ('s, unit) se" where
  "for_each f [] = ret ()"
| "for_each f (x # xs) = seq (f x) (for_each f xs)"

text \<open>\<open>for x in xs: acc = f(x, acc)\<close>, where the body may raise.\<close>

fun fold_each :: "('a \<Rightarrow> 'b \<Rightarrow> ('s, 'b) se) \<Rightarrow> 'a list \<Rightarrow> 'b \<Rightarrow> ('s, 'b) se" where
  "fold_each f [] acc = ret acc"
| "fold_each f (x # xs) acc = bnd (f x acc) (fold_each f xs)"

definition when_do :: "bool \<Rightarrow> ('s, unit) se \<Rightarrow> ('s, unit) se" where
  "when_do b m = (if b then m else ret ())"

lemmas se_defs = ret_def raise_def bnd_def seq_def gets_def modif_def catch_unavailable_def when_do_def

text \<open>Running a composition whose first part is known.\<close>

lemma bnd_gets: "bnd (gets f) k s = k (f s) s"
  by (simp add: bnd_def gets_def)

lemma seq_modif: "seq (modif f) m s = m (f s)"
  by (simp add: seq_def bnd_def modif_def)

lemma seq_run: "m s = (Inr (), t) \<Longrightarrow> seq m n s = n t"
  by (simp add: seq_def bnd_def)

lemma bnd_run: "m s = (Inr x, t) \<Longrightarrow> bnd m f s = f x t"
  by (simp add: bnd_def)

lemma bnd_fail: "m s = (Inl e, t) \<Longrightarrow> bnd m f s = (Inl e, t)"
  by (simp add: bnd_def)

text \<open>A composition that ends well, part by part.\<close>

lemma bnd_Inr: "bnd m f s = (Inr y, t) \<longleftrightarrow> (\<exists>x u. m s = (Inr x, u) \<and> f x u = (Inr y, t))"
  by (auto simp: bnd_def split: prod.splits sum.splits)

lemma seq_Inr: "seq m n s = (Inr y, t) \<longleftrightarrow> (\<exists>u. m s = (Inr (), u) \<and> n u = (Inr y, t))"
  by (auto simp: seq_def bnd_Inr)

lemma ret_Inr: "ret x s = (Inr y, t) \<longleftrightarrow> y = x \<and> t = s"
  by (auto simp: ret_def)

lemma gets_Inr: "gets f s = (Inr y, t) \<longleftrightarrow> y = f s \<and> t = s"
  by (auto simp: gets_def)

lemma lift_Inr: "lift r s = (Inr y, t) \<longleftrightarrow> r = Inr y \<and> t = s"
  by (auto simp: lift_def raise_def ret_def split: sum.splits)

section \<open>Total correctness\<close>

text \<open>\<open>runs P m Q\<close>: from a state with \<open>P\<close>, \<open>m\<close> raises nothing and its result and final state have \<open>Q\<close>.\<close>

named_theorems runs_intros \<open>rules of the total-correctness triple\<close>

definition runs :: "('s \<Rightarrow> bool) \<Rightarrow> ('s, 'a) se \<Rightarrow> ('a \<Rightarrow> 's \<Rightarrow> bool) \<Rightarrow> bool" where
  "runs P m Q \<longleftrightarrow> (\<forall>s. P s \<longrightarrow> (\<exists>x t. m s = (Inr x, t) \<and> Q x t))"

lemma runsI: "(\<And>s. P s \<Longrightarrow> \<exists>x t. m s = (Inr x, t) \<and> Q x t) \<Longrightarrow> runs P m Q"
  by (simp add: runs_def)

lemma runsD: "runs P m Q \<Longrightarrow> P s \<Longrightarrow> \<exists>x t. m s = (Inr x, t) \<and> Q x t"
  by (simp add: runs_def)

lemma runs_ret [runs_intros]: "(\<And>s. P s \<Longrightarrow> Q x s) \<Longrightarrow> runs P (ret x) Q"
  by (simp add: runs_def ret_def)

lemma runs_modif [runs_intros]: "(\<And>s. P s \<Longrightarrow> Q () (f s)) \<Longrightarrow> runs P (modif f) Q"
  by (simp add: runs_def modif_def)

lemma runs_bnd: "\<lbrakk>runs P m R; \<And>x. runs (R x) (f x) Q\<rbrakk> \<Longrightarrow> runs P (bnd m f) Q"
  unfolding runs_def
proof (intro allI impI)
  fix s
  assume m: "\<forall>s. P s \<longrightarrow> (\<exists>x t. m s = (Inr x, t) \<and> R x t)"
    and f: "\<And>x. \<forall>s. R x s \<longrightarrow> (\<exists>y t. f x s = (Inr y, t) \<and> Q y t)" and "P s"
  then obtain x t where "m s = (Inr x, t)" and "R x t" by blast
  with f show "\<exists>y t. bnd m f s = (Inr y, t) \<and> Q y t" by (simp add: bnd_run)
qed

lemma runs_seq: "\<lbrakk>runs P m (\<lambda>_. R); runs R n Q\<rbrakk> \<Longrightarrow> runs P (seq m n) Q"
  unfolding seq_def by (rule runs_bnd)

lemma runs_gets [runs_intros]: "(\<And>x. runs (\<lambda>s. P s \<and> x = f s) (k x) Q) \<Longrightarrow> runs P (bnd (gets f) k) Q"
  by (simp add: runs_def bnd_gets)

lemma runs_lift [runs_intros]:
  "\<lbrakk>\<And>s. P s \<Longrightarrow> \<exists>x. r = Inr x; \<And>x. r = Inr x \<Longrightarrow> runs P (k x) Q\<rbrakk> \<Longrightarrow> runs P (bnd (lift r) k) Q"
  by (cases r) (auto simp: runs_def lift_def bnd_def ret_def raise_def)

lemma runs_when [runs_intros]:
  "\<lbrakk>b \<Longrightarrow> runs P m Q; \<And>s. \<not> b \<Longrightarrow> P s \<Longrightarrow> Q () s\<rbrakk> \<Longrightarrow> runs P (when_do b m) Q"
  by (auto simp: when_do_def intro: runs_ret)

lemma runs_if [runs_intros]:
  "\<lbrakk>b \<Longrightarrow> runs P m Q; \<not> b \<Longrightarrow> runs P n Q\<rbrakk> \<Longrightarrow> runs P (if b then m else n) Q"
  by simp

lemma runs_weaken: "\<lbrakk>runs P m Q; \<And>s. P' s \<Longrightarrow> P s; \<And>x s. Q x s \<Longrightarrow> Q' x s\<rbrakk> \<Longrightarrow> runs P' m Q'"
  unfolding runs_def by blast

lemma runs_for_each: "(\<And>x. x \<in> set xs \<Longrightarrow> runs I (f x) (\<lambda>_. I)) \<Longrightarrow> runs I (for_each f xs) (\<lambda>_. I)"
  by (induction xs) (auto intro!: runs_ret intro: runs_seq)

section \<open>Relations kept by a computation\<close>

text \<open>
  \<open>keeps R m\<close>: whatever the outcome, the state after \<open>m\<close> is related to the state before. An
  invariant \<open>I\<close> is the relation \<open>\<lambda>s t. I s \<longrightarrow> I t\<close>.
\<close>

definition keeps :: "('s \<Rightarrow> 's \<Rightarrow> bool) \<Rightarrow> ('s, 'a) se \<Rightarrow> bool" where
  "keeps R m \<longleftrightarrow> (\<forall>s. R s (snd (m s)))"

lemma keepsD: "keeps R m \<Longrightarrow> m s = (r, t) \<Longrightarrow> R s t"
  by (metis keeps_def snd_conv)

lemma keeps_weaken: "keeps R m \<Longrightarrow> (\<And>s t. R s t \<Longrightarrow> Q s t) \<Longrightarrow> keeps Q m"
  by (auto simp: keeps_def)

locale step_rel =
  fixes R :: "'s \<Rightarrow> 's \<Rightarrow> bool"
  assumes step_refl: "R s s"
    and step_trans: "R s t \<Longrightarrow> R t u \<Longrightarrow> R s u"
begin

lemma keeps_ret: "keeps R (ret x)"
  by (simp add: keeps_def ret_def step_refl)

lemma keeps_raise: "keeps R (raise e)"
  by (simp add: keeps_def raise_def step_refl)

lemma keeps_gets: "keeps R (gets f)"
  by (simp add: keeps_def gets_def step_refl)

lemma keeps_modif: "(\<And>s. R s (f s)) \<Longrightarrow> keeps R (modif f)"
  by (simp add: keeps_def modif_def)

lemma keeps_bnd:
  assumes "keeps R m" and "\<And>x. keeps R (f x)"
  shows "keeps R (bnd m f)"
  unfolding keeps_def
proof
  fix s
  obtain r t where m: "m s = (r, t)" by (cases "m s")
  with assms(1) have "R s t" by (rule keepsD)
  then show "R s (snd (bnd m f s))"
    using assms(2) by (cases r) (auto simp: bnd_def m keeps_def intro: step_trans)
qed

lemma keeps_seq: "keeps R m \<Longrightarrow> keeps R n \<Longrightarrow> keeps R (seq m n)"
  unfolding seq_def by (rule keeps_bnd)

lemma keeps_catch:
  assumes "keeps R m" and "\<And>e. keeps R (h e)"
  shows "keeps R (catch_unavailable m h)"
  unfolding keeps_def
proof
  fix s
  obtain r t where m: "m s = (r, t)" by (cases "m s")
  with assms(1) have st: "R s t" by (rule keepsD)
  show "R s (snd (catch_unavailable m h s))"
  proof (cases "\<exists>e. r = Inl (Unavailable e)")
    case True
    then obtain e where "r = Inl (Unavailable e)" by blast
    with m st assms(2) show ?thesis
      by (auto simp: catch_unavailable_def keeps_def intro: step_trans)
  next
    case False
    with m st show ?thesis
      by (auto simp: catch_unavailable_def split: sum.splits exn.splits)
  qed
qed

lemma keeps_for_each: "(\<And>x. keeps R (f x)) \<Longrightarrow> keeps R (for_each f xs)"
  by (induction xs) (auto intro: keeps_ret keeps_seq)

lemma keeps_fold_each: "(\<And>x acc. keeps R (f x acc)) \<Longrightarrow> keeps R (fold_each f xs acc)"
  by (induction xs arbitrary: acc) (auto intro: keeps_ret keeps_bnd)

lemma keeps_when_do: "keeps R m \<Longrightarrow> keeps R (when_do b m)"
  by (simp add: when_do_def keeps_ret)

lemma keeps_if: "keeps R m \<Longrightarrow> keeps R n \<Longrightarrow> keeps R (if b then m else n)"
  by simp

lemma keeps_option:
  "keeps R n \<Longrightarrow> (\<And>y. keeps R (f y)) \<Longrightarrow> keeps R (case x of None \<Rightarrow> n | Some y \<Rightarrow> f y)"
  by (cases x) auto

lemma keeps_prod: "(\<And>a b. keeps R (f a b)) \<Longrightarrow> keeps R (case p of (a, b) \<Rightarrow> f a b)"
  by (cases p) auto

lemma keeps_sum:
  "(\<And>a. keeps R (f a)) \<Longrightarrow> (\<And>b. keeps R (g b)) \<Longrightarrow> keeps R (case x of Inl a \<Rightarrow> f a | Inr b \<Rightarrow> g b)"
  by (cases x) auto

lemmas keeps_rules = keeps_ret keeps_raise keeps_gets keeps_bnd keeps_seq keeps_catch
  keeps_for_each keeps_fold_each keeps_when_do keeps_if keeps_option keeps_prod keeps_sum

end

text \<open>Every invariant is such a relation.\<close>

definition preserving :: "('s \<Rightarrow> bool) \<Rightarrow> 's \<Rightarrow> 's \<Rightarrow> bool" where
  "preserving I s t \<longleftrightarrow> (I s \<longrightarrow> I t)"

interpretation preserve: step_rel "preserving I"
  by unfold_locales (auto simp: preserving_def)

end
