(* ===== verification/Core_Models.thy ===== *)
theory Core_Models
  imports Prelude "HOL-Library.Word"
begin

unbundle bit_operations_syntax

text \<open>
  The data every package shares: \<open>core/models.py\<close> and \<open>core/broker.py\<close>, the currency conversion of
  \<open>core/fx.py\<close>, the simulated clock of \<open>core/clock.py\<close> and the calendar index of
  \<open>core/indicators/sessions.py\<close>. A pydantic validator is a Boolean function that says whether the
  constructor returns (True) or raises (False). A UUID is its 32 hexadecimal digits.
\<close>

section \<open>Enumerations\<close>

datatype timeframe = M1 | M5 | M15 | H1 | H4 | D1

fun tf_minutes :: "timeframe \<Rightarrow> int" where
  "tf_minutes M1 = 1"
| "tf_minutes M5 = 5"
| "tf_minutes M15 = 15"
| "tf_minutes H1 = 60"
| "tf_minutes H4 = 240"
| "tf_minutes D1 = 1440"

datatype stage = Candidate | Shadow | Micro | Live | Scaled | Retired | DemoOnly

fun stage_value :: "stage \<Rightarrow> string" where
  "stage_value Candidate = ''candidate''"
| "stage_value Shadow = ''shadow''"
| "stage_value Micro = ''micro''"
| "stage_value Live = ''live''"
| "stage_value Scaled = ''scaled''"
| "stage_value Retired = ''retired''"
| "stage_value DemoOnly = ''demo_only''"

lemma stage_value_inj: "stage_value a = stage_value b \<Longrightarrow> a = b"
  by (cases a; cases b) simp_all

datatype halt_state = Normal | DailyHalt | WeeklyHalt | ReconHalt | FullHalt

fun halt_value :: "halt_state \<Rightarrow> string" where
  "halt_value Normal = ''NORMAL''"
| "halt_value DailyHalt = ''DAILY_HALT''"
| "halt_value WeeklyHalt = ''WEEKLY_HALT''"
| "halt_value ReconHalt = ''RECON_HALT''"
| "halt_value FullHalt = ''FULL_HALT''"

fun halt_closes_positions :: "halt_state \<Rightarrow> bool" where
  "halt_closes_positions DailyHalt = True"
| "halt_closes_positions WeeklyHalt = True"
| "halt_closes_positions FullHalt = True"
| "halt_closes_positions _ = False"

datatype side = Buy | Sell

datatype entry_type = MarketEntry | LimitEntry | StopEntry

section \<open>Instruments, signals, intents, decisions\<close>

datatype swap_mode = SwapPoints | SwapMoney | SwapPercent

record instrument =
  in_symbol :: string
  in_base :: string
  in_quote :: string
  in_contract_size :: dec
  in_pip_size :: dec
  in_tick_size :: dec
  in_min_lot :: dec
  in_lot_step :: dec
  in_max_lot :: dec
  in_commission_per_lot :: dec
  in_swap_long :: dec
  in_swap_short :: dec
  in_swap_mode :: swap_mode
  in_triple_swap_weekday :: nat

definition check_lots :: "instrument \<Rightarrow> bool" where
  "check_lots i \<longleftrightarrow>
     0 < in_min_lot i \<and> in_min_lot i \<le> in_max_lot i \<and>
     \<not> (in_lot_step i \<le> 0 \<or> in_tick_size i \<le> 0 \<or> in_contract_size i \<le> 0)"

record signal =
  sg_id :: string
  sg_strategy_id :: string
  sg_strategy_version :: string
  sg_symbol :: string
  sg_side :: side
  sg_entry_type :: entry_type
  sg_entry_price :: "flt option"
  sg_stop_price :: flt
  sg_target_price :: "flt option"
  sg_expiry_bars :: "int option"
  sg_created_at :: time
  sg_reason :: string
  sg_tags :: "(string, string) dict"

definition check_signal :: "signal \<Rightarrow> bool" where
  "check_signal s \<longleftrightarrow>
     \<not> (sg_entry_type s \<noteq> MarketEntry \<and> sg_entry_price s = None) \<and>
     (case sg_entry_price s of
        None \<Rightarrow> True
      | Some e \<Rightarrow> \<not> (sg_side s = Buy \<and> sg_stop_price s \<ge> e \<or> sg_side s = Sell \<and> sg_stop_price s \<le> e)) \<and>
     (case sg_expiry_bars s of None \<Rightarrow> True | Some n \<Rightarrow> 1 \<le> n)"

record intent =
  oi_id :: string
  oi_signal :: signal
  oi_proposed_lots :: dec
  oi_risk_fraction :: flt
  oi_account_id :: string
  oi_tenant_id :: string

definition check_intent :: "intent \<Rightarrow> bool" where
  "check_intent i \<longleftrightarrow> 0 \<le> oi_proposed_lots i \<and> 0 \<le> oi_risk_fraction i"

datatype verdict = Approve | Resize | Reject

record decision =
  rd_intent_id :: string
  rd_verdict :: verdict
  rd_approved_lots :: dec
  rd_reasons :: "fmt list"
  rd_limits_hash :: string
  rd_decided_at :: time
  rd_expires_at :: time
  rd_sequence :: int

text \<open>A decision as it travels: the signed body and the optional hexadecimal signature.\<close>

record signed_decision =
  sd_body :: decision
  sd_signature :: "string option"

record halt_command =
  hc_state :: halt_state
  hc_reason :: string
  hc_at :: time
  hc_cancel_pending_entries :: bool
  hc_close_positions :: bool

definition halt_command_for_state :: "halt_state \<Rightarrow> string \<Rightarrow> time \<Rightarrow> halt_command" where
  "halt_command_for_state st reason t =
     \<lparr>hc_state = st, hc_reason = reason, hc_at = t, hc_cancel_pending_entries = True,
      hc_close_positions = halt_closes_positions st\<rparr>"

section \<open>Orders, fills, trades, alerts\<close>

datatype alert_severity = Critical | Warning | Info

record alert =
  al_severity :: alert_severity
  al_kind :: string
  al_message :: fmt
  al_at :: time
  al_details :: "(string \<times> string) list"

datatype order_status = OsNew | OsPlaced | OsPartiallyFilled | OsFilled | OsCancelled | OsRejected | OsExpired

record order_view =
  ov_client_order_id :: string
  ov_broker_order_id :: "string option"
  ov_account_id :: string
  ov_tenant_id :: string
  ov_strategy_id :: string
  ov_strategy_version :: string
  ov_symbol :: string
  ov_side :: side
  ov_entry_type :: entry_type
  ov_status :: order_status
  ov_lots :: dec
  ov_price :: "dec option"
  ov_sl :: dec
  ov_tp :: "dec option"
  ov_created_at :: time
  ov_updated_at :: time

record fill_record =
  fr_client_order_id :: string
  fr_account_id :: string
  fr_tenant_id :: string
  fr_strategy_id :: string
  fr_strategy_version :: string
  fr_symbol :: string
  fr_side :: side
  fr_order_type :: entry_type
  fr_price :: dec
  fr_lots :: dec
  fr_commission :: dec
  fr_spread_at_fill :: "dec option"
  fr_requested_price :: "dec option"
  fr_slippage :: "dec option"
  fr_latency_ms :: flt
  fr_filled_at :: time

record trade_record =
  tr_trade_id :: string
  tr_account_id :: string
  tr_tenant_id :: string
  tr_strategy_id :: string
  tr_strategy_version :: string
  tr_symbol :: string
  tr_side :: side
  tr_lots :: dec
  tr_entry_time :: time
  tr_entry_price :: dec
  tr_stop_price :: dec
  tr_exit_time :: time
  tr_exit_price :: dec
  tr_pnl_gross :: dec
  tr_costs :: dec
  tr_pnl_net :: dec
  tr_money_at_risk :: dec
  tr_r_multiple :: flt
  tr_mae :: flt
  tr_mfe :: flt

record stage_changed =
  sc_at :: time
  sc_strategy_id :: string
  sc_strategy_version :: string
  sc_from :: stage
  sc_to :: stage
  sc_reason :: string

section \<open>Broker models\<close>

record symbol_info =
  si_symbol :: string
  si_digits :: nat
  si_point :: dec
  si_contract_size :: dec
  si_min_lot :: dec
  si_lot_step :: dec
  si_max_lot :: dec
  si_margin_per_lot :: "dec option"
  si_trade_allowed :: bool

record quote =
  qt_symbol :: string
  qt_bid :: dec
  qt_ask :: dec
  qt_time :: time

record place_request =
  pr_client_order_id :: string
  pr_symbol :: string
  pr_side :: side
  pr_order_type :: entry_type
  pr_lots :: dec
  pr_price :: "dec option"
  pr_sl :: dec
  pr_tp :: "dec option"
  pr_magic :: int
  pr_expires_at :: "time option"

record modify_request =
  mr_position_id :: "string option"
  mr_broker_order_id :: "string option"
  mr_sl :: "dec option"
  mr_tp :: "dec option"

record broker_ack =
  ak_ok :: bool
  ak_broker_order_id :: "string option"
  ak_position_id :: "string option"
  ak_filled_price :: "dec option"
  ak_filled_lots :: "dec option"
  ak_error :: "string option"
  ak_latency_ms :: flt

definition ack_error :: "string \<Rightarrow> broker_ack" where
  "ack_error e = \<lparr>ak_ok = False, ak_broker_order_id = None, ak_position_id = None,
     ak_filled_price = None, ak_filled_lots = None, ak_error = Some e, ak_latency_ms = 0\<rparr>"

definition ack_done :: broker_ack where
  "ack_done = \<lparr>ak_ok = True, ak_broker_order_id = None, ak_position_id = None,
     ak_filled_price = None, ak_filled_lots = None, ak_error = None, ak_latency_ms = 0\<rparr>"

lemma ack_simps [simp]: "\<not> ak_ok (ack_error e)" "ak_ok ack_done"
  by (simp_all add: ack_error_def ack_done_def)

record broker_position =
  bp_position_id :: string
  bp_symbol :: string
  bp_side :: side
  bp_lots :: dec
  bp_price_open :: dec
  bp_sl :: "dec option"
  bp_tp :: "dec option"
  bp_magic :: int
  bp_comment :: string
  bp_opened_at :: time
  bp_profit :: dec

record broker_order =
  bo_broker_order_id :: string
  bo_symbol :: string
  bo_side :: side
  bo_order_type :: entry_type
  bo_lots :: dec
  bo_price :: dec
  bo_sl :: "dec option"
  bo_tp :: "dec option"
  bo_magic :: int
  bo_comment :: string
  bo_created_at :: time
  bo_expires_at :: "time option"

datatype deal_kind = TradeDeal | BalanceDeal
datatype deal_entry = DealIn | DealOut

record broker_deal =
  bd_deal_id :: string
  bd_kind :: deal_kind
  bd_position_id :: string
  bd_symbol :: string
  bd_side :: side
  bd_entry :: deal_entry
  bd_lots :: dec
  bd_price :: dec
  bd_commission :: dec
  bd_swap :: dec
  bd_profit :: dec
  bd_time :: time
  bd_magic :: int
  bd_comment :: string

datatype trade_mode = DemoMode | ContestMode | RealMode
datatype margin_mode = Hedging | Netting | Exchange

record account_info =
  ai_account_id :: string
  ai_currency :: string
  ai_balance :: dec
  ai_equity :: dec
  ai_margin :: dec
  ai_free_margin :: dec
  ai_server_time :: time
  ai_trade_mode :: trade_mode
  ai_margin_mode :: margin_mode

section \<open>Order identities\<close>

definition client_order_prefix :: string where
  "client_order_prefix = ''at''"

definition client_order_id :: "string \<Rightarrow> string" where
  "client_order_id intent_id = client_order_prefix @ take 29 intent_id"

definition is_system_comment :: "string \<Rightarrow> bool" where
  "is_system_comment c \<longleftrightarrow> length c = 31 \<and> take 2 c = client_order_prefix"

text \<open>A client order id of a real UUID is a system comment and fits MT5's comment field.\<close>

lemma client_order_id_system: "length i = 32 \<Longrightarrow> is_system_comment (client_order_id i)"
  by (simp add: is_system_comment_def client_order_id_def client_order_prefix_def)

lemma client_order_id_eq:
  "client_order_id i = client_order_id j \<longleftrightarrow> take 29 i = take 29 j"
  by (simp add: client_order_id_def)

lemma not_system_Nil [simp]: "\<not> is_system_comment []"
  by (simp add: is_system_comment_def)

text \<open>\<open>zlib.crc32\<close>: the reflected CRC with polynomial \<open>0xEDB88320\<close>, one bit at a time.\<close>

definition crc_bit :: "32 word \<Rightarrow> 32 word" where
  "crc_bit c = (if c AND 1 = 1 then drop_bit 1 c XOR 0xEDB88320 else drop_bit 1 c)"

definition crc_byte :: "32 word \<Rightarrow> nat \<Rightarrow> 32 word" where
  "crc_byte c b = (crc_bit ^^ 8) (c XOR of_nat b)"

definition crc32 :: "nat list \<Rightarrow> 32 word" where
  "crc32 bs = fold (\<lambda>b c. crc_byte c b) bs 0xFFFFFFFF XOR 0xFFFFFFFF"

definition magic_number :: "string \<Rightarrow> string \<Rightarrow> int" where
  "magic_number strategy_id version =
     (let m = uint (crc32 (map of_char (strategy_id @ ''|'' @ version)) AND 0x7FFFFFFF)
      in if m = 0 then 1 else m)"

section \<open>Currency conversion\<close>

definition rate_from_quotes :: "(string, quote) dict \<Rightarrow> string \<Rightarrow> string \<Rightarrow> exn + dec" where
  "rate_from_quotes quotes frm to =
     (if frm = to then Inr 1
      else case dict_get quotes (frm @ to) of
        Some q \<Rightarrow> Inr ((qt_bid q + qt_ask q) / 2)
      | None \<Rightarrow>
          (case dict_get quotes (to @ frm) of
             Some q \<Rightarrow> ddiv 2 (qt_bid q + qt_ask q)
           | None \<Rightarrow> Inl (KeyErr (''no quote to convert '' @ frm @ '' -> '' @ to))))"

lemma rate_positive:
  assumes "\<And>s q. dict_get quotes s = Some q \<Longrightarrow> 0 < qt_bid q + qt_ask q"
    and "rate_from_quotes quotes frm to = Inr r"
  shows "0 < r"
proof -
  have "0 < qt_bid q + qt_ask q" if "dict_get quotes s = Some q" for s q
    using assms(1) that by blast
  then show ?thesis
    using assms(2)
    by (fastforce simp: rate_from_quotes_def ddiv_def split: if_splits option.splits)
qed

section \<open>Simulated clock\<close>

definition advance_to :: "time \<Rightarrow> time \<Rightarrow> exn + time" where
  "advance_to now t = (if t < now then Inl (ValueErr ''SimClock cannot move backwards'') else Inr t)"

section \<open>Calendar of news events\<close>

datatype impact = Low | Medium | High

record calendar_event =
  ce_time :: time
  ce_currency :: string
  ce_impact :: impact

type_synonym event_index = "(string, time list) dict"

fun index_events :: "impact \<Rightarrow> calendar_event list \<Rightarrow> event_index \<Rightarrow> event_index" where
  "index_events imp [] acc = acc"
| "index_events imp (e # es) acc =
     index_events imp es
       (if ce_impact e = imp
        then dict_set (ce_currency e)
               ((case dict_get acc (ce_currency e) of None \<Rightarrow> [] | Some ts \<Rightarrow> ts) @ [ce_time e]) acc
        else acc)"

definition event_index :: "calendar_event list \<Rightarrow> event_index" where
  "event_index es = map (\<lambda>(c, ts). (c, sort ts)) (index_events High es [])"

text \<open>\<open>bisect_left\<close> on a sorted list: how many elements are below \<open>x\<close>.\<close>

definition bisect_left :: "time list \<Rightarrow> time \<Rightarrow> nat" where
  "bisect_left ts x = length (takeWhile (\<lambda>t. t < x) ts)"

definition minutes_to_next :: "event_index \<Rightarrow> time \<Rightarrow> string \<Rightarrow> rat option" where
  "minutes_to_next ix ts ccy =
     (case dict_get ix ccy of
        None \<Rightarrow> None
      | Some evs \<Rightarrow>
          (let i = bisect_left evs ts
           in if evs = [] \<or> i = length evs then None else Some (total_seconds (evs ! i - ts) / 60)))"

definition minutes_since_last :: "event_index \<Rightarrow> time \<Rightarrow> string \<Rightarrow> rat option" where
  "minutes_since_last ix ts ccy =
     (case dict_get ix ccy of
        None \<Rightarrow> None
      | Some evs \<Rightarrow>
          (let i = bisect_left evs ts
           in if evs = [] \<or> i = 0 then None else Some (total_seconds (ts - evs ! (i - 1)) / 60)))"

definition at_most :: "rat option \<Rightarrow> rat \<Rightarrow> bool" where
  "at_most x m = (case x of None \<Rightarrow> False | Some v \<Rightarrow> v \<le> m)"

definition in_blackout :: "event_index \<Rightarrow> time \<Rightarrow> string list \<Rightarrow> rat \<Rightarrow> bool" where
  "in_blackout ix ts ccys m \<longleftrightarrow>
     (\<exists>c \<in> set ccys. at_most (minutes_to_next ix ts c) m \<or> at_most (minutes_since_last ix ts c) m)"

end
