(* ===== verification/Risk_State.thy ===== *)
theory Risk_State
  imports Core_Models
begin

text \<open>
  The persistent state of the risk gate (\<open>risk/state.py\<close>): the halt state, the equity references of the
  loss halts, the decision sequence and the used resume nonces, and the file they are kept in.

  The file is a JSON document with the state and the SHA-256 of its canonical rendering. A file that is
  not such a document is \<open>Unreadable\<close>. The hash of a state is the parameter \<open>digest\<close> (\<open>sha256_hex\<close> of
  \<open>canonical_json\<close>).
\<close>

record risk_state =
  rs_halt :: halt_state
  rs_halt_reason :: string
  rs_halt_since :: "time option"
  rs_day_ref :: "dec option"
  rs_week_ref :: "dec option"
  rs_peak_eod :: "dec option"
  rs_sequence :: int
  rs_used_nonces :: "string list"

definition fresh_state :: risk_state where
  "fresh_state = \<lparr>rs_halt = Normal, rs_halt_reason = [], rs_halt_since = None, rs_day_ref = None,
     rs_week_ref = None, rs_peak_eod = None, rs_sequence = 0, rs_used_nonces = []\<rparr>"

fun severity :: "halt_state \<Rightarrow> nat" where
  "severity Normal = 0"
| "severity ReconHalt = 1"
| "severity DailyHalt = 2"
| "severity WeeklyHalt = 3"
| "severity FullHalt = 4"

lemma severity_inj: "severity a = severity b \<Longrightarrow> a = b"
  by (cases a; cases b) simp_all

lemma severity_full: "severity h \<le> severity FullHalt"
  by (cases h) simp_all

text \<open>The halt states are linearly ordered by severity.\<close>

instantiation halt_state :: linorder
begin

definition less_eq_halt_state :: "halt_state \<Rightarrow> halt_state \<Rightarrow> bool" where
  "less_eq_halt_state a b \<longleftrightarrow> severity a \<le> severity b"

definition less_halt_state :: "halt_state \<Rightarrow> halt_state \<Rightarrow> bool" where
  "less_halt_state a b \<longleftrightarrow> severity a < severity b"

instance
  by standard (auto simp: less_eq_halt_state_def less_halt_state_def intro: severity_inj)

end

lemma full_halt_top [simp]: "(h :: halt_state) \<le> FullHalt"
  by (simp only: less_eq_halt_state_def severity_full)

lemma normal_bot [simp]: "Normal \<le> (h :: halt_state)"
  by (simp add: less_eq_halt_state_def)

lemma full_halt_only [simp]: "FullHalt \<le> h \<longleftrightarrow> h = FullHalt"
  by (cases h) (simp_all add: less_eq_halt_state_def)

section \<open>The state file\<close>

datatype 'st state_file = Missing | Unreadable string | Doc 'st string

definition load_state :: "(risk_state \<Rightarrow> string) \<Rightarrow> risk_state state_file \<Rightarrow> risk_state" where
  "load_state digest f = (case f of
     Missing \<Rightarrow> fresh_state
   | Unreadable e \<Rightarrow> fresh_state\<lparr>rs_halt := FullHalt, rs_halt_reason := ''risk state unreadable: '' @ e\<rparr>
   | Doc body d \<Rightarrow>
       (if digest body \<noteq> d
        then fresh_state\<lparr>rs_halt := FullHalt,
               rs_halt_reason := ''risk state unreadable: state hash mismatch''\<rparr>
        else body))"

definition save_state :: "(risk_state \<Rightarrow> string) \<Rightarrow> risk_state \<Rightarrow> risk_state state_file" where
  "save_state digest s = Doc s (digest s)"

lemma load_save [simp]: "load_state digest (save_state digest s) = s"
  by (simp add: load_state_def save_state_def)

section \<open>Escalation\<close>

definition escalate :: "risk_state \<Rightarrow> halt_state \<Rightarrow> string \<Rightarrow> time \<Rightarrow> bool \<times> risk_state" where
  "escalate s new reason t =
     (if severity new \<le> severity (rs_halt s) then (False, s)
      else (True, s\<lparr>rs_halt := new, rs_halt_reason := reason, rs_halt_since := Some t\<rparr>))"

lemma escalate_up: "escalate s new reason t = (b, s') \<Longrightarrow> rs_halt s \<le> rs_halt s'"
  by (auto simp: escalate_def less_eq_halt_state_def split: if_splits)

lemma escalate_frame:
  "escalate s new reason t = (b, s') \<Longrightarrow>
    rs_sequence s' = rs_sequence s \<and> rs_used_nonces s' = rs_used_nonces s"
  by (auto simp: escalate_def split: if_splits)

lemma escalate_reaches:
  "escalate s new reason t = (b, s') \<Longrightarrow> new \<le> rs_halt s'"
  by (auto simp: escalate_def less_eq_halt_state_def split: if_splits)

end
