(* ===== verification/Risk_Gate.thy ===== *)
theory Risk_Gate
  imports Risk_State
begin

text \<open>
  The risk gate (\<open>risk/gate.py\<close>) and its signed limits (\<open>risk/config.py\<close>). A decision runs the nine
  checks in the order of the code over the work record \<open>work\<close> (the lots that are left, the reasons, the
  rejection flag); every check is a function of its own and \<open>decide\<close> is their composition. A missing
  conversion rate or instrument raises a \<open>KeyError\<close> and a division by zero an arithmetic error, so a
  check returns a sum.

  The time zone database is outside the repository: \<open>gs_local\<close> is the civil time of the cutoff's zone,
  as microseconds since the Monday 1970-01-05 00:00 of that zone.
\<close>

section \<open>Limits\<close>

record weekly_cutoff =
  wc_weekday :: int
  wc_at :: span
  wc_tz :: string

record risk_limits =
  rl_account_currency :: string
  rl_risk_per_trade_default :: dec
  rl_risk_per_trade_max :: dec
  rl_open_risk_per_strategy_max :: dec
  rl_open_risk_total_max :: dec
  rl_same_direction_max :: nat
  rl_leverage_max :: dec
  rl_per_symbol_max_lots :: "(string, dec) dict"
  rl_daily_loss_halt :: dec
  rl_weekly_loss_halt :: dec
  rl_peak_drawdown_halt :: dec
  rl_news_blackout_minutes :: nat
  rl_no_new_entries_after :: weekly_cutoff
  rl_min_free_margin_ratio :: dec
  rl_decision_ttl_seconds :: int
  rl_min_stop_spreads :: dec
  rl_stage_risk_limits :: "(string, dec) dict"

definition check_limits :: "risk_limits \<Rightarrow> bool" where
  "check_limits l \<longleftrightarrow>
     length (rl_account_currency l) = 3 \<and> 0 < rl_risk_per_trade_default l \<and>
     0 < rl_risk_per_trade_max l \<and> rl_risk_per_trade_max l \<le> 2 / 100 \<and>
     0 < rl_open_risk_per_strategy_max l \<and>
     0 < rl_open_risk_total_max l \<and> rl_open_risk_total_max l \<le> 10 / 100 \<and>
     1 \<le> rl_same_direction_max l \<and> 0 < rl_leverage_max l \<and>
     0 < rl_daily_loss_halt l \<and> 0 < rl_weekly_loss_halt l \<and> 0 < rl_peak_drawdown_halt l \<and>
     1 \<le> rl_min_free_margin_ratio l \<and>
     1 \<le> rl_decision_ttl_seconds l \<and> rl_decision_ttl_seconds l \<le> 60 \<and>
     dict_get (rl_per_symbol_max_lots l) ''default'' \<noteq> None"

definition max_lots :: "risk_limits \<Rightarrow> string \<Rightarrow> exn + dec" where
  "max_lots l symbol =
     (case dict_get (rl_per_symbol_max_lots l) ''default'' of
        None \<Rightarrow> Inl (KeyErr ''default'')
      | Some d \<Rightarrow> Inr (case dict_get (rl_per_symbol_max_lots l) symbol of None \<Rightarrow> d | Some x \<Rightarrow> x))"

section \<open>What the gate sees\<close>

record exposure =
  ex_symbol :: string
  ex_side :: side
  ex_lots :: dec
  ex_entry :: dec
  ex_stop :: "dec option"
  ex_strategy_id :: "string option"
  ex_pending :: bool
  ex_external :: bool

record snapshot =
  sn_now :: time
  sn_equity :: dec
  sn_free_margin :: dec
  sn_bid :: dec
  sn_ask :: dec
  sn_exposures :: "exposure list"
  sn_instruments :: "(string, instrument) dict"
  sn_to_account :: "string \<Rightarrow> exn + dec"
  sn_margin_per_lot :: "(string, dec) dict"
  sn_stages :: "(string \<times> string, stage) dict"
  sn_events :: "event_index option"

definition lookup :: "('k \<Rightarrow> string) \<Rightarrow> ('k, 'v) dict \<Rightarrow> 'k \<Rightarrow> exn + 'v" where
  "lookup show_key d k = (case dict_get d k of None \<Rightarrow> Inl (KeyErr (show_key k)) | Some v \<Rightarrow> Inr v)"

section \<open>The work record\<close>

record work =
  wk_lots :: dec
  wk_reasons :: "fmt list"
  wk_rejected :: bool

definition w_init :: "dec \<Rightarrow> work" where
  "w_init lots = \<lparr>wk_lots = lots, wk_reasons = [], wk_rejected = False\<rparr>"

definition w_reject :: "fmt \<Rightarrow> work \<Rightarrow> work" where
  "w_reject why w = w\<lparr>wk_rejected := True, wk_lots := 0, wk_reasons := wk_reasons w @ [why]\<rparr>"

definition w_note :: "fmt \<Rightarrow> work \<Rightarrow> work" where
  "w_note why w = w\<lparr>wk_reasons := wk_reasons w @ [why]\<rparr>"

definition w_cap :: "dec \<Rightarrow> string \<Rightarrow> dec \<Rightarrow> dec \<Rightarrow> work \<Rightarrow> work" where
  "w_cap limit why step min_lot w =
     (if wk_rejected w \<or> wk_lots w \<le> limit then w
      else let capped = floor_step (max limit 0) step
           in if capped < min_lot then w_reject (why @ '': no room'', []) w
              else w\<lparr>wk_lots := capped, wk_reasons := wk_reasons w @ [(''resized: '' @ why, [])]\<rparr>)"

text \<open>
  \<open>w_le w w'\<close>: the later work record allows no more than the earlier one. A rejection is final.
\<close>

definition w_le :: "work \<Rightarrow> work \<Rightarrow> bool" where
  "w_le w' w \<longleftrightarrow> (wk_rejected w \<longrightarrow> wk_rejected w') \<and>
     (\<not> wk_rejected w' \<longrightarrow> wk_lots w' \<le> wk_lots w)"

lemma w_le_refl [simp]: "w_le w w"
  by (simp add: w_le_def)

lemma w_le_trans: "w_le c b \<Longrightarrow> w_le b a \<Longrightarrow> w_le c a"
  by (auto simp: w_le_def)

lemma w_reject_simps [simp]:
  "wk_rejected (w_reject why w)" "w_le (w_reject why w) w"
  by (simp_all add: w_reject_def w_le_def)

lemma w_note_simps [simp]:
  "wk_rejected (w_note why w) = wk_rejected w" "wk_lots (w_note why w) = wk_lots w"
  "w_le (w_note why w) w"
  by (simp_all add: w_note_def w_le_def)

lemma w_cap_limit:
  assumes "0 < step" "0 < min_lot" "\<not> wk_rejected (w_cap limit why step min_lot w)"
  shows "wk_lots (w_cap limit why step min_lot w) \<le> limit"
proof (cases "wk_rejected w \<or> wk_lots w \<le> limit")
  case True
  with assms(3) show ?thesis by (auto simp: w_cap_def)
next
  case False
  let ?c = "floor_step (max limit 0) step"
  from False assms(3) have "min_lot \<le> ?c" by (auto simp: w_cap_def Let_def split: if_splits)
  moreover have "?c \<le> max limit 0" using assms(1) by (rule floor_step_le)
  ultimately have "?c \<le> limit" using assms(2) by (auto simp: max_def split: if_splits)
  with False \<open>min_lot \<le> ?c\<close> show ?thesis by (simp add: w_cap_def Let_def)
qed

lemma w_cap_le:
  assumes "0 < step" "0 < min_lot"
  shows "w_le (w_cap limit why step min_lot w) w"
proof (cases "wk_rejected w \<or> wk_lots w \<le> limit")
  case True
  then show ?thesis by (simp add: w_cap_def)
next
  case False
  with w_cap_limit [OF assms, of limit why w] show ?thesis
    by (auto simp: w_le_def)
qed

lemma w_cap_rejected [simp]: "wk_rejected w \<Longrightarrow> w_cap limit why step min_lot w = w"
  by (simp add: w_cap_def)

section \<open>The nine checks\<close>

text \<open>What \<open>decide\<close> computes before and between the checks.\<close>

record ctx =
  cx_inst :: instrument
  cx_fx :: dec
  cx_stop :: dec
  cx_entry :: dec
  cx_spread :: dec
  cx_dist :: dec
  cx_stage :: "stage option"
  cx_stage_limit :: dec

abbreviation cx_step :: "ctx \<Rightarrow> dec" where "cx_step c \<equiv> in_lot_step (cx_inst c)"
abbreviation cx_min_lot :: "ctx \<Rightarrow> dec" where "cx_min_lot c \<equiv> in_min_lot (cx_inst c)"

definition risk_money :: "risk_limits \<Rightarrow> snapshot \<Rightarrow> exposure \<Rightarrow> exn + dec" where
  "risk_money lm sn e =
     sbind (lookup id (sn_instruments sn) (ex_symbol e)) (\<lambda>inst.
     sbind (sn_to_account sn (in_quote inst)) (\<lambda>fx.
       case ex_stop e of
         None \<Rightarrow>
           (let notional = ex_lots e * in_contract_size inst * ex_entry e * fx
            in Inr (max (notional * (2 / 100)) (sn_equity sn * rl_risk_per_trade_max lm)))
       | Some stop \<Rightarrow>
           (let per_unit = (if ex_side e = Buy then ex_entry e - stop else stop - ex_entry e)
            in Inr (max per_unit 0 * in_contract_size inst * ex_lots e * fx))))"

definition notional_of :: "snapshot \<Rightarrow> exposure \<Rightarrow> exn + dec" where
  "notional_of sn e =
     sbind (lookup id (sn_instruments sn) (ex_symbol e)) (\<lambda>inst.
     sbind (sn_to_account sn (in_quote inst)) (\<lambda>fx.
       Inr (ex_lots e * in_contract_size inst * ex_entry e * fx)))"

definition total_of :: "(exposure \<Rightarrow> exn + dec) \<Rightarrow> exposure list \<Rightarrow> exn + dec" where
  "total_of f es = sbind (smap f es) (\<lambda>xs. Inr (sum_list xs))"

definition gate_ctx :: "risk_limits \<Rightarrow> signal \<Rightarrow> snapshot \<Rightarrow> instrument \<Rightarrow> exn + ctx" where
  "gate_ctx lm sig sn inst =
     sbind (sn_to_account sn (in_quote inst)) (\<lambda>fx.
     sbind (if sg_entry_type sig = MarketEntry
            then Inr (if sg_side sig = Buy then sn_ask sn else sn_bid sn)
            else case sg_entry_price sig of None \<Rightarrow> Inl ArithErr | Some e \<Rightarrow> Inr e) (\<lambda>entry.
       let st = dict_get (sn_stages sn) (sg_strategy_id sig, sg_strategy_version sig) in
       Inr \<lparr>cx_inst = inst, cx_fx = fx, cx_stop = sg_stop_price sig, cx_entry = entry,
            cx_spread = sn_ask sn - sn_bid sn, cx_dist = \<bar>entry - sg_stop_price sig\<bar>,
            cx_stage = st,
            cx_stage_limit = (case st of
               None \<Rightarrow> 0
             | Some x \<Rightarrow> (case dict_get (rl_stage_risk_limits lm) (stage_value x) of
                            None \<Rightarrow> 0 | Some l \<Rightarrow> l))\<rparr>))"

text \<open>1. The halt state allows entries.\<close>

definition check_halt :: "risk_state \<Rightarrow> work \<Rightarrow> work" where
  "check_halt st w =
     (if rs_halt st \<noteq> Normal then w_reject (''halted: {}'', [AStr (halt_value (rs_halt st))]) w else w)"

text \<open>2. The stop is on the correct side and far enough away.\<close>

definition check_stop :: "risk_limits \<Rightarrow> signal \<Rightarrow> snapshot \<Rightarrow> ctx \<Rightarrow> work \<Rightarrow> work" where
  "check_stop lm sig sn c w =
     (if wk_rejected w then w
      else if sg_side sig = Buy \<and> cx_stop c \<ge> cx_entry c \<or> sg_side sig = Sell \<and> cx_stop c \<le> cx_entry c
      then w_reject (''stop on the wrong side of entry'', []) w
      else if \<bar>cx_entry c - cx_stop c\<bar> < rl_min_stop_spreads lm * cx_spread c
      then w_reject (''stop closer than {} x spread'', [ADec (rl_min_stop_spreads lm)]) w
      else if sn_equity sn \<le> 0 then w_reject (''non-positive equity'', []) w
      else w)"

text \<open>3. The gate's own position size.\<close>

definition own_fraction :: "risk_limits \<Rightarrow> intent \<Rightarrow> ctx \<Rightarrow> dec" where
  "own_fraction lm i c =
     (let rf = min (oi_risk_fraction i) (rl_risk_per_trade_max lm)
      in if 0 < cx_stage_limit c then min rf (cx_stage_limit c) else rf)"

definition check_size :: "risk_limits \<Rightarrow> intent \<Rightarrow> snapshot \<Rightarrow> ctx \<Rightarrow> work \<Rightarrow> exn + work" where
  "check_size lm i sn c w =
     (if wk_rejected w then Inr w
      else sbind (ddiv (sn_equity sn * own_fraction lm i c)
                       (cx_dist c * in_contract_size (cx_inst c) * cx_fx c)) (\<lambda>x.
        let own = floor_step x (cx_step c)
        in Inr (if own < cx_min_lot c then w_reject (''size below min lot (never rounded up)'', []) w
                else w_cap own ''independent sizing'' (cx_step c) (cx_min_lot c) w)))"

text \<open>4. Open risk per trade, per strategy and in total.\<close>

definition of_strategy :: "string \<Rightarrow> exposure list \<Rightarrow> exposure list" where
  "of_strategy sid es = filter (\<lambda>e. ex_strategy_id e = Some sid \<and> \<not> ex_external e) es"

definition per_lot_risk :: "ctx \<Rightarrow> dec" where
  "per_lot_risk c = cx_dist c * in_contract_size (cx_inst c) * cx_fx c"

definition check_open_risk :: "risk_limits \<Rightarrow> signal \<Rightarrow> snapshot \<Rightarrow> ctx \<Rightarrow> work \<Rightarrow> exn + work" where
  "check_open_risk lm sig sn c w =
     (if wk_rejected w then Inr w
      else
        let cap = (\<lambda>room why w. sbind (ddiv room (per_lot_risk c)) (\<lambda>x.
                     Inr (w_cap (floor_step x (cx_step c)) why (cx_step c) (cx_min_lot c) w)))
        in sbind (cap (sn_equity sn * rl_risk_per_trade_max lm) ''per-trade risk'' w) (\<lambda>w1.
           sbind (total_of (risk_money lm sn)
                    (of_strategy (sg_strategy_id sig) (sn_exposures sn))) (\<lambda>strat.
           sbind (cap (sn_equity sn * rl_open_risk_per_strategy_max lm - strat)
                    ''strategy open risk'' w1) (\<lambda>w2.
           sbind (total_of (risk_money lm sn) (sn_exposures sn)) (\<lambda>total.
             cap (sn_equity sn * rl_open_risk_total_max lm - total) ''total open risk'' w2)))))"

text \<open>5. Positions in the same currency and direction.\<close>

definition currency_dirs :: "instrument \<Rightarrow> side \<Rightarrow> (string, int) dict" where
  "currency_dirs inst sd =
     (let s = (if sd = Buy then 1 else -1)
      in dict_set (in_quote inst) (- s) [(in_base inst, s)])"

definition same_direction :: "snapshot \<Rightarrow> string \<Rightarrow> int \<Rightarrow> nat" where
  "same_direction sn ccy dir =
     length (filter (\<lambda>e. case dict_get (sn_instruments sn) (ex_symbol e) of
                            None \<Rightarrow> False
                          | Some other \<Rightarrow> dict_get (currency_dirs other (ex_side e)) ccy = Some dir)
                    (sn_exposures sn))"

fun check_dirs :: "risk_limits \<Rightarrow> snapshot \<Rightarrow> (string, int) dict \<Rightarrow> work \<Rightarrow> work" where
  "check_dirs lm sn [] w = w"
| "check_dirs lm sn ((ccy, dir) # ds) w =
     (let n = same_direction sn ccy dir
      in if rl_same_direction_max lm \<le> n
         then w_reject (''{} positions already {} {}'',
                [AInt (int n), AStr (if 0 < dir then ''long'' else ''short''), AStr ccy]) w
         else check_dirs lm sn ds w)"

definition check_currency :: "risk_limits \<Rightarrow> signal \<Rightarrow> snapshot \<Rightarrow> ctx \<Rightarrow> work \<Rightarrow> work" where
  "check_currency lm sig sn c w =
     (if wk_rejected w then w else check_dirs lm sn (currency_dirs (cx_inst c) (sg_side sig)) w)"

text \<open>6. Leverage and lot caps.\<close>

definition lots_on :: "string \<Rightarrow> exposure list \<Rightarrow> dec" where
  "lots_on symbol es = sum_list (map ex_lots (filter (\<lambda>e. ex_symbol e = symbol) es))"

definition check_leverage :: "risk_limits \<Rightarrow> signal \<Rightarrow> snapshot \<Rightarrow> ctx \<Rightarrow> work \<Rightarrow> exn + work" where
  "check_leverage lm sig sn c w =
     (if wk_rejected w then Inr w
      else
        sbind (total_of (notional_of sn) (sn_exposures sn)) (\<lambda>notional.
        sbind (ddiv (sn_equity sn * rl_leverage_max lm - notional)
                    (in_contract_size (cx_inst c) * cx_entry c * cx_fx c)) (\<lambda>x.
        let w1 = w_cap (floor_step x (cx_step c)) ''leverage'' (cx_step c) (cx_min_lot c) w in
        sbind (max_lots lm (sg_symbol sig)) (\<lambda>m.
        let w2 = w_cap (m - lots_on (sg_symbol sig) (sn_exposures sn)) ''symbol lot cap''
                   (cx_step c) (cx_min_lot c) w1
        in Inr (w_cap (in_max_lot (cx_inst c)) ''broker max lot'' (cx_step c) (cx_min_lot c) w2)))))"

text \<open>7. Free margin after the trade.\<close>

definition check_margin :: "risk_limits \<Rightarrow> signal \<Rightarrow> snapshot \<Rightarrow> ctx \<Rightarrow> work \<Rightarrow> exn + work" where
  "check_margin lm sig sn c w =
     (if wk_rejected w then Inr w
      else case dict_get (sn_margin_per_lot sn) (sg_symbol sig) of
        None \<Rightarrow> Inr (w_reject (''no margin data for symbol'', []) w)
      | Some mpl \<Rightarrow>
          if mpl \<le> 0 then Inr (w_reject (''no margin data for symbol'', []) w)
          else sbind (ddiv (sn_free_margin sn) ((rl_min_free_margin_ratio lm + 1) * mpl)) (\<lambda>x.
            Inr (w_cap (floor_step x (cx_step c)) ''margin'' (cx_step c) (cx_min_lot c) w)))"

text \<open>8. News blackout and weekend cutoff.\<close>

definition after_weekly_cutoff :: "risk_limits \<Rightarrow> (string \<Rightarrow> time \<Rightarrow> int) \<Rightarrow> time \<Rightarrow> bool" where
  "after_weekly_cutoff lm civil now =
     (let c = rl_no_new_entries_after lm; l = civil (wc_tz c) now;
          wd = (l div days 1) mod 7; tod = l mod days 1
      in wd > wc_weekday c \<or> wd = wc_weekday c \<and> tod \<ge> wc_at c)"

definition check_time ::
  "risk_limits \<Rightarrow> (string \<Rightarrow> time \<Rightarrow> int) \<Rightarrow> snapshot \<Rightarrow> ctx \<Rightarrow> work \<Rightarrow> work" where
  "check_time lm civil sn c w =
     (if wk_rejected w then w
      else if (case sn_events sn of
                 None \<Rightarrow> False
               | Some ix \<Rightarrow> in_blackout ix (sn_now sn) [in_base (cx_inst c), in_quote (cx_inst c)]
                              (of_nat (rl_news_blackout_minutes lm)))
      then w_reject (''news blackout'', []) w
      else if after_weekly_cutoff lm civil (sn_now sn)
      then w_reject (''no new entries after the weekly cutoff'', []) w
      else w)"

text \<open>9. The strategy's stage trades.\<close>

definition stage_trades :: "ctx \<Rightarrow> bool" where
  "stage_trades c \<longleftrightarrow>
     cx_stage c \<in> {Some Micro, Some Live, Some Scaled} \<or> cx_stage c = Some DemoOnly \<and> 0 < cx_stage_limit c"

definition check_stage :: "intent \<Rightarrow> ctx \<Rightarrow> work \<Rightarrow> work" where
  "check_stage i c w =
     (if wk_rejected w then w
      else
        let w1 = (if cx_stage c = Some DemoOnly
                  then w_cap (cx_min_lot c) ''demo_only: minimum size'' (cx_step c) (cx_min_lot c) w
                  else w)
        in if \<not> stage_trades c
           then w_reject (''stage {} does not trade'',
                  [AStr (case cx_stage c of None \<Rightarrow> ''unknown'' | Some s \<Rightarrow> stage_value s)]) w1
           else if cx_stage_limit c < oi_risk_fraction i
           then w_note (''risk fraction capped to stage limit {}'', [ADec (cx_stage_limit c)]) w1
           else w1)"

definition run_checks ::
  "risk_limits \<Rightarrow> (string \<Rightarrow> time \<Rightarrow> int) \<Rightarrow> risk_state \<Rightarrow> intent \<Rightarrow> snapshot \<Rightarrow> exn + work" where
  "run_checks lm civil st i sn =
     (let sig = oi_signal i; w = w_init (oi_proposed_lots i) in
      case dict_get (sn_instruments sn) (sg_symbol sig) of
        None \<Rightarrow> Inr (w_reject (''unknown instrument {}'', [AStr (sg_symbol sig)]) w)
      | Some inst \<Rightarrow>
          sbind (gate_ctx lm sig sn inst) (\<lambda>c.
          sbind (check_size lm i sn c (check_stop lm sig sn c (check_halt st w))) (\<lambda>w3.
          sbind (check_open_risk lm sig sn c w3) (\<lambda>w4.
          sbind (check_leverage lm sig sn c (check_currency lm sig sn c w4)) (\<lambda>w6.
          sbind (check_margin lm sig sn c w6) (\<lambda>w7.
            Inr (check_stage i c (check_time lm civil sn c w7))))))))"

section \<open>What each check guarantees\<close>

definition wf_ctx :: "ctx \<Rightarrow> bool" where
  "wf_ctx c \<longleftrightarrow> check_lots (cx_inst c) \<and> 0 < cx_fx c \<and> cx_dist c = \<bar>cx_entry c - cx_stop c\<bar>"

lemma wf_ctxD:
  assumes "wf_ctx c"
  shows "0 < cx_step c" "0 < cx_min_lot c" "0 < in_contract_size (cx_inst c)" "0 < cx_fx c"
  using assms by (auto simp: wf_ctx_def check_lots_def)

lemma gate_ctx_simps:
  assumes "gate_ctx lm sig sn inst = Inr c"
  shows "cx_inst c = inst" "cx_stop c = sg_stop_price sig" "cx_dist c = \<bar>cx_entry c - cx_stop c\<bar>"
    "sn_to_account sn (in_quote inst) = Inr (cx_fx c)"
    "cx_spread c = sn_ask sn - sn_bid sn"
    "cx_stage c = dict_get (sn_stages sn) (sg_strategy_id sig, sg_strategy_version sig)"
  using assms by (auto simp: gate_ctx_def Let_def)

text \<open>A cap at a whole number of steps inside \<open>room / p\<close> keeps the money \<open>lots * p\<close> inside the room.\<close>

lemma cap_room:
  assumes "0 < step" "0 < min_lot" "0 < p" "ddiv room p = Inr x"
    and "\<not> wk_rejected (w_cap (floor_step x step) why step min_lot w)"
  shows "wk_lots (w_cap (floor_step x step) why step min_lot w) * p \<le> room"
proof -
  have "wk_lots (w_cap (floor_step x step) why step min_lot w) \<le> floor_step x step"
    using assms(1,2,5) by (rule w_cap_limit)
  also have "\<dots> \<le> x" using assms(1) by (rule floor_step_le)
  also have "x = room / p" using assms(3,4) by (auto simp: ddiv_def)
  finally show ?thesis using assms(3) by (simp add: pos_le_divide_eq)
qed

lemma w_le_money:
  "w_le w' w \<Longrightarrow> \<not> wk_rejected w' \<Longrightarrow> 0 \<le> p \<Longrightarrow> wk_lots w * p \<le> room \<Longrightarrow> wk_lots w' * (p :: dec) \<le> room"
  by (meson mult_right_mono order_trans w_le_def)

lemma w_le_rejected: "w_le w' w \<Longrightarrow> \<not> wk_rejected w' \<Longrightarrow> \<not> wk_rejected w"
  by (auto simp: w_le_def)

lemma check_halt_le: "w_le (check_halt st w) w"
  by (simp add: check_halt_def)

lemma check_halt_ok: "\<not> wk_rejected (check_halt st w) \<Longrightarrow> rs_halt st = Normal"
  by (auto simp: check_halt_def split: if_splits)

lemma check_stop_le: "w_le (check_stop lm sig sn c w) w"
  by (simp add: check_stop_def)

lemma check_stop_ok:
  assumes "\<not> wk_rejected (check_stop lm sig sn c w)"
  shows "if sg_side sig = Buy then cx_stop c < cx_entry c else cx_entry c < cx_stop c"
    and "rl_min_stop_spreads lm * cx_spread c \<le> \<bar>cx_entry c - cx_stop c\<bar>"
    and "0 < sn_equity sn"
  using assms by (cases "sg_side sig"; auto simp: check_stop_def split: if_splits)+

lemma per_lot_risk_pos:
  assumes "wf_ctx c" "\<not> wk_rejected (check_stop lm sig sn c w)"
  shows "0 < per_lot_risk c"
proof -
  have "0 < \<bar>cx_entry c - cx_stop c\<bar>"
    using check_stop_ok(1) [OF assms(2)] by (cases "sg_side sig") auto
  then show ?thesis
    using wf_ctxD [OF assms(1)] assms(1) by (simp add: per_lot_risk_def wf_ctx_def)
qed

lemma check_size_spec:
  assumes "check_size lm i sn c w = Inr w'" "wf_ctx c"
  shows "w_le w' w"
    and "0 < per_lot_risk c \<Longrightarrow> \<not> wk_rejected w' \<Longrightarrow>
          wk_lots w' * per_lot_risk c \<le> sn_equity sn * own_fraction lm i c"
  using assms(1) wf_ctxD(1,2) [OF assms(2)]
  by (auto simp: check_size_def per_lot_risk_def Let_def intro: w_cap_le cap_room split: if_splits)

lemma check_open_risk_spec:
  assumes "check_open_risk lm sig sn c w = Inr w'" "wf_ctx c" "0 < per_lot_risk c"
  shows "w_le w' w"
    and "\<not> wk_rejected w' \<Longrightarrow>
          wk_lots w' * per_lot_risk c \<le> sn_equity sn * rl_risk_per_trade_max lm"
    and "\<not> wk_rejected w' \<Longrightarrow>
          \<exists>strat. total_of (risk_money lm sn) (of_strategy (sg_strategy_id sig) (sn_exposures sn)) = Inr strat
            \<and> strat + wk_lots w' * per_lot_risk c \<le> sn_equity sn * rl_open_risk_per_strategy_max lm"
    and "\<not> wk_rejected w' \<Longrightarrow>
          \<exists>total. total_of (risk_money lm sn) (sn_exposures sn) = Inr total
            \<and> total + wk_lots w' * per_lot_risk c \<le> sn_equity sn * rl_open_risk_total_max lm"
proof -
  note pos = wf_ctxD(1,2) [OF assms(2)]
  let ?cap = "\<lambda>x why w. w_cap (floor_step x (cx_step c)) why (cx_step c) (cx_min_lot c) w"
  have le: "w_le w' w \<and> (\<not> wk_rejected w' \<longrightarrow>
      wk_lots w' * per_lot_risk c \<le> sn_equity sn * rl_risk_per_trade_max lm \<and>
      (\<exists>strat. total_of (risk_money lm sn) (of_strategy (sg_strategy_id sig) (sn_exposures sn)) = Inr strat
        \<and> wk_lots w' * per_lot_risk c \<le> sn_equity sn * rl_open_risk_per_strategy_max lm - strat) \<and>
      (\<exists>total. total_of (risk_money lm sn) (sn_exposures sn) = Inr total
        \<and> wk_lots w' * per_lot_risk c \<le> sn_equity sn * rl_open_risk_total_max lm - total))"
  proof (cases "wk_rejected w")
    case True
    with assms(1) show ?thesis by (simp add: check_open_risk_def)
  next
    case False
    then obtain x1 strat x2 total x3 where
      x1: "ddiv (sn_equity sn * rl_risk_per_trade_max lm) (per_lot_risk c) = Inr x1" and
      strat: "total_of (risk_money lm sn)
                (of_strategy (sg_strategy_id sig) (sn_exposures sn)) = Inr strat" and
      x2: "ddiv (sn_equity sn * rl_open_risk_per_strategy_max lm - strat) (per_lot_risk c) = Inr x2" and
      total: "total_of (risk_money lm sn) (sn_exposures sn) = Inr total" and
      x3: "ddiv (sn_equity sn * rl_open_risk_total_max lm - total) (per_lot_risk c) = Inr x3" and
      w': "w' = ?cap x3 ''total open risk'' (?cap x2 ''strategy open risk'' (?cap x1 ''per-trade risk'' w))"
      using assms(1) by (auto simp: check_open_risk_def Let_def)
    let ?w1 = "?cap x1 ''per-trade risk'' w" and
        ?w2 = "?cap x2 ''strategy open risk'' (?cap x1 ''per-trade risk'' w)"
    have l1: "w_le ?w1 w" and l2: "w_le ?w2 ?w1" and l3: "w_le w' ?w2"
      using pos by (simp_all add: w' w_cap_le)
    note l31 = w_le_trans [OF l3 l2]
    have m: "\<not> wk_rejected w' \<Longrightarrow> \<not> wk_rejected ?w2 \<and> \<not> wk_rejected ?w1"
      using l3 l31 by (auto simp: w_le_def)
    note money = w_le_money [OF _ _ less_imp_le [OF assms(3)]]
    show ?thesis
      using m strat total w_le_trans [OF l31 l1]
        cap_room [OF pos assms(3) x1] cap_room [OF pos assms(3) x2] cap_room [OF pos assms(3) x3]
        money [OF l31] money [OF l3] w'
      by blast
  qed
  from le show "w_le w' w" by blast
  assume nr: "\<not> wk_rejected w'"
  from le nr show "wk_lots w' * per_lot_risk c \<le> sn_equity sn * rl_risk_per_trade_max lm" by blast
  from le nr show "\<exists>strat. total_of (risk_money lm sn)
        (of_strategy (sg_strategy_id sig) (sn_exposures sn)) = Inr strat
        \<and> strat + wk_lots w' * per_lot_risk c \<le> sn_equity sn * rl_open_risk_per_strategy_max lm"
    by (auto simp: algebra_simps)
  from le nr show "\<exists>total. total_of (risk_money lm sn) (sn_exposures sn) = Inr total
        \<and> total + wk_lots w' * per_lot_risk c \<le> sn_equity sn * rl_open_risk_total_max lm"
    by (auto simp: algebra_simps)
qed

lemma check_dirs_le: "w_le (check_dirs lm sn ds w) w"
  by (induction ds) (auto simp: Let_def)

lemma check_dirs_ok:
  "\<not> wk_rejected (check_dirs lm sn ds w) \<Longrightarrow> (ccy, dir) \<in> set ds \<Longrightarrow>
    same_direction sn ccy dir < rl_same_direction_max lm"
  by (induction ds) (auto simp: Let_def split: if_splits)

lemma check_currency_le: "w_le (check_currency lm sig sn c w) w"
  by (simp add: check_currency_def check_dirs_le)

lemma check_currency_ok:
  assumes "\<not> wk_rejected (check_currency lm sig sn c w)"
    and "dict_get (currency_dirs (cx_inst c) (sg_side sig)) ccy = Some dir"
  shows "same_direction sn ccy dir < rl_same_direction_max lm"
  using assms
  by (auto simp: check_currency_def split: if_splits intro: check_dirs_ok dest: map_of_SomeD)

lemma check_leverage_spec:
  assumes "check_leverage lm sig sn c w = Inr w'" "wf_ctx c" "0 < cx_entry c"
  shows "w_le w' w"
    and "\<not> wk_rejected w' \<Longrightarrow>
          \<exists>notional. total_of (notional_of sn) (sn_exposures sn) = Inr notional
            \<and> notional + wk_lots w' * (in_contract_size (cx_inst c) * cx_entry c * cx_fx c)
                \<le> sn_equity sn * rl_leverage_max lm"
    and "\<not> wk_rejected w' \<Longrightarrow>
          \<exists>m. max_lots lm (sg_symbol sig) = Inr m
            \<and> lots_on (sg_symbol sig) (sn_exposures sn) + wk_lots w' \<le> m"
    and "\<not> wk_rejected w' \<Longrightarrow> wk_lots w' \<le> in_max_lot (cx_inst c)"
proof -
  note pos = wf_ctxD(1,2) [OF assms(2)]
  let ?p = "in_contract_size (cx_inst c) * cx_entry c * cx_fx c"
  have p: "0 < ?p" using wf_ctxD(3,4) [OF assms(2)] assms(3) by simp
  let ?c = "\<lambda>l why w. w_cap l why (cx_step c) (cx_min_lot c) w"
  have le: "w_le w' w \<and> (\<not> wk_rejected w' \<longrightarrow>
      (\<exists>notional. total_of (notional_of sn) (sn_exposures sn) = Inr notional
         \<and> wk_lots w' * ?p \<le> sn_equity sn * rl_leverage_max lm - notional) \<and>
      (\<exists>m. max_lots lm (sg_symbol sig) = Inr m
         \<and> wk_lots w' \<le> m - lots_on (sg_symbol sig) (sn_exposures sn)) \<and>
      wk_lots w' \<le> in_max_lot (cx_inst c))"
  proof (cases "wk_rejected w")
    case True
    with assms(1) show ?thesis by (simp add: check_leverage_def)
  next
    case False
    then obtain notional x m where
      n: "total_of (notional_of sn) (sn_exposures sn) = Inr notional" and
      x: "ddiv (sn_equity sn * rl_leverage_max lm - notional) ?p = Inr x" and
      m: "max_lots lm (sg_symbol sig) = Inr m" and
      w': "w' = ?c (in_max_lot (cx_inst c)) ''broker max lot''
                  (?c (m - lots_on (sg_symbol sig) (sn_exposures sn)) ''symbol lot cap''
                    (?c (floor_step x (cx_step c)) ''leverage'' w))"
      using assms(1) by (auto simp: check_leverage_def Let_def)
    let ?w1 = "?c (floor_step x (cx_step c)) ''leverage'' w"
    let ?w2 = "?c (m - lots_on (sg_symbol sig) (sn_exposures sn)) ''symbol lot cap'' ?w1"
    have l1: "w_le ?w1 w" and l2: "w_le ?w2 ?w1" and l3: "w_le w' ?w2"
      using pos by (simp_all add: w' w_cap_le)
    note l31 = w_le_trans [OF l3 l2]
    have r: "\<not> wk_rejected w' \<Longrightarrow> \<not> wk_rejected ?w2 \<and> \<not> wk_rejected ?w1"
      using l3 l31 by (auto simp: w_le_def)
    have b1: "\<not> wk_rejected w' \<Longrightarrow> wk_lots w' * ?p \<le> sn_equity sn * rl_leverage_max lm - notional"
      using w_le_money [OF l31 _ less_imp_le [OF p]] cap_room [OF pos p x] r by blast
    have b2: "\<not> wk_rejected w' \<Longrightarrow> wk_lots w' \<le> m - lots_on (sg_symbol sig) (sn_exposures sn)"
      using w_cap_limit [OF pos] r l3 by (meson order_trans w_le_def)
    have b3: "\<not> wk_rejected w' \<Longrightarrow> wk_lots w' \<le> in_max_lot (cx_inst c)"
      unfolding w' by (rule w_cap_limit [OF pos])
    show ?thesis using n m b1 b2 b3 w_le_trans [OF l31 l1] by blast
  qed
  from le show "w_le w' w" by blast
  assume nr: "\<not> wk_rejected w'"
  from le nr show "\<exists>notional. total_of (notional_of sn) (sn_exposures sn) = Inr notional
      \<and> notional + wk_lots w' * ?p \<le> sn_equity sn * rl_leverage_max lm"
    by (auto simp: algebra_simps)
  from le nr show "\<exists>m. max_lots lm (sg_symbol sig) = Inr m
      \<and> lots_on (sg_symbol sig) (sn_exposures sn) + wk_lots w' \<le> m"
    by (auto simp: algebra_simps)
  from le nr show "wk_lots w' \<le> in_max_lot (cx_inst c)" by blast
qed

lemma check_margin_spec:
  assumes "check_margin lm sig sn c w = Inr w'" "wf_ctx c" "0 < rl_min_free_margin_ratio lm"
  shows "w_le w' w"
    and "\<not> wk_rejected w' \<Longrightarrow>
          \<exists>mpl. dict_get (sn_margin_per_lot sn) (sg_symbol sig) = Some mpl \<and> 0 < mpl
            \<and> rl_min_free_margin_ratio lm * (wk_lots w' * mpl) \<le> sn_free_margin sn - wk_lots w' * mpl"
proof -
  note pos = wf_ctxD(1,2) [OF assms(2)]
  have "w_le w' w \<and> (\<not> wk_rejected w' \<longrightarrow>
      (\<exists>mpl. dict_get (sn_margin_per_lot sn) (sg_symbol sig) = Some mpl \<and> 0 < mpl
        \<and> wk_lots w' * ((rl_min_free_margin_ratio lm + 1) * mpl) \<le> sn_free_margin sn))"
    using assms(1,3) cap_room [OF pos] w_cap_le [OF pos]
    by (auto simp: check_margin_def split: if_splits option.splits)
  then show "w_le w' w"
    and "\<not> wk_rejected w' \<Longrightarrow>
          \<exists>mpl. dict_get (sn_margin_per_lot sn) (sg_symbol sig) = Some mpl \<and> 0 < mpl
            \<and> rl_min_free_margin_ratio lm * (wk_lots w' * mpl) \<le> sn_free_margin sn - wk_lots w' * mpl"
    by (auto simp: algebra_simps)
qed

lemma check_time_le: "w_le (check_time lm civil sn c w) w"
  by (simp add: check_time_def)

lemma check_time_ok:
  assumes "\<not> wk_rejected (check_time lm civil sn c w)"
  shows "\<not> after_weekly_cutoff lm civil (sn_now sn)"
    and "sn_events sn = Some ix \<Longrightarrow>
          \<not> in_blackout ix (sn_now sn) [in_base (cx_inst c), in_quote (cx_inst c)]
              (of_nat (rl_news_blackout_minutes lm))"
  using assms by (auto simp: check_time_def split: if_splits)

lemma check_stage_le: "wf_ctx c \<Longrightarrow> w_le (check_stage i c w) w"
  using w_cap_le wf_ctxD(1,2) w_le_trans [OF w_note_simps(3)] w_le_trans [OF w_reject_simps(2)]
  by (auto simp: check_stage_def Let_def)

lemma check_stage_ok:
  assumes "wf_ctx c" "\<not> wk_rejected (check_stage i c w)"
  shows "stage_trades c"
    and "cx_stage c = Some DemoOnly \<Longrightarrow> wk_lots (check_stage i c w) \<le> cx_min_lot c"
  using assms w_cap_limit [OF wf_ctxD(1,2) [OF assms(1)]]
  by (auto simp: check_stage_def Let_def split: if_splits)

end
