(* ===== verification/Risk_Control.thy ===== *)
theory Risk_Control
  imports Risk_Gate
begin

text \<open>
  The gate object (\<open>RiskGate\<close> in \<open>risk/gate.py\<close>): its state, the file it persists to, the signed
  decisions it handed out, and its operations. The Ed25519 keys are outside the repository: signing and
  the owner's verification are parameters of the environment \<open>gate_env\<close>, as are the content hash of the
  state file, the civil time of a zone and the parser of ISO timestamps.
\<close>

type_synonym token = "(string, string) dict"

record gate_env =
  ge_limits :: risk_limits
  ge_limits_hash :: string
  ge_digest :: "risk_state \<Rightarrow> string"
  ge_sign :: "decision \<Rightarrow> string"
  ge_owner_verify :: "token \<Rightarrow> string \<Rightarrow> bool"
  ge_civil :: "string \<Rightarrow> time \<Rightarrow> int"
  ge_from_iso :: "string \<Rightarrow> time option"

record gate =
  gt_state :: risk_state
  gt_file :: "risk_state state_file"
  gt_sent :: "(signed_decision \<times> intent) list"

definition start_gate :: "gate_env \<Rightarrow> risk_state state_file \<Rightarrow> gate" where
  "start_gate E f = \<lparr>gt_state = load_state (ge_digest E) f, gt_file = f, gt_sent = []\<rparr>"

definition store :: "gate_env \<Rightarrow> risk_state \<Rightarrow> gate \<Rightarrow> gate" where
  "store E s g = g\<lparr>gt_state := s, gt_file := save_state (ge_digest E) s\<rparr>"

section \<open>Decisions\<close>

definition finish :: "gate_env \<Rightarrow> intent \<Rightarrow> work \<Rightarrow> time \<Rightarrow> gate \<Rightarrow> signed_decision \<times> gate" where
  "finish E i w now g =
     (let lots0 = (if wk_rejected w then 0 else min (wk_lots w) (oi_proposed_lots i));
          lots = (if lots0 \<le> 0 then 0 else lots0);
          vd = (if lots0 \<le> 0 then Reject
                else if lots0 = oi_proposed_lots i then Approve else Resize);
          s = (gt_state g)\<lparr>rs_sequence := rs_sequence (gt_state g) + 1\<rparr>;
          d = \<lparr>rd_intent_id = oi_id i, rd_verdict = vd, rd_approved_lots = lots,
               rd_reasons = wk_reasons w, rd_limits_hash = ge_limits_hash E, rd_decided_at = now,
               rd_expires_at = now + rl_decision_ttl_seconds (ge_limits E) * 1000000,
               rd_sequence = rs_sequence s\<rparr>;
          sd = \<lparr>sd_body = d, sd_signature = Some (ge_sign E d)\<rparr>;
          g1 = store E s g
      in (sd, g1\<lparr>gt_sent := gt_sent g1 @ [(sd, i)]\<rparr>))"

definition decide :: "gate_env \<Rightarrow> intent \<Rightarrow> snapshot \<Rightarrow> gate \<Rightarrow> (exn + signed_decision) \<times> gate" where
  "decide E i sn g =
     (case run_checks (ge_limits E) (ge_civil E) (gt_state g) i sn of
        Inl e \<Rightarrow> (Inl e, g)
      | Inr w \<Rightarrow> (let (sd, g') = finish E i w (sn_now sn) g in (Inr sd, g')))"

definition reject_intent :: "gate_env \<Rightarrow> intent \<Rightarrow> fmt \<Rightarrow> time \<Rightarrow> gate \<Rightarrow> signed_decision \<times> gate" where
  "reject_intent E i why now g = finish E i (w_reject why (w_init 0)) now g"

section \<open>Halts\<close>

definition enter :: "gate_env \<Rightarrow> halt_state \<Rightarrow> string \<Rightarrow> time \<Rightarrow> gate \<Rightarrow> halt_command option \<times> gate" where
  "enter E new reason now g =
     (let (changed, s) = escalate (gt_state g) new reason now
      in if changed then (Some (halt_command_for_state new reason now), store E s g) else (None, g))"

definition loss_frac :: "dec option \<Rightarrow> dec \<Rightarrow> dec option" where
  "loss_frac ref equity =
     (case ref of None \<Rightarrow> None | Some r \<Rightarrow> if r = 0 then None else Some ((r - equity) / r))"

definition at_limit :: "dec option \<Rightarrow> dec \<Rightarrow> bool" where
  "at_limit l limit = (case l of None \<Rightarrow> False | Some x \<Rightarrow> x \<ge> limit)"

definition on_account :: "gate_env \<Rightarrow> dec \<Rightarrow> time \<Rightarrow> gate \<Rightarrow> halt_command option \<times> gate" where
  "on_account E equity now g =
     (let lm = ge_limits E; s = gt_state g in
      if at_limit (loss_frac (rs_peak_eod s) equity) (rl_peak_drawdown_halt lm)
      then enter E FullHalt ''peak drawdown limit'' now g
      else if at_limit (loss_frac (rs_week_ref s) equity) (rl_weekly_loss_halt lm)
      then enter E WeeklyHalt ''weekly loss limit'' now g
      else if at_limit (loss_frac (rs_day_ref s) equity) (rl_daily_loss_halt lm)
      then enter E DailyHalt ''daily loss limit'' now g
      else (None, g))"

definition clear_halt :: "risk_state \<Rightarrow> risk_state" where
  "clear_halt s = s\<lparr>rs_halt := Normal, rs_halt_reason := []\<rparr>"

definition roll_day :: "gate_env \<Rightarrow> dec \<Rightarrow> bool \<Rightarrow> gate \<Rightarrow> gate" where
  "roll_day E equity new_week g =
     (let s0 = gt_state g;
          s1 = s0\<lparr>rs_peak_eod := Some (max (dec_or (rs_peak_eod s0) equity) equity),
                  rs_day_ref := Some equity\<rparr>;
          s2 = (if rs_halt s1 = DailyHalt then clear_halt s1 else s1);
          s3 = (if new_week
                then let s = s2\<lparr>rs_week_ref := Some equity\<rparr>
                     in if rs_halt s = WeeklyHalt then clear_halt s else s
                else s2)
      in store E s3 g)"

definition enter_recon_halt :: "gate_env \<Rightarrow> string \<Rightarrow> time \<Rightarrow> gate \<Rightarrow> halt_command option \<times> gate" where
  "enter_recon_halt E reason now g = enter E ReconHalt reason now g"

definition clear_recon_halt :: "gate_env \<Rightarrow> gate \<Rightarrow> bool \<times> gate" where
  "clear_recon_halt E g =
     (if rs_halt (gt_state g) \<noteq> ReconHalt then (False, g)
      else (True, store E (clear_halt (gt_state g)) g))"

definition enter_full_halt :: "gate_env \<Rightarrow> string \<Rightarrow> time \<Rightarrow> gate \<Rightarrow> halt_command option \<times> gate" where
  "enter_full_halt E reason now g = enter E FullHalt reason now g"

definition resume :: "gate_env \<Rightarrow> token \<Rightarrow> string \<Rightarrow> time \<Rightarrow> gate \<Rightarrow> (exn + bool) \<times> gate" where
  "resume E tok sig now g =
     (let s = gt_state g in
      if rs_halt s \<noteq> FullHalt then (Inr False, g)
      else if dict_get tok ''action'' \<noteq> Some ''resume_full_halt'' then (Inr False, g)
      else if \<not> ge_owner_verify E tok sig then (Inr False, g)
      else case dict_get tok ''expires_at'' of
        None \<Rightarrow> (Inl (KeyErr ''expires_at''), g)
      | Some ex \<Rightarrow>
          (case ge_from_iso E ex of
             None \<Rightarrow> (Inl (ValueErr ''invalid isoformat''), g)
           | Some t \<Rightarrow>
               if t < now then (Inr False, g)
               else case dict_get tok ''nonce'' of
                 None \<Rightarrow> (Inl (KeyErr ''nonce''), g)
               | Some nonce \<Rightarrow>
                   if nonce \<in> set (rs_used_nonces s) then (Inr False, g)
                   else (Inr True,
                     store E (clear_halt (s\<lparr>rs_used_nonces := rs_used_nonces s @ [nonce]\<rparr>)) g)))"

section \<open>Runs of the gate\<close>

datatype gate_op =
    OpDecide intent snapshot
  | OpReject intent fmt time
  | OpAccount dec time
  | OpRollDay dec bool
  | OpReconHalt string time
  | OpClearRecon
  | OpFullHalt string time
  | OpResume token string time

fun gate_step :: "gate_env \<Rightarrow> gate_op \<Rightarrow> gate \<Rightarrow> gate" where
  "gate_step E (OpDecide i sn) g = snd (decide E i sn g)"
| "gate_step E (OpReject i why t) g = snd (reject_intent E i why t g)"
| "gate_step E (OpAccount eq t) g = snd (on_account E eq t g)"
| "gate_step E (OpRollDay eq wk) g = roll_day E eq wk g"
| "gate_step E (OpReconHalt r t) g = snd (enter_recon_halt E r t g)"
| "gate_step E OpClearRecon g = snd (clear_recon_halt E g)"
| "gate_step E (OpFullHalt r t) g = snd (enter_full_halt E r t g)"
| "gate_step E (OpResume tok sig t) g = snd (resume E tok sig t g)"

fun gate_run :: "gate_env \<Rightarrow> gate_op list \<Rightarrow> gate \<Rightarrow> gate" where
  "gate_run E [] g = g"
| "gate_run E (x # xs) g = gate_run E xs (gate_step E x g)"

lemmas gate_op_defs = decide_def reject_intent_def finish_def enter_def on_account_def roll_day_def
  enter_recon_halt_def clear_recon_halt_def enter_full_halt_def resume_def escalate_def
  clear_halt_def store_def

text \<open>What one step may do to the halt state.\<close>

definition owner_token :: "gate_env \<Rightarrow> token \<Rightarrow> string \<Rightarrow> time \<Rightarrow> string list \<Rightarrow> bool" where
  "owner_token E tok sig now used \<longleftrightarrow>
     dict_get tok ''action'' = Some ''resume_full_halt'' \<and> ge_owner_verify E tok sig \<and>
     (\<exists>ex t. dict_get tok ''expires_at'' = Some ex \<and> ge_from_iso E ex = Some t \<and> now \<le> t) \<and>
     (\<exists>n. dict_get tok ''nonce'' = Some n \<and> n \<notin> set used)"

lemma resume_cases:
  obtains (refused) r where "resume E tok sig now g = (r, g)" "r \<noteq> Inr True"
  | (resumed) n where "rs_halt (gt_state g) = FullHalt"
      "owner_token E tok sig now (rs_used_nonces (gt_state g))"
      "dict_get tok ''nonce'' = Some n"
      "resume E tok sig now g =
         (Inr True, store E (clear_halt ((gt_state g)\<lparr>rs_used_nonces := rs_used_nonces (gt_state g) @ [n]\<rparr>)) g)"
proof (cases "rs_halt (gt_state g) = FullHalt \<and> owner_token E tok sig now (rs_used_nonces (gt_state g))")
  case True
  then obtain ex t n where "dict_get tok ''expires_at'' = Some ex" "ge_from_iso E ex = Some t" "now \<le> t"
      "dict_get tok ''nonce'' = Some n" "n \<notin> set (rs_used_nonces (gt_state g))"
    by (auto simp: owner_token_def)
  with True show ?thesis by (intro resumed) (simp_all add: resume_def owner_token_def Let_def)
next
  case False
  then have "snd (resume E tok sig now g) = g \<and> fst (resume E tok sig now g) \<noteq> Inr True"
    by (auto simp: resume_def owner_token_def Let_def not_less split: option.splits)
  then show ?thesis by (intro refused [of "fst (resume E tok sig now g)"]) (simp_all add: prod_eq_iff)
qed

lemma finish_state [simp]:
  "gt_state (snd (finish E i w now g)) = (gt_state g)\<lparr>rs_sequence := rs_sequence (gt_state g) + 1\<rparr>"
  "gt_file (snd (finish E i w now g)) = save_state (ge_digest E) (gt_state (snd (finish E i w now g)))"
  by (simp_all add: finish_def store_def Let_def)

lemma decide_cases:
  obtains (raised) e where "run_checks (ge_limits E) (ge_civil E) (gt_state g) i sn = Inl e"
      "decide E i sn g = (Inl e, g)"
  | (decided) w where "run_checks (ge_limits E) (ge_civil E) (gt_state g) i sn = Inr w"
      "decide E i sn g = (Inr (fst (finish E i w (sn_now sn) g)), snd (finish E i w (sn_now sn) g))"
  using that
  by (cases "run_checks (ge_limits E) (ge_civil E) (gt_state g) i sn")
     (auto simp: decide_def split: prod.splits)

lemma enter_cases:
  obtains (stays) "enter E new reason now g = (None, g)" "new \<le> rs_halt (gt_state g)"
  | (enters) "rs_halt (gt_state g) < new"
      "enter E new reason now g = (Some (halt_command_for_state new reason now),
         store E ((gt_state g)\<lparr>rs_halt := new, rs_halt_reason := reason, rs_halt_since := Some now\<rparr>) g)"
proof (cases "new \<le> rs_halt (gt_state g)")
  case True
  then show ?thesis by (intro stays) (simp_all add: enter_def escalate_def less_eq_halt_state_def)
next
  case False
  then show ?thesis
    by (intro enters) (simp_all add: enter_def escalate_def less_halt_state_def less_eq_halt_state_def)
qed

lemma store_simps [simp]:
  "gt_state (store E s g) = s" "gt_file (store E s g) = save_state (ge_digest E) s"
  "gt_sent (store E s g) = gt_sent g"
  by (simp_all add: store_def)

lemma on_account_enter:
  obtains (idle) "on_account E eq now g = (None, g)"
  | (halts) new reason where "on_account E eq now g = enter E new reason now g" "new \<noteq> Normal"
proof -
  have "on_account E eq now g \<in>
      {(None, g), enter E FullHalt ''peak drawdown limit'' now g,
       enter E WeeklyHalt ''weekly loss limit'' now g, enter E DailyHalt ''daily loss limit'' now g}"
    by (simp add: on_account_def Let_def)
  then show ?thesis using idle halts by blast
qed

lemma roll_day_state:
  "rs_halt (gt_state (roll_day E eq wk g)) =
     (if rs_halt (gt_state g) = DailyHalt \<or> rs_halt (gt_state g) = WeeklyHalt \<and> wk then Normal
      else rs_halt (gt_state g))"
  "rs_sequence (gt_state (roll_day E eq wk g)) = rs_sequence (gt_state g)"
  "rs_used_nonces (gt_state (roll_day E eq wk g)) = rs_used_nonces (gt_state g)"
  "gt_file (roll_day E eq wk g) = save_state (ge_digest E) (gt_state (roll_day E eq wk g))"
  "gt_sent (roll_day E eq wk g) = gt_sent g"
  by (simp_all add: roll_day_def Let_def clear_halt_def)

lemma enter_frame:
  "rs_sequence (gt_state (snd (enter E new r t g))) = rs_sequence (gt_state g) \<and>
   rs_used_nonces (gt_state (snd (enter E new r t g))) = rs_used_nonces (gt_state g) \<and>
   gt_sent (snd (enter E new r t g)) = gt_sent g \<and>
   rs_halt (gt_state (snd (enter E new r t g))) = max (rs_halt (gt_state g)) new"
  by (cases rule: enter_cases [of E new r t g]) (simp_all add: max.absorb1 max.absorb4)

section \<open>One-step facts\<close>

lemma step_file:
  assumes "load_state (ge_digest E) (gt_file g) = gt_state g"
  shows "load_state (ge_digest E) (gt_file (gate_step E x g)) = gt_state (gate_step E x g)"
proof (cases x)
  case (OpDecide i sn)
  with assms show ?thesis by (cases rule: decide_cases [of E g i sn]) simp_all
next
  case (OpAccount eq t)
  show ?thesis
  proof (cases rule: on_account_enter [of E eq t g])
    case idle
    with OpAccount assms show ?thesis by simp
  next
    case (halts new reason)
    with OpAccount assms show ?thesis by (cases rule: enter_cases [of E new reason t g]) simp_all
  qed
next
  case (OpReconHalt r t)
  with assms show ?thesis
    by (cases rule: enter_cases [of E ReconHalt r t g]) (simp_all add: enter_recon_halt_def)
next
  case (OpFullHalt r t)
  with assms show ?thesis
    by (cases rule: enter_cases [of E FullHalt r t g]) (simp_all add: enter_full_halt_def)
next
  case (OpResume tok sig t)
  with assms show ?thesis by (cases rule: resume_cases [of E tok sig t g]) simp_all
qed (use assms in \<open>simp_all add: reject_intent_def roll_day_state(4) clear_recon_halt_def\<close>)

lemma step_sequence: "rs_sequence (gt_state g) \<le> rs_sequence (gt_state (gate_step E x g))"
proof (cases x)
  case (OpDecide i sn)
  then show ?thesis by (cases rule: decide_cases [of E g i sn]) simp_all
next
  case (OpAccount eq t)
  then show ?thesis by (cases rule: on_account_enter [of E eq t g]) (simp_all add: enter_frame)
next
  case (OpResume tok sig t)
  then show ?thesis by (cases rule: resume_cases [of E tok sig t g]) (simp_all add: clear_halt_def)
qed (simp_all add: reject_intent_def roll_day_state clear_recon_halt_def clear_halt_def
      enter_recon_halt_def enter_full_halt_def enter_frame)

lemma step_nonces: "set (rs_used_nonces (gt_state g)) \<subseteq> set (rs_used_nonces (gt_state (gate_step E x g)))"
proof (cases x)
  case (OpDecide i sn)
  then show ?thesis by (cases rule: decide_cases [of E g i sn]) simp_all
next
  case (OpAccount eq t)
  then show ?thesis by (cases rule: on_account_enter [of E eq t g]) (simp_all add: enter_frame)
next
  case (OpResume tok sig t)
  then show ?thesis
    by (cases rule: resume_cases [of E tok sig t g]) (auto simp add: clear_halt_def)
qed (simp_all add: reject_intent_def roll_day_state clear_recon_halt_def clear_halt_def
      enter_recon_halt_def enter_full_halt_def enter_frame)

text \<open>A step out of a full halt is an accepted owner token.\<close>

lemma step_full_halt:
  assumes "rs_halt (gt_state g) = FullHalt"
    and "\<And>tok sig t. x = OpResume tok sig t \<Longrightarrow>
          \<not> owner_token E tok sig t (rs_used_nonces (gt_state g))"
  shows "rs_halt (gt_state (gate_step E x g)) = FullHalt"
proof (cases x)
  case (OpDecide i sn)
  with assms(1) show ?thesis by (cases rule: decide_cases [of E g i sn]) simp_all
next
  case (OpAccount eq t)
  with assms(1) show ?thesis
    by (cases rule: on_account_enter [of E eq t g]) (simp_all add: enter_frame max_def)
next
  case (OpResume tok sig t)
  with assms show ?thesis by (cases rule: resume_cases [of E tok sig t g]) auto
qed (use assms(1) in \<open>simp_all add: reject_intent_def roll_day_state clear_recon_halt_def
      enter_recon_halt_def enter_full_halt_def enter_frame max_def\<close>)

text \<open>Decisions sent so far carry distinct sequence numbers below the gate's counter.\<close>

definition sent_inv :: "gate \<Rightarrow> bool" where
  "sent_inv g \<longleftrightarrow>
     sorted_wrt (<) (map (\<lambda>(d, _). rd_sequence (sd_body d)) (gt_sent g)) \<and>
     (\<forall>(d, _) \<in> set (gt_sent g). rd_sequence (sd_body d) \<le> rs_sequence (gt_state g))"

lemma finish_sent:
  "gt_sent (snd (finish E i w now g)) = gt_sent g @ [(fst (finish E i w now g), i)]"
  "rd_sequence (sd_body (fst (finish E i w now g))) = rs_sequence (gt_state g) + 1"
  by (simp_all add: finish_def Let_def)

lemma finish_sent_inv: "sent_inv g \<Longrightarrow> sent_inv (snd (finish E i w now g))"
  by (fastforce simp: sent_inv_def finish_sent sorted_wrt_append)

lemma sent_inv_frame:
  "sent_inv g \<Longrightarrow> gt_sent g' = gt_sent g \<Longrightarrow>
    rs_sequence (gt_state g') = rs_sequence (gt_state g) \<Longrightarrow> sent_inv g'"
  by (simp add: sent_inv_def)

lemma step_sent_inv:
  assumes "sent_inv g"
  shows "sent_inv (gate_step E x g)"
proof (cases x)
  case (OpDecide i sn)
  with assms show ?thesis
    by (cases rule: decide_cases [of E g i sn]) (simp_all add: finish_sent_inv)
next
  case (OpReject i why t)
  with assms show ?thesis by (simp add: reject_intent_def finish_sent_inv)
next
  case (OpAccount eq t)
  with assms show ?thesis
    by (cases rule: on_account_enter [of E eq t g]) (auto simp: enter_frame elim: sent_inv_frame)
next
  case (OpResume tok sig t)
  with assms show ?thesis
    by (cases rule: resume_cases [of E tok sig t g]) (auto simp: clear_halt_def elim: sent_inv_frame)
qed (use assms in \<open>auto simp: roll_day_state clear_recon_halt_def clear_halt_def enter_recon_halt_def
       enter_full_halt_def enter_frame elim!: sent_inv_frame\<close>)

end
