(* ===== verification/Journal.thy ===== *)
theory Journal
  imports Risk_State
begin

text \<open>
  Execution's own record (\<open>execution/journal.py\<close>): the tracked orders, the deals already applied and
  the reconciliation episode, with the file they are written to; and the check of a signed decision
  (\<open>DecisionVerifier\<close> in \<open>core/signing.py\<close>). The Ed25519 verification of the signature over the
  decision's canonical payload is the parameter \<open>sig_ok\<close>.
\<close>

section \<open>Tracked orders\<close>

datatype order_state = Sending | Pending | Open | Closed | Cancelled | Expired | Rejected | Failed

datatype recon_episode = Clean | Unreachable | Resyncing | Stuck

fun is_active :: "order_state \<Rightarrow> bool" where
  "is_active Sending = True"
| "is_active Pending = True"
| "is_active Open = True"
| "is_active _ = False"

record tracked_order =
  tk_client_order_id :: string
  tk_intent_id :: "string option"
  tk_account_id :: string
  tk_tenant_id :: string
  tk_strategy_id :: string
  tk_strategy_version :: string
  tk_symbol :: string
  tk_side :: side
  tk_order_type :: entry_type
  tk_lots :: dec
  tk_requested_price :: "dec option"
  tk_sl :: dec
  tk_tp :: "dec option"
  tk_magic :: int
  tk_state :: order_state
  tk_broker_order_id :: "string option"
  tk_position_id :: "string option"
  tk_created_at :: time
  tk_expires_at :: "time option"
  tk_stop_confirmed :: bool
  tk_note :: string
  tk_entry_price :: "dec option"
  tk_initial_sl :: "dec option"
  tk_opened_lots :: "dec option"
  tk_filled_at :: "time option"
  tk_realized :: dec
  tk_costs :: dec
  tk_out_value :: dec
  tk_out_lots :: dec

record exec_state =
  xs_orders :: "(string, tracked_order) dict"
  xs_seen_deals :: "(string, time) dict"
  xs_deals_cursor :: "time option"
  xs_cash_since :: "time option"
  xs_expected_balance :: "dec option"
  xs_last_decision_sequence :: int
  xs_alerted_external :: "string list"
  xs_recon_episode :: recon_episode

definition empty_exec :: exec_state where
  "empty_exec = \<lparr>xs_orders = [], xs_seen_deals = [], xs_deals_cursor = None, xs_cash_since = None,
     xs_expected_balance = None, xs_last_decision_sequence = -1, xs_alerted_external = [],
     xs_recon_episode = Clean\<rparr>"

text \<open>The model names a tracked order by its key in the dictionary, where the code holds a reference.\<close>

definition active :: "exec_state \<Rightarrow> string list" where
  "active st = map fst (filter (\<lambda>(_, t). is_active (tk_state t)) (xs_orders st))"

definition by_position :: "exec_state \<Rightarrow> string \<Rightarrow> (string \<times> tracked_order) option" where
  "by_position st pid = find_first (\<lambda>(_, t). tk_position_id t = Some pid) (xs_orders st)"

definition by_broker_order :: "exec_state \<Rightarrow> string \<Rightarrow> (string \<times> tracked_order) option" where
  "by_broker_order st oid = find_first (\<lambda>(_, t). tk_broker_order_id t = Some oid) (xs_orders st)"

lemma by_position_Some:
  "by_position st pid = Some (k, t) \<Longrightarrow> (k, t) \<in> set (xs_orders st) \<and> tk_position_id t = Some pid"
  unfolding by_position_def by (drule find_first_Some) auto

section \<open>The journal file\<close>

definition journal_load :: "(exec_state \<Rightarrow> string) \<Rightarrow> exec_state state_file \<Rightarrow> exn + exec_state" where
  "journal_load digest f = (case f of
     Missing \<Rightarrow> Inr empty_exec
   | Unreadable e \<Rightarrow> Inl (JournalCorrupt e)
   | Doc body d \<Rightarrow>
       if digest body \<noteq> d then Inl (JournalCorrupt ''journal hash mismatch'') else Inr body)"

definition seen_deal_retention :: span where
  "seen_deal_retention = days 7"

definition prune_deals :: "time option \<Rightarrow> exec_state \<Rightarrow> exec_state" where
  "prune_deals now st = (case now of
     None \<Rightarrow> st
   | Some n \<Rightarrow> st\<lparr>xs_seen_deals := filter (\<lambda>(_, t). t \<ge> n - seen_deal_retention) (xs_seen_deals st)\<rparr>)"

definition journal_save ::
  "(exec_state \<Rightarrow> string) \<Rightarrow> time option \<Rightarrow> exec_state \<Rightarrow> exec_state \<times> exec_state state_file" where
  "journal_save digest now st = (let st' = prune_deals now st in (st', Doc st' (digest st')))"

lemma journal_roundtrip:
  "journal_save digest now st = (st', f) \<Longrightarrow> journal_load digest f = Inr st'"
  by (auto simp: journal_save_def journal_load_def Let_def)

lemma prune_frame [simp]:
  "xs_orders (prune_deals now st) = xs_orders st"
  "xs_deals_cursor (prune_deals now st) = xs_deals_cursor st"
  "xs_cash_since (prune_deals now st) = xs_cash_since st"
  "xs_expected_balance (prune_deals now st) = xs_expected_balance st"
  "xs_last_decision_sequence (prune_deals now st) = xs_last_decision_sequence st"
  "xs_alerted_external (prune_deals now st) = xs_alerted_external st"
  "xs_recon_episode (prune_deals now st) = xs_recon_episode st"
  by (auto simp: prune_deals_def split: option.splits)

section \<open>Verifying a signed decision\<close>

fun str_in :: "string \<Rightarrow> string \<Rightarrow> bool" where
  "str_in p [] \<longleftrightarrow> p = []"
| "str_in p (c # s) \<longleftrightarrow> take (length p) (c # s) = p \<or> str_in p s"

definition verify_decision ::
  "(decision \<Rightarrow> string \<Rightarrow> bool) \<Rightarrow> signed_decision \<Rightarrow> string \<Rightarrow> time \<Rightarrow> int \<Rightarrow> string + int" where
  "verify_decision sig_ok sd intent_id now seen_seq =
     (let d = sd_body sd in
      if (case sd_signature sd of None \<Rightarrow> True | Some s \<Rightarrow> \<not> sig_ok d s)
      then Inl ''bad or missing risk-gate signature''
      else if rd_intent_id d \<noteq> intent_id then Inl ''decision is for another intent''
      else if now > rd_expires_at d then Inl ''decision expired''
      else if rd_sequence d \<le> seen_seq then Inl ''replayed or out-of-order decision''
      else if rd_verdict d = Reject \<or> rd_approved_lots d \<le> 0
      then Inl ''decision does not approve an order''
      else Inr (rd_sequence d))"

lemma verify_Inr:
  assumes "verify_decision sig_ok sd iid now seen_seq = Inr n"
  shows "\<exists>s. sd_signature sd = Some s \<and> sig_ok (sd_body sd) s"
    and "rd_intent_id (sd_body sd) = iid" "now \<le> rd_expires_at (sd_body sd)"
    and "seen_seq < n" "n = rd_sequence (sd_body sd)"
    and "rd_verdict (sd_body sd) \<noteq> Reject" "0 < rd_approved_lots (sd_body sd)"
  using assms by (auto simp: verify_decision_def Let_def split: if_splits option.splits)

text \<open>Only the signature check names the signature, so only a forged decision raises the alarm.\<close>

lemma verify_signature_message:
  "verify_decision sig_ok sd iid now seen_seq = Inl why \<Longrightarrow>
    str_in ''signature'' why \<longleftrightarrow>
      (case sd_signature sd of None \<Rightarrow> True | Some s \<Rightarrow> \<not> sig_ok (sd_body sd) s)"
  by (auto simp: verify_decision_def Let_def split: if_splits option.splits)

end
