(* ===== verification/Samples.thy ===== *)
theory Samples
  imports Risk_Control Journal
begin

text \<open>Concrete inputs shared by the witnesses: an instrument, the limits, a signal, an intent, a gate.\<close>

definition eurusd :: instrument where
  "eurusd = \<lparr>in_symbol = ''EURUSD'', in_base = ''EUR'', in_quote = ''USD'', in_contract_size = 100000,
     in_pip_size = 1/10000, in_tick_size = 1/100000, in_min_lot = 1/100, in_lot_step = 1/100,
     in_max_lot = 50, in_commission_per_lot = 7, in_swap_long = -13/2, in_swap_short = 6/5,
     in_swap_mode = SwapPoints, in_triple_swap_weekday = 2\<rparr>"

definition limits_yaml :: risk_limits where
  "limits_yaml = \<lparr>rl_account_currency = ''EUR'', rl_risk_per_trade_default = 5/1000,
     rl_risk_per_trade_max = 1/100, rl_open_risk_per_strategy_max = 15/1000,
     rl_open_risk_total_max = 3/100, rl_same_direction_max = 2, rl_leverage_max = 10,
     rl_per_symbol_max_lots = [(''XAUUSD'', 2), (''default'', 5)], rl_daily_loss_halt = 2/100,
     rl_weekly_loss_halt = 5/100, rl_peak_drawdown_halt = 15/100, rl_news_blackout_minutes = 15,
     rl_no_new_entries_after = \<lparr>wc_weekday = 4, wc_at = 64800000000, wc_tz = ''Europe/Belgrade''\<rparr>,
     rl_min_free_margin_ratio = 3, rl_decision_ttl_seconds = 5, rl_min_stop_spreads = 3/2,
     rl_stage_risk_limits = [(''micro'', 1/1000), (''live'', 5/1000), (''scaled'', 1/100)]\<rparr>"

definition sample_signal :: signal where
  "sample_signal = \<lparr>sg_id = ''s1'', sg_strategy_id = ''swing'', sg_strategy_version = ''1'',
     sg_symbol = ''EURUSD'', sg_side = Buy, sg_entry_type = MarketEntry, sg_entry_price = None,
     sg_stop_price = 109/100, sg_target_price = None, sg_expiry_bars = None, sg_created_at = 0,
     sg_reason = ''pullback'', sg_tags = []\<rparr>"

definition sample_intent :: intent where
  "sample_intent = \<lparr>oi_id = ''0123456789abcdef0123456789abcdef'', oi_signal = sample_signal,
     oi_proposed_lots = 1, oi_risk_fraction = 5/1000, oi_account_id = ''a1'', oi_tenant_id = ''default''\<rparr>"

definition sample_snapshot :: snapshot where
  "sample_snapshot = \<lparr>sn_now = 0, sn_equity = 10000, sn_free_margin = 10000, sn_bid = 10998/10000,
     sn_ask = 11/10, sn_exposures = [], sn_instruments = [(''EURUSD'', eurusd)],
     sn_to_account = (\<lambda>_. Inr 1), sn_margin_per_lot = [(''EURUSD'', 1000)],
     sn_stages = [((''swing'', ''1''), Live)], sn_events = None\<rparr>"

definition sample_env :: gate_env where
  "sample_env = \<lparr>ge_limits = limits_yaml, ge_limits_hash = ''h'', ge_digest = (\<lambda>s. rs_halt_reason s),
     ge_sign = (\<lambda>d. rd_intent_id d), ge_owner_verify = (\<lambda>_ s. s = ''owner''),
     ge_civil = (\<lambda>_ t. t), ge_from_iso = (\<lambda>_. Some 10)\<rparr>"

definition sample_gate :: gate where
  "sample_gate = start_gate sample_env Missing"

definition sample_token :: token where
  "sample_token = [(''action'', ''resume_full_halt''), (''expires_at'', ''later''), (''nonce'', ''n1'')]"

lemmas check_defs = run_checks_def gate_ctx_def check_halt_def check_stop_def check_size_def
  check_open_risk_def check_leverage_def check_currency_def check_time_def check_margin_def
  check_stage_def w_init_def w_reject_def w_cap_def w_note_def own_fraction_def per_lot_risk_def
  floor_step_def ddiv_def total_of_def of_strategy_def max_lots_def lots_on_def currency_dirs_def
  same_direction_def after_weekly_cutoff_def days_def stage_trades_def Let_def

lemmas sample_defs = eurusd_def limits_yaml_def sample_signal_def sample_intent_def
  sample_snapshot_def sample_env_def sample_gate_def start_gate_def load_state_def fresh_state_def

end
