(* ===== verification/Risk_Properties.thy ===== *)
theory Risk_Properties
  imports Samples
begin

text \<open>
  The properties of the risk gate, each with a witness at the sample values below: the limits of
  \<open>config/risk.yaml\<close>, a EURUSD account of 10000 and a market buy with a stop 100 pips away.
\<close>

section \<open>Sample values\<close>

lemma sample_checks:
  "run_checks limits_yaml (\<lambda>_ t. t) fresh_state sample_intent sample_snapshot =
     Inr \<lparr>wk_lots = 1/20, wk_reasons = [(''resized: independent sizing'', [])], wk_rejected = False\<rparr>"
  by (simp add: check_defs sample_defs)

lemma sample_decide:
  "\<exists>d g'. decide sample_env sample_intent sample_snapshot sample_gate = (Inr d, g')
     \<and> rd_verdict (sd_body d) = Resize \<and> rd_approved_lots (sd_body d) = 1/20"
  using sample_checks
  by (simp add: decide_def finish_def sample_defs Let_def)

section \<open>What a decision allows\<close>

lemma finish_body:
  fixes E i w now g
  defines "d \<equiv> sd_body (fst (finish E i w now g))"
  shows "rd_verdict d = Reject \<longleftrightarrow> rd_approved_lots d = 0"
    and "rd_approved_lots d \<noteq> 0 \<Longrightarrow>
          \<not> wk_rejected w \<and> rd_approved_lots d = min (wk_lots w) (oi_proposed_lots i)"
    and "0 \<le> rd_approved_lots d"
    and "rd_verdict d = Approve \<Longrightarrow> rd_approved_lots d = oi_proposed_lots i"
    and "rd_verdict d = Resize \<Longrightarrow> rd_approved_lots d < oi_proposed_lots i"
  by (auto simp: d_def finish_def Let_def min_def split: if_splits)

text \<open>C2. The gate never increases size: a decision approves no more lots than the intent proposes,
  never a negative number, exactly zero when it rejects, and an \<open>approve\<close> verdict keeps the
  proposed lots while a \<open>resize\<close> strictly lowers them.\<close>

theorem gate_never_increases:
  assumes "decide E i sn g = (Inr sd, g')" and "0 \<le> oi_proposed_lots i"
  shows "0 \<le> rd_approved_lots (sd_body sd) \<and> rd_approved_lots (sd_body sd) \<le> oi_proposed_lots i \<and>
    (rd_verdict (sd_body sd) = Reject \<longleftrightarrow> rd_approved_lots (sd_body sd) = 0) \<and>
    (rd_verdict (sd_body sd) = Approve \<longrightarrow> rd_approved_lots (sd_body sd) = oi_proposed_lots i) \<and>
    (rd_verdict (sd_body sd) = Resize \<longrightarrow> rd_approved_lots (sd_body sd) < oi_proposed_lots i)"
proof (cases rule: decide_cases [of E g i sn])
  case (decided w)
  note f = finish_body [of E i w "sn_now sn" g]
  from decided assms(1) have sd: "sd = fst (finish E i w (sn_now sn) g)" by simp
  show ?thesis
    using f(1) f(2) f(3) f(4) f(5) assms(2) unfolding sd by fastforce
qed (use assms(1) in simp)

theorem gate_never_increases_witness:
  "\<exists>sd g'. decide sample_env sample_intent sample_snapshot sample_gate = (Inr sd, g') \<and>
     rd_approved_lots (sd_body sd) \<le> 1 \<and> rd_verdict (sd_body sd) = Resize"
proof -
  obtain sd g' where d: "decide sample_env sample_intent sample_snapshot sample_gate = (Inr sd, g')"
    and v: "rd_verdict (sd_body sd) = Resize"
    using sample_decide by blast
  have "0 \<le> oi_proposed_lots sample_intent" by (simp add: sample_intent_def)
  from gate_never_increases [OF d this] d v show ?thesis by (auto simp: sample_intent_def)
qed

text \<open>From a decision that approves lots back to the checks it passed.\<close>

lemma approved_checks:
  assumes "decide E i sn g = (Inr sd, g')" and "rd_verdict (sd_body sd) \<noteq> Reject"
  obtains w where "run_checks (ge_limits E) (ge_civil E) (gt_state g) i sn = Inr w"
    "\<not> wk_rejected w" "rd_approved_lots (sd_body sd) \<le> wk_lots w"
proof (cases rule: decide_cases [of E g i sn])
  case (raised e)
  with assms(1) show ?thesis by simp
next
  case (decided w)
  with assms(1) have "sd = fst (finish E i w (sn_now sn) g)" by simp
  with assms(2) finish_body [of E i w "sn_now sn" g] decided that show ?thesis by fastforce
qed

text \<open>
  An approved run, taken apart: the work record after each check, every later one allowing no more than
  an earlier one. The conversion rate and the entry price are positive (they are market prices);
  everything else comes from the validated instrument and limits.
\<close>

definition approved_run ::
  "risk_limits \<Rightarrow> (string \<Rightarrow> time \<Rightarrow> int) \<Rightarrow> risk_state \<Rightarrow> intent \<Rightarrow> snapshot \<Rightarrow> ctx \<Rightarrow> work \<Rightarrow> bool" where
  "approved_run lm civil st i sn c w \<longleftrightarrow>
     run_checks lm civil st i sn = Inr w \<and> \<not> wk_rejected w \<and>
     dict_get (sn_instruments sn) (sg_symbol (oi_signal i)) = Some (cx_inst c) \<and>
     gate_ctx lm (oi_signal i) sn (cx_inst c) = Inr c \<and>
     check_lots (cx_inst c) \<and> check_limits lm \<and> 0 < cx_fx c \<and> 0 < cx_entry c"

lemma approved_ctx: "approved_run lm civil st i sn c w \<Longrightarrow> wf_ctx c"
  using gate_ctx_simps(3) by (auto simp: approved_run_def wf_ctx_def)

lemma approved_chain:
  assumes "approved_run lm civil st i sn c w"
  obtains w3 w4 w6 w7 where
    "check_size lm i sn c (check_stop lm (oi_signal i) sn c (check_halt st (w_init (oi_proposed_lots i)))) = Inr w3"
    "check_open_risk lm (oi_signal i) sn c w3 = Inr w4"
    "check_leverage lm (oi_signal i) sn c (check_currency lm (oi_signal i) sn c w4) = Inr w6"
    "check_margin lm (oi_signal i) sn c w6 = Inr w7"
    "w = check_stage i c (check_time lm civil sn c w7)"
  using assms by (auto simp: approved_run_def run_checks_def Let_def)

lemma approved_chain_le:
  assumes "approved_run lm civil st i sn c w"
  obtains w3 w4 w6 w7 where
    "check_size lm i sn c (check_stop lm (oi_signal i) sn c (check_halt st (w_init (oi_proposed_lots i)))) = Inr w3"
    "check_open_risk lm (oi_signal i) sn c w3 = Inr w4"
    "check_leverage lm (oi_signal i) sn c (check_currency lm (oi_signal i) sn c w4) = Inr w6"
    "check_margin lm (oi_signal i) sn c w6 = Inr w7"
    "w = check_stage i c (check_time lm civil sn c w7)"
    "w_le w (check_time lm civil sn c w7)" "w_le w w7" "w_le w w6"
    "w_le w (check_currency lm (oi_signal i) sn c w4)" "w_le w w4" "w_le w w3"
    "w_le w (check_stop lm (oi_signal i) sn c (check_halt st (w_init (oi_proposed_lots i))))"
    "w_le w (check_halt st (w_init (oi_proposed_lots i)))"
    "0 < per_lot_risk c"
proof -
  note wfc = approved_ctx [OF assms]
  from assms have nr: "\<not> wk_rejected w" and e: "0 < cx_entry c" and r: "0 < rl_min_free_margin_ratio lm"
    by (auto simp: approved_run_def check_limits_def)
  obtain w3 w4 w6 w7 where
    w3: "check_size lm i sn c (check_stop lm (oi_signal i) sn c (check_halt st (w_init (oi_proposed_lots i)))) = Inr w3" and
    w4: "check_open_risk lm (oi_signal i) sn c w3 = Inr w4" and
    w6: "check_leverage lm (oi_signal i) sn c (check_currency lm (oi_signal i) sn c w4) = Inr w6" and
    w7: "check_margin lm (oi_signal i) sn c w6 = Inr w7" and
    w: "w = check_stage i c (check_time lm civil sn c w7)"
    using assms by (rule approved_chain)
  have l9: "w_le w (check_time lm civil sn c w7)" unfolding w by (rule check_stage_le [OF wfc])
  note l8 = w_le_trans [OF l9 check_time_le]
  note l7 = w_le_trans [OF l8 check_margin_spec(1) [OF w7 wfc r]]
  note l6 = w_le_trans [OF l7 check_leverage_spec(1) [OF w6 wfc e]]
  note l5 = w_le_trans [OF l6 check_currency_le]
  have not3: "\<not> wk_rejected w3"
    using w4 w_le_rejected [OF l5 nr] by (auto simp: check_open_risk_def)
  have plr: "0 < per_lot_risk c"
    by (rule per_lot_risk_pos [OF wfc w_le_rejected [OF check_size_spec(1) [OF w3 wfc] not3]])
  note l4 = w_le_trans [OF l5 check_open_risk_spec(1) [OF w4 wfc plr]]
  note l3 = w_le_trans [OF l4 check_size_spec(1) [OF w3 wfc]]
  show ?thesis
    using that [OF w3 w4 w6 w7 w l9 l8 l7 l6 l5 l4 l3 w_le_trans [OF l3 check_stop_le] plr] .
qed

lemma approved_not_rejected: "approved_run lm civil st i sn c w \<Longrightarrow> \<not> wk_rejected w"
  by (simp add: approved_run_def)

lemma approved_entry:
  assumes "approved_run lm civil st i sn c w"
  shows "rs_halt st = Normal"
    and "if sg_side (oi_signal i) = Buy then cx_stop c < cx_entry c else cx_entry c < cx_stop c"
    and "rl_min_stop_spreads lm * cx_spread c \<le> \<bar>cx_entry c - cx_stop c\<bar>"
    and "0 < per_lot_risk c"
  using assms approved_not_rejected [OF assms] check_halt_ok check_stop_ok w_le_rejected
  by (elim approved_chain_le; blast)+

lemma approved_risk:
  assumes a: "approved_run lm civil st i sn c w"
  shows "wk_lots w * per_lot_risk c \<le> sn_equity sn * own_fraction lm i c"
    and "wk_lots w * per_lot_risk c \<le> sn_equity sn * rl_risk_per_trade_max lm"
    and "\<exists>strat. total_of (risk_money lm sn)
           (of_strategy (sg_strategy_id (oi_signal i)) (sn_exposures sn)) = Inr strat \<and>
           strat + wk_lots w * per_lot_risk c \<le> sn_equity sn * rl_open_risk_per_strategy_max lm"
    and "\<exists>total. total_of (risk_money lm sn) (sn_exposures sn) = Inr total \<and>
           total + wk_lots w * per_lot_risk c \<le> sn_equity sn * rl_open_risk_total_max lm"
proof -
  note wfc = approved_ctx [OF a] and nr = approved_not_rejected [OF a]
  obtain w3 w4 where
    w3: "check_size lm i sn c (check_stop lm (oi_signal i) sn c (check_halt st (w_init (oi_proposed_lots i)))) = Inr w3" and
    w4: "check_open_risk lm (oi_signal i) sn c w3 = Inr w4" and
    le: "w_le w w4" "w_le w w3" and plr: "0 < per_lot_risk c"
    using a by (elim approved_chain_le)
  note money = w_le_money [OF _ nr less_imp_le [OF plr]]
  note n4 = w_le_rejected [OF le(1) nr] and n3 = w_le_rejected [OF le(2) nr]
  show "wk_lots w * per_lot_risk c \<le> sn_equity sn * own_fraction lm i c"
    by (rule money [OF le(2) check_size_spec(2) [OF w3 wfc plr n3]])
  show "wk_lots w * per_lot_risk c \<le> sn_equity sn * rl_risk_per_trade_max lm"
    by (rule money [OF le(1) check_open_risk_spec(2) [OF w4 wfc plr n4]])
  show "\<exists>strat. total_of (risk_money lm sn)
      (of_strategy (sg_strategy_id (oi_signal i)) (sn_exposures sn)) = Inr strat \<and>
      strat + wk_lots w * per_lot_risk c \<le> sn_equity sn * rl_open_risk_per_strategy_max lm"
    using check_open_risk_spec(3) [OF w4 wfc plr n4] money [OF le(1) order_refl] by force
  show "\<exists>total. total_of (risk_money lm sn) (sn_exposures sn) = Inr total \<and>
      total + wk_lots w * per_lot_risk c \<le> sn_equity sn * rl_open_risk_total_max lm"
    using check_open_risk_spec(4) [OF w4 wfc plr n4] money [OF le(1) order_refl] by force
qed

lemma approved_leverage:
  assumes a: "approved_run lm civil st i sn c w"
  shows "\<exists>n. total_of (notional_of sn) (sn_exposures sn) = Inr n \<and>
           n + wk_lots w * (in_contract_size (cx_inst c) * cx_entry c * cx_fx c)
             \<le> sn_equity sn * rl_leverage_max lm"
    and "\<exists>m. max_lots lm (sg_symbol (oi_signal i)) = Inr m \<and>
           lots_on (sg_symbol (oi_signal i)) (sn_exposures sn) + wk_lots w \<le> m"
    and "wk_lots w \<le> in_max_lot (cx_inst c)"
proof -
  note wfc = approved_ctx [OF a] and nr = approved_not_rejected [OF a]
  from a have e: "0 < cx_entry c" by (simp add: approved_run_def)
  let ?p = "in_contract_size (cx_inst c) * cx_entry c * cx_fx c"
  have p: "0 \<le> ?p" using wf_ctxD(3,4) [OF wfc] e by simp
  obtain w4 w6 where
    w6: "check_leverage lm (oi_signal i) sn c (check_currency lm (oi_signal i) sn c w4) = Inr w6" and
    le: "w_le w w6"
    using a by (elim approved_chain_le)
  note n6 = w_le_rejected [OF le nr]
  show "\<exists>n. total_of (notional_of sn) (sn_exposures sn) = Inr n \<and>
      n + wk_lots w * ?p \<le> sn_equity sn * rl_leverage_max lm"
    using check_leverage_spec(2) [OF w6 wfc e n6] w_le_money [OF le nr p order_refl] by force
  show "\<exists>m. max_lots lm (sg_symbol (oi_signal i)) = Inr m \<and>
      lots_on (sg_symbol (oi_signal i)) (sn_exposures sn) + wk_lots w \<le> m"
    using check_leverage_spec(3) [OF w6 wfc e n6] le nr by (force simp: w_le_def)
  show "wk_lots w \<le> in_max_lot (cx_inst c)"
    using check_leverage_spec(4) [OF w6 wfc e n6] le nr by (force simp: w_le_def)
qed

lemma approved_margin:
  assumes a: "approved_run lm civil st i sn c w"
  shows "\<exists>mpl. dict_get (sn_margin_per_lot sn) (sg_symbol (oi_signal i)) = Some mpl \<and> 0 < mpl \<and>
           rl_min_free_margin_ratio lm * (wk_lots w * mpl) \<le> sn_free_margin sn - wk_lots w * mpl"
proof -
  note wfc = approved_ctx [OF a] and nr = approved_not_rejected [OF a]
  from a have r: "0 < rl_min_free_margin_ratio lm" by (auto simp: approved_run_def check_limits_def)
  obtain w6 w7 where w7: "check_margin lm (oi_signal i) sn c w6 = Inr w7" and le: "w_le w w7"
    using a by (elim approved_chain_le)
  obtain mpl where mpl: "dict_get (sn_margin_per_lot sn) (sg_symbol (oi_signal i)) = Some mpl" "0 < mpl"
      "rl_min_free_margin_ratio lm * (wk_lots w7 * mpl) \<le> sn_free_margin sn - wk_lots w7 * mpl"
    using check_margin_spec(2) [OF w7 wfc r w_le_rejected [OF le nr]] by blast
  have "wk_lots w7 * ((rl_min_free_margin_ratio lm + 1) * mpl) \<le> sn_free_margin sn"
    using mpl(3) by (simp add: algebra_simps)
  from w_le_money [OF le nr _ this] mpl r show ?thesis by (auto simp: algebra_simps)
qed

lemma approved_time:
  assumes a: "approved_run lm civil st i sn c w"
  shows "dict_get (currency_dirs (cx_inst c) (sg_side (oi_signal i))) ccy = Some dir \<Longrightarrow>
           same_direction sn ccy dir < rl_same_direction_max lm"
    and "\<not> after_weekly_cutoff lm civil (sn_now sn)"
    and "sn_events sn = Some ix \<Longrightarrow>
           \<not> in_blackout ix (sn_now sn) [in_base (cx_inst c), in_quote (cx_inst c)]
               (of_nat (rl_news_blackout_minutes lm))"
    and "stage_trades c"
    and "cx_stage c = Some DemoOnly \<Longrightarrow> wk_lots w \<le> in_min_lot (cx_inst c)"
proof -
  note wfc = approved_ctx [OF a] and nr = approved_not_rejected [OF a]
  obtain w4 w7 where
    w: "w = check_stage i c (check_time lm civil sn c w7)" and
    le: "w_le w (check_time lm civil sn c w7)" "w_le w (check_currency lm (oi_signal i) sn c w4)"
    using a by (elim approved_chain_le)
  show "dict_get (currency_dirs (cx_inst c) (sg_side (oi_signal i))) ccy = Some dir \<Longrightarrow>
      same_direction sn ccy dir < rl_same_direction_max lm"
    by (rule check_currency_ok [OF w_le_rejected [OF le(2) nr]])
  show "\<not> after_weekly_cutoff lm civil (sn_now sn)"
    by (rule check_time_ok(1) [OF w_le_rejected [OF le(1) nr]])
  show "sn_events sn = Some ix \<Longrightarrow>
      \<not> in_blackout ix (sn_now sn) [in_base (cx_inst c), in_quote (cx_inst c)]
          (of_nat (rl_news_blackout_minutes lm))"
    by (rule check_time_ok(2) [OF w_le_rejected [OF le(1) nr]])
  show "stage_trades c" and "cx_stage c = Some DemoOnly \<Longrightarrow> wk_lots w \<le> in_min_lot (cx_inst c)"
    using check_stage_ok [OF wfc nr [unfolded w]] w by simp_all
qed

section \<open>Properties of approved decisions\<close>

text \<open>The market data an intent is judged on: a known, valid instrument and positive prices.\<close>

definition market_ok :: "risk_limits \<Rightarrow> intent \<Rightarrow> snapshot \<Rightarrow> ctx \<Rightarrow> bool" where
  "market_ok lm i sn c \<longleftrightarrow>
     dict_get (sn_instruments sn) (sg_symbol (oi_signal i)) = Some (cx_inst c) \<and>
     gate_ctx lm (oi_signal i) sn (cx_inst c) = Inr c \<and>
     check_lots (cx_inst c) \<and> check_limits lm \<and> 0 < cx_fx c \<and> 0 < cx_entry c"

lemma approved_decision:
  assumes "decide E i sn g = (Inr sd, g')" "rd_verdict (sd_body sd) \<noteq> Reject"
    and "market_ok (ge_limits E) i sn c"
  obtains w where "approved_run (ge_limits E) (ge_civil E) (gt_state g) i sn c w"
    "rd_approved_lots (sd_body sd) \<le> wk_lots w"
  using approved_checks [OF assms(1,2)] assms(3) by (force simp: approved_run_def market_ok_def)

definition sample_ctx :: ctx where
  "sample_ctx = \<lparr>cx_inst = eurusd, cx_fx = 1, cx_stop = 109/100, cx_entry = 11/10, cx_spread = 2/10000,
     cx_dist = 1/100, cx_stage = Some Live, cx_stage_limit = 5/1000\<rparr>"

lemma sample_market_ok: "market_ok (ge_limits sample_env) sample_intent sample_snapshot sample_ctx"
  by (simp add: market_ok_def sample_ctx_def check_lots_def check_limits_def gate_ctx_def sample_defs)

text \<open>C3. Open risk: after an approved entry, the money at risk of the trade stays within the gate's own
  fraction of equity and the per-trade limit, and together with what is already open (pending entries
  included) within the per-strategy and the total open-risk limits.\<close>

theorem approved_open_risk:
  assumes "decide E i sn g = (Inr sd, g')" and "rd_verdict (sd_body sd) \<noteq> Reject"
    and "market_ok (ge_limits E) i sn c"
  shows "rd_approved_lots (sd_body sd) * per_lot_risk c \<le> sn_equity sn * own_fraction (ge_limits E) i c \<and>
    rd_approved_lots (sd_body sd) * per_lot_risk c
      \<le> sn_equity sn * rl_risk_per_trade_max (ge_limits E) \<and>
    (\<exists>strat. total_of (risk_money (ge_limits E) sn)
        (of_strategy (sg_strategy_id (oi_signal i)) (sn_exposures sn)) = Inr strat \<and>
        strat + rd_approved_lots (sd_body sd) * per_lot_risk c
          \<le> sn_equity sn * rl_open_risk_per_strategy_max (ge_limits E)) \<and>
    (\<exists>total. total_of (risk_money (ge_limits E) sn) (sn_exposures sn) = Inr total \<and>
        total + rd_approved_lots (sd_body sd) * per_lot_risk c
          \<le> sn_equity sn * rl_open_risk_total_max (ge_limits E))"
proof -
  obtain w where a: "approved_run (ge_limits E) (ge_civil E) (gt_state g) i sn c w"
    and le: "rd_approved_lots (sd_body sd) \<le> wk_lots w"
    using approved_decision [OF assms] .
  have "rd_approved_lots (sd_body sd) * per_lot_risk c \<le> wk_lots w * per_lot_risk c"
    using mult_right_mono [OF le] approved_entry(4) [OF a] by simp
  then show ?thesis using approved_risk [OF a] by force
qed

theorem approved_open_risk_witness:
  "\<exists>sd g'. decide sample_env sample_intent sample_snapshot sample_gate = (Inr sd, g') \<and>
     rd_approved_lots (sd_body sd) * 1000 \<le> 10000 * (5/1000)"
proof -
  obtain sd g' where d: "decide sample_env sample_intent sample_snapshot sample_gate = (Inr sd, g')"
    and v: "rd_verdict (sd_body sd) \<noteq> Reject"
    using sample_decide by fastforce
  from approved_open_risk [OF d v sample_market_ok] d show ?thesis
    by (auto simp: per_lot_risk_def own_fraction_def sample_ctx_def sample_defs)
qed

text \<open>C5. Leverage, lot caps and margin: an approved entry keeps the total notional within the leverage
  limit, the lots on the symbol within its cap and the broker's maximum, and leaves a free margin of at
  least the configured multiple of the margin it uses.\<close>

theorem approved_leverage_margin:
  assumes "decide E i sn g = (Inr sd, g')" and "rd_verdict (sd_body sd) \<noteq> Reject"
    and "market_ok (ge_limits E) i sn c"
  shows "(\<exists>n. total_of (notional_of sn) (sn_exposures sn) = Inr n \<and>
        n + rd_approved_lots (sd_body sd) * (in_contract_size (cx_inst c) * cx_entry c * cx_fx c)
          \<le> sn_equity sn * rl_leverage_max (ge_limits E)) \<and>
    (\<exists>m. max_lots (ge_limits E) (sg_symbol (oi_signal i)) = Inr m \<and>
        lots_on (sg_symbol (oi_signal i)) (sn_exposures sn) + rd_approved_lots (sd_body sd) \<le> m) \<and>
    rd_approved_lots (sd_body sd) \<le> in_max_lot (cx_inst c) \<and>
    (\<exists>mpl. dict_get (sn_margin_per_lot sn) (sg_symbol (oi_signal i)) = Some mpl \<and> 0 < mpl \<and>
        rl_min_free_margin_ratio (ge_limits E) * (rd_approved_lots (sd_body sd) * mpl)
          \<le> sn_free_margin sn - rd_approved_lots (sd_body sd) * mpl)"
proof -
  obtain w where a: "approved_run (ge_limits E) (ge_civil E) (gt_state g) i sn c w"
    and le: "rd_approved_lots (sd_body sd) \<le> wk_lots w"
    using approved_decision [OF assms] .
  let ?p = "in_contract_size (cx_inst c) * cx_entry c * cx_fx c"
  have "0 \<le> ?p" using wf_ctxD(3,4) [OF approved_ctx [OF a]] a by (simp add: approved_run_def)
  then have 1: "rd_approved_lots (sd_body sd) * ?p \<le> wk_lots w * ?p" using le by (rule mult_right_mono [rotated])
  obtain mpl where m: "dict_get (sn_margin_per_lot sn) (sg_symbol (oi_signal i)) = Some mpl" "0 < mpl"
      "rl_min_free_margin_ratio (ge_limits E) * (wk_lots w * mpl) \<le> sn_free_margin sn - wk_lots w * mpl"
    using approved_margin [OF a] by blast
  have "0 \<le> (rl_min_free_margin_ratio (ge_limits E) + 1) * mpl"
    using m(2) a by (simp add: approved_run_def check_limits_def)
  from mult_right_mono [OF le this] m(3)
  have "rl_min_free_margin_ratio (ge_limits E) * (rd_approved_lots (sd_body sd) * mpl)
      \<le> sn_free_margin sn - rd_approved_lots (sd_body sd) * mpl"
    by (simp add: algebra_simps)
  then show ?thesis using approved_leverage [OF a] m(1,2) 1 le by force
qed

theorem approved_leverage_margin_witness:
  "\<exists>sd g'. decide sample_env sample_intent sample_snapshot sample_gate = (Inr sd, g') \<and>
     3 * (rd_approved_lots (sd_body sd) * 1000) \<le> 10000 - rd_approved_lots (sd_body sd) * 1000"
proof -
  obtain sd g' where d: "decide sample_env sample_intent sample_snapshot sample_gate = (Inr sd, g')"
    and v: "rd_verdict (sd_body sd) \<noteq> Reject"
    using sample_decide by fastforce
  from approved_leverage_margin [OF d v sample_market_ok] d show ?thesis
    by (auto simp: sample_defs)
qed

text \<open>C6. When the gate approves: the halt state is normal, the stop is on the losing side of the entry
  and far enough away, no currency of the pair has reached its number of same-direction positions, it
  is neither inside a news blackout nor past the weekly cutoff, and the version's stage trades.\<close>

theorem approved_only_when_allowed:
  assumes "decide E i sn g = (Inr sd, g')" and "rd_verdict (sd_body sd) \<noteq> Reject"
    and "market_ok (ge_limits E) i sn c"
  shows "rs_halt (gt_state g) = Normal \<and>
    (if sg_side (oi_signal i) = Buy then cx_stop c < cx_entry c else cx_entry c < cx_stop c) \<and>
    rl_min_stop_spreads (ge_limits E) * cx_spread c \<le> \<bar>cx_entry c - cx_stop c\<bar> \<and>
    (\<forall>ccy dir. dict_get (currency_dirs (cx_inst c) (sg_side (oi_signal i))) ccy = Some dir \<longrightarrow>
       same_direction sn ccy dir < rl_same_direction_max (ge_limits E)) \<and>
    \<not> after_weekly_cutoff (ge_limits E) (ge_civil E) (sn_now sn) \<and>
    (\<forall>ix. sn_events sn = Some ix \<longrightarrow>
       \<not> in_blackout ix (sn_now sn) [in_base (cx_inst c), in_quote (cx_inst c)]
           (of_nat (rl_news_blackout_minutes (ge_limits E)))) \<and>
    stage_trades c \<and>
    (cx_stage c = Some DemoOnly \<longrightarrow> rd_approved_lots (sd_body sd) \<le> in_min_lot (cx_inst c))"
proof -
  obtain w where a: "approved_run (ge_limits E) (ge_civil E) (gt_state g) i sn c w"
    and le: "rd_approved_lots (sd_body sd) \<le> wk_lots w"
    using approved_decision [OF assms] .
  show ?thesis using approved_entry [OF a] approved_time [OF a] le by fastforce
qed

theorem approved_only_when_allowed_witness:
  "\<exists>sd g'. decide sample_env sample_intent sample_snapshot sample_gate = (Inr sd, g') \<and>
     rd_verdict (sd_body sd) \<noteq> Reject \<and> rs_halt (gt_state sample_gate) = Normal \<and>
     stage_trades sample_ctx"
proof -
  obtain sd g' where d: "decide sample_env sample_intent sample_snapshot sample_gate = (Inr sd, g')"
    and v: "rd_verdict (sd_body sd) \<noteq> Reject"
    using sample_decide by fastforce
  from approved_only_when_allowed [OF d v sample_market_ok] d v show ?thesis by blast
qed

section \<open>Properties of the halts\<close>

text \<open>C8. A full halt is left only with an owner-signed resume token: any sequence of decisions, account
  updates, day rolls, reconciliation halts and resume attempts whose tokens the owner's key does not
  verify leaves the gate in FULL_HALT.\<close>

theorem full_halt_sticky:
  assumes "rs_halt (gt_state g) = FullHalt"
    and "\<forall>x \<in> set ops. \<forall>tok sig t. x = OpResume tok sig t \<longrightarrow> \<not> ge_owner_verify E tok sig"
  shows "rs_halt (gt_state (gate_run E ops g)) = FullHalt"
  using assms
proof (induction ops arbitrary: g)
  case (Cons x ops)
  have "rs_halt (gt_state (gate_step E x g)) = FullHalt"
    using Cons.prems by (intro step_full_halt) (auto simp: owner_token_def)
  with Cons show ?case by simp
qed simp

theorem full_halt_sticky_witness:
  "rs_halt (gt_state (gate_run sample_env
     [OpRollDay 20000 True, OpClearRecon, OpResume sample_token ''forged'' 0]
     (start_gate sample_env (Unreadable ''x'')))) = FullHalt"
  by (rule full_halt_sticky) (simp_all add: start_gate_def load_state_def sample_env_def)

text \<open>The nonces of the resume tokens that a run accepts, in order.\<close>

fun accepted_nonces :: "gate_env \<Rightarrow> gate_op list \<Rightarrow> gate \<Rightarrow> string list" where
  "accepted_nonces E [] g = []"
| "accepted_nonces E (x # xs) g =
     (case x of
        OpResume tok sig t \<Rightarrow>
          (if fst (resume E tok sig t g) = Inr True
           then (case dict_get tok ''nonce'' of None \<Rightarrow> [] | Some n \<Rightarrow> [n]) else [])
      | _ \<Rightarrow> []) @ accepted_nonces E xs (gate_step E x g)"

text \<open>A resume nonce works once: in any run of the gate the nonces of the accepted resume tokens are
  pairwise different and none of them was used before the run.\<close>

theorem nonce_single_use:
  "distinct (accepted_nonces E ops g) \<and>
   set (accepted_nonces E ops g) \<inter> set (rs_used_nonces (gt_state g)) = {}"
proof (induction ops arbitrary: g)
  case (Cons x ops)
  note IH = Cons.IH [of "gate_step E x g"] and mono = step_nonces [of g E x]
  show ?case
  proof (cases "\<exists>tok sig t. x = OpResume tok sig t")
    case True
    then obtain tok sig t where x: "x = OpResume tok sig t" by blast
    show ?thesis
    proof (cases rule: resume_cases [of E tok sig t g])
      case (refused r)
      with x IH mono show ?thesis by auto
    next
      case (resumed n)
      with x IH show ?thesis by (auto simp: owner_token_def clear_halt_def)
    qed
  next
    case False
    then have "accepted_nonces E (x # ops) g = accepted_nonces E ops (gate_step E x g)"
      by (auto split: gate_op.split)
    with IH mono show ?thesis by auto
  qed
qed simp

text \<open>The gate survives restarts: whatever operations ran, loading the state file gives back exactly the
  state in memory, so a halt, the sequence counter and the used nonces outlive the process.\<close>

theorem gate_restart:
  "gt_state (start_gate E (gt_file (gate_run E ops (start_gate E f)))) =
   gt_state (gate_run E ops (start_gate E f))"
proof -
  have "load_state (ge_digest E) (gt_file (gate_run E ops g)) = gt_state (gate_run E ops g)"
    if "load_state (ge_digest E) (gt_file g) = gt_state g" for g
    using that
  proof (induction ops arbitrary: g)
    case (Cons x ops)
    from step_file [OF Cons.prems] have "load_state (ge_digest E) (gt_file (gate_step E x g)) =
        gt_state (gate_step E x g)" .
    from Cons.IH [OF this] show ?case by simp
  qed simp
  then show ?thesis by (simp add: start_gate_def)
qed

text \<open>A damaged state file fails closed: an unreadable document, or one whose content does not match its
  digest, loads as FULL_HALT; and a document that loads as anything but FULL_HALT carries the digest of
  exactly the state it loads.\<close>

theorem damaged_state_fails_closed:
  "rs_halt (load_state digest (Unreadable e)) = FullHalt \<and>
   (digest body \<noteq> d \<longrightarrow> rs_halt (load_state digest (Doc body d)) = FullHalt) \<and>
   (rs_halt (load_state digest (Doc body d)) \<noteq> FullHalt \<longrightarrow>
      load_state digest (Doc body d) = body \<and> digest body = d)"
  by (simp add: load_state_def)

theorem damaged_state_fails_closed_witness:
  "rs_halt (load_state rs_halt_reason (Doc fresh_state ''tampered'')) = FullHalt"
proof -
  have "rs_halt_reason fresh_state \<noteq> ''tampered''" by (simp add: fresh_state_def)
  with damaged_state_fails_closed [of rs_halt_reason "[]" fresh_state "''tampered''"]
  show ?thesis by blast
qed

text \<open>The loss halts: after an account update the gate is in FULL_HALT when the loss from the peak has
  reached its limit, in WEEKLY_HALT or worse when the weekly loss has, and in DAILY_HALT or worse when the
  daily loss has; an account update never lowers the halt, and it publishes a halt command exactly when
  the halt rises, for the halt it rises to.\<close>

theorem loss_halts:
  fixes E g eq now
  defines "s \<equiv> gt_state g" and "s' \<equiv> gt_state (snd (on_account E eq now g))"
  shows "(at_limit (loss_frac (rs_peak_eod s) eq) (rl_peak_drawdown_halt (ge_limits E)) \<longrightarrow> rs_halt s' = FullHalt) \<and>
    (at_limit (loss_frac (rs_week_ref s) eq) (rl_weekly_loss_halt (ge_limits E)) \<longrightarrow> WeeklyHalt \<le> rs_halt s') \<and>
    (at_limit (loss_frac (rs_day_ref s) eq) (rl_daily_loss_halt (ge_limits E)) \<longrightarrow> DailyHalt \<le> rs_halt s') \<and>
    rs_halt s \<le> rs_halt s' \<and>
    (case fst (on_account E eq now g) of
       None \<Rightarrow> rs_halt s' = rs_halt s
     | Some cmd \<Rightarrow> rs_halt s < rs_halt s' \<and> hc_state cmd = rs_halt s')"
proof -
  have o: "DailyHalt \<le> WeeklyHalt" by (simp add: less_eq_halt_state_def)
  have e: "rs_halt (gt_state (snd (enter E new r now g))) = max (rs_halt s) new \<and>
      (case fst (enter E new r now g) of
         None \<Rightarrow> max (rs_halt s) new = rs_halt s
       | Some cmd \<Rightarrow> rs_halt s < max (rs_halt s) new \<and> hc_state cmd = max (rs_halt s) new)" for new r
    unfolding s_def
    by (cases rule: enter_cases [of E new r now g])
       (simp_all add: max.absorb1 max.absorb4 halt_command_for_state_def)
  show ?thesis
    using e [of FullHalt "''peak drawdown limit''"] e [of WeeklyHalt "''weekly loss limit''"]
      e [of DailyHalt "''daily loss limit''"] o
    by (auto simp: on_account_def Let_def s_def s'_def le_max_iff_disj max.absorb2 split: option.splits)
qed

theorem loss_halts_witness:
  "rs_halt (gt_state (snd (on_account sample_env 8000 5 (roll_day sample_env 10000 True sample_gate)))) = FullHalt"
proof -
  let ?g = "roll_day sample_env 10000 True sample_gate"
  have "at_limit (loss_frac (rs_peak_eod (gt_state ?g)) 8000) (rl_peak_drawdown_halt (ge_limits sample_env))"
    by (simp add: roll_day_def dec_or_def loss_frac_def at_limit_def sample_defs Let_def)
  then show ?thesis using loss_halts [of ?g 8000 sample_env 5] by blast
qed

text \<open>Every decision of a run of the gate, rejections included, has its own sequence number, and the
  numbers rise in the order the decisions were handed out.\<close>

theorem decision_sequence:
  assumes "g = gate_run E ops (start_gate E f)"
  shows "sorted_wrt (<) (map (\<lambda>(d, _). rd_sequence (sd_body d)) (gt_sent g)) \<and>
    (\<forall>(d, _) \<in> set (gt_sent g). rd_sequence (sd_body d) \<le> rs_sequence (gt_state g))"
proof -
  have "sent_inv (gate_run E ops g)" if "sent_inv g" for g
    using that
  proof (induction ops arbitrary: g)
    case (Cons x ops)
    from Cons.IH [OF step_sent_inv [OF Cons.prems]] show ?case by simp
  qed simp
  moreover have "sent_inv (start_gate E f)" by (simp add: sent_inv_def start_gate_def)
  ultimately have "sent_inv g" using assms by blast
  then show ?thesis by (simp add: sent_inv_def)
qed

theorem decision_sequence_witness:
  "let g = gate_run sample_env [OpReject sample_intent (''a'', []) 0, OpReject sample_intent (''b'', []) 1] sample_gate
   in map (\<lambda>(d, _). rd_sequence (sd_body d)) (gt_sent g) = [1, 2] \<and> rs_sequence (gt_state g) = 2 \<and>
      sorted_wrt (<) (map (\<lambda>(d, _). rd_sequence (sd_body d)) (gt_sent g))"
proof -
  let ?ops = "[OpReject sample_intent (''a'', []) 0, OpReject sample_intent (''b'', []) 1]"
  have r: "map (\<lambda>(d, _). rd_sequence (sd_body d)) (gt_sent (gate_run sample_env ?ops sample_gate)) = [1, 2]"
      "rs_sequence (gt_state (gate_run sample_env ?ops sample_gate)) = 2"
    by (simp_all add: reject_intent_def finish_sent finish_state sample_gate_def start_gate_def
        load_state_def fresh_state_def)
  have "sorted_wrt (<) (map (\<lambda>(d, _). rd_sequence (sd_body d))
      (gt_sent (gate_run sample_env ?ops (start_gate sample_env Missing))))"
    using decision_sequence [OF refl, of sample_env ?ops Missing] by blast
  with r show ?thesis by (simp add: sample_gate_def Let_def del: gate_run.simps)
qed

section \<open>Where the stage limit does not bind\<close>

text \<open>Limits that name no live stage, and an intent that asks for a tenth of the equity.\<close>

definition no_stage_limits :: risk_limits where
  "no_stage_limits = limits_yaml\<lparr>rl_stage_risk_limits := [(''micro'', 1/1000)]\<rparr>"

definition greedy_intent :: intent where
  "greedy_intent = sample_intent\<lparr>oi_risk_fraction := 1/10\<rparr>"

text \<open>Check 9 is documented as \<open>risk fraction within the stage limit\<close>, but a trading stage that the signed
  limits give no entry (or an entry of zero) is sized with the full per-trade maximum: there is a live
  version with no stage limit whose entry is approved at a risk above any positive stage limit of the
  default configuration.\<close>

theorem stage_limit_missing_fails_open:
  "run_checks no_stage_limits (\<lambda>_ t. t) fresh_state greedy_intent sample_snapshot =
     Inr \<lparr>wk_lots = 1/10,
          wk_reasons = [(''resized: independent sizing'', []),
                        (''risk fraction capped to stage limit {}'', [ADec 0])],
          wk_rejected = False\<rparr> \<and>
   check_limits no_stage_limits"
  by (simp add: check_defs sample_defs no_stage_limits_def greedy_intent_def check_limits_def)

end
