(* ===== verification/Broker_Api.thy ===== *)
theory Broker_Api
  imports Journal
begin

text \<open>
  The broker interface (\<open>execution/adapter.py\<close>) and what the order manager relies on.

  An adapter is a record of operations on a world \<open>'w\<close>: the broker, the network and the clock. Every
  call may change the world, also when it raises \<open>BrokerUnavailableError\<close> (\<open>Unavailable\<close>): the request
  may or may not have been applied.

  The locale \<open>broker_contract\<close> states the laws the order manager's "never place twice" rests on.
  \<open>entries w c\<close> counts the entries that ever reached the broker under the client order id \<open>c\<close> and were
  filled or are still pending; \<open>settled w c\<close> says that each of them can still be seen in the lists of
  positions and pending orders.
\<close>

record 'w adapter =
  ad_now :: "'w \<Rightarrow> time"
  ad_account :: "('w, account_info) se"
  ad_place :: "place_request \<Rightarrow> ('w, broker_ack) se"
  ad_modify :: "modify_request \<Rightarrow> ('w, broker_ack) se"
  ad_cancel :: "string \<Rightarrow> ('w, broker_ack) se"
  ad_close :: "string \<Rightarrow> dec option \<Rightarrow> ('w, broker_ack) se"
  ad_positions :: "('w, broker_position list) se"
  ad_orders :: "('w, broker_order list) se"
  ad_deals :: "time \<Rightarrow> ('w, broker_deal list) se"

definition calm :: "('w \<Rightarrow> string \<Rightarrow> nat) \<Rightarrow> ('w \<Rightarrow> bool) \<Rightarrow> 'w \<Rightarrow> 'w \<Rightarrow> bool" where
  "calm entries good w w' \<longleftrightarrow> (good w \<longrightarrow> good w' \<and> (\<forall>c. entries w' c \<le> entries w c))"

interpretation calm: step_rel "calm entries good"
  by unfold_locales (auto simp: calm_def intro: order_trans)

locale broker_contract =
  fixes A :: "'w adapter"
    and good :: "'w \<Rightarrow> bool"
    and entries :: "'w \<Rightarrow> string \<Rightarrow> nat"
    and settled :: "'w \<Rightarrow> string \<Rightarrow> bool"
  assumes account_calm: "keeps (calm entries good) (ad_account A)"
    and modify_calm: "keeps (calm entries good) (ad_modify A mr)"
    and cancel_calm: "keeps (calm entries good) (ad_cancel A oid)"
    and close_calm: "keeps (calm entries good) (ad_close A pid lots)"
    and positions_calm: "keeps (calm entries good) (ad_positions A)"
    and orders_calm: "keeps (calm entries good) (ad_orders A)"
    and deals_calm: "keeps (calm entries good) (ad_deals A since)"
    and place_good: "good w \<Longrightarrow> ad_place A req w = (r, w') \<Longrightarrow> good w'"
    and place_entries: "good w \<Longrightarrow> ad_place A req w = (r, w') \<Longrightarrow>
      entries w' c \<le> entries w c + (if c = pr_client_order_id req then 1 else 0)"
    and untouched_settled: "good w \<Longrightarrow> entries w c = 0 \<Longrightarrow> settled w c"
    and place_settled: "good w \<Longrightarrow> settled w c \<Longrightarrow> ad_place A req w = (r, w') \<Longrightarrow> settled w' c"
    and positions_settled: "good w \<Longrightarrow> settled w c \<Longrightarrow> ad_positions A w = (rp, w') \<Longrightarrow> settled w' c"
    and orders_settled: "good w \<Longrightarrow> settled w c \<Longrightarrow> ad_orders A w = (ro, w') \<Longrightarrow> settled w' c"
    and search_complete: "good w \<Longrightarrow> settled w c \<Longrightarrow>
      ad_positions A w = (Inr ps, w1) \<Longrightarrow> \<forall>p \<in> set ps. bp_comment p \<noteq> c \<Longrightarrow>
      ad_orders A w1 = (Inr os, w2) \<Longrightarrow> \<forall>ord \<in> set os. bo_comment ord \<noteq> c \<Longrightarrow>
      entries w2 c = 0"

end
