(* ===== verification/Order_Manager.thy ===== *)
theory Order_Manager
  imports Broker_Api "HOL-Library.Product_Lexorder" "HOL-Library.List_Lexorder" "HOL-Library.Char_ord"
begin

text \<open>
  The order manager (\<open>execution/order_manager.py\<close>, with \<open>execution/quotes.py\<close> and
  \<open>execution/config.py\<close>): the only code that sends orders to a broker. Its state is the record \<open>om\<close>:
  the world behind the adapter, the journal in memory and on disk, the verifier's last sequence number,
  what was last reported per order, the quote book, and the outputs in order (alerts, and the events,
  fills, trades and quality rows of the three callbacks, which the bus service always installs).

  Every operation is a computation of type \<open>('w om, _) se\<close>; a \<open>BrokerUnavailableError\<close> of an adapter
  call leaves the mutations made before it in place. A tracked order is addressed by its key.
\<close>

section \<open>Configuration, quotes, outputs\<close>

record exec_config =
  ec_reconcile_interval_seconds :: flt
  ec_watchdog_timeout_seconds :: flt
  ec_watched_services :: "string list"
  ec_stop_confirm_attempts :: nat
  ec_max_quote_age_seconds :: flt
  ec_send_grace_seconds :: flt
  ec_balance_tolerance :: dec
  ec_deal_lookback_seconds :: flt

fun status_of :: "order_state \<Rightarrow> order_status" where
  "status_of Sending = OsNew"
| "status_of Pending = OsPlaced"
| "status_of Open = OsFilled"
| "status_of Closed = OsFilled"
| "status_of Cancelled = OsCancelled"
| "status_of Expired = OsExpired"
| "status_of Rejected = OsRejected"
| "status_of Failed = OsRejected"

text \<open>
  \<open>_record_fill\<close> writes a quality row and a fill with the same values; one event \<open>EvFill\<close> stands for the
  pair (the quality row keeps the optional spread, the fill message carries zero when there is none).
\<close>

datatype om_event =
    EvPlaced time order_view
  | EvModified time order_view
  | EvCancelled time string string
  | EvFill fill_record
  | EvTrade trade_record

definition quote_update :: "quote \<Rightarrow> (string, quote) dict \<Rightarrow> (string, quote) dict" where
  "quote_update q book =
     (case dict_get book (qt_symbol q) of
        None \<Rightarrow> dict_set (qt_symbol q) q book
      | Some prev \<Rightarrow> if qt_time q \<ge> qt_time prev then dict_set (qt_symbol q) q book else book)"

definition quote_fresh :: "(string, quote) dict \<Rightarrow> string \<Rightarrow> time \<Rightarrow> flt \<Rightarrow> quote option" where
  "quote_fresh book symbol now max_age =
     (case dict_get book symbol of
        None \<Rightarrow> None
      | Some q \<Rightarrow> if total_seconds (now - qt_time q) > max_age then None else Some q)"

section \<open>Rounding and stops\<close>

definition round_price :: "flt \<Rightarrow> nat \<Rightarrow> rounding \<Rightarrow> dec" where
  "round_price x digits mode = of_int (round_int mode (x * 10 ^ digits)) / 10 ^ digits"

fun stop_rounding :: "side \<Rightarrow> rounding" where
  "stop_rounding Buy = Ceiling"
| "stop_rounding Sell = Floor"

definition stop_protects :: "side \<Rightarrow> dec option \<Rightarrow> dec \<Rightarrow> bool" where
  "stop_protects sd broker_sl wanted =
     (case broker_sl of
        None \<Rightarrow> False
      | Some b \<Rightarrow> if b \<le> 0 then False else if sd = Buy then wanted \<le> b else b \<le> wanted)"

section \<open>State and environment\<close>

type_synonym seen = "order_state \<times> dec \<times> dec \<times> string option"

definition seen_of :: "tracked_order \<Rightarrow> seen" where
  "seen_of t = (tk_state t, tk_sl t, tk_lots t, tk_broker_order_id t)"

record 'w om =
  om_world :: 'w
  om_st :: exec_state
  om_disk :: "exec_state state_file"
  om_last_seq :: int
  om_reported :: "(string, seen) dict"
  om_quotes :: "(string, quote) dict"
  om_alerts :: "alert list"
  om_events :: "om_event list"

record 'w om_env =
  oe_adapter :: "'w adapter"
  oe_cfg :: exec_config
  oe_account_id :: string
  oe_symbols :: "(string, symbol_info) dict"
  oe_to_account :: "string \<Rightarrow> dec"
  oe_sig_ok :: "decision \<Rightarrow> string \<Rightarrow> bool"
  oe_digest :: "exec_state \<Rightarrow> string"

definition om_init :: "'w om_env \<Rightarrow> 'w \<Rightarrow> exec_state state_file \<Rightarrow> int \<Rightarrow> exn + 'w om" where
  "om_init E w disk verifier_seq =
     sbind (journal_load (oe_digest E) disk) (\<lambda>st.
       Inr \<lparr>om_world = w, om_st = st, om_disk = disk,
            om_last_seq = max verifier_seq (xs_last_decision_sequence st),
            om_reported = map (\<lambda>(k, t). (k, seen_of t)) (xs_orders st),
            om_quotes = [], om_alerts = [], om_events = []\<rparr>)"

abbreviation om_now :: "'w om_env \<Rightarrow> 'w om \<Rightarrow> time" where
  "om_now E s \<equiv> ad_now (oe_adapter E) (om_world s)"

abbreviation om_orders :: "'w om \<Rightarrow> (string, tracked_order) dict" where
  "om_orders s \<equiv> xs_orders (om_st s)"

definition call :: "('w, 'a) se \<Rightarrow> ('w om, 'a) se" where
  "call m = (\<lambda>s. case m (om_world s) of (r, w) \<Rightarrow> (r, s\<lparr>om_world := w\<rparr>))"

definition upd_st :: "(exec_state \<Rightarrow> exec_state) \<Rightarrow> ('w om, unit) se" where
  "upd_st f = modif (\<lambda>s. s\<lparr>om_st := f (om_st s)\<rparr>)"

definition upd_order :: "string \<Rightarrow> (tracked_order \<Rightarrow> tracked_order) \<Rightarrow> ('w om, unit) se" where
  "upd_order coid f = upd_st (\<lambda>st. st\<lparr>xs_orders := dict_upd coid f (xs_orders st)\<rparr>)"

definition with_order :: "string \<Rightarrow> (tracked_order \<Rightarrow> ('w om, 'a) se) \<Rightarrow> ('w om, 'a) se" where
  "with_order coid f =
     bnd (gets (\<lambda>s. dict_get (om_orders s) coid))
         (\<lambda>x. case x of None \<Rightarrow> raise (KeyErr coid) | Some t \<Rightarrow> f t)"

definition emit :: "om_event list \<Rightarrow> ('w om, unit) se" where
  "emit es = modif (\<lambda>s. s\<lparr>om_events := om_events s @ es\<rparr>)"

definition send_alert ::
  "'w om_env \<Rightarrow> alert_severity \<Rightarrow> string \<Rightarrow> fmt \<Rightarrow> (string \<times> string) list \<Rightarrow> ('w om, unit) se" where
  "send_alert E sev kind msg details =
     modif (\<lambda>s. s\<lparr>om_alerts := om_alerts s @
       [\<lparr>al_severity = sev, al_kind = kind, al_message = msg, al_at = om_now E s, al_details = details\<rparr>]\<rparr>)"

section \<open>Saving and reporting\<close>

definition order_view_of :: "tracked_order \<Rightarrow> time \<Rightarrow> order_view" where
  "order_view_of t now = \<lparr>ov_client_order_id = tk_client_order_id t,
     ov_broker_order_id = tk_broker_order_id t, ov_account_id = tk_account_id t,
     ov_tenant_id = tk_tenant_id t, ov_strategy_id = tk_strategy_id t,
     ov_strategy_version = tk_strategy_version t, ov_symbol = tk_symbol t, ov_side = tk_side t,
     ov_entry_type = tk_order_type t, ov_status = status_of (tk_state t), ov_lots = tk_lots t,
     ov_price = tk_requested_price t, ov_sl = tk_sl t, ov_tp = tk_tp t,
     ov_created_at = tk_created_at t, ov_updated_at = now\<rparr>"

definition cancel_reason :: "tracked_order \<Rightarrow> string" where
  "cancel_reason t =
     (let st = (if tk_state t = Cancelled then ''cancelled'' else ''expired'')
      in if tk_note t \<noteq> [] then st @ '': '' @ tk_note t else st)"

fun report_orders ::
  "time \<Rightarrow> (string, tracked_order) dict \<Rightarrow> (string, seen) dict \<Rightarrow> (string, seen) dict \<times> om_event list" where
  "report_orders now [] rep = (rep, [])"
| "report_orders now ((coid, t) # ts) rep =
     (if dict_get rep coid = Some (seen_of t) then report_orders now ts rep
      else
        let ev = (if tk_state t = Cancelled \<or> tk_state t = Expired
                  then EvCancelled now coid (cancel_reason t)
                  else if dict_get rep coid = None then EvPlaced now (order_view_of t now)
                  else EvModified now (order_view_of t now));
            (rep', evs) = report_orders now ts (dict_set coid (seen_of t) rep)
        in (rep', ev # evs))"

definition save :: "'w om_env \<Rightarrow> ('w om, unit) se" where
  "save E = modif (\<lambda>s.
     let now = om_now E s;
         st0 = (om_st s)\<lparr>xs_last_decision_sequence := om_last_seq s\<rparr>;
         (st1, f) = journal_save (oe_digest E) (Some now) st0;
         (rep, evs) = report_orders now (xs_orders st1) (om_reported s)
     in s\<lparr>om_st := st1, om_disk := f, om_reported := rep, om_events := om_events s @ evs\<rparr>)"

definition initialize :: "'w om_env \<Rightarrow> ('w om, unit) se" where
  "initialize E =
     bnd (gets (\<lambda>s. xs_cash_since (om_st s))) (\<lambda>since.
       if since = None
       then bnd (call (ad_account (oe_adapter E))) (\<lambda>acct.
            bnd (gets (om_now E)) (\<lambda>now.
            seq (upd_st (\<lambda>st. st\<lparr>xs_cash_since := Some now, xs_deals_cursor := Some now,
                                xs_expected_balance := Some (ai_balance acct)\<rparr>))
                (save E)))
       else ret ())"

definition find_at_broker :: "'w om_env \<Rightarrow> string \<Rightarrow> ('w om, broker_position option \<times> string option) se" where
  "find_at_broker E coid =
     bnd (call (ad_positions (oe_adapter E))) (\<lambda>ps.
       case find_first (\<lambda>p. bp_comment p = coid) ps of
         Some p \<Rightarrow> ret (Some p, None)
       | None \<Rightarrow>
           bnd (call (ad_orders (oe_adapter E))) (\<lambda>os.
             ret (None, map_option bo_broker_order_id (find_first (\<lambda>ord. bo_comment ord = coid) os))))"

section \<open>Fills and closed trades\<close>

definition opened :: "string \<Rightarrow> dec \<Rightarrow> dec \<Rightarrow> ('w om, unit) se" where
  "opened coid price lots = upd_order coid (\<lambda>t.
     if tk_entry_price t = None
     then t\<lparr>tk_entry_price := Some price, tk_opened_lots := Some lots, tk_initial_sl := Some (tk_sl t),
            tk_filled_at := Some (case tk_filled_at t of None \<Rightarrow> tk_created_at t | Some x \<Rightarrow> x)\<rparr>
     else t)"

definition closed_trade :: "'w om_env \<Rightarrow> string \<Rightarrow> time \<Rightarrow> ('w om, unit) se" where
  "closed_trade E coid exit_time = with_order coid (\<lambda>t.
     case tk_entry_price t of
       None \<Rightarrow> ret ()
     | Some entry \<Rightarrow>
         if tk_out_lots t = 0 then ret ()
         else case dict_get (oe_symbols E) (tk_symbol t) of
           None \<Rightarrow> raise (KeyErr (tk_symbol t))
         | Some info \<Rightarrow>
             (let stop = (case tk_initial_sl t of None \<Rightarrow> tk_sl t | Some x \<Rightarrow> x);
                  lots = dec_or (tk_opened_lots t) (tk_out_lots t);
                  mar = \<bar>entry - stop\<bar> * si_contract_size info * lots * oe_to_account E (tk_symbol t);
                  net = tk_realized t - tk_costs t
              in if mar \<le> 0
                 then send_alert E Warning ''trade_without_risk''
                        (''closed trade with no money at risk'', []) [(''order'', tk_client_order_id t)]
                 else emit [EvTrade \<lparr>tr_trade_id = tk_client_order_id t,
                        tr_account_id = tk_account_id t, tr_tenant_id = tk_tenant_id t,
                        tr_strategy_id = tk_strategy_id t, tr_strategy_version = tk_strategy_version t,
                        tr_symbol = tk_symbol t, tr_side = tk_side t, tr_lots = lots,
                        tr_entry_time = (case tk_filled_at t of None \<Rightarrow> tk_created_at t | Some x \<Rightarrow> x),
                        tr_entry_price = entry, tr_stop_price = stop, tr_exit_time = exit_time,
                        tr_exit_price = tk_out_value t / tk_out_lots t, tr_pnl_gross = tk_realized t,
                        tr_costs = tk_costs t, tr_pnl_net = net, tr_money_at_risk = mar,
                        tr_r_multiple = net / mar, tr_mae = 0, tr_mfe = 0\<rparr>]))"

definition record_fill :: "'w om_env \<Rightarrow> string \<Rightarrow> dec \<Rightarrow> dec \<Rightarrow> flt \<Rightarrow> dec \<Rightarrow> ('w om, unit) se" where
  "record_fill E coid price lots latency commission = with_order coid (\<lambda>t.
     bnd (gets (\<lambda>s. (dict_get (om_quotes s) (tk_symbol t), om_now E s))) (\<lambda>(q, now).
       emit [EvFill \<lparr>fr_client_order_id = tk_client_order_id t, fr_account_id = tk_account_id t,
         fr_tenant_id = tk_tenant_id t, fr_strategy_id = tk_strategy_id t,
         fr_strategy_version = tk_strategy_version t, fr_symbol = tk_symbol t,
         fr_side = tk_side t, fr_order_type = tk_order_type t, fr_price = price, fr_lots = lots, fr_commission = commission,
         fr_spread_at_fill = map_option (\<lambda>x. qt_ask x - qt_bid x) q,
         fr_requested_price = tk_requested_price t,
         fr_slippage = map_option (\<lambda>r. if tk_side t = Buy then price - r else r - price)
                         (tk_requested_price t),
         fr_latency_ms = latency, fr_filled_at = now\<rparr>]))"

section \<open>Stops\<close>

definition position_at_broker :: "'w om_env \<Rightarrow> string \<Rightarrow> ('w om, broker_position option) se" where
  "position_at_broker E pid =
     bnd (call (ad_positions (oe_adapter E))) (\<lambda>ps.
       ret (find_first (\<lambda>p. bp_position_id p = pid) ps))"

definition modify_stop :: "string \<Rightarrow> dec \<Rightarrow> dec option \<Rightarrow> modify_request" where
  "modify_stop pid sl tp =
     \<lparr>mr_position_id = Some pid, mr_broker_order_id = None, mr_sl = Some sl, mr_tp = tp\<rparr>"

definition confirmed :: "string \<Rightarrow> ('w om, unit) se" where
  "confirmed coid = upd_order coid (\<lambda>t. t\<lparr>tk_stop_confirmed := True\<rparr>)"

fun repair_stop :: "'w om_env \<Rightarrow> nat \<Rightarrow> string \<Rightarrow> string \<Rightarrow> ('w om, bool) se" where
  "repair_stop E 0 coid pid = ret False"
| "repair_stop E (Suc n) coid pid = with_order coid (\<lambda>t.
     seq (catch_unavailable
            (bnd (call (ad_modify (oe_adapter E) (modify_stop pid (tk_sl t) (tk_tp t)))) (\<lambda>_. ret ()))
            (\<lambda>e. ret ()))
     (bnd (position_at_broker E pid) (\<lambda>pos.
        if (case pos of None \<Rightarrow> True | Some p \<Rightarrow> stop_protects (tk_side t) (bp_sl p) (tk_sl t))
        then seq (confirmed coid) (seq (save E)
               (bnd (send_alert E Info ''stop_repaired'' (''stop set after fill'', []) [(''position'', pid)])
                  (\<lambda>_. ret True)))
        else repair_stop E n coid pid)))"

datatype stop_check = Protected | Exposed broker_ack | NotConfirmed

definition check_stop_at_broker :: "'w om_env \<Rightarrow> string \<Rightarrow> string \<Rightarrow> ('w om, stop_check) se" where
  "check_stop_at_broker E coid pid = with_order coid (\<lambda>t.
     bnd (position_at_broker E pid) (\<lambda>pos.
       case pos of
         None \<Rightarrow> ret Protected
       | Some p \<Rightarrow>
           if stop_protects (tk_side t) (bp_sl p) (tk_sl t)
           then seq (confirmed coid) (seq (save E) (ret Protected))
           else
             seq (send_alert E Critical ''missing_stop'' (''position without its stop after fill'', [])
                    [(''position'', pid)])
             (bnd (repair_stop E (ec_stop_confirm_attempts (oe_cfg E)) coid pid) (\<lambda>ok.
                if ok then ret Protected
                else bnd (call (ad_close (oe_adapter E) pid None)) (\<lambda>ack. ret (Exposed ack))))))"

definition confirm_stop :: "'w om_env \<Rightarrow> string \<Rightarrow> ('w om, bool) se" where
  "confirm_stop E coid = with_order coid (\<lambda>t.
     case tk_position_id t of
       None \<Rightarrow> ret True
     | Some pid \<Rightarrow>
         if tk_state t \<noteq> Open then ret True
         else
           bnd (catch_unavailable (check_stop_at_broker E coid pid)
                  (\<lambda>e. seq (send_alert E Critical ''missing_stop'' (''cannot confirm stop: {}'', [AStr e])
                             [(''position'', pid)])
                       (ret NotConfirmed)))
             (\<lambda>r. case r of
                Protected \<Rightarrow> ret True
              | NotConfirmed \<Rightarrow> ret False
              | Exposed ack \<Rightarrow>
                  seq (if ak_ok ack
                       then seq (upd_order coid (\<lambda>t. t\<lparr>tk_note := ''closed: stop could not be set''\<rparr>))
                              (send_alert E Critical ''missing_stop''
                                 (''stop could not be set; position closed'', []) [(''position'', pid)])
                       else send_alert E Critical ''missing_stop''
                              (''stop could not be set and close failed: {}'',
                               [AStr (case ak_error ack of None \<Rightarrow> ''None'' | Some e \<Rightarrow> e)])
                              [(''position'', pid)])
                  (seq (save E) (ret False))))"

definition tighten_stop :: "'w om_env \<Rightarrow> string \<Rightarrow> flt \<Rightarrow> ('w om, bool) se" where
  "tighten_stop E pid new_stop =
     bnd (gets (\<lambda>s. by_position (om_st s) pid)) (\<lambda>r. case r of
       None \<Rightarrow> ret False
     | Some (coid, t) \<Rightarrow>
         if tk_state t \<noteq> Open then ret False
         else case dict_get (oe_symbols E) (tk_symbol t) of
           None \<Rightarrow> raise (KeyErr (tk_symbol t))
         | Some info \<Rightarrow>
             (let sl = round_price new_stop (si_digits info) (stop_rounding (tk_side t)) in
              if \<not> (if tk_side t = Buy then sl > tk_sl t else sl < tk_sl t) then ret False
              else bnd (call (ad_modify (oe_adapter E) (modify_stop pid sl (tk_tp t)))) (\<lambda>ack.
                   seq (when_do (ak_ok ack) (seq (upd_order coid (\<lambda>t. t\<lparr>tk_sl := sl\<rparr>)) (save E)))
                       (ret (ak_ok ack)))))"

definition close_position :: "'w om_env \<Rightarrow> string \<Rightarrow> string \<Rightarrow> ('w om, bool) se" where
  "close_position E pid reason =
     bnd (call (ad_close (oe_adapter E) pid None)) (\<lambda>ack.
     bnd (gets (\<lambda>s. by_position (om_st s) pid)) (\<lambda>r.
     seq (case r of
            None \<Rightarrow> ret ()
          | Some (coid, t) \<Rightarrow>
              when_do (ak_ok ack) (seq (upd_order coid (\<lambda>t. t\<lparr>tk_note := reason\<rparr>)) (save E)))
         (ret (ak_ok ack))))"

section \<open>Entries\<close>

record exec_result =
  er_client_order_id :: string
  er_state :: "order_state option"
  er_placed :: bool
  er_reason :: fmt

definition exec_result_of :: "string \<Rightarrow> order_state option \<Rightarrow> bool \<Rightarrow> fmt \<Rightarrow> exec_result" where
  "exec_result_of coid st placed why =
     \<lparr>er_client_order_id = coid, er_state = st, er_placed = placed, er_reason = why\<rparr>"

definition adopt :: "'w om_env \<Rightarrow> string \<Rightarrow> broker_position option \<Rightarrow> string option \<Rightarrow> ('w om, unit) se" where
  "adopt E coid pos order_id = (case pos of
     Some p \<Rightarrow>
       seq (upd_order coid (\<lambda>t. t\<lparr>tk_state := Open, tk_position_id := Some (bp_position_id p),
                                  tk_lots := bp_lots p\<rparr>))
       (seq (opened coid (bp_price_open p) (bp_lots p))
       (seq (save E)
       (seq (record_fill E coid (bp_price_open p) (bp_lots p) 0 0)
       (bnd (confirm_stop E coid) (\<lambda>_. ret ())))))
   | None \<Rightarrow>
       (case order_id of
          None \<Rightarrow> ret ()
        | Some oid \<Rightarrow>
            seq (upd_order coid (\<lambda>t. t\<lparr>tk_state := Pending, tk_broker_order_id := Some oid\<rparr>)) (save E)))"

datatype send_outcome = FoundAtBroker | Acked broker_ack | NoAnswer

fun send_attempts :: "'w om_env \<Rightarrow> nat \<Rightarrow> string \<Rightarrow> place_request \<Rightarrow> ('w om, send_outcome) se" where
  "send_attempts E 0 coid req = ret NoAnswer"
| "send_attempts E (Suc n) coid req =
     catch_unavailable
       (bnd (find_at_broker E coid) (\<lambda>(pos, oid).
          if pos \<noteq> None \<or> oid \<noteq> None
          then seq (adopt E coid pos oid) (ret FoundAtBroker)
          else bnd (call (ad_place (oe_adapter E) req)) (\<lambda>ack. ret (Acked ack))))
       (\<lambda>e. send_attempts E n coid req)"

definition send_order :: "'w om_env \<Rightarrow> string \<Rightarrow> place_request \<Rightarrow> ('w om, exec_result) se" where
  "send_order E coid req =
     bnd (gets (om_now E)) (\<lambda>sent_at.
     bnd (send_attempts E 2 coid req) (\<lambda>out. case out of
       FoundAtBroker \<Rightarrow>
         with_order coid (\<lambda>t. ret (exec_result_of coid (Some (tk_state t)) True (''found at broker'', [])))
     | NoAnswer \<Rightarrow>
         seq (send_alert E Warning ''order_unconfirmed''
                (''broker did not answer; reconciliation will resolve the order'', [])
                [(''client_order_id'', coid)])
             (ret (exec_result_of coid (Some Sending) False (''broker unavailable'', [])))
     | Acked ack \<Rightarrow>
         bnd (gets (om_now E)) (\<lambda>now.
         let elapsed = total_seconds (now - sent_at) * 1000;
             latency = (if elapsed = 0 then ak_latency_ms ack else elapsed) in
         if \<not> ak_ok ack
         then let why = (case ak_error ack of None \<Rightarrow> ''rejected by broker''
                         | Some e \<Rightarrow> if e = [] then ''rejected by broker'' else e)
              in seq (upd_order coid (\<lambda>t. t\<lparr>tk_state := Rejected, tk_note := why\<rparr>))
                   (seq (save E) (ret (exec_result_of coid (Some Rejected) False (why, []))))
         else with_order coid (\<lambda>t.
           if tk_order_type t = MarketEntry
           then let price = dec_or (ak_filled_price ack) (dec_or (tk_requested_price t) 0);
                    lots = (case ak_filled_lots ack of None \<Rightarrow> tk_lots t | Some l \<Rightarrow> l)
                in seq (upd_order coid (\<lambda>t. t\<lparr>tk_state := Open, tk_position_id := ak_position_id ack,
                                           tk_lots := lots\<rparr>))
                   (seq (opened coid price lots)
                   (seq (save E)
                   (seq (record_fill E coid price lots latency 0)
                   (bnd (confirm_stop E coid) (\<lambda>_.
                    with_order coid (\<lambda>t. ret (exec_result_of coid (Some (tk_state t)) True ([], []))))))))
           else seq (upd_order coid (\<lambda>t. t\<lparr>tk_state := Pending, tk_broker_order_id := ak_broker_order_id ack\<rparr>))
                  (seq (save E)
                    (with_order coid (\<lambda>t.
                       ret (exec_result_of coid (Some (tk_state t)) True ([], []))))))) ))"

definition lots_invalid :: "intent \<Rightarrow> dec \<Rightarrow> symbol_info \<Rightarrow> exn + bool" where
  "lots_invalid i lots info =
     (if \<not> (0 < lots \<and> lots \<le> oi_proposed_lots i) then Inr True
      else sbind (ddiv lots (si_lot_step info)) (\<lambda>_.
        Inr (off_step lots (si_lot_step info) \<or> lots < si_min_lot info)))"

text \<open>\<open>sig.entry_price or 0.0\<close>.\<close>

definition entry_or_zero :: "signal \<Rightarrow> flt" where
  "entry_or_zero sig = (case sg_entry_price sig of None \<Rightarrow> 0 | Some x \<Rightarrow> x)"

definition expiry_time :: "signal \<Rightarrow> timeframe \<Rightarrow> time option" where
  "expiry_time sig tf =
     (if sg_entry_type sig = MarketEntry then None
      else case sg_expiry_bars sig of
        None \<Rightarrow> None
      | Some n \<Rightarrow> if n = 0 then None else Some (sg_created_at sig + minutes (n * tf_minutes tf)))"

definition place_request_of ::
  "string \<Rightarrow> signal \<Rightarrow> symbol_info \<Rightarrow> dec \<Rightarrow> dec option \<Rightarrow> time option \<Rightarrow> place_request" where
  "place_request_of coid sig info lots price expires =
     \<lparr>pr_client_order_id = coid, pr_symbol = sg_symbol sig, pr_side = sg_side sig,
      pr_order_type = sg_entry_type sig, pr_lots = lots, pr_price = price,
      pr_sl = round_price (sg_stop_price sig) (si_digits info) (stop_rounding (sg_side sig)),
      pr_tp = map_option (\<lambda>x. round_price x (si_digits info) HalfEven) (sg_target_price sig),
      pr_magic = magic_number (sg_strategy_id sig) (sg_strategy_version sig),
      pr_expires_at = expires\<rparr>"

definition tracked_of ::
  "intent \<Rightarrow> place_request \<Rightarrow> dec option \<Rightarrow> time \<Rightarrow> tracked_order" where
  "tracked_of i req requested now =
     (let sig = oi_signal i in
      \<lparr>tk_client_order_id = pr_client_order_id req, tk_intent_id = Some (oi_id i),
       tk_account_id = oi_account_id i, tk_tenant_id = oi_tenant_id i,
       tk_strategy_id = sg_strategy_id sig, tk_strategy_version = sg_strategy_version sig,
       tk_symbol = sg_symbol sig, tk_side = sg_side sig, tk_order_type = sg_entry_type sig,
       tk_lots = pr_lots req, tk_requested_price = requested, tk_sl = pr_sl req, tk_tp = pr_tp req,
       tk_magic = pr_magic req, tk_state = Sending, tk_broker_order_id = None, tk_position_id = None,
       tk_created_at = now, tk_expires_at = pr_expires_at req, tk_stop_confirmed = False, tk_note = [],
       tk_entry_price = None, tk_initial_sl = None, tk_opened_lots = None, tk_filled_at = None,
       tk_realized = 0, tk_costs = 0, tk_out_value = 0, tk_out_lots = 0\<rparr>)"

definition write_ahead_and_send ::
  "'w om_env \<Rightarrow> intent \<Rightarrow> place_request \<Rightarrow> dec option \<Rightarrow> time \<Rightarrow> ('w om, exec_result) se" where
  "write_ahead_and_send E i req requested now =
     (let coid = pr_client_order_id req in
      seq (upd_st (\<lambda>st. st\<lparr>xs_orders := dict_set coid (tracked_of i req requested now) (xs_orders st)\<rparr>))
      (seq (save E) (send_order E coid req)))"

definition enter_order :: "'w om_env \<Rightarrow> intent \<Rightarrow> dec \<Rightarrow> timeframe \<Rightarrow> time \<Rightarrow> ('w om, exec_result) se" where
  "enter_order E i lots tf now =
     (let sig = oi_signal i; coid = client_order_id (oi_id i);
          refuse = (\<lambda>why. ret (exec_result_of coid None False why)) in
      case dict_get (oe_symbols E) (sg_symbol sig) of
        None \<Rightarrow> refuse (''unknown symbol {}'', [AStr (sg_symbol sig)])
      | Some info \<Rightarrow>
          (case lots_invalid i lots info of
             Inl e \<Rightarrow> raise e
           | Inr True \<Rightarrow> refuse (''approved lots {} not valid for this intent'', [ADec lots])
           | Inr False \<Rightarrow>
               if sg_entry_type sig = MarketEntry
               then bnd (gets (\<lambda>s. quote_fresh (om_quotes s) (sg_symbol sig) now
                                     (ec_max_quote_age_seconds (oe_cfg E)))) (\<lambda>q. case q of
                      None \<Rightarrow>
                        seq (send_alert E Warning ''stale_quotes''
                               (''no fresh quote for {}; entry skipped'', [AStr (sg_symbol sig)]) [])
                            (refuse (''no fresh quote'', []))
                    | Some q \<Rightarrow>
                        write_ahead_and_send E i
                          (place_request_of coid sig info lots None (expiry_time sig tf))
                          (Some (if sg_side sig = Buy then qt_ask q else qt_bid q)) now)
               else let price = round_price (entry_or_zero sig) (si_digits info) HalfEven in
                    write_ahead_and_send E i
                      (place_request_of coid sig info lots (Some price) (expiry_time sig tf))
                      (Some price) now))"

definition execute :: "'w om_env \<Rightarrow> intent \<Rightarrow> signed_decision \<Rightarrow> timeframe \<Rightarrow> ('w om, exec_result) se" where
  "execute E i sd tf =
     bnd (gets (om_now E)) (\<lambda>now.
     let coid = client_order_id (oi_id i) in
     bnd (gets (\<lambda>s. dict_get (om_orders s) coid)) (\<lambda>dup. case dup of
       Some t \<Rightarrow> ret (exec_result_of coid (Some (tk_state t)) False (''duplicate intent'', []))
     | None \<Rightarrow>
         bnd (gets (\<lambda>s. verify_decision (oe_sig_ok E) sd (oi_id i) now (om_last_seq s))) (\<lambda>v. case v of
           Inl why \<Rightarrow>
             seq (when_do (str_in ''signature'' why)
                    (send_alert E Critical ''forged_decision'' (why, []) [(''intent_id'', oi_id i)]))
                 (ret (exec_result_of coid None False (why, [])))
         | Inr n \<Rightarrow>
             seq (modif (\<lambda>s. s\<lparr>om_last_seq := n\<rparr>))
             (seq (save E)
                (enter_order E i (rd_approved_lots (sd_body sd)) tf now)))))"

end
