(* ===== verification/Order_Jobs.thy ===== *)
theory Order_Jobs
  imports Order_Manager
begin

text \<open>
  The order manager's other operations (\<open>execution/order_manager.py\<close>): applying the broker's deals,
  expiring and cancelling pending entries, acting on a halt, and the demotions of the lifecycle.
\<close>

section \<open>Deals\<close>

definition deal_net :: "broker_deal \<Rightarrow> dec" where
  "deal_net d = bd_profit d + bd_commission d + bd_swap d"

text \<open>The order a deal belongs to: by its comment when the system wrote it, else by its position.\<close>

definition order_of_deal :: "exec_state \<Rightarrow> broker_deal \<Rightarrow> (string \<times> tracked_order) option" where
  "order_of_deal st d =
     (case (if is_system_comment (bd_comment d) then dict_get (xs_orders st) (bd_comment d) else None) of
        Some t \<Rightarrow> Some (bd_comment d, t)
      | None \<Rightarrow> by_position st (bd_position_id d))"

definition count_cash :: "broker_deal \<Rightarrow> exec_state \<Rightarrow> exec_state" where
  "count_cash d st =
     (case xs_cash_since st of
        Some since \<Rightarrow>
          if bd_time d \<ge> since
          then st\<lparr>xs_expected_balance := Some (dec_or (xs_expected_balance st) 0 + deal_net d)\<rparr>
          else st
      | None \<Rightarrow> st)"

definition apply_in :: "'w om_env \<Rightarrow> string \<Rightarrow> broker_deal \<Rightarrow> ('w om, unit) se" where
  "apply_in E coid d = with_order coid (\<lambda>t.
     seq (upd_order coid (\<lambda>t. t\<lparr>tk_costs := tk_costs t - bd_commission d\<rparr>))
     (when_do (tk_state t = Pending \<or> tk_state t = Sending)
       (seq (upd_order coid (\<lambda>t. t\<lparr>tk_state := Open, tk_position_id := Some (bd_position_id d),
                                  tk_lots := bd_lots d\<rparr>))
       (seq (opened coid (bd_price d) (bd_lots d))
       (seq (record_fill E coid (bd_price d) (bd_lots d) 0 (bd_commission d))
       (seq (save E)
       (bnd (confirm_stop E coid) (\<lambda>_. ret ()))))))))"

definition out_order :: "broker_deal \<Rightarrow> tracked_order \<Rightarrow> tracked_order" where
  "out_order d t = t\<lparr>tk_realized := tk_realized t + bd_profit d,
     tk_costs := tk_costs t - (bd_commission d + bd_swap d),
     tk_out_value := tk_out_value t + bd_price d * bd_lots d,
     tk_out_lots := tk_out_lots t + bd_lots d,
     tk_lots := tk_lots t - bd_lots d\<rparr>"

definition apply_out :: "'w om_env \<Rightarrow> string \<Rightarrow> broker_deal \<Rightarrow> ('w om, unit) se" where
  "apply_out E coid d =
     seq (upd_order coid (out_order d))
         (with_order coid (\<lambda>t.
            when_do (tk_lots t \<le> 0)
              (seq (upd_order coid (\<lambda>t. t\<lparr>tk_state := Closed, tk_lots := 0\<rparr>))
                   (closed_trade E coid (bd_time d)))))"

definition apply_trade_deal :: "'w om_env \<Rightarrow> broker_deal \<Rightarrow> ('w om, unit) se" where
  "apply_trade_deal E d =
     bnd (gets (\<lambda>s. order_of_deal (om_st s) d)) (\<lambda>r. case r of
       None \<Rightarrow> ret ()
     | Some (coid, t) \<Rightarrow>
         if bd_entry d = DealIn then apply_in E coid d
         else when_do (tk_state t = Open \<and> tk_position_id t = Some (bd_position_id d))
                (apply_out E coid d))"

definition apply_deal :: "'w om_env \<Rightarrow> broker_deal \<Rightarrow> nat \<times> time \<Rightarrow> ('w om, nat \<times> time) se" where
  "apply_deal E d acc =
     bnd (gets (\<lambda>s. dict_get (xs_seen_deals (om_st s)) (bd_deal_id d))) (\<lambda>seen.
       if seen \<noteq> None then ret acc
       else
         seq (upd_st (\<lambda>st. st\<lparr>xs_seen_deals := dict_set (bd_deal_id d) (bd_time d) (xs_seen_deals st)\<rparr>))
         (seq (upd_st (count_cash d))
         (seq (if bd_kind d = BalanceDeal
               then send_alert E Warning ''balance_operation''
                      (''balance changed by {}'', [ADec (bd_profit d)]) [(''deal'', bd_deal_id d)]
               else apply_trade_deal E d)
              (ret (Suc (fst acc), max (snd acc) (bd_time d))))))"

definition sync_deals :: "'w om_env \<Rightarrow> ('w om, nat) se" where
  "sync_deals E =
     bnd (gets (om_now E)) (\<lambda>now.
     bnd (gets (\<lambda>s. case xs_deals_cursor (om_st s) of None \<Rightarrow> now | Some c \<Rightarrow> c)) (\<lambda>cursor.
     bnd (call (ad_deals (oe_adapter E) (cursor - delta_seconds (ec_deal_lookback_seconds (oe_cfg E)))))
         (\<lambda>deals.
     bnd (fold_each (apply_deal E) (sort_key (\<lambda>d. (bd_time d, bd_deal_id d)) deals) (0, cursor))
         (\<lambda>(n, cursor').
     bnd (gets (\<lambda>s. xs_deals_cursor (om_st s))) (\<lambda>old.
       seq (when_do (n \<noteq> 0 \<or> Some cursor' \<noteq> old)
              (seq (upd_st (\<lambda>st. st\<lparr>xs_deals_cursor := Some cursor'\<rparr>)) (save E)))
           (ret n))))))"

section \<open>Expiry and cancellation\<close>

definition expire_one :: "'w om_env \<Rightarrow> time \<Rightarrow> string \<Rightarrow> nat \<Rightarrow> ('w om, nat) se" where
  "expire_one E now coid n = with_order coid (\<lambda>t.
     case (tk_expires_at t, tk_broker_order_id t) of
       (Some e, Some oid) \<Rightarrow>
         if tk_state t = Pending \<and> e \<le> now \<and> oid \<noteq> []
         then bnd (call (ad_cancel (oe_adapter E) oid)) (\<lambda>ack.
              bnd (if ak_ok ack then ret True
                   else bnd (call (ad_orders (oe_adapter E))) (\<lambda>os.
                        ret (\<forall>ord \<in> set os. bo_broker_order_id ord \<noteq> oid))) (\<lambda>gone.
              if gone then seq (upd_order coid (\<lambda>t. t\<lparr>tk_state := Expired\<rparr>)) (ret (Suc n))
              else ret n))
         else ret n
     | _ \<Rightarrow> ret n)"

definition expire_pending :: "'w om_env \<Rightarrow> ('w om, nat) se" where
  "expire_pending E =
     bnd (gets (om_now E)) (\<lambda>now.
     bnd (gets (\<lambda>s. active (om_st s))) (\<lambda>coids.
     bnd (fold_each (expire_one E now) coids 0) (\<lambda>n.
     seq (when_do (n \<noteq> 0) (save E)) (ret n))))"

definition cancel_entry :: "'w om_env \<Rightarrow> string \<Rightarrow> broker_order \<Rightarrow> string list \<Rightarrow> ('w om, string list) se" where
  "cancel_entry E reason ord cancelled =
     (if \<not> is_system_comment (bo_comment ord) then ret cancelled
      else bnd (call (ad_cancel (oe_adapter E) (bo_broker_order_id ord))) (\<lambda>ack.
        if \<not> ak_ok ack then ret cancelled
        else seq (upd_order (bo_comment ord)
                    (\<lambda>t. if tk_state t = Pending then t\<lparr>tk_state := Cancelled, tk_note := reason\<rparr> else t))
                 (ret (cancelled @ [bo_broker_order_id ord]))))"

definition cancel_pending_entries :: "'w om_env \<Rightarrow> string \<Rightarrow> ('w om, string list) se" where
  "cancel_pending_entries E reason =
     bnd (call (ad_orders (oe_adapter E))) (\<lambda>os.
     bnd (fold_each (cancel_entry E reason) os []) (\<lambda>cancelled.
     seq (save E) (ret cancelled)))"

section \<open>Halts\<close>

definition close_on_halt :: "'w om_env \<Rightarrow> broker_position \<Rightarrow> string list \<Rightarrow> ('w om, string list) se" where
  "close_on_halt E p failed =
     (if \<not> is_system_comment (bp_comment p)
      then seq (send_alert E Critical ''external_position_open_in_halt''
                  (''external position left open during halt'', []) [(''position'', bp_position_id p)])
               (ret failed)
      else bnd (catch_unavailable (call (ad_close (oe_adapter E) (bp_position_id p) None))
                  (\<lambda>e. ret (ack_error e))) (\<lambda>ack.
           ret (if ak_ok ack then failed else failed @ [bp_position_id p])))"

definition apply_halt :: "'w om_env \<Rightarrow> halt_command \<Rightarrow> ('w om, unit) se" where
  "apply_halt E cmd =
     seq (when_do (hc_cancel_pending_entries cmd)
            (bnd (cancel_pending_entries E (''halt '' @ halt_value (hc_state cmd))) (\<lambda>_. ret ())))
     (bnd (if hc_close_positions cmd
           then bnd (call (ad_positions (oe_adapter E))) (\<lambda>ps. fold_each (close_on_halt E) ps [])
           else ret []) (\<lambda>failed.
      seq (when_do (failed \<noteq> [])
             (send_alert E Critical ''halt_close_failed'' (''positions not closed on halt'', [])
                [(''positions'', join_with '','' failed)]))
          (save E)))"

section \<open>Demotions\<close>

definition orders_of :: "exec_state \<Rightarrow> string \<Rightarrow> string \<Rightarrow> order_state \<Rightarrow> string list" where
  "orders_of st strategy_id version state =
     map fst (filter (\<lambda>(_, t). is_active (tk_state t) \<and> tk_state t = state \<and>
                        tk_strategy_id t = strategy_id \<and> tk_strategy_version t = version) (xs_orders st))"

definition cancel_one_of :: "'w om_env \<Rightarrow> string \<Rightarrow> string \<Rightarrow> string list \<Rightarrow> ('w om, string list) se" where
  "cancel_one_of E reason coid failed = with_order coid (\<lambda>t.
     bnd (call (ad_cancel (oe_adapter E) (str_or_empty (tk_broker_order_id t)))) (\<lambda>ack.
       if ak_ok ack
       then seq (upd_order coid (\<lambda>t. t\<lparr>tk_state := Cancelled, tk_note := ''demotion: '' @ reason\<rparr>))
                (ret failed)
       else ret (failed @ [tk_client_order_id t])))"

definition cancel_pending_of :: "'w om_env \<Rightarrow> string \<Rightarrow> string \<Rightarrow> string \<Rightarrow> ('w om, unit) se" where
  "cancel_pending_of E strategy_id version reason =
     bnd (gets (\<lambda>s. orders_of (om_st s) strategy_id version Pending)) (\<lambda>coids.
     bnd (fold_each (cancel_one_of E reason) coids []) (\<lambda>failed.
     seq (save E)
         (if failed \<noteq> [] then raise (RuntimeErr (''cancel failed for'' # failed)) else ret ())))"

definition close_one_of :: "'w om_env \<Rightarrow> string \<Rightarrow> string \<Rightarrow> string list \<Rightarrow> ('w om, string list) se" where
  "close_one_of E reason coid failed = with_order coid (\<lambda>t.
     bnd (close_position E (str_or_empty (tk_position_id t)) (''demotion: '' @ reason)) (\<lambda>ok.
       ret (if ok then failed else failed @ [tk_client_order_id t])))"

definition close_positions_of :: "'w om_env \<Rightarrow> string \<Rightarrow> string \<Rightarrow> string \<Rightarrow> ('w om, unit) se" where
  "close_positions_of E strategy_id version reason =
     bnd (gets (\<lambda>s. orders_of (om_st s) strategy_id version Open)) (\<lambda>coids.
     bnd (fold_each (close_one_of E reason) coids []) (\<lambda>failed.
       if failed \<noteq> [] then raise (RuntimeErr (''close failed for'' # failed)) else ret ()))"

definition open_positions_of :: "exec_state \<Rightarrow> string \<Rightarrow> tracked_order list" where
  "open_positions_of st strategy_id =
     map snd (filter (\<lambda>(_, t). is_active (tk_state t) \<and> tk_state t = Open \<and>
                        tk_strategy_id t = strategy_id) (xs_orders st))"

end
