(* ===== verification/Reconcile.thy ===== *)
theory Reconcile
  imports Order_Jobs Risk_Control
begin

text \<open>
  Reconciliation (\<open>execution/reconcile.py\<close>): the broker's books against the journal, the halt a mismatch
  enters, the automatic resync and the owner resync. The reconciler works on a pair: the order manager
  and the risk side, which it only reaches through the two operations of \<open>RiskControl\<close>.
\<close>

section \<open>Reports\<close>

datatype mismatch_kind =
    BrokerUnreachable | UnconfirmedSend | MissingPosition | MissingOrder | UntrackedPosition
  | UntrackedOrder | LotsDiffer | MissingStop | BalanceDiffers

fun kind_value :: "mismatch_kind \<Rightarrow> string" where
  "kind_value BrokerUnreachable = ''broker_unreachable''"
| "kind_value UnconfirmedSend = ''unconfirmed_send''"
| "kind_value MissingPosition = ''missing_position''"
| "kind_value MissingOrder = ''missing_order''"
| "kind_value UntrackedPosition = ''untracked_position''"
| "kind_value UntrackedOrder = ''untracked_order''"
| "kind_value LotsDiffer = ''lots''"
| "kind_value MissingStop = ''missing_stop''"
| "kind_value BalanceDiffers = ''balance''"

record mismatch =
  mm_kind :: mismatch_kind
  mm_ref :: string
  mm_detail :: fmt

record recon_report =
  rr_at :: time
  rr_mismatches :: "mismatch list"
  rr_external :: "string list"

definition report_ok :: "recon_report \<Rightarrow> bool" where
  "report_ok r \<longleftrightarrow> rr_mismatches r = []"

definition mk_mismatch :: "mismatch_kind \<Rightarrow> string \<Rightarrow> fmt \<Rightarrow> mismatch" where
  "mk_mismatch k r d = \<lparr>mm_kind = k, mm_ref = r, mm_detail = d\<rparr>"

record broker_view =
  vw_positions :: "broker_position list"
  vw_orders :: "broker_order list"
  vw_balance :: dec

definition broker_view_of :: "'w om_env \<Rightarrow> ('w om, broker_view) se" where
  "broker_view_of E =
     bnd (call (ad_account (oe_adapter E))) (\<lambda>acct.
     bnd (call (ad_positions (oe_adapter E))) (\<lambda>ps.
     bnd (call (ad_orders (oe_adapter E))) (\<lambda>os.
       ret \<lparr>vw_positions = ps, vw_orders = os, vw_balance = ai_balance acct\<rparr>)))"

section \<open>Comparison\<close>

definition opt_text :: "string option \<Rightarrow> string" where
  "opt_text x = (case x of None \<Rightarrow> ''None'' | Some s \<Rightarrow> s)"

definition order_mismatches ::
  "exec_config \<Rightarrow> time \<Rightarrow> (string, broker_position) dict \<Rightarrow> (string, broker_order) dict \<Rightarrow> tracked_order
    \<Rightarrow> mismatch list" where
  "order_mismatches cfg now positions orders t =
     (let r = tk_client_order_id t in
      if tk_state t = Sending
      then (if now - tk_created_at t > delta_seconds (ec_send_grace_seconds cfg)
            then [mk_mismatch UnconfirmedSend r (''sent, never confirmed'', [])] else [])
      else if tk_state t = Pending
      then (if (case tk_broker_order_id t of None \<Rightarrow> True | Some oid \<Rightarrow> dict_get orders oid = None)
            then [mk_mismatch MissingOrder r (''order {}'', [AStr (opt_text (tk_broker_order_id t))])] else [])
      else
        case (case tk_position_id t of None \<Rightarrow> None | Some pid \<Rightarrow> dict_get positions pid) of
          None \<Rightarrow> [mk_mismatch MissingPosition r (''position {}'', [AStr (opt_text (tk_position_id t))])]
        | Some p \<Rightarrow>
            (if bp_lots p \<noteq> tk_lots t
             then [mk_mismatch LotsDiffer r (''broker {} vs journal {}'', [ADec (bp_lots p), ADec (tk_lots t)])]
             else []) @
            (if \<not> stop_protects (tk_side t) (bp_sl p) (tk_sl t)
             then [mk_mismatch MissingStop r (''broker sl {}, want {}'', [AOpt (bp_sl p), ADec (tk_sl t)])]
             else []))"

definition position_mismatches :: "exec_state \<Rightarrow> broker_position \<Rightarrow> mismatch list" where
  "position_mismatches st p =
     (if is_system_comment (bp_comment p) \<and> by_position st (bp_position_id p) = None
      then [mk_mismatch UntrackedPosition (bp_comment p) (''position {}'', [AStr (bp_position_id p)])] else [])"

definition broker_order_mismatches :: "exec_state \<Rightarrow> broker_order \<Rightarrow> mismatch list" where
  "broker_order_mismatches st ord =
     (if is_system_comment (bo_comment ord) \<and> by_broker_order st (bo_broker_order_id ord) = None
      then [mk_mismatch UntrackedOrder (bo_comment ord) (''order {}'', [AStr (bo_broker_order_id ord)])] else [])"

definition external_of :: "broker_view \<Rightarrow> string list" where
  "external_of v =
     map (\<lambda>p. ''position:'' @ bp_position_id p)
       (filter (\<lambda>p. \<not> is_system_comment (bp_comment p)) (vw_positions v)) @
     map (\<lambda>ord. ''order:'' @ bo_broker_order_id ord)
       (filter (\<lambda>ord. \<not> is_system_comment (bo_comment ord)) (vw_orders v))"

definition balance_mismatches :: "exec_config \<Rightarrow> exec_state \<Rightarrow> dec \<Rightarrow> mismatch list" where
  "balance_mismatches cfg st balance = (case xs_expected_balance st of
     None \<Rightarrow> []
   | Some e \<Rightarrow> if \<bar>balance - e\<bar> > ec_balance_tolerance cfg
               then [mk_mismatch BalanceDiffers [] (''broker {} vs expected {}'', [ADec balance, ADec e])]
               else [])"

definition active_orders :: "exec_state \<Rightarrow> tracked_order list" where
  "active_orders st = filter (\<lambda>t. is_active (tk_state t)) (dict_values (xs_orders st))"

definition compare_books :: "exec_config \<Rightarrow> time \<Rightarrow> exec_state \<Rightarrow> broker_view \<Rightarrow> mismatch list" where
  "compare_books cfg now st v =
     (let positions = dict_of bp_position_id (vw_positions v) [];
          orders = dict_of bo_broker_order_id (vw_orders v) []
      in concat (map (order_mismatches cfg now positions orders) (active_orders st)) @
         concat (map (position_mismatches st) (vw_positions v)) @
         concat (map (broker_order_mismatches st) (vw_orders v)) @
         balance_mismatches cfg st (vw_balance v))"

definition flag_external :: "'w om_env \<Rightarrow> string list \<Rightarrow> ('w om, unit) se" where
  "flag_external E external =
     bnd (gets (\<lambda>s. filter (\<lambda>e. e \<notin> set (xs_alerted_external (om_st s))) external)) (\<lambda>new.
     seq (for_each (\<lambda>e.
            seq (send_alert E Critical ''external_position''
                   (''opened outside the system: {}'', [AStr e]) [(''ref'', e)])
                (upd_st (\<lambda>st. st\<lparr>xs_alerted_external := xs_alerted_external st @ [e]\<rparr>))) new)
         (when_do (new \<noteq> []) (save E)))"

definition sync_and_view :: "'w om_env \<Rightarrow> ('w om, string + broker_view) se" where
  "sync_and_view E =
     catch_unavailable
       (bnd (sync_deals E) (\<lambda>_. bnd (broker_view_of E) (\<lambda>v. ret (Inr v))))
       (\<lambda>e. ret (Inl e))"

definition check :: "'w om_env \<Rightarrow> ('w om, recon_report) se" where
  "check E =
     bnd (gets (om_now E)) (\<lambda>now.
     bnd (sync_and_view E) (\<lambda>r. case r of
       Inl e \<Rightarrow> ret \<lparr>rr_at = now, rr_mismatches = [mk_mismatch BrokerUnreachable [] (e, [])],
                     rr_external = []\<rparr>
     | Inr v \<Rightarrow>
         bnd (gets (\<lambda>s. compare_books (oe_cfg E) now (om_st s) v)) (\<lambda>mms.
         seq (flag_external E (external_of v))
             (ret \<lparr>rr_at = now, rr_mismatches = mms, rr_external = external_of v\<rparr>))))"

section \<open>Resync\<close>

definition adopted_order ::
  "'w om_env \<Rightarrow> string \<Rightarrow> int \<Rightarrow> string \<Rightarrow> side \<Rightarrow> entry_type \<Rightarrow> dec \<Rightarrow> dec option \<Rightarrow> dec option
    \<Rightarrow> string option \<Rightarrow> string option \<Rightarrow> time \<Rightarrow> tracked_order" where
  "adopted_order E coid magic symbol sd otype lots sl tp pid oid created =
     \<lparr>tk_client_order_id = coid, tk_intent_id = None, tk_account_id = oe_account_id E,
      tk_tenant_id = ''default'', tk_strategy_id = ''adopted-magic-'' @ int_str magic,
      tk_strategy_version = ''unknown'', tk_symbol = symbol, tk_side = sd, tk_order_type = otype,
      tk_lots = lots, tk_requested_price = None, tk_sl = (case sl of None \<Rightarrow> 0 | Some x \<Rightarrow> x),
      tk_tp = tp, tk_magic = magic, tk_state = (if pid \<noteq> None then Open else Pending),
      tk_broker_order_id = oid, tk_position_id = pid, tk_created_at = created, tk_expires_at = None,
      tk_stop_confirmed = False, tk_note = ''adopted by owner resync'', tk_entry_price = None,
      tk_initial_sl = None, tk_opened_lots = None, tk_filled_at = None, tk_realized = 0, tk_costs = 0,
      tk_out_value = 0, tk_out_lots = 0\<rparr>"

definition adopt_unknown ::
  "'w om_env \<Rightarrow> broker_position option \<Rightarrow> broker_order option \<Rightarrow> ('w om, unit) se" where
  "adopt_unknown E pos ord =
     (let put = (\<lambda>coid t. upd_st (\<lambda>st. st\<lparr>xs_orders := dict_set coid t (xs_orders st)\<rparr>)) in
      case pos of
        Some p \<Rightarrow>
          put (bp_comment p)
            (adopted_order E (bp_comment p) (bp_magic p) (bp_symbol p) (bp_side p) MarketEntry (bp_lots p)
               (bp_sl p) (bp_tp p) (Some (bp_position_id p)) (map_option bo_broker_order_id ord)
               (bp_opened_at p))
      | None \<Rightarrow>
          (case ord of
             None \<Rightarrow> ret ()
           | Some x \<Rightarrow>
               put (bo_comment x)
                 (adopted_order E (bo_comment x) (bo_magic x) (bo_symbol x) (bo_side x) (bo_order_type x)
                    (bo_lots x) (bo_sl x) (bo_tp x) None (Some (bo_broker_order_id x)) (bo_created_at x))))"

definition deal_lots :: "(broker_deal \<Rightarrow> bool) \<Rightarrow> broker_deal list \<Rightarrow> dec" where
  "deal_lots p deals = sum_list (map bd_lots (filter p deals))"

definition position_deal :: "string option \<Rightarrow> deal_entry \<Rightarrow> broker_deal \<Rightarrow> bool" where
  "position_deal pid e d \<longleftrightarrow> Some (bd_position_id d) = pid \<and> bd_entry d = e"

definition deals_explain :: "broker_deal list \<Rightarrow> tracked_order \<Rightarrow> dec \<Rightarrow> bool" where
  "deals_explain deals t broker_lots =
     (let lots_in = deal_lots (position_deal (tk_position_id t) DealIn) deals;
          lots_out = deal_lots (position_deal (tk_position_id t) DealOut) deals
      in lots_in > 0 \<and> lots_in - lots_out = broker_lots)"

definition expired_by :: "tracked_order \<Rightarrow> time \<Rightarrow> bool" where
  "expired_by t now = (case tk_expires_at t of None \<Rightarrow> False | Some e \<Rightarrow> e \<le> now)"

definition resolve_identity ::
  "bool \<Rightarrow> broker_position option \<Rightarrow> broker_order option \<Rightarrow> bool \<Rightarrow> tracked_order \<Rightarrow> tracked_order" where
  "resolve_identity adopt_all pos ord dealt t = (case pos of
     Some p \<Rightarrow> t\<lparr>tk_state := Open, tk_position_id := Some (bp_position_id p), tk_lots := bp_lots p\<rparr>
   | None \<Rightarrow>
       (case ord of
          Some x \<Rightarrow> t\<lparr>tk_state := Pending, tk_broker_order_id := Some (bo_broker_order_id x)\<rparr>
        | None \<Rightarrow>
            if \<not> dealt then t\<lparr>tk_state := Failed, tk_note := ''never reached the broker''\<rparr>
            else if adopt_all then t\<lparr>tk_state := Closed, tk_note := ''owner resync''\<rparr>
            else t))"

definition resolve_position :: "bool \<Rightarrow> broker_deal list \<Rightarrow> tracked_order \<Rightarrow> tracked_order" where
  "resolve_position adopt_all deals t =
     (if deal_lots (position_deal (tk_position_id t) DealOut) deals \<ge> tk_lots t \<or> adopt_all
      then t\<lparr>tk_state := Closed, tk_lots := 0\<rparr> else t)"

definition resolve_order :: "bool \<Rightarrow> broker_deal list \<Rightarrow> time \<Rightarrow> tracked_order \<Rightarrow> tracked_order" where
  "resolve_order adopt_all deals now t =
     (case find_first (\<lambda>d. bd_comment d = tk_client_order_id t \<and> bd_entry d = DealIn) deals of
        Some d \<Rightarrow> t\<lparr>tk_state := Open, tk_position_id := Some (bd_position_id d), tk_lots := bd_lots d\<rparr>
      | None \<Rightarrow>
          if expired_by t now \<or> adopt_all
          then t\<lparr>tk_state := (if expired_by t now then Expired else Cancelled)\<rparr> else t)"

definition resolve_lots ::
  "bool \<Rightarrow> broker_deal list \<Rightarrow> (string, broker_position) dict \<Rightarrow> tracked_order \<Rightarrow> tracked_order" where
  "resolve_lots adopt_all deals positions t =
     (case dict_get positions (str_or_empty (tk_position_id t)) of
        None \<Rightarrow> t
      | Some p \<Rightarrow> if adopt_all \<or> deals_explain deals t (bp_lots p) then t\<lparr>tk_lots := bp_lots p\<rparr> else t)"

definition resolve ::
  "'w om_env \<Rightarrow> bool \<Rightarrow> broker_view \<Rightarrow> broker_deal list \<Rightarrow> mismatch \<Rightarrow> ('w om, unit) se" where
  "resolve E adopt_all v deals m =
     (let positions = dict_of bp_position_id (vw_positions v) [];
          pos = dict_get (dict_of bp_comment
                  (filter (\<lambda>p. is_system_comment (bp_comment p)) (vw_positions v)) []) (mm_ref m);
          ord = dict_get (dict_of bo_comment
                  (filter (\<lambda>x. is_system_comment (bo_comment x)) (vw_orders v)) []) (mm_ref m);
          coid = mm_ref m in
      bnd (gets (\<lambda>s. dict_get (om_orders s) coid)) (\<lambda>r. case r of
        None \<Rightarrow>
          when_do ((mm_kind m = UnconfirmedSend \<or> mm_kind m = UntrackedPosition
                      \<or> mm_kind m = UntrackedOrder) \<and> adopt_all)
            (adopt_unknown E pos ord)
      | Some t \<Rightarrow>
          bnd (gets (om_now E)) (\<lambda>now. case mm_kind m of
            UnconfirmedSend \<Rightarrow> upd_order coid (resolve_identity adopt_all pos ord (\<exists>d \<in> set deals. bd_comment d = coid))
          | UntrackedPosition \<Rightarrow> upd_order coid (resolve_identity adopt_all pos ord (\<exists>d \<in> set deals. bd_comment d = coid))
          | UntrackedOrder \<Rightarrow> upd_order coid (resolve_identity adopt_all pos ord (\<exists>d \<in> set deals. bd_comment d = coid))
          | MissingPosition \<Rightarrow> upd_order coid (resolve_position adopt_all deals)
          | MissingOrder \<Rightarrow> upd_order coid (resolve_order adopt_all deals now)
          | LotsDiffer \<Rightarrow> upd_order coid (resolve_lots adopt_all deals positions)
          | MissingStop \<Rightarrow> bnd (confirm_stop E coid) (\<lambda>_. ret ())
          | _ \<Rightarrow> ret ())))"

definition oldest_active :: "time \<Rightarrow> exec_state \<Rightarrow> time" where
  "oldest_active now st = (case active_orders st of
     [] \<Rightarrow> now
   | t # ts \<Rightarrow> fold min (map tk_created_at ts) (tk_created_at t))"

definition resync :: "'w om_env \<Rightarrow> bool \<Rightarrow> recon_report \<Rightarrow> ('w om, unit) se" where
  "resync E adopt_all report =
     (if report_ok report then ret ()
      else
        bnd (broker_view_of E) (\<lambda>v.
        bnd (gets (\<lambda>s. oldest_active (om_now E s) (om_st s))) (\<lambda>oldest.
        bnd (call (ad_deals (oe_adapter E) (oldest - delta_seconds (ec_deal_lookback_seconds (oe_cfg E)))))
            (\<lambda>deals.
        seq (for_each (resolve E adopt_all v deals) (rr_mismatches report))
        (seq (when_do adopt_all (upd_st (\<lambda>st. st\<lparr>xs_expected_balance := Some (vw_balance v)\<rparr>)))
             (save E))))))"

section \<open>The periodic job and the owner's resync\<close>

record 'r risk_control =
  rk_enter :: "string \<Rightarrow> time \<Rightarrow> 'r \<Rightarrow> halt_command option \<times> 'r"
  rk_clear :: "'r \<Rightarrow> bool \<times> 'r"

definition gate_control :: "gate_env \<Rightarrow> gate risk_control" where
  "gate_control G = \<lparr>rk_enter = enter_recon_halt G, rk_clear = clear_recon_halt G\<rparr>"

definition on_om :: "('w om, 'a) se \<Rightarrow> ('w om \<times> 'r, 'a) se" where
  "on_om m = (\<lambda>(s, r). case m s of (x, s') \<Rightarrow> (x, (s', r)))"

definition on_side :: "('r \<Rightarrow> 'a \<times> 'r) \<Rightarrow> ('w om \<times> 'r, 'a) se" where
  "on_side f = (\<lambda>(s, r). case f r of (x, r') \<Rightarrow> (Inr x, (s, r')))"

definition set_episode :: "'w om_env \<Rightarrow> recon_episode \<Rightarrow> ('w om, unit) se" where
  "set_episode E e =
     bnd (gets (\<lambda>s. xs_recon_episode (om_st s))) (\<lambda>old.
       when_do (e \<noteq> old) (seq (upd_st (\<lambda>st. st\<lparr>xs_recon_episode := e\<rparr>)) (save E)))"

definition summary :: "mismatch list \<Rightarrow> string" where
  "summary mms = join_with ''; '' (map (\<lambda>m. strip (kind_value (mm_kind m) @ '' '' @ mm_ref m)) mms)"

definition all_unreachable :: "mismatch list \<Rightarrow> bool" where
  "all_unreachable mms \<longleftrightarrow> (\<forall>m \<in> set mms. mm_kind m = BrokerUnreachable)"

definition apply_or_alert :: "'w om_env \<Rightarrow> halt_command \<Rightarrow> ('w om, unit) se" where
  "apply_or_alert E halt =
     catch_unavailable (apply_halt E halt)
       (\<lambda>e. send_alert E Critical ''halt_close_failed'' (''could not act on halt: {}'', [AStr e]) [])"

definition resync_and_recheck ::
  "'w om_env \<Rightarrow> 'r risk_control \<Rightarrow> recon_report \<Rightarrow> ('w om \<times> 'r, recon_report) se" where
  "resync_and_recheck E C report =
     seq (on_om (catch_unavailable (resync E False report) (\<lambda>e. ret ())))
     (bnd (on_om (check E)) (\<lambda>again.
      seq (if report_ok again
           then bnd (on_side (rk_clear C)) (\<lambda>_.
                seq (on_om (set_episode E Clean))
                    (on_om (send_alert E Info ''recon_resolved''
                       (''resync explained every mismatch'', []) [])))
           else if all_unreachable (rr_mismatches again)
           then on_om (set_episode E Unreachable)
           else seq (on_om (set_episode E Stuck))
                  (on_om (send_alert E Critical ''recon_stuck''
                     (''still mismatched after resync; staying halted until an owner resync: {}'',
                      [AStr (summary (rr_mismatches again))]) [])))
          (ret again)))"

definition on_mismatch ::
  "'w om_env \<Rightarrow> 'r risk_control \<Rightarrow> time \<Rightarrow> recon_episode \<Rightarrow> recon_report \<Rightarrow> ('w om \<times> 'r, recon_report) se" where
  "on_mismatch E C now previous report =
     (let text = summary (rr_mismatches report);
          unreachable = all_unreachable (rr_mismatches report) in
      seq (on_om (set_episode E (if unreachable then Unreachable else Resyncing)))
      (bnd (on_side (rk_enter C (''reconciliation: '' @ text) now)) (\<lambda>halt.
       seq (case halt of None \<Rightarrow> ret () | Some h \<Rightarrow> on_om (apply_or_alert E h))
       (if unreachable
        then seq (when_do (previous \<noteq> Unreachable)
                    (on_om (send_alert E Critical ''recon_mismatch''
                       (''broker unreachable: {}'', [AStr text]) [])))
                 (ret report)
        else seq (on_om (send_alert E Critical ''recon_mismatch'' (text, []) []))
                 (resync_and_recheck E C report)))))"

definition run_once :: "'w om_env \<Rightarrow> 'r risk_control \<Rightarrow> ('w om \<times> 'r, recon_report) se" where
  "run_once E C =
     bnd (on_om (check E)) (\<lambda>report.
     bnd (on_om (gets (om_now E))) (\<lambda>now.
     bnd (on_om (gets (\<lambda>s. xs_recon_episode (om_st s)))) (\<lambda>episode.
       if report_ok report
       then seq (when_do (episode = Unreachable \<or> episode = Resyncing)
                   (bnd (on_side (rk_clear C)) (\<lambda>cleared.
                    seq (when_do cleared
                           (on_om (send_alert E Info ''recon_resolved''
                              (''broker reachable and state matches'', []) [])))
                        (on_om (set_episode E Clean)))))
                (ret report)
       else if episode = Stuck then ret report
       else on_mismatch E C now episode report)))"

definition owner_resync :: "'w om_env \<Rightarrow> 'r risk_control \<Rightarrow> ('w om \<times> 'r, recon_report) se" where
  "owner_resync E C =
     bnd (on_om (check E)) (\<lambda>report.
     seq (on_om (resync E True report))
     (bnd (on_om (check E)) (\<lambda>again.
      seq (when_do (report_ok again)
             (bnd (on_side (rk_clear C)) (\<lambda>_.
              seq (on_om (set_episode E Clean))
                  (on_om (send_alert E Info ''recon_resolved'' (''owner resync'', []) [])))))
          (ret again))))"

end
