(* ===== verification/Watchdog.thy ===== *)
theory Watchdog
  imports Reconcile
begin

text \<open>
  The heartbeat watchdog (\<open>execution/watchdog.py\<close>) and the execution service around the order manager
  (\<open>execution/service.py\<close>): startup checks and the periodic cycle.
\<close>

section \<open>Watchdog\<close>

record watchdog =
  wd_started_at :: time
  wd_last_beat :: "(string, time) dict"
  wd_tripped :: "string list"
  wd_cancel_done :: bool

definition watchdog_init :: "time \<Rightarrow> watchdog" where
  "watchdog_init t = \<lparr>wd_started_at = t, wd_last_beat = [], wd_tripped = [], wd_cancel_done = True\<rparr>"

definition beat :: "string \<Rightarrow> time \<Rightarrow> watchdog \<Rightarrow> watchdog" where
  "beat service t wd = wd\<lparr>wd_last_beat := dict_set service t (wd_last_beat wd)\<rparr>"

definition watchdog_timeout :: "exec_config \<Rightarrow> span" where
  "watchdog_timeout cfg = delta_seconds (ec_watchdog_timeout_seconds cfg)"

definition last_seen :: "watchdog \<Rightarrow> string \<Rightarrow> time" where
  "last_seen wd s = (case dict_get (wd_last_beat wd) s of None \<Rightarrow> wd_started_at wd | Some t \<Rightarrow> t)"

definition silent :: "exec_config \<Rightarrow> watchdog \<Rightarrow> time \<Rightarrow> string list" where
  "silent cfg wd now =
     filter (\<lambda>s. now - last_seen wd s > watchdog_timeout cfg) (ec_watched_services cfg)"

definition upd_wd :: "(watchdog \<Rightarrow> watchdog) \<Rightarrow> ('w om \<times> watchdog, unit) se" where
  "upd_wd f = on_side (\<lambda>wd. ((), f wd))"

definition trip :: "'w om_env \<Rightarrow> string \<Rightarrow> ('w om \<times> watchdog, unit) se" where
  "trip E s =
     bnd (on_side (\<lambda>wd. (wd_tripped wd, wd))) (\<lambda>tripped.
       when_do (s \<notin> set tripped)
         (seq (upd_wd (\<lambda>wd. wd\<lparr>wd_tripped := wd_tripped wd @ [s], wd_cancel_done := False\<rparr>))
              (on_om (send_alert E Critical ''heartbeat_lost''
                 (''{} silent for {}'', [AStr s, AInt (watchdog_timeout (oe_cfg E))]) [(''service'', s)]))))"

definition restore :: "'w om_env \<Rightarrow> string \<Rightarrow> ('w om \<times> watchdog, unit) se" where
  "restore E s =
     seq (upd_wd (\<lambda>wd. wd\<lparr>wd_tripped := filter (\<lambda>x. x \<noteq> s) (wd_tripped wd)\<rparr>))
         (on_om (send_alert E Info ''heartbeat_restored'' (''{} is back'', [AStr s]) [(''service'', s)]))"

definition cancel_if_tripped :: "'w om_env \<Rightarrow> ('w om \<times> watchdog, unit) se" where
  "cancel_if_tripped E =
     bnd (on_side (\<lambda>wd. (wd, wd))) (\<lambda>wd.
       when_do (wd_tripped wd \<noteq> [] \<and> \<not> wd_cancel_done wd)
         (catch_unavailable
            (bnd (on_om (cancel_pending_entries E (''watchdog: '' @ join_with '','' (sort (wd_tripped wd)))))
                 (\<lambda>_. upd_wd (\<lambda>wd. wd\<lparr>wd_cancel_done := True\<rparr>)))
            (\<lambda>e. on_om (send_alert E Critical ''watchdog_cancel_failed'' (e, []) []))))"

definition watchdog_check :: "'w om_env \<Rightarrow> ('w om \<times> watchdog, string list) se" where
  "watchdog_check E =
     bnd (on_om (gets (om_now E))) (\<lambda>now.
     bnd (on_side (\<lambda>wd. (silent (oe_cfg E) wd now, wd))) (\<lambda>lost.
     seq (for_each (trip E) lost)
     (bnd (on_side (\<lambda>wd. (sort (filter (\<lambda>s. s \<notin> set lost) (wd_tripped wd)), wd))) (\<lambda>returned.
      seq (for_each (restore E) returned)
      (seq (cancel_if_tripped E)
           (on_side (\<lambda>wd. (sort (wd_tripped wd), wd))))))))"

section \<open>Startup\<close>

definition startup_checks ::
  "'w adapter \<Rightarrow> string \<Rightarrow> string option \<Rightarrow> flt \<Rightarrow> ('w, account_info) se" where
  "startup_checks A env expected_account_id max_skew_seconds =
     bnd (ad_account A) (\<lambda>acct.
     bnd (gets (ad_now A)) (\<lambda>now.
     let skew = \<bar>total_seconds (ai_server_time acct - now)\<bar>;
         wanted = (if env = ''live'' then RealMode else DemoMode) in
     if skew > max_skew_seconds
     then raise (StartupRefused (''clock skew {}s against broker server time'', [ADec skew]))
     else if ai_trade_mode acct \<noteq> wanted
     then raise (StartupRefused (''env {} needs another account mode'', [AStr env]))
     else if ai_margin_mode acct \<noteq> Hedging
     then raise (StartupRefused (''a hedging account is required'', []))
     else if (case expected_account_id of None \<Rightarrow> False | Some a \<Rightarrow> ai_account_id acct \<noteq> a)
     then raise (StartupRefused (''broker account {} is not the configured account'', [AStr (ai_account_id acct)]))
     else ret acct))"

section \<open>The periodic cycle\<close>

record ('w, 'r) service =
  sv_om :: "'w om"
  sv_risk :: 'r
  sv_watchdog :: watchdog
  sv_last_recon :: "time option"

definition on_service_om :: "('w om, 'a) se \<Rightarrow> (('w, 'r) service, 'a) se" where
  "on_service_om m = (\<lambda>v. case m (sv_om v) of (x, s) \<Rightarrow> (x, v\<lparr>sv_om := s\<rparr>))"

definition on_service_recon :: "('w om \<times> 'r, 'a) se \<Rightarrow> (('w, 'r) service, 'a) se" where
  "on_service_recon m =
     (\<lambda>v. case m (sv_om v, sv_risk v) of (x, (s, r)) \<Rightarrow> (x, v\<lparr>sv_om := s, sv_risk := r\<rparr>))"

definition on_service_wd :: "('w om \<times> watchdog, 'a) se \<Rightarrow> (('w, 'r) service, 'a) se" where
  "on_service_wd m =
     (\<lambda>v. case m (sv_om v, sv_watchdog v) of (x, (s, wd)) \<Rightarrow> (x, v\<lparr>sv_om := s, sv_watchdog := wd\<rparr>))"

definition confirm_open :: "'w om_env \<Rightarrow> string \<Rightarrow> ('w om, unit) se" where
  "confirm_open E coid = with_order coid (\<lambda>t.
     when_do (tk_state t = Open \<and> \<not> tk_stop_confirmed t) (bnd (confirm_stop E coid) (\<lambda>_. ret ())))"

text \<open>The order manager's part of the cycle, under one \<open>try\<close>: the count is zero unless expiry finished.\<close>

definition om_cycle :: "'w om_env \<Rightarrow> ('w om, nat) se" where
  "om_cycle E =
     bnd (catch_unavailable
            (bnd (sync_deals E) (\<lambda>_. bnd (expire_pending E) (\<lambda>n. ret (Some n))))
            (\<lambda>e. ret None)) (\<lambda>r. case r of
       None \<Rightarrow> ret 0
     | Some n \<Rightarrow>
         seq (catch_unavailable
                (bnd (gets (\<lambda>s. active (om_st s))) (\<lambda>coids. for_each (confirm_open E) coids))
                (\<lambda>e. ret ()))
             (ret n))"

record cycle_result =
  cy_recon :: "recon_report option"
  cy_lost :: "string list"
  cy_expired :: nat

definition cycle :: "'w om_env \<Rightarrow> 'r risk_control \<Rightarrow> (('w, 'r) service, cycle_result) se" where
  "cycle E C =
     bnd (on_service_om (gets (om_now E))) (\<lambda>now.
     bnd (on_service_om (om_cycle E)) (\<lambda>expired.
     bnd (on_service_wd (watchdog_check E)) (\<lambda>lost.
     bnd (gets sv_last_recon) (\<lambda>last_recon.
     let due = (case last_recon of None \<Rightarrow> True
                | Some t \<Rightarrow> total_seconds (now - t) \<ge> ec_reconcile_interval_seconds (oe_cfg E)) in
     bnd (if due
          then bnd (on_service_recon (run_once E C)) (\<lambda>rep.
               seq (modif (\<lambda>v. v\<lparr>sv_last_recon := Some now\<rparr>)) (ret (Some rep)))
          else ret None) (\<lambda>report.
       ret \<lparr>cy_recon = report, cy_lost = lost, cy_expired = expired\<rparr>)))))"

text \<open>
  One pass of \<open>run\<close>'s loop: an exception of the cycle is alerted (with the type name) and the loop goes on.
\<close>

fun exn_name :: "exn \<Rightarrow> string" where
  "exn_name (Unavailable _) = ''BrokerUnavailableError''"
| "exn_name (KeyErr _) = ''KeyError''"
| "exn_name ArithErr = ''DivisionByZero''"
| "exn_name ZeroDiv = ''ZeroDivisionError''"
| "exn_name IndexErr = ''IndexError''"
| "exn_name (ValueErr _) = ''ValueError''"
| "exn_name (RuntimeErr _) = ''RuntimeError''"
| "exn_name (StrategyErr _) = ''StrategyError''"
| "exn_name (IllegalTransition _) = ''IllegalTransitionError''"
| "exn_name (JournalCorrupt _) = ''JournalCorruptError''"
| "exn_name (LedgerCorrupt _) = ''LedgerCorruptError''"
| "exn_name (StartupRefused _) = ''StartupRefusedError''"

definition run_pass :: "'w om_env \<Rightarrow> 'r risk_control \<Rightarrow> (('w, 'r) service, unit) se" where
  "run_pass E C = (\<lambda>v. case cycle E C v of
     (Inr _, v') \<Rightarrow> (Inr (), v')
   | (Inl e, v') \<Rightarrow>
       on_service_om (send_alert E Critical ''execution_error'' (''cycle failed: {}'', [AStr (exn_name e)]) []) v')"

end
