(* ===== verification/Fake_Broker.thy ===== *)
theory Fake_Broker
  imports Broker_Api
begin

text \<open>
  The in-memory hedging broker (\<open>execution/fake.py\<close>) that tests, chaos tests and simulated paper runs
  use: its book, the matching of pending orders, stops and targets against quotes, deals and balance,
  and its fault injection. Its operations are computations on the record \<open>fake\<close>; the injected clock is
  the field \<open>fw_now\<close>. The functions the constructor takes (conversion rate, slippage, latency) are
  fields of \<open>fake_env\<close>; the last two may look at the whole state, as seeded generators do.
\<close>

section \<open>State\<close>

datatype fault = Before | After

datatype fake_call =
    CallAccount
  | CallPlace place_request
  | CallModify modify_request
  | CallCancel string
  | CallClose string
  | CallPositions
  | CallOrders
  | CallDeals time

fun method_name :: "fake_call \<Rightarrow> string" where
  "method_name CallAccount = ''account''"
| "method_name (CallPlace _) = ''place''"
| "method_name (CallModify _) = ''modify''"
| "method_name (CallCancel _) = ''cancel''"
| "method_name (CallClose _) = ''close_position''"
| "method_name CallPositions = ''open_positions''"
| "method_name CallOrders = ''pending_orders''"
| "method_name (CallDeals _) = ''deals''"

record fake =
  fw_now :: time
  fw_balance :: dec
  fw_quotes :: "(string, quote) dict"
  fw_positions :: "(string, broker_position) dict"
  fw_orders :: "(string, broker_order) dict"
  fw_deal_log :: "broker_deal list"
  fw_calls :: "fake_call list"
  fw_down :: bool
  fw_ignore_sl_on_fill :: bool
  fw_modify_failures :: nat
  fw_duplicate_deals :: bool
  fw_faults :: "(string, (nat \<times> fault) list) dict"
  fw_ticket :: nat

record fake_env =
  fe_symbol_info :: "(string, symbol_info) dict"
  fe_currency :: string
  fe_account_id :: string
  fe_trade_mode :: trade_mode
  fe_margin_mode :: margin_mode
  fe_commission :: dec
  fe_fx :: "string \<Rightarrow> dec"
  fe_server_time_offset_s :: flt
  fe_slippage :: "(fake \<Rightarrow> string \<Rightarrow> side \<Rightarrow> dec \<Rightarrow> dec) option"
  fe_latency_ms :: "(fake \<Rightarrow> flt) option"

definition fake_init :: "time \<Rightarrow> dec \<Rightarrow> fake" where
  "fake_init now balance = \<lparr>fw_now = now, fw_balance = balance, fw_quotes = [], fw_positions = [],
     fw_orders = [], fw_deal_log = [], fw_calls = [], fw_down = False, fw_ignore_sl_on_fill = False,
     fw_modify_failures = 0, fw_duplicate_deals = False, fw_faults = [], fw_ticket = 1000\<rparr>"

definition lookup_se :: "('s \<Rightarrow> ('k, 'v) dict) \<Rightarrow> ('k \<Rightarrow> string) \<Rightarrow> 'k \<Rightarrow> ('s, 'v) se" where
  "lookup_se d name k =
     bnd (gets (\<lambda>s. dict_get (d s) k)) (\<lambda>x. case x of None \<Rightarrow> raise (KeyErr (name k)) | Some v \<Rightarrow> ret v)"

section \<open>Faults\<close>

definition fk_fail :: "string \<Rightarrow> fault \<Rightarrow> nat \<Rightarrow> fake \<Rightarrow> fake" where
  "fk_fail m when_at skip w =
     w\<lparr>fw_faults := dict_set m ((case dict_get (fw_faults w) m of None \<Rightarrow> [] | Some q \<Rightarrow> q) @ [(skip, when_at)])
                     (fw_faults w)\<rparr>"

definition fk_enter :: "fake_call \<Rightarrow> (fake, fault option) se" where
  "fk_enter c =
     seq (modif (\<lambda>w. w\<lparr>fw_calls := fw_calls w @ [c]\<rparr>))
     (bnd (gets (\<lambda>w. (fw_down w, dict_get (fw_faults w) (method_name c)))) (\<lambda>(down, q).
       if down then raise (Unavailable (method_name c @ '': bridge down''))
       else case q of
         Some ((Suc n, f) # r) \<Rightarrow>
           seq (modif (\<lambda>w. w\<lparr>fw_faults := dict_set (method_name c) ((n, f) # r) (fw_faults w)\<rparr>)) (ret None)
       | Some ((0, f) # r) \<Rightarrow>
           seq (modif (\<lambda>w. w\<lparr>fw_faults := dict_set (method_name c) r (fw_faults w)\<rparr>))
               (if f = Before
                then raise (Unavailable (method_name c @ '': connection lost before the request''))
                else ret (Some f))
       | _ \<Rightarrow> ret None))"

definition fk_exit :: "fault option \<Rightarrow> fake_call \<Rightarrow> 'a \<Rightarrow> (fake, 'a) se" where
  "fk_exit f c x =
     (if f = Some After
      then raise (Unavailable (method_name c @ '': connection lost after the request was applied''))
      else ret x)"

text \<open>Every method is its body between \<open>_enter\<close> and \<open>_exit\<close>.\<close>

definition fk_method :: "fake_call \<Rightarrow> (fake, 'a) se \<Rightarrow> (fake, 'a) se" where
  "fk_method c body = bnd (fk_enter c) (\<lambda>f. bnd body (\<lambda>x. fk_exit f c x))"

section \<open>Internals\<close>

definition fk_next :: "(fake, string) se" where
  "fk_next = seq (modif (\<lambda>w. w\<lparr>fw_ticket := Suc (fw_ticket w)\<rparr>)) (gets (\<lambda>w. nat_str (fw_ticket w)))"

definition quote_se :: "string \<Rightarrow> (fake, quote) se" where
  "quote_se symbol = lookup_se fw_quotes (\<lambda>x. x) symbol"

definition info_se :: "fake_env \<Rightarrow> string \<Rightarrow> (fake, symbol_info) se" where
  "info_se E symbol = lookup_se (\<lambda>_. fe_symbol_info E) (\<lambda>x. x) symbol"

fun entry_side :: "side \<Rightarrow> quote \<Rightarrow> dec" where
  "entry_side Buy q = qt_ask q"
| "entry_side Sell q = qt_bid q"

fun exit_side :: "side \<Rightarrow> quote \<Rightarrow> dec" where
  "exit_side Buy q = qt_bid q"
| "exit_side Sell q = qt_ask q"

fun opposite :: "side \<Rightarrow> side" where
  "opposite Buy = Sell"
| "opposite Sell = Buy"

fun side_sign :: "side \<Rightarrow> rat" where
  "side_sign Buy = 1"
| "side_sign Sell = -1"

definition exit_price :: "broker_position \<Rightarrow> (fake, dec) se" where
  "exit_price p = bnd (quote_se (bp_symbol p)) (\<lambda>q. ret (exit_side (bp_side p) q))"

definition slipped :: "fake_env \<Rightarrow> string \<Rightarrow> side \<Rightarrow> dec \<Rightarrow> (fake, dec) se" where
  "slipped E symbol sd px = (case fe_slippage E of
     None \<Rightarrow> ret px
   | Some slip \<Rightarrow>
       bnd (quote_se symbol) (\<lambda>q.
       bnd (gets (\<lambda>w. max (slip w symbol sd (qt_ask q - qt_bid q)) 0)) (\<lambda>x.
         ret (if sd = Buy then px + x else px - x))))"

fun stop_ok :: "side \<Rightarrow> dec \<Rightarrow> dec \<Rightarrow> bool" where
  "stop_ok Buy r sl = (sl < r)"
| "stop_ok Sell r sl = (sl > r)"

definition trade_deal :: "fake_env \<Rightarrow> fake \<Rightarrow> string \<Rightarrow> string \<Rightarrow> string \<Rightarrow> side \<Rightarrow> deal_entry \<Rightarrow> dec \<Rightarrow> dec \<Rightarrow> dec
    \<Rightarrow> int \<Rightarrow> string \<Rightarrow> broker_deal" where
  "trade_deal E w did pid symbol sd entry lots price profit magic comment =
     \<lparr>bd_deal_id = did, bd_kind = TradeDeal, bd_position_id = pid, bd_symbol = symbol, bd_side = sd,
      bd_entry = entry, bd_lots = lots, bd_price = price, bd_commission = - fe_commission E * lots,
      bd_swap = 0, bd_profit = profit, bd_time = fw_now w, bd_magic = magic, bd_comment = comment\<rparr>"

definition fk_deal :: "fake_env \<Rightarrow> string \<Rightarrow> string \<Rightarrow> side \<Rightarrow> deal_entry \<Rightarrow> dec \<Rightarrow> dec \<Rightarrow> dec \<Rightarrow> int \<Rightarrow> string
    \<Rightarrow> (fake, unit) se" where
  "fk_deal E pid symbol sd entry lots price profit magic comment =
     seq (modif (\<lambda>w. w\<lparr>fw_balance := fw_balance w + (profit + - fe_commission E * lots)\<rparr>))
     (bnd fk_next (\<lambda>did.
      modif (\<lambda>w. w\<lparr>fw_deal_log := fw_deal_log w @
        [trade_deal E w did pid symbol sd entry lots price profit magic comment]\<rparr>)))"

definition new_position :: "fake \<Rightarrow> string \<Rightarrow> string \<Rightarrow> side \<Rightarrow> dec \<Rightarrow> dec \<Rightarrow> dec option \<Rightarrow> dec option \<Rightarrow> int \<Rightarrow> string
    \<Rightarrow> broker_position" where
  "new_position w pid symbol sd lots px sl tp magic comment =
     \<lparr>bp_position_id = pid, bp_symbol = symbol, bp_side = sd, bp_lots = lots, bp_price_open = px,
      bp_sl = sl, bp_tp = tp, bp_magic = magic, bp_comment = comment, bp_opened_at = fw_now w,
      bp_profit = 0\<rparr>"

definition fk_open :: "fake_env \<Rightarrow> string \<Rightarrow> side \<Rightarrow> dec \<Rightarrow> dec option \<Rightarrow> dec option \<Rightarrow> int \<Rightarrow> string
    \<Rightarrow> dec option \<Rightarrow> (fake, string) se" where
  "fk_open E symbol sd lots sl tp magic comment price =
     bnd (quote_se symbol) (\<lambda>q.
     let px = (case price of None \<Rightarrow> entry_side sd q | Some x \<Rightarrow> x) in
     bnd fk_next (\<lambda>pid.
     seq (modif (\<lambda>w. w\<lparr>fw_positions := dict_set pid
            (new_position w pid symbol sd lots px sl tp magic comment) (fw_positions w)\<rparr>))
     (seq (fk_deal E pid symbol sd DealIn lots px 0 magic comment)
          (ret pid))))"

definition position_pnl :: "fake_env \<Rightarrow> symbol_info \<Rightarrow> broker_position \<Rightarrow> dec \<Rightarrow> dec \<Rightarrow> dec" where
  "position_pnl E info p price lots =
     side_sign (bp_side p) * (price - bp_price_open p) * si_contract_size info * lots * fe_fx E (bp_symbol p)"

definition fk_close :: "fake_env \<Rightarrow> broker_position \<Rightarrow> dec \<Rightarrow> dec option \<Rightarrow> (fake, dec) se" where
  "fk_close E p price lots =
     (let n = (case lots of None \<Rightarrow> bp_lots p | Some l \<Rightarrow> if l \<ge> bp_lots p then bp_lots p else l) in
      bnd (info_se E (bp_symbol p)) (\<lambda>info.
      seq (fk_deal E (bp_position_id p) (bp_symbol p) (opposite (bp_side p)) DealOut n price
             (position_pnl E info p price n) (bp_magic p) (bp_comment p))
      (seq (if n = bp_lots p
            then modif (\<lambda>w. w\<lparr>fw_positions := dict_del (bp_position_id p) (fw_positions w)\<rparr>)
            else modif (\<lambda>w. w\<lparr>fw_positions := dict_set (bp_position_id p)
                                (p\<lparr>bp_lots := bp_lots p - n\<rparr>) (fw_positions w)\<rparr>))
           (ret n))))"

definition marked :: "fake_env \<Rightarrow> broker_position \<Rightarrow> (fake, broker_position) se" where
  "marked E p =
     bnd (info_se E (bp_symbol p)) (\<lambda>info.
     bnd (exit_price p) (\<lambda>px. ret (p\<lparr>bp_profit := position_pnl E info p px (bp_lots p)\<rparr>)))"

fun map_se :: "('a \<Rightarrow> ('s, 'b) se) \<Rightarrow> 'a list \<Rightarrow> ('s, 'b list) se" where
  "map_se f [] = ret []"
| "map_se f (x # xs) = bnd (f x) (\<lambda>y. bnd (map_se f xs) (\<lambda>ys. ret (y # ys)))"

definition marked_positions :: "fake_env \<Rightarrow> (fake, broker_position list) se" where
  "marked_positions E = bnd (gets fw_positions) (\<lambda>ps. map_se (marked E) (dict_values ps))"

definition expired_at :: "time \<Rightarrow> broker_order \<Rightarrow> bool" where
  "expired_at now ord = (case bo_expires_at ord of None \<Rightarrow> False | Some e \<Rightarrow> e \<le> now)"

definition expire_orders :: "(fake, unit) se" where
  "expire_orders = modif (\<lambda>w. w\<lparr>fw_orders :=
     foldl (\<lambda>d oid. dict_del oid d) (fw_orders w)
       (map bo_broker_order_id (filter (expired_at (fw_now w)) (dict_values (fw_orders w))))\<rparr>)"

definition order_hit :: "broker_order \<Rightarrow> dec \<Rightarrow> bool" where
  "order_hit ord px =
     (if bo_order_type ord = LimitEntry
      then (if bo_side ord = Buy then px \<le> bo_price ord else px \<ge> bo_price ord)
      else (if bo_side ord = Buy then px \<ge> bo_price ord else px \<le> bo_price ord))"

definition trigger_order :: "fake_env \<Rightarrow> quote \<Rightarrow> broker_order \<Rightarrow> (fake, unit) se" where
  "trigger_order E q ord =
     (let px = entry_side (bo_side ord) q;
          fill = (if bo_order_type ord = LimitEntry then bo_price ord else px) in
      when_do (order_hit ord px)
        (seq (modif (\<lambda>w. w\<lparr>fw_orders := dict_del (bo_broker_order_id ord) (fw_orders w)\<rparr>))
        (bnd (gets (\<lambda>w. if fw_ignore_sl_on_fill w then None else bo_sl ord)) (\<lambda>sl.
         bnd (fk_open E (bo_symbol ord) (bo_side ord) (bo_lots ord) sl (bo_tp ord) (bo_magic ord)
                (bo_comment ord) (Some fill)) (\<lambda>_. ret ())))))"

definition trigger_orders :: "fake_env \<Rightarrow> string \<Rightarrow> (fake, unit) se" where
  "trigger_orders E symbol =
     bnd (quote_se symbol) (\<lambda>q.
     bnd (gets (\<lambda>w. filter (\<lambda>ord. bo_symbol ord = symbol) (dict_values (fw_orders w)))) (\<lambda>os.
       for_each (trigger_order E q) os))"

definition stop_reached :: "broker_position \<Rightarrow> dec \<Rightarrow> bool" where
  "stop_reached p px = (case bp_sl p of None \<Rightarrow> False
     | Some sl \<Rightarrow> if bp_side p = Buy then px \<le> sl else px \<ge> sl)"

definition target_reached :: "broker_position \<Rightarrow> dec \<Rightarrow> bool" where
  "target_reached p px = (case bp_tp p of None \<Rightarrow> False
     | Some tp \<Rightarrow> if bp_side p = Buy then px \<ge> tp else px \<le> tp)"

definition trigger_stop :: "fake_env \<Rightarrow> string \<Rightarrow> broker_position \<Rightarrow> (fake, unit) se" where
  "trigger_stop E symbol p =
     bnd (exit_price p) (\<lambda>px.
       when_do (stop_reached p px \<or> target_reached p px)
         (bnd (if stop_reached p px then slipped E symbol (opposite (bp_side p)) px else ret px) (\<lambda>fill_px.
          bnd (fk_close E p fill_px None) (\<lambda>_. ret ()))))"

definition trigger_stops :: "fake_env \<Rightarrow> string \<Rightarrow> (fake, unit) se" where
  "trigger_stops E symbol =
     bnd (gets (\<lambda>w. filter (\<lambda>p. bp_symbol p = symbol) (dict_values (fw_positions w)))) (\<lambda>ps.
       for_each (trigger_stop E symbol) ps)"

section \<open>The market\<close>

definition fk_set_quote :: "fake_env \<Rightarrow> string \<Rightarrow> dec \<Rightarrow> dec \<Rightarrow> (fake, unit) se" where
  "fk_set_quote E symbol bid ask =
     seq (modif (\<lambda>w. w\<lparr>fw_quotes := dict_set symbol
            \<lparr>qt_symbol = symbol, qt_bid = bid, qt_ask = ask, qt_time = fw_now w\<rparr> (fw_quotes w)\<rparr>))
     (seq expire_orders (seq (trigger_orders E symbol) (trigger_stops E symbol)))"

definition fk_open_external :: "fake_env \<Rightarrow> string \<Rightarrow> side \<Rightarrow> dec \<Rightarrow> dec option \<Rightarrow> (fake, string) se" where
  "fk_open_external E symbol sd lots sl = fk_open E symbol sd lots sl None 0 [] None"

definition fk_deposit :: "dec \<Rightarrow> (fake, unit) se" where
  "fk_deposit amount =
     seq (modif (\<lambda>w. w\<lparr>fw_balance := fw_balance w + amount\<rparr>))
     (bnd fk_next (\<lambda>did.
      modif (\<lambda>w. w\<lparr>fw_deal_log := fw_deal_log w @
        [\<lparr>bd_deal_id = did, bd_kind = BalanceDeal, bd_position_id = [], bd_symbol = [], bd_side = Buy,
          bd_entry = DealIn, bd_lots = 0, bd_price = 0, bd_commission = 0, bd_swap = 0,
          bd_profit = amount, bd_time = fw_now w, bd_magic = 0, bd_comment = ''deposit''\<rparr>]\<rparr>)))"

section \<open>The adapter\<close>

definition account_of :: "fake_env \<Rightarrow> (fake, account_info) se" where
  "account_of E =
     bnd (marked_positions E) (\<lambda>ps.
     bnd (gets (\<lambda>w. dict_values (fw_positions w))) (\<lambda>raw.
     bnd (map_se (\<lambda>p. bnd (info_se E (bp_symbol p)) (\<lambda>info.
                  ret (bp_lots p * (case si_margin_per_lot info of None \<Rightarrow> 0 | Some m \<Rightarrow> m)))) raw) (\<lambda>ms.
     gets (\<lambda>w. let equity = fw_balance w + sum_list (map bp_profit ps); margin = sum_list ms in
       \<lparr>ai_account_id = fe_account_id E, ai_currency = fe_currency E, ai_balance = fw_balance w,
        ai_equity = equity, ai_margin = margin, ai_free_margin = equity - margin,
        ai_server_time = fw_now w + delta_seconds (fe_server_time_offset_s E),
        ai_trade_mode = fe_trade_mode E, ai_margin_mode = fe_margin_mode E\<rparr>))))"

definition volume_invalid :: "symbol_info \<Rightarrow> dec \<Rightarrow> exn + bool" where
  "volume_invalid info lots =
     (if lots < si_min_lot info \<or> lots > si_max_lot info then Inr True
      else sbind (ddiv lots (si_lot_step info)) (\<lambda>_. Inr (off_step lots (si_lot_step info))))"

definition place_market :: "fake_env \<Rightarrow> place_request \<Rightarrow> dec \<Rightarrow> (fake, broker_ack) se" where
  "place_market E req entry =
     (if \<not> stop_ok (pr_side req) entry (pr_sl req) then ret (ack_error ''invalid stops'')
      else
        bnd (gets (\<lambda>w. if fw_ignore_sl_on_fill w then None else Some (pr_sl req))) (\<lambda>sl.
        bnd (slipped E (pr_symbol req) (pr_side req) entry) (\<lambda>px.
        bnd (fk_open E (pr_symbol req) (pr_side req) (pr_lots req) sl (pr_tp req) (pr_magic req)
               (pr_client_order_id req) (Some px)) (\<lambda>pid.
        gets (\<lambda>w. ack_done\<lparr>ak_position_id := Some pid, ak_filled_price := Some px,
          ak_filled_lots := Some (pr_lots req),
          ak_latency_ms := (case fe_latency_ms E of None \<Rightarrow> 0 | Some f \<Rightarrow> f w)\<rparr>)))))"

definition place_pending :: "place_request \<Rightarrow> dec \<Rightarrow> (fake, broker_ack) se" where
  "place_pending req entry = (case pr_price req of
     None \<Rightarrow> ret (ack_error ''pending order without price'')
   | Some price \<Rightarrow>
       (let below = (price < entry);
            wants_below = ((pr_order_type req = LimitEntry) = (pr_side req = Buy)) in
        if below \<noteq> wants_below \<or> \<not> stop_ok (pr_side req) price (pr_sl req)
        then ret (ack_error ''invalid price or stops'')
        else bnd fk_next (\<lambda>oid.
          seq (modif (\<lambda>w. w\<lparr>fw_orders := dict_set oid
                 \<lparr>bo_broker_order_id = oid, bo_symbol = pr_symbol req, bo_side = pr_side req,
                  bo_order_type = pr_order_type req, bo_lots = pr_lots req, bo_price = price,
                  bo_sl = Some (pr_sl req), bo_tp = pr_tp req, bo_magic = pr_magic req,
                  bo_comment = pr_client_order_id req, bo_created_at = fw_now w,
                  bo_expires_at = pr_expires_at req\<rparr> (fw_orders w)\<rparr>))
              (ret (ack_done\<lparr>ak_broker_order_id := Some oid\<rparr>)))))"

definition fk_place :: "fake_env \<Rightarrow> place_request \<Rightarrow> (fake, broker_ack) se" where
  "fk_place E req =
     bnd (gets (\<lambda>w. dict_get (fw_quotes w) (pr_symbol req))) (\<lambda>q.
     case (dict_get (fe_symbol_info E) (pr_symbol req), q) of
       (Some info, Some q) \<Rightarrow>
         (case volume_invalid info (pr_lots req) of
            Inl e \<Rightarrow> raise e
          | Inr True \<Rightarrow> ret (ack_error ''invalid volume'')
          | Inr False \<Rightarrow>
              if pr_order_type req = MarketEntry then place_market E req (entry_side (pr_side req) q)
              else place_pending req (entry_side (pr_side req) q))
     | _ \<Rightarrow> ret (ack_error ''unknown symbol or no price''))"

text \<open>\<open>req.sl if req.sl is not None else p.sl\<close> and \<open>req.tp if req.tp else p.tp\<close> (zero is false).\<close>

definition new_sl :: "modify_request \<Rightarrow> dec option \<Rightarrow> dec option" where
  "new_sl mr old = (case mr_sl mr of None \<Rightarrow> old | Some x \<Rightarrow> Some x)"

definition new_tp :: "modify_request \<Rightarrow> dec option \<Rightarrow> dec option" where
  "new_tp mr old = (case mr_tp mr of None \<Rightarrow> old | Some x \<Rightarrow> if x = 0 then old else Some x)"

definition modify_position :: "modify_request \<Rightarrow> string \<Rightarrow> (fake, broker_ack) se" where
  "modify_position mr pid =
     bnd (gets (\<lambda>w. dict_get (fw_positions w) pid)) (\<lambda>x. case x of
       None \<Rightarrow> ret (ack_error ''no such position'')
     | Some p \<Rightarrow>
         bnd (case mr_sl mr of
                None \<Rightarrow> ret True
              | Some sl \<Rightarrow> bnd (exit_price p) (\<lambda>px. ret (stop_ok (bp_side p) px sl))) (\<lambda>ok.
         if \<not> ok then ret (ack_error ''invalid stops'')
         else seq (modif (\<lambda>w. w\<lparr>fw_positions := dict_set (bp_position_id p)
                     (p\<lparr>bp_sl := new_sl mr (bp_sl p), bp_tp := new_tp mr (bp_tp p)\<rparr>) (fw_positions w)\<rparr>))
                  (ret (ack_done\<lparr>ak_position_id := Some (bp_position_id p)\<rparr>))))"

definition modify_order :: "modify_request \<Rightarrow> (fake, broker_ack) se" where
  "modify_order mr =
     bnd (gets (\<lambda>w. dict_get (fw_orders w) (str_or_empty (mr_broker_order_id mr)))) (\<lambda>x. case x of
       None \<Rightarrow> ret (ack_error ''no such order'')
     | Some ord \<Rightarrow>
         seq (modif (\<lambda>w. w\<lparr>fw_orders := dict_set (bo_broker_order_id ord)
                (ord\<lparr>bo_sl := new_sl mr (bo_sl ord), bo_tp := new_tp mr (bo_tp ord)\<rparr>) (fw_orders w)\<rparr>))
             (ret (ack_done\<lparr>ak_broker_order_id := Some (bo_broker_order_id ord)\<rparr>)))"

definition fk_modify :: "modify_request \<Rightarrow> (fake, broker_ack) se" where
  "fk_modify mr =
     bnd (gets fw_modify_failures) (\<lambda>n.
       if n > 0
       then seq (modif (\<lambda>w. w\<lparr>fw_modify_failures := n - 1\<rparr>)) (ret (ack_error ''modify refused''))
       else case mr_position_id mr of
         Some pid \<Rightarrow> modify_position mr pid
       | None \<Rightarrow> modify_order mr)"

definition fk_cancel :: "string \<Rightarrow> (fake, broker_ack) se" where
  "fk_cancel oid =
     bnd (gets (\<lambda>w. dict_get (fw_orders w) oid)) (\<lambda>x.
       if x = None then ret (ack_error ''no such order'')
       else seq (modif (\<lambda>w. w\<lparr>fw_orders := dict_del oid (fw_orders w)\<rparr>))
                (ret (ack_done\<lparr>ak_broker_order_id := Some oid\<rparr>)))"

definition fk_close_position :: "fake_env \<Rightarrow> string \<Rightarrow> dec option \<Rightarrow> (fake, broker_ack) se" where
  "fk_close_position E pid lots =
     bnd (gets (\<lambda>w. dict_get (fw_positions w) pid)) (\<lambda>x. case x of
       None \<Rightarrow> ret (ack_error ''no such position'')
     | Some p \<Rightarrow>
         bnd (exit_price p) (\<lambda>px.
         bnd (fk_close E p px lots) (\<lambda>filled.
           ret (ack_done\<lparr>ak_position_id := Some pid, ak_filled_price := Some px,
                         ak_filled_lots := Some filled\<rparr>))))"

definition fk_deals :: "time \<Rightarrow> (fake, broker_deal list) se" where
  "fk_deals since = gets (\<lambda>w.
     let out = filter (\<lambda>d. bd_time d \<ge> since) (fw_deal_log w)
     in if fw_duplicate_deals w then concat (map (\<lambda>d. [d, d]) out) else out)"

definition fake_adapter :: "fake_env \<Rightarrow> fake adapter" where
  "fake_adapter E =
     \<lparr>ad_now = fw_now,
      ad_account = fk_method CallAccount (account_of E),
      ad_place = (\<lambda>req. fk_method (CallPlace req) (fk_place E req)),
      ad_modify = (\<lambda>mr. fk_method (CallModify mr) (fk_modify mr)),
      ad_cancel = (\<lambda>oid. fk_method (CallCancel oid) (fk_cancel oid)),
      ad_close = (\<lambda>pid lots. fk_method (CallClose pid) (fk_close_position E pid lots)),
      ad_positions = fk_method CallPositions (marked_positions E),
      ad_orders = fk_method CallOrders (seq expire_orders (gets (\<lambda>w. dict_values (fw_orders w)))),
      ad_deals = (\<lambda>since. fk_method (CallDeals since) (fk_deals since))\<rparr>"

end
