(* ===== verification/Fake_Contract.thy ===== *)
theory Fake_Contract
  imports Fake_Broker
begin

text \<open>
  The in-memory broker keeps the contract of \<open>Broker_Api\<close>: its book stays well formed, no call but
  \<open>place\<close> adds an entry, and an entry whose position is still open is found by the search.
\<close>

section \<open>Well-formed books and counted entries\<close>

definition book_ok :: "('v \<Rightarrow> string) \<Rightarrow> nat \<Rightarrow> (string, 'v) dict \<Rightarrow> bool" where
  "book_ok key n d \<longleftrightarrow> distinct (map fst d) \<and>
     (\<forall>(k, v) \<in> set d. key v = k \<and> (\<exists>m \<le> n. k = nat_str m))"

definition fk_good :: "fake \<Rightarrow> bool" where
  "fk_good w \<longleftrightarrow> book_ok bp_position_id (fw_ticket w) (fw_positions w) \<and>
     book_ok bo_broker_order_id (fw_ticket w) (fw_orders w)"

definition entry_deal :: "string \<Rightarrow> broker_deal \<Rightarrow> bool" where
  "entry_deal c d \<longleftrightarrow> bd_kind d = TradeDeal \<and> bd_entry d = DealIn \<and> bd_comment d = c"

definition fk_fills :: "fake \<Rightarrow> string \<Rightarrow> nat" where
  "fk_fills w c = length (filter (entry_deal c) (fw_deal_log w))"

definition fk_pending :: "fake \<Rightarrow> string \<Rightarrow> nat" where
  "fk_pending w c = length (filter (\<lambda>(_, ord). bo_comment ord = c) (fw_orders w))"

definition fk_entries :: "fake \<Rightarrow> string \<Rightarrow> nat" where
  "fk_entries w c = fk_fills w c + fk_pending w c"

definition fk_settled :: "fake \<Rightarrow> string \<Rightarrow> bool" where
  "fk_settled w c \<longleftrightarrow> fk_fills w c = 0 \<or> (\<exists>(k, p) \<in> set (fw_positions w). bp_comment p = c)"

lemmas fk_count_defs = fk_entries_def fk_fills_def fk_pending_def fk_settled_def

lemma book_ok_fresh: "book_ok key n d \<Longrightarrow> nat_str (Suc n) \<notin> dict_keys d"
  by (fastforce simp: book_ok_def)

lemma book_ok_mono: "book_ok key n d \<Longrightarrow> n \<le> m \<Longrightarrow> book_ok key m d"
  by (fastforce simp: book_ok_def)

lemma dict_set_new: "k \<notin> dict_keys d \<Longrightarrow> dict_set k v d = d @ [(k, v)]"
  by (induction d rule: dict_set.induct) auto

lemma book_ok_add: "book_ok key n d \<Longrightarrow> key v = nat_str (Suc n) \<Longrightarrow>
    book_ok key (Suc n) (dict_set (nat_str (Suc n)) v d)"
  using book_ok_fresh [of key n d] book_ok_mono [of key n d "Suc n"]
  by (auto simp: book_ok_def dict_set_new)

lemma set_set_subset: "set (dict_set k v d) \<subseteq> insert (k, v) (set d)"
  by (induction d rule: dict_set.induct) auto

lemma book_ok_replace:
  assumes "book_ok key n d" and "dict_get d k = Some old" and "key v = k"
  shows "book_ok key n (dict_set k v d)"
proof -
  from assms(2) have "(k, old) \<in> set d" by (rule map_of_SomeD)
  with assms(1) have k: "\<exists>m \<le> n. k = nat_str m" by (auto simp: book_ok_def)
  have "key y = x \<and> (\<exists>m \<le> n. x = nat_str m)" if "(x, y) \<in> set (dict_set k v d)" for x y
    using that set_set_subset [of k v d] assms k by (auto simp: book_ok_def)
  with assms(1) show ?thesis by (auto simp: book_ok_def)
qed

lemma book_ok_del: "book_ok key n d \<Longrightarrow> book_ok key n (dict_del k d)"
  using set_del_subset [of k d] by (auto simp: book_ok_def)

lemma count_del_le: "length (filter P (dict_del k d)) \<le> length (filter P d)"
  by (induction d rule: dict_del.induct) auto

lemma count_del: "dict_get d k = Some v \<Longrightarrow> P (k, v) \<Longrightarrow>
    Suc (length (filter P (dict_del k d))) = length (filter P d)"
  by (induction d rule: dict_del.induct) (auto split: if_splits)

lemma count_replace: "dict_get d k = Some old \<Longrightarrow> P (k, v) = P (k, old) \<Longrightarrow>
    length (filter P (dict_set k v d)) = length (filter P d)"
  by (induction d rule: dict_set.induct) (auto split: if_splits)

lemma replace_keeps_member: "(k', x) \<in> set d \<Longrightarrow> dict_get d k = Some old \<Longrightarrow> distinct (map fst d) \<Longrightarrow>
    k' \<noteq> k \<Longrightarrow> (k', x) \<in> set (dict_set k v d)"
  by (induction d rule: dict_set.induct) auto

lemma get_key: "book_ok key n d \<Longrightarrow> dict_get d k = Some v \<Longrightarrow> key v = k"
  by (fastforce simp: book_ok_def dest: map_of_SomeD)

section \<open>Reading calls change nothing\<close>

interpretation same: step_rel "(=)"
  by unfold_locales auto

lemma keeps_same: "keeps (=) m \<longleftrightarrow> (\<forall>s. snd (m s) = s)"
  by (auto simp: keeps_def)

lemma map_se_same: "(\<And>x. keeps (=) (f x)) \<Longrightarrow> keeps (=) (map_se f xs)"
  by (induction xs) (auto intro!: same.keeps_rules)

lemma lookup_same: "keeps (=) (lookup_se d nm k)"
  unfolding lookup_se_def by (intro same.keeps_rules)

lemma marked_positions_same: "keeps (=) (marked_positions E)"
  unfolding marked_positions_def marked_def exit_price_def quote_se_def info_se_def
  by (intro same.keeps_rules map_se_same lookup_same)

lemma account_same: "keeps (=) (account_of E)"
  unfolding account_of_def info_se_def
  by (intro same.keeps_rules map_se_same marked_positions_same lookup_same)

lemma deals_same: "keeps (=) (fk_deals since)"
  unfolding fk_deals_def by (intro same.keeps_rules)

text \<open>The fault plumbing touches neither the book nor the deals.\<close>

definition same_book :: "fake \<Rightarrow> fake \<Rightarrow> bool" where
  "same_book w v \<longleftrightarrow> fw_positions v = fw_positions w \<and> fw_orders v = fw_orders w \<and>
     fw_deal_log v = fw_deal_log w \<and> fw_ticket v = fw_ticket w"

interpretation same_book: step_rel same_book
  by unfold_locales (auto simp: same_book_def)

lemma enter_book: "keeps same_book (fk_enter c)"
  by (simp add: keeps_def fk_enter_def se_defs same_book_def split: option.split list.split prod.split nat.split)

lemma exit_book: "keeps same_book (fk_exit f c x)"
  unfolding fk_exit_def by (intro same_book.keeps_rules)

section \<open>Calls that only remove or replace\<close>

definition still :: "fake \<Rightarrow> fake \<Rightarrow> bool" where
  "still w v \<longleftrightarrow> (fk_good w \<longrightarrow> fk_good v \<and> (\<forall>c. fk_settled w c \<longrightarrow> fk_settled v c))"

interpretation still: step_rel still
  by unfold_locales (auto simp: still_def)

abbreviation fk_calm :: "fake \<Rightarrow> fake \<Rightarrow> bool" where
  "fk_calm \<equiv> calm fk_entries fk_good"

lemma same_book_calm: "same_book w v \<Longrightarrow> fk_calm w v"
  by (simp add: same_book_def calm_def fk_good_def fk_count_defs)

lemma same_book_still: "same_book w v \<Longrightarrow> still w v"
  by (simp add: same_book_def still_def fk_good_def fk_count_defs)

lemma same_same_book: "keeps (=) m \<Longrightarrow> keeps same_book m"
  by (erule keeps_weaken) (simp add: same_book_def)

lemma book_calm: "keeps same_book m \<Longrightarrow> keeps fk_calm m"
  by (erule keeps_weaken) (rule same_book_calm)

lemma book_still: "keeps same_book m \<Longrightarrow> keeps still m"
  by (erule keeps_weaken) (rule same_book_still)

lemma method_book: "keeps same_book body \<Longrightarrow> keeps same_book (fk_method c body)"
  unfolding fk_method_def by (intro same_book.keeps_rules enter_book exit_book)

lemma method_calm: "keeps fk_calm body \<Longrightarrow> keeps fk_calm (fk_method c body)"
  unfolding fk_method_def by (intro calm.keeps_bnd book_calm [OF enter_book] book_calm [OF exit_book])

lemma method_still: "keeps still body \<Longrightarrow> keeps still (fk_method c body)"
  unfolding fk_method_def by (intro still.keeps_bnd book_still [OF enter_book] book_still [OF exit_book])

lemma expire_fold:
  fixes d :: "(string, broker_order) dict"
  shows "length (filter P (foldl (\<lambda>d oid. dict_del oid d) d ids)) \<le> length (filter P d)"
    and "book_ok bo_broker_order_id n d \<Longrightarrow>
      book_ok bo_broker_order_id n (foldl (\<lambda>d oid. dict_del oid d) d ids)"
proof (induction ids arbitrary: d)
  case (Cons a ids)
  { case 1 show ?case using Cons(1) [of "dict_del a d"] count_del_le [of P a d] by simp }
  { case 2 then show ?case using Cons(2) [of "dict_del a d"] book_ok_del [of _ n d a] by simp }
qed simp_all

lemma expire_calm: "keeps fk_calm expire_orders"
  unfolding expire_orders_def
  by (intro calm.keeps_modif)
     (auto simp: calm_def fk_good_def fk_count_defs expire_fold(2) intro: add_left_mono expire_fold(1))

lemma expire_still: "keeps still expire_orders"
  unfolding expire_orders_def
  by (intro still.keeps_modif) (auto simp: still_def fk_good_def fk_count_defs expire_fold(2))

lemma replace_position:
  assumes "fk_good w" and "dict_get (fw_positions w) k = Some p"
    and "bp_position_id q = bp_position_id p" and "bp_comment q = bp_comment p"
    and "v = w\<lparr>fw_positions := dict_set (bp_position_id p) q (fw_positions w)\<rparr>"
  shows "fk_calm w v \<and> still w v"
proof -
  have k: "bp_position_id p = k" and book: "book_ok bp_position_id (fw_ticket w) (fw_positions w)"
    using assms(1,2) by (auto simp: fk_good_def intro: get_key)
  have good: "fk_good v"
    using assms k book book_ok_replace [OF book assms(2), of q] by (simp add: fk_good_def)
  have member: "\<exists>x \<in> set (fw_positions v). bp_comment (snd x) = c"
    if "x \<in> set (fw_positions w)" "bp_comment (snd x) = c" for x c
  proof (cases "fst x = k")
    case True
    then have "snd x = p"
      using that(1) book assms(2) by (cases x) (auto simp: book_ok_def)
    moreover have "(k, q) \<in> set (fw_positions v)"
      using k assms(5) by (auto intro: map_of_SomeD)
    ultimately show ?thesis using that(2) assms(4) by (intro bexI [of _ "(k, q)"]) simp_all
  next
    case False
    have "(fst x, snd x) \<in> set (fw_positions v)"
      using that(1) False book assms(2,5) k replace_keeps_member [of "fst x" "snd x" "fw_positions w" k p q]
      by (simp add: book_ok_def)
    with that(2) show ?thesis by force
  qed
  show ?thesis
    using good member assms(5)
    by (auto simp: calm_def still_def fk_count_defs split_def)
qed

lemma replace_order:
  assumes "fk_good w" and "dict_get (fw_orders w) k = Some p"
    and "bo_broker_order_id q = bo_broker_order_id p" and "bo_comment q = bo_comment p"
    and "v = w\<lparr>fw_orders := dict_set (bo_broker_order_id p) q (fw_orders w)\<rparr>"
  shows "fk_calm w v"
proof -
  have k: "bo_broker_order_id p = k" and book: "book_ok bo_broker_order_id (fw_ticket w) (fw_orders w)"
    using assms(1,2) by (auto simp: fk_good_def intro: get_key)
  have "fk_good v"
    using assms k book book_ok_replace [OF book assms(2), of q] by (simp add: fk_good_def)
  moreover have "fk_pending v c = fk_pending w c" for c
    using assms(2,4,5) k count_replace [of "fw_orders w" k p "\<lambda>(_, ord). bo_comment ord = c" q]
    by (simp add: fk_pending_def)
  ultimately show ?thesis using assms(5) by (simp add: calm_def fk_entries_def fk_fills_def)
qed

lemma keeps_calm_lookup:
  assumes "\<And>w. dict_get (d w) k = None \<Longrightarrow> fk_calm w (snd (f None w))"
    and "\<And>w v. fk_good w \<Longrightarrow> dict_get (d w) k = Some v \<Longrightarrow> fk_calm w (snd (f (Some v) w))"
  shows "keeps fk_calm (bnd (gets (\<lambda>w. dict_get (d w) k)) f)"
  unfolding keeps_def
proof
  fix w
  show "fk_calm w (snd (bnd (gets (\<lambda>w. dict_get (d w) k)) f w))"
  proof (cases "fk_good w")
    case True
    with assms show ?thesis by (cases "dict_get (d w) k") (simp_all add: bnd_def gets_def)
  qed (simp add: calm_def)
qed

lemma exit_price_same: "keeps (=) (exit_price p)"
  unfolding exit_price_def quote_se_def by (intro same.keeps_rules lookup_same)

lemma modify_position_calm: "keeps fk_calm (modify_position mr pid)"
  unfolding modify_position_def
proof (rule keeps_calm_lookup, goal_cases)
  case (2 w p)
  let ?q = "p\<lparr>bp_sl := new_sl mr (bp_sl p), bp_tp := new_tp mr (bp_tp p)\<rparr>"
  let ?v = "w\<lparr>fw_positions := dict_set (bp_position_id p) ?q (fw_positions w)\<rparr>"
  have "fk_calm w ?v"
    using replace_position [OF 2, of ?q ?v] by simp
  moreover have "fk_calm w w" by (rule calm.step_refl)
  moreover have "snd (exit_price p w) = w"
    using exit_price_same by (simp add: keeps_same)
  ultimately show ?case
    by (auto simp: se_defs split: option.split sum.split prod.split)
qed (simp add: ret_def calm.step_refl)

lemma modify_calm: "keeps fk_calm (fk_modify mr)"
proof -
  have "keeps fk_calm (modify_order mr)"
    unfolding modify_order_def
  proof (rule keeps_calm_lookup, goal_cases)
    case (2 w ord)
    let ?q = "ord\<lparr>bo_sl := new_sl mr (bo_sl ord), bo_tp := new_tp mr (bo_tp ord)\<rparr>"
    show ?case
      using replace_order [OF 2, of ?q] by (simp add: se_defs)
  qed (simp add: ret_def calm.step_refl)
  moreover have "keeps fk_calm (modif (\<lambda>w. w\<lparr>fw_modify_failures := n\<rparr>))" for n
    by (intro calm.keeps_modif same_book_calm) (simp add: same_book_def)
  ultimately show ?thesis
    unfolding fk_modify_def by (intro calm.keeps_rules modify_position_calm)
qed

lemma cancel_calm: "keeps fk_calm (fk_cancel oid)"
  unfolding fk_cancel_def
  by (rule keeps_calm_lookup)
     (auto simp: se_defs calm_def fk_good_def fk_count_defs book_ok_del count_del_le)

section \<open>Deals, opening and closing\<close>

lemma trade_deal_simps [simp]:
  "bd_kind (trade_deal E w did pid symbol sd entry lots price profit magic comment) = TradeDeal"
  "bd_entry (trade_deal E w did pid symbol sd entry lots price profit magic comment) = entry"
  "bd_comment (trade_deal E w did pid symbol sd entry lots price profit magic comment) = comment"
  by (simp_all add: trade_deal_def)

lemma new_position_simps [simp]:
  "bp_position_id (new_position w pid symbol sd lots px sl tp magic comment) = pid"
  "bp_comment (new_position w pid symbol sd lots px sl tp magic comment) = comment"
  by (simp_all add: new_position_def)

lemma deal_run:
  "fst (fk_deal E pid symbol sd entry lots price profit magic comment w) = Inr ()"
  "fw_positions (snd (fk_deal E pid symbol sd entry lots price profit magic comment w)) = fw_positions w"
  "fw_orders (snd (fk_deal E pid symbol sd entry lots price profit magic comment w)) = fw_orders w"
  "fw_quotes (snd (fk_deal E pid symbol sd entry lots price profit magic comment w)) = fw_quotes w"
  "fw_ticket (snd (fk_deal E pid symbol sd entry lots price profit magic comment w)) = Suc (fw_ticket w)"
  "\<exists>d. bd_kind d = TradeDeal \<and> bd_entry d = entry \<and> bd_comment d = comment \<and>
    fw_deal_log (snd (fk_deal E pid symbol sd entry lots price profit magic comment w)) = fw_deal_log w @ [d]"
  by (simp_all add: fk_deal_def fk_next_def se_defs)

lemma open_run:
  assumes "dict_get (fw_quotes w) symbol = Some q"
    and "fk_open E symbol sd lots sl tp magic comment price w = (r, v)"
  shows "fw_orders v = fw_orders w" "fw_ticket v = Suc (Suc (fw_ticket w))" "fw_quotes v = fw_quotes w"
    and "\<exists>p. bp_position_id p = nat_str (Suc (fw_ticket w)) \<and> bp_comment p = comment \<and>
      fw_positions v = dict_set (nat_str (Suc (fw_ticket w))) p (fw_positions w)"
    and "\<exists>d. bd_kind d = TradeDeal \<and> bd_entry d = DealIn \<and> bd_comment d = comment \<and>
      fw_deal_log v = fw_deal_log w @ [d]"
  using assms
  by (auto simp: fk_open_def fk_deal_def fk_next_def quote_se_def lookup_se_def Let_def se_defs
      intro!: exI [of _ "new_position _ _ _ _ _ _ _ _ _ _"])

lemma open_no_quote:
  assumes "dict_get (fw_quotes w) symbol = None"
  shows "fk_open E symbol sd lots sl tp magic comment price w = (Inl (KeyErr symbol), w)"
  using assms by (simp add: fk_open_def quote_se_def lookup_se_def se_defs)

lemma open_effect:
  assumes good: "fk_good w" and run: "fk_open E symbol sd lots sl tp magic comment price w = (r, v)"
  shows "fk_good v \<and> fk_entries v c \<le> fk_entries w c + (if c = comment then 1 else 0) \<and>
    (fk_settled w c \<longrightarrow> fk_settled v c) \<and> fw_orders v = fw_orders w"
proof (cases "dict_get (fw_quotes w) symbol")
  case None
  with open_no_quote [of w symbol E sd lots sl tp magic comment price] run good show ?thesis by simp
next
  case (Some q)
  note o = open_run [OF Some run]
  obtain p where p: "bp_position_id p = nat_str (Suc (fw_ticket w))" "bp_comment p = comment"
    "fw_positions v = dict_set (nat_str (Suc (fw_ticket w))) p (fw_positions w)" using o(4) by blast
  obtain d where d: "bd_kind d = TradeDeal" "bd_entry d = DealIn" "bd_comment d = comment"
    "fw_deal_log v = fw_deal_log w @ [d]" using o(5) by blast
  have books: "book_ok bp_position_id (fw_ticket w) (fw_positions w)"
    "book_ok bo_broker_order_id (fw_ticket w) (fw_orders w)"
    using good by (auto simp: fk_good_def)
  have "fk_good v"
    using o(1,2) books p book_ok_add [of bp_position_id "fw_ticket w" "fw_positions w" p]
      book_ok_mono [of bp_position_id "Suc (fw_ticket w)" _ "Suc (Suc (fw_ticket w))"]
      book_ok_mono [of bo_broker_order_id "fw_ticket w" "fw_orders w" "Suc (Suc (fw_ticket w))"]
    by (auto simp: fk_good_def)
  moreover have pos: "fw_positions v = fw_positions w @ [(nat_str (Suc (fw_ticket w)), p)]"
    using p(3) books(1) by (auto simp: dict_set_new dest: book_ok_fresh)
  ultimately show ?thesis
    using o(1) d p by (auto simp: fk_count_defs entry_deal_def)
qed

text \<open>Closing records an exit, and removes or shrinks the position.\<close>

lemma deal_out_calm: "keeps fk_calm (fk_deal E pid symbol sd DealOut lots price profit magic comment)"
  unfolding keeps_def
proof
  fix w
  let ?v = "snd (fk_deal E pid symbol sd DealOut lots price profit magic comment w)"
  obtain d where "bd_entry d = DealOut" "fw_deal_log ?v = fw_deal_log w @ [d]"
    using deal_run(6) [of DealOut] by blast
  then show "fk_calm w ?v"
    using deal_run(2,3,5) [of E pid symbol sd DealOut lots price profit magic comment w]
    by (auto simp: calm_def fk_good_def fk_count_defs entry_deal_def intro: book_ok_mono)
qed

lemma del_position_calm: "fk_calm w (w\<lparr>fw_positions := dict_del k (fw_positions w)\<rparr>)"
  by (simp add: calm_def fk_good_def fk_count_defs book_ok_del)

lemma shrink_position_calm:
  assumes "dict_get (fw_positions w) (bp_position_id p) = Some p" and "bp_position_id q = bp_position_id p"
  shows "fk_calm w (w\<lparr>fw_positions := dict_set (bp_position_id p) q (fw_positions w)\<rparr>)"
  using assms book_ok_replace [of bp_position_id _ "fw_positions w" "bp_position_id p" p q]
  by (auto simp: calm_def fk_good_def fk_count_defs)

lemma close_effect:
  assumes "lots = None \<or> dict_get (fw_positions w) (bp_position_id p) = Some p"
  shows "fk_calm w (snd (fk_close E p price lots w))"
proof (cases "dict_get (fe_symbol_info E) (bp_symbol p)")
  case None
  then show ?thesis
    by (simp add: fk_close_def info_se_def lookup_se_def Let_def se_defs calm.step_refl)
next
  case (Some info)
  define n where "n = (case lots of None \<Rightarrow> bp_lots p | Some l \<Rightarrow> if l \<ge> bp_lots p then bp_lots p else l)"
  let ?m = "fk_deal E (bp_position_id p) (bp_symbol p) (opposite (bp_side p)) DealOut n price
             (position_pnl E info p price n) (bp_magic p) (bp_comment p)"
  define u where "u = snd (?m w)"
  have m: "?m w = (Inr (), u)" by (simp add: u_def deal_run(1) prod_eq_iff)
  have "fk_calm w u" using deal_out_calm by (simp add: u_def keeps_def)
  moreover have "fk_calm u (snd (fk_close E p price lots w))"
  proof -
    have pos: "fw_positions u = fw_positions w" by (simp add: u_def deal_run(2))
    have "snd (fk_close E p price lots w) =
        (if n = bp_lots p then u\<lparr>fw_positions := dict_del (bp_position_id p) (fw_positions u)\<rparr>
       else u\<lparr>fw_positions := dict_set (bp_position_id p) (p\<lparr>bp_lots := bp_lots p - n\<rparr>) (fw_positions u)\<rparr>)"
      unfolding fk_close_def Let_def n_def [symmetric] info_se_def lookup_se_def seq_def bnd_def gets_def
      by (simp add: Some m se_defs)
    moreover have "n \<noteq> bp_lots p \<Longrightarrow> lots \<noteq> None" by (cases lots) (simp_all add: n_def)
    ultimately show ?thesis
      using assms pos del_position_calm [of u "bp_position_id p"]
        shrink_position_calm [of u p "p\<lparr>bp_lots := bp_lots p - n\<rparr>"] by auto
  qed
  ultimately show ?thesis by (rule calm.step_trans)
qed

lemma close_position_calm: "keeps fk_calm (fk_close_position E pid lots)"
  unfolding fk_close_position_def
proof (rule keeps_calm_lookup, goal_cases)
  case (2 w p)
  then have k: "bp_position_id p = pid" by (auto simp: fk_good_def intro: get_key)
  have "snd (exit_price p w) = w" using exit_price_same by (simp add: keeps_same)
  moreover have "fk_calm w (snd (fk_close E p px lots w))" for px
    using 2 k by (intro close_effect) simp
  ultimately show ?case
    by (auto simp: bnd_def ret_def calm.step_refl split: sum.split prod.split) (metis snd_conv)+
qed (simp add: ret_def calm.step_refl)

section \<open>Placing\<close>

definition places :: "string \<Rightarrow> fake \<Rightarrow> fake \<Rightarrow> bool" where
  "places c0 w v \<longleftrightarrow> (fk_good w \<longrightarrow> fk_good v \<and>
     (\<forall>c. fk_entries v c \<le> fk_entries w c + (if c = c0 then 1 else 0) \<and> (fk_settled w c \<longrightarrow> fk_settled v c)))"

lemma places_refl: "places c w w"
  by (simp add: places_def)

lemma places_open: "places c w (snd (fk_open E symbol sd lots sl tp magic c price w))"
proof -
  obtain r v where run: "fk_open E symbol sd lots sl tp magic c price w = (r, v)" by fastforce
  show ?thesis
    using open_effect [OF _ run] by (simp add: places_def run)
qed

lemma slipped_same: "keeps (=) (slipped E symbol sd px)"
  unfolding slipped_def quote_se_def by (intro same.keeps_rules lookup_same)

lemma place_market_places: "places (pr_client_order_id req) w (snd (place_market E req entry w))"
proof -
  obtain r where s: "slipped E (pr_symbol req) (pr_side req) entry w = (r, w)"
    using slipped_same [of E "pr_symbol req" "pr_side req" entry] by (metis keeps_same prod.collapse)
  have "places (pr_client_order_id req) w (snd (bnd (fk_open E a b l sl tp m (pr_client_order_id req) px)
      (\<lambda>pid. gets (g pid)) w))" for a b l sl tp m px g
    using places_open [of "pr_client_order_id req" w E a b l sl tp m px]
    by (auto simp: bnd_def gets_def split: prod.split sum.split)
  then show ?thesis
    unfolding place_market_def bnd_def [of "gets _"] bnd_def [of "slipped _ _ _ _"]
    by (auto simp: ret_def gets_def s places_refl split: sum.split)
qed

lemma place_pending_places: "places (pr_client_order_id req) w (snd (place_pending req entry w))"
proof -
  let ?k = "nat_str (Suc (fw_ticket w))"
  have "places (pr_client_order_id req) w
      (w\<lparr>fw_ticket := Suc (fw_ticket w), fw_orders := dict_set ?k ord (fw_orders w)\<rparr>)"
    if "bo_broker_order_id ord = ?k" "bo_comment ord = pr_client_order_id req" for ord
    using that
    by (auto simp: places_def fk_good_def fk_count_defs book_ok_add dict_set_new book_ok_fresh
        intro: book_ok_mono)
  then show ?thesis
    by (auto simp: place_pending_def fk_next_def Let_def se_defs places_refl split: option.split)
qed

lemma place_places: "places (pr_client_order_id req) w (snd (fk_place E req w))"
  by (auto simp: fk_place_def bnd_def gets_def ret_def raise_def places_refl place_market_places
      place_pending_places split: option.split sum.split bool.split)

lemma method_places:
  assumes "\<And>w. places c w (snd (body w))"
  shows "places c w (snd (fk_method call body w))"
proof -
  have b: "same_book u v \<Longrightarrow> places c u v" for u v
    by (simp add: same_book_def places_def fk_good_def fk_count_defs)
  have t: "places c u v \<Longrightarrow> same_book v x \<Longrightarrow> places c u x" for u v x
    by (simp add: same_book_def places_def fk_good_def fk_count_defs)
  have t': "same_book u v \<Longrightarrow> places c v x \<Longrightarrow> places c u x" for u v x
    by (simp add: same_book_def places_def fk_good_def fk_count_defs)
  obtain f u where e: "fk_enter call w = (f, u)" by fastforce
  have wu: "same_book w u" using enter_book e by (auto dest: keepsD)
  have "places c u (snd (bnd body (\<lambda>x. fk_exit g call x) u))" for g
  proof -
    obtain r v where bd: "body u = (r, v)" by fastforce
    have "places c u v" using assms [of u] bd by simp
    moreover from this have "places c u (snd (fk_exit g call x v))" for x
      using exit_book [of g call x] t [of u v] by (simp add: keeps_def)
    ultimately show ?thesis by (cases r) (simp_all add: bnd_def bd)
  qed
  then show ?thesis
    using wu b t' by (auto simp: fk_method_def bnd_def [of "fk_enter _"] e split: sum.split)
qed

section \<open>The contract\<close>

lemma dict_values_set: "set (dict_values d) = snd ` set d"
  by (simp add: dict_values_def)

lemma map_se_run: "map_se f xs w = (Inr ys, v) \<Longrightarrow> (\<And>x. keeps (=) (f x)) \<Longrightarrow>
    v = w \<and> list_all2 (\<lambda>x y. f x w = (Inr y, w)) xs ys"
proof (induction xs arbitrary: ys)
  case (Cons x xs)
  have "snd (f x w) = w" "snd (map_se f xs w) = w"
    using Cons(3) map_se_same [of f xs] by (simp_all add: keeps_same)
  with Cons show ?case
    by (cases "f x w"; cases "map_se f xs w") (auto simp: bnd_def ret_def split: sum.splits)
qed (simp add: ret_def)

text \<open>The list of positions shows every open position with its comment.\<close>

lemma positions_complete:
  assumes "marked_positions E w = (Inr ps, v)"
  shows "v = w \<and> map bp_comment ps = map bp_comment (dict_values (fw_positions w))"
proof -
  have m: "keeps (=) (marked E p)" for p
    unfolding marked_def exit_price_def quote_se_def info_se_def by (intro same.keeps_rules lookup_same)
  have c: "marked E p w = (Inr q, w) \<Longrightarrow> bp_comment q = bp_comment p" for p q
    by (auto simp: marked_def info_se_def exit_price_def quote_se_def lookup_se_def se_defs
        split: option.splits)
  have "map_se (marked E) (dict_values (fw_positions w)) w = (Inr ps, v)"
    using assms by (simp add: marked_positions_def bnd_def gets_def)
  from map_se_run [OF this m] have "v = w"
    and "list_all2 (\<lambda>p q. marked E p w = (Inr q, w)) (dict_values (fw_positions w)) ps" by auto
  moreover from this(2) have "map bp_comment (dict_values (fw_positions w)) = map bp_comment ps"
    by (induction rule: list_all2_induct) (auto dest: c)
  ultimately show ?thesis by simp
qed

lemma method_Inr:
  assumes "fk_method c body w = (Inr x, v)"
  shows "\<exists>u u'. same_book w u \<and> body u = (Inr x, u') \<and> same_book u' v"
proof -
  obtain f u where e: "fk_enter c w = (Inr f, u)"
    using assms by (auto simp: fk_method_def bnd_def split: prod.splits sum.splits)
  obtain y u' where b: "body u = (Inr y, u')" and x: "fk_exit f c y u' = (Inr x, v)"
    using assms e by (auto simp: fk_method_def bnd_def split: prod.splits sum.splits)
  have "same_book w u" using enter_book e by (rule keepsD)
  moreover have "same_book u' v" using exit_book x by (rule keepsD)
  moreover have "y = x" using x by (auto simp: fk_exit_def raise_def ret_def split: if_splits)
  ultimately show ?thesis using b by blast
qed

lemma orders_listed: "keeps fk_calm (seq expire_orders (gets (\<lambda>w. dict_values (fw_orders w))))"
    "keeps still (seq expire_orders (gets (\<lambda>w. dict_values (fw_orders w))))"
  by (intro calm.keeps_rules expire_calm) (intro still.keeps_rules expire_still)

lemma search_finds:
  assumes "fk_good w" "fk_settled w c"
    and "ad_positions (fake_adapter E) w = (Inr ps, w1)" "\<forall>p \<in> set ps. bp_comment p \<noteq> c"
    and "ad_orders (fake_adapter E) w1 = (Inr os, w2)" "\<forall>ord \<in> set os. bo_comment ord \<noteq> c"
  shows "fk_entries w2 c = 0"
proof -
  obtain u u' where u: "same_book w u" "marked_positions E u = (Inr ps, u')" "same_book u' w1"
    using method_Inr assms(3) by (fastforce simp: fake_adapter_def)
  with positions_complete have u': "u' = u"
    "map bp_comment ps = map bp_comment (dict_values (fw_positions u))" by blast+
  have "c \<notin> set (map bp_comment ps)" using assms(4) by auto
  then have "\<forall>(k, p) \<in> set (fw_positions w). bp_comment p \<noteq> c"
    using u(1) u'(2) by (force simp: same_book_def dict_values_def)
  with assms(2) have fills: "fk_fills w c = 0" by (auto simp: fk_settled_def)
  obtain x x' where x: "same_book w1 x"
      "seq expire_orders (gets (\<lambda>w. dict_values (fw_orders w))) x = (Inr os, x')" "same_book x' w2"
    using method_Inr assms(5) by (fastforce simp: fake_adapter_def)
  then have "os = dict_values (fw_orders x')" "fw_deal_log x' = fw_deal_log x"
    by (auto simp: se_defs expire_orders_def)
  with x u u'(1) fills assms(6) show ?thesis
    by (auto simp: same_book_def fk_count_defs dict_values_def filter_empty_conv)
qed

interpretation fakeb: broker_contract "fake_adapter E" fk_good fk_entries fk_settled
proof
  show "keeps fk_calm (ad_account (fake_adapter E))"
    by (simp add: fake_adapter_def book_calm method_book same_same_book account_same)
  show "keeps fk_calm (ad_modify (fake_adapter E) mr)" for mr
    by (simp add: fake_adapter_def method_calm modify_calm)
  show "keeps fk_calm (ad_cancel (fake_adapter E) oid)" for oid
    by (simp add: fake_adapter_def method_calm cancel_calm)
  show "keeps fk_calm (ad_close (fake_adapter E) pid lots)" for pid lots
    by (simp add: fake_adapter_def method_calm close_position_calm)
  show "keeps fk_calm (ad_positions (fake_adapter E))"
    by (simp add: fake_adapter_def book_calm method_book same_same_book marked_positions_same)
  show "keeps fk_calm (ad_orders (fake_adapter E))"
    by (simp add: fake_adapter_def method_calm orders_listed)
  show "keeps fk_calm (ad_deals (fake_adapter E) since)" for since
    by (simp add: fake_adapter_def book_calm method_book same_same_book deals_same)
  have place: "places (pr_client_order_id req) w w'" if "ad_place (fake_adapter E) req w = (r, w')" for req w r w'
    using that method_places [of "pr_client_order_id req" "fk_place E req" w "CallPlace req"] place_places
    by (simp add: fake_adapter_def)
  show "fk_good w'" if "fk_good w" "ad_place (fake_adapter E) req w = (r, w')" for w req r w'
    using that place by (auto simp: places_def)
  show "fk_entries w' c \<le> fk_entries w c + (if c = pr_client_order_id req then 1 else 0)"
    if "fk_good w" "ad_place (fake_adapter E) req w = (r, w')" for w req r w' c
    using that place by (auto simp: places_def)
  show "fk_settled w c" if "fk_good w" "fk_entries w c = 0" for w c
    using that by (simp add: fk_entries_def fk_settled_def)
  show "fk_settled w' c" if "fk_good w" "fk_settled w c" "ad_place (fake_adapter E) req w = (r, w')" for w c req r w'
    using that place by (auto simp: places_def)
  show "fk_settled w' c" if "fk_good w" "fk_settled w c" "ad_positions (fake_adapter E) w = (rp, w')" for w c rp w'
    using that keepsD [OF book_still [OF method_book [OF same_same_book [OF marked_positions_same [of E]]]]]
    by (fastforce simp: fake_adapter_def still_def)
  show "fk_settled w' c" if "fk_good w" "fk_settled w c" "ad_orders (fake_adapter E) w = (ro, w')" for w c ro w'
    using that keepsD [OF method_still [OF orders_listed(2)]]
    by (fastforce simp: fake_adapter_def still_def)
qed (rule search_finds)

section \<open>The market and the rest of the world\<close>

lemma trigger_order_effect:
  assumes good: "fk_good w" and here: "dict_get (fw_orders w) (bo_broker_order_id ord) = Some ord"
  shows "fk_calm w (snd (trigger_order E q ord w)) \<and>
    (\<forall>k. k \<noteq> bo_broker_order_id ord \<longrightarrow>
      dict_get (fw_orders (snd (trigger_order E q ord w))) k = dict_get (fw_orders w) k)"
proof (cases "order_hit ord (entry_side (bo_side ord) q)")
  case False
  then show ?thesis
    by (simp add: trigger_order_def Let_def when_do_def ret_def calm.step_refl)
next
  case True
  let ?k = "bo_broker_order_id ord"
  define u where "u = w\<lparr>fw_orders := dict_del ?k (fw_orders w)\<rparr>"
  define v where "v = snd (trigger_order E q ord w)"
  have gu: "fk_good u" using good by (simp add: u_def fk_good_def book_ok_del)
  have "\<exists>sl px r. fk_open E (bo_symbol ord) (bo_side ord) (bo_lots ord) sl (bo_tp ord) (bo_magic ord)
      (bo_comment ord) (Some px) u = (r, v)"
    using True by (auto simp: v_def trigger_order_def Let_def when_do_def seq_def modif_def bnd_def gets_def
        ret_def u_def split: prod.split sum.split)
  then obtain sl px r where run: "fk_open E (bo_symbol ord) (bo_side ord) (bo_lots ord) sl (bo_tp ord)
      (bo_magic ord) (bo_comment ord) (Some px) u = (r, v)" by blast
  have "fk_entries v c \<le> fk_entries w c" for c
  proof -
    have "fk_entries v c \<le> fk_entries u c + (if c = bo_comment ord then 1 else 0)"
      using open_effect [OF gu run] by blast
    also have "\<dots> \<le> fk_entries w c"
      using count_del [OF here, of "\<lambda>(_, x). bo_comment x = c"]
        count_del_le [of "\<lambda>(_, x). bo_comment x = c" ?k "fw_orders w"]
      by (auto simp: u_def fk_count_defs)
    finally show ?thesis .
  qed
  moreover have "fk_good v" "fw_orders v = fw_orders u" using open_effect [OF gu run] by blast+
  moreover have "dict_get (fw_orders u) k = dict_get (fw_orders w) k" if "k \<noteq> ?k" for k
    using good that by (simp add: u_def fk_good_def book_ok_def)
  ultimately show ?thesis by (simp add: calm_def v_def [symmetric])
qed

lemma trigger_orders_fold:
  assumes "fk_good w" and "distinct (map bo_broker_order_id os)"
    and "\<And>ord. ord \<in> set os \<Longrightarrow> dict_get (fw_orders w) (bo_broker_order_id ord) = Some ord"
  shows "fk_calm w (snd (for_each (trigger_order E q) os w))"
  using assms
proof (induction os arbitrary: w)
  case Nil
  then show ?case by (simp add: ret_def calm.step_refl)
next
  case (Cons x os)
  obtain r v where t: "trigger_order E q x w = (r, v)" by fastforce
  have eff: "fk_calm w v" "\<And>k. k \<noteq> bo_broker_order_id x \<Longrightarrow> dict_get (fw_orders v) k = dict_get (fw_orders w) k"
    using trigger_order_effect [OF Cons.prems(1), of x E q] Cons.prems(3) t by auto
  have "fk_calm v (snd (for_each (trigger_order E q) os v))"
  proof (rule Cons.IH)
    show "fk_good v" using eff(1) Cons.prems(1) by (simp add: calm_def)
    show "distinct (map bo_broker_order_id os)" using Cons.prems(2) by simp
    show "dict_get (fw_orders v) (bo_broker_order_id ord) = Some ord" if "ord \<in> set os" for ord
    proof -
      have "bo_broker_order_id ord \<noteq> bo_broker_order_id x"
        using that Cons.prems(2) by (metis distinct.simps(2) image_eqI list.map(2) list.set_map)
      then show ?thesis using that eff(2) Cons.prems(3) [of ord] by simp
    qed
  qed
  with eff(1) have "fk_calm w (snd (for_each (trigger_order E q) os v))" by (rule calm.step_trans)
  moreover have "snd (for_each (trigger_order E q) (x # os) w) \<in>
      {v, snd (for_each (trigger_order E q) os v)}"
    by (cases r) (simp_all add: seq_def bnd_def t)
  ultimately show ?case using eff(1) by (metis empty_iff insert_iff)
qed

lemma listed_orders:
  assumes "fk_good w" and os_def: "os = filter P (dict_values (fw_orders w))"
  shows "distinct (map bo_broker_order_id os)"
    and "ord \<in> set os \<Longrightarrow> dict_get (fw_orders w) (bo_broker_order_id ord) = Some ord"
proof -
  have b: "book_ok bo_broker_order_id (fw_ticket w) (fw_orders w)" using assms(1) by (simp add: fk_good_def)
  then have "map bo_broker_order_id (dict_values (fw_orders w)) = map fst (fw_orders w)"
    by (auto simp: book_ok_def dict_values_def)
  with b show "distinct (map bo_broker_order_id os)"
    unfolding os_def by (metis book_ok_def distinct_map_filter)
  show "ord \<in> set os \<Longrightarrow> dict_get (fw_orders w) (bo_broker_order_id ord) = Some ord"
    using b by (auto simp: os_def book_ok_def dict_values_def)
qed

lemma trigger_orders_calm: "keeps fk_calm (trigger_orders E symbol)"
  unfolding keeps_def
proof
  fix w
  show "fk_calm w (snd (trigger_orders E symbol w))"
  proof (cases "fk_good w")
    case True
    with trigger_orders_fold [OF True listed_orders [OF True refl]] show ?thesis
      by (auto simp: trigger_orders_def quote_se_def lookup_se_def se_defs calm.step_refl split: option.split)
  qed (simp add: calm_def)
qed

lemma trigger_stops_calm: "keeps fk_calm (trigger_stops E symbol)"
proof -
  have ro: "keeps (=) m \<Longrightarrow> keeps fk_calm m" for m :: "(fake, 'a) se"
    by (intro book_calm same_same_book)
  have "keeps fk_calm (fk_close E p px None)" for p px
    by (simp add: keeps_def close_effect)
  then show ?thesis
    unfolding trigger_stops_def trigger_stop_def
    by (intro calm.keeps_rules ro [OF exit_price_same] ro [OF slipped_same])
qed

lemma set_quote_calm: "keeps fk_calm (fk_set_quote E symbol bid ask)"
  unfolding fk_set_quote_def
  by (intro calm.keeps_seq calm.keeps_modif same_book_calm expire_calm trigger_orders_calm trigger_stops_calm)
     (simp add: same_book_def)

lemma deposit_calm: "keeps fk_calm (fk_deposit amount)"
  by (auto simp: keeps_def fk_deposit_def fk_next_def se_defs calm_def fk_good_def fk_count_defs
      entry_deal_def intro: book_ok_mono)

text \<open>A manual trade carries no comment, so it counts for no client order id.\<close>

lemma external_effect:
  assumes "fk_good w" and "fk_open_external E symbol sd lots sl w = (r, v)"
  shows "fk_good v" and "c \<noteq> [] \<Longrightarrow> fk_entries v c \<le> fk_entries w c"
  using open_effect [OF assms(1), of E symbol sd lots sl None 0 "[]" None r v c] assms(2)
  by (auto simp: fk_open_external_def)

text \<open>
  What the world does by itself between two operations: time passes, prices move, the owner trades by
  phone or deposits money, and faults come and go.
\<close>

inductive fake_move :: "fake_env \<Rightarrow> fake \<Rightarrow> fake \<Rightarrow> bool" for E :: fake_env where
  tick: "fake_move E w (w\<lparr>fw_now := t\<rparr>)" if "fw_now w \<le> t"
| price: "fake_move E w (snd (fk_set_quote E symbol bid ask w))"
| manual: "fake_move E w (snd (fk_open_external E symbol sd lots sl w))"
| money: "fake_move E w (snd (fk_deposit amount w))"
| fault: "fake_move E w (fk_fail m f skip w)"
| heal: "fake_move E w (w\<lparr>fw_faults := []\<rparr>)"
| bridge: "fake_move E w (w\<lparr>fw_down := b\<rparr>)"
| flags: "fake_move E w (w\<lparr>fw_ignore_sl_on_fill := b, fw_modify_failures := n, fw_duplicate_deals := d\<rparr>)"

lemma fake_move_calm:
  assumes "fake_move E w v" and "fk_good w"
  shows "fk_good v \<and> (\<forall>c. c \<noteq> [] \<longrightarrow> fk_entries v c \<le> fk_entries w c)"
  using assms
proof (induction rule: fake_move.induct)
  case (manual w symbol sd lots sl)
  then show ?case
    using external_effect [of w E symbol sd lots sl] by (metis prod.collapse)
next
  case (price w symbol bid ask)
  then show ?case using set_quote_calm by (simp add: keeps_def calm_def)
next
  case (money w amount)
  then show ?case using deposit_calm by (simp add: keeps_def calm_def)
qed (simp_all add: fk_good_def fk_count_defs fk_fail_def)

end
