(* ===== verification/Order_Safety.thy ===== *)
theory Order_Safety
  imports Watchdog Fake_Contract
begin

text \<open>
  An order is never placed twice. \<open>quiet\<close> is what every operation but \<open>execute\<close> keeps: no entry is
  added at the broker, and no order is forgotten, in memory or on disk. The locale \<open>order_safety\<close> proves
  it once for any broker that keeps the contract of \<open>Broker_Api\<close>; the in-memory broker is its instance.
\<close>

section \<open>What an operation may do\<close>

definition om_keys :: "'w om \<Rightarrow> string set" where
  "om_keys s = dict_keys (om_orders s)"

definition file_keys :: "(exec_state \<Rightarrow> string) \<Rightarrow> exec_state state_file \<Rightarrow> string set" where
  "file_keys digest f = (case journal_load digest f of Inl _ \<Rightarrow> {} | Inr st \<Rightarrow> dict_keys (xs_orders st))"

definition disk_keys :: "'w om_env \<Rightarrow> 'w om \<Rightarrow> string set" where
  "disk_keys E s = file_keys (oe_digest E) (om_disk s)"

definition om_sound :: "('w \<Rightarrow> bool) \<Rightarrow> 'w om_env \<Rightarrow> 'w om \<Rightarrow> bool" where
  "om_sound good E s \<longleftrightarrow> good (om_world s) \<and> disk_keys E s \<subseteq> om_keys s"

definition quiet :: "('w \<Rightarrow> string \<Rightarrow> nat) \<Rightarrow> ('w \<Rightarrow> bool) \<Rightarrow> 'w om_env \<Rightarrow> 'w om \<Rightarrow> 'w om \<Rightarrow> bool" where
  "quiet entries good E s t \<longleftrightarrow> (om_sound good E s \<longrightarrow>
     om_sound good E t \<and> (\<forall>c. entries (om_world t) c \<le> entries (om_world s) c) \<and>
     om_keys s \<subseteq> om_keys t \<and> disk_keys E s \<subseteq> disk_keys E t)"

interpretation quiet: step_rel "quiet entries good E"
  by unfold_locales (auto simp: quiet_def intro: order_trans)

named_theorems quiet_intros \<open>operations that add no entry and forget no order\<close>

lemma quiet_call [quiet_intros]: "keeps (calm entries good) m \<Longrightarrow> keeps (quiet entries good E) (call m)"
  by (auto simp: keeps_def quiet_def call_def calm_def om_sound_def om_keys_def disk_keys_def
      split: prod.split)

lemma quiet_upd_st:
  "(\<And>st. dict_keys (xs_orders st) \<subseteq> dict_keys (xs_orders (f st))) \<Longrightarrow>
    keeps (quiet entries good E) (upd_st f)"
  by (simp add: keeps_def quiet_def upd_st_def modif_def om_sound_def om_keys_def disk_keys_def) blast

lemma quiet_upd_order [quiet_intros]: "keeps (quiet entries good E) (upd_order coid f)"
  unfolding upd_order_def by (rule quiet_upd_st) (simp add: image_iff)

lemma quiet_emit [quiet_intros]: "keeps (quiet entries good E) (emit es)"
  by (simp add: keeps_def quiet_def emit_def modif_def om_sound_def om_keys_def disk_keys_def)

lemma quiet_alert [quiet_intros]: "keeps (quiet entries good E) (send_alert E' sev k msg d)"
  by (simp add: keeps_def quiet_def send_alert_def modif_def om_sound_def om_keys_def disk_keys_def)

lemma save_keys: "disk_keys E (snd (save E s)) = om_keys s \<and> om_keys (snd (save E s)) = om_keys s \<and>
    om_world (snd (save E s)) = om_world s"
  by (simp add: save_def modif_def Let_def journal_save_def disk_keys_def file_keys_def journal_load_def
      om_keys_def split: prod.split)

lemma quiet_save [quiet_intros]: "keeps (quiet entries good E) (save E)"
  using save_keys [of E] by (auto simp: keeps_def quiet_def om_sound_def)

lemma quiet_with_order [quiet_intros]:
  "(\<And>t. keeps (quiet entries good E) (f t)) \<Longrightarrow> keeps (quiet entries good E) (with_order coid f)"
  unfolding with_order_def by (intro quiet.keeps_rules)

lemma quiet_fills [quiet_intros]:
  "keeps (quiet entries good E) (opened coid price lots)"
  "keeps (quiet entries good E) (confirmed coid)"
  "keeps (quiet entries good E) (closed_trade E' coid t)"
  "keeps (quiet entries good E) (record_fill E' coid price lots latency commission)"
  unfolding opened_def confirmed_def closed_trade_def record_fill_def Let_def
  by (intro quiet.keeps_rules quiet_intros)+

lemma quiet_check_case [quiet_intros]:
  "keeps (quiet entries good E) a \<Longrightarrow> (\<And>ack. keeps (quiet entries good E) (b ack)) \<Longrightarrow>
    keeps (quiet entries good E) c \<Longrightarrow>
    keeps (quiet entries good E) (case r of Protected \<Rightarrow> a | Exposed ack \<Rightarrow> b ack | NotConfirmed \<Rightarrow> c)"
  by (cases r) auto

lemma quiet_send_case [quiet_intros]:
  "keeps (quiet entries good E) a \<Longrightarrow> (\<And>ack. keeps (quiet entries good E) (b ack)) \<Longrightarrow>
    keeps (quiet entries good E) c \<Longrightarrow>
    keeps (quiet entries good E) (case r of FoundAtBroker \<Rightarrow> a | Acked ack \<Rightarrow> b ack | NoAnswer \<Rightarrow> c)"
  by (cases r) auto

lemma quiet_kind_case [quiet_intros]:
  assumes "keeps (quiet entries good E) a" "keeps (quiet entries good E) b" "keeps (quiet entries good E) c"
    "keeps (quiet entries good E) d" "keeps (quiet entries good E) e" "keeps (quiet entries good E) f"
    "keeps (quiet entries good E) g" "keeps (quiet entries good E) h" "keeps (quiet entries good E) i"
  shows "keeps (quiet entries good E) (case k of
      BrokerUnreachable \<Rightarrow> a | UnconfirmedSend \<Rightarrow> b | MissingPosition \<Rightarrow> c | MissingOrder \<Rightarrow> d
    | UntrackedPosition \<Rightarrow> e | UntrackedOrder \<Rightarrow> f | LotsDiffer \<Rightarrow> g | MissingStop \<Rightarrow> h | BalanceDiffers \<Rightarrow> i)"
  using assms by (cases k) auto

text \<open>Code that cannot raise \<open>BrokerUnavailableError\<close> itself.\<close>

definition no_outage :: "('s, 'a) se \<Rightarrow> bool" where
  "no_outage m \<longleftrightarrow> (\<forall>s e. fst (m s) \<noteq> Inl (Unavailable e))"

named_theorems no_outage_intros

lemma no_outage_basic [no_outage_intros]:
  "no_outage (ret x)" "no_outage (raise (KeyErr k))" "no_outage (gets f)" "no_outage (modif g)"
  by (simp_all add: no_outage_def ret_def raise_def gets_def modif_def)

lemma no_outage_bnd [no_outage_intros]: "no_outage m \<Longrightarrow> (\<And>x. no_outage (f x)) \<Longrightarrow> no_outage (bnd m f)"
  by (auto simp: no_outage_def bnd_def split: prod.split sum.split) (metis fst_conv)

lemma no_outage_rules [no_outage_intros]:
  "no_outage m \<Longrightarrow> no_outage n \<Longrightarrow> no_outage (if b then m else n)"
  "no_outage n \<Longrightarrow> (\<And>y. no_outage (f y)) \<Longrightarrow> no_outage (case x of None \<Rightarrow> n | Some y \<Rightarrow> f y)"
  "(\<And>a b. no_outage (g a b)) \<Longrightarrow> no_outage (case p of (a, b) \<Rightarrow> g a b)"
  by (auto split: option.split prod.split)

lemma no_outage_seq [no_outage_intros]: "no_outage m \<Longrightarrow> no_outage n \<Longrightarrow> no_outage (seq m n)"
  unfolding seq_def by (intro no_outage_intros)

lemma no_outage_catch [no_outage_intros]: "(\<And>e. no_outage (h e)) \<Longrightarrow> no_outage (catch_unavailable m h)"
  by (auto simp: no_outage_def catch_unavailable_def split: prod.split sum.split exn.split)

lemma no_outage_check_case [no_outage_intros]:
  "no_outage a \<Longrightarrow> (\<And>ack. no_outage (b ack)) \<Longrightarrow> no_outage c \<Longrightarrow>
    no_outage (case r of Protected \<Rightarrow> a | Exposed ack \<Rightarrow> b ack | NotConfirmed \<Rightarrow> c)"
  by (cases r) auto

lemma no_outage_confirm: "no_outage (confirm_stop E coid)"
  unfolding confirm_stop_def with_order_def upd_order_def upd_st_def send_alert_def save_def
  by (intro no_outage_intros)

lemma no_outage_adopt: "no_outage (adopt E coid pos oid)"
  unfolding adopt_def with_order_def upd_order_def upd_st_def opened_def save_def record_fill_def emit_def
  by (intro no_outage_intros no_outage_confirm)

locale order_safety = broker_contract "oe_adapter E" good entries settled
  for E :: "'w om_env" and good entries settled
begin

lemmas calls = account_calm modify_calm cancel_calm close_calm positions_calm orders_calm deals_calm

lemma quiet_stops:
  "keeps (quiet entries good E) (position_at_broker E pid)"
  "keeps (quiet entries good E) (repair_stop E n coid pid)"
  "keeps (quiet entries good E) (confirm_stop E coid)"
proof -
  show pos: "keeps (quiet entries good E) (position_at_broker E pid)" for pid
    unfolding position_at_broker_def by (intro quiet.keeps_rules quiet_intros calls)
  show rep: "keeps (quiet entries good E) (repair_stop E n coid pid)" for n pid
    by (induction n) (auto intro!: quiet.keeps_rules quiet_intros calls pos split: option.split)
  have chk: "keeps (quiet entries good E) (check_stop_at_broker E coid pid)" for pid
    unfolding check_stop_at_broker_def
    by (intro quiet.keeps_rules quiet_intros calls pos rep)
  show "keeps (quiet entries good E) (confirm_stop E coid)"
    unfolding confirm_stop_def by (intro quiet.keeps_rules quiet_intros chk)
qed

lemma quiet_initialize: "keeps (quiet entries good E) (initialize E)"
  unfolding initialize_def by (intro quiet.keeps_rules quiet_intros calls quiet_upd_st) simp

lemma quiet_find: "keeps (quiet entries good E) (find_at_broker E coid)"
  unfolding find_at_broker_def by (intro quiet.keeps_rules quiet_intros calls)

lemma quiet_tighten: "keeps (quiet entries good E) (tighten_stop E pid x)"
  unfolding tighten_stop_def Let_def by (intro quiet.keeps_rules quiet_intros calls)

lemma quiet_close: "keeps (quiet entries good E) (close_position E pid reason)"
  unfolding close_position_def by (intro quiet.keeps_rules quiet_intros calls)

lemma quiet_adopt: "keeps (quiet entries good E) (adopt E coid pos oid)"
  unfolding adopt_def by (intro quiet.keeps_rules quiet_intros quiet_stops)

lemma quiet_sync: "keeps (quiet entries good E) (sync_deals E)"
proof -
  have cash: "dict_keys (xs_orders st) \<subseteq> dict_keys (xs_orders (count_cash d st))" for d st
    by (simp add: count_cash_def split: option.split)
  have "keeps (quiet entries good E) (apply_in E coid d)" for coid d
    unfolding apply_in_def by (intro quiet.keeps_rules quiet_intros quiet_stops)
  moreover have "keeps (quiet entries good E) (apply_out E coid d)" for coid d
    unfolding apply_out_def by (intro quiet.keeps_rules quiet_intros)
  ultimately have "keeps (quiet entries good E) (apply_trade_deal E d)" for d
    unfolding apply_trade_deal_def by (intro quiet.keeps_rules)
  then have "keeps (quiet entries good E) (apply_deal E d acc)" for d acc
    unfolding apply_deal_def
    by (intro quiet.keeps_rules quiet_intros quiet_upd_st cash) simp
  then show ?thesis
    unfolding sync_deals_def by (intro quiet.keeps_rules quiet_intros calls quiet_upd_st) simp_all
qed

lemma quiet_expire: "keeps (quiet entries good E) (expire_pending E)"
  unfolding expire_pending_def expire_one_def
  by (intro quiet.keeps_rules quiet_intros calls)

lemma quiet_cancel_entries: "keeps (quiet entries good E) (cancel_pending_entries E reason)"
  unfolding cancel_pending_entries_def cancel_entry_def
  by (intro quiet.keeps_rules quiet_intros calls)

lemma quiet_halt: "keeps (quiet entries good E) (apply_halt E cmd)"
  unfolding apply_halt_def close_on_halt_def
  by (intro quiet.keeps_rules quiet_intros calls quiet_cancel_entries)

lemma quiet_demotion:
  "keeps (quiet entries good E) (cancel_pending_of E sid v reason)"
  "keeps (quiet entries good E) (close_positions_of E sid v reason)"
  unfolding cancel_pending_of_def cancel_one_of_def close_positions_of_def close_one_of_def
  by (intro quiet.keeps_rules quiet_intros calls quiet_close)+

text \<open>One more entry for \<open>c\<close>, at most, and only one the journal on disk knows.\<close>

definition adds :: "string \<Rightarrow> 'w om \<Rightarrow> 'w om \<Rightarrow> bool" where
  "adds c s t \<longleftrightarrow> (om_sound good E s \<and> settled (om_world s) c \<and> entries (om_world s) c \<le> 1 \<longrightarrow>
     om_sound good E t \<and> entries (om_world t) c \<le> 1 \<and>
     (\<forall>d. d \<noteq> c \<longrightarrow> entries (om_world t) d \<le> entries (om_world s) d) \<and>
     om_keys s \<subseteq> om_keys t \<and> disk_keys E s \<subseteq> disk_keys E t)"

lemma quiet_adds: "quiet entries good E s t \<Longrightarrow> adds c s t"
  by (auto simp: quiet_def adds_def intro: order_trans)

lemma quiet_then_adds:
  "quiet entries good E s t \<Longrightarrow> (settled (om_world s) c \<Longrightarrow> settled (om_world t) c) \<Longrightarrow>
    adds c t u \<Longrightarrow> adds c s u"
  unfolding quiet_def adds_def by (meson order_trans)

lemma adds_then_quiet: "adds c s t \<Longrightarrow> quiet entries good E t u \<Longrightarrow> adds c s u"
  unfolding quiet_def adds_def by (meson order_trans)

lemma find_settled:
  assumes "om_sound good E s" and "settled (om_world s) c" and "find_at_broker E c s = (r, t)"
  shows "settled (om_world t) c" and "r = Inr (None, None) \<Longrightarrow> entries (om_world t) c = 0"
proof -
  have good: "good (om_world s)" using assms(1) by (simp add: om_sound_def)
  obtain rp w1 where p: "ad_positions (oe_adapter E) (om_world s) = (rp, w1)" by fastforce
  have w1: "good w1" "settled w1 c"
    using positions_settled [OF good assms(2) p] keepsD [OF positions_calm p] good by (auto simp: calm_def)
  obtain ro w2 where q: "ad_orders (oe_adapter E) w1 = (ro, w2)" by fastforce
  have w2: "settled w2 c" using orders_settled [OF w1 q] .
  have "om_world t \<in> {w1, w2}"
    using assms(3) p q by (auto simp: find_at_broker_def bnd_def call_def ret_def split: sum.splits option.splits)
  with w1(2) w2 show "settled (om_world t) c" by auto
  show "entries (om_world t) c = 0" if r: "r = Inr (None, None)"
  proof -
    obtain ps os where "rp = Inr ps" "\<forall>x \<in> set ps. bp_comment x \<noteq> c" "ro = Inr os"
      "\<forall>x \<in> set os. bo_comment x \<noteq> c" "om_world t = w2"
      using assms(3) r p q
      by (auto simp: find_at_broker_def bnd_def call_def ret_def split: sum.splits option.splits)
    with search_complete [OF good assms(2)] p q show ?thesis by blast
  qed
qed

lemma place_adds:
  assumes "pr_client_order_id req = c" and "om_sound good E s" and "settled (om_world s) c"
    and "entries (om_world s) c = 0" and "call (ad_place (oe_adapter E) req) s = (r, t)"
  shows "adds c s t \<and> settled (om_world t) c"
proof -
  obtain w where pl: "ad_place (oe_adapter E) req (om_world s) = (r, w)" and t: "t = s\<lparr>om_world := w\<rparr>"
    using assms(5) by (auto simp: call_def split: prod.splits)
  have good: "good (om_world s)" using assms(2) by (simp add: om_sound_def)
  have "entries w d \<le> entries (om_world s) d" if "d \<noteq> c" for d
    using place_entries [OF good pl, of d] that assms(1) by simp
  moreover have "entries w c \<le> 1" using place_entries [OF good pl, of c] assms(1,4) by simp
  ultimately show ?thesis
    using place_good [OF good pl] place_settled [OF good assms(3) pl] t assms(2)
    by (simp add: adds_def om_sound_def om_keys_def disk_keys_def)
qed

lemma attempts_add:
  assumes "pr_client_order_id req = c" and "om_sound good E s" and "settled (om_world s) c"
  shows "adds c s (snd (send_attempts E n c req s))"
  using assms(2,3)
proof (induction n arbitrary: s)
  case 0
  show ?case by (simp add: ret_def quiet_adds quiet.step_refl)
next
  case (Suc n)
  obtain rf t where f: "find_at_broker E c s = (rf, t)" by fastforce
  have st: "quiet entries good E s t" using quiet_find f by (rule keepsD)
  then have sound: "om_sound good E t" using Suc.prems(1) by (simp add: quiet_def)
  have settled: "settled (om_world t) c" using find_settled(1) [OF Suc.prems f] .
  have lift: "adds c t u \<Longrightarrow> adds c s u" for u using quiet_then_adds [OF st settled] by blast
  have again: "adds c s (snd (send_attempts E n c req t))" using Suc.IH [OF sound settled] by (rule lift)
  show ?case
  proof (cases rf)
    case (Inl e)
    with f again st show ?thesis
      by (cases e) (auto simp: catch_unavailable_def bnd_def quiet_adds)
  next
    case (Inr x)
    show ?thesis
    proof (cases "x = (None, None)")
      case False
      obtain pos oid where x: "x = (pos, oid)" by fastforce
      obtain ra u where ad: "adopt E c pos oid t = (ra, u)" by fastforce
      have "quiet entries good E s u" using st keepsD [OF quiet_adopt ad] by (rule quiet.step_trans)
      moreover have "ra \<noteq> Inl (Unavailable e)" for e
        using no_outage_adopt [of E c pos oid] ad by (metis fst_conv no_outage_def)
      ultimately show ?thesis
        using f Inr False x ad
        by (cases ra) (auto simp: catch_unavailable_def bnd_def seq_def ret_def quiet_adds split: exn.split)
    next
      case True
      have none: "entries (om_world t) c = 0" using find_settled(2) [OF Suc.prems f] Inr True by simp
      obtain rp u where pl: "call (ad_place (oe_adapter E) req) t = (rp, u)" by fastforce
      have u: "adds c t u" "settled (om_world u) c"
        using place_adds [OF assms(1) sound settled none pl] by auto
      have "om_sound good E u" using u(1) sound settled none by (simp add: adds_def)
      then have "adds c u (snd (send_attempts E n c req u))" using Suc.IH u(2) by blast
      moreover have "entries (om_world u) c \<le> 1" using u(1) sound settled none by (simp add: adds_def)
      ultimately have "adds c t (snd (send_attempts E n c req u))"
        using u \<open>om_sound good E u\<close> unfolding adds_def by (meson order_trans)
      then show ?thesis
        using f Inr True pl lift u(1)
        by (cases rp) (auto simp: catch_unavailable_def bnd_def ret_def split: exn.split)
    qed
  qed
qed

lemma adds_bnd:
  assumes "adds c s (snd (m s))" and "\<And>x. keeps (quiet entries good E) (f x)"
  shows "adds c s (snd (bnd m f s))"
proof -
  obtain r t where m: "m s = (r, t)" by fastforce
  have "adds c s (snd (f x t))" for x
    using assms m adds_then_quiet [of c s t] by (simp add: keeps_def)
  with assms(1) m show ?thesis by (auto simp: bnd_def split: sum.split)
qed

lemma send_adds:
  assumes "pr_client_order_id req = c" and "om_sound good E s" and "settled (om_world s) c"
  shows "adds c s (snd (send_order E c req s))"
  unfolding send_order_def Let_def
  by (subst bnd_gets, rule adds_bnd, rule attempts_add [OF assms])
     (intro quiet.keeps_rules quiet_intros quiet_stops)

text \<open>The invariant, for client order ids of intents.\<close>

definition once_inv :: "'w om \<Rightarrow> bool" where
  "once_inv s \<longleftrightarrow> om_sound good E s \<and>
     (\<forall>i. entries (om_world s) (client_order_id i) \<le> 1 \<and>
       (0 < entries (om_world s) (client_order_id i) \<longrightarrow> client_order_id i \<in> disk_keys E s))"

lemma quiet_once: "quiet entries good E s t \<Longrightarrow> once_inv s \<Longrightarrow> once_inv t"
  unfolding quiet_def once_inv_def by (meson le_trans less_le_trans subsetD)

lemma keeps_once: "keeps (quiet entries good E) m \<Longrightarrow> keeps (preserving once_inv) m"
  by (erule keeps_weaken) (auto simp: preserving_def intro: quiet_once)

lemma write_ahead_once:
  assumes inv: "once_inv s" and req: "pr_client_order_id req = client_order_id i"
    and new: "client_order_id i \<notin> om_keys s"
  shows "once_inv (snd (write_ahead_and_send E oi req requested now s))"
proof -
  let ?c = "client_order_id i"
  let ?put = "upd_st (\<lambda>st. st\<lparr>xs_orders := dict_set ?c (tracked_of oi req requested now) (xs_orders st)\<rparr>)
    :: ('w om, unit) se"
  obtain t where put: "?put s = (Inr (), t)" by (simp add: upd_st_def modif_def)
  obtain u where sv: "save E t = (Inr (), u)" by (simp add: save_def modif_def)
  have put_quiet: "keeps (quiet entries good E) ?put" by (rule quiet_upd_st) auto
  have q: "quiet entries good E s u"
    using keepsD [OF put_quiet put] keepsD [OF quiet_save sv] by (rule quiet.step_trans)
  then have u: "once_inv u" using inv by (rule quiet_once)
  have t: "?c \<in> om_keys t" "om_world t = om_world s"
    using put by (auto simp: upd_st_def modif_def om_keys_def)
  have disk: "?c \<in> disk_keys E u" and w: "om_world u = om_world s"
    using save_keys [of E t] t sv by auto
  have none: "entries (om_world u) ?c = 0"
    using inv new w by (auto simp: once_inv_def om_sound_def)
  have sound: "om_sound good E u" using u by (simp add: once_inv_def)
  have settled: "settled (om_world u) ?c"
    using untouched_settled none sound by (simp add: om_sound_def)
  let ?v = "snd (send_order E ?c req u)"
  have v: "adds ?c u ?v" using send_adds [OF req sound settled] .
  have "snd (write_ahead_and_send E oi req requested now s) = ?v"
    by (simp add: write_ahead_and_send_def Let_def req seq_def bnd_def put sv)
  moreover have "once_inv ?v"
    using v sound settled none disk u unfolding adds_def once_inv_def
    by (metis le_trans less_le_trans subsetD zero_le)
  ultimately show ?thesis by simp
qed

lemma execute_known:
  assumes "client_order_id (oi_id i) \<in> om_keys s"
  shows "snd (execute E i sd tf s) = s"
proof -
  obtain t where "dict_get (om_orders s) (client_order_id (oi_id i)) = Some t"
    using key_get [OF assms [unfolded om_keys_def]] by blast
  then show ?thesis by (simp add: execute_def bnd_gets Let_def ret_def)
qed

lemma enter_once:
  assumes inv: "once_inv s" and new: "client_order_id (oi_id i) \<notin> om_keys s"
  shows "once_inv (snd (enter_order E i lots tf now s))"
proof -
  have refuse: "once_inv (snd (ret x s))" for x :: exec_result
    using inv by (simp add: ret_def)
  have alert: "once_inv (snd (seq (send_alert E sev k msg d) (ret x) s))" for sev k msg d and x :: exec_result
  proof -
    have "keeps (quiet entries good E) (seq (send_alert E sev k msg d) (ret x))"
      by (intro quiet.keeps_rules quiet_intros)
    from keeps_once [OF this] inv show ?thesis by (simp add: keeps_def preserving_def)
  qed
  have go: "once_inv (snd (write_ahead_and_send E i
      (place_request_of (client_order_id (oi_id i)) sig info lots price expires) requested now s))"
    for sig info price expires requested
    by (rule write_ahead_once [OF inv _ new]) (simp add: place_request_of_def)
  show ?thesis
    using inv refuse alert go
    by (simp add: enter_order_def Let_def bnd_gets raise_def split: option.split sum.split bool.split)
qed

lemma execute_once: "keeps (preserving once_inv) (execute E i sd tf)"
  unfolding keeps_def preserving_def
proof (intro allI impI)
  fix s
  assume inv: "once_inv s"
  let ?c = "client_order_id (oi_id i)"
  show "once_inv (snd (execute E i sd tf s))"
  proof (cases "?c \<in> om_keys s")
    case True
    with inv show ?thesis by (simp add: execute_known)
  next
    case False
    then have none: "dict_get (om_orders s) ?c = None"
      by (simp add: om_keys_def map_of_eq_None_iff)
    show ?thesis
    proof (cases "verify_decision (oe_sig_ok E) sd (oi_id i) (om_now E s) (om_last_seq s)")
      case (Inl why)
      have "keeps (quiet entries good E) (seq (when_do (str_in ''signature'' why)
          (send_alert E Critical ''forged_decision'' (why, []) [(''intent_id'', oi_id i)]))
        (ret (exec_result_of ?c None False (why, []))))"
        by (intro quiet.keeps_rules quiet_intros)
      from keeps_once [OF this] inv none Inl show ?thesis
        by (simp add: execute_def bnd_gets Let_def keeps_def preserving_def)
    next
      case (Inr n)
      let ?s1 = "s\<lparr>om_last_seq := n\<rparr>"
      have s1: "once_inv ?s1" using inv
        by (simp add: once_inv_def om_sound_def om_keys_def disk_keys_def)
      obtain t where sv: "save E ?s1 = (Inr (), t)" by (simp add: save_def modif_def)
      have "once_inv t" using quiet_once [OF keepsD [OF quiet_save sv] s1] .
      moreover have "?c \<notin> om_keys t"
        using save_keys [of E ?s1] sv False by (simp add: om_keys_def)
      ultimately show ?thesis
        using none Inr enter_once [of t i]
        by (simp add: execute_def bnd_gets Let_def seq_modif seq_run [of "save E" ?s1, OF sv])
    qed
  qed
qed

section \<open>Reconciliation, watchdog and cycle\<close>

lemma quiet_check: "keeps (quiet entries good E) (check E)"
  unfolding check_def sync_and_view_def broker_view_of_def flag_external_def
  by (intro quiet.keeps_rules quiet_intros calls quiet_sync quiet_upd_st) simp

lemma quiet_resolve: "keeps (quiet entries good E) (resolve E all v deals m)"
proof -
  have "keeps (quiet entries good E) (adopt_unknown E pos ord)" for pos ord
    unfolding adopt_unknown_def Let_def by (intro quiet.keeps_rules quiet_upd_st) auto
  note unknown = this
  show ?thesis
    unfolding resolve_def Let_def by (intro quiet.keeps_rules quiet_intros quiet_stops unknown)
qed

lemma quiet_resync: "keeps (quiet entries good E) (resync E all report)"
  unfolding resync_def broker_view_of_def
  by (intro quiet.keeps_rules quiet_intros calls quiet_resolve quiet_upd_st) simp

lemma quiet_episode: "keeps (quiet entries good E) (set_episode E e)"
  unfolding set_episode_def by (intro quiet.keeps_rules quiet_intros quiet_upd_st) simp

end

text \<open>The same on a pair and on the service record, through the order manager's part.\<close>

definition through :: "('a \<Rightarrow> 's) \<Rightarrow> ('s \<Rightarrow> 's \<Rightarrow> bool) \<Rightarrow> 'a \<Rightarrow> 'a \<Rightarrow> bool" where
  "through f R x y \<longleftrightarrow> R (f x) (f y)"

interpretation quiet_pair: step_rel "through fst (quiet entries good E)"
  by unfold_locales (auto simp: through_def intro: quiet.step_refl quiet.step_trans)

interpretation quiet_service: step_rel "through sv_om (quiet entries good E)"
  by unfold_locales (auto simp: through_def intro: quiet.step_refl quiet.step_trans)

lemma quiet_on_om [quiet_intros]:
  "keeps (quiet entries good E) m \<Longrightarrow> keeps (through fst (quiet entries good E)) (on_om m)"
  by (auto simp: keeps_def through_def on_om_def split: prod.split) (metis snd_conv)

lemma quiet_on_side [quiet_intros]: "keeps (through fst (quiet entries good E)) (on_side f)"
  by (auto simp: keeps_def through_def on_side_def quiet.step_refl split: prod.split)

lemma quiet_on_service [quiet_intros]:
  "keeps (quiet entries good E) m \<Longrightarrow> keeps (through sv_om (quiet entries good E)) (on_service_om m)"
  "keeps (through fst (quiet entries good E)) k \<Longrightarrow> keeps (through sv_om (quiet entries good E)) (on_service_recon k)"
  "keeps (through fst (quiet entries good E)) l \<Longrightarrow> keeps (through sv_om (quiet entries good E)) (on_service_wd l)"
  by (auto simp: keeps_def through_def on_service_om_def on_service_recon_def on_service_wd_def
      split: prod.split) (metis fst_conv snd_conv)+

context order_safety begin

lemma quiet_run_once: "keeps (through fst (quiet entries good E)) (run_once E C)"
  unfolding run_once_def on_mismatch_def resync_and_recheck_def apply_or_alert_def Let_def
  by (intro quiet_pair.keeps_rules quiet_intros quiet.keeps_rules quiet_check quiet_resync quiet_episode
      quiet_halt)

lemma quiet_owner_resync: "keeps (through fst (quiet entries good E)) (owner_resync E C)"
  unfolding owner_resync_def
  by (intro quiet_pair.keeps_rules quiet_intros quiet.keeps_rules quiet_check quiet_resync quiet_episode)

lemma quiet_watchdog: "keeps (through fst (quiet entries good E)) (watchdog_check E)"
  unfolding watchdog_check_def trip_def restore_def cancel_if_tripped_def upd_wd_def
  by (intro quiet_pair.keeps_rules quiet_intros quiet.keeps_rules quiet_cancel_entries)

lemma quiet_cycle: "keeps (through sv_om (quiet entries good E)) (cycle E C)"
proof -
  have "keeps (quiet entries good E) (om_cycle E)"
    unfolding om_cycle_def confirm_open_def
    by (intro quiet.keeps_rules quiet_intros quiet_sync quiet_expire quiet_stops)
  moreover have "keeps (through sv_om (quiet entries good E)) (modif (\<lambda>v. v\<lparr>sv_last_recon := t\<rparr>))" for t
    by (intro quiet_service.keeps_modif) (simp add: through_def quiet.step_refl)
  ultimately show ?thesis
    unfolding cycle_def Let_def
    by (intro quiet_service.keeps_rules quiet_intros quiet.keeps_rules quiet_watchdog quiet_run_once)
qed

end

end
