(* ===== verification/Exec_System.thy ===== *)
theory Exec_System
  imports Order_Safety
begin

text \<open>
  The execution service as a transition system: its operations in any order, the world moving between
  them, the process killed at any call to the broker and restarted from the journal.
\<close>

section \<open>A process that can be killed\<close>

text \<open>
  \<open>mortal A\<close> is the adapter \<open>A\<close> seen from a process with a kill plan: \<open>Some (2 * n)\<close> dies before the
  call number \<open>n + 1\<close> reaches the broker, \<open>Some (2 * n + 1)\<close> after it was applied and before the answer
  arrives. The exception is none the code catches, so the operation ends where it stands.
\<close>

fun mortal_call :: "('w, 'a) se \<Rightarrow> ('w \<times> nat option, 'a) se" where
  "mortal_call m (w, None) = (case m w of (r, w') \<Rightarrow> (r, (w', None)))"
| "mortal_call m (w, Some 0) = (Inl (RuntimeErr [''killed'']), (w, Some 0))"
| "mortal_call m (w, Some (Suc 0)) = (Inl (RuntimeErr [''killed'']), (snd (m w), Some 0))"
| "mortal_call m (w, Some (Suc (Suc n))) = (case m w of (r, w') \<Rightarrow> (r, (w', Some n)))"

definition mortal :: "'w adapter \<Rightarrow> ('w \<times> nat option) adapter" where
  "mortal A =
     \<lparr>ad_now = (\<lambda>w. ad_now A (fst w)),
      ad_account = mortal_call (ad_account A),
      ad_place = (\<lambda>req. mortal_call (ad_place A req)),
      ad_modify = (\<lambda>mr. mortal_call (ad_modify A mr)),
      ad_cancel = (\<lambda>oid. mortal_call (ad_cancel A oid)),
      ad_close = (\<lambda>pid lots. mortal_call (ad_close A pid lots)),
      ad_positions = mortal_call (ad_positions A),
      ad_orders = mortal_call (ad_orders A),
      ad_deals = (\<lambda>since. mortal_call (ad_deals A since))\<rparr>"

lemma mortal_step: "mortal_call m (w, p) = (r, (w', p')) \<Longrightarrow>
    w' = w \<or> (\<exists>x. m w = (x, w'))"
  by (cases "(m, w, p)" rule: mortal_call.cases)
     (auto split: prod.splits, (metis prod.collapse)+)

lemma mortal_Inr: "mortal_call m (w, p) = (Inr x, (w', p')) \<Longrightarrow> m w = (Inr x, w')"
  by (cases "(m, w, p)" rule: mortal_call.cases) (auto split: prod.splits)

lemma mortal_keeps:
  fixes m :: "('w, 'a) se"
  assumes "keeps (calm entries good) m"
  shows "keeps (calm (\<lambda>w. entries (fst w)) (\<lambda>w. good (fst w))) (mortal_call m)"
  unfolding keeps_def
proof
  fix x :: "'w \<times> nat option"
  obtain w p where x: "x = (w, p)" by fastforce
  obtain r w' p' where y: "mortal_call m (w, p) = (r, (w', p'))" by (metis prod.collapse)
  from mortal_step [OF y] have "calm entries good w w'"
    using assms by (auto simp: calm.step_refl dest: keepsD)
  with x y show "calm (\<lambda>w. entries (fst w)) (\<lambda>w. good (fst w)) x (snd (mortal_call m x))"
    by (simp add: calm_def)
qed

context broker_contract begin

lemma mortal_contract:
  "broker_contract (mortal A) (\<lambda>w. good (fst w)) (\<lambda>w. entries (fst w)) (\<lambda>w. settled (fst w))"
proof -
  note calls = account_calm modify_calm cancel_calm close_calm positions_calm orders_calm deals_calm
  have place: "w' = w \<or> (\<exists>x. ad_place A req w = (x, w'))"
    if "ad_place (mortal A) req (w, p) = (r, (w', p'))" for req w p r w' p'
    using that mortal_step by (fastforce simp: mortal_def)
  show ?thesis
  proof (unfold_locales, goal_cases)
    case (8 w req r w')
    then show ?case using place_good place [of req "fst w" "snd w" r "fst w'" "snd w'"] by auto
  next
    case (9 w req r w' c)
    then show ?case
      using place_entries place [of req "fst w" "snd w" r "fst w'" "snd w'"] by fastforce
  next
    case (10 w c)
    then show ?case by (rule untouched_settled)
  next
    case (11 w c req r w')
    then show ?case
      using place_settled place [of req "fst w" "snd w" r "fst w'" "snd w'"] by auto
  next
    case (12 w c rp w')
    then show ?case
      using positions_settled mortal_step [of "ad_positions A" "fst w" "snd w" rp "fst w'" "snd w'"]
      by (auto simp: mortal_def)
  next
    case (13 w c ro w')
    then show ?case
      using orders_settled mortal_step [of "ad_orders A" "fst w" "snd w" ro "fst w'" "snd w'"]
      by (auto simp: mortal_def)
  next
    case (14 w c ps w1 os w2)
    then show ?case
      using search_complete [of "fst w" c ps "fst w1" os "fst w2"]
        mortal_Inr [of "ad_positions A" "fst w" "snd w" ps "fst w1" "snd w1"]
        mortal_Inr [of "ad_orders A" "fst w1" "snd w1" os "fst w2" "snd w2"]
      by (simp add: mortal_def)
  qed (simp_all add: mortal_def mortal_keeps calls)
qed

end

section \<open>Steps\<close>

datatype om_op =
    OpInitialize
  | OpExecute intent signed_decision timeframe
  | OpSyncDeals
  | OpExpirePending
  | OpConfirmStop string
  | OpTightenStop string flt
  | OpClose string string
  | OpCancelEntries string
  | OpApplyHalt halt_command
  | OpCancelOf string string string
  | OpCloseOf string string string
  | OpQuoteUpdate quote

definition ignore :: "('s, 'a) se \<Rightarrow> ('s, unit) se" where
  "ignore m = bnd m (\<lambda>_. ret ())"

fun om_do :: "'w om_env \<Rightarrow> om_op \<Rightarrow> ('w om, unit) se" where
  "om_do E OpInitialize = initialize E"
| "om_do E (OpExecute i sd tf) = ignore (execute E i sd tf)"
| "om_do E OpSyncDeals = ignore (sync_deals E)"
| "om_do E OpExpirePending = ignore (expire_pending E)"
| "om_do E (OpConfirmStop coid) = ignore (confirm_stop E coid)"
| "om_do E (OpTightenStop pid x) = ignore (tighten_stop E pid x)"
| "om_do E (OpClose pid reason) = ignore (close_position E pid reason)"
| "om_do E (OpCancelEntries reason) = ignore (cancel_pending_entries E reason)"
| "om_do E (OpApplyHalt cmd) = apply_halt E cmd"
| "om_do E (OpCancelOf sid v reason) = cancel_pending_of E sid v reason"
| "om_do E (OpCloseOf sid v reason) = close_positions_of E sid v reason"
| "om_do E (OpQuoteUpdate q) = modif (\<lambda>s. s\<lparr>om_quotes := quote_update q (om_quotes s)\<rparr>)"

datatype service_op =
    SvOrder om_op
  | SvReconcile
  | SvOwnerResync
  | SvWatchdog
  | SvBeat string time
  | SvCycle

fun service_do :: "'w om_env \<Rightarrow> 'r risk_control \<Rightarrow> service_op \<Rightarrow> (('w, 'r) service, unit) se" where
  "service_do E C (SvOrder x) = on_service_om (om_do E x)"
| "service_do E C SvReconcile = ignore (on_service_recon (run_once E C))"
| "service_do E C SvOwnerResync = ignore (on_service_recon (owner_resync E C))"
| "service_do E C SvWatchdog = ignore (on_service_wd (watchdog_check E))"
| "service_do E C (SvBeat name t) = modif (\<lambda>v. v\<lparr>sv_watchdog := beat name t (sv_watchdog v)\<rparr>)"
| "service_do E C SvCycle = run_pass E C"

definition service_start :: "'w om \<Rightarrow> 'r \<Rightarrow> time \<Rightarrow> ('w, 'r) service" where
  "service_start s r t =
     \<lparr>sv_om = s, sv_risk = r, sv_watchdog = watchdog_init t, sv_last_recon = None\<rparr>"

text \<open>
  \<open>fresh\<close> says which worlds the system may first meet, \<open>moves\<close> what the world does between operations
  (\<open>moves\<close> also renews the kill plan of a new process).
\<close>

inductive exec_reach ::
  "'w om_env \<Rightarrow> 'r risk_control \<Rightarrow> ('w \<Rightarrow> bool) \<Rightarrow> ('w \<Rightarrow> 'w \<Rightarrow> bool) \<Rightarrow> ('w, 'r) service \<Rightarrow> bool"
  for E C fresh moves where
  start: "exec_reach E C fresh moves (service_start s r t)"
    if "fresh w" "om_init E w Missing n = Inr s"
| step: "exec_reach E C fresh moves (snd (service_do E C x v))" if "exec_reach E C fresh moves v"
| world: "exec_reach E C fresh moves (v\<lparr>sv_om := (sv_om v)\<lparr>om_world := w\<rparr>\<rparr>)"
    if "exec_reach E C fresh moves v" "moves (om_world (sv_om v)) w"
| gate: "exec_reach E C fresh moves (v\<lparr>sv_risk := r\<rparr>)" if "exec_reach E C fresh moves v"
| restart: "exec_reach E C fresh moves (service_start s (sv_risk v) t)"
    if "exec_reach E C fresh moves v"
      "om_init E (om_world (sv_om v)) (om_disk (sv_om v)) n = Inr s"

lemma init_fields:
  assumes "om_init E w f n = Inr s"
  shows "om_world s = w" "om_disk s = f" "om_keys s = file_keys (oe_digest E) f"
    "om_keys s = disk_keys E s"
  using assms by (force simp: om_init_def om_keys_def file_keys_def disk_keys_def)+

lemma through_run_pass:
  fixes C :: "'r risk_control" and E :: "'w om_env"
  assumes c: "keeps (through sv_om (quiet entries good E)) (cycle E C)"
  shows "keeps (through sv_om (quiet entries good E)) (run_pass E C)"
  unfolding keeps_def
proof
  fix v
  obtain r u where r: "cycle E C v = (r, u)" by fastforce
  have vu: "through sv_om (quiet entries good E) v u" using c r by (rule keepsD)
  have "keeps (through sv_om (quiet entries good E))
      (on_service_om (send_alert E s k m d) :: (('w, 'r) service, unit) se)" for s k m d
    by (intro quiet_on_service quiet_alert)
  then have "through sv_om (quiet entries good E) u (snd (on_service_om (send_alert E s k m d) u))"
    for s k m d by (simp add: keeps_def)
  then show "through sv_om (quiet entries good E) v (snd (run_pass E C v))"
    using vu r by (cases r) (auto simp: run_pass_def intro: quiet_service.step_trans)
qed

context order_safety begin

lemma om_do_once: "keeps (preserving once_inv) (om_do E x)"
proof -
  have ig: "keeps R m \<Longrightarrow> keeps R (ignore m)" for R and m :: "('w om, 'b) se"
    by (auto simp: keeps_def ignore_def bnd_def ret_def split: prod.split sum.split) (metis snd_conv)+
  have "keeps (quiet entries good E) (modif (\<lambda>s. s\<lparr>om_quotes := f (om_quotes s)\<rparr>))" for f
    by (simp add: keeps_def modif_def quiet_def om_sound_def om_keys_def disk_keys_def)
  then show ?thesis
    by (cases x) (simp_all add: ig keeps_once execute_once quiet_initialize quiet_sync quiet_expire
        quiet_stops quiet_tighten quiet_close quiet_cancel_entries quiet_halt quiet_demotion)
qed

lemma service_do_once:
  fixes v :: "('w, 'r) service"
  assumes inv: "once_inv (sv_om v)"
  shows "once_inv (sv_om (snd (service_do E C x v)))"
proof -
  have q: "once_inv (sv_om (snd (m v)))"
    if "keeps (through sv_om (quiet entries good E)) m" for m :: "(('w, 'r) service, 'b) se"
    using that inv quiet_once unfolding keeps_def through_def by blast
  have ig: "keeps R m \<Longrightarrow> keeps R (ignore m)" for R and m :: "(('w, 'r) service, 'b) se"
    by (auto simp: keeps_def ignore_def bnd_def ret_def split: prod.split sum.split) (metis snd_conv)+
  show ?thesis
  proof (cases x)
    case (SvOrder y)
    then show ?thesis
      using om_do_once inv by (auto simp: on_service_om_def keeps_def preserving_def split: prod.split) (metis snd_conv)
  next
    case (SvBeat n t)
    with inv show ?thesis by (simp add: modif_def)
  next
    case SvCycle
    then show ?thesis using q [OF through_run_pass [OF quiet_cycle]] by simp
  qed (simp_all add: q ig quiet_on_service quiet_run_once quiet_owner_resync quiet_watchdog)
qed

lemma reach_once:
  assumes "exec_reach E C fresh moves v"
    and "\<And>w. fresh w \<Longrightarrow> good w \<and> (\<forall>i. entries w (client_order_id i) = 0)"
    and "\<And>w w'. moves w w' \<Longrightarrow> good w \<Longrightarrow>
      good w' \<and> (\<forall>i. entries w' (client_order_id i) \<le> entries w (client_order_id i))"
  shows "once_inv (sv_om v)"
  using assms(1)
proof induction
  case (start w n s r t)
  then show ?case
    using assms(2) [of w] init_fields [of E w Missing n s]
    by (simp add: service_start_def once_inv_def om_sound_def)
next
  case (step v x)
  then show ?case by (simp add: service_do_once)
next
  case (world v w)
  have "good (om_world (sv_om v))" using world by (simp add: once_inv_def om_sound_def)
  from assms(3) [OF world(2) this] world(3) show ?case
    unfolding once_inv_def om_sound_def om_keys_def disk_keys_def
    by simp (meson le_trans less_le_trans)
next
  case (restart v n s t)
  then show ?case
    using init_fields [OF restart(2)]
    by (simp add: service_start_def once_inv_def om_sound_def disk_keys_def)
qed simp

end

end
