(* ===== verification/Execution_Properties.thy ===== *)
theory Execution_Properties
  imports Exec_System Samples
begin

text \<open>Properties of the execution packages.\<close>

section \<open>Instances\<close>

interpretation mortal_fake: broker_contract "mortal (fake_adapter F)" "\<lambda>w. fk_good (fst w)"
    "\<lambda>w. fk_entries (fst w)" "\<lambda>w. fk_settled (fst w)"
  by (rule fakeb.mortal_contract)

text \<open>An order manager's environment with the in-memory broker, seen by a process that can be killed.\<close>

definition on_fake :: "fake_env \<Rightarrow> (fake \<times> nat option) om_env \<Rightarrow> (fake \<times> nat option) om_env" where
  "on_fake F E = E\<lparr>oe_adapter := mortal (fake_adapter F)\<rparr>"

interpretation fake_om: order_safety "on_fake F E" "\<lambda>w. fk_good (fst w)" "\<lambda>w. fk_entries (fst w)"
    "\<lambda>w. fk_settled (fst w)"
  unfolding order_safety_def on_fake_def by (simp add: mortal_fake.broker_contract_axioms)

inductive fake_moves :: "fake_env \<Rightarrow> fake \<times> nat option \<Rightarrow> fake \<times> nat option \<Rightarrow> bool" for F where
  market: "fake_moves F (w, p) (w', p)" if "fake_move F w w'"
| plan: "fake_moves F (w, p) (w, q)"

definition fake_fresh :: "fake \<times> nat option \<Rightarrow> bool" where
  "fake_fresh w \<longleftrightarrow> (\<exists>t b p. w = (fake_init t b, p))"

section \<open>Samples\<close>

definition eurusd_info :: symbol_info where
  "eurusd_info = \<lparr>si_symbol = ''EURUSD'', si_digits = 5, si_point = 1/100000, si_contract_size = 100000,
     si_min_lot = 1/100, si_lot_step = 1/100, si_max_lot = 50, si_margin_per_lot = Some 1000,
     si_trade_allowed = True\<rparr>"

definition sample_fake :: fake_env where
  "sample_fake = \<lparr>fe_symbol_info = [(''EURUSD'', eurusd_info)], fe_currency = ''USD'',
     fe_account_id = ''fake-1'', fe_trade_mode = DemoMode, fe_margin_mode = Hedging, fe_commission = 7/2,
     fe_fx = (\<lambda>_. 1), fe_server_time_offset_s = 0, fe_slippage = None, fe_latency_ms = None\<rparr>"

definition exec_yaml :: exec_config where
  "exec_yaml = \<lparr>ec_reconcile_interval_seconds = 60, ec_watchdog_timeout_seconds = 120,
     ec_watched_services = [''engine'', ''risk-gate''], ec_stop_confirm_attempts = 2,
     ec_max_quote_age_seconds = 10, ec_send_grace_seconds = 120, ec_balance_tolerance = 1/100,
     ec_deal_lookback_seconds = 300\<rparr>"

definition sample_om_env :: "'w adapter \<Rightarrow> 'w om_env" where
  "sample_om_env A = \<lparr>oe_adapter = A, oe_cfg = exec_yaml, oe_account_id = ''a1'',
     oe_symbols = [(''EURUSD'', eurusd_info)], oe_to_account = (\<lambda>_. 1),
     oe_sig_ok = (\<lambda>d s. s = ''signed''), oe_digest = (\<lambda>st. concat (map fst (xs_orders st)))\<rparr>"

definition sample_quote :: quote where
  "sample_quote = \<lparr>qt_symbol = ''EURUSD'', qt_bid = 10998/10000, qt_ask = 11/10, qt_time = 0\<rparr>"

definition sample_decision :: signed_decision where
  "sample_decision = \<lparr>sd_body = \<lparr>rd_intent_id = ''0123456789abcdef0123456789abcdef'',
       rd_verdict = Approve, rd_approved_lots = 1/20, rd_reasons = [], rd_limits_hash = ''h'',
       rd_decided_at = 0, rd_expires_at = 5000000, rd_sequence = 0\<rparr>,
     sd_signature = Some ''signed''\<rparr>"

definition quoted_fake :: fake where
  "quoted_fake = (fake_init 0 10000)\<lparr>fw_quotes := [(''EURUSD'', sample_quote)]\<rparr>"

definition quoted_om :: "'w \<Rightarrow> 'w om" where
  "quoted_om w = \<lparr>om_world = w, om_st = empty_exec, om_disk = Missing, om_last_seq = -1,
     om_reported = [], om_quotes = [(''EURUSD'', sample_quote)], om_alerts = [], om_events = []\<rparr>"

lemmas exec_sample_defs = eurusd_info_def sample_fake_def exec_yaml_def sample_om_env_def sample_quote_def
  sample_decision_def quoted_fake_def quoted_om_def fake_init_def sample_intent_def sample_signal_def
  empty_exec_def on_fake_def

lemmas om_run_defs = bnd_def seq_def ret_def gets_def modif_def raise_def when_do_def catch_unavailable_def
  upd_order_def upd_st_def with_order_def emit_def send_alert_def call_def Let_def dict_upd_def
  save_def journal_save_def prune_deals_def seen_of_def order_view_of_def
  find_at_broker_def adopt_def opened_def record_fill_def confirm_stop_def check_stop_at_broker_def
  position_at_broker_def confirmed_def modify_stop_def stop_protects_def
  send_order_def exec_result_of_def write_ahead_and_send_def enter_order_def execute_def
  place_request_of_def tracked_of_def expiry_time_def lots_invalid_def off_step_def ddiv_def
  verify_decision_def quote_fresh_def total_seconds_def round_price_def dec_or_def

lemmas fake_run_defs = fake_adapter_def fk_method_def fk_enter_def fk_exit_def fk_place_def
  place_market_def volume_invalid_def slipped_def fk_open_def fk_deal_def trade_deal_def new_position_def
  fk_next_def quote_se_def lookup_se_def marked_positions_def marked_def position_pnl_def info_se_def
  exit_price_def expire_orders_def ack_done_def ack_error_def dict_values_def expired_at_def

lemma numeral_peel: "send_attempts E 2 c req = send_attempts E (Suc (Suc 0)) c req"
  by (simp add: numeral_2_eq_2)

definition sample_run :: "(fake \<times> nat option) om" where
  "sample_run = snd (execute (on_fake sample_fake (sample_om_env undefined)) sample_intent sample_decision H1
      (quoted_om (quoted_fake, None)))"

lemma sample_run_entries: "fk_entries (fst (om_world sample_run)) (client_order_id (oi_id sample_intent)) = 1"
  by (simp add: sample_run_def exec_sample_defs mortal_def om_run_defs fake_run_defs fk_count_defs
      entry_deal_def numeral_peel client_order_id_def client_order_prefix_def)

lemma quoted_reach:
  "exec_reach (on_fake sample_fake (sample_om_env A)) C fake_fresh (fake_moves sample_fake)
     (service_start (quoted_om (quoted_fake, None)) r 0)"
proof -
  let ?E = "on_fake sample_fake (sample_om_env A)"
  let ?R = "exec_reach ?E C fake_fresh (fake_moves sample_fake)"
  let ?w = "(fake_init 0 10000, None)"
  let ?s = "(quoted_om ?w)\<lparr>om_quotes := []\<rparr>"
  have "om_init ?E ?w Missing (-1) = Inr ?s"
    by (simp add: om_init_def journal_load_def quoted_om_def empty_exec_def)
  moreover have "fake_fresh ?w" by (auto simp: fake_fresh_def)
  ultimately have 1: "?R (service_start ?s r 0)" by (intro exec_reach.start)
  have "snd (fk_set_quote sample_fake ''EURUSD'' (10998/10000) (11/10) (fake_init 0 10000)) = quoted_fake"
    by (simp add: fk_set_quote_def trigger_orders_def trigger_stops_def exec_sample_defs om_run_defs fake_run_defs)
  then have "fake_moves sample_fake ?w (quoted_fake, None)"
    by (metis fake_moves.market fake_move.price)
  from exec_reach.world [OF 1] this
  have 2: "?R (service_start (?s\<lparr>om_world := (quoted_fake, None)\<rparr>) r 0)"
    by (simp add: service_start_def quoted_om_def)
  show ?thesis
    using exec_reach.step [OF 2, of "SvOrder (OpQuoteUpdate sample_quote)"]
    by (simp add: on_service_om_def modif_def service_start_def quoted_om_def quote_update_def sample_quote_def)
qed

lemma sample_reach:
  "exec_reach (on_fake sample_fake (sample_om_env undefined)) C fake_fresh (fake_moves sample_fake)
     (service_start sample_run r 0)"
proof -
  let ?E = "on_fake sample_fake (sample_om_env undefined)"
  obtain x s where "execute ?E sample_intent sample_decision H1 (quoted_om (quoted_fake, None)) = (x, s)"
    by fastforce
  then show ?thesis
    using exec_reach.step [OF quoted_reach [where A = undefined and C = C and r = r],
        where x = "SvOrder (OpExecute sample_intent sample_decision H1)"]
    by (cases x) (simp_all add: on_service_om_def service_start_def sample_run_def ignore_def bnd_def ret_def)
qed

section \<open>Orders reach the broker at most once\<close>

text \<open>C4. Whatever the operations of the execution service do in any order, whatever the market does between
  them, and wherever the process is killed and restarted from its journal, the broker holds at most one
  entry (a fill or a pending order) per intent, and the journal on disk knows every intent that has one.\<close>

theorem never_places_twice:
  assumes "exec_reach (on_fake F E) C fake_fresh (fake_moves F) v"
  shows "fk_entries (fst (om_world (sv_om v))) (client_order_id i) \<le> 1 \<and>
    (0 < fk_entries (fst (om_world (sv_om v))) (client_order_id i) \<longrightarrow>
      client_order_id i \<in> disk_keys (on_fake F E) (sv_om v))"
proof -
  have "fake_om.once_inv F E (sv_om v)"
  proof (rule fake_om.reach_once [OF assms], goal_cases)
    case (1 w)
    then show ?case
      by (auto simp: fake_fresh_def fake_init_def fk_good_def book_ok_def fk_count_defs)
  next
    case (2 w w')
    then show ?case
      using fake_move_calm by (cases rule: fake_moves.cases) (auto simp: client_order_id_def client_order_prefix_def)
  qed
  then show ?thesis by (simp add: fake_om.once_inv_def)
qed

theorem never_places_twice_witness:
  "fk_entries (fst (om_world sample_run)) (client_order_id (oi_id sample_intent)) = 1 \<and>
   client_order_id (oi_id sample_intent) \<in> disk_keys (on_fake sample_fake (sample_om_env undefined)) sample_run"
  using never_places_twice [OF sample_reach, of "oi_id sample_intent"] sample_run_entries
  by (simp add: service_start_def)

definition spiky :: "fake adapter" where
  "spiky = (fake_adapter sample_fake)\<lparr>ad_positions :=
     seq (\<lambda>w. when_do (fw_positions w \<noteq> [])
            (seq (fk_set_quote sample_fake ''EURUSD'' (108/100) (10802/10000))
                 (fk_set_quote sample_fake ''EURUSD'' (10998/10000) (11/10))) w)
         (ad_positions (fake_adapter sample_fake))\<rparr>"

text \<open>The search before a retry looks at open positions and pending orders only. When the answer to the
  first \<open>place\<close> is lost and the position is stopped out before the retry searches, the same intent is
  placed a second time.\<close>

theorem retry_after_stop_out_places_twice:
  "fk_entries (om_world (snd (execute (sample_om_env spiky) sample_intent sample_decision H1
      (quoted_om (fk_fail ''place'' After 0 quoted_fake))))) (client_order_id (oi_id sample_intent)) = 2"
  by (simp add: spiky_def exec_sample_defs om_run_defs fake_run_defs fk_count_defs entry_deal_def numeral_peel
      fk_set_quote_def trigger_orders_def trigger_stops_def trigger_stop_def stop_reached_def target_reached_def
      fk_close_def fk_fail_def client_order_id_def client_order_prefix_def)

end
