(* ===== verification/Order_Properties.thy ===== *)
theory Order_Properties
  imports Execution_Properties
begin

text \<open>
  Properties of single operations of the order manager: what is ever sent, how stops move, what a
  restart finds and what is reported.
\<close>

section \<open>Only what was authorised\<close>

lemma save_frame [simp]:
  "fst (save E s) = Inr ()"
  "om_world (snd (save E s)) = om_world s"
  "om_orders (snd (save E s)) = om_orders s"
  by (simp_all add: save_def modif_def Let_def journal_save_def split: prod.split)

lemma alert_frame [simp]:
  "om_world (snd (send_alert E sev k msg d s)) = om_world s"
  "om_orders (snd (send_alert E sev k msg d s)) = om_orders s"
  by (simp_all add: send_alert_def modif_def)

lemma alert_then_refuse:
  "om_world (snd (seq (send_alert E sev k msg d) (ret x) s)) = om_world s \<and>
   om_orders (snd (seq (send_alert E sev k msg d) (ret x) s)) = om_orders s"
  by (simp add: seq_def bnd_def ret_def send_alert_def modif_def)

lemma maybe_alert:
  "om_world (snd (seq (when_do b (send_alert E sev k msg d)) (ret x) s)) = om_world s \<and>
   om_orders (snd (seq (when_do b (send_alert E sev k msg d)) (ret x) s)) = om_orders s"
  by (simp add: seq_def bnd_def ret_def send_alert_def modif_def when_do_def)

definition lots_ok :: "intent \<Rightarrow> dec \<Rightarrow> symbol_info \<Rightarrow> bool" where
  "lots_ok i lots info \<longleftrightarrow> 0 < lots \<and> lots \<le> oi_proposed_lots i \<and> si_min_lot info \<le> lots \<and>
     \<not> off_step lots (si_lot_step info)"

lemma enter_order_sends:
  assumes "om_world (snd (enter_order E i lots tf now s)) \<noteq> om_world s \<or>
    om_orders (snd (enter_order E i lots tf now s)) \<noteq> om_orders s"
  obtains info where "dict_get (oe_symbols E) (sg_symbol (oi_signal i)) = Some info" "lots_ok i lots info"
    "sg_entry_type (oi_signal i) = MarketEntry \<longrightarrow>
      quote_fresh (om_quotes s) (sg_symbol (oi_signal i)) now (ec_max_quote_age_seconds (oe_cfg E)) \<noteq> None"
proof (cases "dict_get (oe_symbols E) (sg_symbol (oi_signal i))")
  case None
  with assms show ?thesis by (simp add: enter_order_def Let_def ret_def)
next
  case (Some info)
  have "lots_invalid i lots info = Inr False"
    using assms Some
    by (cases "lots_invalid i lots info") (auto simp: enter_order_def Let_def ret_def raise_def split: bool.splits)
  moreover from this have "lots_ok i lots info"
    by (auto simp: lots_invalid_def lots_ok_def ddiv_def split: if_splits)
  ultimately show ?thesis
    using that [OF Some] assms Some
    by (auto simp: enter_order_def Let_def bnd_gets alert_then_refuse split: option.splits if_splits)
qed

lemma execute_authorised:
  assumes "om_world (snd (execute E i sd tf s)) \<noteq> om_world s \<or>
    om_orders (snd (execute E i sd tf s)) \<noteq> om_orders s"
  shows "client_order_id (oi_id i) \<notin> dict_keys (om_orders s) \<and>
    (\<exists>g. sd_signature sd = Some g \<and> oe_sig_ok E (sd_body sd) g) \<and>
    rd_intent_id (sd_body sd) = oi_id i \<and> om_now E s \<le> rd_expires_at (sd_body sd) \<and>
    om_last_seq s < rd_sequence (sd_body sd) \<and> rd_verdict (sd_body sd) \<noteq> Reject \<and>
    (\<exists>info. dict_get (oe_symbols E) (sg_symbol (oi_signal i)) = Some info \<and>
      lots_ok i (rd_approved_lots (sd_body sd)) info) \<and>
    (sg_entry_type (oi_signal i) = MarketEntry \<longrightarrow>
      quote_fresh (om_quotes s) (sg_symbol (oi_signal i)) (om_now E s) (ec_max_quote_age_seconds (oe_cfg E)) \<noteq> None)"
proof -
  let ?c = "client_order_id (oi_id i)"
  have new: "dict_get (om_orders s) ?c = None"
    using assms by (cases "dict_get (om_orders s) ?c") (auto simp: execute_def bnd_gets Let_def ret_def)
  obtain n where v: "verify_decision (oe_sig_ok E) sd (oi_id i) (om_now E s) (om_last_seq s) = Inr n"
  proof (cases "verify_decision (oe_sig_ok E) sd (oi_id i) (om_now E s) (om_last_seq s)")
    case (Inl why)
    with new assms show ?thesis
      by (simp add: execute_def bnd_gets Let_def maybe_alert)
  qed (rule that)
  obtain t where sv: "save E (s\<lparr>om_last_seq := n\<rparr>) = (Inr (), t)" by (simp add: save_def modif_def)
  have t: "om_world t = om_world s" "om_orders t = om_orders s"
    using save_frame [of E "s\<lparr>om_last_seq := n\<rparr>"] sv by auto
  have q: "om_quotes t = om_quotes s"
    using sv by (auto simp: save_def modif_def Let_def split: prod.splits)
  have "snd (execute E i sd tf s) = snd (enter_order E i (rd_approved_lots (sd_body sd)) tf (om_now E s) t)"
    using new v by (simp add: execute_def bnd_gets Let_def seq_modif seq_run [of "save E" "s\<lparr>om_last_seq := n\<rparr>", OF sv])
  with assms t have "om_world (snd (enter_order E i (rd_approved_lots (sd_body sd)) tf (om_now E s) t)) \<noteq> om_world t \<or>
    om_orders (snd (enter_order E i (rd_approved_lots (sd_body sd)) tf (om_now E s) t)) \<noteq> om_orders t" by simp
  from enter_order_sends [OF this] obtain info where
    "dict_get (oe_symbols E) (sg_symbol (oi_signal i)) = Some info"
    "lots_ok i (rd_approved_lots (sd_body sd)) info"
    "sg_entry_type (oi_signal i) = MarketEntry \<longrightarrow>
      quote_fresh (om_quotes t) (sg_symbol (oi_signal i)) (om_now E s) (ec_max_quote_age_seconds (oe_cfg E)) \<noteq> None"
    by blast
  with verify_Inr [OF v] new q show ?thesis by (simp add: map_of_eq_None_iff)
qed



section \<open>Stops\<close>

definition tighter :: "side \<Rightarrow> dec \<Rightarrow> dec \<Rightarrow> bool" where
  "tighter sd new old \<longleftrightarrow> (if sd = Buy then old \<le> new else new \<le> old)"

lemma scaled_round:
  fixes x :: rat and d :: nat
  defines "u \<equiv> (10::rat) ^ d"
  shows "x \<le> of_int \<lceil>x * u\<rceil> / u" "of_int \<lceil>x * u\<rceil> / u < x + 1 / u"
    "of_int \<lfloor>x * u\<rfloor> / u \<le> x" "x - 1 / u < of_int \<lfloor>x * u\<rfloor> / u"
proof -
  have u: "0 < u" by (simp add: u_def)
  have "x * u \<le> of_int \<lceil>x * u\<rceil>" "of_int \<lceil>x * u\<rceil> < x * u + 1"
    "of_int \<lfloor>x * u\<rfloor> \<le> x * u" "x * u - 1 < of_int \<lfloor>x * u\<rfloor>" by linarith+
  moreover have "(x + 1 / u) * u = x * u + 1" "(x - 1 / u) * u = x * u - 1"
    using u by (simp_all add: algebra_simps)
  ultimately show "x \<le> of_int \<lceil>x * u\<rceil> / u" "of_int \<lceil>x * u\<rceil> / u < x + 1 / u"
    "of_int \<lfloor>x * u\<rfloor> / u \<le> x" "x - 1 / u < of_int \<lfloor>x * u\<rfloor> / u"
    using u by (simp_all add: pos_le_divide_eq pos_divide_le_eq pos_less_divide_eq pos_divide_less_eq)
qed

text \<open>Rounding a stop to the symbol's digits moves it toward the entry, never away from it, and by
  less than one unit of the last digit.\<close>

theorem stop_rounding_shrinks:
  "tighter sd (round_price x d (stop_rounding sd)) x \<and>
   \<bar>round_price x d (stop_rounding sd) - x\<bar> < 1 / 10 ^ d"
  using scaled_round [of x d] by (cases sd) (auto simp: tighter_def round_price_def abs_if)

text \<open>\<open>tighten_stop\<close> never loosens the stop of any order, changes nothing else of the others, and
  without a tighter stop it refuses without calling the broker.\<close>

theorem tighten_only:
  assumes "tighten_stop E pid x s = (r, s')" and "distinct (map fst (om_orders s))"
    and k: "dict_get (om_orders s) k = Some t"
  shows "\<exists>t'. dict_get (om_orders s') k = Some t' \<and> tighter (tk_side t) (tk_sl t') (tk_sl t) \<and>
    t' = t\<lparr>tk_sl := tk_sl t'\<rparr> \<and> (r = Inr False \<longrightarrow> t' = t)"
proof (cases "by_position (om_st s) pid")
  case None
  with assms show ?thesis by (auto simp: tighten_stop_def bnd_gets ret_def tighter_def)
next
  case (Some p)
  obtain c u where p: "p = (c, u)" by fastforce
  have cu: "dict_get (om_orders s) c = Some u"
    using by_position_Some [of "om_st s" pid c u] Some p assms(2) by simp
  have unchanged: ?thesis if "om_orders s' = om_orders s" using that k by (simp add: tighter_def)
  let ?sl = "\<lambda>info. round_price x (si_digits info) (stop_rounding (tk_side u))"
  show ?thesis
  proof (cases "\<exists>info. tk_state u = Open \<and> dict_get (oe_symbols E) (tk_symbol u) = Some info \<and>
      (if tk_side u = Buy then ?sl info > tk_sl u else ?sl info < tk_sl u)")
    case False
    with assms(1) Some p have "om_orders s' = om_orders s"
      by (auto simp: tighten_stop_def bnd_gets Let_def ret_def raise_def split: if_splits option.splits)
    then show ?thesis by (rule unchanged)
  next
    case True
    then obtain info where info: "tk_state u = Open" "dict_get (oe_symbols E) (tk_symbol u) = Some info"
      and better: "if tk_side u = Buy then ?sl info > tk_sl u else ?sl info < tk_sl u" by blast
    obtain ra s1 where m: "call (ad_modify (oe_adapter E) (modify_stop pid (?sl info) (tk_tp u))) s = (ra, s1)"
      by fastforce
    have s1: "om_orders s1 = om_orders s" using m by (auto simp: call_def split: prod.splits)
    have "tighten_stop E pid x s = bnd (call (ad_modify (oe_adapter E) (modify_stop pid (?sl info) (tk_tp u)))) (\<lambda>ack.
        seq (when_do (ak_ok ack) (seq (upd_order c (\<lambda>t. t\<lparr>tk_sl := ?sl info\<rparr>)) (save E))) (ret (ak_ok ack))) s"
      using Some p info better by (simp add: tighten_stop_def bnd_gets Let_def split: if_splits)
    then have run: "(r, s') = (case ra of Inl e \<Rightarrow> (Inl e, s1) | Inr ack \<Rightarrow>
        seq (when_do (ak_ok ack) (seq (upd_order c (\<lambda>t. t\<lparr>tk_sl := ?sl info\<rparr>)) (save E))) (ret (ak_ok ack)) s1)"
      using assms(1) m by (cases ra) (simp_all add: bnd_def)
    show ?thesis
    proof (cases "\<exists>ack. ra = Inr ack \<and> ak_ok ack")
      case False
      with run s1 have "om_orders s' = om_orders s"
        by (auto simp: bnd_def seq_def ret_def when_do_def split: sum.splits)
      then show ?thesis by (rule unchanged)
    next
      case True
      define s2 where "s2 = s1\<lparr>om_st := (om_st s1)\<lparr>xs_orders := dict_upd c (\<lambda>t. t\<lparr>tk_sl := ?sl info\<rparr>) (om_orders s1)\<rparr>\<rparr>"
      have "s' = snd (save E s2)" "r = Inr True"
        using run True by (auto simp: bnd_def seq_def ret_def when_do_def upd_order_def upd_st_def modif_def
            s2_def save_def)
      then have "om_orders s' = dict_upd c (\<lambda>t. t\<lparr>tk_sl := ?sl info\<rparr>) (om_orders s)"
        by (simp add: s2_def s1)
      with k cu better \<open>r = Inr True\<close> show ?thesis
        by (cases "k = c") (auto simp: tighter_def split: if_splits)
    qed
  qed
qed

definition filled_om :: "fake om" where
  "filled_om = snd (execute (sample_om_env (fake_adapter sample_fake)) sample_intent sample_decision H1
     (quoted_om quoted_fake))"

lemmas filled_defs = filled_om_def exec_sample_defs om_run_defs fake_run_defs numeral_peel
  client_order_id_def client_order_prefix_def

definition filled_order :: tracked_order where
  "filled_order = the (dict_get (om_orders filled_om) (client_order_id (oi_id sample_intent)))"

lemma filled_run:
  "\<exists>t. om_orders filled_om = [(client_order_id (oi_id sample_intent), t)] \<and>
     tk_sl t = 109/100 \<and> tk_side t = Buy \<and> tk_state t = Open \<and> tk_symbol t = ''EURUSD'' \<and>
     tk_position_id t = Some (nat_str 1001)"
  by (simp add: filled_defs)

lemma filled_orders:
  "om_orders filled_om = [(client_order_id (oi_id sample_intent), filled_order)]"
  "tk_sl filled_order = 109/100" "tk_side filled_order = Buy" "tk_state filled_order = Open"
  "tk_symbol filled_order = ''EURUSD''" "tk_position_id filled_order = Some (nat_str 1001)"
  using filled_run by (auto simp: filled_order_def)

theorem tighten_only_witness:
  "\<exists>s' t'. tighten_stop (sample_om_env (fake_adapter sample_fake)) (nat_str 1001) (1095/1000) filled_om
      = (Inr True, s') \<and>
     dict_get (om_orders s') (client_order_id (oi_id sample_intent)) = Some t' \<and> tighter Buy (tk_sl t') (109/100)"
proof -
  let ?E = "sample_om_env (fake_adapter sample_fake)" and ?c = "client_order_id (oi_id sample_intent)"
  obtain r s' where run: "tighten_stop ?E (nat_str 1001) (1095/1000) filled_om = (r, s')" by fastforce
  have "fst (tighten_stop ?E (nat_str 1001) (1095/1000) filled_om) = Inr True"
    by (simp add: tighten_stop_def by_position_def fk_modify_def modify_position_def filled_defs)
  then have "r = Inr True" using run by simp
  moreover have "dict_get (om_orders filled_om) ?c = Some filled_order" "distinct (map fst (om_orders filled_om))"
    by (simp_all add: filled_orders)
  ultimately show ?thesis
    using tighten_only [OF run, of ?c filled_order] run filled_orders by auto
qed

section \<open>The journal\<close>


section \<open>Reporting\<close>

text \<open>What a change of an order is reported as, given what was last reported of it.\<close>

definition order_changed :: "(string, seen) dict \<Rightarrow> string \<times> tracked_order \<Rightarrow> bool" where
  "order_changed rep = (\<lambda>(k, t). dict_get rep k \<noteq> Some (seen_of t))"

definition order_event :: "time \<Rightarrow> (string, seen) dict \<Rightarrow> string \<times> tracked_order \<Rightarrow> om_event" where
  "order_event now rep = (\<lambda>(k, t).
     if tk_state t = Cancelled \<or> tk_state t = Expired then EvCancelled now k (cancel_reason t)
     else if dict_get rep k = None then EvPlaced now (order_view_of t now)
     else EvModified now (order_view_of t now))"

lemma order_rep_other:
  "j \<noteq> k \<Longrightarrow> order_changed (dict_set k v rep) (j, t) = order_changed rep (j, t)"
  "j \<noteq> k \<Longrightarrow> order_event now (dict_set k v rep) (j, t) = order_event now rep (j, t)"
  by (simp_all add: order_changed_def order_event_def)

lemma report_orders_spec:
  assumes "distinct (map fst os)" and "report_orders now os rep = (rep', evs)"
  shows "evs = map (order_event now rep) (filter (order_changed rep) os)"
    and "(k, t) \<in> set os \<Longrightarrow> dict_get rep' k = Some (seen_of t)"
    and "k \<notin> dict_keys os \<Longrightarrow> dict_get rep' k = dict_get rep k"
proof -
  have "evs = map (order_event now rep) (filter (order_changed rep) os) \<and>
    (\<forall>(k, t) \<in> set os. dict_get rep' k = Some (seen_of t)) \<and>
    (\<forall>k. k \<notin> dict_keys os \<longrightarrow> dict_get rep' k = dict_get rep k)"
    using assms
  proof (induction now os rep arbitrary: rep' evs rule: report_orders.induct)
    case (2 now coid t ts rep)
    let ?rep = "if order_changed rep (coid, t) then dict_set coid (seen_of t) rep else rep"
    obtain r es where r: "report_orders now ts ?rep = (r, es)" by fastforce
    have ih: "es = map (order_event now ?rep) (filter (order_changed ?rep) ts)"
      "\<forall>(k, u) \<in> set ts. dict_get r k = Some (seen_of u)"
      "\<forall>k. k \<notin> dict_keys ts \<longrightarrow> dict_get r k = dict_get ?rep k"
      using 2(1) [of r es] 2(2) [OF _ refl, of r es] 2(3) r
      by (auto simp: order_changed_def split: if_splits)
    have other: "order_changed ?rep x = order_changed rep x" "order_event now ?rep x = order_event now rep x"
      if x: "x \<in> set ts" for x
    proof -
      obtain j u where xj: "x = (j, u)" by fastforce
      have "j \<in> fst ` set ts" using x by (simp add: xj rev_image_eqI)
      with 2(3) have "j \<noteq> coid" by auto
      then show "order_changed ?rep x = order_changed rep x" "order_event now ?rep x = order_event now rep x"
        by (simp_all add: xj order_rep_other)
    qed
    have "es = map (order_event now rep) (filter (order_changed rep) ts)"
      using ih(1) other by (simp cong: filter_cong)
    moreover have "rep' = r"
      "evs = (if order_changed rep (coid, t) then order_event now rep (coid, t) # es else es)"
      using 2(4) r by (auto simp: order_changed_def order_event_def split: if_splits)
    moreover have "dict_get ?rep coid = Some (seen_of t)" by (simp add: order_changed_def)
    ultimately show ?case using ih(2,3) 2(3) by auto
  qed simp
  then show "evs = map (order_event now rep) (filter (order_changed rep) os)"
    "(k, t) \<in> set os \<Longrightarrow> dict_get rep' k = Some (seen_of t)"
    "k \<notin> dict_keys os \<Longrightarrow> dict_get rep' k = dict_get rep k" by auto
qed

text \<open>Every save reports each order whose state, stop, lots or broker id changed since it was last
  reported, once, in the order of the journal, and nothing else; the same save again reports nothing.\<close>

theorem every_change_reported:
  assumes "distinct (map fst (om_orders s))"
  shows "om_events (snd (save E s)) =
      om_events s @ map (order_event (om_now E s) (om_reported s)) (filter (order_changed (om_reported s)) (om_orders s)) \<and>
    om_events (snd (save E (snd (save E s)))) = om_events (snd (save E s))"
proof -
  have one: "om_events (snd (save E s)) =
      om_events s @ map (order_event (om_now E s) (om_reported s)) (filter (order_changed (om_reported s)) (om_orders s)) \<and>
    (\<forall>(k, t) \<in> set (om_orders s). dict_get (om_reported (snd (save E s))) k = Some (seen_of t))"
    if "distinct (map fst (om_orders s))" for s
    using that report_orders_spec [of "om_orders s" "om_now E s" "om_reported s"]
    by (auto simp: save_def modif_def Let_def journal_save_def split: prod.split)
  have "filter (order_changed (om_reported (snd (save E s)))) (om_orders s) = []"
    using one [OF assms] by (auto simp: filter_empty_conv order_changed_def)
  with one [OF assms] one [of "snd (save E s)"] assms show ?thesis by simp
qed

theorem every_change_reported_witness:
  "om_events (snd (save (sample_om_env (fake_adapter sample_fake)) filled_om)) = om_events filled_om @
     map (order_event (om_now (sample_om_env (fake_adapter sample_fake)) filled_om) (om_reported filled_om))
       (filter (order_changed (om_reported filled_om)) (om_orders filled_om))"
  using every_change_reported [of filled_om] by (simp add: filled_orders)

end
