(* ===== verification/Stop_Properties.thy ===== *)
theory Stop_Properties
  imports Order_Properties
begin

text \<open>
  After a fill the broker holds the stop, or the owner is alarmed: \<open>confirm_stop\<close> against the in-memory
  broker, with any of its faults.
\<close>

section \<open>Reading positions\<close>

lemma adapter_positions:
  assumes "fk_good w" and "ad_positions (fake_adapter F) w = (Inr ps, v)"
  shows "fw_positions v = fw_positions w \<and> fk_good v \<and>
    (case find_first (\<lambda>p. bp_position_id p = pid) ps of
       None \<Rightarrow> dict_get (fw_positions w) pid = None
     | Some q \<Rightarrow> \<exists>p. dict_get (fw_positions w) pid = Some p \<and> bp_sl q = bp_sl p)"
proof -
  obtain u u' where u: "same_book w u" "marked_positions F u = (Inr ps, u')" "same_book u' v"
    using method_Inr assms(2) by (fastforce simp: fake_adapter_def)
  have m: "keeps (=) (marked F p)" for p
    unfolding marked_def exit_price_def quote_se_def info_se_def by (intro same.keeps_rules lookup_same)
  have c: "bp_position_id q = bp_position_id p \<and> bp_sl q = bp_sl p" if "marked F p w = (Inr q, w)" for p q w
    using that by (auto simp: marked_def info_se_def exit_price_def quote_se_def lookup_se_def se_defs
        split: option.splits)
  have "map_se (marked F) (dict_values (fw_positions u)) u = (Inr ps, u')"
    using u(2) by (simp add: marked_positions_def bnd_def gets_def)
  from map_se_run [OF this m] have "u' = u"
    and l: "list_all2 (\<lambda>p q. marked F p u = (Inr q, u)) (dict_values (fw_positions u)) ps" by auto
  have pos: "fw_positions u = fw_positions w" "fw_positions v = fw_positions w"
    using u \<open>u' = u\<close> by (auto simp: same_book_def)
  have find: "rel_option (\<lambda>p q. bp_sl q = bp_sl p) (find_first (\<lambda>p. bp_position_id p = pid) xs)
      (find_first (\<lambda>p. bp_position_id p = pid) ps)"
    if "list_all2 (\<lambda>p q. marked F p u = (Inr q, u)) xs ps" for xs ps
    using that by (induction rule: list_all2_induct) (auto dest: c)
  have get: "find_first (\<lambda>p. bp_position_id p = pid) (dict_values d) = dict_get d pid"
    if "\<forall>(k, p) \<in> set d. bp_position_id p = k" for d
    using that by (induction d) (auto simp: dict_values_def)
  have "find_first (\<lambda>p. bp_position_id p = pid) (dict_values (fw_positions w)) = dict_get (fw_positions w) pid"
    using assms(1) by (intro get) (auto simp: fk_good_def book_ok_def)
  with find [OF l] pos have r: "rel_option (\<lambda>p q. bp_sl q = bp_sl p) (dict_get (fw_positions w) pid)
      (find_first (\<lambda>p. bp_position_id p = pid) ps)" by simp
  have "fk_good v" using u \<open>u' = u\<close> assms(1) by (simp add: same_book_def fk_good_def)
  with r pos(2) show ?thesis
    by (cases "dict_get (fw_positions w) pid"; cases "find_first (\<lambda>p. bp_position_id p = pid) ps")
       (simp_all del: find_first_None)
qed

section \<open>Alerts only accumulate\<close>

definition grows :: "'w om \<Rightarrow> 'w om \<Rightarrow> bool" where
  "grows s t \<longleftrightarrow> (\<exists>xs. om_alerts t = om_alerts s @ xs)"

interpretation grows: step_rel grows
  by unfold_locales (auto simp: grows_def)

lemma grows_basic:
  "keeps grows (call m)" "keeps grows (upd_order coid f)" "keeps grows (save E)"
  "keeps grows (send_alert E sev k msg d)"
  by (auto simp: keeps_def grows_def call_def upd_order_def upd_st_def modif_def save_def send_alert_def
      Let_def split: prod.split)

lemma grows_with_order: "(\<And>t. keeps grows (f t)) \<Longrightarrow> keeps grows (with_order coid f)"
  unfolding with_order_def by (intro grows.keeps_rules)

lemmas grows_intros = grows.keeps_rules grows_basic grows_with_order

lemma grows_check: "keeps grows (check_stop_at_broker E coid pid)"
proof -
  have "keeps grows (repair_stop E n coid pid)" for n
    by (induction n) (auto simp: position_at_broker_def confirmed_def intro!: grows_intros split: option.split)
  then show ?thesis
    unfolding check_stop_at_broker_def position_at_broker_def confirmed_def by (intro grows_intros)
qed

section \<open>The outcome of a confirmation\<close>

definition holds_stop :: "string \<Rightarrow> side \<Rightarrow> dec \<Rightarrow> fake \<Rightarrow> bool" where
  "holds_stop pid sd sl w =
     (case dict_get (fw_positions w) pid of None \<Rightarrow> True | Some p \<Rightarrow> stop_protects sd (bp_sl p) sl)"

definition knows :: "string \<Rightarrow> side \<Rightarrow> dec \<Rightarrow> fake om \<Rightarrow> bool" where
  "knows coid sd sl s \<longleftrightarrow> fk_good (om_world s) \<and>
     (\<exists>t. dict_get (om_orders s) coid = Some t \<and> tk_side t = sd \<and> tk_sl t = sl)"

lemma knows_frame:
  "knows coid sd sl s \<Longrightarrow> knows coid sd sl (snd (save E s))"
  "knows coid sd sl s \<Longrightarrow> knows coid sd sl (snd (confirmed coid s))"
  "knows coid sd sl s \<Longrightarrow> knows coid sd sl (snd (send_alert E sev k msg d s))"
  by (auto simp: knows_def confirmed_def upd_order_def upd_st_def modif_def)

lemma fake_call_knows:
  assumes "oe_adapter E = fake_adapter F" and "keeps fk_calm m" and "knows coid sd sl s"
  shows "knows coid sd sl (snd (call m s))"
proof -
  obtain r w where m: "m (om_world s) = (r, w)" by fastforce
  then have "fk_good w" using keepsD [OF assms(2) m] assms(3) by (simp add: calm_def knows_def)
  with m assms(3) show ?thesis by (simp add: call_def knows_def)
qed

lemma look:
  assumes E: "oe_adapter E = fake_adapter F" and k: "knows coid sd sl s"
    and run: "position_at_broker E pid s = (Inr pos, s')"
  shows "knows coid sd sl s'"
    and "(case pos of None \<Rightarrow> True | Some q \<Rightarrow> stop_protects sd (bp_sl q) sl) \<longleftrightarrow> holds_stop pid sd sl (om_world s')"
proof -
  obtain ps v where p: "ad_positions (fake_adapter F) (om_world s) = (Inr ps, v)"
    and s': "s' = s\<lparr>om_world := v\<rparr>" and pos: "pos = find_first (\<lambda>p. bp_position_id p = pid) ps"
    using run E by (auto simp: position_at_broker_def call_def bnd_def ret_def split: prod.splits sum.splits)
  note a = adapter_positions [OF _ p, of pid]
  have "fk_good (om_world s)" using k by (simp add: knows_def)
  note a = a [OF this]
  show "knows coid sd sl s'" using a k s' by (simp add: knows_def)
  show "(case pos of None \<Rightarrow> True | Some q \<Rightarrow> stop_protects sd (bp_sl q) sl) \<longleftrightarrow> holds_stop pid sd sl (om_world s')"
    using a unfolding pos [symmetric] s' by (cases pos) (auto simp: holds_stop_def)
qed

lemma confirm_frame:
  "holds_stop pid sd sl (om_world (snd (save E s))) = holds_stop pid sd sl (om_world s)"
  "om_world (snd (confirmed coid s)) = om_world s" "fst (confirmed coid s) = Inr ()"
  by (simp_all add: confirmed_def upd_order_def upd_st_def modif_def)

lemma repair_outcome:
  assumes E: "oe_adapter E = fake_adapter F"
  shows "knows coid sd sl s \<Longrightarrow> repair_stop E n coid pid s = (Inr ok, s') \<Longrightarrow>
    ok \<longrightarrow> holds_stop pid sd sl (om_world s')"
proof (induction n arbitrary: s)
  case 0
  then show ?case by (simp add: ret_def)
next
  case (Suc n)
  from Suc.prems(1) obtain t where t: "dict_get (om_orders s) coid = Some t" "tk_side t = sd" "tk_sl t = sl"
    by (auto simp: knows_def)
  then have sd: "sd = tk_side t" "sl = tk_sl t" by auto
  let ?m = "call (ad_modify (oe_adapter E) (modify_stop pid sl (tk_tp t))) :: (fake om, broker_ack) se"
  obtain r1 s1 where m: "?m s = (r1, s1)" by fastforce
  have k1: "knows coid sd sl s1"
    using fake_call_knows [OF E fakeb.modify_calm Suc.prems(1), of F "modify_stop pid sl (tk_tp t)"] m E by simp
  let ?attempt = "catch_unavailable (bnd ?m (\<lambda>_. ret ())) (\<lambda>e. ret ())"
  have tried: "?attempt s = (Inr (), s1) \<or> (\<exists>e. ?attempt s = (Inl e, s1))"
    using m by (cases r1) (auto simp: catch_unavailable_def bnd_def ret_def split: exn.split)
  define rest where "rest = bnd (position_at_broker E pid) (\<lambda>pos.
      if (case pos of None \<Rightarrow> True | Some p \<Rightarrow> stop_protects sd (bp_sl p) sl)
      then seq (confirmed coid) (seq (save E)
        (bnd (send_alert E Info ''stop_repaired'' (''stop set after fill'', []) [(''position'', pid)]) (\<lambda>_. ret True)))
      else repair_stop E n coid pid)"
  have eq: "repair_stop E (Suc n) coid pid s = seq ?attempt rest s"
    unfolding rest_def sd using t(1) by (simp add: with_order_def bnd_gets)
  have "?attempt s = (Inr (), s1)"
  proof (rule ccontr)
    assume "?attempt s \<noteq> (Inr (), s1)"
    with tried obtain e where "?attempt s = (Inl e, s1)" by blast
    with eq Suc.prems(2) show False by (simp add: seq_def bnd_fail [of ?attempt])
  qed
  with eq have s1: "repair_stop E (Suc n) coid pid s = rest s1" by (simp add: seq_run [of ?attempt])
  obtain pos s2 where l: "position_at_broker E pid s1 = (Inr pos, s2)"
    using Suc.prems(2) s1 by (auto simp: rest_def bnd_def split: prod.splits sum.splits)
  note s1 = s1 [unfolded rest_def]
  show ?case
  proof (cases "case pos of None \<Rightarrow> True | Some p \<Rightarrow> stop_protects sd (bp_sl p) sl")
    case True
    with Suc.prems(2) s1 l look(2) [OF E k1 l] show ?thesis
      by (auto simp: bnd_def seq_def ret_def send_alert_def modif_def confirm_frame save_def confirmed_def
          upd_order_def upd_st_def Let_def split: prod.splits)
  next
    case False
    with Suc.prems(2) s1 l have "repair_stop E n coid pid s2 = (Inr ok, s')" by (simp add: bnd_def)
    with look(1) [OF E k1 l] Suc.IH show ?thesis by blast
  qed
qed

lemma check_outcome:
  assumes E: "oe_adapter E = fake_adapter F" and k: "knows coid sd sl s"
    and run: "check_stop_at_broker E coid pid s = (Inr out, s')"
  shows "(out = Protected \<longrightarrow> holds_stop pid sd sl (om_world s')) \<and> out \<noteq> NotConfirmed"
proof -
  from k obtain t where t: "dict_get (om_orders s) coid = Some t" "tk_side t = sd" "tk_sl t = sl"
    by (auto simp: knows_def)
  let ?fix = "bnd (repair_stop E (ec_stop_confirm_attempts (oe_cfg E)) coid pid) (\<lambda>ok.
      if ok then ret Protected else bnd (call (ad_close (oe_adapter E) pid None)) (\<lambda>ack. ret (Exposed ack)))"
  let ?alert = "send_alert E Critical ''missing_stop'' (''position without its stop after fill'', [])
      [(''position'', pid)] :: (fake om, unit) se"
  have sd: "sd = tk_side t" "sl = tk_sl t" using t by auto
  obtain rl s1 where l0: "position_at_broker E pid s = (rl, s1)" by fastforce
  obtain pos where l: "position_at_broker E pid s = (Inr pos, s1)"
  proof (cases rl)
    case (Inl e)
    with run l0 t(1) show ?thesis
      by (simp add: check_stop_at_broker_def with_order_def bnd_gets bnd_fail)
  qed (use l0 that in simp)
  note k1 = look(1) [OF E k l] and h1 = look(2) [OF E k l]
  have eq: "check_stop_at_broker E coid pid s = (case pos of None \<Rightarrow> ret Protected | Some p \<Rightarrow>
      if stop_protects sd (bp_sl p) sl then seq (confirmed coid) (seq (save E) (ret Protected))
      else seq ?alert ?fix) s1"
    unfolding sd using t(1) l by (simp add: check_stop_at_broker_def with_order_def bnd_gets bnd_run)
  show ?thesis
  proof (cases "case pos of None \<Rightarrow> True | Some q \<Rightarrow> stop_protects sd (bp_sl q) sl")
    case True
    with eq run h1 show ?thesis
      by (auto simp: bnd_def seq_def ret_def confirm_frame save_def confirmed_def upd_order_def upd_st_def
          modif_def Let_def split: prod.splits option.splits)
  next
    case False
    obtain s2 where al: "?alert s1 = (Inr (), s2)" by (simp add: send_alert_def modif_def)
    have k2: "knows coid sd sl s2" using knows_frame(3) [OF k1] al by (metis snd_conv)
    have rest: "?fix s2 = (Inr out, s')"
      using False eq run by (auto simp: seq_run [of ?alert, OF al] split: option.splits)
    obtain ok s3 where rp: "repair_stop E (ec_stop_confirm_attempts (oe_cfg E)) coid pid s2 = (Inr ok, s3)"
      using rest by (auto simp: bnd_def split: prod.splits sum.splits)
    from repair_outcome [OF E k2 rp] rest rp show ?thesis
      by (auto simp: bnd_def ret_def split: if_splits prod.splits sum.splits)
  qed
qed

text \<open>C12. With the in-memory broker and any of its faults: when \<open>confirm_stop\<close> answers yes for an open
  order, the broker's position carries a stop at least as tight as ours (or is gone); when it answers no,
  a critical alert has been sent; and it always answers (no broker outage escapes).\<close>

theorem confirm_stop_protects:
  assumes E: "oe_adapter E = fake_adapter F" and good: "fk_good (om_world s)"
    and t: "dict_get (om_orders s) coid = Some t" "tk_state t = Open" "tk_position_id t = Some pid"
    and run: "confirm_stop E coid s = (r, s')"
  shows "(r = Inr True \<longrightarrow> holds_stop pid (tk_side t) (tk_sl t) (om_world s')) \<and>
    (r = Inr False \<longrightarrow> (\<exists>xs a. om_alerts s' = om_alerts s @ xs \<and> a \<in> set xs \<and>
       al_severity a = Critical \<and> al_kind a = ''missing_stop'')) \<and>
    (\<forall>e. r \<noteq> Inl (Unavailable e))"
proof -
  have never: "r \<noteq> Inl (Unavailable e)" for e
    using no_outage_confirm [of E coid] run by (metis fst_conv no_outage_def)
  let ?sd = "tk_side t" and ?sl = "tk_sl t"
  have k: "knows coid ?sd ?sl s" using good t by (simp add: knows_def)
  obtain rc s1 where c: "check_stop_at_broker E coid pid s = (rc, s1)" by fastforce
  obtain xs where xs: "om_alerts s1 = om_alerts s @ xs" using keepsD [OF grows_check c] by (auto simp: grows_def)
  note out = check_outcome [OF E k, of pid]
  define h where "h = (\<lambda>e. seq (send_alert E Critical ''missing_stop'' (''cannot confirm stop: {}'', [AStr e])
      [(''position'', pid)]) (ret NotConfirmed))"
  define x where "x = (\<lambda>ack :: broker_ack. seq (if ak_ok ack
       then seq (upd_order coid (\<lambda>t. t\<lparr>tk_note := ''closed: stop could not be set''\<rparr>))
              (send_alert E Critical ''missing_stop'' (''stop could not be set; position closed'', []) [(''position'', pid)])
       else send_alert E Critical ''missing_stop'' (''stop could not be set and close failed: {}'',
              [AStr (case ak_error ack of None \<Rightarrow> ''None'' | Some e \<Rightarrow> e)]) [(''position'', pid)])
      (seq (save E) (ret False)))"
  have eq: "confirm_stop E coid s = bnd (catch_unavailable (check_stop_at_broker E coid pid) h)
      (\<lambda>r. case r of Protected \<Rightarrow> ret True | Exposed ack \<Rightarrow> x ack | NotConfirmed \<Rightarrow> ret False) s"
    unfolding h_def x_def using t by (simp add: confirm_stop_def with_order_def bnd_gets)
  have x: "\<exists>a ys u'. x ack u = (Inr False, u') \<and> om_alerts u' = om_alerts u @ a # ys \<and> al_severity a = Critical \<and>
      al_kind a = ''missing_stop''" for ack u
    by (simp add: x_def bnd_def seq_def ret_def upd_order_def upd_st_def send_alert_def save_def modif_def Let_def
        split: prod.split)
  show ?thesis
  proof (cases rc)
    case (Inl e)
    with run eq c xs never show ?thesis
      by (cases e)
         (auto simp: bnd_def catch_unavailable_def h_def seq_def ret_def send_alert_def modif_def,
          (rule exI, rule conjI, rule disjI1, rule refl, simp))
  next
    case (Inr res)
    with out c have res: "res = Protected \<longrightarrow> holds_stop pid ?sd ?sl (om_world s1)" "res \<noteq> NotConfirmed" by auto
    show ?thesis
    proof (cases res)
      case Protected
      with Inr res run eq c never show ?thesis
        by (auto simp: bnd_def catch_unavailable_def ret_def)
    next
      case (Exposed ack)
      then have "(r, s') = x ack s1" using Inr run eq c by (simp add: bnd_def catch_unavailable_def)
      with x [of ack s1] xs never show ?thesis by fastforce
    qed (use res in simp)
  qed
qed

theorem confirm_stop_protects_witness:
  "\<exists>r s'. confirm_stop (sample_om_env (fake_adapter sample_fake)) (client_order_id (oi_id sample_intent)) filled_om
      = (r, s') \<and> (r = Inr True \<longrightarrow> holds_stop (nat_str 1001) Buy (109/100) (om_world s'))"
proof -
  let ?E = "sample_om_env (fake_adapter sample_fake)" and ?c = "client_order_id (oi_id sample_intent)"
  obtain r s' where run: "confirm_stop ?E ?c filled_om = (r, s')" by fastforce
  have "fk_good (om_world filled_om)"
    by (auto simp: fk_good_def book_ok_def filled_defs)
  from confirm_stop_protects [OF _ this _ _ _ run, of sample_fake filled_order "nat_str 1001"]
  show ?thesis using run by (simp add: filled_orders sample_om_env_def)
qed

end
