(* ===== verification/Deal_Properties.thy ===== *)
theory Deal_Properties
  imports Order_Properties
begin

text \<open>
  Deals are applied once each: the expected balance moves by exactly the deals not seen before, although
  the broker may send a deal again and again; and where this stops to hold.
\<close>

section \<open>Brokers whose calls take no time\<close>

definition same_clock :: "'w adapter \<Rightarrow> 'w \<Rightarrow> 'w \<Rightarrow> bool" where
  "same_clock A w v \<longleftrightarrow> ad_now A v = ad_now A w"

interpretation same_clock: step_rel "same_clock A"
  by unfold_locales (auto simp: same_clock_def)

locale frozen_clock =
  fixes A :: "'w adapter"
  assumes account_clock: "keeps (same_clock A) (ad_account A)"
    and modify_clock: "keeps (same_clock A) (ad_modify A mr)"
    and close_clock: "keeps (same_clock A) (ad_close A pid lots)"
    and positions_clock: "keeps (same_clock A) (ad_positions A)"
    and deals_clock: "keeps (same_clock A) (ad_deals A since)"

text \<open>The in-memory broker never moves its injected clock.\<close>

lemma clock_modif: "(\<And>w. fw_now (f w) = fw_now w) \<Longrightarrow> keeps (same_clock (fake_adapter F)) (modif f)"
  by (simp add: keeps_def modif_def same_clock_def fake_adapter_def)

lemma clock_same: "keeps (=) m \<Longrightarrow> keeps (same_clock (fake_adapter F)) m"
  by (auto simp: keeps_def same_clock_def)

lemma clock_enter: "keeps (same_clock (fake_adapter F)) (fk_enter c)"
  by (simp add: keeps_def fk_enter_def se_defs same_clock_def fake_adapter_def
      split: option.split list.split prod.split nat.split)

lemma clock_method: "keeps (same_clock (fake_adapter F)) m \<Longrightarrow> keeps (same_clock (fake_adapter F)) (fk_method c m)"
  unfolding fk_method_def fk_exit_def by (intro same_clock.keeps_rules clock_enter)

lemma clock_close: "keeps (same_clock (fake_adapter F)) (fk_close E p px lots)"
  unfolding fk_close_def fk_deal_def fk_next_def info_se_def Let_def
  by (intro same_clock.keeps_rules clock_modif clock_same [OF lookup_same]) simp_all

interpretation fake_clock: frozen_clock "fake_adapter F"
proof
  let ?R = "same_clock (fake_adapter F)"
  show "keeps ?R (ad_account (fake_adapter F))"
    using clock_method [OF clock_same [OF account_same [of F]], of F CallAccount] by (simp add: fake_adapter_def)
  have mp: "keeps ?R (modify_position mr pid)" for mr pid
    unfolding modify_position_def by (intro same_clock.keeps_rules clock_modif clock_same [OF exit_price_same]) simp
  have mo: "keeps ?R (modify_order mr)" for mr
    unfolding modify_order_def by (intro same_clock.keeps_rules clock_modif) simp
  have "keeps ?R (fk_modify mr)" for mr
    unfolding fk_modify_def by (intro same_clock.keeps_rules clock_modif mp mo) simp
  from clock_method [OF this] show "keeps ?R (ad_modify (fake_adapter F) mr)" for mr
    by (simp add: fake_adapter_def)
  have "keeps ?R (fk_close_position F pid lots)" for pid lots
    unfolding fk_close_position_def
    by (intro same_clock.keeps_rules clock_close clock_same [OF exit_price_same])
  from clock_method [OF this] show "keeps ?R (ad_close (fake_adapter F) pid lots)" for pid lots
    by (simp add: fake_adapter_def)
  show "keeps ?R (ad_positions (fake_adapter F))"
    using clock_method [OF clock_same [OF marked_positions_same [of F]], of F CallPositions]
    by (simp add: fake_adapter_def)
  show "keeps ?R (ad_deals (fake_adapter F) since)" for since
    using clock_method [OF clock_same [OF deals_same], of F] by (simp add: fake_adapter_def)
qed

section \<open>What the handling of one deal leaves alone\<close>

abbreviation seen_deals :: "'w om \<Rightarrow> (string, time) dict" where
  "seen_deals s \<equiv> xs_seen_deals (om_st s)"

definition books_at :: "'w om_env \<Rightarrow> time \<Rightarrow> 'w om \<Rightarrow> bool" where
  "books_at E now s \<longleftrightarrow> om_now E s = now \<and> distinct (map fst (seen_deals s))"

definition books_same :: "time \<Rightarrow> 'w om \<Rightarrow> 'w om \<Rightarrow> bool" where
  "books_same now s t \<longleftrightarrow>
     xs_expected_balance (om_st t) = xs_expected_balance (om_st s) \<and>
     xs_cash_since (om_st t) = xs_cash_since (om_st s) \<and>
     Map.graph (dict_get (seen_deals t)) \<subseteq> Map.graph (dict_get (seen_deals s)) \<and>
     Map.graph (dict_get (seen_deals s)) \<inter> UNIV \<times> {now - seen_deal_retention ..}
       \<subseteq> Map.graph (dict_get (seen_deals t))"

definition books_kept :: "'w om_env \<Rightarrow> time \<Rightarrow> 'w om \<Rightarrow> 'w om \<Rightarrow> bool" where
  "books_kept E now s t \<longleftrightarrow> (books_at E now s \<longrightarrow> books_at E now t \<and> books_same now s t)"

lemma books_same_trans: "books_same now s t \<Longrightarrow> books_same now t u \<Longrightarrow> books_same now s u"
  unfolding books_same_def by auto

interpretation books_kept: step_rel "books_kept E now"
proof
  show "books_kept E now s s" for s by (simp add: books_kept_def books_same_def)
  show "books_kept E now s t \<Longrightarrow> books_kept E now t u \<Longrightarrow> books_kept E now s u" for s t u
    unfolding books_kept_def using books_same_trans by blast
qed

lemmas books_defs = books_kept_def books_at_def books_same_def

named_theorems books_intros

lemma books_st:
  assumes "\<And>st. xs_seen_deals (f st) = xs_seen_deals st \<and> xs_expected_balance (f st) = xs_expected_balance st \<and>
    xs_cash_since (f st) = xs_cash_since st"
  shows "keeps (books_kept E now) (upd_st f)"
  using assms by (simp add: keeps_def books_defs upd_st_def modif_def)

lemma books_upd_order [books_intros]: "keeps (books_kept E now) (upd_order coid f)"
  unfolding upd_order_def by (rule books_st) simp

lemma books_emit [books_intros]: "keeps (books_kept E now) (emit es)"
  by (simp add: keeps_def books_defs emit_def modif_def)

lemma books_alert [books_intros]: "keeps (books_kept E now) (send_alert E' sev k msg d)"
  by (simp add: keeps_def books_defs send_alert_def modif_def)

lemma books_with_order [books_intros]:
  "(\<And>t. keeps (books_kept E now) (f t)) \<Longrightarrow> keeps (books_kept E now) (with_order coid f)"
  unfolding with_order_def by (intro books_kept.keeps_rules)

lemma get_filter:
  "distinct (map fst d) \<Longrightarrow> dict_get (filter (\<lambda>(_, x). P x) d) k = Some v \<longleftrightarrow> dict_get d k = Some v \<and> P v"
proof (induction d)
  case (Cons a d)
  then show ?case
    by (cases a) (auto simp: map_of_eq_None_iff [symmetric] dest: map_of_SomeD)
qed simp

lemma distinct_filter_keys: "distinct (map fst d) \<Longrightarrow> distinct (map fst (filter P d))"
  by (rule distinct_map_filter)

lemma books_save [books_intros]: "keeps (books_kept E now) (save E)"
  by (auto simp: keeps_def books_defs save_def modif_def Let_def journal_save_def prune_deals_def
      get_filter distinct_filter_keys Map.graph_def split: prod.split)

lemma books_call [books_intros]:
  "keeps (same_clock (oe_adapter E)) m \<Longrightarrow> keeps (books_kept E now) (call m)"
  by (auto simp: keeps_def books_defs call_def same_clock_def split: prod.split) (metis snd_conv)+

lemma books_fills [books_intros]:
  "keeps (books_kept E now) (opened coid price lots)"
  "keeps (books_kept E now) (confirmed coid)"
  "keeps (books_kept E now) (closed_trade E' coid t)"
  "keeps (books_kept E now) (record_fill E' coid price lots latency commission)"
  unfolding opened_def confirmed_def closed_trade_def record_fill_def Let_def
  by (intro books_kept.keeps_rules books_intros)+

lemma books_check_case [books_intros]:
  "keeps (books_kept E now) a \<Longrightarrow> (\<And>ack. keeps (books_kept E now) (b ack)) \<Longrightarrow> keeps (books_kept E now) c \<Longrightarrow>
    keeps (books_kept E now) (case r of Protected \<Rightarrow> a | Exposed ack \<Rightarrow> b ack | NotConfirmed \<Rightarrow> c)"
  by (cases r) auto

locale frozen_orders = frozen_clock "oe_adapter E" for E :: "'w om_env"
begin

lemmas clocks = account_clock modify_clock close_clock positions_clock deals_clock

lemma books_confirm: "keeps (books_kept E now) (confirm_stop E coid)"
proof -
  have pos: "keeps (books_kept E now) (position_at_broker E pid)" for pid
    unfolding position_at_broker_def by (intro books_kept.keeps_rules books_intros clocks)
  have rep: "keeps (books_kept E now) (repair_stop E n coid pid)" for n pid
    by (induction n) (auto intro!: books_kept.keeps_rules books_intros clocks pos split: option.split)
  have chk: "keeps (books_kept E now) (check_stop_at_broker E coid pid)" for pid
    unfolding check_stop_at_broker_def by (intro books_kept.keeps_rules books_intros clocks pos rep)
  show ?thesis
    unfolding confirm_stop_def by (intro books_kept.keeps_rules books_intros chk)
qed

lemma books_trade_deal: "keeps (books_kept E now) (apply_trade_deal E d)"
proof -
  have "keeps (books_kept E now) (apply_in E coid d)" for coid
    unfolding apply_in_def by (intro books_kept.keeps_rules books_intros books_confirm)
  moreover have "keeps (books_kept E now) (apply_out E coid d)" for coid
    unfolding apply_out_def by (intro books_kept.keeps_rules books_intros)
  ultimately show ?thesis unfolding apply_trade_deal_def by (intro books_kept.keeps_rules)
qed

section \<open>One deal, then a list of them\<close>

lemma apply_seen: "dict_get (seen_deals s) (bd_deal_id d) \<noteq> None \<Longrightarrow> apply_deal E d acc s = (Inr acc, s)"
  by (auto simp: apply_deal_def bnd_gets ret_def)

lemma apply_unseen:
  assumes new: "dict_get (seen_deals s) (bd_deal_id d) = None" and at0: "books_at E now s"
    and run: "apply_deal E d acc s = (Inr acc', s')"
  shows "books_at E now s'" "fst acc' = Suc (fst acc)"
    "xs_cash_since (om_st s') = xs_cash_since (om_st s)"
    "xs_expected_balance (om_st s') = xs_expected_balance (count_cash d (om_st s))"
    "Map.graph (dict_get (seen_deals s')) \<subseteq> insert (bd_deal_id d, bd_time d) (Map.graph (dict_get (seen_deals s)))"
    "insert (bd_deal_id d, bd_time d) (Map.graph (dict_get (seen_deals s))) \<inter> UNIV \<times> {now - seen_deal_retention ..}
       \<subseteq> Map.graph (dict_get (seen_deals s'))"
proof -
  define s1 where "s1 = s\<lparr>om_st := count_cash d ((om_st s)\<lparr>xs_seen_deals :=
    dict_set (bd_deal_id d) (bd_time d) (seen_deals s)\<rparr>)\<rparr>"
  let ?body = "if bd_kind d = BalanceDeal
      then send_alert E Warning ''balance_operation'' (''balance changed by {}'', [ADec (bd_profit d)]) [(''deal'', bd_deal_id d)]
      else apply_trade_deal E d"
  have eq: "apply_deal E d acc s = seq ?body (ret (Suc (fst acc), max (snd acc) (bd_time d))) s1"
    using new by (simp add: apply_deal_def bnd_gets upd_st_def seq_modif s1_def)
  have kb: "keeps (books_kept E now) ?body" by (intro books_kept.keeps_if books_intros books_trade_deal)
  have body: "?body s1 = (Inr (), s') \<and> acc' = (Suc (fst acc), max (snd acc) (bd_time d))"
    using run eq by (auto simp: seq_def bnd_def ret_def split: prod.splits sum.splits)
  have f1: "seen_deals s1 = dict_set (bd_deal_id d) (bd_time d) (seen_deals s)"
    "xs_cash_since (om_st s1) = xs_cash_since (om_st s)"
    "xs_expected_balance (om_st s1) = xs_expected_balance (count_cash d (om_st s))" "om_world s1 = om_world s"
    by (simp_all add: s1_def count_cash_def split: option.split)
  have k: "books_at E now s1 \<longrightarrow> books_at E now s' \<and> books_same now s1 s'"
    using keepsD [OF kb conjunct1 [OF body]] by (simp add: books_kept_def)
  have "books_at E now s1" using at0 f1 by (simp add: books_at_def)
  with k have "books_at E now s'" "books_same now s1 s'" by auto
  moreover have "Map.graph (dict_get (seen_deals s1)) = insert (bd_deal_id d, bd_time d) (Map.graph (dict_get (seen_deals s)))"
    using f1(1) new by (auto simp: Map.graph_def split: if_splits)
  ultimately show "books_at E now s'" "xs_cash_since (om_st s') = xs_cash_since (om_st s)"
    "xs_expected_balance (om_st s') = xs_expected_balance (count_cash d (om_st s))"
    "Map.graph (dict_get (seen_deals s')) \<subseteq> insert (bd_deal_id d, bd_time d) (Map.graph (dict_get (seen_deals s)))"
    "insert (bd_deal_id d, bd_time d) (Map.graph (dict_get (seen_deals s))) \<inter> UNIV \<times> {now - seen_deal_retention ..}
       \<subseteq> Map.graph (dict_get (seen_deals s'))"
    using f1 by (simp_all add: books_same_def)
  show "fst acc' = Suc (fst acc)" using body by simp
qed

end

text \<open>The deals of a list that were not applied before, and the part of them that counts as cash.\<close>

definition unseen :: "'w om \<Rightarrow> broker_deal set \<Rightarrow> broker_deal set" where
  "unseen s ds = {d \<in> ds. dict_get (seen_deals s) (bd_deal_id d) = None}"

definition cash_of :: "time \<Rightarrow> broker_deal set \<Rightarrow> dec" where
  "cash_of since ds = (\<Sum>d \<in> {d \<in> ds. since \<le> bd_time d}. deal_net d)"

text \<open>What the list of deals must satisfy: identifiers identify deals, and no deal is past the retention.\<close>

definition deals_consistent :: "time \<Rightarrow> 'w om \<Rightarrow> broker_deal set \<Rightarrow> bool" where
  "deals_consistent now s ds \<longleftrightarrow>
     (\<forall>d \<in> ds. \<forall>e \<in> ds. bd_deal_id d = bd_deal_id e \<longrightarrow> d = e) \<and>
     (\<forall>d \<in> ds. now - seen_deal_retention \<le> bd_time d) \<and>
     (\<forall>d \<in> ds. \<forall>x. dict_get (seen_deals s) (bd_deal_id d) = Some x \<longrightarrow> x = bd_time d)"

context frozen_orders begin

lemma fold_deals:
  "books_at E now s \<Longrightarrow> deals_consistent now s (set ds) \<Longrightarrow> xs_cash_since (om_st s) = Some since \<Longrightarrow>
    fold_each (apply_deal E) ds acc s = (Inr acc', s') \<Longrightarrow>
    fst acc' = fst acc + card (unseen s (set ds)) \<and>
    dec_or (xs_expected_balance (om_st s')) 0 =
      dec_or (xs_expected_balance (om_st s)) 0 + cash_of since (unseen s (set ds))"
proof (induction ds arbitrary: s acc)
  case Nil
  then show ?case by (simp add: ret_def unseen_def cash_of_def)
next
  case (Cons d ds)
  show ?case
  proof (cases "dict_get (seen_deals s) (bd_deal_id d) = None")
    case False
    then have "unseen s (set (d # ds)) = unseen s (set ds)" by (auto simp: unseen_def)
    moreover have "deals_consistent now s (set ds)" using Cons.prems(2) by (auto simp: deals_consistent_def)
    moreover have "fold_each (apply_deal E) ds acc s = (Inr acc', s')"
      using Cons.prems(4) apply_seen [of s d acc] False by (simp add: bnd_def)
    ultimately show ?thesis using Cons.IH Cons.prems(1,3) by metis
  next
    case True
    obtain acc1 s1 where one: "apply_deal E d acc s = (Inr acc1, s1)"
      and rest: "fold_each (apply_deal E) ds acc1 s1 = (Inr acc', s')"
      using Cons.prems(4) by (auto simp: bnd_def split: prod.splits sum.splits)
    note u = apply_unseen [OF True Cons.prems(1) one]
    have cons: "\<And>e. e \<in> set (d # ds) \<Longrightarrow> bd_deal_id e = bd_deal_id d \<Longrightarrow> e = d"
      "\<And>e. e \<in> set (d # ds) \<Longrightarrow> now - seen_deal_retention \<le> bd_time e"
      using Cons.prems(2) by (auto simp: deals_consistent_def)
    have get1: "dict_get (seen_deals s1) (bd_deal_id e) =
        (if e = d then Some (bd_time d) else dict_get (seen_deals s) (bd_deal_id e))"
      if e: "e \<in> set (d # ds)" for e
    proof (cases "e = d")
      case True
      then have "(bd_deal_id e, bd_time d) \<in> Map.graph (dict_get (seen_deals s1))"
        using u(6) cons(2) [OF e] by auto
      with True show ?thesis by (simp add: Map.graph_def)
    next
      case False
      then have ne: "bd_deal_id e \<noteq> bd_deal_id d" using cons(1) [OF e] by blast
      show ?thesis
      proof (cases "dict_get (seen_deals s) (bd_deal_id e)")
        case None
        then have "(bd_deal_id e, x) \<notin> Map.graph (dict_get (seen_deals s1))" for x
          using u(5) ne by (auto simp: Map.graph_def)
        with None False show ?thesis by (cases "dict_get (seen_deals s1) (bd_deal_id e)") (auto simp: Map.graph_def)
      next
        case (Some x)
        then have "x = bd_time e" using Cons.prems(2) e unfolding deals_consistent_def by blast
        with Some have "(bd_deal_id e, x) \<in> Map.graph (dict_get (seen_deals s1))"
          using u(6) cons(2) [OF e] by (auto simp: Map.graph_def)
        with Some False show ?thesis by (simp add: Map.graph_def)
      qed
    qed
    let ?U = "unseen s1 (set ds)"
    have ins: "unseen s (set (d # ds)) = insert d ?U" "d \<notin> ?U" "finite ?U"
      using get1 True by (auto simp: unseen_def split: if_splits)
    have "deals_consistent now s1 (set ds)"
      using Cons.prems(2) get1 by (simp add: deals_consistent_def)
    note ih = Cons.IH [OF u(1) this _ rest]
    have "cash_of since (insert d ?U) = cash_of since ?U + (if since \<le> bd_time d then deal_net d else 0)"
    proof -
      have "{x \<in> insert d ?U. since \<le> bd_time x} =
          (if since \<le> bd_time d then insert d {x \<in> ?U. since \<le> bd_time x} else {x \<in> ?U. since \<le> bd_time x})" by auto
      then show ?thesis using ins(2,3) by (simp add: cash_of_def)
    qed
    moreover have "dec_or (xs_expected_balance (om_st s1)) 0 =
        dec_or (xs_expected_balance (om_st s)) 0 + (if since \<le> bd_time d then deal_net d else 0)"
      using u(4) Cons.prems(3) by (simp add: count_cash_def dec_or_def split: option.split)
    ultimately show ?thesis using ih u(2,3) Cons.prems(3) ins by simp
  qed
qed

end

interpretation fake_orders: frozen_orders "E\<lparr>oe_adapter := fake_adapter F\<rparr>"
  by (simp add: frozen_orders_def fake_clock.frozen_clock_axioms)

section \<open>Properties\<close>

definition deals_asked :: "'w om_env \<Rightarrow> 'w om \<Rightarrow> time" where
  "deals_asked E s = (case xs_deals_cursor (om_st s) of None \<Rightarrow> om_now E s | Some c \<Rightarrow> c)
     - delta_seconds (ec_deal_lookback_seconds (oe_cfg E))"

text \<open>C11. When a synchronisation succeeds, it reports as new exactly the deals of the broker's answer that
  were not applied before, each once however often the broker repeats it, and the expected balance moves by
  exactly the net of those among them that count as cash; provided no deal of the answer is older than
  the seven days for which applied deals are remembered.\<close>

theorem deals_once:
  assumes E: "oe_adapter E = fake_adapter F" and run: "sync_deals E s = (Inr n, s')"
    and asked: "ad_deals (fake_adapter F) (deals_asked E s) (om_world s) = (Inr ds, w)"
    and keys: "distinct (map fst (seen_deals s))"
    and cons: "deals_consistent (om_now E s) s (set ds)" and cash: "xs_cash_since (om_st s) = Some since"
  shows "n = card (unseen s (set ds)) \<and>
    dec_or (xs_expected_balance (om_st s')) 0 =
      dec_or (xs_expected_balance (om_st s)) 0 + cash_of since (unseen s (set ds))"
proof -
  let ?c = "case xs_deals_cursor (om_st s) of None \<Rightarrow> om_now E s | Some c \<Rightarrow> c"
  let ?ds = "sort_key (\<lambda>d. (bd_time d, bd_deal_id d)) ds"
  define s1 where "s1 = s\<lparr>om_world := w\<rparr>"
  define rest where "rest = (\<lambda>(n :: nat, cursor'). bnd (gets (\<lambda>s :: fake om. xs_deals_cursor (om_st s))) (\<lambda>old.
    seq (when_do (n \<noteq> 0 \<or> Some cursor' \<noteq> old)
           (seq (upd_st (\<lambda>st. st\<lparr>xs_deals_cursor := Some cursor'\<rparr>)) (save E)))
        (ret n)))"
  have "call (ad_deals (oe_adapter E) (?c - delta_seconds (ec_deal_lookback_seconds (oe_cfg E)))) s = (Inr ds, s1)"
    using asked by (simp add: call_def E deals_asked_def s1_def)
  then have eq: "sync_deals E s = bnd (fold_each (apply_deal E) ?ds (0, ?c)) rest s1"
    unfolding sync_deals_def rest_def by (simp add: bnd_gets bnd_run)
  obtain fr s2 where f0: "fold_each (apply_deal E) ?ds (0, ?c) s1 = (fr, s2)" by fastforce
  obtain k cur where f: "fold_each (apply_deal E) ?ds (0, ?c) s1 = (Inr (k, cur), s2)"
    using f0 run eq that by (cases fr) (auto simp: bnd_fail)
  have "rest (k, cur) s2 = (Inr n, s')" using run eq f by (simp add: bnd_run)
  then have s2: "n = k" "om_st s' = om_st s2 \<or>
      om_st s' = om_st (snd (save E (s2\<lparr>om_st := (om_st s2)\<lparr>xs_deals_cursor := Some cur\<rparr>\<rparr>)))"
  proof -
    let ?x = "s2\<lparr>om_st := (om_st s2)\<lparr>xs_deals_cursor := Some cur\<rparr>\<rparr>"
    obtain u where sv: "save E ?x = (Inr (), u)" by (simp add: save_def modif_def)
    have "rest (k, cur) s2 = (Inr k, s2) \<or> rest (k, cur) s2 = (Inr k, u)"
      by (simp add: rest_def gets_def when_do_def upd_st_def modif_def seq_def bnd_def ret_def sv)
    with \<open>rest (k, cur) s2 = (Inr n, s')\<close> sv show "n = k" "om_st s' = om_st s2 \<or> om_st s' = om_st (snd (save E ?x))"
      by auto
  qed
  have bal: "xs_expected_balance (om_st s') = xs_expected_balance (om_st s2)"
    using s2(2) by (auto simp: save_def modif_def Let_def journal_save_def split: prod.splits)
  have EE: "E\<lparr>oe_adapter := fake_adapter F\<rparr> = E" using E by simp
  have now: "om_now E s1 = om_now E s"
    using keepsD [OF fake_clock.deals_clock asked] by (simp add: s1_def same_clock_def E)
  have "books_at E (om_now E s) s1" using keys now by (simp add: books_at_def s1_def)
  moreover have "deals_consistent (om_now E s) s1 (set ?ds)" using cons by (simp add: deals_consistent_def s1_def)
  moreover have "xs_cash_since (om_st s1) = Some since" using cash by (simp add: s1_def)
  ultimately have "fst (k, cur) = fst (0, ?c) + card (unseen s1 (set ?ds)) \<and>
      dec_or (xs_expected_balance (om_st s2)) 0 =
        dec_or (xs_expected_balance (om_st s1)) 0 + cash_of since (unseen s1 (set ?ds))"
    using fake_orders.fold_deals [of F E "om_now E s" s1 ?ds since "(0, ?c)" "(k, cur)" s2] f unfolding EE by blast
  then show ?thesis using s2(1) bal by (simp add: s1_def unseen_def)
qed

definition deposited_fake :: fake where
  "deposited_fake = (fake_init 0 10000)\<lparr>fw_balance := 10500, fw_deal_log :=
     [\<lparr>bd_deal_id = ''1001'', bd_kind = BalanceDeal, bd_position_id = [], bd_symbol = [], bd_side = Buy,
       bd_entry = DealIn, bd_lots = 0, bd_price = 0, bd_commission = 0, bd_swap = 0, bd_profit = 500,
       bd_time = 0, bd_magic = 0, bd_comment = ''deposit''\<rparr>]\<rparr>"

definition deposited_om :: "fake \<Rightarrow> fake om" where
  "deposited_om w = (quoted_om w)\<lparr>om_st := empty_exec\<lparr>xs_deals_cursor := Some 0, xs_cash_since := Some 0,
     xs_expected_balance := Some 10000\<rparr>\<rparr>"

lemmas sync_defs = sync_deals_def apply_deal_def count_cash_def deal_net_def fk_deals_def deposited_fake_def
  deposited_om_def delta_seconds_def seconds_def days_def seen_deal_retention_def exec_sample_defs
  om_run_defs fake_run_defs

theorem deals_once_witness:
  "\<exists>s'. sync_deals (sample_om_env (fake_adapter sample_fake)) (deposited_om (deposited_fake\<lparr>fw_duplicate_deals := True\<rparr>))
      = (Inr 1, s') \<and> xs_expected_balance (om_st s') = Some 10500"
proof -
  let ?E = "sample_om_env (fake_adapter sample_fake)"
  let ?s = "deposited_om (deposited_fake\<lparr>fw_duplicate_deals := True\<rparr>)"
  let ?d = "hd (fw_deal_log deposited_fake)"
  obtain r s' where run: "sync_deals ?E ?s = (r, s')" by fastforce
  have "\<exists>n b. fst (sync_deals ?E ?s) = Inr n \<and> xs_expected_balance (om_st (snd (sync_deals ?E ?s))) = Some b \<and> b \<noteq> 0"
    by (simp add: sync_defs)
  then obtain n b where n: "r = Inr n" "xs_expected_balance (om_st s') = Some b" "b \<noteq> 0" using run by auto
  have "\<exists>w. ad_deals (fake_adapter sample_fake) (deals_asked ?E ?s) (om_world ?s) = (Inr [?d, ?d], w)"
    by (simp add: deals_asked_def sync_defs)
  then obtain w where asked: "ad_deals (fake_adapter sample_fake) (deals_asked ?E ?s) (om_world ?s) = (Inr [?d, ?d], w)"
    by blast
  have "deals_consistent (om_now ?E ?s) ?s (set [?d, ?d])"
    by (simp add: deals_consistent_def sync_defs)
  from deals_once [OF _ run [unfolded n(1)] asked _ this, of 0]
  have "n = card (unseen ?s (set [?d, ?d])) \<and> dec_or (Some b) 0 = 10000 + cash_of 0 (unseen ?s (set [?d, ?d]))"
    using n(2) by (simp add: sample_om_env_def deposited_om_def quoted_om_def empty_exec_def dec_or_def)
  moreover have "unseen ?s (set [?d, ?d]) = {?d}"
    by (auto simp: unseen_def deposited_om_def quoted_om_def empty_exec_def)
  moreover have "cash_of 0 {?d} = 500"
    by (simp add: cash_of_def deposited_fake_def fake_init_def deal_net_def Collect_conv_if)
  ultimately show ?thesis using run n by (simp add: dec_or_def)
qed

definition after_sync :: "(string, time) dict \<Rightarrow> time \<Rightarrow> alert list \<Rightarrow> fake om" where
  "after_sync seen now al =
     (let st = empty_exec\<lparr>xs_seen_deals := seen, xs_deals_cursor := Some 0, xs_cash_since := Some 0,
                xs_expected_balance := Some 10500\<rparr> in
      (quoted_om (deposited_fake\<lparr>fw_now := now, fw_calls := [CallDeals (-300000000)]\<rparr>))\<lparr>om_st := st,
        om_disk := Doc st [], om_alerts := al\<rparr>)"

lemma first_sync:
  "\<exists>al. snd (sync_deals (sample_om_env (fake_adapter sample_fake)) (deposited_om deposited_fake)) =
     after_sync [(''1001'', 0)] 0 al"
  by (simp add: sync_defs after_sync_def)

lemma week_later:
  "snd (save (sample_om_env (fake_adapter sample_fake)) (after_sync [(''1001'', 0)] (days 8) al)) =
     after_sync [] (days 8) al"
  by (simp add: sync_defs after_sync_def)

lemma second_sync:
  "xs_expected_balance (om_st (snd (sync_deals (sample_om_env (fake_adapter sample_fake))
      (after_sync [] (days 8) al)))) = Some 11000 \<and>
   fw_balance (om_world (snd (sync_deals (sample_om_env (fake_adapter sample_fake))
      (after_sync [] (days 8) al)))) = 10500"
  by (simp add: sync_defs after_sync_def)

text \<open>Beyond the seven days it fails: after eight quiet days the last deal is still inside the look-back
  of the cursor but has been forgotten, so two synchronisations count the same deposit twice, and the
  expected balance no longer matches the broker's.\<close>

theorem old_deal_counted_twice:
  "(let E = sample_om_env (fake_adapter sample_fake);
        s1 = snd (sync_deals E (deposited_om deposited_fake));
        s2 = snd (save E (s1\<lparr>om_world := (om_world s1)\<lparr>fw_now := days 8\<rparr>\<rparr>));
        s3 = snd (sync_deals E s2)
    in xs_expected_balance (om_st s1) = Some 10500 \<and> fw_balance (om_world s3) = 10500 \<and>
       xs_expected_balance (om_st s3) = Some 11000)"
proof -
  let ?E = "sample_om_env (fake_adapter sample_fake)"
  obtain al where s1: "snd (sync_deals ?E (deposited_om deposited_fake)) = after_sync [(''1001'', 0)] 0 al"
    using first_sync by blast
  have "(after_sync seen 0 al)\<lparr>om_world := (om_world (after_sync seen 0 al))\<lparr>fw_now := days 8\<rparr>\<rparr> =
      after_sync seen (days 8) al" for seen
    by (simp add: after_sync_def Let_def quoted_om_def)
  moreover have "xs_expected_balance (om_st (after_sync seen 0 al)) = Some 10500" for seen
    by (simp add: after_sync_def Let_def)
  ultimately show ?thesis
    unfolding Let_def s1 by (simp add: week_later second_sync)
qed

end
