(* ===== verification/Recon_Properties.thy ===== *)
theory Recon_Properties
  imports Deal_Properties
begin

text \<open>
  Reconciliation: what a clean report means, which halts it enters and clears, and where the halt can be
  lost; the watchdog's verdict.
\<close>

section \<open>A clean report\<close>

text \<open>The abstract specification: the journal and the broker describe the same book.\<close>

definition order_agrees :: "exec_config \<Rightarrow> time \<Rightarrow> broker_view \<Rightarrow> tracked_order \<Rightarrow> bool" where
  "order_agrees cfg now v t \<longleftrightarrow>
     (tk_state t = Sending \<longrightarrow> now - tk_created_at t \<le> delta_seconds (ec_send_grace_seconds cfg)) \<and>
     (tk_state t = Pending \<longrightarrow> (\<exists>ord \<in> set (vw_orders v). tk_broker_order_id t = Some (bo_broker_order_id ord))) \<and>
     (tk_state t = Open \<longrightarrow> (\<exists>p \<in> set (vw_positions v). tk_position_id t = Some (bp_position_id p) \<and>
        bp_lots p = tk_lots t \<and> stop_protects (tk_side t) (bp_sl p) (tk_sl t)))"

definition books_agree :: "exec_config \<Rightarrow> time \<Rightarrow> exec_state \<Rightarrow> broker_view \<Rightarrow> bool" where
  "books_agree cfg now st v \<longleftrightarrow>
     (\<forall>(k, t) \<in> set (xs_orders st). order_agrees cfg now v t) \<and>
     (\<forall>p \<in> set (vw_positions v). is_system_comment (bp_comment p) \<longrightarrow>
        (\<exists>(k, t) \<in> set (xs_orders st). tk_position_id t = Some (bp_position_id p))) \<and>
     (\<forall>ord \<in> set (vw_orders v). is_system_comment (bo_comment ord) \<longrightarrow>
        (\<exists>(k, t) \<in> set (xs_orders st). tk_broker_order_id t = Some (bo_broker_order_id ord))) \<and>
     (\<forall>e. xs_expected_balance st = Some e \<longrightarrow> \<bar>vw_balance v - e\<bar> \<le> ec_balance_tolerance cfg)"

lemma dict_of_get: "dict_get (dict_of key xs acc) k = Some x \<Longrightarrow> x \<in> set xs \<and> key x = k \<or> dict_get acc k = Some x"
  by (induction xs arbitrary: acc) (fastforce split: if_splits)+

lemma dict_of_keep: "k \<notin> key ` set xs \<Longrightarrow> dict_get (dict_of key xs acc) k = dict_get acc k"
  by (induction xs arbitrary: acc) auto

lemma dict_of_Some: "dict_get (dict_of key xs []) k = Some x \<Longrightarrow> x \<in> set xs \<and> key x = k"
  using dict_of_get [of key xs "[]" k x] by simp

lemma dict_of_distinct:
  "distinct (map key xs) \<Longrightarrow> x \<in> set xs \<Longrightarrow> dict_get (dict_of key xs acc) (key x) = Some x"
  by (induction xs arbitrary: acc) (auto simp: dict_of_keep)

lemma dict_of_iff: "distinct (map key xs) \<Longrightarrow>
    dict_get (dict_of key xs []) k = Some x \<longleftrightarrow> x \<in> set xs \<and> key x = k"
  using dict_of_Some [of key xs k x] dict_of_distinct [of key xs x "[]"] by auto

lemma dict_of_None: "distinct (map key xs) \<Longrightarrow> dict_get (dict_of key xs []) k = None \<longleftrightarrow> (\<forall>x \<in> set xs. key x \<noteq> k)"
  using dict_of_iff [of key xs k] by (cases "dict_get (dict_of key xs []) k") auto

lemma order_mismatches_Nil:
  assumes "distinct (map bp_position_id (vw_positions v))" "distinct (map bo_broker_order_id (vw_orders v))"
    and "is_active (tk_state t)"
  shows "order_mismatches cfg now (dict_of bp_position_id (vw_positions v) [])
      (dict_of bo_broker_order_id (vw_orders v) []) t = [] \<longleftrightarrow> order_agrees cfg now v t"
proof -
  note ord = dict_of_None [OF assms(2)] and pos = dict_of_iff [OF assms(1)]
  show ?thesis
  proof (cases "tk_state t")
    case Sending
    then show ?thesis by (auto simp: order_mismatches_def order_agrees_def Let_def)
  next
    case Pending
    then show ?thesis
      by (cases "tk_broker_order_id t") (auto simp: order_mismatches_def order_agrees_def Let_def ord)
  next
    case Open
    have "order_mismatches cfg now (dict_of bp_position_id (vw_positions v) [])
        (dict_of bo_broker_order_id (vw_orders v) []) t = [] \<longleftrightarrow>
      (\<exists>pid x. tk_position_id t = Some pid \<and> dict_get (dict_of bp_position_id (vw_positions v) []) pid = Some x \<and>
        bp_lots x = tk_lots t \<and> stop_protects (tk_side t) (bp_sl x) (tk_sl t))"
      using Open by (auto simp: order_mismatches_def Let_def split: option.splits)
    also have "\<dots> \<longleftrightarrow> order_agrees cfg now v t"
      using Open by (auto simp: order_agrees_def pos)
    finally show ?thesis .
  qed (use assms(3) in simp_all)
qed

lemma position_mismatches_Nil: "position_mismatches st p = [] \<longleftrightarrow> (is_system_comment (bp_comment p) \<longrightarrow>
    (\<exists>(k, t) \<in> set (xs_orders st). tk_position_id t = Some (bp_position_id p)))"
  by (auto simp: position_mismatches_def by_position_def)

lemma broker_order_mismatches_Nil: "broker_order_mismatches st b = [] \<longleftrightarrow> (is_system_comment (bo_comment b) \<longrightarrow>
    (\<exists>(k, t) \<in> set (xs_orders st). tk_broker_order_id t = Some (bo_broker_order_id b)))"
  by (auto simp: broker_order_mismatches_def by_broker_order_def)

text \<open>C21. Reconciliation finds no mismatch exactly when the journal and the broker's lists describe the same
  book: every live order is where the journal says, with its lots and a stop at least as tight, every system
  position and order of the broker is tracked, and the balance is the expected one within the tolerance.\<close>

theorem clean_report_iff:
  assumes "distinct (map bp_position_id (vw_positions v))" and "distinct (map bo_broker_order_id (vw_orders v))"
  shows "compare_books cfg now st v = [] \<longleftrightarrow> books_agree cfg now st v"
proof -
  have "\<not> is_active (tk_state t) \<Longrightarrow> order_agrees cfg now v t" for t
    by (cases "tk_state t") (simp_all add: order_agrees_def)
  then have "(\<forall>t \<in> set (active_orders st). order_agrees cfg now v t) \<longleftrightarrow>
      (\<forall>(k, t) \<in> set (xs_orders st). order_agrees cfg now v t)"
    by (force simp: active_orders_def dict_values_def)
  moreover have "is_active (tk_state t)" if "t \<in> set (active_orders st)" for t
    using that by (simp add: active_orders_def)
  ultimately have 1: "concat (map (order_mismatches cfg now (dict_of bp_position_id (vw_positions v) [])
      (dict_of bo_broker_order_id (vw_orders v) [])) (active_orders st)) = [] \<longleftrightarrow>
      (\<forall>(k, t) \<in> set (xs_orders st). order_agrees cfg now v t)"
    using order_mismatches_Nil [OF assms] by simp
  have 2: "concat (map (position_mismatches st) (vw_positions v)) = [] \<longleftrightarrow>
      (\<forall>p \<in> set (vw_positions v). is_system_comment (bp_comment p) \<longrightarrow>
        (\<exists>(k, t) \<in> set (xs_orders st). tk_position_id t = Some (bp_position_id p)))"
    by (simp add: position_mismatches_Nil)
  have 3: "concat (map (broker_order_mismatches st) (vw_orders v)) = [] \<longleftrightarrow>
      (\<forall>ord \<in> set (vw_orders v). is_system_comment (bo_comment ord) \<longrightarrow>
        (\<exists>(k, t) \<in> set (xs_orders st). tk_broker_order_id t = Some (bo_broker_order_id ord)))"
    by (simp add: broker_order_mismatches_Nil)
  have 4: "balance_mismatches cfg st b = [] \<longleftrightarrow>
      (\<forall>e. xs_expected_balance st = Some e \<longrightarrow> \<bar>b - e\<bar> \<le> ec_balance_tolerance cfg)" for b
    by (cases "xs_expected_balance st") (simp_all add: balance_mismatches_def)
  show ?thesis
    unfolding compare_books_def books_agree_def Let_def append_is_Nil_conv 1 2 3 4 ..
qed

definition filled_view :: broker_view where
  "filled_view = \<lparr>vw_positions = [new_position quoted_fake ''1001'' ''EURUSD'' Buy (1/20) (11/10) (Some (109/100))
       None 1 (client_order_id (oi_id sample_intent))], vw_orders = [], vw_balance = 10000\<rparr>"

theorem clean_report_iff_witness:
  "\<not> books_agree exec_yaml 0 empty_exec filled_view"
proof -
  have "compare_books exec_yaml 0 empty_exec filled_view \<noteq> []"
    by (simp add: compare_books_def active_orders_def dict_values_def empty_exec_def filled_view_def
        position_mismatches_def by_position_def new_position_def is_system_comment_def client_order_id_def
        client_order_prefix_def sample_intent_def)
  then show ?thesis
    using clean_report_iff [of filled_view exec_yaml 0 empty_exec] by (simp add: filled_view_def)
qed

section \<open>Halting\<close>

text \<open>Running the two sides of a pair.\<close>

lemma pair_run:
  "seq (on_om m) n (s, r) = (case m s of (Inl e, s1) \<Rightarrow> (Inl e, (s1, r)) | (Inr _, s1) \<Rightarrow> n (s1, r))"
  "bnd (on_om k) f (s, r) = (case k s of (Inl e, s1) \<Rightarrow> (Inl e, (s1, r)) | (Inr x, s1) \<Rightarrow> f x (s1, r))"
  "bnd (on_side g) h (s, r) = h (fst (g r)) (s, snd (g r))"
  "seq (if b then m1 else m2) n1 p = (if b then seq m1 n1 p else seq m2 n1 p)"
  by (simp_all add: seq_def bnd_def on_om_def on_side_def split: prod.split sum.split)

lemma seq_ret: "seq (ret ()) n = n"
  by (rule ext) (simp add: seq_def bnd_def ret_def)

lemma ret_run: "ret x p = (Inr x, p)"
  by (simp add: ret_def)

lemma seq_assoc: "seq (seq a b) c = seq a (seq b c)"
  by (rule ext) (auto simp: seq_def bnd_def split: prod.split sum.split)

lemma seq_bnd: "seq (bnd m f) c = bnd m (\<lambda>x. seq (f x) c)"
  by (rule ext) (auto simp: seq_def bnd_def split: prod.split sum.split)

text \<open>What reconciliation needs of the risk side: entering the halt leaves trading blocked.\<close>

locale halt_control =
  fixes C :: "'r risk_control" and blocked :: "'r \<Rightarrow> bool"
  assumes enter_blocks: "blocked (snd (rk_enter C reason now r))"
begin

lemma recheck_outcome:
  assumes "resync_and_recheck E C report (s, r) = (Inr rep, (s', r'))" and "\<not> report_ok rep"
  shows "r' = r"
  using assms
  by (auto simp: resync_and_recheck_def pair_run seq_assoc seq_bnd ret_def split: prod.splits sum.splits if_splits)

lemma mismatch_outcome:
  assumes "on_mismatch E C now previous report (s, r) = (Inr rep, (s', r'))" and "\<not> report_ok rep"
  shows "blocked r'"
proof -
  let ?r = "snd (rk_enter C (''reconciliation: '' @ summary (rr_mismatches report)) now r)"
  have "r' = ?r"
  proof (cases "fst (rk_enter C (''reconciliation: '' @ summary (rr_mismatches report)) now r)")
    case None
    with assms show ?thesis
      by (auto simp: on_mismatch_def Let_def pair_run seq_assoc when_do_def seq_ret ret_run
          dest: recheck_outcome split: prod.splits sum.splits if_splits)
  next
    case (Some h)
    with assms show ?thesis
      by (auto simp: on_mismatch_def Let_def pair_run seq_assoc when_do_def seq_ret ret_run
          dest: recheck_outcome split: prod.splits sum.splits if_splits)
  qed
  then show ?thesis by (simp add: enter_blocks)
qed

lemma run_once_outcome:
  assumes "run_once E C (s, r) = (Inr rep, (s', r'))" and "\<not> report_ok rep"
  shows "blocked r' \<or> (r' = r \<and> xs_recon_episode (om_st s') = Stuck)"
proof -
  obtain report s1 where c: "check E s = (Inr report, s1)"
    using assms(1) by (auto simp: run_once_def pair_run split: prod.splits sum.splits)
  have g: "bnd (on_om (gets f)) k (s1, r) = k (f s1) (s1, r)" for f :: "_ \<Rightarrow> 'b" and k
    by (simp add: pair_run gets_def)
  have eq: "run_once E C (s, r) = (let now = om_now E s1; episode = xs_recon_episode (om_st s1) in
      (if report_ok report
       then seq (when_do (episode = Unreachable \<or> episode = Resyncing)
                   (bnd (on_side (rk_clear C)) (\<lambda>cleared.
                    seq (when_do cleared
                           (on_om (send_alert E Info ''recon_resolved''
                              (''broker reachable and state matches'', []) [])))
                        (on_om (set_episode E Clean))))) (ret report)
       else if episode = Stuck then ret report else on_mismatch E C now episode report) (s1, r))"
    by (simp add: run_once_def pair_run c gets_def Let_def)
  show ?thesis
  proof (cases "report_ok report")
    case True
    have "rep = report"
      using assms(1) eq True by (auto simp: Let_def seq_def bnd_def ret_def split: prod.splits sum.splits)
    with True assms(2) show ?thesis by simp
  next
    case False
    show ?thesis
    proof (cases "xs_recon_episode (om_st s1) = Stuck")
      case True
      with False assms(1) eq show ?thesis by (simp add: Let_def ret_def)
    next
      case stuck: False
      with False assms(1) eq have "on_mismatch E C (om_now E s1) (xs_recon_episode (om_st s1)) report (s1, r) =
          (Inr rep, (s', r'))" by (simp add: Let_def)
      then show ?thesis using mismatch_outcome assms(2) by blast
    qed
  qed
qed

end

text \<open>The risk gate provides it.\<close>

definition gate_blocked :: "gate \<Rightarrow> bool" where
  "gate_blocked g \<longleftrightarrow> rs_halt (gt_state g) \<noteq> Normal"

interpretation gate_halts: halt_control "gate_control G" gate_blocked
proof
  show "gate_blocked (snd (rk_enter (gate_control G) reason now g))" for reason now g
  proof (cases rule: enter_cases [of G ReconHalt reason now g])
    case stays
    then show ?thesis
      by (auto simp: gate_control_def enter_recon_halt_def gate_blocked_def less_eq_halt_state_def)
  next
    case enters
    then show ?thesis by (simp add: gate_control_def enter_recon_halt_def gate_blocked_def)
  qed
qed


text \<open>A balance that does not match, on an otherwise empty book.\<close>

definition bal_om :: "recon_episode \<Rightarrow> fake_call list \<Rightarrow> exec_state state_file \<Rightarrow> alert list \<Rightarrow> fake om" where
  "bal_om ep calls disk al = (quoted_om (quoted_fake\<lparr>fw_calls := calls\<rparr>))\<lparr>
     om_st := empty_exec\<lparr>xs_deals_cursor := Some 0, xs_cash_since := Some 0, xs_expected_balance := Some 9000,
       xs_recon_episode := ep\<rparr>,
     om_disk := disk, om_alerts := al\<rparr>"

lemma check_bal:
  "\<exists>d calls'. check (sample_om_env (fake_adapter sample_fake)) (bal_om ep calls disk al) =
     (Inr \<lparr>rr_at = 0, rr_mismatches = [mk_mismatch BalanceDiffers [] d], rr_external = []\<rparr>, bal_om ep calls' disk al)"
  by (simp add: check_def sync_and_view_def broker_view_of_def compare_books_def active_orders_def flag_external_def
     external_of_def balance_mismatches_def mk_mismatch_def
     account_of_def sync_defs bal_om_def)

definition bal :: "recon_episode \<Rightarrow> fake om \<Rightarrow> bool" where
  "bal ep s \<longleftrightarrow> (\<exists>calls disk al. s = bal_om ep calls disk al)"

definition unexplained :: "recon_report \<Rightarrow> bool" where
  "unexplained rep \<longleftrightarrow> (\<exists>d. rep = \<lparr>rr_at = 0, rr_mismatches = [mk_mismatch BalanceDiffers [] d], rr_external = []\<rparr>)"

abbreviation "bal_env \<equiv> sample_om_env (fake_adapter sample_fake)"

lemma bal_check:
  assumes "bal ep s"
  obtains rep s' where "check bal_env s = (Inr rep, s')" "unexplained rep" "bal ep s'"
  using assms check_bal unfolding bal_def unexplained_def by metis

lemma bal_save: "bal ep s \<Longrightarrow> \<exists>s'. save bal_env s = (Inr (), s') \<and> bal ep s'"
  by (auto simp: bal_def bal_om_def sync_defs)

lemma bal_episode: "bal ep s \<Longrightarrow> \<exists>s'. set_episode bal_env e s = (Inr (), s') \<and> bal e s'"
  by (auto simp: set_episode_def bal_def bal_om_def sync_defs)

lemma bal_alert: "bal ep s \<Longrightarrow> \<exists>s'. send_alert bal_env sv k m xs s = (Inr (), s') \<and> bal ep s'"
  by (auto simp: bal_def bal_om_def sync_defs)

lemma bal_halt: "bal ep s \<Longrightarrow> \<exists>s'. apply_or_alert bal_env (halt_command_for_state ReconHalt r t) s = (Inr (), s') \<and> bal ep s'"
  by (auto simp: apply_or_alert_def apply_halt_def cancel_pending_entries_def halt_command_for_state_def bal_def bal_om_def sync_defs)

lemma bal_resync: "bal ep s \<Longrightarrow> unexplained rep \<Longrightarrow> \<exists>s'. resync bal_env False rep s = (Inr (), s') \<and> bal ep s'"
  apply (auto simp: bal_def unexplained_def)
  apply (simp add: resync_def report_ok_def mk_mismatch_def broker_view_of_def oldest_active_def active_orders_def resolve_def
     account_of_def sync_defs bal_om_def)
  done

definition bal_gate :: gate where
  "bal_gate = roll_day sample_env 10000 True sample_gate"

definition after_loss :: "gate \<Rightarrow> gate" where
  "after_loss g = roll_day sample_env 9700 False (snd (on_account sample_env 9700 0 g))"

lemma unexplained_facts:
  "unexplained rep \<Longrightarrow> \<not> report_ok rep \<and> \<not> all_unreachable (rr_mismatches rep)"
  by (auto simp: unexplained_def report_ok_def all_unreachable_def mk_mismatch_def)

lemma bal_recheck:
  assumes "bal Resyncing s" "unexplained rep"
  shows "\<exists>rep' s'. resync_and_recheck bal_env C rep (s, g) = (Inr rep', (s', g)) \<and> unexplained rep' \<and> bal Stuck s'"
proof -
  obtain s1 where 1: "resync bal_env False rep s = (Inr (), s1)" "bal Resyncing s1"
    using bal_resync [OF assms] by blast
  obtain rep' s2 where 2: "check bal_env s1 = (Inr rep', s2)" "unexplained rep'" "bal Resyncing s2"
    using 1(2) by (rule bal_check)
  obtain s3 where 3: "set_episode bal_env Stuck s2 = (Inr (), s3)" "bal Stuck s3"
    using bal_episode [OF 2(3)] by blast
  obtain s4 where 4: "send_alert bal_env Critical ''recon_stuck''
      (''still mismatched after resync; staying halted until an owner resync: {}'',
        [AStr (summary (rr_mismatches rep'))]) [] s3 = (Inr (), s4)" "bal Stuck s4"
    using bal_alert [OF 3(2)] by blast
  show ?thesis
    using 2(2) 4(2) unexplained_facts [OF 2(2)]
    by (simp add: resync_and_recheck_def pair_run seq_assoc catch_unavailable_def 1(1) 2(1) 3(1) 4(1) ret_run)
qed

lemma gate_rk: "rk_enter (gate_control G) = enter_recon_halt G"
  by (simp add: gate_control_def)

lemma bal_first:
  assumes "bal Clean s" "rs_halt (gt_state g) = Normal"
  shows "\<exists>rep s' r. run_once bal_env (gate_control G) (s, g) = (Inr rep, (s', snd (enter_recon_halt G r 0 g))) \<and>
    unexplained rep \<and> bal Stuck s'"
proof -
  obtain rep s1 where 1: "check bal_env s = (Inr rep, s1)" "unexplained rep" "bal Clean s1"
    using assms(1) by (rule bal_check)
  define r where "r = ''reconciliation: '' @ summary (rr_mismatches rep)"
  have s1: "xs_recon_episode (om_st s1) = Clean" "om_now bal_env s1 = 0"
    using 1(3) by (auto simp: bal_def bal_om_def sync_defs)
  obtain s2 where 2: "set_episode bal_env Resyncing s1 = (Inr (), s2)" "bal Resyncing s2"
    using bal_episode [OF 1(3)] by blast
  have e: "fst (enter_recon_halt G r 0 g) = Some (halt_command_for_state ReconHalt r 0)"
    using assms(2) by (simp add: enter_recon_halt_def enter_def escalate_def)
  obtain s3 where 3: "apply_or_alert bal_env (halt_command_for_state ReconHalt r 0) s2 = (Inr (), s3)" "bal Resyncing s3"
    using bal_halt [OF 2(2)] by blast
  obtain s4 where 4: "send_alert bal_env Critical ''recon_mismatch'' (summary (rr_mismatches rep), []) [] s3 = (Inr (), s4)"
      "bal Resyncing s4"
    using bal_alert [OF 3(2)] by blast
  let ?g = "snd (enter_recon_halt G r 0 g)"
  from bal_recheck [OF 4(2) 1(2), where C = "gate_control G" and g = ?g]
  obtain rep' s5 where 5: "resync_and_recheck bal_env (gate_control G) rep (s4, snd (enter_recon_halt G r 0 g)) =
      (Inr rep', (s5, snd (enter_recon_halt G r 0 g)))" "unexplained rep'" "bal Stuck s5"
    by (elim exE conjE)
  have "on_mismatch bal_env (gate_control G) 0 Clean rep (s1, g) = (Inr rep', (s5, snd (enter_recon_halt G r 0 g)))"
    unfolding on_mismatch_def Let_def r_def [symmetric]
    using unexplained_facts [OF 1(2)] e by (simp add: pair_run 2(1) 3(1) 4(1) 5(1) gate_rk)
  then have "run_once bal_env (gate_control G) (s, g) = (Inr rep', (s5, snd (enter_recon_halt G r 0 g)))"
    using unexplained_facts [OF 1(2)] by (simp add: run_once_def pair_run gets_def 1(1) s1)
  with 5(2,3) show ?thesis by blast
qed

lemma bal_stuck:
  assumes "bal Stuck s"
  shows "\<exists>rep s'. run_once bal_env C (s, g) = (Inr rep, (s', g)) \<and> unexplained rep \<and> bal Stuck s'"
proof -
  obtain rep s' where "check bal_env s = (Inr rep, s')" "unexplained rep" "bal Stuck s'"
    using assms by (rule bal_check)
  moreover have "xs_recon_episode (om_st s') = Stuck" using \<open>bal Stuck s'\<close> by (auto simp: bal_def bal_om_def)
  moreover have "\<not> report_ok rep" using \<open>unexplained rep\<close> by (auto simp: unexplained_def report_ok_def)
  ultimately show ?thesis by (simp add: run_once_def pair_run ret_run gets_def)
qed

lemma after_loss_normal:
  "let g = snd (enter_recon_halt sample_env r 0 bal_gate) in
     rs_halt (gt_state g) = ReconHalt \<and> rs_halt (gt_state (snd (on_account sample_env 9700 0 g))) = DailyHalt \<and>
     rs_halt (gt_state (after_loss g)) = Normal"
  by (simp add: bal_gate_def after_loss_def sample_defs gate_op_defs Let_def loss_frac_def at_limit_def dec_or_def)

lemma bal_start: "bal Clean (bal_om Clean [] Missing [])"
  by (auto simp: bal_def)


section \<open>A halt that is lost\<close>

text \<open>A mismatch the resync cannot explain is meant to keep trading halted until the owner's resync. But the
  reconciliation halt is the least severe one: a daily loss halt replaces it, the next day's roll lifts that
  halt, and the reconciler, whose episode is already stuck, never enters it again. Trading resumes while the
  mismatch persists.\<close>

theorem stuck_mismatch_resumes_after_rollover:
  "\<exists>rep s1 g1 rep' s2. run_once bal_env (gate_control sample_env) (bal_om Clean [] Missing [], bal_gate) = (Inr rep, (s1, g1)) \<and>
     rs_halt (gt_state g1) = ReconHalt \<and>
     rs_halt (gt_state (after_loss g1)) = Normal \<and>
     run_once bal_env (gate_control sample_env) (s1, after_loss g1) = (Inr rep', (s2, after_loss g1)) \<and> \<not> report_ok rep'"
proof -
  have "rs_halt (gt_state bal_gate) = Normal"
    by (simp add: bal_gate_def sample_defs roll_day_def Let_def)
  then obtain rep s' r where 1: "run_once bal_env (gate_control sample_env) (bal_om Clean [] Missing [], bal_gate) =
      (Inr rep, (s', snd (enter_recon_halt sample_env r 0 bal_gate)))" and 2: "bal Stuck s'"
    using bal_first [OF bal_start] by blast
  let ?g = "snd (enter_recon_halt sample_env r 0 bal_gate)"
  obtain rep' s2 where "run_once bal_env (gate_control sample_env) (s', after_loss ?g) = (Inr rep', (s2, after_loss ?g))"
      "unexplained rep'"
    using bal_stuck [OF 2, of "gate_control sample_env" "after_loss ?g"] by (elim exE conjE)
  with 1 after_loss_normal [of r, unfolded Let_def] unexplained_facts show ?thesis by blast
qed
end
