(* ===== verification/Watch_Properties.thy ===== *)
theory Watch_Properties
  imports Recon_Properties
begin

text \<open>The heartbeat watchdog's verdict and its duty to cancel the resting entries.\<close>

lemma on_side_run: "on_side f (s, r) = (Inr (fst (f r)), (s, snd (f r)))"
  by (simp add: on_side_def split: prod.split)

lemma trip_run:
  "\<exists>al. trip E x (s, wd) = (Inr (), (s\<lparr>om_alerts := al\<rparr>,
     if x \<in> set (wd_tripped wd) then wd else wd\<lparr>wd_tripped := wd_tripped wd @ [x], wd_cancel_done := False\<rparr>))"
  by (cases "x \<in> set (wd_tripped wd)")
     (auto simp: trip_def pair_run when_do_def upd_wd_def seq_def bnd_def on_side_def send_alert_def on_om_def
       modif_def ret_def
       intro: exI [of _ "om_alerts s"])

lemma restore_run:
  "\<exists>al. restore E x (s, wd) = (Inr (), (s\<lparr>om_alerts := al\<rparr>,
     wd\<lparr>wd_tripped := filter (\<lambda>y. y \<noteq> x) (wd_tripped wd)\<rparr>))"
  by (auto simp: restore_def pair_run upd_wd_def seq_def bnd_def on_side_def send_alert_def on_om_def modif_def)

lemma trips_run:
  "\<exists>al wd'. for_each (trip E) xs (s, wd) = (Inr (), (s\<lparr>om_alerts := al\<rparr>, wd')) \<and>
     set (wd_tripped wd') = set (wd_tripped wd) \<union> set xs"
proof (induction xs arbitrary: s wd)
  case Nil
  then show ?case by (auto simp: ret_def intro: exI [of _ "om_alerts s"])
next
  case (Cons x xs)
  obtain al where 1: "trip E x (s, wd) = (Inr (), (s\<lparr>om_alerts := al\<rparr>,
      if x \<in> set (wd_tripped wd) then wd else wd\<lparr>wd_tripped := wd_tripped wd @ [x], wd_cancel_done := False\<rparr>))"
    using trip_run by blast
  from Cons [of "s\<lparr>om_alerts := al\<rparr>"
      "if x \<in> set (wd_tripped wd) then wd else wd\<lparr>wd_tripped := wd_tripped wd @ [x], wd_cancel_done := False\<rparr>"]
  show ?case by (auto simp: seq_run [of "trip E x", OF 1] split: if_splits)
qed

lemma restores_run:
  "\<exists>al wd'. for_each (restore E) xs (s, wd) = (Inr (), (s\<lparr>om_alerts := al\<rparr>, wd')) \<and>
     set (wd_tripped wd') = set (wd_tripped wd) - set xs"
proof (induction xs arbitrary: s wd)
  case Nil
  then show ?case by (auto simp: ret_def intro: exI [of _ "om_alerts s"])
next
  case (Cons x xs)
  obtain al where 1: "restore E x (s, wd) = (Inr (), (s\<lparr>om_alerts := al\<rparr>,
      wd\<lparr>wd_tripped := filter (\<lambda>y. y \<noteq> x) (wd_tripped wd)\<rparr>))"
    using restore_run by blast
  from Cons [of "s\<lparr>om_alerts := al\<rparr>" "wd\<lparr>wd_tripped := filter (\<lambda>y. y \<noteq> x) (wd_tripped wd)\<rparr>"]
  show ?case by (auto simp: seq_run [of "restore E x", OF 1])
qed

definition cancel_failed :: "'w om \<Rightarrow> bool" where
  "cancel_failed s \<longleftrightarrow> (\<exists>a \<in> set (om_alerts s). al_kind a = ''watchdog_cancel_failed'')"

lemma cancel_if_tripped_run:
  assumes "cancel_if_tripped E (s, wd) = (Inr u, (s', wd'))"
  shows "wd_tripped wd' = wd_tripped wd \<and> (wd_tripped wd = [] \<or> wd_cancel_done wd' \<or> cancel_failed s')"
proof (cases "wd_tripped wd \<noteq> [] \<and> \<not> wd_cancel_done wd")
  case True
  with assms show ?thesis
    by (auto simp: cancel_if_tripped_def pair_run when_do_def catch_unavailable_def upd_wd_def on_side_def
        cancel_failed_def send_alert_def on_om_def modif_def bnd_def
        split: prod.splits sum.splits exn.splits)
next
  case False
  with assms show ?thesis
    by (auto simp: cancel_if_tripped_def pair_run when_do_def ret_def)
qed

text \<open>The check returns whenever the cancellation it may ask for does.\<close>

lemma watchdog_check_returns:
  assumes "\<And>al r. \<exists>xs t. cancel_pending_entries E r (s\<lparr>om_alerts := al\<rparr>) = (Inr xs, t)"
  shows "\<exists>lost s' wd'. watchdog_check E (s, wd) = (Inr lost, (s', wd'))"
proof -
  let ?lost = "silent (oe_cfg E) wd (om_now E s)"
  obtain al wd1 where 1: "for_each (trip E) ?lost (s, wd) = (Inr (), (s\<lparr>om_alerts := al\<rparr>, wd1))"
    using trips_run by blast
  let ?returned = "sort (filter (\<lambda>x. x \<notin> set ?lost) (wd_tripped wd1))"
  obtain al' wd2 where 2: "for_each (restore E) ?returned (s\<lparr>om_alerts := al\<rparr>, wd1) = (Inr (), (s\<lparr>om_alerts := al'\<rparr>, wd2))"
    using restores_run [of E ?returned "s\<lparr>om_alerts := al\<rparr>" wd1] by auto
  obtain xs t where 3: "cancel_pending_entries E (''watchdog: '' @ join_with '','' (sort (wd_tripped wd2)))
      (s\<lparr>om_alerts := al'\<rparr>) = (Inr xs, t)"
    using assms by blast
  have "\<exists>t wd3. cancel_if_tripped E (s\<lparr>om_alerts := al'\<rparr>, wd2) = (Inr (), (t, wd3))"
    unfolding cancel_if_tripped_def
    using 3 by (simp add: pair_run when_do_def ret_run catch_unavailable_def upd_wd_def on_side_run)
  then obtain t wd3 where 4: "cancel_if_tripped E (s\<lparr>om_alerts := al'\<rparr>, wd2) = (Inr (), (t, wd3))" by blast
  show ?thesis
    by (simp add: watchdog_check_def pair_run gets_def seq_run [of "for_each (trip E) ?lost", OF 1]
      seq_run [of "for_each (restore E) ?returned", OF 2] seq_run [of "cancel_if_tripped E", OF 4] on_side_run)
qed

text \<open>A watchdog check names exactly the watched services silent beyond the timeout, remembers them as
  tripped, and has either cancelled the resting entry orders since the last trip or alerted that it could not.\<close>

theorem watchdog_verdict:
  assumes "watchdog_check E (s, wd) = (Inr lost, (s', wd'))"
  shows "set lost = set (silent (oe_cfg E) wd (om_now E s)) \<and> set (wd_tripped wd') = set lost \<and>
    (lost \<noteq> [] \<longrightarrow> wd_cancel_done wd' \<or> cancel_failed s')"
proof -
  let ?lost = "silent (oe_cfg E) wd (om_now E s)"
  obtain al wd1 where 1: "for_each (trip E) ?lost (s, wd) = (Inr (), (s\<lparr>om_alerts := al\<rparr>, wd1))"
      "set (wd_tripped wd1) = set (wd_tripped wd) \<union> set ?lost"
    using trips_run by blast
  obtain al' wd2 where 2: "for_each (restore E) (sort (filter (\<lambda>x. x \<notin> set ?lost) (wd_tripped wd1)))
      (s\<lparr>om_alerts := al\<rparr>, wd1) = (Inr (), (s\<lparr>om_alerts := al'\<rparr>, wd2))"
      "set (wd_tripped wd2) = set ?lost"
    using restores_run [of E "sort (filter (\<lambda>x. x \<notin> set ?lost) (wd_tripped wd1))" "s\<lparr>om_alerts := al\<rparr>" wd1] 1(2)
    by auto
  have "seq (cancel_if_tripped E) (on_side (\<lambda>wd. (sort (wd_tripped wd), wd))) (s\<lparr>om_alerts := al'\<rparr>, wd2) =
      (Inr lost, (s', wd'))"
    using assms 
    by (simp add: watchdog_check_def pair_run gets_def seq_run [of "for_each (trip E) ?lost", OF 1(1)]
      seq_run [of "for_each (restore E) (sort (filter (\<lambda>x. x \<notin> set ?lost) (wd_tripped wd1)))", OF 2(1)])
  then have "cancel_if_tripped E (s\<lparr>om_alerts := al'\<rparr>, wd2) = (Inr (), (s', wd'))" "lost = sort (wd_tripped wd')"
    by (auto simp: seq_def bnd_def on_side_def split: prod.splits sum.splits)
  with cancel_if_tripped_run [OF this(1)] 2(2) show ?thesis by auto
qed

definition watching :: "fake om \<times> watchdog" where
  "watching = (bal_om Clean [] Missing [], watchdog_init (- delta_seconds 1000))"

lemma watching_lost: "silent (oe_cfg bal_env) (snd watching) (om_now bal_env (fst watching)) = [''engine'', ''risk-gate'']"
  by (simp add: watching_def silent_def last_seen_def watchdog_timeout_def watchdog_init_def bal_om_def sync_defs)

lemma watching_cancel:
  "\<exists>xs t. cancel_pending_entries bal_env r ((fst watching)\<lparr>om_alerts := al\<rparr>) = (Inr xs, t)"
  by (simp add: cancel_pending_entries_def watching_def bal_om_def sync_defs)

theorem watchdog_verdict_witness:
  "\<exists>lost s' wd'. watchdog_check bal_env watching = (Inr lost, (s', wd')) \<and>
     set lost = {''engine'', ''risk-gate''} \<and> set (wd_tripped wd') = {''engine'', ''risk-gate''}"
proof -
  obtain lost s' wd' where 1: "watchdog_check bal_env (fst watching, snd watching) = (Inr lost, (s', wd'))"
    using watchdog_check_returns [OF watching_cancel] by blast
  from watchdog_verdict [OF 1] 1 show ?thesis by (auto simp: watching_lost)
qed
end
