(* ===== verification/Ledger.thy ===== *)
theory Ledger
  imports Prelude
begin

text \<open>
  The append-only JSON Lines ledger (\<open>core/ledger.py\<close>). The file is the list of its records as parsed
  (blank lines are skipped by every reader). The hash of a record is \<open>sha256_hex(prev + canonical_json(body))\<close>,
  the parameter \<open>le_digest\<close>; the length of a line in the file is the parameter \<open>le_size\<close>. The payload type is
  the user's. Every process has its own cache of the last hash; the file is shared.
\<close>

record 'p ledger_record =
  lr_kind :: string
  lr_at :: time
  lr_payload :: 'p
  lr_prev :: string
  lr_hash :: string

record 'p ledger_env =
  le_digest :: "string \<Rightarrow> string \<times> time \<times> 'p \<Rightarrow> string"
  le_size :: "'p ledger_record \<Rightarrow> nat"

record 'p ledger =
  lg_file :: "'p ledger_record list"
  lg_tail :: "(nat \<times> string) option"

definition genesis :: string where
  "genesis = replicate 64 CHR ''0''"

definition body_of :: "'p ledger_record \<Rightarrow> string \<times> time \<times> 'p" where
  "body_of r = (lr_kind r, lr_at r, lr_payload r)"

definition file_size :: "'p ledger_env \<Rightarrow> 'p ledger_record list \<Rightarrow> nat" where
  "file_size E f = sum_list (map (le_size E) f)"

text \<open>The hash of the last record as a full scan finds it.\<close>

definition scan_hash :: "'p ledger_record list \<Rightarrow> string" where
  "scan_hash f = fold (\<lambda>r _. lr_hash r) f genesis"

definition last_hash :: "'p ledger_env \<Rightarrow> 'p ledger \<Rightarrow> string" where
  "last_hash E l = (case lg_tail l of
     None \<Rightarrow> scan_hash (lg_file l)
   | Some (n, h) \<Rightarrow> if n = file_size E (lg_file l) then h else scan_hash (lg_file l))"

definition ledger_append :: "'p ledger_env \<Rightarrow> string \<Rightarrow> 'p \<Rightarrow> time \<Rightarrow> 'p ledger \<Rightarrow> string \<times> 'p ledger" where
  "ledger_append E kind payload now l =
     (let prev = last_hash E l;
          h = le_digest E prev (kind, now, payload);
          f = lg_file l @ [\<lparr>lr_kind = kind, lr_at = now, lr_payload = payload, lr_prev = prev, lr_hash = h\<rparr>]
      in (h, l\<lparr>lg_file := f, lg_tail := Some (file_size E f, h)\<rparr>))"

definition ledger_records :: "string option \<Rightarrow> 'p ledger \<Rightarrow> 'p ledger_record list" where
  "ledger_records kind l = filter (\<lambda>r. kind = None \<or> kind = Some (lr_kind r)) (lg_file l)"

fun verify_from :: "'p ledger_env \<Rightarrow> string \<Rightarrow> nat \<Rightarrow> 'p ledger_record list \<Rightarrow> exn + nat" where
  "verify_from E prev n [] = Inr n"
| "verify_from E prev n (r # rs) =
     (if lr_prev r \<noteq> prev \<or> lr_hash r \<noteq> le_digest E prev (body_of r) then Inl (LedgerCorrupt n)
      else verify_from E (lr_hash r) (n + 1) rs)"

definition ledger_verify :: "'p ledger_env \<Rightarrow> 'p ledger \<Rightarrow> exn + nat" where
  "ledger_verify E l = verify_from E genesis 0 (ledger_records None l)"

section \<open>Facts\<close>

lemma scan_simps [simp]: "scan_hash [] = genesis" "scan_hash (f @ [r]) = lr_hash r"
  by (simp_all add: scan_hash_def)

lemma records_all [simp]: "ledger_records None l = lg_file l"
  by (simp add: ledger_records_def)

lemma verify_from_snoc:
  "verify_from E prev n (f @ [r]) = Inr m \<longleftrightarrow>
     verify_from E prev n f = Inr (n + length f) \<and> m = Suc (n + length f) \<and>
     lr_prev r = fold (\<lambda>r _. lr_hash r) f prev \<and> lr_hash r = le_digest E (lr_prev r) (body_of r)"
  by (induction f arbitrary: prev n) auto

definition chained :: "'p ledger_env \<Rightarrow> 'p ledger_record list \<Rightarrow> bool" where
  "chained E f \<longleftrightarrow> verify_from E genesis 0 f = Inr (length f)"

lemma chained_Nil [simp]: "chained E []"
  by (simp add: chained_def)

lemma chained_snoc [simp]:
  "chained E (f @ [r]) \<longleftrightarrow>
     chained E f \<and> lr_prev r = scan_hash f \<and> lr_hash r = le_digest E (lr_prev r) (body_of r)"
  by (simp add: chained_def verify_from_snoc scan_hash_def)

lemma verify_from_count: "verify_from E prev n f = Inr m \<Longrightarrow> m = n + length f"
  by (induction f arbitrary: prev n) (fastforce split: if_splits)+

lemma verify_chained: "ledger_verify E l = Inr n \<longleftrightarrow> chained E (lg_file l) \<and> n = length (lg_file l)"
  using verify_from_count [of E genesis 0 "lg_file l" n] by (auto simp: ledger_verify_def chained_def)

section \<open>Several processes on one file\<close>

text \<open>Process \<open>i\<close> has the cache \<open>tails i\<close>; all share the file.\<close>

definition process_append ::
  "'p ledger_env \<Rightarrow> nat \<times> string \<times> 'p \<times> time \<Rightarrow>
    'p ledger_record list \<times> (nat \<Rightarrow> (nat \<times> string) option) \<Rightarrow>
    'p ledger_record list \<times> (nat \<Rightarrow> (nat \<times> string) option)" where
  "process_append E = (\<lambda>(i, kind, payload, now) (f, tails).
     (let l = snd (ledger_append E kind payload now \<lparr>lg_file = f, lg_tail = tails i\<rparr>)
      in (lg_file l, tails(i := lg_tail l))))"

definition shared_run ::
  "'p ledger_env \<Rightarrow> (nat \<times> string \<times> 'p \<times> time) list \<Rightarrow>
    'p ledger_record list \<times> (nat \<Rightarrow> (nat \<times> string) option)" where
  "shared_run E xs = fold (process_append E) xs ([], \<lambda>_. None)"

text \<open>A cache is the size and the last hash of some earlier file.\<close>

definition tail_ok :: "'p ledger_env \<Rightarrow> 'p ledger_record list \<Rightarrow> (nat \<times> string) option \<Rightarrow> bool" where
  "tail_ok E f t \<longleftrightarrow>
     (\<forall>n h. t = Some (n, h) \<longrightarrow> (\<exists>k \<le> length f. n = file_size E (take k f) \<and> h = scan_hash (take k f)))"

lemma tail_ok_None [simp]: "tail_ok E f None"
  by (simp add: tail_ok_def)

lemma tail_ok_own [simp]: "tail_ok E f (Some (file_size E f, scan_hash f))"
  by (auto simp: tail_ok_def intro!: exI [of _ "length f"])

lemma tail_ok_grow:
  assumes "tail_ok E f t"
  shows "tail_ok E (f @ g) t"
  unfolding tail_ok_def
proof (intro allI impI)
  fix n h
  assume "t = Some (n, h)"
  with assms obtain k where "k \<le> length f" "n = file_size E (take k f)" "h = scan_hash (take k f)"
    by (auto simp: tail_ok_def)
  then show "\<exists>k \<le> length (f @ g). n = file_size E (take k (f @ g)) \<and> h = scan_hash (take k (f @ g))"
    by (intro exI [of _ k]) simp
qed

lemma file_size_take:
  assumes "\<And>r. 0 < le_size E r" and "k \<le> length f" and "file_size E (take k f) = file_size E f"
  shows "k = length f"
proof (rule ccontr)
  assume "k \<noteq> length f"
  with assms(2) have "drop k f \<noteq> []" by simp
  then obtain r g where "drop k f = r # g" by (cases "drop k f") auto
  moreover have "file_size E f = file_size E (take k f) + file_size E (drop k f)"
    by (metis append_take_drop_id file_size_def map_append sum_list_append)
  ultimately show False
    using assms(1) [of r] assms(3) by (simp add: file_size_def)
qed

lemma last_hash_scan:
  assumes "\<And>r. 0 < le_size E r" and "tail_ok E (lg_file l) (lg_tail l)"
  shows "last_hash E l = scan_hash (lg_file l)"
proof (cases "lg_tail l")
  case (Some p)
  then obtain n h where p: "lg_tail l = Some (n, h)" by (cases p) simp
  with assms(2) obtain k where k: "k \<le> length (lg_file l)" "n = file_size E (take k (lg_file l))"
      "h = scan_hash (take k (lg_file l))"
    by (auto simp: tail_ok_def)
  show ?thesis
  proof (cases "n = file_size E (lg_file l)")
    case True
    with k(2) have "k = length (lg_file l)" by (intro file_size_take [OF assms(1) k(1)]) simp
    with k p True show ?thesis by (simp add: last_hash_def)
  qed (simp add: last_hash_def p)
qed (simp add: last_hash_def)

lemma append_chained:
  assumes "\<And>r. 0 < le_size E r" and "tail_ok E (lg_file l) (lg_tail l)" and "chained E (lg_file l)"
  shows "chained E (lg_file (snd (ledger_append E kind p now l)))"
    and "tail_ok E (lg_file (snd (ledger_append E kind p now l))) (lg_tail (snd (ledger_append E kind p now l)))"
proof -
  let ?l = "snd (ledger_append E kind p now l)"
  let ?r = "last (lg_file ?l)"
  have f: "lg_file ?l = lg_file l @ [?r]" "lg_tail ?l = Some (file_size E (lg_file ?l), lr_hash ?r)"
    by (simp_all add: ledger_append_def Let_def)
  have r: "lr_prev ?r = scan_hash (lg_file l)" "lr_hash ?r = le_digest E (lr_prev ?r) (body_of ?r)"
    using last_hash_scan [OF assms(1,2)] by (simp_all add: ledger_append_def Let_def body_of_def)
  show "chained E (lg_file ?l)" using assms(3) r by (subst f) simp
  have "scan_hash (lg_file ?l) = lr_hash ?r" by (subst f) simp
  then show "tail_ok E (lg_file ?l) (lg_tail ?l)" using f(2) tail_ok_own [of E "lg_file ?l"] by simp
qed

end
