(* ===== verification/Registry.thy ===== *)
theory Registry
  imports Core_Models Ledger
begin

text \<open>
  The strategy registry and the promotion ladder (\<open>lifecycle/registry.py\<close>, with the backtest profile of
  \<open>core/profile.py\<close>). The state of every version is a replay of the ledger. A payload is its parsed
  document; \<open>params\<close> of a version are opaque (name and JSON text). The registry's clock and the wall clock
  of the ledger are fields the environment moves between operations. The callback is the queue of the
  lifecycle service.
\<close>

section \<open>Versions\<close>

datatype origin = Trader | ResearchAgent | OwnerOrigin | LearningReopt | LearningMeta | LearningRegime

fun learned :: "origin \<Rightarrow> bool" where
  "learned LearningReopt = True"
| "learned LearningMeta = True"
| "learned LearningRegime = True"
| "learned _ = False"

datatype actor = EvaluatorActor | ValidationActor | OwnerActor | LearningActor

definition paper_on :: string where "paper_on = ''owner: paper trading''"
definition paper_off :: string where "paper_off = ''owner: back to shadow''"
definition swap_in :: string where "swap_in = ''swap: replaces''"
definition swap_out :: string where "swap_out = ''swap: replaced by''"
definition rollback_reason :: string where "rollback_reason = ''rollback:''"

definition allowed :: "(stage \<times> stage) list" where
  "allowed = [(Candidate, Shadow), (Shadow, Micro), (Micro, Live), (Live, Scaled), (Scaled, Live),
     (Live, Micro), (Micro, Retired), (Micro, Shadow), (Shadow, Retired), (Candidate, Retired),
     (Shadow, DemoOnly), (DemoOnly, Shadow), (DemoOnly, Retired)]"

definition money_stages :: "stage list" where
  "money_stages = [Micro, Live, Scaled]"

definition demotions :: "(stage \<times> stage) list" where
  "demotions = [(Scaled, Live), (Live, Micro), (Micro, Shadow), (Micro, Retired)]"

record version_info =
  vi_strategy_id :: string
  vi_version :: string
  vi_family :: string
  vi_origin :: origin
  vi_demo_only :: bool
  vi_code_hash :: string
  vi_params :: "(string, string) dict"
  vi_parent_version :: "string option"
  vi_created_by :: string
  vi_tenant_id :: string

record backtest_profile =
  bf_strategy_id :: string
  bf_strategy_version :: string
  bf_trade_r :: "flt list"
  bf_weekly_entries :: "int list"
  bf_mc_dd_p95_r :: flt
  bf_model_slippage :: "(string, flt) dict"
  bf_source :: string
  bf_synthetic :: bool

text \<open>A metric value; \<open>MInf\<close> is the infinite float of a profit factor without losses, \<open>MReal\<close> a Sharpe ratio.\<close>

datatype metric = MNum flt | MReal real | MInf | MInt int | MStr string | MBool bool | MNone

record stage_record =
  sr_strategy_id :: string
  sr_version :: string
  sr_from :: "stage option"
  sr_to :: stage
  sr_reason :: string
  sr_actor :: actor
  sr_metrics :: "(string, metric) dict"
  sr_at :: time

record version_state =
  vs_info :: version_info
  vs_stage :: stage
  vs_since :: time
  vs_history :: "stage_record list"
  vs_profile :: "backtest_profile option"

type_synonym version_key = "string \<times> string"

definition info_key :: "version_info \<Rightarrow> version_key" where
  "info_key i = (vi_strategy_id i, vi_version i)"

definition vs_key :: "version_state \<Rightarrow> version_key" where
  "vs_key v = info_key (vs_info v)"

definition is_demotion :: "stage_record \<Rightarrow> bool" where
  "is_demotion h = (case sr_from h of None \<Rightarrow> False | Some frm \<Rightarrow> (frm, sr_to h) \<in> set demotions)"

definition demotions_since :: "version_state \<Rightarrow> time \<Rightarrow> nat" where
  "demotions_since v t = length (filter (\<lambda>h. sr_at h \<ge> t \<and> is_demotion h) (vs_history v))"

definition money_since :: "version_state \<Rightarrow> time option" where
  "money_since v =
     (if vs_stage v \<notin> set money_stages then None
      else fold (\<lambda>h start. if sr_to h = Micro \<and> sr_from h = Some Shadow then Some (sr_at h) else start)
             (vs_history v) None)"

section \<open>The ledger's records and their replay\<close>

record swap_trial =
  st_at :: time
  st_strategy_id :: string
  st_champion :: string
  st_challenger :: string
  st_k :: nat
  st_swap :: bool
  st_diff :: "flt option"
  st_p_value :: "flt option"
  st_champion_dd :: "flt option"
  st_challenger_dd :: "flt option"
  st_champion_signals :: nat
  st_challenger_signals :: nat
  st_reasons :: "fmt list"

datatype registry_payload =
    PVersion version_info time
  | PProfile backtest_profile
  | PSwapTest swap_trial
  | PStage stage_record

type_synonym tables = "(version_key, version_state) dict \<times> swap_trial list"

definition first_record :: "version_info \<Rightarrow> time \<Rightarrow> stage_record" where
  "first_record i t = \<lparr>sr_strategy_id = vi_strategy_id i, sr_version = vi_version i, sr_from = None,
     sr_to = Candidate, sr_reason = ''submitted'', sr_actor = ValidationActor, sr_metrics = [], sr_at = t\<rparr>"

definition new_version :: "version_info \<Rightarrow> time \<Rightarrow> version_state" where
  "new_version i t = \<lparr>vs_info = i, vs_stage = Candidate, vs_since = t, vs_history = [first_record i t],
     vs_profile = None\<rparr>"

definition staged :: "stage_record \<Rightarrow> version_state \<Rightarrow> version_state" where
  "staged r v = v\<lparr>vs_stage := sr_to r, vs_since := sr_at r, vs_history := vs_history v @ [r]\<rparr>"

definition unknown_version :: "version_key \<Rightarrow> exn" where
  "unknown_version k = KeyErr (fst k @ '' '' @ snd k)"

text \<open>A payload of another shape than its kind fails the validation.\<close>

definition apply_record :: "string \<Rightarrow> registry_payload \<Rightarrow> tables \<Rightarrow> exn + tables" where
  "apply_record kind p tb = (case tb of (vs, tests) \<Rightarrow>
     if kind = ''strategy_version''
     then (case p of PVersion i t \<Rightarrow> Inr (dict_set (info_key i) (new_version i t) vs, tests)
           | _ \<Rightarrow> Inl (ValueErr kind))
     else if kind = ''profile''
     then (case p of PProfile prof \<Rightarrow>
             let k = (bf_strategy_id prof, bf_strategy_version prof) in
             (case dict_get vs k of None \<Rightarrow> Inl (unknown_version k)
              | Some v \<Rightarrow> Inr (dict_set k (v\<lparr>vs_profile := Some prof\<rparr>) vs, tests))
           | _ \<Rightarrow> Inl (ValueErr kind))
     else if kind = ''swap_test''
     then (case p of PSwapTest t \<Rightarrow> Inr (vs, tests @ [t]) | _ \<Rightarrow> Inl (ValueErr kind))
     else if kind = ''stage_change''
     then (case p of PStage r \<Rightarrow>
             let k = (sr_strategy_id r, sr_version r) in
             (case dict_get vs k of None \<Rightarrow> Inl (unknown_version k)
              | Some v \<Rightarrow> Inr (dict_set k (staged r v) vs, tests))
           | _ \<Rightarrow> Inl (ValueErr kind))
     else Inr (vs, tests))"

fun replay :: "registry_payload ledger_record list \<Rightarrow> tables \<Rightarrow> exn + tables" where
  "replay [] tb = Inr tb"
| "replay (r # rs) tb = sbind (apply_record (lr_kind r) (lr_payload r) tb) (replay rs)"

section \<open>The registry\<close>

record registry =
  rg_ledger :: "registry_payload ledger"
  rg_versions :: "(version_key, version_state) dict"
  rg_swap_tests :: "swap_trial list"
  rg_now :: time
  rg_wall :: time
  rg_alerts :: "alert list"
  rg_changes :: "stage_changed list"

type_synonym registry_env = "registry_payload ledger_env"

text \<open>\<open>__init__\<close>: a process opens the ledger file and replays it.\<close>

definition registry_init :: "registry_payload ledger_record list \<Rightarrow> time \<Rightarrow> time \<Rightarrow> exn + registry" where
  "registry_init f now wall =
     sbind (replay (ledger_records None \<lparr>lg_file = f, lg_tail = None\<rparr>) ([], [])) (\<lambda>(vs, tests).
       Inr \<lparr>rg_ledger = \<lparr>lg_file = f, lg_tail = None\<rparr>, rg_versions = vs, rg_swap_tests = tests,
            rg_now = now, rg_wall = wall, rg_alerts = [], rg_changes = []\<rparr>)"

definition get_version :: "version_key \<Rightarrow> (registry, version_state) se" where
  "get_version k = bnd (gets (\<lambda>g. dict_get (rg_versions g) k)) (\<lambda>r. case r of
     None \<Rightarrow> raise (unknown_version k) | Some v \<Rightarrow> ret v)"

definition versions :: "stage option \<Rightarrow> registry \<Rightarrow> version_state list" where
  "versions st g = filter (\<lambda>v. st = None \<or> st = Some (vs_stage v)) (dict_values (rg_versions g))"

definition stages :: "registry \<Rightarrow> (version_key, stage) dict" where
  "stages g = map (\<lambda>(k, v). (k, vs_stage v)) (rg_versions g)"

definition promotions_to :: "stage \<Rightarrow> time \<Rightarrow> registry \<Rightarrow> nat" where
  "promotions_to st since g =
     length (filter (\<lambda>h. sr_to h = st \<and> sr_at h \<ge> since)
       (concat (map vs_history (dict_values (rg_versions g)))))"

text \<open>\<open>self.ledger.append(kind, payload)\<close> and then \<open>self._apply(kind, payload)\<close>.\<close>

definition append_apply :: "registry_env \<Rightarrow> string \<Rightarrow> registry_payload \<Rightarrow> (registry, unit) se" where
  "append_apply E kind p = (\<lambda>g.
     let g1 = g\<lparr>rg_ledger := snd (ledger_append E kind p (rg_wall g) (rg_ledger g))\<rparr>
     in case apply_record kind p (rg_versions g1, rg_swap_tests g1) of
          Inl e \<Rightarrow> (Inl e, g1)
        | Inr (vs, tests) \<Rightarrow> (Inr (), g1\<lparr>rg_versions := vs, rg_swap_tests := tests\<rparr>))"

definition registry_alert ::
  "alert_severity \<Rightarrow> string \<Rightarrow> fmt \<Rightarrow> (string \<times> string) list \<Rightarrow> (registry, unit) se" where
  "registry_alert sev kind msg details =
     modif (\<lambda>g. g\<lparr>rg_alerts := rg_alerts g @
       [\<lparr>al_severity = sev, al_kind = kind, al_message = msg, al_at = rg_now g, al_details = details\<rparr>]\<rparr>)"

definition set_profile :: "registry_env \<Rightarrow> backtest_profile \<Rightarrow> (registry, unit) se" where
  "set_profile E prof =
     bnd (get_version (bf_strategy_id prof, bf_strategy_version prof)) (\<lambda>_.
       append_apply E ''profile'' (PProfile prof))"

definition submit_candidate ::
  "registry_env \<Rightarrow> version_info \<Rightarrow> backtest_profile option \<Rightarrow> (registry, version_state) se" where
  "submit_candidate E i prof =
     bnd (gets (\<lambda>g. dict_get (rg_versions g) (info_key i))) (\<lambda>old.
       if old \<noteq> None then raise (ValueErr (vi_strategy_id i @ '' already exists; versions are immutable''))
       else
         bnd (gets rg_now) (\<lambda>now.
         seq (append_apply E ''strategy_version'' (PVersion i now))
         (seq (case prof of None \<Rightarrow> ret () | Some p \<Rightarrow> set_profile E p)
              (get_version (info_key i)))))"

definition illegal :: "fmt \<Rightarrow> (registry, 'a) se" where
  "illegal msg = seq (registry_alert Critical ''illegal_transition'' msg []) (raise (IllegalTransition msg))"

definition clean_metrics :: "(string, metric) dict \<Rightarrow> (string, metric) dict" where
  "clean_metrics m = map (\<lambda>(k, x). (k, if x = MInf then MNone else x)) m"

definition record_change ::
  "registry_env \<Rightarrow> version_state \<Rightarrow> stage \<Rightarrow> string \<Rightarrow> actor \<Rightarrow> (string, metric) dict
    \<Rightarrow> (registry, stage_changed) se" where
  "record_change E v to reason actor metrics =
     (let sid = vi_strategy_id (vs_info v); version = vi_version (vs_info v); frm = vs_stage v;
          demotion = (frm, to) \<in> set demotions \<or> to = Retired in
      bnd (gets rg_now) (\<lambda>now.
      let r = \<lparr>sr_strategy_id = sid, sr_version = version, sr_from = Some frm, sr_to = to,
               sr_reason = reason, sr_actor = actor, sr_metrics = clean_metrics metrics, sr_at = now\<rparr>;
          ev = \<lparr>sc_at = now, sc_strategy_id = sid, sc_strategy_version = version, sc_from = frm,
                sc_to = to, sc_reason = reason\<rparr> in
      seq (append_apply E ''stage_change'' (PStage r))
      (seq (registry_alert (if demotion then Warning else Info) (if demotion then ''demotion'' else ''promotion'')
              (''{} {}: {} -> {} ({})'',
               [AStr sid, AStr version, AStr (stage_value frm), AStr (stage_value to), AStr reason])
              [(''strategy_id'', sid), (''version'', version), (''to'', stage_value to)])
      (seq (modif (\<lambda>g. g\<lparr>rg_changes := rg_changes g @ [ev]\<rparr>))
           (ret ev)))))"

text \<open>The legality of \<open>transition\<close>.\<close>

definition legal_transition :: "version_state \<Rightarrow> stage \<Rightarrow> actor \<Rightarrow> bool" where
  "legal_transition v to actor =
     (let frm = vs_stage v; demo = vi_demo_only (vs_info v);
          legal0 = ((frm, to) \<in> set allowed \<or> to = Retired \<and> actor = OwnerActor \<and> frm \<noteq> Retired);
          legal1 = (if demo \<and> frm = Shadow \<and> to \<notin> {Retired, DemoOnly} then False else legal0);
          legal2 = (if to = DemoOnly \<and> \<not> (demo \<and> actor = OwnerActor) then False else legal1)
      in if legal2 \<and> (frm, to) = (Candidate, Shadow) \<and> vs_profile v = None \<and> \<not> demo then False
         else legal2)"

definition transition ::
  "registry_env \<Rightarrow> version_key \<Rightarrow> stage \<Rightarrow> string \<Rightarrow> actor \<Rightarrow> (string, metric) dict
    \<Rightarrow> (registry, stage_changed) se" where
  "transition E k to reason actor metrics =
     bnd (get_version k) (\<lambda>v.
       if \<not> legal_transition v to actor
       then illegal (''illegal transition {} -> {} for {} {} ({})'',
              [AStr (stage_value (vs_stage v)), AStr (stage_value to), AStr (fst k), AStr (snd k), AStr reason])
       else record_change E v to reason actor metrics)"

section \<open>Champion and challenger\<close>

definition swap_legal :: "version_state \<Rightarrow> version_state \<Rightarrow> string \<Rightarrow> bool" where
  "swap_legal champ chal champion \<longleftrightarrow>
     learned (vi_origin (vs_info chal)) \<and> vi_parent_version (vs_info chal) = Some champion \<and>
     vs_stage chal = Shadow \<and> vs_stage champ \<in> set money_stages"

definition swap ::
  "registry_env \<Rightarrow> string \<Rightarrow> string \<Rightarrow> string \<Rightarrow> string \<Rightarrow> (string, metric) dict
    \<Rightarrow> (registry, stage_changed \<times> stage_changed) se" where
  "swap E sid champion challenger reason metrics =
     bnd (get_version (sid, champion)) (\<lambda>champ.
     bnd (get_version (sid, challenger)) (\<lambda>chal.
       if \<not> swap_legal champ chal champion
       then illegal (''illegal swap {} {} ({}) <- {} ({}): {}'',
              [AStr sid, AStr champion, AStr (stage_value (vs_stage champ)), AStr challenger,
               AStr (stage_value (vs_stage chal)), AStr reason])
       else
         bnd (record_change E chal (vs_stage champ) (swap_in @ '' '' @ champion @ '': '' @ reason)
                EvaluatorActor metrics) (\<lambda>a.
         bnd (record_change E champ Shadow
                (swap_out @ '' '' @ challenger @ ''; kept in shadow for rollback'') EvaluatorActor []) (\<lambda>b.
           ret (a, b)))))"

text \<open>The old champion's version, parsed back from the reason of the swap.\<close>

definition swapped_from :: "string \<Rightarrow> string" where
  "swapped_from reason = strip (takeWhile (\<lambda>c. c \<noteq> CHR '':'') (drop (length swap_in) reason))"

definition later_swap ::
  "stage_record \<Rightarrow> (time \<times> string \<times> string \<times> stage) option \<Rightarrow> (time \<times> string \<times> string \<times> stage) option" where
  "later_swap h best =
     (if starts_with swap_in (sr_reason h) \<and> (case best of None \<Rightarrow> True | Some b \<Rightarrow> sr_at h > fst b)
      then Some (sr_at h, sr_version h, swapped_from (sr_reason h), sr_to h) else best)"

definition last_swap :: "string \<Rightarrow> registry \<Rightarrow> (time \<times> string \<times> string \<times> stage) option" where
  "last_swap sid g =
     fold later_swap
       (concat (map vs_history
          (filter (\<lambda>v. vi_strategy_id (vs_info v) = sid) (dict_values (rg_versions g))))) None"

definition rollback :: "registry_env \<Rightarrow> string \<Rightarrow> string \<Rightarrow> (registry, stage_changed list) se" where
  "rollback E sid reason =
     bnd (gets (last_swap sid)) (\<lambda>r. case r of
       None \<Rightarrow> illegal (''no swap to roll back for {}: {}'', [AStr sid, AStr reason])
     | Some (_, new, old, stage) \<Rightarrow>
         bnd (get_version (sid, old)) (\<lambda>old_v.
         bnd (get_version (sid, new)) (\<lambda>new_v.
           if vs_stage old_v \<noteq> Shadow
           then illegal (''cannot roll back {}: {} is {}, not shadow'',
                  [AStr sid, AStr old, AStr (stage_value (vs_stage old_v))])
           else
             bnd (if vs_stage new_v \<noteq> Shadow
                  then bnd (record_change E new_v Shadow (rollback_reason @ '' '' @ old @ '': '' @ reason)
                              EvaluatorActor []) (\<lambda>ev. ret [ev])
                  else ret []) (\<lambda>out.
             bnd (record_change E old_v stage
                    (rollback_reason @ '' restored over '' @ new @ '': '' @ reason) EvaluatorActor []) (\<lambda>ev.
               ret (out @ [ev]))))))"

definition record_swap_test :: "registry_env \<Rightarrow> swap_trial \<Rightarrow> (registry, unit) se" where
  "record_swap_test E t = append_apply E ''swap_test'' (PSwapTest t)"

section \<open>Validation's verdict and the owner's commands\<close>

definition promote_candidate ::
  "registry_env \<Rightarrow> version_key \<Rightarrow> bool \<Rightarrow> bool \<Rightarrow> (registry, stage_changed) se" where
  "promote_candidate E k validation_passed synthetic =
     bnd (get_version k) (\<lambda>v.
       if vi_demo_only (vs_info v)
       then transition E k Shadow ''demo_only: plumbing test'' ValidationActor []
       else if validation_passed \<and> \<not> synthetic
       then transition E k Shadow ''passed validation'' ValidationActor []
       else transition E k Retired
              (if \<not> validation_passed then ''failed validation'' else ''validated on synthetic data only'')
              ValidationActor [])"

definition retire :: "registry_env \<Rightarrow> version_key \<Rightarrow> string \<Rightarrow> (registry, stage_changed) se" where
  "retire E k reason = transition E k Retired reason OwnerActor []"

definition paper_trade :: "registry_env \<Rightarrow> version_key \<Rightarrow> bool \<Rightarrow> (registry, stage_changed) se" where
  "paper_trade E k on =
     transition E k (if on then DemoOnly else Shadow) (if on then paper_on else paper_off) OwnerActor []"

section \<open>Runs\<close>

text \<open>Everything that can happen to a registry: its operations, and the clocks moving.\<close>

datatype registry_op =
    RgSubmit version_info "backtest_profile option"
  | RgProfile backtest_profile
  | RgTransition version_key stage string actor "(string, metric) dict"
  | RgSwap string string string string "(string, metric) dict"
  | RgRollback string string
  | RgSwapTest swap_trial
  | RgPromote version_key bool bool
  | RgRetire version_key string
  | RgPaper version_key bool
  | RgClock time time

definition no_result :: "('s, 'a) se \<Rightarrow> ('s, unit) se" where
  "no_result m = bnd m (\<lambda>_. ret ())"

fun registry_do :: "registry_env \<Rightarrow> registry_op \<Rightarrow> (registry, unit) se" where
  "registry_do E (RgSubmit i p) = no_result (submit_candidate E i p)"
| "registry_do E (RgProfile p) = set_profile E p"
| "registry_do E (RgTransition k to reason a m) = no_result (transition E k to reason a m)"
| "registry_do E (RgSwap sid champ chal reason m) = no_result (swap E sid champ chal reason m)"
| "registry_do E (RgRollback sid reason) = no_result (rollback E sid reason)"
| "registry_do E (RgSwapTest t) = record_swap_test E t"
| "registry_do E (RgPromote k passed synth) = no_result (promote_candidate E k passed synth)"
| "registry_do E (RgRetire k reason) = no_result (retire E k reason)"
| "registry_do E (RgPaper k on) = no_result (paper_trade E k on)"
| "registry_do E (RgClock now wall) = modif (\<lambda>g. g\<lparr>rg_now := now, rg_wall := wall\<rparr>)"

fun registry_run :: "registry_env \<Rightarrow> registry_op list \<Rightarrow> registry \<Rightarrow> registry" where
  "registry_run E [] g = g"
| "registry_run E (x # xs) g = registry_run E xs (snd (registry_do E x g))"

definition empty_registry :: registry where
  "empty_registry = \<lparr>rg_ledger = \<lparr>lg_file = [], lg_tail = None\<rparr>, rg_versions = [], rg_swap_tests = [],
     rg_now = 0, rg_wall = 0, rg_alerts = [], rg_changes = []\<rparr>"

end
