(* ===== verification/Ledger_Properties.thy ===== *)
theory Ledger_Properties
  imports Ledger
begin

text \<open>
  The ledger is a chain whatever processes append to it, and tampering shows.
\<close>

definition lines_nonempty :: "'p ledger_env \<Rightarrow> bool" where
  "lines_nonempty E \<longleftrightarrow> (\<forall>r. 0 < le_size E r)"

lemma process_append_run:
  assumes "lines_nonempty E" and "chained E f" and "\<forall>i. tail_ok E f (tails i)"
    and "process_append E x (f, tails) = (f', tails')"
  shows "chained E f' \<and> (\<forall>i. tail_ok E f' (tails' i)) \<and> length f' = Suc (length f)"
proof -
  obtain i kind p now where x: "x = (i, kind, p, now)" by (cases x)
  let ?l = "\<lparr>lg_file = f, lg_tail = tails i\<rparr>"
  let ?l' = "snd (ledger_append E kind p now ?l)"
  have f': "f' = lg_file ?l'" "tails' = tails(i := lg_tail ?l')"
    using assms(4) by (simp_all add: x process_append_def Let_def)
  have grow: "\<exists>r. lg_file ?l' = f @ [r]" by (simp add: ledger_append_def Let_def)
  have "chained E f'" "tail_ok E f' (lg_tail ?l')"
    using append_chained [of E ?l kind p now] assms(1-3) f'(1) by (simp_all add: lines_nonempty_def)
  moreover have "tail_ok E f' (tails j)" for j
    using grow assms(3) f'(1) tail_ok_grow [of E f "tails j"] by auto
  ultimately show ?thesis using grow f' by auto
qed

text \<open>C23. Any number of processes may append to one ledger file in any order: each process's cached last hash
  is what a scan of the file would find, so the records form one unbroken chain and the check counts them
  all.\<close>

theorem shared_ledger_chained:
  assumes "lines_nonempty E" and "shared_run E xs = (f, tails)"
  shows "ledger_verify E \<lparr>lg_file = f, lg_tail = tails i\<rparr> = Inr (length xs) \<and>
    last_hash E \<lparr>lg_file = f, lg_tail = tails i\<rparr> = scan_hash f"
proof -
  have "chained E f' \<and> (\<forall>i. tail_ok E f' (tails' i)) \<and> length f' = length f0 + length xs"
    if "fold (process_append E) xs (f0, t0) = (f', tails')" "chained E f0" "\<forall>i. tail_ok E f0 (t0 i)"
    for f0 t0 f' tails'
    using that
  proof (induction xs arbitrary: f0 t0)
    case (Cons x xs)
    obtain f1 t1 where 1: "process_append E x (f0, t0) = (f1, t1)" by fastforce
    show ?case
      using process_append_run [OF assms(1) Cons.prems(2,3) 1] Cons.IH [of f1 t1] Cons.prems(1) 1 by simp
  qed simp
  from this [of "[]" "\<lambda>_. None" f tails] assms(2)
  have "chained E f" "\<forall>i. tail_ok E f (tails i)" "length f = length xs"
    by (simp_all add: shared_run_def)
  then show ?thesis
    using last_hash_scan [of E "\<lparr>lg_file = f, lg_tail = tails i\<rparr>"] assms(1)
    by (simp add: verify_chained lines_nonempty_def)
qed

definition toy_ledger :: "string ledger_env" where
  "toy_ledger = \<lparr>le_digest = (\<lambda>prev b. CHR ''h'' # prev @ snd (snd b)), le_size = (\<lambda>r. Suc (length (lr_payload r)))\<rparr>"

theorem shared_ledger_chained_witness:
  "fst (ledger_append toy_ledger ''k'' ''c'' 2 \<lparr>lg_file = fst (shared_run toy_ledger [(0, ''k'', ''a'', 0), (1, ''k'', ''b'', 1)]),
       lg_tail = snd (shared_run toy_ledger [(0, ''k'', ''a'', 0), (1, ''k'', ''b'', 1)]) 0\<rparr>) =
     ''hhh'' @ genesis @ ''abc''"
proof -
  obtain f tails where run: "shared_run toy_ledger [(0, ''k'', ''a'', 0), (1, ''k'', ''b'', 1)] = (f, tails)" by fastforce
  have "lines_nonempty toy_ledger" by (simp add: lines_nonempty_def toy_ledger_def)
  from shared_ledger_chained [OF this run, of 0]
  have "last_hash toy_ledger \<lparr>lg_file = f, lg_tail = tails 0\<rparr> = scan_hash f" by simp
  moreover have "scan_hash f = ''hh'' @ genesis @ ''ab''"
    using run by (auto simp: shared_run_def process_append_def ledger_append_def Let_def last_hash_def toy_ledger_def scan_hash_def file_size_def)
  moreover have "le_digest toy_ledger p b = CHR ''h'' # p @ snd (snd b)" for p b
    by (simp add: toy_ledger_def)
  ultimately show ?thesis unfolding run fst_conv snd_conv by (simp add: ledger_append_def Let_def)
qed

definition collision_free :: "'p ledger_env \<Rightarrow> 'p ledger_record set \<Rightarrow> bool" where
  "collision_free E rs \<longleftrightarrow>
     (\<forall>r \<in> rs. le_digest E (lr_prev r) (body_of r) \<noteq> genesis \<and>
       (\<forall>r' \<in> rs. le_digest E (lr_prev r) (body_of r) = le_digest E (lr_prev r') (body_of r') \<longrightarrow>
          lr_prev r = lr_prev r' \<and> body_of r = body_of r'))"

lemma collision_free_sub: "collision_free E B \<Longrightarrow> A \<subseteq> B \<Longrightarrow> collision_free E A"
  unfolding collision_free_def by (meson subsetD)

lemma collision_freeD:
  assumes "collision_free E rs" and "r \<in> rs" and "r' \<in> rs"
    and "le_digest E (lr_prev r) (body_of r) = le_digest E (lr_prev r') (body_of r')"
  shows "lr_prev r = lr_prev r' \<and> body_of r = body_of r'"
  using assms unfolding collision_free_def by blast

lemma record_eq:
  "body_of r = body_of r' \<Longrightarrow> lr_prev r = lr_prev r' \<Longrightarrow> lr_hash r = lr_hash r' \<Longrightarrow> r = r'"
  by (cases r; cases r') (simp add: body_of_def)

text \<open>C24. The chain is tamper-evident: two ledger files that both pass the check and end in the same hash are
  the same file, provided the hash has no collision among their records. Nothing can be changed, reordered,
  inserted or removed below a known last hash.\<close>

theorem ledger_tamper_evident:
  assumes "ledger_verify E l = Inr n" and "ledger_verify E l' = Inr n'"
    and "scan_hash (lg_file l) = scan_hash (lg_file l')"
    and "collision_free E (set (lg_file l) \<union> set (lg_file l'))"
  shows "lg_file l = lg_file l'"
proof -
  have "f = f'" if "chained E f" "chained E f'" "scan_hash f = scan_hash f'" "collision_free E (set f \<union> set f')" for f f'
    using that
  proof (induction f arbitrary: f' rule: rev_induct)
    case Nil
    then show ?case
      by (cases f' rule: rev_cases) (simp_all add: collision_free_def)
  next
    case (snoc r f)
    have "f' \<noteq> []"
    proof
      assume "f' = []"
      with snoc.prems(1,3) have "le_digest E (lr_prev r) (body_of r) = genesis" by simp
      with snoc.prems(4) show False unfolding collision_free_def by simp
    qed
    then obtain g r' where f': "f' = g @ [r']" by (cases f' rule: rev_cases) simp_all
    have hash: "le_digest E (lr_prev r) (body_of r) = le_digest E (lr_prev r') (body_of r')"
      using snoc.prems f' by simp
    have "lr_prev r = lr_prev r' \<and> body_of r = body_of r'"
      by (rule collision_freeD [OF snoc.prems(4) _ _ hash]) (simp_all add: f')
    with snoc.prems f' have "r = r'" by (intro record_eq) simp_all
    moreover have "f = g"
      using snoc.prems f' \<open>r = r'\<close>
        collision_free_sub [of E "set (f @ [r]) \<union> set f'" "set f \<union> set g"]
      by (intro snoc.IH) auto
    ultimately show ?case using f' by simp
  qed
  with assms show ?thesis by (auto simp: verify_chained)
qed

definition toy_file :: "string list \<Rightarrow> string ledger" where
  "toy_file xs = fold (\<lambda>p l. snd (ledger_append toy_ledger ''k'' p 0 l)) xs \<lparr>lg_file = [], lg_tail = None\<rparr>"

theorem ledger_tamper_evident_witness: "scan_hash (lg_file (toy_file [''a'', ''b''])) \<noteq> scan_hash (lg_file (toy_file [''a'', ''c'']))"
proof
  let ?l = "toy_file [''a'', ''b'']" and ?l' = "toy_file [''a'', ''c'']"
  assume same: "scan_hash (lg_file ?l) = scan_hash (lg_file ?l')"
  note toy = toy_file_def ledger_append_def Let_def toy_ledger_def last_hash_def scan_hash_def file_size_def
  have v: "ledger_verify toy_ledger ?l = Inr 2" "ledger_verify toy_ledger ?l' = Inr 2"
    by (simp_all add: ledger_verify_def body_of_def toy)
  have "collision_free toy_ledger (set (lg_file ?l) \<union> set (lg_file ?l'))"
    by (simp add: collision_free_def body_of_def toy genesis_def)
  from ledger_tamper_evident [OF v same this]
  show False by (simp add: toy)
qed
end
