(* ===== verification/Registry_Properties.thy ===== *)
theory Registry_Properties
  imports Registry Ledger_Properties
begin

text \<open>The registry is the replay of its ledger; every version walks the promotion ladder.\<close>

section \<open>One record at a time\<close>

definition registry_ok :: "registry_env \<Rightarrow> registry \<Rightarrow> bool" where
  "registry_ok E g \<longleftrightarrow>
     replay (lg_file (rg_ledger g)) ([], []) = Inr (rg_versions g, rg_swap_tests g) \<and>
     chained E (lg_file (rg_ledger g)) \<and> tail_ok E (lg_file (rg_ledger g)) (lg_tail (rg_ledger g)) \<and>
     (\<forall>k v. dict_get (rg_versions g) k = Some v \<longrightarrow> vs_key v = k)"

lemma registry_key: "registry_ok E g \<Longrightarrow> dict_get (rg_versions g) k = Some v \<Longrightarrow> vs_key v = k"
  unfolding registry_ok_def by blast

lemma replay_snoc:
  "replay (f @ [r]) tb = sbind (replay f tb) (apply_record (lr_kind r) (lr_payload r))"
proof (induction f arbitrary: tb)
  case Nil
  then show ?case by (cases "apply_record (lr_kind r) (lr_payload r) tb") simp_all
next
  case (Cons x f)
  then show ?case by (cases "apply_record (lr_kind x) (lr_payload x) tb") simp_all
qed

lemma append_apply_run:
  assumes "lines_nonempty E" and "registry_ok E g"
    and "apply_record kind p (rg_versions g, rg_swap_tests g) = Inr (vs, tests)"
    and "\<And>k v. dict_get vs k = Some v \<Longrightarrow> vs_key v = k"
  shows "\<exists>l. append_apply E kind p g = (Inr (), g\<lparr>rg_ledger := l, rg_versions := vs, rg_swap_tests := tests\<rparr>) \<and>
    registry_ok E (g\<lparr>rg_ledger := l, rg_versions := vs, rg_swap_tests := tests\<rparr>)"
proof -
  let ?l = "snd (ledger_append E kind p (rg_wall g) (rg_ledger g))"
  obtain r where r: "lg_file ?l = lg_file (rg_ledger g) @ [r]" "lr_kind r = kind" "lr_payload r = p"
    by (simp add: ledger_append_def Let_def)
  have "replay (lg_file ?l) ([], []) = Inr (vs, tests)"
    using assms(2,3) r by (simp add: replay_snoc registry_ok_def)
  moreover have "chained E (lg_file ?l)" "tail_ok E (lg_file ?l) (lg_tail ?l)"
    using append_chained [of E "rg_ledger g"] assms(1,2) by (simp_all add: registry_ok_def lines_nonempty_def)
  ultimately show ?thesis
    using assms(3,4) by (auto simp: append_apply_def Let_def registry_ok_def intro!: exI [of _ ?l])
qed

lemma get_version_run:
  "get_version k g = (case dict_get (rg_versions g) k of
     None \<Rightarrow> (Inl (unknown_version k), g) | Some v \<Rightarrow> (Inr v, g))"
  by (simp add: get_version_def bnd_gets raise_def ret_def split: option.split)

lemma get_version_bnd: "dict_get (rg_versions g) k = Some v \<Longrightarrow> bnd (get_version k) f g = f v g"
  by (simp add: bnd_def get_version_run)

lemma registry_ok_frame [simp]:
  "registry_ok E (g\<lparr>rg_alerts := a\<rparr>) = registry_ok E g"
  "registry_ok E (g\<lparr>rg_changes := c\<rparr>) = registry_ok E g"
  "registry_ok E (g\<lparr>rg_now := t\<rparr>) = registry_ok E g"
  "registry_ok E (g\<lparr>rg_wall := t\<rparr>) = registry_ok E g"
  by (simp_all add: registry_ok_def)

section \<open>The ladder\<close>

text \<open>What one operation may do to the versions: nothing, a new candidate, a new profile, or a move.\<close>

definition legal_move :: "version_state \<Rightarrow> stage_record \<Rightarrow> bool" where
  "legal_move v r \<longleftrightarrow>
     legal_transition v (sr_to r) (sr_actor r) \<or>
     (sr_actor r = EvaluatorActor \<and>
      (starts_with swap_in (sr_reason r) \<and> vs_stage v = Shadow \<and> sr_to r \<in> set money_stages \<or>
       starts_with swap_out (sr_reason r) \<and> vs_stage v \<in> set money_stages \<and> sr_to r = Shadow \<or>
       starts_with rollback_reason (sr_reason r) \<and> (sr_to r = Shadow \<or> vs_stage v = Shadow)))"

definition move_of :: "version_state \<Rightarrow> stage_record \<Rightarrow> bool" where
  "move_of v r \<longleftrightarrow> sr_from r = Some (vs_stage v) \<and> (sr_strategy_id r, sr_version r) = vs_key v"

inductive ladder_step :: "(version_key, version_state) dict \<Rightarrow> (version_key, version_state) dict \<Rightarrow> bool" where
  submit: "dict_get vs (info_key i) = None \<Longrightarrow> ladder_step vs (dict_set (info_key i) (new_version i t) vs)"
| profile: "dict_get vs k = Some v \<Longrightarrow> ladder_step vs (dict_set k (v\<lparr>vs_profile := Some p\<rparr>) vs)"
| move: "dict_get vs k = Some v \<Longrightarrow> move_of v r \<Longrightarrow> legal_move v r \<Longrightarrow> ladder_step vs (dict_set k (staged r v) vs)"

definition ladder :: "registry_env \<Rightarrow> registry \<Rightarrow> registry \<Rightarrow> bool" where
  "ladder E g g' \<longleftrightarrow> (registry_ok E g \<longrightarrow> registry_ok E g' \<and> ladder_step\<^sup>*\<^sup>* (rg_versions g) (rg_versions g'))"

interpretation ladder: step_rel "ladder E" for E
  by unfold_locales (auto simp: ladder_def)

text \<open>A change of a version that is in the registry.\<close>

lemma record_change_run:
  assumes "lines_nonempty E" and "registry_ok E g" and "dict_get (rg_versions g) (vs_key v) = Some v"
  shows "\<exists>r ev g'. record_change E v to reason a m g = (Inr ev, g') \<and> registry_ok E g' \<and>
    rg_versions g' = dict_set (vs_key v) (staged r v) (rg_versions g) \<and>
    move_of v r \<and> sr_to r = to \<and> sr_reason r = reason \<and> sr_actor r = a"
proof -
  let ?r = "\<lparr>sr_strategy_id = vi_strategy_id (vs_info v), sr_version = vi_version (vs_info v),
    sr_from = Some (vs_stage v), sr_to = to, sr_reason = reason, sr_actor = a,
    sr_metrics = clean_metrics m, sr_at = rg_now g\<rparr>"
  let ?vs = "dict_set (vs_key v) (staged ?r v) (rg_versions g)"
  have key: "(vi_strategy_id (vs_info v), vi_version (vs_info v)) = vs_key v"
    by (simp add: vs_key_def info_key_def)
  have "apply_record ''stage_change'' (PStage ?r) (rg_versions g, rg_swap_tests g) = Inr (?vs, rg_swap_tests g)"
    using assms(3) by (simp add: apply_record_def key)
  moreover have "dict_get ?vs k = Some w \<Longrightarrow> vs_key w = k" for k w
    using registry_key [OF assms(2), of k w] by (auto simp: staged_def vs_key_def split: if_splits)
  ultimately obtain l where l: "append_apply E ''stage_change'' (PStage ?r) g =
      (Inr (), g\<lparr>rg_ledger := l, rg_versions := ?vs, rg_swap_tests := rg_swap_tests g\<rparr>)"
      "registry_ok E (g\<lparr>rg_ledger := l, rg_versions := ?vs, rg_swap_tests := rg_swap_tests g\<rparr>)"
    using append_apply_run [OF assms(1,2)] by blast
  have "\<exists>ev g'. record_change E v to reason a m g = (Inr ev, g') \<and> registry_ok E g' \<and> rg_versions g' = ?vs"
    unfolding record_change_def Let_def bnd_gets seq_run [of "append_apply E ''stage_change'' (PStage ?r)", OF l(1)]
      registry_alert_def seq_modif ret_def
    by (intro exI conjI, rule refl) (use l(2) in simp_all)
  moreover have "move_of v ?r" by (simp add: move_of_def key)
  ultimately show ?thesis by (intro exI [of _ ?r]) auto
qed

lemma ladder_illegal: "ladder E g (snd (illegal msg g))"
  unfolding illegal_def registry_alert_def seq_modif raise_def by (simp add: ladder_def)

lemma ladder_change:
  assumes "lines_nonempty E" and "registry_ok E g" and "dict_get (rg_versions g) (vs_key v) = Some v"
    and "\<And>r. sr_to r = to \<Longrightarrow> sr_reason r = reason \<Longrightarrow> sr_actor r = a \<Longrightarrow> legal_move v r"
  shows "\<exists>ev g' r. record_change E v to reason a m g = (Inr ev, g') \<and> registry_ok E g' \<and> ladder E g g' \<and>
    rg_versions g' = dict_set (vs_key v) (staged r v) (rg_versions g) \<and> sr_to r = to"
proof -
  obtain r ev g' where run: "record_change E v to reason a m g = (Inr ev, g')" "registry_ok E g'"
      "rg_versions g' = dict_set (vs_key v) (staged r v) (rg_versions g)" "move_of v r"
      "sr_to r = to" "sr_reason r = reason" "sr_actor r = a"
    using record_change_run [OF assms(1-3)] by blast
  from assms(3) run(4) assms(4) [OF run(5-7)]
  have "ladder_step (rg_versions g) (rg_versions g')" unfolding run(3) by (rule ladder_step.move)
  with run show ?thesis by (auto simp: ladder_def)
qed

lemma ladder_transition:
  assumes "lines_nonempty E"
  shows "ladder E g (snd (transition E k to reason a m g))"
proof (cases "registry_ok E g")
  case True
  show ?thesis
  proof (cases "dict_get (rg_versions g) k")
    case None
    then show ?thesis by (simp add: transition_def bnd_def get_version_run ladder.step_refl)
  next
    case (Some v)
    with True have key: "vs_key v = k" by (rule registry_key)
    show ?thesis
    proof (cases "legal_transition v to a")
      case False
      with Some show ?thesis by (simp add: transition_def bnd_def get_version_run ladder_illegal)
    next
      case legal: True
      then have "\<exists>ev g'. record_change E v to reason a m g = (Inr ev, g') \<and> ladder E g g'"
        using ladder_change [OF assms True, of v to reason a m] Some key by (auto simp: legal_move_def)
      with Some legal show ?thesis by (auto simp: transition_def bnd_def get_version_run)
    qed
  qed
qed (simp add: ladder_def)

lemma money_not_shadow: "Shadow \<notin> set money_stages"
  by (simp add: money_stages_def)

lemma ladder_swap:
  assumes "lines_nonempty E"
  shows "ladder E g (snd (swap E sid champion challenger reason m g))"
proof (cases "registry_ok E g \<and> (\<exists>champ chal. dict_get (rg_versions g) (sid, champion) = Some champ \<and>
    dict_get (rg_versions g) (sid, challenger) = Some chal \<and> swap_legal champ chal champion)")
  case False
  then show ?thesis
    by (auto simp: swap_def bnd_def get_version_run ladder.step_refl ladder_illegal ladder_def [of E g g]
        split: option.splits) (auto simp: ladder_def)
next
  case True
  then obtain champ chal where ok: "registry_ok E g"
      and champ: "dict_get (rg_versions g) (sid, champion) = Some champ"
      and chal: "dict_get (rg_versions g) (sid, challenger) = Some chal" and legal: "swap_legal champ chal champion"
    by blast
  have keys: "vs_key champ = (sid, champion)" "vs_key chal = (sid, challenger)"
    using registry_key [OF ok] champ chal by auto
  let ?r1 = "swap_in @ '' '' @ champion @ '': '' @ reason"
  let ?r2 = "swap_out @ '' '' @ challenger @ ''; kept in shadow for rollback''"
  obtain a g1 r where 1: "record_change E chal (vs_stage champ) ?r1 EvaluatorActor m g = (Inr a, g1)"
      "registry_ok E g1" "ladder E g g1" "rg_versions g1 = dict_set (vs_key chal) (staged r chal) (rg_versions g)"
    using ladder_change [OF assms ok, of chal "vs_stage champ" ?r1 EvaluatorActor m] legal chal keys
    by (auto simp: legal_move_def swap_legal_def starts_with_def)
  have "challenger \<noteq> champion" using legal champ chal money_not_shadow by (auto simp: swap_legal_def)
  then have "dict_get (rg_versions g1) (vs_key champ) = Some champ"
    using 1(4) champ keys by simp
  then obtain b g2 where 2: "record_change E champ Shadow ?r2 EvaluatorActor [] g1 = (Inr b, g2)" "ladder E g1 g2"
    using ladder_change [OF assms 1(2), of champ Shadow ?r2 EvaluatorActor "[]"] legal
    by (auto simp: legal_move_def swap_legal_def starts_with_def)
  have "swap E sid champion challenger reason m g = (Inr (a, b), g2)"
    unfolding swap_def using champ chal legal 1(1) 2(1) by (simp add: bnd_def get_version_run ret_def)
  with ladder.step_trans [OF 1(3) 2(2)] show ?thesis by simp
qed

lemma ladder_rollback:
  assumes "lines_nonempty E"
  shows "ladder E g (snd (rollback E sid reason g))"
proof (cases "registry_ok E g \<and> (\<exists>t new old st old_v new_v. last_swap sid g = Some (t, new, old, st) \<and>
    dict_get (rg_versions g) (sid, old) = Some old_v \<and> dict_get (rg_versions g) (sid, new) = Some new_v \<and>
    vs_stage old_v = Shadow)")
  case False
  then show ?thesis
    by (auto simp: rollback_def bnd_def gets_def get_version_run ladder.step_refl ladder_illegal
        split: option.splits) (auto simp: ladder_def)
next
  case True
  then obtain t new old st old_v new_v where ok: "registry_ok E g" and last: "last_swap sid g = Some (t, new, old, st)"
      and old: "dict_get (rg_versions g) (sid, old) = Some old_v"
      and new: "dict_get (rg_versions g) (sid, new) = Some new_v" and shadow: "vs_stage old_v = Shadow"
    by blast
  have keys: "vs_key old_v = (sid, old)" "vs_key new_v = (sid, new)"
    using registry_key [OF ok] old new by auto
  let ?r1 = "rollback_reason @ '' '' @ old @ '': '' @ reason"
  let ?r2 = "rollback_reason @ '' restored over '' @ new @ '': '' @ reason"
  let ?first = "if vs_stage new_v \<noteq> Shadow
    then bnd (record_change E new_v Shadow ?r1 EvaluatorActor []) (\<lambda>ev. ret [ev]) else ret []"
  have "\<exists>out g1. ?first g = (Inr out, g1) \<and> registry_ok E g1 \<and> ladder E g g1 \<and>
      dict_get (rg_versions g1) (sid, old) = Some old_v"
  proof (cases "vs_stage new_v = Shadow")
    case True
    then show ?thesis using ok old by (simp add: ret_def ladder.step_refl)
  next
    case False
    with old new shadow have "new \<noteq> old" by auto
    from False show ?thesis
      using ladder_change [OF assms ok, of new_v Shadow ?r1 EvaluatorActor "[]"] new keys old \<open>new \<noteq> old\<close>
      by (auto simp: legal_move_def starts_with_def bnd_def ret_def)
  qed
  then obtain out g1 where 1: "?first g = (Inr out, g1)" "registry_ok E g1" "ladder E g g1"
      "dict_get (rg_versions g1) (vs_key old_v) = Some old_v"
    unfolding keys by blast
  obtain b g2 where 2: "record_change E old_v st ?r2 EvaluatorActor [] g1 = (Inr b, g2)" "ladder E g1 g2"
    using ladder_change [OF assms 1(2,4), of st ?r2 EvaluatorActor "[]"] shadow
    by (auto simp: legal_move_def starts_with_def)
  have "rollback E sid reason g = bnd ?first (\<lambda>out. bnd (record_change E old_v st ?r2 EvaluatorActor [])
      (\<lambda>ev. ret (out @ [ev]))) g"
    using shadow by (simp add: rollback_def bnd_gets last get_version_bnd [OF old] get_version_bnd [OF new])
  also have "\<dots> = (Inr (out @ [b]), g2)"
    unfolding bnd_run [of ?first, OF 1(1)] bnd_run [of "record_change E old_v st ?r2 EvaluatorActor []", OF 2(1)]
    by (simp add: ret_def)
  finally show ?thesis using ladder.step_trans [OF 1(3) 2(2)] by simp
qed

lemma apply_profile:
  "dict_get vs (bf_strategy_id p, bf_strategy_version p) = Some v \<Longrightarrow>
    apply_record ''profile'' (PProfile p) (vs, tests) =
      Inr (dict_set (bf_strategy_id p, bf_strategy_version p) (v\<lparr>vs_profile := Some p\<rparr>) vs, tests)"
  by (simp add: apply_record_def)

lemma ladder_profile:
  assumes "lines_nonempty E"
  shows "ladder E g (snd (set_profile E p g))"
proof (cases "registry_ok E g")
  case True
  let ?k = "(bf_strategy_id p, bf_strategy_version p)"
  show ?thesis
  proof (cases "dict_get (rg_versions g) ?k")
    case None
    then show ?thesis by (simp add: set_profile_def bnd_def get_version_run ladder.step_refl)
  next
    case (Some v)
    let ?vs = "dict_set ?k (v\<lparr>vs_profile := Some p\<rparr>) (rg_versions g)"
    have "dict_get ?vs k = Some w \<Longrightarrow> vs_key w = k" for k w
      using registry_key [OF True, of k w] registry_key [OF True Some] by (auto simp: vs_key_def split: if_splits)
    from append_apply_run [OF assms True apply_profile [OF Some] this]
    obtain l where "append_apply E ''profile'' (PProfile p) g =
        (Inr (), g\<lparr>rg_ledger := l, rg_versions := ?vs, rg_swap_tests := rg_swap_tests g\<rparr>)"
        "registry_ok E (g\<lparr>rg_ledger := l, rg_versions := ?vs, rg_swap_tests := rg_swap_tests g\<rparr>)"
      by blast
    with ladder_step.profile [OF Some, of p] show ?thesis
      by (auto simp: set_profile_def get_version_bnd [OF Some] ladder_def)
  qed
qed (simp add: ladder_def)

lemma ladder_submit:
  assumes "lines_nonempty E"
  shows "ladder E g (snd (submit_candidate E i prof g))"
proof (cases "registry_ok E g \<and> dict_get (rg_versions g) (info_key i) = None")
  case False
  then show ?thesis
    by (auto simp: submit_candidate_def bnd_gets raise_def ladder.step_refl) (auto simp: ladder_def)
next
  case True
  then have ok: "registry_ok E g" and new: "dict_get (rg_versions g) (info_key i) = None" by auto
  let ?vs = "dict_set (info_key i) (new_version i (rg_now g)) (rg_versions g)"
  have rec: "apply_record ''strategy_version'' (PVersion i (rg_now g)) (rg_versions g, rg_swap_tests g) =
      Inr (?vs, rg_swap_tests g)"
    by (simp add: apply_record_def)
  have "dict_get ?vs k = Some w \<Longrightarrow> vs_key w = k" for k w
    using registry_key [OF ok, of k w] by (auto simp: new_version_def vs_key_def split: if_splits)
  from append_apply_run [OF assms ok rec this]
  obtain l where 1: "append_apply E ''strategy_version'' (PVersion i (rg_now g)) g =
      (Inr (), g\<lparr>rg_ledger := l, rg_versions := ?vs, rg_swap_tests := rg_swap_tests g\<rparr>)"
      "registry_ok E (g\<lparr>rg_ledger := l, rg_versions := ?vs, rg_swap_tests := rg_swap_tests g\<rparr>)"
    by blast
  let ?g = "g\<lparr>rg_ledger := l, rg_versions := ?vs, rg_swap_tests := rg_swap_tests g\<rparr>"
  have "ladder E g ?g" using 1(2) ladder_step.submit [OF new, of "rg_now g"] by (auto simp: ladder_def)
  moreover have "keeps (ladder E) (seq (case prof of None \<Rightarrow> ret () | Some p \<Rightarrow> set_profile E p) (get_version (info_key i)))"
    by (intro ladder.keeps_rules) (auto simp: keeps_def ladder_profile [OF assms] get_version_run ladder.step_refl
        split: option.split)
  ultimately show ?thesis
    using new by (auto simp: submit_candidate_def bnd_gets keeps_def
        seq_run [of "append_apply E ''strategy_version'' (PVersion i (rg_now g))", OF 1(1)] intro: ladder.step_trans)
qed

lemma ladder_swap_test:
  assumes "lines_nonempty E"
  shows "ladder E g (snd (record_swap_test E t g))"
proof (cases "registry_ok E g")
  case True
  have "apply_record ''swap_test'' (PSwapTest t) (rg_versions g, rg_swap_tests g) =
      Inr (rg_versions g, rg_swap_tests g @ [t])"
    by (simp add: apply_record_def)
  from append_apply_run [OF assms True this registry_key [OF True]]
  show ?thesis by (auto simp: record_swap_test_def ladder_def)
qed (simp add: ladder_def)

text \<open>Every operation.\<close>

lemma ladder_do:
  assumes "lines_nonempty E"
  shows "ladder E g (snd (registry_do E x g))"
proof -
  have drop: "snd (no_result m g) = snd (m g)" for m :: "(registry, 'a) se"
    by (auto simp: no_result_def bnd_def ret_def split: prod.split sum.split)
  have promote: "keeps (ladder E) (promote_candidate E k passed synth)" for k passed synth
    unfolding promote_candidate_def
    by (intro ladder.keeps_rules) (auto simp: keeps_def ladder_transition [OF assms] get_version_run ladder.step_refl
        split: option.split)
  show ?thesis
  proof (cases x)
    case (RgPromote k passed synth)
    with promote show ?thesis by (simp add: drop keeps_def)
  next
    case (RgClock now wall)
    then show ?thesis by (simp add: modif_def ladder_def)
  qed (simp_all add: drop retire_def paper_trade_def ladder_submit ladder_profile ladder_transition ladder_swap
      ladder_rollback ladder_swap_test assms)
qed

lemma ladder_run: "lines_nonempty E \<Longrightarrow> ladder E g (registry_run E xs g)"
proof (induction xs arbitrary: g)
  case (Cons x xs)
  then show ?case using ladder_do [of E g x] by (auto intro: ladder.step_trans)
qed (simp add: ladder.step_refl)

lemma empty_registry_ok: "registry_ok E empty_registry"
  by (simp add: registry_ok_def empty_registry_def)

text \<open>C25. History cannot be rewritten: after any operations, in any order and with any failures among them, the
  ledger passes its check, and a process that restarts from the ledger file has exactly the versions, the
  stages, the histories and the swap tests the running one has.\<close>

theorem registry_is_replay:
  assumes "lines_nonempty E" and "g = registry_run E xs empty_registry"
  shows "ledger_verify E (rg_ledger g) = Inr (length (lg_file (rg_ledger g))) \<and>
    (\<exists>g'. registry_init (lg_file (rg_ledger g)) now wall = Inr g' \<and>
      rg_versions g' = rg_versions g \<and> rg_swap_tests g' = rg_swap_tests g)"
proof -
  have "registry_ok E g"
    using ladder_run [OF assms(1), of empty_registry xs] empty_registry_ok assms(2) by (simp add: ladder_def)
  then show ?thesis by (auto simp: registry_ok_def verify_chained registry_init_def)
qed

section \<open>The walk of a version\<close>

text \<open>One step of a history, judged by the ladder.\<close>

definition legal_record :: "bool \<Rightarrow> stage_record \<Rightarrow> bool" where
  "legal_record demo r = (case sr_from r of None \<Rightarrow> False | Some frm \<Rightarrow>
     ((frm, sr_to r) \<in> set allowed \<or> sr_to r = Retired \<and> sr_actor r = OwnerActor \<and> frm \<noteq> Retired) \<and>
     (sr_to r = DemoOnly \<longrightarrow> demo \<and> sr_actor r = OwnerActor) \<and>
     (demo \<and> frm = Shadow \<longrightarrow> sr_to r \<in> {Retired, DemoOnly}) \<or>
     sr_actor r = EvaluatorActor \<and>
     (starts_with swap_in (sr_reason r) \<and> frm = Shadow \<and> sr_to r \<in> set money_stages \<or>
      starts_with swap_out (sr_reason r) \<and> frm \<in> set money_stages \<and> sr_to r = Shadow \<or>
      starts_with rollback_reason (sr_reason r) \<and> (sr_to r = Shadow \<or> frm = Shadow)))"

fun walk :: "stage \<Rightarrow> stage_record list \<Rightarrow> bool" where
  "walk st [] \<longleftrightarrow> True"
| "walk st (r # rs) \<longleftrightarrow> sr_from r = Some st \<and> walk (sr_to r) rs"

fun walk_end :: "stage \<Rightarrow> stage_record list \<Rightarrow> stage" where
  "walk_end st [] = st"
| "walk_end st (r # rs) = walk_end (sr_to r) rs"

definition on_ladder :: "version_state \<Rightarrow> bool" where
  "on_ladder v \<longleftrightarrow> (\<exists>r0 rs. vs_history v = r0 # rs \<and> sr_from r0 = None \<and> sr_to r0 = Candidate \<and>
     walk Candidate rs \<and> walk_end Candidate rs = vs_stage v \<and>
     (\<forall>r \<in> set rs. legal_record (vi_demo_only (vs_info v)) r) \<and>
     (\<forall>r \<in> set (vs_history v). (sr_strategy_id r, sr_version r) = vs_key v))"

lemma walk_snoc: "walk st (rs @ [r]) \<longleftrightarrow> walk st rs \<and> sr_from r = Some (walk_end st rs)"
  by (induction rs arbitrary: st) auto

lemma walk_end_snoc [simp]: "walk_end st (rs @ [r]) = sr_to r"
  by (induction rs arbitrary: st) auto

lemma legal_move_record: "legal_move v r \<Longrightarrow> move_of v r \<Longrightarrow> legal_record (vi_demo_only (vs_info v)) r"
  by (auto simp: legal_move_def move_of_def legal_record_def legal_transition_def Let_def split: if_splits)

lemma on_ladder_step:
  assumes "ladder_step vs vs'" and "\<forall>k v. dict_get vs k = Some v \<longrightarrow> on_ladder v"
  shows "\<forall>k v. dict_get vs' k = Some v \<longrightarrow> on_ladder v"
  using assms
proof (cases rule: ladder_step.cases)
  case (submit i t)
  have "on_ladder (new_version i t)"
    by (simp add: on_ladder_def new_version_def first_record_def vs_key_def info_key_def)
  with submit assms(2) show ?thesis by auto
next
  case (profile k v p)
  with assms(2) have "on_ladder v" by blast
  then have "on_ladder (v\<lparr>vs_profile := Some p\<rparr>)" by (simp add: on_ladder_def vs_key_def)
  with profile assms(2) show ?thesis by auto
next
  case (move k v r)
  with assms(2) have "on_ladder v" by blast
  then obtain r0 rs where rs: "vs_history v = r0 # rs" "sr_from r0 = None" "sr_to r0 = Candidate"
      "walk Candidate rs" "walk_end Candidate rs = vs_stage v" "\<forall>r \<in> set rs. legal_record (vi_demo_only (vs_info v)) r"
      "\<forall>r \<in> set (vs_history v). (sr_strategy_id r, sr_version r) = vs_key v"
    unfolding on_ladder_def by blast
  have "on_ladder (staged r v)"
    unfolding on_ladder_def
    using rs move legal_move_record [OF move(4,3)]
    by (intro exI [of _ r0] exI [of _ "rs @ [r]"])
       (auto simp: staged_def walk_snoc move_of_def vs_key_def)
  with move assms(2) show ?thesis by auto
qed

lemma reachable_on_ladder:
  assumes "lines_nonempty E" and "dict_get (rg_versions (registry_run E xs empty_registry)) k = Some v"
  shows "on_ladder v \<and> vs_key v = k"
proof -
  let ?g = "registry_run E xs empty_registry"
  have *: "registry_ok E ?g" "ladder_step\<^sup>*\<^sup>* [] (rg_versions ?g)"
    using ladder_run [OF assms(1), of empty_registry xs] empty_registry_ok
    by (simp_all add: ladder_def) (simp add: empty_registry_def)
  from *(2) have "\<forall>k v. dict_get (rg_versions ?g) k = Some v \<longrightarrow> on_ladder v"
    by (induction rule: rtranclp_induct) (auto dest: on_ladder_step)
  with assms(2) registry_key [OF *(1)] show ?thesis by blast
qed

text \<open>C26. Every version of every reachable registry has walked the promotion ladder: it started as a candidate,
  each stage change starts where the previous one ended and is allowed by the ladder (or is the owner's
  retirement, a swap or a rollback), and its stage is where the walk ended.\<close>

theorem versions_walk_the_ladder:
  assumes "lines_nonempty E" and "dict_get (rg_versions (registry_run E xs empty_registry)) k = Some v"
  shows "on_ladder v \<and> vs_key v = k"
  by (rule reachable_on_ladder [OF assms])

lemma money_needs_shadow:
  "walk st rs \<Longrightarrow> \<forall>r \<in> set rs. legal_record demo r \<Longrightarrow> walk_end st rs \<in> set money_stages \<Longrightarrow>
    st \<in> insert Shadow (set money_stages) \<or> (\<exists>r \<in> set rs. sr_to r = Shadow)"
proof (induction rs arbitrary: st)
  case (Cons r rs)
  then have "sr_to r \<in> insert Shadow (set money_stages) \<or> (\<exists>r \<in> set rs. sr_to r = Shadow)" by simp
  with Cons.prems show ?case
    by (auto simp: legal_record_def allowed_def money_stages_def)
qed simp

lemma demo_needs_swap:
  "walk st rs \<Longrightarrow> \<forall>r \<in> set rs. legal_record True r \<Longrightarrow> walk_end st rs \<in> set money_stages \<Longrightarrow>
    st \<in> set money_stages \<or> (\<exists>r \<in> set rs. starts_with swap_in (sr_reason r) \<or> starts_with rollback_reason (sr_reason r))"
proof (induction rs arbitrary: st)
  case (Cons r rs)
  then have "sr_to r \<in> set money_stages \<or>
      (\<exists>r \<in> set rs. starts_with swap_in (sr_reason r) \<or> starts_with rollback_reason (sr_reason r))" by simp
  with Cons.prems show ?case
    by (auto simp: legal_record_def allowed_def money_stages_def)
qed simp

text \<open>A version that trades money was in shadow before; and a \<open>demo_only\<close> version can only have got there by
  a swap or a rollback.\<close>

theorem money_is_earned:
  assumes "lines_nonempty E" and "dict_get (rg_versions (registry_run E xs empty_registry)) k = Some v"
    and "vs_stage v \<in> set money_stages"
  shows "(\<exists>r \<in> set (vs_history v). sr_to r = Shadow) \<and>
    (vi_demo_only (vs_info v) \<longrightarrow>
      (\<exists>r \<in> set (vs_history v). starts_with swap_in (sr_reason r) \<or> starts_with rollback_reason (sr_reason r)))"
proof -
  have "on_ladder v" using reachable_on_ladder [OF assms(1,2)] by simp
  then obtain r0 rs where rs: "vs_history v = r0 # rs" "walk Candidate rs" "walk_end Candidate rs = vs_stage v"
      "\<forall>r \<in> set rs. legal_record (vi_demo_only (vs_info v)) r"
    unfolding on_ladder_def by blast
  have "Candidate \<notin> insert Shadow (set money_stages)" by (simp add: money_stages_def)
  then show ?thesis
    using money_needs_shadow [OF rs(2,4)] demo_needs_swap [OF rs(2)] rs assms(3) by auto
qed

section \<open>A run\<close>

definition toy_registry :: registry_env where
  "toy_registry = \<lparr>le_digest = (\<lambda>prev b. CHR ''h'' # fst b), le_size = (\<lambda>_. 1)\<rparr>"

definition champion_info :: version_info where
  "champion_info = \<lparr>vi_strategy_id = ''swing'', vi_version = ''1'', vi_family = ''trend'', vi_origin = OwnerOrigin,
     vi_demo_only = False, vi_code_hash = ''c1'', vi_params = [], vi_parent_version = None,
     vi_created_by = ''owner'', vi_tenant_id = ''default''\<rparr>"

definition challenger_info :: version_info where
  "challenger_info = champion_info\<lparr>vi_version := ''2'', vi_origin := LearningReopt, vi_parent_version := Some ''1''\<rparr>"

definition profile_of :: "version_info \<Rightarrow> backtest_profile" where
  "profile_of i = \<lparr>bf_strategy_id = vi_strategy_id i, bf_strategy_version = vi_version i, bf_trade_r = [1, -1],
     bf_weekly_entries = [1], bf_mc_dd_p95_r = 5, bf_model_slippage = [], bf_source = ''report'', bf_synthetic = False\<rparr>"

definition admit :: "version_info \<Rightarrow> registry_op list" where
  "admit i = [RgSubmit i (Some (profile_of i)), RgPromote (info_key i) True False]"

definition swap_ops :: "registry_op list" where
  "swap_ops = admit champion_info @ [RgTransition (''swing'', ''1'') Micro ''shadow matches backtest'' EvaluatorActor []] @
     admit challenger_info @ [RgClock 10 10, RgSwap ''swing'' ''1'' ''2'' ''+0.100R'' []]"

lemmas ladder_run_defs = no_result_def submit_candidate_def set_profile_def promote_candidate_def transition_def
  retire_def swap_def record_change_def illegal_def registry_alert_def append_apply_def apply_record_def
  get_version_run bnd_def seq_def gets_def modif_def ret_def raise_def Let_def legal_transition_def
  swap_legal_def allowed_def demotions_def money_stages_def ledger_append_def last_hash_def scan_hash_def
  file_size_def new_version_def first_record_def staged_def info_key_def clean_metrics_def

lemma lines_toy [simp]: "lines_nonempty toy_registry"
  by (simp add: lines_nonempty_def toy_registry_def)

lemma registry_run_append: "registry_run E (xs @ ys) g = registry_run E ys (registry_run E xs g)"
  by (induction xs arbitrary: g) simp_all

lemma after_swap:
  "\<exists>v1 v2. rg_versions (registry_run toy_registry swap_ops empty_registry) =
     [((''swing'', ''1''), v1), ((''swing'', ''2''), v2)] \<and> vs_stage v1 = Shadow \<and> vs_stage v2 = Micro \<and>
     map (\<lambda>h. (sr_version h, sr_to h, sr_reason h, sr_at h)) (vs_history v1) =
      [(''1'', Candidate, ''submitted'', 0), (''1'', Shadow, ''passed validation'', 0),
       (''1'', Micro, ''shadow matches backtest'', 0), (''1'', Shadow, ''swap: replaced by 2; kept in shadow for rollback'', 10)] \<and>
     map (\<lambda>h. (sr_version h, sr_to h, sr_reason h, sr_at h)) (vs_history v2) =
      [(''2'', Candidate, ''submitted'', 0), (''2'', Shadow, ''passed validation'', 0),
       (''2'', Micro, ''swap: replaces 1: +0.100R'', 10)] \<and>
     vs_info v1 = champion_info \<and> vs_info v2 = challenger_info \<and>
     length (lg_file (rg_ledger (registry_run toy_registry swap_ops empty_registry))) = 9"
  by (simp add: swap_ops_def admit_def champion_info_def challenger_info_def profile_of_def empty_registry_def
      toy_registry_def ladder_run_defs swap_in_def swap_out_def)

theorem registry_is_replay_witness:
  "ledger_verify toy_registry (rg_ledger (registry_run toy_registry swap_ops empty_registry)) = Inr 9"
proof -
  obtain g where g: "g = registry_run toy_registry swap_ops empty_registry" by blast
  with registry_is_replay [OF lines_toy this] after_swap show ?thesis by auto
qed

theorem versions_walk_the_ladder_witness:
  "\<exists>v. dict_get (rg_versions (registry_run toy_registry swap_ops empty_registry)) (''swing'', ''2'') = Some v \<and> on_ladder v"
proof -
  obtain v where v: "dict_get (rg_versions (registry_run toy_registry swap_ops empty_registry)) (''swing'', ''2'') = Some v"
    using after_swap by auto
  from versions_walk_the_ladder [OF lines_toy this] v show ?thesis by blast
qed

theorem money_is_earned_witness:
  "\<exists>v. dict_get (rg_versions (registry_run toy_registry swap_ops empty_registry)) (''swing'', ''2'') = Some v \<and>
     vs_stage v = Micro \<and> (\<exists>r \<in> set (vs_history v). sr_to r = Shadow)"
proof -
  obtain v where v: "dict_get (rg_versions (registry_run toy_registry swap_ops empty_registry)) (''swing'', ''2'') = Some v"
      "vs_stage v = Micro"
    using after_swap by auto
  then have "vs_stage v \<in> set money_stages" by (simp add: money_stages_def)
  from money_is_earned [OF lines_toy v(1) this] v show ?thesis by blast
qed
end
