(* ===== verification/Stage_Stats.thy ===== *)
theory Stage_Stats
  imports Core_Models
begin

text \<open>
  The numbers the evaluator compares (\<open>lifecycle/stats.py\<close>) and the champion-challenger test
  (\<open>lifecycle/champion.py\<close>). Floats are exact rationals; the Sharpe ratio has a square root and is real.
  The bootstrap draws come from numpy's generator, which is a parameter: \<open>bn_band sample n level\<close> is the
  band of the mean of \<open>n\<close> draws, \<open>bn_p champion challenger seed\<close> the share of resampled differences that
  are not positive. Instants count from 1970-01-01, a Thursday.
\<close>

record bootstrap =
  bn_band :: "flt list \<Rightarrow> int \<Rightarrow> flt \<Rightarrow> flt \<times> flt"
  bn_p :: "flt list \<Rightarrow> flt list \<Rightarrow> nat \<Rightarrow> flt"

definition bootstrap_mean_band :: "bootstrap \<Rightarrow> flt list \<Rightarrow> int \<Rightarrow> flt \<Rightarrow> exn + flt \<times> flt" where
  "bootstrap_mean_band B sample n level =
     (if n \<le> 0 \<or> sample = [] then Inl (ValueErr ''need a sample and n > 0'') else Inr (bn_band B sample n level))"

definition inside :: "flt \<Rightarrow> flt \<times> flt \<Rightarrow> bool" where
  "inside x band \<longleftrightarrow> fst band \<le> x \<and> x \<le> snd band"

definition mean :: "flt list \<Rightarrow> flt" where
  "mean xs = (if xs = [] then 0 else sum_list xs / of_nat (length xs))"

text \<open>None is the infinite profit factor.\<close>

definition profit_factor :: "flt list \<Rightarrow> flt option" where
  "profit_factor rs =
     (let gains = sum_list (filter (\<lambda>r. r > 0) rs); losses = - sum_list (filter (\<lambda>r. r < 0) rs)
      in if losses = 0 then (if gains > 0 then None else Some 0) else Some (gains / losses))"

fun drawdown_loop :: "flt list \<Rightarrow> flt \<Rightarrow> flt \<Rightarrow> flt \<Rightarrow> flt" where
  "drawdown_loop [] peak cum worst = worst"
| "drawdown_loop (r # rs) peak cum worst =
     (let cum' = cum + r; peak' = max peak cum' in drawdown_loop rs peak' cum' (max worst (peak' - cum')))"

definition max_drawdown_r :: "flt list \<Rightarrow> flt" where
  "max_drawdown_r rs = drawdown_loop rs 0 0 0"

definition utc_day :: "time \<Rightarrow> int" where
  "utc_day t = t div days 1"

definition weekday :: "int \<Rightarrow> int" where
  "weekday d = (d + 3) mod 7"

definition day_total :: "trade_record list \<Rightarrow> int \<Rightarrow> flt" where
  "day_total trades d = sum_list (map tr_r_multiple (filter (\<lambda>t. utc_day (tr_exit_time t) = d) trades))"

definition daily_r :: "trade_record list \<Rightarrow> flt list" where
  "daily_r trades =
     (if trades = [] then []
      else
        let ds = map (\<lambda>t. utc_day (tr_exit_time t)) trades;
            first = fold min ds (hd ds); last_day = fold max ds (hd ds)
        in map (day_total trades) (filter (\<lambda>d. weekday d < 5) [first..last_day]))"

definition sample_sd :: "flt list \<Rightarrow> real" where
  "sample_sd xs = sqrt (of_rat (sum_list (map (\<lambda>x. (x - mean xs) * (x - mean xs)) xs) / of_nat (length xs - 1)))"

definition annualized_sharpe :: "flt list \<Rightarrow> real" where
  "annualized_sharpe daily =
     (if length daily < 2 then 0
      else if sample_sd daily = 0 then 0 else of_rat (mean daily) / sample_sd daily * sqrt 252)"

section \<open>Champion against challenger\<close>

definition weeks :: "rat \<Rightarrow> rat" where
  "weeks n = n * of_int (days 7)"

definition min_weeks :: flt where "min_weeks = 4"
definition min_signals :: nat where "min_signals = 40"
definition alpha :: flt where "alpha = 1 / 10"
definition dd_ratio :: flt where "dd_ratio = 6 / 5"
definition swap_gap :: span where "swap_gap = days 30"
definition rollback_window :: span where "rollback_window = days 28"

record shadow_record =
  sh_r :: "flt list"
  sh_first_at :: time
  sh_last_at :: time

record swap_verdict =
  sv_swap :: bool
  sv_reasons :: "fmt list"
  sv_diff :: "flt option"
  sv_p_value :: "flt option"
  sv_champion_dd :: "flt option"
  sv_challenger_dd :: "flt option"

text \<open>\<open>np.cumsum\<close> and \<open>np.maximum.accumulate\<close>.\<close>

fun cumsum :: "flt \<Rightarrow> flt list \<Rightarrow> flt list" where
  "cumsum c [] = []"
| "cumsum c (x # xs) = (c + x) # cumsum (c + x) xs"

fun running_max :: "flt \<Rightarrow> flt list \<Rightarrow> flt list" where
  "running_max m [] = []"
| "running_max m (x # xs) = max m x # running_max (max m x) xs"

text \<open>The accumulated maximum of \<open>[0] + eq\<close> without its first element is the running maximum from 0.\<close>

definition champion_drawdown_r :: "flt list \<Rightarrow> flt" where
  "champion_drawdown_r r =
     (let eq = cumsum 0 r in
      if eq = [] then 0
      else let peak = running_max 0 eq; falls = map2 (-) peak eq in fold max (tl falls) (hd falls))"

definition record_weeks :: "shadow_record \<Rightarrow> flt" where
  "record_weeks s = (if sh_r s = [] then 0 else of_int (sh_last_at s - sh_first_at s) / of_int (days 7))"

definition too_short :: "string \<Rightarrow> shadow_record \<Rightarrow> fmt list" where
  "too_short name s =
     (if record_weeks s < min_weeks \<or> length (sh_r s) < min_signals
      then [(''{}: {} weeks and {} signals (needs {} and {})'',
             [AStr name, ADec (record_weeks s), AInt (int (length (sh_r s))), ADec min_weeks,
              AInt (int min_signals)])] else [])"

definition too_soon :: "time \<Rightarrow> time option \<Rightarrow> fmt list" where
  "too_soon now prev = (case prev of
     Some t \<Rightarrow> if now - t < swap_gap
              then [(''swapped {} days ago (one swap a month at most)'', [AInt ((now - t) div days 1)])] else []
   | None \<Rightarrow> [])"

definition swap_test ::
  "bootstrap \<Rightarrow> shadow_record \<Rightarrow> shadow_record \<Rightarrow> time \<Rightarrow> nat \<Rightarrow> time option \<Rightarrow> nat \<Rightarrow> swap_verdict" where
  "swap_test B champion challenger now k prev seed =
     (let why = too_short ''champion'' champion @ too_short ''challenger'' challenger @ too_soon now prev;
          empty = (sh_r champion = [] \<or> sh_r challenger = []) in
      if why \<noteq> [] \<and> empty
      then \<lparr>sv_swap = False, sv_reasons = why, sv_diff = None, sv_p_value = None, sv_champion_dd = None,
            sv_challenger_dd = None\<rparr>
      else
        let diff = (if empty then None else Some (mean (sh_r challenger) - mean (sh_r champion)));
            p = (if empty then None else Some (bn_p B (sh_r champion) (sh_r challenger) seed));
            dd_a = champion_drawdown_r (sh_r champion); dd_b = champion_drawdown_r (sh_r challenger);
            threshold = alpha / of_nat (max k 1);
            why1 = why @
              (case diff of
                 Some d \<Rightarrow> if d \<le> 0 then [(''challenger is not better ({}R per signal)'', [ADec d])] else []
               | None \<Rightarrow> []) @
              (case p of
                 Some x \<Rightarrow> if x \<ge> threshold
                          then [if k > 1
                                then (''not significant: bootstrap p {} >= {} ({} challengers)'',
                                      [ADec x, ADec threshold, AInt (int k)])
                                else (''not significant: bootstrap p {} >= {}'', [ADec x, ADec threshold])]
                          else []
               | None \<Rightarrow> []) @
              (if dd_b > dd_ratio * dd_a
               then [(''drawdown {}R > {}x the champion's {}R'', [ADec dd_b, ADec dd_ratio, ADec dd_a])] else [])
        in \<lparr>sv_swap = (why1 = []), sv_reasons = why1, sv_diff = diff, sv_p_value = p,
            sv_champion_dd = Some dd_a, sv_challenger_dd = Some dd_b\<rparr>)"

definition rollback_due :: "time \<Rightarrow> time option \<Rightarrow> bool" where
  "rollback_due swapped_at demoted_at = (case demoted_at of
     None \<Rightarrow> False | Some d \<Rightarrow> swapped_at \<le> d \<and> d \<le> swapped_at + rollback_window)"

section \<open>Facts\<close>

text \<open>
  The evaluator's drawdown is a loop with three variables, the champion test's a vectorised one over the
  accumulated curve. Both are the largest fall below the running peak.
\<close>

lemma drawdown_loop_falls:
  "drawdown_loop rs peak cum worst = fold max (map2 (-) (running_max peak (cumsum cum rs)) (cumsum cum rs)) worst"
  by (induction rs peak cum worst rule: drawdown_loop.induct) (simp_all add: Let_def max.commute)

lemma fold_max_start:
  fixes x :: "'a :: linorder"
  assumes "x \<le> y"
  shows "fold max xs (max x y) = fold max xs y"
  using assms by (simp add: max.absorb2)

lemma falls_nonneg: "x \<in> set (map2 (-) (running_max m xs) xs) \<Longrightarrow> 0 \<le> x"
  by (induction xs arbitrary: m) (auto simp: max_def split: if_splits)

lemma drawdowns_agree: "champion_drawdown_r rs = max_drawdown_r rs"
proof (cases "map2 (-) (running_max 0 (cumsum 0 rs)) (cumsum 0 rs)")
  case Nil
  then have "rs = []" by (cases rs) simp_all
  then show ?thesis by (simp add: champion_drawdown_r_def max_drawdown_r_def)
next
  case (Cons x xs)
  then have "0 \<le> x" using falls_nonneg [of x 0 "cumsum 0 rs"] by simp
  moreover have "cumsum 0 rs \<noteq> []" using Cons by auto
  ultimately show ?thesis
    using Cons by (simp add: champion_drawdown_r_def max_drawdown_r_def drawdown_loop_falls Let_def max.absorb1)
qed

end
