(* ===== verification/Evaluator.thy ===== *)
theory Evaluator
  imports Registry Stage_Stats "HOL-Library.Product_Lexorder" "HOL-Library.List_Lexorder" "HOL-Library.Char_ord"
begin

text \<open>
  The stage evaluator (\<open>lifecycle/evaluator.py\<close>, thresholds of \<open>lifecycle/config.py\<close>). Its state is the
  registry, the stage data in memory and the world behind the demotion actions. The text of a number
  (\<open>repr\<close> of a float) and the seed of a version's key (a SHA-256) are parameters; the reasons they appear in
  decide nothing.
\<close>

section \<open>Thresholds\<close>

record promotion_config =
  pc_shadow_min_weeks :: flt
  pc_shadow_min_signals :: nat
  pc_shadow_band :: flt
  pc_micro_min_trades :: nat
  pc_micro_max_slippage :: flt
  pc_micro_band :: flt
  pc_live_min_trades :: nat
  pc_live_min_sharpe :: flt
  pc_dd_vs_mc_p95 :: flt
  pc_rolling_pf_window :: nat
  pc_rolling_pf_min :: flt
  pc_slippage_vs_model_max :: flt
  pc_slippage_window :: nat
  pc_drift_window :: nat
  pc_drift_interval :: flt
  pc_retire_after_demotions :: nat
  pc_retire_window_months :: nat
  pc_max_promotions_to_live :: nat

definition check_promotion :: "promotion_config \<Rightarrow> bool" where
  "check_promotion c \<longleftrightarrow>
     0 < pc_shadow_min_weeks c \<and> 0 < pc_shadow_min_signals c \<and> 0 < pc_shadow_band c \<and> pc_shadow_band c < 1 \<and>
     0 < pc_micro_min_trades c \<and> 0 < pc_micro_max_slippage c \<and> 0 < pc_micro_band c \<and> pc_micro_band c < 1 \<and>
     0 < pc_live_min_trades c \<and> 0 < pc_dd_vs_mc_p95 c \<and> 0 < pc_rolling_pf_window c \<and>
     0 < pc_rolling_pf_min c \<and> 0 < pc_slippage_vs_model_max c \<and> 0 < pc_slippage_window c \<and>
     0 < pc_drift_window c \<and> 0 < pc_drift_interval c \<and> pc_drift_interval c < 1 \<and>
     1 \<le> pc_retire_after_demotions c \<and> 1 \<le> pc_retire_window_months c"

section \<open>Stage data\<close>

record stage_data =
  sd_trade_rows :: "trade_record list"
  sd_signal_times :: "(version_key, time list) dict"
  sd_fill_rows :: "fill_record list"

definition shadow_account :: string where
  "shadow_account = ''shadow''"

definition add_trade :: "trade_record \<Rightarrow> stage_data \<Rightarrow> stage_data" where
  "add_trade t d = d\<lparr>sd_trade_rows := sd_trade_rows d @ [t]\<rparr>"

definition add_signal :: "version_key \<Rightarrow> time \<Rightarrow> stage_data \<Rightarrow> stage_data" where
  "add_signal k t d = d\<lparr>sd_signal_times := dict_set k
     ((case dict_get (sd_signal_times d) k of None \<Rightarrow> [] | Some ts \<Rightarrow> ts) @ [t]) (sd_signal_times d)\<rparr>"

definition data_trades :: "stage_data \<Rightarrow> version_key \<Rightarrow> time \<Rightarrow> bool \<Rightarrow> trade_record list" where
  "data_trades d k since shadow =
     sort_key tr_exit_time
       (filter (\<lambda>t. tr_strategy_id t = fst k \<and> tr_strategy_version t = snd k \<and> tr_entry_time t \<ge> since \<and>
                    (tr_account_id t = shadow_account) = shadow) (sd_trade_rows d))"

definition signal_count :: "stage_data \<Rightarrow> version_key \<Rightarrow> time \<Rightarrow> nat" where
  "signal_count d k since =
     length (filter (\<lambda>t. t \<ge> since) (case dict_get (sd_signal_times d) k of None \<Rightarrow> [] | Some ts \<Rightarrow> ts))"

definition data_fills :: "stage_data \<Rightarrow> version_key \<Rightarrow> time \<Rightarrow> fill_record list" where
  "data_fills d k since =
     filter (\<lambda>f. fr_strategy_id f = fst k \<and> fr_strategy_version f = snd k \<and> fr_filled_at f \<ge> since)
       (sd_fill_rows d)"

definition rs_of :: "trade_record list \<Rightarrow> flt list" where
  "rs_of ts = map tr_r_multiple ts"

text \<open>\<open>xs[-n:]\<close> for positive \<open>n\<close>.\<close>

definition last_n :: "nat \<Rightarrow> 'a list \<Rightarrow> 'a list" where
  "last_n n xs = drop (length xs - n) xs"

definition champion_record :: "trade_record list \<Rightarrow> time \<Rightarrow> time \<Rightarrow> shadow_record" where
  "champion_record ts since now =
     \<lparr>sh_r = map tr_r_multiple (sort_key tr_exit_time ts), sh_first_at = since, sh_last_at = now\<rparr>"

section \<open>The evaluator\<close>

record 'w demotion_actions =
  da_cancel_pending :: "string \<Rightarrow> string \<Rightarrow> string \<Rightarrow> ('w, unit) se"
  da_close_positions :: "string \<Rightarrow> string \<Rightarrow> string \<Rightarrow> ('w, unit) se"

record 'w eval_env =
  ee_registry :: registry_env
  ee_cfg :: promotion_config
  ee_boot :: bootstrap
  ee_seed :: "version_key \<Rightarrow> nat"
  ee_paused :: "string \<Rightarrow> string option"
  ee_text :: "real \<Rightarrow> string"
  ee_actions :: "'w demotion_actions option"

record 'w evaluator =
  el_reg :: registry
  el_data :: stage_data
  el_world :: 'w

definition on_reg :: "(registry, 'a) se \<Rightarrow> ('w evaluator, 'a) se" where
  "on_reg m = (\<lambda>s. case m (el_reg s) of (x, g) \<Rightarrow> (x, s\<lparr>el_reg := g\<rparr>))"

definition on_world :: "('w, 'a) se \<Rightarrow> ('w evaluator, 'a) se" where
  "on_world m = (\<lambda>s. case m (el_world s) of (x, w) \<Rightarrow> (x, s\<lparr>el_world := w\<rparr>))"

text \<open>\<open>try: m except Exception as e: h(e)\<close>.\<close>

definition catch_all :: "('s, 'a) se \<Rightarrow> (exn \<Rightarrow> ('s, 'a) se) \<Rightarrow> ('s, 'a) se" where
  "catch_all m h = (\<lambda>s. case m s of (Inl e, t) \<Rightarrow> h e t | r \<Rightarrow> r)"

definition el_now :: "'w evaluator \<Rightarrow> time" where
  "el_now s = rg_now (el_reg s)"

definition flt_text :: "'w eval_env \<Rightarrow> flt \<Rightarrow> string" where
  "flt_text E x = ee_text E (of_rat x)"

text \<open>Acting on a demotion: the stage change stands, a failure is alerted.\<close>

definition act :: "'w eval_env \<Rightarrow> version_state \<Rightarrow> stage \<Rightarrow> string \<Rightarrow> ('w evaluator, unit) se" where
  "act E v to reason = (case ee_actions E of
     None \<Rightarrow> ret ()
   | Some A \<Rightarrow>
       let sid = fst (vs_key v); ver = snd (vs_key v) in
       catch_all
         (seq (on_world (da_cancel_pending A sid ver reason))
              (when_do (to = Shadow \<or> to = Retired) (on_world (da_close_positions A sid ver reason))))
         (\<lambda>e. on_reg (registry_alert Critical ''demotion_action_failed''
                 (''{} {}: failed'', [AStr sid, AStr ver]) [])))"

definition demotion_target :: "promotion_config \<Rightarrow> time \<Rightarrow> version_state \<Rightarrow> stage" where
  "demotion_target c now v =
     (let window_start = now - days (round_int HalfEven (761 / 25 * of_nat (pc_retire_window_months c))) in
      if vs_stage v = Scaled then Live
      else if vs_stage v = Live then Micro
      else if demotions_since v window_start + 1 \<ge> pc_retire_after_demotions c then Retired
      else Shadow)"

definition demote ::
  "'w eval_env \<Rightarrow> version_state \<Rightarrow> string \<Rightarrow> (string, metric) dict \<Rightarrow> ('w evaluator, stage_changed) se" where
  "demote E v reason m =
     bnd (gets el_now) (\<lambda>now.
     let to = demotion_target (ee_cfg E) now v in
     bnd (on_reg (transition (ee_registry E) (vs_key v) to reason EvaluatorActor m)) (\<lambda>ev.
     seq (act E v to reason) (ret ev)))"

section \<open>Shadow\<close>

definition shadow_metrics ::
  "flt \<Rightarrow> nat \<Rightarrow> trade_record list \<Rightarrow> flt \<Rightarrow> flt \<times> flt \<Rightarrow> (string, metric) dict" where
  "shadow_metrics wks signals trades per_week band =
     [(''weeks'', MNum (of_int (round_int HalfEven (wks * 100)) / 100)), (''signals'', MInt (int signals)),
      (''trades'', MInt (int (length trades))), (''entries_per_week'', MNum per_week),
      (''rate_band_lo'', MNum (fst band)), (''rate_band_hi'', MNum (snd band))]"

definition shadow_verdict ::
  "'w eval_env \<Rightarrow> backtest_profile \<Rightarrow> flt \<Rightarrow> nat \<Rightarrow> trade_record list
    \<Rightarrow> exn + bool \<times> (string, metric) dict" where
  "shadow_verdict E p wks signals trades =
     (let c = ee_cfg E; per_week = of_nat (length trades) / wks; k = max 1 (round_int HalfEven wks) in
      sbind (bootstrap_mean_band (ee_boot E) (map of_int (bf_weekly_entries p)) k (pc_shadow_band c)) (\<lambda>rate_band.
      let m = shadow_metrics wks signals trades per_week rate_band; ok = inside per_week rate_band in
      if trades = [] then Inr (False, m)
      else
        sbind (bootstrap_mean_band (ee_boot E) (bf_trade_r p) (int (length trades)) (pc_shadow_band c)) (\<lambda>r_band.
          let avg = mean (rs_of trades) in
          Inr (ok \<and> inside avg r_band,
               m @ [(''avg_r'', MNum avg), (''r_band_lo'', MNum (fst r_band)), (''r_band_hi'', MNum (snd r_band))]))))"

definition eval_shadow :: "'w eval_env \<Rightarrow> version_state \<Rightarrow> ('w evaluator, stage_changed option) se" where
  "eval_shadow E v =
     bnd (gets el_now) (\<lambda>now.
     bnd (gets el_data) (\<lambda>d.
     let c = ee_cfg E; k = vs_key v; wks = of_int (now - vs_since v) / of_int (days 7);
         signals = signal_count d k (vs_since v) in
     if wks < pc_shadow_min_weeks c \<or> signals < pc_shadow_min_signals c then ret None
     else if vi_demo_only (vs_info v) then ret None
     else case vs_profile v of
       None \<Rightarrow> ret None
     | Some p \<Rightarrow>
         bnd (lift (shadow_verdict E p wks signals (data_trades d k (vs_since v) True))) (\<lambda>(ok, m).
           bnd (on_reg (if ok
                  then transition (ee_registry E) k Micro ''shadow matches backtest'' EvaluatorActor m
                  else transition (ee_registry E) k Retired ''shadow diverges from backtest'' EvaluatorActor m))
             (\<lambda>ev. ret (Some ev)))))"

section \<open>Money stages\<close>

definition slippage_ratio :: "fill_record list \<Rightarrow> backtest_profile option \<Rightarrow> flt option" where
  "slippage_ratio fills prof = (case prof of
     None \<Rightarrow> None
   | Some p \<Rightarrow>
       let model = map (\<lambda>f. case dict_get (bf_model_slippage p) (fr_symbol f) of None \<Rightarrow> 0 | Some x \<Rightarrow> x) fills;
           actual = concat (map (\<lambda>f. case fr_slippage f of None \<Rightarrow> [] | Some x \<Rightarrow> [x]) fills)
       in if actual = [] \<or> mean model \<le> 0 then None else Some (mean actual / mean model))"

definition drawdown_reason ::
  "'w eval_env \<Rightarrow> backtest_profile option \<Rightarrow> flt list \<Rightarrow> string list \<times> (string, metric) dict" where
  "drawdown_reason E prof rs = (case prof of
     None \<Rightarrow> ([], [])
   | Some p \<Rightarrow>
       let dd = max_drawdown_r rs; f = pc_dd_vs_mc_p95 (ee_cfg E) in
       (if dd > f * bf_mc_dd_p95_r p
        then [''drawdown '' @ flt_text E dd @ ''R > '' @ flt_text E f @ '' x MC p95 '' @
                flt_text E (bf_mc_dd_p95_r p) @ ''R''] else [],
        [(''dd_r'', MNum dd), (''mc_dd_p95_r'', MNum (bf_mc_dd_p95_r p))]))"

definition profit_reason :: "'w eval_env \<Rightarrow> flt list \<Rightarrow> string list \<times> (string, metric) dict" where
  "profit_reason E rs =
     (let w = pc_rolling_pf_window (ee_cfg E); low = pc_rolling_pf_min (ee_cfg E) in
      if length rs < w then ([], [])
      else case profit_factor (last_n w rs) of
        None \<Rightarrow> ([], [(''rolling_pf'', MInf)])
      | Some pf \<Rightarrow>
          (if pf < low then [''rolling PF '' @ flt_text E pf @ '' < '' @ flt_text E low] else [],
           [(''rolling_pf'', MNum pf)]))"

definition slippage_reason ::
  "'w eval_env \<Rightarrow> backtest_profile option \<Rightarrow> fill_record list \<Rightarrow> string list \<times> (string, metric) dict" where
  "slippage_reason E prof fills =
     (let w = pc_slippage_window (ee_cfg E); most = pc_slippage_vs_model_max (ee_cfg E) in
      case (if length fills \<ge> w then slippage_ratio (last_n w fills) prof else None) of
        None \<Rightarrow> ([], [])
      | Some ratio \<Rightarrow>
          (if ratio > most then [''slippage '' @ flt_text E ratio @ '' x model > '' @ flt_text E most] else [],
           [(''slippage_vs_model'', MNum ratio)]))"

definition hits :: "flt list \<Rightarrow> flt list" where
  "hits rs = map (\<lambda>r. if r > 0 then 1 else 0) rs"

definition outside_text :: "'w eval_env \<Rightarrow> string \<Rightarrow> flt \<Rightarrow> flt \<times> flt \<Rightarrow> string list" where
  "outside_text E name x band =
     (if inside x band then []
      else [name @ '' '' @ flt_text E x @ '' outside backtest band '' @ flt_text E (fst band) @ ''..'' @
              flt_text E (snd band)])"

definition drift_reasons ::
  "'w eval_env \<Rightarrow> backtest_profile option \<Rightarrow> flt list \<Rightarrow> exn + string list \<times> (string, metric) dict" where
  "drift_reasons E prof rs =
     (let c = ee_cfg E; w = pc_drift_window c in
      case prof of
        None \<Rightarrow> Inr ([], [])
      | Some p \<Rightarrow>
          if length rs < w then Inr ([], [])
          else
            let window = last_n w rs; wr = mean (hits window); ar = mean window in
            sbind (bootstrap_mean_band (ee_boot E) (hits (bf_trade_r p)) (int w) (pc_drift_interval c)) (\<lambda>wr_band.
            sbind (bootstrap_mean_band (ee_boot E) (bf_trade_r p) (int w) (pc_drift_interval c)) (\<lambda>ar_band.
              Inr (outside_text E ''win rate'' wr wr_band @ outside_text E ''avg R'' ar ar_band,
                   [(''win_rate'', MNum wr), (''avg_r'', MNum ar)]))))"

definition demotion_reasons ::
  "'w eval_env \<Rightarrow> version_state \<Rightarrow> trade_record list \<Rightarrow> fill_record list
    \<Rightarrow> exn + string list \<times> (string, metric) dict" where
  "demotion_reasons E v trades fills =
     (let rs = rs_of trades; p = vs_profile v;
          a = drawdown_reason E p rs; b = profit_reason E rs; c = slippage_reason E p fills in
      sbind (drift_reasons E p rs) (\<lambda>d.
        Inr (fst a @ fst b @ fst c @ fst d,
             (''trades'', MInt (int (length trades))) # snd a @ snd b @ snd c @ snd d)))"

text \<open>\<open>m.update(...)\<close>.\<close>

definition dict_update :: "('k, 'v) dict \<Rightarrow> ('k, 'v) dict \<Rightarrow> ('k, 'v) dict" where
  "dict_update d new = fold (\<lambda>(k, x). dict_set k x) new d"

definition micro_exit ::
  "'w eval_env \<Rightarrow> version_state \<Rightarrow> trade_record list \<Rightarrow> fill_record list \<Rightarrow> (string, metric) dict
    \<Rightarrow> ('w evaluator, stage_changed option) se" where
  "micro_exit E v trades fills m = (let c = ee_cfg E in
     case vs_profile v of
       None \<Rightarrow> ret None
     | Some p \<Rightarrow>
         if length trades < pc_micro_min_trades c then ret None
         else
           bnd (lift (bootstrap_mean_band (ee_boot E) (bf_trade_r p) (int (length trades)) (pc_micro_band c)))
             (\<lambda>band.
           let ratio = slippage_ratio fills (Some p); avg = mean (rs_of trades);
               m1 = dict_update m [(''slippage_vs_model'', case ratio of None \<Rightarrow> MNone | Some x \<Rightarrow> MNum x),
                      (''avg_r'', MNum avg), (''r_band_lo'', MNum (fst band)), (''r_band_hi'', MNum (snd band))] in
           if (case ratio of None \<Rightarrow> False | Some x \<Rightarrow> x > pc_micro_max_slippage c) \<or> \<not> inside avg band
           then ret None
           else
             bnd (gets el_now) (\<lambda>now.
             bnd (gets (\<lambda>s. promotions_to Live (now - days 7) (el_reg s))) (\<lambda>n.
               if n \<ge> pc_max_promotions_to_live c then ret None
               else bnd (on_reg (transition (ee_registry E) (vs_key v) Live ''micro targets met'' EvaluatorActor m1))
                      (\<lambda>ev. ret (Some ev))))))"

definition eval_money :: "'w eval_env \<Rightarrow> version_state \<Rightarrow> ('w evaluator, stage_changed option) se" where
  "eval_money E v =
     bnd (gets el_data) (\<lambda>d.
     let c = ee_cfg E; k = vs_key v;
         since = (case money_since v of None \<Rightarrow> vs_since v | Some t \<Rightarrow> t);
         trades = data_trades d k since False; fills = data_fills d k since in
     bnd (lift (demotion_reasons E v trades fills)) (\<lambda>(reasons, m).
       if reasons \<noteq> []
       then bnd (demote E v (join_with ''; '' reasons) m) (\<lambda>ev. ret (Some ev))
       else
         let stage_trades = filter (\<lambda>t. tr_entry_time t \<ge> vs_since v) trades in
         if vs_stage v = Micro then micro_exit E v stage_trades fills m
         else
           let sharpe = annualized_sharpe (daily_r (last_n (pc_live_min_trades c) trades));
               low = of_rat (pc_live_min_sharpe c);
               m1 = dict_set ''rolling_sharpe'' (MReal sharpe) m in
           if vs_stage v = Live \<and> length stage_trades \<ge> pc_live_min_trades c \<and> sharpe \<ge> low
           then bnd (on_reg (transition (ee_registry E) k Scaled ''live targets met'' EvaluatorActor m1))
                  (\<lambda>ev. ret (Some ev))
           else if vs_stage v = Scaled \<and> sharpe < low
           then bnd (demote E v (''rolling Sharpe '' @ ee_text E sharpe @ '' slipped below '' @ ee_text E low) m1)
                  (\<lambda>ev. ret (Some ev))
           else ret None))"

section \<open>One version, all versions\<close>

definition maybe_rollback :: "'w eval_env \<Rightarrow> stage_changed \<Rightarrow> ('w evaluator, stage_changed list) se" where
  "maybe_rollback E ev =
     (if (sc_from ev, sc_to ev) \<notin> set demotions \<and> sc_to ev \<noteq> Retired then ret []
      else bnd (gets (\<lambda>s. last_swap (sc_strategy_id ev) (el_reg s))) (\<lambda>r. case r of
        None \<Rightarrow> ret []
      | Some (t, new, _, _) \<Rightarrow>
          if new \<noteq> sc_strategy_version ev \<or> \<not> rollback_due t (Some (sc_at ev)) then ret []
          else on_reg (rollback (ee_registry E) (sc_strategy_id ev)
                 (sc_strategy_version ev @ '' demoted: '' @ sc_reason ev))))"

definition evaluate :: "'w eval_env \<Rightarrow> version_key \<Rightarrow> ('w evaluator, stage_changed option) se" where
  "evaluate E k =
     bnd (on_reg (get_version k)) (\<lambda>v.
       if vs_stage v = Shadow then eval_shadow E v
       else if vs_stage v \<in> set money_stages
       then bnd (eval_money E v) (\<lambda>r. case r of
              None \<Rightarrow> ret None
            | Some ev \<Rightarrow> bnd (maybe_rollback E ev) (\<lambda>_. ret (Some ev)))
       else ret None)"

definition challengers :: "registry \<Rightarrow> version_state list" where
  "challengers g = filter (\<lambda>v. learned (vi_origin (vs_info v)) \<and> vi_parent_version (vs_info v) \<noteq> None)
     (versions (Some Shadow) g)"

definition trial_of ::
  "time \<Rightarrow> string \<Rightarrow> string \<Rightarrow> string \<Rightarrow> nat \<Rightarrow> swap_verdict \<Rightarrow> shadow_record \<Rightarrow> shadow_record \<Rightarrow> swap_trial" where
  "trial_of now sid champion challenger k verdict a b =
     \<lparr>st_at = now, st_strategy_id = sid, st_champion = champion, st_challenger = challenger, st_k = k,
      st_swap = sv_swap verdict, st_diff = sv_diff verdict, st_p_value = sv_p_value verdict,
      st_champion_dd = sv_champion_dd verdict, st_challenger_dd = sv_challenger_dd verdict,
      st_champion_signals = length (sh_r a), st_challenger_signals = length (sh_r b),
      st_reasons = sv_reasons verdict\<rparr>"

definition metric_of :: "flt option \<Rightarrow> metric" where
  "metric_of x = (case x of None \<Rightarrow> MNone | Some y \<Rightarrow> MNum y)"

definition opt_number :: "'w eval_env \<Rightarrow> flt option \<Rightarrow> string" where
  "opt_number E x = (case x of None \<Rightarrow> ''None'' | Some y \<Rightarrow> flt_text E y)"

definition review_one ::
  "'w eval_env \<Rightarrow> time \<Rightarrow> version_state list \<Rightarrow> version_state \<Rightarrow> stage_changed list
    \<Rightarrow> ('w evaluator, stage_changed list) se" where
  "review_one E now shadow chal out =
     (let sid = vi_strategy_id (vs_info chal); version = vi_version (vs_info chal) in
      case vi_parent_version (vs_info chal) of
        None \<Rightarrow> ret out
      | Some parent \<Rightarrow>
          bnd (on_reg (get_version (sid, parent))) (\<lambda>champ.
            if vs_stage champ \<notin> set money_stages then ret out
            else
              bnd (gets (\<lambda>s. (el_data s, last_swap sid (el_reg s)))) (\<lambda>(d, prev).
              let since = vs_since chal;
                  k = length (filter (\<lambda>v. vi_strategy_id (vs_info v) = sid \<and>
                                          vi_parent_version (vs_info v) = Some parent) shadow);
                  a = champion_record (data_trades d (sid, parent) since False) since now;
                  b = champion_record (data_trades d (sid, version) since True) since now;
                  verdict = swap_test (ee_boot E) a b now k (map_option fst prev) (ee_seed E (vs_key chal)) in
              seq (on_reg (record_swap_test (ee_registry E) (trial_of now sid parent version k verdict a b)))
              (if sv_swap verdict
               then bnd (on_reg (swap (ee_registry E) sid parent version
                          (opt_number E (sv_diff verdict) @ ''R per signal, p '' @ opt_number E (sv_p_value verdict))
                          [(''diff'', metric_of (sv_diff verdict)), (''p_value'', metric_of (sv_p_value verdict))]))
                      (\<lambda>(x, y). ret (out @ [x, y]))
               else ret out))))"

definition review_challengers :: "'w eval_env \<Rightarrow> ('w evaluator, stage_changed list) se" where
  "review_challengers E =
     (if ee_paused E ''L2'' \<noteq> None then ret []
      else
        bnd (gets el_now) (\<lambda>now.
        bnd (gets (\<lambda>s. challengers (el_reg s))) (\<lambda>shadow.
          fold_each (review_one E now shadow) (sort_key vs_key shadow) [])))"

definition evaluate_all :: "'w eval_env \<Rightarrow> ('w evaluator, stage_changed list) se" where
  "evaluate_all E =
     bnd (gets (\<lambda>s. map vs_key (versions None (el_reg s)))) (\<lambda>ks.
     bnd (fold_each (\<lambda>k out. bnd (evaluate E k) (\<lambda>r.
            ret (case r of None \<Rightarrow> out | Some ev \<Rightarrow> out @ [ev]))) ks []) (\<lambda>out.
     bnd (review_challengers E) (\<lambda>more. ret (out @ more))))"

definition on_trade_closed :: "'w eval_env \<Rightarrow> trade_record \<Rightarrow> ('w evaluator, stage_changed option) se" where
  "on_trade_closed E t = evaluate E (tr_strategy_id t, tr_strategy_version t)"

end
