(* ===== verification/Evaluator_Properties.thy ===== *)
theory Evaluator_Properties
  imports Evaluator Registry_Properties
begin

text \<open>The two drawdowns are one number; the swap test; demotions act on the book; what a rollback does.\<close>

section \<open>Drawdown\<close>

text \<open>The equity after \<open>i\<close> trades.\<close>

definition equity :: "flt list \<Rightarrow> nat \<Rightarrow> flt" where
  "equity rs i = sum_list (take i rs)"

lemma equity_simps [simp]: "equity rs 0 = 0" "equity (r # rs) (Suc i) = r + equity rs i" "equity [] i = 0"
  by (simp_all add: equity_def)

lemma drawdown_loop_ge:
  assumes "cum \<le> peak" and "peak - cum \<le> worst"
  shows "worst \<le> drawdown_loop rs peak cum worst \<and>
    (\<forall>j \<le> length rs. peak - (cum + equity rs j) \<le> drawdown_loop rs peak cum worst \<and>
      (\<forall>i \<le> j. equity rs i - equity rs j \<le> drawdown_loop rs peak cum worst))"
  using assms
proof (induction rs arbitrary: peak cum worst)
  case (Cons r rs)
  let ?c = "cum + r" let ?p = "max peak ?c" let ?w = "max worst (?p - ?c)"
  let ?d = "drawdown_loop (r # rs) peak cum worst"
  have IH: "?w \<le> ?d" "\<And>j. j \<le> length rs \<Longrightarrow> ?p - (?c + equity rs j) \<le> ?d"
    "\<And>i j. j \<le> length rs \<Longrightarrow> i \<le> j \<Longrightarrow> equity rs i - equity rs j \<le> ?d"
    using Cons.IH [of ?c ?p ?w] by (simp_all add: Let_def)
  have "peak - (cum + equity (r # rs) j) \<le> ?d \<and> (\<forall>i \<le> j. equity (r # rs) i - equity (r # rs) j \<le> ?d)"
    if j: "j \<le> length (r # rs)" for j
  proof (cases j)
    case 0
    with IH(1) Cons.prems show ?thesis by simp
  next
    case (Suc n)
    with j have n: "n \<le> length rs" by simp
    have "equity (r # rs) i - equity (r # rs) j \<le> ?d" if "i \<le> j" for i
      using IH(2) [OF n] IH(3) [OF n] that Cons.prems(1) Suc by (cases i) (simp_all add: max_def split: if_splits)
    with IH(2) [OF n] Suc show ?thesis by (simp add: max_def split: if_splits)
  qed
  with IH(1) show ?case by auto
qed simp

lemma drawdown_loop_attained:
  "drawdown_loop rs peak cum worst = worst \<or>
   (\<exists>j \<le> length rs. drawdown_loop rs peak cum worst = peak - (cum + equity rs j)) \<or>
   (\<exists>j \<le> length rs. \<exists>i \<le> j. drawdown_loop rs peak cum worst = equity rs i - equity rs j)"
proof (induction rs arbitrary: peak cum worst)
  case (Cons r rs)
  let ?c = "cum + r" let ?p = "max peak ?c" let ?w = "max worst (?p - ?c)"
  let ?d = "drawdown_loop (r # rs) peak cum worst"
  have d: "?d = drawdown_loop rs ?p ?c ?w" by (simp add: Let_def)
  consider "?d = worst" | "?d = ?p - ?c" | j where "j \<le> length rs" "?d = ?p - (?c + equity rs j)"
    | i j where "j \<le> length rs" "i \<le> j" "?d = equity rs i - equity rs j"
    using Cons.IH [of ?p ?c ?w] unfolding d by (auto simp: max_def split: if_splits)
  then show ?case
  proof cases
    case 2
    then show ?thesis
      by (cases "peak \<le> ?c") (auto simp: max_def intro!: exI [of _ 1] exI [of _ "1::nat"])
  next
    case (3 j)
    show ?thesis
    proof (cases "peak \<le> ?c")
      case True
      with 3 have "?d = equity (r # rs) 1 - equity (r # rs) (Suc j)" by simp
      then show ?thesis using 3(1) by (metis One_nat_def Suc_le_mono length_Cons zero_le)
    next
      case False
      with 3 have "?d = peak - (cum + equity (r # rs) (Suc j))" by (simp add: max_def)
      then show ?thesis using 3(1) by (metis Suc_le_mono length_Cons)
    qed
  next
    case (4 i j)
    then have "?d = equity (r # rs) (Suc i) - equity (r # rs) (Suc j)" by simp
    then show ?thesis using 4(1,2) by (metis Suc_le_mono length_Cons)
  qed simp
qed simp

lemma max_drawdown_Max:
  "max_drawdown_r rs = Max {equity rs i - equity rs j | i j. i \<le> j \<and> j \<le> length rs}"
proof (rule Max_eqI [symmetric])
  have "{equity rs i - equity rs j | i j. i \<le> j \<and> j \<le> length rs} \<subseteq>
      (\<lambda>(i, j). equity rs i - equity rs j) ` ({..length rs} \<times> {..length rs})" by force
  then show "finite {equity rs i - equity rs j | i j. i \<le> j \<and> j \<le> length rs}"
    by (rule finite_subset) simp
next
  fix y
  assume "y \<in> {equity rs i - equity rs j | i j. i \<le> j \<and> j \<le> length rs}"
  then show "y \<le> max_drawdown_r rs"
    using drawdown_loop_ge [of 0 0 0 rs] by (auto simp: max_drawdown_r_def)
next
  have "max_drawdown_r rs = equity rs 0 - equity rs 0 \<or>
    (\<exists>j \<le> length rs. max_drawdown_r rs = equity rs 0 - equity rs j) \<or>
    (\<exists>j \<le> length rs. \<exists>i \<le> j. max_drawdown_r rs = equity rs i - equity rs j)"
    using drawdown_loop_attained [of rs 0 0 0] by (simp add: max_drawdown_r_def)
  then show "max_drawdown_r rs \<in> {equity rs i - equity rs j | i j. i \<le> j \<and> j \<le> length rs}" by blast
qed

text \<open>The evaluator's drawdown (a loop with three variables) and the swap test's (accumulated curves) are the
  same number on every sequence of results: the largest fall of the equity from an earlier point to a later
  one, and so never negative.\<close>

theorem drawdowns_are_largest_fall:
  "max_drawdown_r rs = Max {equity rs i - equity rs j | i j. i \<le> j \<and> j \<le> length rs} \<and>
   champion_drawdown_r rs = max_drawdown_r rs \<and> 0 \<le> max_drawdown_r rs"
  using max_drawdown_Max [of rs] drawdowns_agree [of rs] drawdown_loop_ge [of 0 0 0 rs]
  by (simp add: max_drawdown_r_def)

section \<open>The swap test\<close>

lemma too_short_iff: "too_short name s = [] \<longleftrightarrow> 4 \<le> record_weeks s \<and> 40 \<le> length (sh_r s)"
  by (simp add: too_short_def min_weeks_def min_signals_def not_less)

text \<open>A challenger replaces its champion exactly when both records span four weeks and forty signals, the last
  swap is thirty days old, the challenger's mean is higher, the bootstrap p is below a tenth shared among the
  challengers, and its drawdown is at most 1.2 times the champion's; and a verdict gives reasons exactly when
  it refuses.\<close>

theorem swap_verdict_iff:
  "let v = swap_test B champ chal now k prev seed in
   (sv_swap v \<longleftrightarrow> sv_reasons v = []) \<and>
   (sv_swap v \<longleftrightarrow>
     4 \<le> record_weeks champ \<and> 40 \<le> length (sh_r champ) \<and> 4 \<le> record_weeks chal \<and> 40 \<le> length (sh_r chal) \<and>
     (case prev of None \<Rightarrow> True | Some t \<Rightarrow> now - t \<ge> days 30) \<and>
     mean (sh_r champ) < mean (sh_r chal) \<and> bn_p B (sh_r champ) (sh_r chal) seed < 1 / 10 / of_nat (max k 1) \<and>
     max_drawdown_r (sh_r chal) \<le> 6 / 5 * max_drawdown_r (sh_r champ))"
proof -
  let ?why = "too_short ''champion'' champ @ too_short ''challenger'' chal @ too_soon now prev"
  have soon: "too_soon now prev = [] \<longleftrightarrow> (case prev of None \<Rightarrow> True | Some t \<Rightarrow> now - t \<ge> days 30)"
    by (simp add: too_soon_def swap_gap_def not_less split: option.split)
  have empty: "?why \<noteq> []" if "sh_r champ = [] \<or> sh_r chal = []" using that by (auto simp: too_short_iff)
  show ?thesis
  proof (cases "sh_r champ = [] \<or> sh_r chal = []")
    case True
    with empty show ?thesis by (auto simp: swap_test_def Let_def)
  next
    case False
    then show ?thesis
      by (simp add: swap_test_def Let_def soon too_short_iff drawdowns_agree alpha_def dd_ratio_def not_le not_less)
  qed
qed

section \<open>A demotion reaches the book\<close>

lemma on_reg_Inr: "on_reg m s = (Inr y, t) \<longleftrightarrow> (\<exists>g. m (el_reg s) = (Inr y, g) \<and> t = s\<lparr>el_reg := g\<rparr>)"
  by (auto simp: on_reg_def split: prod.splits)

lemmas inr_simps = bnd_Inr seq_Inr ret_Inr gets_Inr lift_Inr on_reg_Inr

definition told_more :: "registry \<Rightarrow> registry \<Rightarrow> bool" where
  "told_more g g' \<longleftrightarrow> (\<exists>xs. rg_alerts g' = rg_alerts g @ xs)"

interpretation told: step_rel told_more
  by unfold_locales (auto simp: told_more_def)

lemma told_append: "keeps told_more (append_apply E kind p)"
  by (auto simp: keeps_def told_more_def append_apply_def Let_def split: sum.splits)

lemma told_alert: "keeps told_more (registry_alert sev kind msg d)"
  by (auto simp: registry_alert_def told_more_def intro!: told.keeps_modif)

lemma told_change: "keeps told_more (record_change E v to reason a m)"
  unfolding record_change_def Let_def
  by (intro told.keeps_rules told_append told_alert told.keeps_modif) (simp_all add: told_more_def)

lemma told_illegal: "keeps told_more (illegal msg)"
  unfolding illegal_def by (intro told.keeps_rules told_alert)

lemma told_get: "keeps told_more (get_version k)"
  unfolding get_version_def by (intro told.keeps_rules)

lemma told_rollback: "keeps told_more (rollback E sid reason)"
  unfolding rollback_def by (intro told.keeps_rules told_get told_change told_illegal)

lemma transition_event:
  assumes "transition E k to reason a m g = (Inr ev, g')" and "dict_get (rg_versions g) k = Some v"
  shows "sc_from ev = vs_stage v \<and> sc_to ev = to \<and> sc_reason ev = reason \<and>
    (sc_strategy_id ev, sc_strategy_version ev) = vs_key v \<and> told_more g g'"
proof -
  have run: "record_change E v to reason a m g = (Inr ev, g')"
    using assms by (auto simp: transition_def get_version_bnd illegal_def inr_simps raise_def split: if_splits)
  then have "sc_from ev = vs_stage v \<and> sc_to ev = to \<and> sc_reason ev = reason \<and>
    (sc_strategy_id ev, sc_strategy_version ev) = vs_key v"
    by (auto simp: record_change_def Let_def inr_simps vs_key_def info_key_def)
  with keepsD [OF told_change run] show ?thesis by simp
qed

text \<open>The orders of the version are cancelled; its positions are closed when it lost its money.\<close>

definition acted :: "'w demotion_actions \<Rightarrow> stage_changed \<Rightarrow> 'w \<Rightarrow> 'w \<Rightarrow> bool" where
  "acted A ev w w' \<longleftrightarrow>
     (\<exists>w1. da_cancel_pending A (sc_strategy_id ev) (sc_strategy_version ev) (sc_reason ev) w = (Inr (), w1) \<and>
       (if sc_to ev = Shadow \<or> sc_to ev = Retired
        then da_close_positions A (sc_strategy_id ev) (sc_strategy_version ev) (sc_reason ev) w1 = (Inr (), w')
        else w' = w1))"

definition owner_told :: "stage_changed \<Rightarrow> alert list \<Rightarrow> bool" where
  "owner_told ev xs \<longleftrightarrow> (\<exists>al \<in> set xs. al_severity al = Critical \<and> al_kind al = ''demotion_action_failed'' \<and>
     al_message al = (''{} {}: failed'', [AStr (sc_strategy_id ev), AStr (sc_strategy_version ev)]))"

definition acted_or_told :: "'w demotion_actions \<Rightarrow> stage_changed \<Rightarrow> 'w evaluator \<Rightarrow> 'w evaluator \<Rightarrow> bool" where
  "acted_or_told A ev s t \<longleftrightarrow>
     (\<exists>xs. rg_alerts (el_reg t) = rg_alerts (el_reg s) @ xs \<and>
       (acted A ev (el_world s) (el_world t) \<or> owner_told ev xs))"

lemma act_outcome:
  assumes "ee_actions E = Some A" and "act E v to reason s = (r, t)"
    and "(sc_strategy_id ev, sc_strategy_version ev) = vs_key v" and "sc_to ev = to" and "sc_reason ev = reason"
  shows "r = Inr () \<and> acted_or_told A ev s t"
proof -
  let ?m = "seq (on_world (da_cancel_pending A (fst (vs_key v)) (snd (vs_key v)) reason))
    (when_do (to = Shadow \<or> to = Retired) (on_world (da_close_positions A (fst (vs_key v)) (snd (vs_key v)) reason)))"
  have ids: "sc_strategy_id ev = fst (vs_key v)" "sc_strategy_version ev = snd (vs_key v)"
    using assms(3) by (metis fst_conv snd_conv)+
  obtain x u where x: "?m s = (x, u)" by (cases "?m s")
  have reg: "el_reg u = el_reg s"
    using x by (auto simp: seq_def bnd_def when_do_def on_world_def ret_def split: prod.splits sum.splits if_splits)
  show ?thesis
  proof (cases x)
    case (Inl e)
    then show ?thesis using assms(1,2) x reg ids
      by (auto simp: act_def Let_def catch_all_def on_reg_def registry_alert_def modif_def acted_or_told_def owner_told_def)
  next
    case (Inr y)
    then have "acted A ev (el_world s) (el_world u)" "t = u" "r = Inr ()" using assms x ids
      by (auto simp: act_def Let_def catch_all_def acted_def seq_def bnd_def when_do_def on_world_def ret_def
          split: prod.splits sum.splits if_splits)
    with reg show ?thesis by (simp add: acted_or_told_def)
  qed
qed

lemma demote_outcome:
  assumes "ee_actions E = Some A" and "dict_get (rg_versions (el_reg s)) (vs_key v) = Some v"
    and "demote E v reason m s = (Inr ev, t)"
  shows "acted_or_told A ev s t"
proof -
  let ?to = "demotion_target (ee_cfg E) (el_now s) v"
  obtain g where g: "transition (ee_registry E) (vs_key v) ?to reason EvaluatorActor m (el_reg s) = (Inr ev, g)"
      and act: "act E v ?to reason (s\<lparr>el_reg := g\<rparr>) = (Inr (), t)"
    using assms(3) by (auto simp: demote_def Let_def inr_simps)
  note ev = transition_event [OF g assms(2)]
  have "acted_or_told A ev (s\<lparr>el_reg := g\<rparr>) t"
    using act_outcome [OF assms(1) act] ev by blast
  with ev show ?thesis by (fastforce simp: acted_or_told_def told_more_def owner_told_def)
qed

lemma maybe_rollback_frame:
  assumes "maybe_rollback E ev s = (r, t)"
  shows "el_world t = el_world s \<and> told_more (el_reg s) (el_reg t)"
proof -
  have same: "told_more (el_reg s) (el_reg s)" by (rule told.step_refl)
  have "told_more (el_reg s) g" if "rollback (ee_registry E) sid reason (el_reg s) = (x, g)" for sid reason x g
    using keepsD [OF told_rollback that] .
  with assms same show ?thesis
    by (auto simp: maybe_rollback_def bnd_gets ret_def on_reg_def split: if_splits option.splits prod.splits)
qed

lemma money_demotes:
  assumes "ee_actions E = Some A" and "dict_get (rg_versions (el_reg s)) (vs_key v) = Some v"
    and "eval_money E v s = (Inr (Some ev), t)" and "(sc_from ev, sc_to ev) \<in> set demotions"
  shows "acted_or_told A ev s t"
proof -
  have up: False if "transition (ee_registry E) (vs_key v) to reason EvaluatorActor m (el_reg s) = (Inr ev, g)"
      and "(vs_stage v, to) \<in> {(Micro, Live), (Live, Scaled)}" for to reason m g
    using transition_event [OF that(1) assms(2)] assms(4) that(2) by (auto simp: demotions_def)
  have down: "acted_or_told A ev s t" if "demote E v reason m s = (Inr ev, t)" for reason m
    using demote_outcome [OF assms(1,2) that] .
  show ?thesis
    using assms(3) up down
    by (auto simp: eval_money_def micro_exit_def Let_def inr_simps split: if_splits option.splits)
qed

lemma shadow_no_demotion:
  assumes "dict_get (rg_versions (el_reg s)) (vs_key v) = Some v" and "vs_stage v = Shadow"
    and "eval_shadow E v s = (Inr (Some ev), t)"
  shows "(sc_from ev, sc_to ev) \<notin> set demotions"
proof -
  obtain to reason m g where "transition (ee_registry E) (vs_key v) to reason EvaluatorActor m (el_reg s) = (Inr ev, g)"
    using assms(3) by (auto simp: eval_shadow_def Let_def inr_simps split: if_splits option.splits)
  from transition_event [OF this assms(1)] assms(2) show ?thesis by (simp add: demotions_def)
qed


section \<open>A rollback\<close>

lemma rollback_run:
  assumes "lines_nonempty R" and ok: "registry_ok R g" and last: "last_swap sid g = Some (t, new, old, st)"
    and new: "dict_get (rg_versions g) (sid, new) = Some new_v" and "vs_stage new_v \<noteq> Shadow"
    and old: "dict_get (rg_versions g) (sid, old) = Some old_v" and "vs_stage old_v = Shadow"
  shows "\<exists>evs g' new' old'. rollback R sid reason g = (Inr evs, g') \<and>
    dict_get (rg_versions g') (sid, new) = Some new' \<and> vs_stage new' = Shadow \<and>
    dict_get (rg_versions g') (sid, old) = Some old' \<and> vs_stage old' = st"
proof -
  have keys: "vs_key old_v = (sid, old)" "vs_key new_v = (sid, new)"
    using registry_key [OF ok] old new by auto
  have diff: "new \<noteq> old" using new old assms(5,7) by auto
  let ?r1 = "rollback_reason @ '' '' @ old @ '': '' @ reason"
  let ?r2 = "rollback_reason @ '' restored over '' @ new @ '': '' @ reason"
  let ?c1 = "record_change R new_v Shadow ?r1 EvaluatorActor []"
  let ?c2 = "record_change R old_v st ?r2 EvaluatorActor []"
  obtain a g1 r1 where 1: "?c1 g = (Inr a, g1)" "registry_ok R g1"
      "rg_versions g1 = dict_set (sid, new) (staged r1 new_v) (rg_versions g)" "sr_to r1 = Shadow"
    using record_change_run [OF assms(1) ok, of new_v Shadow ?r1 EvaluatorActor "[]"] new keys by auto
  have "dict_get (rg_versions g1) (vs_key old_v) = Some old_v" using 1(3) old keys diff by simp
  then obtain b g2 r2 where 2: "?c2 g1 = (Inr b, g2)"
      "rg_versions g2 = dict_set (sid, old) (staged r2 old_v) (rg_versions g1)" "sr_to r2 = st"
    using record_change_run [OF assms(1) 1(2), of old_v st ?r2 EvaluatorActor "[]"] keys by auto
  have e1: "bnd ?c1 (\<lambda>ev. ret [ev]) g = (Inr [a], g1)"
    unfolding bnd_run [of ?c1, OF 1(1)] by (simp add: ret_def)
  have "rollback R sid reason g = bnd (bnd ?c1 (\<lambda>ev. ret [ev])) (\<lambda>out. bnd ?c2 (\<lambda>ev. ret (out @ [ev]))) g"
    using assms(5,7) by (simp add: rollback_def bnd_gets last get_version_bnd [OF old] get_version_bnd [OF new])
  also have "\<dots> = (Inr [a, b], g2)"
    unfolding bnd_run [of "bnd ?c1 (\<lambda>ev. ret [ev])", OF e1] bnd_run [of ?c2, OF 2(1)] by (simp add: ret_def)
  finally show ?thesis using 1 2 diff by (auto simp: staged_def)
qed

text \<open>\<open>Retired\<close> is final on the ladder, yet a rollback leaves it: when the evaluator retires a new champion within
  four weeks of its swap, the rollback that follows at once puts the retired version back into shadow,
  where it is evaluated again.\<close>

theorem rollback_revives_retired:
  assumes "lines_nonempty (ee_registry E)" and "registry_ok (ee_registry E) (el_reg s)"
    and "last_swap sid (el_reg s) = Some (swapped, new, old, st)"
    and "dict_get (rg_versions (el_reg s)) (sid, new) = Some new_v" and "vs_stage new_v = Retired"
    and "dict_get (rg_versions (el_reg s)) (sid, old) = Some old_v" and "vs_stage old_v = Shadow"
    and "sc_strategy_id ev = sid" and "sc_strategy_version ev = new" and "sc_to ev = Retired"
    and "swapped \<le> sc_at ev" and "sc_at ev \<le> swapped + days 28"
  shows "\<exists>evs t new' old'. maybe_rollback E ev s = (Inr evs, t) \<and>
    dict_get (rg_versions (el_reg t)) (sid, new) = Some new' \<and> vs_stage new' = Shadow \<and>
    dict_get (rg_versions (el_reg t)) (sid, old) = Some old' \<and> vs_stage old' = st"
proof -
  have "vs_stage new_v \<noteq> Shadow" using assms(5) by simp
  from rollback_run [OF assms(1-4) this assms(6,7)] obtain evs g' new' old' where
      "rollback (ee_registry E) sid (new @ '' demoted: '' @ sc_reason ev) (el_reg s) = (Inr evs, g')"
      "dict_get (rg_versions g') (sid, new) = Some new'" "vs_stage new' = Shadow"
      "dict_get (rg_versions g') (sid, old) = Some old'" "vs_stage old' = st" by blast
  then show ?thesis
    using assms(3,8-12)
    by (auto simp: maybe_rollback_def bnd_gets rollback_due_def rollback_window_def on_reg_def)
qed

section \<open>Runs\<close>

definition toy_config :: promotion_config where
  "toy_config = \<lparr>pc_shadow_min_weeks = 2, pc_shadow_min_signals = 3, pc_shadow_band = 9 / 10, pc_micro_min_trades = 2,
     pc_micro_max_slippage = 2, pc_micro_band = 9 / 10, pc_live_min_trades = 2, pc_live_min_sharpe = 1,
     pc_dd_vs_mc_p95 = 1, pc_rolling_pf_window = 20, pc_rolling_pf_min = 1, pc_slippage_vs_model_max = 2,
     pc_slippage_window = 20, pc_drift_window = 20, pc_drift_interval = 9 / 10, pc_retire_after_demotions = 1,
     pc_retire_window_months = 6, pc_max_promotions_to_live = 1\<rparr>"

definition toy_eval_with :: "'w demotion_actions \<Rightarrow> 'w eval_env" where
  "toy_eval_with A = \<lparr>ee_registry = toy_registry, ee_cfg = toy_config,
     ee_boot = \<lparr>bn_band = (\<lambda>_ _ _. (-1, 1)), bn_p = (\<lambda>_ _ _. 0)\<rparr>, ee_seed = (\<lambda>_. 0), ee_paused = (\<lambda>_. None),
     ee_text = (\<lambda>_. ''x''), ee_actions = Some A\<rparr>"

text \<open>A world that counts what it is asked to do.\<close>

definition counting :: "(nat \<times> nat) demotion_actions" where
  "counting = \<lparr>da_cancel_pending = (\<lambda>_ _ _. modif (\<lambda>(c, p). (c + 1, p))),
     da_close_positions = (\<lambda>_ _ _. modif (\<lambda>(c, p). (c, p + 1)))\<rparr>"

definition toy_eval :: "(nat \<times> nat) eval_env" where
  "toy_eval = toy_eval_with counting"

definition lost_trade :: trade_record where
  "lost_trade = \<lparr>tr_trade_id = ''t1'', tr_account_id = ''a'', tr_tenant_id = ''default'', tr_strategy_id = ''swing'',
     tr_strategy_version = ''1'', tr_symbol = ''EURUSD'', tr_side = Buy, tr_lots = 1, tr_entry_time = 20,
     tr_entry_price = 1, tr_stop_price = 1, tr_exit_time = 30, tr_exit_price = 1, tr_pnl_gross = 0, tr_costs = 0,
     tr_pnl_net = 0, tr_money_at_risk = 1, tr_r_multiple = -10, tr_mae = 0, tr_mfe = 0\<rparr>"

definition micro_ops :: "registry_op list" where
  "micro_ops = admit champion_info @ [RgTransition (''swing'', ''1'') Micro ''shadow matches backtest'' EvaluatorActor []]"

definition losing :: "'w \<Rightarrow> 'w evaluator" where
  "losing w = \<lparr>el_reg = registry_run toy_registry micro_ops empty_registry,
     el_data = \<lparr>sd_trade_rows = [lost_trade], sd_signal_times = [], sd_fill_rows = []\<rparr>, el_world = w\<rparr>"

lemma losing_ok: "registry_ok (ee_registry (toy_eval_with A)) (el_reg (losing w))"
  using ladder_run [OF lines_toy, of empty_registry micro_ops] empty_registry_ok
  by (simp add: ladder_def losing_def toy_eval_with_def)

lemma losing_version:
  "\<exists>v. rg_versions (el_reg (losing w)) = [((''swing'', ''1''), v)] \<and> vs_stage v = Micro \<and>
     map sr_reason (vs_history v) = [''submitted'', ''passed validation'', ''shadow matches backtest''] \<and>
     vs_profile v = Some (profile_of champion_info) \<and> vs_info v = champion_info \<and> money_since v = Some 0 \<and>
     (\<forall>t. demotions_since v t = 0)"
  by (simp add: losing_def micro_ops_def admit_def champion_info_def profile_of_def empty_registry_def
      toy_registry_def ladder_run_defs money_since_def demotions_since_def is_demotion_def)

lemma transition_run:
  assumes "lines_nonempty R" and "registry_ok R g" and "dict_get (rg_versions g) k = Some v"
    and "legal_transition v to a"
  shows "\<exists>ev g' r. transition R k to reason a m g = (Inr ev, g') \<and>
    rg_versions g' = dict_set k (staged r v) (rg_versions g) \<and> sr_reason r = reason \<and> sr_to r = to"
  using record_change_run [OF assms(1,2), of v to reason a m] registry_key [OF assms(2,3)] assms(3,4)
  by (auto simp: transition_def get_version_bnd)

lemma no_swap:
  assumes "\<And>v h. v \<in> set (dict_values (rg_versions g)) \<Longrightarrow> h \<in> set (vs_history v) \<Longrightarrow> \<not> starts_with swap_in (sr_reason h)"
  shows "last_swap sid g = None"
proof -
  have none: "fold later_swap hs None = None" if "\<And>h. h \<in> set hs \<Longrightarrow> \<not> starts_with swap_in (sr_reason h)" for hs
    using that by (induction hs) (simp_all add: later_swap_def)
  show ?thesis unfolding last_swap_def by (rule none) (use assms in auto)
qed

lemma losing_demoted:
  assumes acts: "\<And>v reason g. \<exists>w'. act (toy_eval_with A) v Retired reason ((losing w)\<lparr>el_reg := g\<rparr>)
      = (Inr (), (losing w)\<lparr>el_reg := g, el_world := w'\<rparr>)"
  shows "\<exists>ev t. evaluate (toy_eval_with A) (''swing'', ''1'') (losing w) = (Inr (Some ev), t) \<and> sc_from ev = Micro \<and> sc_to ev = Retired"
proof -
  let ?E = "toy_eval_with A"
  obtain v where v: "rg_versions (el_reg (losing w)) = [((''swing'', ''1''), v)]" "vs_stage v = Micro"
      "map sr_reason (vs_history v) = [''submitted'', ''passed validation'', ''shadow matches backtest'']"
      "vs_profile v = Some (profile_of champion_info)" "money_since v = Some 0"
      "vs_info v = champion_info" "demotions_since v t = 0" for t
    using losing_version [of w] by auto
  have key: "vs_key v = (''swing'', ''1'')" by (simp add: vs_key_def v info_key_def champion_info_def)
  have data: "data_trades (el_data (losing w)) (vs_key v) 0 False = [lost_trade]"
      "data_fills (el_data (losing w)) (vs_key v) 0 = []"
    by (simp_all add: data_trades_def data_fills_def losing_def key lost_trade_def shadow_account_def)
  have "\<exists>x m. demotion_reasons ?E v [lost_trade] [] = Inr ([''drawdown '' @ x], m)"
    by (simp add: demotion_reasons_def drawdown_reason_def profit_reason_def slippage_reason_def drift_reasons_def v
        toy_eval_with_def toy_config_def rs_of_def lost_trade_def profile_of_def max_drawdown_r_def Let_def)
  then obtain reason x m where why: "demotion_reasons ?E v [lost_trade] [] = Inr ([reason], m)"
      and reason: "reason = ''drawdown '' @ x" by blast
  have to: "demotion_target (ee_cfg ?E) t v = Retired" for t
    by (simp add: demotion_target_def Let_def v toy_eval_with_def toy_config_def)
  have legal: "legal_transition v Retired EvaluatorActor" and lines: "lines_nonempty (ee_registry ?E)"
    and get: "dict_get (rg_versions (el_reg (losing w))) (vs_key v) = Some v"
    by (simp_all add: legal_transition_def v allowed_def champion_info_def toy_eval_with_def key)
  obtain ev g r where g: "transition (ee_registry ?E) (vs_key v) Retired reason EvaluatorActor m (el_reg (losing w)) = (Inr ev, g)"
      "rg_versions g = dict_set (vs_key v) (staged r v) (rg_versions (el_reg (losing w)))" "sr_reason r = reason"
    using transition_run [OF lines losing_ok get legal] by blast
  obtain w' where w': "act ?E v Retired reason ((losing w)\<lparr>el_reg := g\<rparr>) = (Inr (), (losing w)\<lparr>el_reg := g, el_world := w'\<rparr>)"
    using acts by blast
  let ?t = "(losing w)\<lparr>el_reg := g, el_world := w'\<rparr>"
  from w' have "eval_money ?E v (losing w) = (Inr (Some ev), ?t)"
    by (simp add: eval_money_def demote_def Let_def inr_simps v data why to g(1))
  moreover have "last_swap sid g = None" for sid
  proof (rule no_swap)
    fix w h
    assume "w \<in> set (dict_values (rg_versions g))" and h: "h \<in> set (vs_history w)"
    then have "w = staged r v" by (simp add: g(2) v(1) key dict_values_def)
    with h g(3) have "sr_reason h \<in> set (map sr_reason (vs_history v) @ [reason])" by (auto simp: staged_def)
    then show "\<not> starts_with swap_in (sr_reason h)"
      by (auto simp only: v(3)) (auto simp: starts_with_def swap_in_def reason)
  qed
  then have "maybe_rollback ?E ev ?t = (Inr [], ?t)"
    by (simp add: maybe_rollback_def bnd_gets ret_def)
  moreover have "on_reg (get_version (''swing'', ''1'')) (losing w) = (Inr v, losing w)"
    by (simp add: on_reg_def get_version_run v(1))
  ultimately have "evaluate ?E (''swing'', ''1'') (losing w) = (Inr (Some ev), ?t)"
    using v(2) by (simp add: evaluate_def bnd_def ret_def money_stages_def)
  moreover have "sc_from ev = Micro \<and> sc_to ev = Retired"
    using transition_event [OF g(1) get] v by simp
  ultimately show ?thesis by blast
qed

lemma counting_acts:
  "\<exists>w'. act (toy_eval_with counting) v Retired reason ((losing (0, 0))\<lparr>el_reg := g\<rparr>)
    = (Inr (), (losing (0, 0))\<lparr>el_reg := g, el_world := w'\<rparr>)"
  by (simp add: act_def Let_def toy_eval_with_def counting_def catch_all_def se_defs on_world_def losing_def)


text \<open>The champion of the ledger's sample run is swapped, and its successor retired.\<close>

definition retire_ops :: "registry_op list" where
  "retire_ops = swap_ops @ [RgTransition (''swing'', ''2'') Retired ''drawdown'' EvaluatorActor []]"

definition retired_world :: "(nat \<times> nat) evaluator" where
  "retired_world = \<lparr>el_reg = registry_run toy_registry retire_ops empty_registry,
     el_data = \<lparr>sd_trade_rows = [], sd_signal_times = [], sd_fill_rows = []\<rparr>, el_world = (0, 0)\<rparr>"

text \<open>What \<open>last_swap\<close> reads of a record.\<close>

definition swap_part :: "stage_record \<Rightarrow> string \<times> stage \<times> string \<times> time" where
  "swap_part h = (sr_version h, sr_to h, sr_reason h, sr_at h)"

lemma later_swap_part:
  "fold later_swap hs best =
    fold (\<lambda>(ver, to, reason, t) best.
        if starts_with swap_in reason \<and> (case best of None \<Rightarrow> True | Some b \<Rightarrow> t > fst b)
        then Some (t, ver, swapped_from reason, to) else best) (map swap_part hs) best"
  by (induction hs arbitrary: best) (simp_all add: later_swap_def swap_part_def)

lemma retired_versions:
  "\<exists>v1 v2. rg_versions (el_reg retired_world) = [((''swing'', ''1''), v1), ((''swing'', ''2''), v2)] \<and>
     vs_stage v1 = Shadow \<and> vs_stage v2 = Retired \<and>
     last_swap ''swing'' (el_reg retired_world) = Some (10, ''2'', ''1'', Micro)"
proof -
  let ?g = "registry_run toy_registry swap_ops empty_registry"
  obtain v1 v2 where v: "rg_versions ?g = [((''swing'', ''1''), v1), ((''swing'', ''2''), v2)]"
      "vs_stage v1 = Shadow" "vs_stage v2 = Micro" "vs_info v1 = champion_info" "vs_info v2 = challenger_info"
      "map swap_part (vs_history v1) =
      [(''1'', Candidate, ''submitted'', 0), (''1'', Shadow, ''passed validation'', 0),
       (''1'', Micro, ''shadow matches backtest'', 0), (''1'', Shadow, ''swap: replaced by 2; kept in shadow for rollback'', 10)]"
      "map swap_part (vs_history v2) =
      [(''2'', Candidate, ''submitted'', 0), (''2'', Shadow, ''passed validation'', 0),
       (''2'', Micro, ''swap: replaces 1: +0.100R'', 10)]"
    using after_swap by (auto simp: swap_part_def)
  have ok: "registry_ok toy_registry ?g"
    using ladder_run [OF lines_toy, of empty_registry swap_ops] empty_registry_ok by (simp add: ladder_def)
  have "dict_get (rg_versions ?g) (''swing'', ''2'') = Some v2" "legal_transition v2 Retired EvaluatorActor"
    by (simp_all add: v legal_transition_def allowed_def challenger_info_def champion_info_def)
  then obtain ev g r where g: "transition toy_registry (''swing'', ''2'') Retired ''drawdown'' EvaluatorActor [] ?g = (Inr ev, g)"
      "rg_versions g = dict_set (''swing'', ''2'') (staged r v2) (rg_versions ?g)" "sr_reason r = ''drawdown''" "sr_to r = Retired"
    using transition_run [OF lines_toy ok] by blast
  have "el_reg retired_world = g"
    by (simp add: retired_world_def retire_ops_def registry_run_append no_result_def ret_def
        bnd_run [of "transition toy_registry (''swing'', ''2'') Retired ''drawdown'' EvaluatorActor []", OF g(1)])
  moreover have "last_swap ''swing'' g = Some (10, ''2'', ''1'', Micro)"
    by (simp add: last_swap_def later_swap_part g(2) v dict_values_def staged_def swap_part_def [of r] g(3)
        champion_info_def challenger_info_def starts_with_def swap_in_def swapped_from_def strip_def
        later_swap_def)
  ultimately show ?thesis by (auto simp: g v staged_def)
qed

theorem rollback_revives_retired_witness:
  "\<exists>ev evs t v. sc_to ev = Retired \<and> maybe_rollback toy_eval ev retired_world = (Inr evs, t) \<and>
     dict_get (rg_versions (el_reg t)) (''swing'', ''2'') = Some v \<and> vs_stage v = Shadow"
proof -
  let ?ev = "\<lparr>sc_at = 10, sc_strategy_id = ''swing'', sc_strategy_version = ''2'', sc_from = Micro, sc_to = Retired,
    sc_reason = ''drawdown''\<rparr>"
  obtain v1 v2 where v: "rg_versions (el_reg retired_world) = [((''swing'', ''1''), v1), ((''swing'', ''2''), v2)]"
      "vs_stage v1 = Shadow" "vs_stage v2 = Retired"
      "last_swap ''swing'' (el_reg retired_world) = Some (10, ''2'', ''1'', Micro)"
    using retired_versions by blast
  have ok: "registry_ok (ee_registry toy_eval) (el_reg retired_world)" and lines: "lines_nonempty (ee_registry toy_eval)"
    using ladder_run [OF lines_toy, of empty_registry retire_ops] empty_registry_ok
    by (simp_all add: ladder_def retired_world_def toy_eval_def toy_eval_with_def)
  have "\<exists>evs t new' old'. maybe_rollback toy_eval ?ev retired_world = (Inr evs, t) \<and>
    dict_get (rg_versions (el_reg t)) (''swing'', ''2'') = Some new' \<and> vs_stage new' = Shadow \<and>
    dict_get (rg_versions (el_reg t)) (''swing'', ''1'') = Some old' \<and> vs_stage old' = Micro"
    by (rule rollback_revives_retired [OF lines ok v(4) _ v(3) _ v(2)]) (simp_all add: v(1) days_def)
  moreover have "sc_to ?ev = Retired" by simp
  ultimately show ?thesis by blast
qed
end
