(* ===== verification/Weights.thy ===== *)
theory Weights
  imports Core_Models "HOL-Library.Product_Lexorder" "HOL-Library.List_Lexorder" "HOL-Library.Char_ord"
begin

text \<open>
  The weights of the allocator (\<open>allocator/weights.py\<close>): the shrunk Sharpe ratio, the clusters of
  correlated versions (a union-find with path halving over a dictionary), the capped shares and their
  split inside a cluster. Floats are exact rationals; the correlation has a square root and is real. A date
  is its day number.
\<close>

type_synonym key = "string \<times> string"

record performance =
  vp_strategy_id :: string
  vp_version :: string
  vp_stage :: stage
  vp_live_trades :: nat
  vp_sharpe_live :: flt
  vp_sharpe_backtest :: flt
  vp_daily_r :: "(int, flt) dict"

definition vp_key :: "performance \<Rightarrow> key" where
  "vp_key p = (vp_strategy_id p, vp_version p)"

definition shrunk_weight :: "nat \<Rightarrow> flt \<Rightarrow> flt \<Rightarrow> flt \<Rightarrow> flt" where
  "shrunk_weight n live backtest k =
     of_nat n / (of_nat n + k) * live + k / (of_nat n + k) * backtest"

section \<open>Correlation\<close>

definition day_r :: "(int, flt) dict \<Rightarrow> int \<Rightarrow> flt" where
  "day_r d t = (case dict_get d t of None \<Rightarrow> 0 | Some x \<Rightarrow> x)"

definition average :: "flt list \<Rightarrow> flt" where
  "average xs = sum_list xs / of_nat (length xs)"

definition covariance :: "flt list \<Rightarrow> flt list \<Rightarrow> flt" where
  "covariance xs ys = average (map2 (\<lambda>x y. (x - average xs) * (y - average ys)) xs ys)"

text \<open>The standard deviation of a list is zero exactly when its variance is.\<close>

definition correlation :: "(int, flt) dict \<Rightarrow> (int, flt) dict \<Rightarrow> nat \<Rightarrow> real" where
  "correlation a b min_overlap =
     (let ds = sorted_list_of_set (set (map fst a) \<union> set (map fst b));
          x = map (day_r a) ds; y = map (day_r b) ds in
      if length ds < min_overlap then 0
      else if covariance x x = 0 \<or> covariance y y = 0 then 0
      else of_rat (covariance x y) / sqrt (of_rat (covariance x x) * of_rat (covariance y y)))"

section \<open>Clusters\<close>

text \<open>
  \<open>find\<close>: the loop follows the parents and halves the path on its way. A key without a parent raises
  \<open>KeyError\<close> in the code; here, as for a loop that does not end, the result is None.
\<close>

partial_function (option) find_root :: "(key, key) dict \<Rightarrow> key \<Rightarrow> (key \<times> (key, key) dict) option" where
  "find_root parent k =
     (case dict_get parent k of
        None \<Rightarrow> None
      | Some p \<Rightarrow>
          if p = k then Some (k, parent)
          else case dict_get parent p of
            None \<Rightarrow> None
          | Some g \<Rightarrow> find_root (dict_set k g parent) g)"

text \<open>\<open>parent[find(a)] = find(b)\<close>: Python evaluates the right-hand side first.\<close>

definition union_keys :: "key \<Rightarrow> key \<Rightarrow> (key, key) dict \<Rightarrow> (key, key) dict option" where
  "union_keys a b parent =
     Option.bind (find_root parent b) (\<lambda>(rb, p1).
     Option.bind (find_root p1 a) (\<lambda>(ra, p2). Some (dict_set ra rb p2)))"

fun opt_fold :: "('a \<Rightarrow> 'b \<Rightarrow> 'b option) \<Rightarrow> 'a list \<Rightarrow> 'b \<Rightarrow> 'b option" where
  "opt_fold f [] s = Some s"
| "opt_fold f (x # xs) s = Option.bind (f x s) (opt_fold f xs)"

definition linked :: "flt \<Rightarrow> nat \<Rightarrow> performance \<Rightarrow> performance \<Rightarrow> bool" where
  "linked threshold min_overlap a b \<longleftrightarrow>
     correlation (vp_daily_r a) (vp_daily_r b) min_overlap > of_rat threshold"

fun pairs_of :: "'a list \<Rightarrow> ('a \<times> 'a) list" where
  "pairs_of [] = []"
| "pairs_of (a # rest) = map (Pair a) rest @ pairs_of rest"

definition link_pair :: "flt \<Rightarrow> nat \<Rightarrow> performance \<times> performance \<Rightarrow> (key, key) dict \<Rightarrow> (key, key) dict option" where
  "link_pair threshold min_overlap ab parent =
     (if linked threshold min_overlap (fst ab) (snd ab)
      then union_keys (vp_key (fst ab)) (vp_key (snd ab)) parent else Some parent)"

definition add_group ::
  "key \<Rightarrow> (key, key list) dict \<times> (key, key) dict \<Rightarrow> ((key, key list) dict \<times> (key, key) dict) option" where
  "add_group k s = (case s of (groups, parent) \<Rightarrow>
     Option.bind (find_root parent k) (\<lambda>(r, p1).
       Some (dict_set r ((case dict_get groups r of None \<Rightarrow> [] | Some g \<Rightarrow> g) @ [k]) groups, p1)))"

definition clusters :: "performance list \<Rightarrow> flt \<Rightarrow> nat \<Rightarrow> key list list option" where
  "clusters perf threshold min_overlap =
     (let parent = dict_of (\<lambda>k. k) (map vp_key perf) [] in
      Option.bind (opt_fold (link_pair threshold min_overlap) (pairs_of perf) parent) (\<lambda>p1.
      Option.bind (opt_fold add_group (map vp_key perf) ([], p1)) (\<lambda>(groups, _).
        Some (sort (map sort (dict_values groups))))))"

section \<open>Capped shares\<close>

text \<open>The slots that would exceed the cap are fixed at it; the others share what is left. \<open>over\<close> is taken in the
  order of \<open>live\<close>.\<close>

function capped_loop :: "flt \<Rightarrow> (key, flt) dict \<Rightarrow> (key, flt) dict \<Rightarrow> (key, flt) dict \<times> (key, flt) dict" where
  "capped_loop cap live fixed =
     (if live = [] then ([], fixed)
      else
        let budget = 1 - sum_list (map snd fixed); total = sum_list (map snd live);
            trial = map (\<lambda>(k, w). (k, budget * w / total)) live;
            over = filter (\<lambda>(k, s). s > cap) trial
        in if over = [] then (trial, fixed)
           else capped_loop cap (filter (\<lambda>(k, w). k \<notin> set (map fst over)) live)
                  (fixed @ map (\<lambda>(k, _). (k, cap)) over))"
  by pat_completeness auto

termination
proof (relation "measure (\<lambda>(cap, live, fixed). length live)")
  fix cap and live fixed :: "(key, flt) dict" and budget total :: flt and trial over
  assume trial: "trial = map (\<lambda>(k, w). (k, budget * w / total)) live"
    and over: "over = filter (\<lambda>(k, s). s > cap) trial" "over \<noteq> []"
  from over obtain k s where "(k, s) \<in> set over" by (metis list.set_intros(1) neq_Nil_conv surj_pair)
  with trial over obtain w where "(k, w) \<in> set live" "k \<in> set (map fst over)" by force
  then have "length (filter (\<lambda>(k, w). k \<notin> set (map fst over)) live) < length live"
    by (intro length_filter_less [of "(k, w)"]) auto
  then show "((cap, filter (\<lambda>(k, w). k \<notin> set (map fst over)) live, fixed @ map (\<lambda>(k, _). (k, cap)) over),
      cap, live, fixed) \<in> measure (\<lambda>(cap, live, fixed). length live)" by simp
qed simp

declare capped_loop.simps [simp del]

definition dict_merge :: "('k, 'v) dict \<Rightarrow> ('k, 'v) dict \<Rightarrow> ('k, 'v) dict" where
  "dict_merge d new = fold (\<lambda>(k, x). dict_set k x) new d"

definition capped_shares :: "(key, flt) dict \<Rightarrow> flt \<Rightarrow> (key, flt) dict" where
  "capped_shares weights cap =
     (let live = filter (\<lambda>(k, w). w > 0) weights; zero = map (\<lambda>(k, w). (k, 0)) weights;
          (trial, fixed) = capped_loop cap live []
      in dict_merge (dict_merge zero trial) fixed)"

section \<open>Shares\<close>

definition weight_of :: "flt \<Rightarrow> performance \<Rightarrow> flt" where
  "weight_of k p = max 0 (shrunk_weight (vp_live_trades p) (vp_sharpe_live p) (vp_sharpe_backtest p) k)"

definition weights_of :: "flt \<Rightarrow> performance list \<Rightarrow> (key, flt) dict" where
  "weights_of k perf = fold (\<lambda>p. dict_set (vp_key p) (weight_of k p)) perf []"

definition look :: "(key, flt) dict \<Rightarrow> key \<Rightarrow> flt" where
  "look d k = (case dict_get d k of None \<Rightarrow> 0 | Some x \<Rightarrow> x)"

definition slot_weights :: "(key, flt) dict \<Rightarrow> key list list \<Rightarrow> (key, flt) dict" where
  "slot_weights w groups =
     fold (\<lambda>g. dict_set (hd g) (fold max (map (look w) (tl g)) (look w (hd g)))) groups []"

definition split_group :: "(key, flt) dict \<Rightarrow> (key, flt) dict \<Rightarrow> key list \<Rightarrow> (key, flt) dict \<Rightarrow> (key, flt) dict" where
  "split_group w slot_share g shares =
     (let total = sum_list (map (look w) g) in
      fold (\<lambda>m. dict_set m (if total > 0 then look slot_share (hd g) * look w m / total else 0)) g shares)"

definition allocate_shares ::
  "performance list \<Rightarrow> flt \<Rightarrow> flt \<Rightarrow> nat \<Rightarrow> flt \<Rightarrow> ((key, flt) dict \<times> key list list) option" where
  "allocate_shares perf k threshold min_overlap cap =
     (let w = weights_of k perf in
      Option.bind (clusters perf threshold min_overlap) (\<lambda>groups.
        let slot_share = capped_shares (slot_weights w groups) cap in
        Some (fold (split_group w slot_share) groups [], groups)))"

end
