(* ===== verification/Allocator.thy ===== *)
theory Allocator
  imports Weights
begin

text \<open>
  The allocator (\<open>allocator/allocator.py\<close>, settings of \<open>allocator/config.py\<close>): the allocation of the last
  rebalance, its file, the risk fraction of a version and the proposed intent. The identifier derived from a
  signal's (a name-based UUID) is a parameter.
\<close>

record allocator_config =
  ac_shrinkage_k :: flt
  ac_cluster_threshold :: flt
  ac_min_overlap :: nat
  ac_max_share :: flt
  ac_risk_budget :: flt
  ac_rebalance_days :: flt
  ac_stage_limits :: "(stage, flt) dict"

definition check_allocator :: "allocator_config \<Rightarrow> bool" where
  "check_allocator c \<longleftrightarrow>
     0 < ac_shrinkage_k c \<and> 0 < ac_cluster_threshold c \<and> ac_cluster_threshold c \<le> 1 \<and> 2 \<le> ac_min_overlap c \<and>
     0 < ac_max_share c \<and> ac_max_share c \<le> 1 \<and> 0 < ac_risk_budget c \<and> ac_risk_budget c \<le> 1 / 20 \<and>
     0 < ac_rebalance_days c"

definition stage_limit :: "allocator_config \<Rightarrow> stage \<Rightarrow> flt" where
  "stage_limit c s = (case dict_get (ac_stage_limits c) s of None \<Rightarrow> 0 | Some x \<Rightarrow> x)"

definition key_str :: "key \<Rightarrow> string" where
  "key_str k = fst k @ ''@'' @ snd k"

record allocation =
  an_at :: time
  an_shares :: "(string, flt) dict"
  an_risk_fraction :: "(string, flt) dict"
  an_clusters :: "string list list"
  an_inputs :: "(string, nat \<times> flt \<times> flt) dict"

text \<open>\<open>at_path\<close>: None when the allocator has no state file, else the document in it, if there is one.\<close>

record allocator =
  at_cfg :: allocator_config
  at_path :: "allocation option option"
  at_current :: "allocation option"

definition allocator_init :: "allocator_config \<Rightarrow> allocation option option \<Rightarrow> allocator" where
  "allocator_init c file = \<lparr>at_cfg = c, at_path = file,
     at_current = (case file of None \<Rightarrow> None | Some doc \<Rightarrow> doc)\<rparr>"

definition delta_days :: "flt \<Rightarrow> span" where
  "delta_days d = round_int HalfEven (d * of_int (days 1))"

definition due :: "time \<Rightarrow> allocator \<Rightarrow> bool" where
  "due now a = (case at_current a of
     None \<Rightarrow> True | Some c \<Rightarrow> now - an_at c \<ge> delta_days (ac_rebalance_days (at_cfg a)))"

definition weighted_of :: "performance list \<Rightarrow> performance list" where
  "weighted_of perf = filter (\<lambda>p. vp_stage p \<in> {Live, Scaled}) perf"

text \<open>A dictionary comprehension with string keys.\<close>

definition by_name :: "(key \<times> 'v) list \<Rightarrow> (string, 'v) dict" where
  "by_name xs = fold (\<lambda>(k, v). dict_set (key_str k) v) xs []"

definition fractions :: "allocator_config \<Rightarrow> (key, stage) dict \<Rightarrow> (key, flt) dict \<Rightarrow> (key \<times> flt) list" where
  "fractions c stages shares =
     map (\<lambda>(k, s). (k, min (s * ac_risk_budget c)
       (case dict_get stages k of None \<Rightarrow> 0 | Some st \<Rightarrow> stage_limit c st))) shares"

definition new_allocation :: "allocator_config \<Rightarrow> performance list \<Rightarrow> time \<Rightarrow> allocation option" where
  "new_allocation c perf now =
     (let weighted = weighted_of perf in
      Option.bind (allocate_shares weighted (ac_shrinkage_k c) (ac_cluster_threshold c) (ac_min_overlap c)
          (ac_max_share c)) (\<lambda>(shares, groups).
        let stages = fold (\<lambda>p. dict_set (vp_key p) (vp_stage p)) weighted [] in
        Some \<lparr>an_at = now, an_shares = by_name shares, an_risk_fraction = by_name (fractions c stages shares),
              an_clusters = map (map key_str) groups,
              an_inputs = by_name (map (\<lambda>p. (vp_key p, vp_live_trades p, vp_sharpe_live p, vp_sharpe_backtest p)) weighted)\<rparr>))"

definition rebalance :: "performance list \<Rightarrow> time \<Rightarrow> bool \<Rightarrow> (allocator, allocation) se" where
  "rebalance perf now force = (\<lambda>a.
     case (if \<not> force \<and> \<not> due now a then at_current a else None) of
       Some c \<Rightarrow> (Inr c, a)
     | None \<Rightarrow>
         (case new_allocation (at_cfg a) perf now of
            None \<Rightarrow> (Inl (KeyErr ''parent''), a)
          | Some c \<Rightarrow> (Inr c, a\<lparr>at_current := Some c,
                at_path := (case at_path a of None \<Rightarrow> None | Some _ \<Rightarrow> Some (Some c))\<rparr>)))"

definition risk_fraction :: "allocator \<Rightarrow> key \<Rightarrow> stage \<Rightarrow> flt" where
  "risk_fraction a k st =
     (if st = Micro \<or> st = DemoOnly then stage_limit (at_cfg a) Micro
      else if st \<noteq> Live \<and> st \<noteq> Scaled then 0
      else case at_current a of
        None \<Rightarrow> 0
      | Some c \<Rightarrow>
          min (case dict_get (an_risk_fraction c) (key_str k) of None \<Rightarrow> 0 | Some x \<Rightarrow> x)
              (stage_limit (at_cfg a) st))"

definition propose ::
  "(string \<Rightarrow> string) \<Rightarrow> allocator \<Rightarrow> signal \<Rightarrow> stage \<Rightarrow> dec \<Rightarrow> dec \<Rightarrow> instrument \<Rightarrow> dec \<Rightarrow> string
    \<Rightarrow> exn + intent option" where
  "propose intent_id_for a sg st equity entry i to_account account =
     (let rf = risk_fraction a (sg_strategy_id sg, sg_strategy_version sg) st;
          dist = \<bar>entry - sg_stop_price sg\<bar> in
      if rf \<le> 0 \<or> dist \<le> 0 \<or> equity \<le> 0 then Inr None
      else
        sbind (ddiv (equity * rf) (dist * in_contract_size i * to_account)) (\<lambda>raw.
        sbind (ddiv raw (in_lot_step i)) (\<lambda>steps.
          let lots0 = min (of_int \<lfloor>steps\<rfloor> * in_lot_step i) (in_max_lot i);
              lots = (if st = DemoOnly then in_min_lot i else lots0)
          in if lots < in_min_lot i then Inr None
             else Inr (Some \<lparr>oi_id = intent_id_for (sg_id sg), oi_signal = sg, oi_proposed_lots = lots,
                    oi_risk_fraction = rf, oi_account_id = account, oi_tenant_id = ''default''\<rparr>))))"

end
