(* ===== verification/Weights_Properties.thy ===== *)
theory Weights_Properties
  imports Weights "HOL-Library.Multiset"
begin

text \<open>The clusters are the connected components; the capped shares are a water filling.\<close>

section \<open>The union-find\<close>

text \<open>A parent dictionary with the root of every key and a rank that falls along the parents.\<close>

definition forest :: "(key, key) dict \<Rightarrow> (key \<Rightarrow> key) \<Rightarrow> (key \<Rightarrow> nat) \<Rightarrow> bool" where
  "forest P rep rank \<longleftrightarrow>
     (\<forall>k \<in> dict_keys P. \<exists>p \<in> dict_keys P. dict_get P k = Some p \<and> rep p = rep k \<and>
        (if p = k then rep k = k else rank p < rank k))"

lemma forestD:
  assumes "forest P rep rank" and "k \<in> dict_keys P"
  shows "\<exists>p. dict_get P k = Some p \<and> p \<in> dict_keys P \<and> rep p = rep k \<and> (p = k \<longrightarrow> rep k = k) \<and>
    (p \<noteq> k \<longrightarrow> rank p < rank k)"
proof -
  from assms obtain p where p: "p \<in> dict_keys P" "dict_get P k = Some p \<and> rep p = rep k \<and>
      (if p = k then rep k = k else rank p < rank k)"
    unfolding forest_def by blast
  show ?thesis by (rule exI [of _ p]) (use p in \<open>simp split: if_splits\<close>)
qed

lemma forest_set:
  assumes "forest P rep rank" and "k \<in> dict_keys P" and "g \<in> dict_keys P" and "rep g = rep k" and "rank g < rank k"
  shows "forest (dict_set k g P) rep rank"
  using assms unfolding forest_def by (auto simp: insert_absorb)

lemma root_exists:
  assumes "forest P rep rank" and "k \<in> dict_keys P"
  shows "rep k \<in> dict_keys P \<and> dict_get P (rep k) = Some (rep k)"
  using assms(2)
proof (induction "rank k" arbitrary: k rule: less_induct)
  case less
  obtain p where p: "dict_get P k = Some p" "p \<in> dict_keys P"
      "rep p = rep k" "p = k \<longrightarrow> rep k = k" "p \<noteq> k \<longrightarrow> rank p < rank k"
    using forestD [OF assms(1) less.prems] by blast
  show ?case using less.hyps [of p] p less.prems by (cases "p = k") auto
qed

lemma root_self: "forest P rep rank \<Longrightarrow> k \<in> dict_keys P \<Longrightarrow> rep (rep k) = rep k"
  using root_exists [of P rep rank k] forestD [of P rep rank "rep k"] by auto

lemma find_root_spec:
  assumes "forest P rep rank" and "k \<in> dict_keys P"
  shows "\<exists>P'. find_root P k = Some (rep k, P') \<and> forest P' rep rank \<and> dict_keys P' = dict_keys P"
  using assms
proof (induction "rank k" arbitrary: k P rule: less_induct)
  case less
  obtain p where p: "dict_get P k = Some p" "p \<in> dict_keys P"
      "rep p = rep k" "p = k \<longrightarrow> rep k = k" "p \<noteq> k \<longrightarrow> rank p < rank k"
    using forestD [OF less.prems] by blast
  show ?case
  proof (cases "p = k")
    case True
    then show ?thesis using p less.prems by (auto simp: find_root.simps [of P k])
  next
    case False
    obtain g where g: "dict_get P p = Some g" "g \<in> dict_keys P" "rep g = rep p" "p \<noteq> g \<longrightarrow> rank g < rank p"
      using forestD [OF less.prems(1) p(2)] by blast
    have rank: "rank g < rank k" using g(4) p(5) False by (cases "p = g") auto
    let ?P = "dict_set k g P"
    have "forest ?P rep rank" using forest_set [OF less.prems g(2) _ rank] g(3) p(3) by simp
    moreover have "g \<in> dict_keys ?P" and keys: "dict_keys ?P = dict_keys P" using g(2) less.prems(2) by auto
    ultimately obtain P' where "find_root ?P g = Some (rep g, P')" "forest P' rep rank" "dict_keys P' = dict_keys ?P"
      using less.hyps [OF rank] by blast
    then show ?thesis using False p g keys by (auto simp: find_root.simps [of P k])
  qed
qed

text \<open>Linking two roots.\<close>

definition merged :: "(key \<Rightarrow> key) \<Rightarrow> key \<Rightarrow> key \<Rightarrow> key \<Rightarrow> key" where
  "merged rep a b x = (if rep x = rep a then rep b else rep x)"

lemma union_spec:
  assumes "forest P rep rank" and "a \<in> dict_keys P" and "b \<in> dict_keys P"
  shows "\<exists>P' rank'. union_keys a b P = Some P' \<and> forest P' (merged rep a b) rank' \<and> dict_keys P' = dict_keys P"
proof -
  obtain P1 where 1: "find_root P b = Some (rep b, P1)" "forest P1 rep rank" "dict_keys P1 = dict_keys P"
    using find_root_spec [OF assms(1,3)] by blast
  obtain P2 where 2: "find_root P1 a = Some (rep a, P2)" "forest P2 rep rank" "dict_keys P2 = dict_keys P"
    using find_root_spec [OF 1(2), of a] assms(2) 1(3) by auto
  have roots: "rep a \<in> dict_keys P2" "rep b \<in> dict_keys P2"
      "dict_get P2 (rep a) = Some (rep a)" "rep (rep a) = rep a" "rep (rep b) = rep b"
    using root_exists [OF 2(2)] root_self [OF 2(2)] assms(2,3) 2(3) by auto
  let ?rank = "\<lambda>x. if rep x = rep a \<and> rep a \<noteq> rep b then rank x + Suc (rank (rep b)) else rank x"
  have "forest (dict_set (rep a) (rep b) P2) (merged rep a b) ?rank"
    unfolding forest_def
  proof
    fix k
    assume "k \<in> dict_keys (dict_set (rep a) (rep b) P2)"
    then have "k \<in> dict_keys P2" using roots(1) by auto
    then obtain p where p: "dict_get P2 k = Some p" "p \<in> dict_keys P2" "rep p = rep k"
        "p = k \<longrightarrow> rep k = k" "p \<noteq> k \<longrightarrow> rank p < rank k"
      using forestD [OF 2(2)] by blast
    show "\<exists>p \<in> dict_keys (dict_set (rep a) (rep b) P2). dict_get (dict_set (rep a) (rep b) P2) k = Some p \<and>
        merged rep a b p = merged rep a b k \<and> (if p = k then merged rep a b k = k else ?rank p < ?rank k)"
      by (cases "k = rep a") (use p roots in \<open>auto simp: merged_def\<close>)
  qed
  moreover have "rep a \<in> dict_keys P" using roots(1) 2(3) by simp
  then have "dict_keys (dict_set (rep a) (rep b) P2) = dict_keys P" by (simp only: keys_set 2(3) insert_absorb)
  ultimately show ?thesis by (auto simp: union_keys_def 1(1) 2(1))
qed

section \<open>The components\<close>

text \<open>A pair of the list whose correlation is above the threshold.\<close>

definition edge :: "flt \<Rightarrow> nat \<Rightarrow> (performance \<times> performance) set \<Rightarrow> key \<Rightarrow> key \<Rightarrow> bool" where
  "edge t m ps x y \<longleftrightarrow> (\<exists>(a, b) \<in> ps. linked t m a b \<and> x = vp_key a \<and> y = vp_key b)"

lemma equivclp_insert:
  "equivclp (\<lambda>x y. R x y \<or> x = a \<and> y = b) x y \<longleftrightarrow>
     equivclp R x y \<or> equivclp R x a \<and> equivclp R b y \<or> equivclp R x b \<and> equivclp R a y"
  (is "equivclp ?S x y \<longleftrightarrow> ?rhs x y")
proof
  have trans: "equivclp R u v \<Longrightarrow> equivclp R v w \<Longrightarrow> equivclp R u w" for u v w
    using transp_equivclp [of R] by (rule transpD)
  assume "equivclp ?S x y"
  then show "?rhs x y"
  proof (induction rule: equivclp_induct)
    case (step y z)
    from step.hyps(2) have "equivclp R y z \<or> y = a \<and> z = b \<or> y = b \<and> z = a"
      by (auto intro: equivclp_sym)
    then show ?case using step.IH by (auto intro: trans equivclp_sym)
  qed simp
next
  have trans: "equivclp ?S u v \<Longrightarrow> equivclp ?S v w \<Longrightarrow> equivclp ?S u w" for u v w
    using transp_equivclp [of ?S] by (rule transpD)
  have mono: "equivclp R u v \<Longrightarrow> equivclp ?S u v" for u v
  proof (induction rule: equivclp_induct)
    case (step y z)
    then have "equivclp ?S y z" by (auto intro: equivclp_sym)
    with step.IH show ?case by (rule trans)
  qed simp
  have "equivclp ?S a b" by auto
  then have "equivclp ?S a b" "equivclp ?S b a" by (auto intro: equivclp_sym)
  moreover assume "?rhs x y"
  ultimately show "equivclp ?S x y" using mono trans by blast
qed

lemma merged_conn:
  assumes "\<And>x y. x \<in> K \<Longrightarrow> y \<in> K \<Longrightarrow> rep x = rep y \<longleftrightarrow> equivclp R x y" and "a \<in> K" and "b \<in> K" "x \<in> K" "y \<in> K"
  shows "merged rep a b x = merged rep a b y \<longleftrightarrow> equivclp (\<lambda>x y. R x y \<or> x = a \<and> y = b) x y"
proof -
  have "equivclp R u v \<longleftrightarrow> rep u = rep v" if "u \<in> {x, y, a, b}" "v \<in> {x, y, a, b}" for u v
    using assms that by blast
  then show ?thesis unfolding equivclp_insert by (auto simp: merged_def)
qed

lemma link_fold:
  assumes "forest P rep rank" and "\<forall>(a, b) \<in> set ps. vp_key a \<in> dict_keys P \<and> vp_key b \<in> dict_keys P"
    and "\<forall>x \<in> dict_keys P. \<forall>y \<in> dict_keys P. rep x = rep y \<longleftrightarrow> equivclp R x y"
  shows "\<exists>P' rep' rank'. opt_fold (link_pair t m) ps P = Some P' \<and> forest P' rep' rank' \<and> dict_keys P' = dict_keys P \<and>
    (\<forall>x \<in> dict_keys P. \<forall>y \<in> dict_keys P. rep' x = rep' y \<longleftrightarrow> equivclp (\<lambda>x y. R x y \<or> edge t m (set ps) x y) x y)"
  using assms
proof (induction ps arbitrary: P rep rank R)
  case Nil
  then show ?case by (auto simp: edge_def)
next
  case (Cons ab ps)
  obtain a b where ab: "ab = (a, b)" by (cases ab)
  show ?case
  proof (cases "linked t m a b")
    case False
    then have "edge t m (set (ab # ps)) = edge t m (set ps)" by (auto simp: edge_def ab fun_eq_iff)
    with Cons.IH [OF Cons.prems(1) _ Cons.prems(3)] Cons.prems(2) False show ?thesis
      by (simp add: link_pair_def ab)
  next
    case True
    let ?a = "vp_key a" let ?b = "vp_key b"
    have keys: "?a \<in> dict_keys P" "?b \<in> dict_keys P" using Cons.prems(2) by (auto simp: ab)
    obtain P1 rank1 where 1: "union_keys ?a ?b P = Some P1" "forest P1 (merged rep ?a ?b) rank1" "dict_keys P1 = dict_keys P"
      using union_spec [OF Cons.prems(1) keys] by blast
    have same: "\<forall>x \<in> dict_keys P1. \<forall>y \<in> dict_keys P1. merged rep ?a ?b x = merged rep ?a ?b y \<longleftrightarrow>
        equivclp (\<lambda>x y. R x y \<or> x = ?a \<and> y = ?b) x y"
      using merged_conn [of "dict_keys P" rep R ?a ?b] Cons.prems(3) keys 1(3) by simp
    have "\<forall>(a, b) \<in> set ps. vp_key a \<in> dict_keys P1 \<and> vp_key b \<in> dict_keys P1"
      using Cons.prems(2) 1(3) by auto
    from Cons.IH [OF 1(2) this same] obtain P' rep' rank' where IH: "opt_fold (link_pair t m) ps P1 = Some P'" "forest P' rep' rank'"
        "dict_keys P' = dict_keys P1" "\<forall>x \<in> dict_keys P1. \<forall>y \<in> dict_keys P1. rep' x = rep' y \<longleftrightarrow>
          equivclp (\<lambda>x y. (R x y \<or> x = ?a \<and> y = ?b) \<or> edge t m (set ps) x y) x y"
      by (elim exE conjE)
    have "(\<lambda>x y. (R x y \<or> x = ?a \<and> y = ?b) \<or> edge t m (set ps) x y) = (\<lambda>x y. R x y \<or> edge t m (set (ab # ps)) x y)"
      using True by (auto simp: edge_def ab fun_eq_iff)
    with IH(4) 1(3) have "\<forall>x \<in> dict_keys P. \<forall>y \<in> dict_keys P. rep' x = rep' y \<longleftrightarrow>
        equivclp (\<lambda>x y. R x y \<or> edge t m (set (ab # ps)) x y) x y" by simp
    moreover have "opt_fold (link_pair t m) (ab # ps) P = Some P'"
      using IH(1) 1(1) True by (simp add: link_pair_def ab)
    moreover have "dict_keys P' = dict_keys P" using IH(3) 1(3) by simp
    ultimately show ?thesis using IH(2) by (intro exI conjI)
  qed
qed

text \<open>The groups after the keys \<open>ks\<close>: one for every root, its members in order.\<close>

definition grouped :: "(key \<Rightarrow> key) \<Rightarrow> key list \<Rightarrow> (key, key list) dict \<Rightarrow> bool" where
  "grouped rep ks groups \<longleftrightarrow>
     distinct (map fst groups) \<and> (\<forall>(r, g) \<in> set groups. g = filter (\<lambda>k. rep k = r) ks \<and> g \<noteq> []) \<and>
     rep ` set ks = dict_keys groups"

lemma grouped_add:
  assumes "grouped rep ks groups"
  shows "grouped rep (ks @ [k])
    (dict_set (rep k) ((case dict_get groups (rep k) of None \<Rightarrow> [] | Some g \<Rightarrow> g) @ [k]) groups)"
proof -
  let ?g = "(case dict_get groups (rep k) of None \<Rightarrow> [] | Some g \<Rightarrow> g) @ [k]"
  let ?d = "dict_set (rep k) ?g groups"
  have d: "distinct (map fst groups)" and keys: "rep ` set ks = dict_keys groups"
    and parts: "\<And>r g. dict_get groups r = Some g \<Longrightarrow> g = filter (\<lambda>k. rep k = r) ks \<and> g \<noteq> []"
    using assms by (auto simp: grouped_def dest: map_of_SomeD)
  have g: "?g = filter (\<lambda>x. rep x = rep k) (ks @ [k])"
  proof (cases "dict_get groups (rep k)")
    case None
    then have "rep k \<notin> rep ` set ks" unfolding keys by (simp add: get_None_iff)
    then have "\<forall>x \<in> set ks. rep x \<noteq> rep k" by (metis imageI)
    then show ?thesis using None by (simp add: filter_empty_conv)
  next
    case (Some g)
    with parts [OF this] show ?thesis by simp
  qed
  have "b = filter (\<lambda>x. rep x = r) (ks @ [k]) \<and> b \<noteq> []" if "(r, b) \<in> set ?d" for r b
  proof -
    have "distinct (map fst ?d)" using d by simp
    then have get: "dict_get ?d r = Some b" using that by (rule map_of_is_SomeI)
    show ?thesis
    proof (cases "r = rep k")
      case True
      then have "b = ?g" using get by simp
      then show ?thesis using g True by simp
    next
      case False
      then have b: "b = filter (\<lambda>k. rep k = r) ks" "b \<noteq> []" using get parts by auto
      then have "filter (\<lambda>x. rep x = r) (ks @ [k]) = b" using False by simp
      with b(2) show ?thesis by simp
    qed
  qed
  moreover have "rep ` set (ks @ [k]) = dict_keys ?d" unfolding keys_set keys [symmetric] by simp
  ultimately show ?thesis using d unfolding grouped_def by auto
qed

lemma group_fold:
  assumes "forest P rep rank" and "set ks \<subseteq> dict_keys P" and "grouped rep done groups"
  shows "\<exists>groups' P'. opt_fold add_group ks (groups, P) = Some (groups', P') \<and> grouped rep (done @ ks) groups'"
  using assms
proof (induction ks arbitrary: P groups "done")
  case (Cons k ks)
  obtain P1 where 1: "find_root P k = Some (rep k, P1)" "forest P1 rep rank" "dict_keys P1 = dict_keys P"
    using find_root_spec [OF Cons.prems(1), of k] Cons.prems(2) by auto
  have "set ks \<subseteq> dict_keys P1" using Cons.prems(2) 1(3) by simp
  from Cons.IH [OF 1(2) this grouped_add [OF Cons.prems(3), of k]] 1(1) show ?case
    by (simp add: add_group_def)
qed simp

lemma mset_values:
  "mset (concat (map snd d)) = sum_list (map (\<lambda>p. mset (snd p)) d)"
  by (induction d) simp_all

lemma grouped_mset:
  assumes "grouped rep ks groups"
  shows "mset (concat (dict_values groups)) = mset ks"
proof (rule multiset_eqI)
  fix x
  have parts: "snd p = filter (\<lambda>k. rep k = fst p) ks" if "p \<in> set groups" for p
    using assms that by (cases p) (auto simp: grouped_def)
  have zero: "count (mset (concat (map snd d))) x = 0" if "rep x \<notin> fst ` set d" "set d \<subseteq> set groups" for d
    using that parts by (induction d) (auto simp: count_eq_zero_iff not_in_iff)
  have "count (mset (concat (map snd d))) x = (if rep x \<in> fst ` set d then count (mset ks) x else 0)"
    if "distinct (map fst d)" "set d \<subseteq> set groups" for d
    using that
  proof (induction d)
    case (Cons p d)
    have "count (mset (snd p)) x = (if rep x = fst p then count (mset ks) x else 0)"
      using parts [of p] Cons.prems(2) by simp
    moreover have "rep x = fst p \<longrightarrow> rep x \<notin> fst ` set d" using Cons.prems(1) by auto
    ultimately show ?case using Cons by auto
  qed simp
  moreover have "rep x \<in> dict_keys groups \<or> count (mset ks) x = 0"
    using assms by (auto simp: grouped_def count_eq_zero_iff)
  ultimately show "count (mset (concat (dict_values groups))) x = count (mset ks) x"
    using assms by (auto simp: grouped_def dict_values_def)
qed

lemma grouped_same:
  assumes "grouped rep ks groups" and "x \<in> set ks" and "y \<in> set ks"
  shows "(\<exists>g \<in> set (dict_values groups). x \<in> set g \<and> y \<in> set g) \<longleftrightarrow> rep x = rep y"
proof
  assume "\<exists>g \<in> set (dict_values groups). x \<in> set g \<and> y \<in> set g"
  then obtain r g where "(r, g) \<in> set groups" "x \<in> set g" "y \<in> set g" by (auto simp: dict_values_def)
  then show "rep x = rep y" using assms(1) by (auto simp: grouped_def)
next
  assume same: "rep x = rep y"
  have "rep x \<in> dict_keys groups" using assms(1,2) by (auto simp: grouped_def)
  then obtain g where g: "(rep x, g) \<in> set groups" by auto
  then have "g = filter (\<lambda>k. rep k = rep x) ks" using assms(1) by (auto simp: grouped_def)
  with same assms(2,3) have "x \<in> set g \<and> y \<in> set g" by simp
  with g show "\<exists>g \<in> set (dict_values groups). x \<in> set g \<and> y \<in> set g" by (force simp: dict_values_def)
qed

lemma dict_of_id_keys: "dict_keys (dict_of (\<lambda>k. k) ks P) = set ks \<union> dict_keys P"
proof (induction ks arbitrary: P)
  case (Cons a ks)
  show ?case unfolding dict_of.simps Cons.IH keys_set by simp
qed simp

lemma dict_of_id_get:
  "(\<And>k v. dict_get P k = Some v \<Longrightarrow> v = k) \<Longrightarrow> dict_get (dict_of (\<lambda>k. k) ks P) k = Some v \<Longrightarrow> v = k"
proof (induction ks arbitrary: P)
  case (Cons a ks)
  show ?case
  proof (rule Cons.IH [of "dict_set a a P"])
    show "dict_get (dict_set a a P) j = Some w \<Longrightarrow> w = j" for j w
      using Cons.prems(1) [of j w] by (auto split: if_splits)
    show "dict_get (dict_of (\<lambda>k. k) ks (dict_set a a P)) k = Some v" using Cons.prems(2) by simp
  qed
qed simp

lemma start_forest: "forest (dict_of (\<lambda>k. k) ks []) (\<lambda>k. k) (\<lambda>_. 0)"
  unfolding forest_def
proof
  fix k
  assume k: "k \<in> dict_keys (dict_of (\<lambda>k. k) ks [])"
  from key_get [OF k] obtain v where "dict_get (dict_of (\<lambda>k. k) ks []) k = Some v" ..
  moreover from this have "v = k" by (rule dict_of_id_get [rotated]) simp
  ultimately have get: "dict_get (dict_of (\<lambda>k. k) ks []) k = Some k" by simp
  show "\<exists>p \<in> dict_keys (dict_of (\<lambda>k. k) ks []). dict_get (dict_of (\<lambda>k. k) ks []) k = Some p \<and> p = k \<and>
      (if p = k then k = k else (0 :: nat) < 0)"
    by (rule bexI [OF _ k]) (simp add: get)
qed

lemma pairs_of_set: "(a, b) \<in> set (pairs_of xs) \<Longrightarrow> a \<in> set xs \<and> b \<in> set xs"
  by (induction xs) auto

lemma clusters_spec:
  "\<exists>groups rep. clusters perf t m = Some (sort (map sort (dict_values groups))) \<and>
     grouped rep (map vp_key perf) groups \<and>
     (\<forall>x \<in> vp_key ` set perf. \<forall>y \<in> vp_key ` set perf.
        rep x = rep y \<longleftrightarrow> equivclp (edge t m (set (pairs_of perf))) x y)"
proof -
  let ?P = "dict_of (\<lambda>k. k) (map vp_key perf) []"
  have start: "forest ?P (\<lambda>k. k) (\<lambda>_. 0)" and keys: "dict_keys ?P = vp_key ` set perf"
    using start_forest [of "map vp_key perf"] dict_of_id_keys [of "map vp_key perf" "[]"] by simp_all
  have pairs: "\<forall>(a, b) \<in> set (pairs_of perf). vp_key a \<in> dict_keys ?P \<and> vp_key b \<in> dict_keys ?P"
    unfolding keys by (auto dest!: pairs_of_set)
  have none: "equivclp (\<lambda>x y. False) x y \<longleftrightarrow> x = y" for x y :: key
  proof
    assume "equivclp (\<lambda>x y. False) x y"
    then show "x = y" by (induction rule: equivclp_induct) simp_all
  qed simp
  have "\<forall>x \<in> dict_keys ?P. \<forall>y \<in> dict_keys ?P. x = y \<longleftrightarrow> equivclp (\<lambda>x y. False) x y"
    by (simp add: none)
  from link_fold [OF start pairs this, of t m] obtain P' rep rank where
      1: "opt_fold (link_pair t m) (pairs_of perf) ?P = Some P'" "forest P' rep rank" "dict_keys P' = dict_keys ?P"
      "\<forall>x \<in> dict_keys ?P. \<forall>y \<in> dict_keys ?P. rep x = rep y \<longleftrightarrow>
        equivclp (\<lambda>x y. False \<or> edge t m (set (pairs_of perf)) x y) x y"
    by (elim exE conjE)
  have "set (map vp_key perf) \<subseteq> dict_keys P'" using 1(3) keys by simp
  moreover have "grouped rep [] []" by (simp add: grouped_def)
  ultimately obtain groups P2 where 2: "opt_fold add_group (map vp_key perf) ([], P') = Some (groups, P2)"
      "grouped rep ([] @ map vp_key perf) groups"
    using group_fold [OF 1(2)] by blast
  have "clusters perf t m = Some (sort (map sort (dict_values groups)))"
    by (simp add: clusters_def Let_def 1(1) 2(1))
  with 2(2) 1(4) show ?thesis unfolding keys by auto
qed

lemma clusters_parts:
  "\<exists>gs. clusters perf t m = Some gs \<and> mset (concat gs) = mset (map vp_key perf) \<and> [] \<notin> set gs \<and>
     {(x, y). \<exists>g \<in> set gs. x \<in> set g \<and> y \<in> set g} =
     {(x, y). x \<in> vp_key ` set perf \<and> y \<in> vp_key ` set perf \<and> equivclp (edge t m (set (pairs_of perf))) x y}"
proof -
  obtain groups rep where c: "clusters perf t m = Some (sort (map sort (dict_values groups)))"
      "grouped rep (map vp_key perf) groups"
      "\<forall>x \<in> vp_key ` set perf. \<forall>y \<in> vp_key ` set perf.
        rep x = rep y \<longleftrightarrow> equivclp (edge t m (set (pairs_of perf))) x y"
    using clusters_spec by blast
  let ?gs = "sort (map sort (dict_values groups))"
  have "mset (concat ?gs) = mset (concat (dict_values groups))"
    by (simp add: mset_concat flip: sum_mset_sum_list) (simp add: image_mset.compositionality comp_def)
  then have ms: "mset (concat ?gs) = mset (map vp_key perf)" using grouped_mset [OF c(2)] by simp
  have full: "[] \<notin> set ?gs"
  proof
    assume "[] \<in> set ?gs"
    then obtain g where g: "g \<in> set (dict_values groups)" "sort g = []" by auto
    then have "set g = {}" by (metis list.set(1) set_sort)
    with g(1) c(2) show False by (auto simp: grouped_def dict_values_def)
  qed
  have mem: "x \<in> vp_key ` set perf" if "g \<in> set ?gs" "x \<in> set g" for x g
    using that mset_eq_setD [OF ms] by auto
  have sides: "(\<exists>g \<in> set ?gs. x \<in> set g \<and> y \<in> set g) \<longleftrightarrow>
      x \<in> vp_key ` set perf \<and> y \<in> vp_key ` set perf \<and> equivclp (edge t m (set (pairs_of perf))) x y" for x y
  proof (cases "x \<in> vp_key ` set perf \<and> y \<in> vp_key ` set perf")
    case True
    then have "(\<exists>g \<in> set (dict_values groups). x \<in> set g \<and> y \<in> set g) \<longleftrightarrow>
        equivclp (edge t m (set (pairs_of perf))) x y"
      using grouped_same [OF c(2), of x y] c(3) by simp
    with True show ?thesis by simp
  next
    case False
    with mem show ?thesis by blast
  qed
  have "{(x, y). \<exists>g \<in> set ?gs. x \<in> set g \<and> y \<in> set g} =
     {(x, y). x \<in> vp_key ` set perf \<and> y \<in> vp_key ` set perf \<and> equivclp (edge t m (set (pairs_of perf))) x y}"
    by (simp only: sides)
  with c(1) ms full show ?thesis by (intro exI conjI)
qed

text \<open>C28. The clustering always returns, loses and repeats no version, and puts two versions into one cluster exactly
  when a chain of pairs correlated above the threshold connects them (single linkage).\<close>

theorem clusters_are_components:
  "\<exists>gs. clusters perf t m = Some gs \<and> mset (concat gs) = mset (map vp_key perf) \<and> [] \<notin> set gs \<and>
     {(x, y). \<exists>g \<in> set gs. x \<in> set g \<and> y \<in> set g} =
     {(x, y). x \<in> vp_key ` set perf \<and> y \<in> vp_key ` set perf \<and> equivclp (edge t m (set (pairs_of perf))) x y}"
  by (rule clusters_parts)

section \<open>Water filling\<close>

abbreviation filled :: "flt \<Rightarrow> flt \<Rightarrow> (key, flt) dict \<Rightarrow> flt list" where
  "filled cap lam live \<equiv> map (\<lambda>(k, w). min cap (lam * w)) live"

definition total_of :: "(key, flt) dict \<Rightarrow> flt" where
  "total_of d = sum_list (map snd d)"

lemma sum_filter_split:
  "sum_list (map f xs) = sum_list (map f (filter P xs)) + sum_list (map f (filter (\<lambda>x. \<not> P x) xs))" for f :: "'a \<Rightarrow> flt"
  by (induction xs) auto

lemma sum_scaled: "sum_list (map (\<lambda>(k, w). c * w) xs) = c * total_of xs" for c :: flt
  by (induction xs) (auto simp: total_of_def algebra_simps)

lemma total_pos: "\<forall>(k, w) \<in> set live. 0 < w \<Longrightarrow> live \<noteq> [] \<Longrightarrow> 0 < total_of live"
proof (induction live)
  case (Cons p live)
  then show ?case by (cases "live = []") (auto simp: total_of_def)
qed simp

lemma key_unique: "distinct (map fst live) \<Longrightarrow> (k, v) \<in> set live \<Longrightarrow> (k, w) \<in> set live \<Longrightarrow> v = w"
  by (metis map_of_is_SomeI option.inject)

text \<open>One round: what exceeds the cap at the level \<open>lam\<close> is fixed.\<close>

lemma capped_round:
  assumes "live \<noteq> []" and "distinct (map fst live)" and "lam = (1 - total_of fixed) / total_of live"
    and "over = filter (\<lambda>(k, w). cap < lam * w) live"
  shows "capped_loop cap live fixed =
    (if over = [] then (map (\<lambda>(k, w). (k, lam * w)) live, fixed)
     else capped_loop cap (filter (\<lambda>(k, w). \<not> cap < lam * w) live) (fixed @ map (\<lambda>(k, _). (k, cap)) over))"
proof -
  have trial: "map (\<lambda>(k, w). (k, (1 - sum_list (map snd fixed)) * w / sum_list (map snd live))) live =
      map (\<lambda>(k, w). (k, lam * w)) live"
    using assms(3) by (auto simp: total_of_def)
  have f: "filter (\<lambda>(k, s). cap < s) (map (\<lambda>(k, w). (k, lam * w)) live) = map (\<lambda>(k, w). (k, lam * w)) over"
    by (simp add: assms(4) filter_map comp_def case_prod_unfold)
  have keys: "set (map fst (map (\<lambda>(k, w). (k, lam * w)) over)) = fst ` set over"
    by (simp add: image_image case_prod_unfold)
  have "k \<in> fst ` set over \<longleftrightarrow> cap < lam * w" if kw: "(k, w) \<in> set live" for k w
  proof
    assume "k \<in> fst ` set over"
    then obtain v where v: "(k, v) \<in> set live" "cap < lam * v" by (auto simp: assms(4))
    from key_unique [OF assms(2) v(1) kw] v(2) show "cap < lam * w" by simp
  next
    assume "cap < lam * w"
    then have "(k, w) \<in> set over" using kw by (simp add: assms(4))
    then show "k \<in> fst ` set over" by (metis fst_conv imageI)
  qed
  then have "filter (\<lambda>(k, w). k \<notin> set (map fst (map (\<lambda>(k, w). (k, lam * w)) over))) live =
      filter (\<lambda>(k, w). \<not> cap < lam * w) live"
    unfolding keys by (intro filter_cong refl) (simp add: case_prod_unfold)
  moreover have "map (\<lambda>(k, _). (k, cap)) (map (\<lambda>(k, w). (k, lam * w)) over) = map (\<lambda>(k, _). (k, cap)) over"
    by (simp add: comp_def case_prod_unfold)
  moreover have "map (\<lambda>(k, w). (k, lam * w)) over = [] \<longleftrightarrow> over = []" by simp
  ultimately show ?thesis
    unfolding capped_loop.simps [of cap live fixed] Let_def trial f by (simp only: assms(1) if_False)
qed

lemma capped_loop_spec:
  assumes "capped_loop cap live fixed = (trial, done)" and "live \<noteq> []" and "distinct (map fst live)"
    and "\<forall>(k, w) \<in> set live. 0 < w" and "0 < cap" and "total_of fixed \<le> 1"
  shows "\<exists>lam new. (1 - total_of fixed) / total_of live \<le> lam \<and> done = fixed @ new \<and>
    trial = map (\<lambda>(k, w). (k, lam * w)) (filter (\<lambda>(k, w). \<not> cap < lam * w) live) \<and>
    set new = {(k, cap) | k w. (k, w) \<in> set live \<and> cap < lam * w} \<and>
    (trial = [] \<and> total_of fixed + cap * of_nat (length live) \<le> 1 \<or>
     sum_list (filled cap lam live) = 1 - total_of fixed)"
  using assms
proof (induction "length live" arbitrary: live fixed rule: less_induct)
  case less
  define lam where "lam = (1 - total_of fixed) / total_of live"
  define over where "over = filter (\<lambda>(k, w). cap < lam * w) live"
  define rest where "rest = filter (\<lambda>(k, w). \<not> cap < lam * w) live"
  let ?fixed = "fixed @ map (\<lambda>(k, _). (k, cap)) over"
  note round = capped_round [OF less.prems(2,3) lam_def over_def, folded rest_def]
  have pos: "0 < total_of live" using total_pos less.prems(2,4) by blast
  have lam0: "0 \<le> lam" using pos less.prems(6) by (simp add: lam_def)
  have all: "sum_list (map (\<lambda>(k, w). lam * w) live) = 1 - total_of fixed"
    unfolding sum_scaled lam_def using pos by simp
  show ?case
  proof (cases "over = []")
    case True
    then have low: "\<not> cap < lam * w" if "(k, w) \<in> set live" for k w using that by (auto simp: over_def filter_empty_conv)
    then have same: "filled cap lam live = map (\<lambda>(k, w). lam * w) live"
        and kept: "filter (\<lambda>(k, w). \<not> cap < lam * w) live = live"
      by (auto simp: filter_id_conv not_less intro!: min_absorb2)
    have "sum_list (filled cap lam live) = 1 - total_of fixed" unfolding same by (rule all)
    moreover have "{(k, cap) | k w. (k, w) \<in> set live \<and> cap < lam * w} = {}" using low by blast
    ultimately show ?thesis using True round less.prems(1) kept unfolding lam_def [symmetric]
      by (intro exI [of _ lam] exI [of _ "[]"]) simp
  next
    case False
    have "cap * of_nat (length (filter (\<lambda>(k, w). cap < lam * w) xs)) \<le>
        sum_list (map (\<lambda>(k, w). lam * w) (filter (\<lambda>(k, w). cap < lam * w) xs))" for xs :: "(key, flt) dict"
      by (induction xs) (auto simp: algebra_simps)
    then have many: "cap * of_nat (length over) \<le> sum_list (map (\<lambda>(k, w). lam * w) over)" by (simp add: over_def)
    have parts: "sum_list (map f live) = sum_list (map f over) + sum_list (map f rest)" for f :: "key \<times> flt \<Rightarrow> flt"
      using sum_filter_split [of f live "\<lambda>(k, w). cap < lam * w"] by (simp add: over_def rest_def case_prod_unfold)
    have fixed: "total_of ?fixed = total_of fixed + cap * of_nat (length over)"
      by (simp add: total_of_def case_prod_unfold sum_list_triv comp_def mult.commute)
    have size: "length live = length over + length rest"
      using sum_length_filter_compl [of "\<lambda>(k, w). cap < lam * w" live] by (simp add: over_def rest_def case_prod_unfold)
    have left: "lam * total_of rest \<le> 1 - total_of ?fixed"
      using all parts [of "\<lambda>(k, w). lam * w"] many by (simp add: sum_scaled fixed)
    have rest: "set rest \<subseteq> set live" "distinct (map fst rest)"
      using less.prems(3) by (auto simp: rest_def distinct_map_filter)
    have run: "capped_loop cap rest ?fixed = (trial, done)" using round False less.prems(1) by simp
    have rpos: "\<forall>(k, w) \<in> set rest. 0 < w" using less.prems(4) rest(1) by blast
    have nonneg: "0 \<le> total_of rest"
      using total_pos [OF rpos] by (cases "rest = []") (simp_all add: total_of_def)
    have fixed1: "total_of ?fixed \<le> 1"
      using left mult_nonneg_nonneg [OF lam0 nonneg] by simp
    show ?thesis
    proof (cases "rest = []")
      case True
      then have "trial = []" "done = ?fixed" using run by (simp_all add: capped_loop.simps)
      moreover have "total_of fixed + cap * of_nat (length live) \<le> 1" using True size fixed fixed1 by simp
      moreover have "set (map (\<lambda>(k, _). (k, cap)) over) = {(k, cap) | k w. (k, w) \<in> set live \<and> cap < lam * w}"
        by (auto simp: over_def image_iff)
      ultimately show ?thesis using True
        by (intro exI [of _ lam] exI [of _ "map (\<lambda>(k, _). (k, cap)) over"])
          (simp add: rest_def [symmetric] lam_def [symmetric])
    next
      case more: False
      have "length rest < length live" using size False by simp
      from less.hyps [OF this run more rest(2) rpos less.prems(5) fixed1] obtain lam' new where
          IH: "(1 - total_of ?fixed) / total_of rest \<le> lam'" "done = ?fixed @ new"
            "trial = map (\<lambda>(k, w). (k, lam' * w)) (filter (\<lambda>(k, w). \<not> cap < lam' * w) rest)"
            "set new = {(k, cap) | k w. (k, w) \<in> set rest \<and> cap < lam' * w}"
            "trial = [] \<and> total_of ?fixed + cap * of_nat (length rest) \<le> 1 \<or>
             sum_list (filled cap lam' rest) = 1 - total_of ?fixed"
        by blast
      have up: "lam \<le> lam'"
      proof -
        have "lam \<le> (1 - total_of ?fixed) / total_of rest"
          using left total_pos [OF rpos more] by (simp add: pos_le_divide_eq)
        with IH(1) show ?thesis by simp
      qed
      have high: "cap < lam' * w" if "(k, w) \<in> set live" "cap < lam * w" for k w
      proof -
        have "lam * w \<le> lam' * w" using less.prems(4) that(1) up by (auto intro: mult_right_mono)
        with that(2) show ?thesis by simp
      qed
      have "filter (\<lambda>(k, w). \<not> cap < lam' * w) live = filter (\<lambda>(k, w). \<not> cap < lam' * w) rest"
        unfolding rest_def filter_filter using high by (intro filter_cong) auto
      moreover have "set (map (\<lambda>(k, _). (k, cap)) over @ new) = {(k, cap) | k w. (k, w) \<in> set live \<and> cap < lam' * w}"
        using high by (auto simp: over_def rest_def IH(4) image_iff) blast+
      moreover have "filled cap lam' over = map (\<lambda>_. cap) over"
        using high by (auto simp: over_def min_def dest: less_imp_le)
      then have "sum_list (filled cap lam' over) = cap * of_nat (length over)"
        by (simp only: map_replicate_const sum_list_replicate) (simp add: mult.commute)
      then have "sum_list (filled cap lam' live) = cap * of_nat (length over) + sum_list (filled cap lam' rest)"
        using parts [of "\<lambda>(k, w). min cap (lam' * w)"] by simp
      ultimately show ?thesis using IH up size fixed
        by (intro exI [of _ lam'] exI [of _ "map (\<lambda>(k, _). (k, cap)) over @ new"])
          (auto simp: lam_def [symmetric] algebra_simps)
    qed
  qed
qed

text \<open>Dictionaries with the same keys in the same order.\<close>

lemma fst_dict_set: "k \<in> dict_keys d \<Longrightarrow> map fst (dict_set k v d) = map fst d"
  by (induction d rule: dict_set.induct) auto

lemma merge_keys: "set (map fst new) \<subseteq> dict_keys d \<Longrightarrow> map fst (dict_merge d new) = map fst d"
  unfolding dict_merge_def
proof (induction new arbitrary: d)
  case (Cons p new)
  then have "map fst (dict_set (fst p) (snd p) d) = map fst d" by (intro fst_dict_set) auto
  moreover from this have "dict_keys (dict_set (fst p) (snd p) d) = dict_keys d" by (metis list.set_map)
  ultimately show ?case using Cons by (simp add: case_prod_unfold)
qed simp

lemma merge_miss: "k \<notin> fst ` set new \<Longrightarrow> dict_get (dict_merge d new) k = dict_get d k"
  unfolding dict_merge_def by (induction new arbitrary: d) auto

lemma merge_hit:
  "(k, v) \<in> set new \<Longrightarrow> (\<And>w. (k, w) \<in> set new \<Longrightarrow> w = v) \<Longrightarrow> dict_get (dict_merge d new) k = Some v"
  unfolding dict_merge_def
proof (induction new rule: rev_induct)
  case (snoc p new)
  obtain a b where p: "p = (a, b)" by (cases p)
  show ?case
  proof (cases "a = k")
    case True
    then have "b = v" using snoc.prems(2) [of b] p by simp
    with True p show ?thesis by simp
  next
    case False
    then have old: "(k, v) \<in> set new" using snoc.prems(1) p by auto
    have uniq: "w = v" if "(k, w) \<in> set new" for w
      by (rule snoc.prems(2)) (use that in simp)
    from snoc.IH [OF old uniq] show ?thesis using False p by simp
  qed
qed simp

lemma dict_ext:
  assumes "map fst d = map fst e" and "distinct (map fst d)" and "\<And>k. k \<in> dict_keys d \<Longrightarrow> dict_get d k = dict_get e k"
  shows "d = e"
proof (rule nth_equalityI)
  show len: "length d = length e" using assms(1) by (metis length_map)
  fix i
  assume i: "i < length d"
  have keys: "fst (d ! i) = fst (e ! i)" using i len assms(1) by (metis nth_map)
  have "dict_get d (fst (d ! i)) = Some (snd (d ! i))" using i assms(2) by (intro map_of_is_SomeI) simp_all
  moreover have "dict_get e (fst (e ! i)) = Some (snd (e ! i))"
    using i len assms(1,2) by (intro map_of_is_SomeI) simp_all
  moreover have "fst (d ! i) \<in> dict_keys d" using i by simp
  ultimately show "d ! i = e ! i" using assms(3) keys by (metis option.inject prod_eqI)
qed

lemma set_level:
  "set (map (\<lambda>(k, w). (k, f w)) (filter (\<lambda>(k, w). P w) xs)) = {(k, f w) | k w. (k, w) \<in> set xs \<and> P w}"
  by (induction xs) auto

text \<open>The level of the water: who is below it gets a share in proportion, who is above gets the cap.\<close>

lemma capped_level:
  fixes ws :: "(key, flt) dict"
  defines "live \<equiv> filter (\<lambda>(k, w). w > 0) ws"
  assumes "distinct (map fst ws)" and cap: "0 < cap" and run: "capped_loop cap live [] = (trial, fixed)"
  shows "\<exists>lam \<ge> 0. set trial = {(k, lam * w) | k w. (k, w) \<in> set live \<and> \<not> cap < lam * w} \<and>
      set fixed = {(k, cap) | k w. (k, w) \<in> set live \<and> cap < lam * w} \<and>
      sum_list (filled cap lam live) = min 1 (cap * of_nat (length live))"
proof (cases "live = []")
  case True
  then have "trial = [] \<and> fixed = []" using run by (simp add: capped_loop.simps)
  then show ?thesis using True by (intro exI [of _ 0]) simp
next
  case False
  have pos: "distinct (map fst live)" "\<forall>(k, w) \<in> set live. 0 < w" using assms(2) by (auto simp: live_def distinct_map_filter)
  have "total_of [] \<le> 1" by (simp add: total_of_def)
  from capped_loop_spec [OF run False pos cap this] obtain lam new where
      l: "(1 - total_of []) / total_of live \<le> lam" "fixed = [] @ new"
        "trial = map (\<lambda>(k, w). (k, lam * w)) (filter (\<lambda>(k, w). \<not> cap < lam * w) live)"
        "set new = {(k, cap) | k w. (k, w) \<in> set live \<and> cap < lam * w}"
        "trial = [] \<and> total_of [] + cap * of_nat (length live) \<le> 1 \<or> sum_list (filled cap lam live) = 1 - total_of []"
    by (elim exE conjE)
  have one: "total_of [] = 0" by (simp add: total_of_def)
  have "0 < total_of live" using total_pos [OF pos(2) False] .
  then have lam: "0 \<le> lam" using l(1) one by (simp add: order_trans [of 0 "1 / total_of live"])
  have "set trial = {(k, lam * w) | k w. (k, w) \<in> set live \<and> \<not> cap < lam * w}"
    unfolding l(3) by (rule set_level)
  moreover have "sum_list (filled cap lam live) = min 1 (cap * of_nat (length live))"
  proof (cases "trial = []")
    case True
    then have full: "cap < lam * w" if "(k, w) \<in> set live" for k w
      using that l(3) by (auto simp: filter_empty_conv)
    have same: "filled cap lam live = map (\<lambda>_. cap) live"
    proof (rule map_cong [OF refl])
      fix x
      assume "x \<in> set live"
      then have "cap < lam * snd x" using full [of "fst x" "snd x"] by simp
      then show "(case x of (k, w) \<Rightarrow> min cap (lam * w)) = cap" by (simp add: case_prod_unfold)
    qed
    have "sum_list (filled cap lam live) = cap * of_nat (length live)"
      unfolding same by (simp only: map_replicate_const sum_list_replicate) (simp add: mult.commute)
    with l(5) one show ?thesis by (auto simp: min_def)
  next
    case False
    have "sum_list (filled cap lam xs) \<le> cap * of_nat (length xs)" for xs :: "(key, flt) dict"
      by (induction xs) (auto simp: algebra_simps min_def)
    then have "sum_list (filled cap lam live) \<le> cap * of_nat (length live)" .
    with l(5) False one show ?thesis by (auto simp: min_def)
  qed
  ultimately show ?thesis using lam l(2,4) by auto
qed

lemma fold_capped:
  assumes "distinct (map fst ws)" and "0 < cap"
  shows "\<exists>lam \<ge> 0. capped_shares ws cap = map (\<lambda>(k, w). (k, if w > 0 then min cap (lam * w) else 0)) ws \<and>
    total_of (capped_shares ws cap) = min 1 (cap * of_nat (length (filter (\<lambda>(k, w). w > 0) ws)))"
proof -
  let ?live = "filter (\<lambda>(k, w). w > 0) ws" let ?zero = "map (\<lambda>(k, w). (k, 0 :: flt)) ws"
  obtain trial fixed where run: "capped_loop cap ?live [] = (trial, fixed)" by (cases "capped_loop cap ?live []")
  from capped_level [OF assms run] obtain lam where lam: "0 \<le> lam" "set trial = {(k, lam * w) | k w. (k, w) \<in> set ?live \<and> \<not> cap < lam * w}"
      "set fixed = {(k, cap) | k w. (k, w) \<in> set ?live \<and> cap < lam * w}"
      "sum_list (filled cap lam ?live) = min 1 (cap * of_nat (length ?live))"
    by blast
  let ?want = "map (\<lambda>(k, w). (k, if w > 0 then min cap (lam * w) else 0)) ws"
  have shares: "capped_shares ws cap = dict_merge (dict_merge ?zero trial) fixed"
    by (simp add: capped_shares_def Let_def run)
  have zero: "map fst ?zero = map fst ws" by (simp add: comp_def case_prod_unfold)
  have sub: "fst ` set trial \<subseteq> fst ` set ws" "fst ` set fixed \<subseteq> fst ` set ws"
    unfolding lam(2,3) by force+
  have step: "map fst (dict_merge ?zero trial) = map fst ws"
    using merge_keys [of trial ?zero] sub(1) zero by (metis list.set_map)
  then have keys: "map fst (dict_merge (dict_merge ?zero trial) fixed) = map fst ws"
    using merge_keys [of fixed "dict_merge ?zero trial"] sub(2) by (metis list.set_map)
  have val: "dict_get (dict_merge (dict_merge ?zero trial) fixed) k = Some (if w > 0 then min cap (lam * w) else 0)"
    if kw: "(k, w) \<in> set ws" for k w
  proof -
    have same: "v = w" if "(k, v) \<in> set ws" for v using key_unique [OF assms(1) that kw] .
    consider "0 < w" "cap < lam * w" | "0 < w" "\<not> cap < lam * w" | "\<not> 0 < w" by blast
    then show ?thesis
    proof cases
      case 1
      have "dict_get (dict_merge (dict_merge ?zero trial) fixed) k = Some cap"
      proof (rule merge_hit)
        show "(k, cap) \<in> set fixed" using 1 kw unfolding lam(3) by (cases k) auto
        show "v = cap" if "(k, v) \<in> set fixed" for v using that unfolding lam(3) by auto
      qed
      with 1 show ?thesis by simp
    next
      case 2
      have "k \<notin> fst ` set fixed" using 2 same unfolding lam(3) by (cases k) auto
      moreover have "dict_get (dict_merge ?zero trial) k = Some (lam * w)"
      proof (rule merge_hit)
        show "(k, lam * w) \<in> set trial" using 2 kw unfolding lam(2) by (cases k) auto
        show "v = lam * w" if "(k, v) \<in> set trial" for v using that same unfolding lam(2) by (cases k) auto
      qed
      ultimately show ?thesis using 2 by (simp add: merge_miss [of k fixed] min_absorb2)
    next
      case 3
      have "k \<notin> fst ` set fixed" "k \<notin> fst ` set trial" using 3 same unfolding lam(2,3) by (cases k; auto)+
      moreover have "dict_get ?zero k = Some 0"
      proof (rule map_of_is_SomeI)
        show "distinct (map fst ?zero)" unfolding zero by (rule assms(1))
        show "(k, 0) \<in> set ?zero" using kw by force
      qed
      ultimately show ?thesis using 3 by (simp add: merge_miss)
    qed
  qed
  have "capped_shares ws cap = ?want"
    unfolding shares
  proof (rule dict_ext)
    have wk: "map fst ?want = map fst ws" by (simp add: comp_def case_prod_unfold)
    then show "map fst (dict_merge (dict_merge ?zero trial) fixed) = map fst ?want" using keys by simp
    show "distinct (map fst (dict_merge (dict_merge ?zero trial) fixed))" using keys assms(1) by simp
    fix k
    assume "k \<in> dict_keys (dict_merge (dict_merge ?zero trial) fixed)"
    then have "k \<in> fst ` set ws" using keys by (metis list.set_map)
    then obtain w where kw: "(k, w) \<in> set ws" by force
    have "dict_get ?want k = Some (if w > 0 then min cap (lam * w) else 0)"
    proof (rule map_of_is_SomeI)
      show "distinct (map fst ?want)" unfolding wk by (rule assms(1))
      show "(k, if w > 0 then min cap (lam * w) else 0) \<in> set ?want" using kw by force
    qed
    then show "dict_get (dict_merge (dict_merge ?zero trial) fixed) k = dict_get ?want k" using val [OF kw] by simp
  qed
  moreover have "total_of ?want = sum_list (filled cap lam ?live)"
    by (induction ws) (auto simp: total_of_def)
  ultimately show ?thesis using lam(1,4) by auto
qed

text \<open>C29. The shares are a water filling: every version with a positive weight gets its weight times one common level,
  cut at the cap, and the others nothing; together they hand out the whole budget, or the cap times the
  number of versions when that is less.\<close>

theorem shares_are_water_filling:
  assumes "distinct (map fst ws)" and "0 < cap"
  shows "\<exists>lam \<ge> 0. capped_shares ws cap = map (\<lambda>(k, w). (k, if w > 0 then min cap (lam * w) else 0)) ws \<and>
    total_of (capped_shares ws cap) = min 1 (cap * of_nat (length (filter (\<lambda>(k, w). w > 0) ws)))"
  by (rule fold_capped [OF assms])

theorem shares_are_water_filling_witness:
  "total_of (capped_shares [((''a'', ''1''), 6), ((''b'', ''1''), 1), ((''c'', ''1''), 0), ((''d'', ''1''), 1)] (1 / 2)) = 1"
proof -
  have "(0 :: flt) < 1 / 2" by simp
  with shares_are_water_filling [OF _ this, of "[((''a'', ''1''), 6), ((''b'', ''1''), 1), ((''c'', ''1''), 0), ((''d'', ''1''), 1)]"]
  show ?thesis by auto
qed

section \<open>The allocation\<close>

lemma fold_set_new:
  "distinct (map f xs) \<Longrightarrow> f ` set xs \<inter> fst ` set d = {} \<Longrightarrow>
    fold (\<lambda>x. dict_set (f x) (v x)) xs d = d @ map (\<lambda>x. (f x, v x)) xs"
proof (induction xs arbitrary: d)
  case (Cons x xs)
  have "dict_set (f x) (v x) e = e @ [(f x, v x)]" if "f x \<notin> fst ` set e" for e
    using that by (induction e rule: dict_set.induct) auto
  then have "dict_set (f x) (v x) d = d @ [(f x, v x)]" using Cons.prems(2) by auto
  moreover have "f ` set xs \<inter> fst ` set (d @ [(f x, v x)]) = {}" using Cons.prems by auto
  ultimately show ?case using Cons by simp
qed simp

definition member_share :: "(key, flt) dict \<Rightarrow> (key, flt) dict \<Rightarrow> key list \<Rightarrow> key \<Rightarrow> flt" where
  "member_share w slots g m =
     (let total = sum_list (map (look w) g) in if total > 0 then look slots (hd g) * look w m / total else 0)"

lemma sum_parts: "sum_list (concat xs) = sum_list (map sum_list xs)" for xs :: "flt list list"
  by (induction xs) simp_all

lemma sum_look:
  assumes "distinct (map fst d)"
  shows "sum_list (map (look d) (map fst d)) = total_of d"
proof -
  have "map (look d) (map fst d) = map snd d"
    using assms by (auto simp: look_def)
  then show ?thesis by (simp only: total_of_def)
qed

lemma split_groups:
  "distinct (concat gs) \<Longrightarrow> set (concat gs) \<inter> fst ` set d = {} \<Longrightarrow>
    fold (split_group w slots) gs d = d @ concat (map (\<lambda>g. map (\<lambda>m. (m, member_share w slots g m)) g) gs)"
proof (induction gs arbitrary: d)
  case (Cons g gs)
  have "split_group w slots g d = d @ map (\<lambda>m. (m, member_share w slots g m)) g"
    unfolding split_group_def Let_def member_share_def
    by (rule fold_set_new [of "\<lambda>m. m"]) (use Cons.prems in auto)
  moreover have "set (concat gs) \<inter> fst ` set (d @ map (\<lambda>m. (m, member_share w slots g m)) g) = {}"
    using Cons.prems by auto
  ultimately show ?case using Cons by simp
qed simp

lemma look_nonneg: "0 \<le> look (weights_of k perf) m"
proof -
  have "\<forall>(x, w) \<in> set (fold (\<lambda>p. dict_set (vp_key p) (weight_of k p)) perf d). 0 \<le> w"
    if "\<forall>(x, w) \<in> set d. 0 \<le> w" for d
    using that
  proof (induction perf arbitrary: d)
    case (Cons p perf)
    have "set (dict_set (vp_key p) (weight_of k p) d) \<subseteq> insert (vp_key p, weight_of k p) (set d)"
      by (induction d rule: dict_set.induct) auto
    then have "\<forall>(x, w) \<in> set (dict_set (vp_key p) (weight_of k p) d). 0 \<le> w"
      using Cons.prems by (auto simp: weight_of_def)
    then show ?case using Cons.IH by simp
  qed simp
  from this [of "[]"] show ?thesis
    by (auto simp: look_def weights_of_def split: option.split dest!: map_of_SomeD)
qed

lemma sum_split: "sum_list (map (\<lambda>m. c * f m / t) g) = c * sum_list (map f g) / t" for c t :: flt
  by (induction g) (simp_all add: add_divide_distrib distrib_left)

lemma group_total:
  assumes "\<And>m. 0 \<le> look w m" and "0 \<le> look slots (hd g)"
  shows "sum_list (map (member_share w slots g) g) \<le> look slots (hd g)"
    and "m \<in> set g \<Longrightarrow> 0 \<le> member_share w slots g m \<and> member_share w slots g m \<le> look slots (hd g)"
proof -
  let ?t = "sum_list (map (look w) g)"
  have "sum_list (map (\<lambda>m. look slots (hd g) * look w m / ?t) g) = look slots (hd g) * ?t / ?t"
    by (rule sum_split)
  moreover have "member_share w slots g = (if ?t > 0 then (\<lambda>m. look slots (hd g) * look w m / ?t) else (\<lambda>_. 0))"
    by (auto simp: member_share_def Let_def fun_eq_iff)
  ultimately show 1: "sum_list (map (member_share w slots g) g) \<le> look slots (hd g)"
    using assms(2) by (cases "?t > 0") simp_all
  have pos: "0 \<le> member_share w slots g m" for m
    using assms by (auto simp: member_share_def Let_def)
  have le: "member_share w slots g m \<le> sum_list (map (member_share w slots g) g)" if "m \<in> set g"
    by (rule member_le_sum_list) (use pos that in auto)
  show "0 \<le> member_share w slots g m \<and> member_share w slots g m \<le> look slots (hd g)" if "m \<in> set g"
    using 1 pos le [OF that] by (meson order_trans)
qed

lemma distinct_heads: "distinct (concat xs) \<Longrightarrow> [] \<notin> set xs \<Longrightarrow> distinct (map hd xs)"
proof (induction xs)
  case (Cons g xs)
  have "hd g \<notin> hd ` set xs"
  proof
    assume "hd g \<in> hd ` set xs"
    then obtain y where y: "y \<in> set xs" "hd g = hd y" by auto
    then have "hd y \<in> set y" "hd g \<in> set g" using Cons.prems(2) by (metis hd_in_set list.set_intros)+
    with y Cons.prems(1) show False by auto
  qed
  with Cons show ?case by auto
qed simp

lemma slot_shares:
  fixes w :: "(key, flt) dict"
  assumes "distinct (concat gs)" and "[] \<notin> set gs" and "0 < cap"
  defines "slots \<equiv> capped_shares (slot_weights w gs) cap"
  shows "map fst slots = map hd gs" and "0 \<le> look slots x" and "look slots x \<le> cap" and "total_of slots \<le> 1"
proof -
  have heads: "distinct (map hd gs)" by (rule distinct_heads [OF assms(1,2)])
  have slotw: "map fst (slot_weights w gs) = map hd gs"
    unfolding slot_weights_def
    using fold_set_new [of hd gs "[]" "\<lambda>g. fold max (map (look w) (tl g)) (look w (hd g))"] heads by simp
  then have "distinct (map fst (slot_weights w gs))" using heads by simp
  from fold_capped [OF this assms(3)] obtain lam where lam: "0 \<le> lam"
      "slots = map (\<lambda>(k, w). (k, if w > 0 then min cap (lam * w) else 0)) (slot_weights w gs)"
      "total_of slots = min 1 (cap * of_nat (length (filter (\<lambda>(k, w). w > 0) (slot_weights w gs))))"
    unfolding slots_def by blast
  show "map fst slots = map hd gs" unfolding slotw [symmetric] by (subst lam(2)) (simp add: comp_def case_prod_unfold)
  have "0 \<le> v \<and> v \<le> cap" if "(x, v) \<in> set slots" for v
    using that lam(1) assms(3) unfolding lam(2) by (auto simp: min_def)
  then have "0 \<le> look slots x \<and> look slots x \<le> cap"
    using assms(3) by (auto simp: look_def split: option.split dest!: map_of_SomeD)
  then show "0 \<le> look slots x" "look slots x \<le> cap" by auto
  show "total_of slots \<le> 1" using lam(3) by simp
qed

text \<open>The allocation always exists and covers exactly the given versions; no version and no cluster together gets
  more than the cap, no share is negative, and all shares together are at most the whole budget.\<close>

theorem allocation_is_bounded:
  assumes "distinct (map vp_key perf)" and "0 < cap"
  shows "\<exists>shares gs. allocate_shares perf k t m cap = Some (shares, gs) \<and> clusters perf t m = Some gs \<and>
    map fst shares = concat gs \<and> {key. \<exists>x. (key, x) \<in> set shares \<and> (x < 0 \<or> cap < x)} = {} \<and>
    {g \<in> set gs. cap < sum_list (map (look shares) g)} = {} \<and> total_of shares \<le> 1"
proof -
  let ?w = "weights_of k perf"
  obtain gs where gs: "clusters perf t m = Some gs" "mset (concat gs) = mset (map vp_key perf)" "[] \<notin> set gs"
    using clusters_parts [of perf t m] by blast
  have dist: "distinct (concat gs)" using assms(1) gs(2) by (metis mset_eq_imp_distinct_iff)
  let ?slots = "capped_shares (slot_weights ?w gs) cap"
  let ?m = "member_share ?w ?slots"
  let ?shares = "concat (map (\<lambda>g. map (\<lambda>m. (m, ?m g m)) g) gs)"
  note slot = slot_shares [OF dist gs(3) assms(2), of ?w]
  have "fold (split_group ?w ?slots) gs [] = ?shares" using split_groups [of gs "[]"] dist by simp
  then have alloc: "allocate_shares perf k t m cap = Some (?shares, gs)"
    by (simp add: allocate_shares_def Let_def gs(1))
  note part = group_total [of ?w ?slots, OF look_nonneg slot(2)]
  have keys: "map fst ?shares = concat gs" by (simp add: map_concat comp_def)
  have single: "0 \<le> x \<and> x \<le> cap" if "(key, x) \<in> set ?shares" for key x
  proof -
    from that obtain g where "key \<in> set g" "x = ?m g key" by auto
    with part(2) [of key g] slot(3) [of "hd g"] show ?thesis by auto
  qed
  have own: "look ?shares a = ?m g a" if "g \<in> set gs" "a \<in> set g" for g a
  proof -
    have "dict_get ?shares a = Some (?m g a)"
      by (rule map_of_is_SomeI) (use keys dist that in auto)
    then show ?thesis by (simp add: look_def)
  qed
  have group: "sum_list (map (look ?shares) g) \<le> cap" if "g \<in> set gs" for g
  proof -
    have same: "map (look ?shares) g = map (?m g) g" by (rule map_cong [OF refl]) (rule own [OF that])
    show ?thesis unfolding same by (rule order_trans [OF part(1) slot(3)])
  qed
  have all: "total_of ?shares \<le> 1"
  proof -
    have "total_of ?shares = sum_list (map (\<lambda>g. sum_list (map (?m g) g)) gs)"
      by (simp add: total_of_def map_concat comp_def sum_parts)
    also have "\<dots> \<le> sum_list (map (\<lambda>g. look ?slots (hd g)) gs)" by (rule sum_list_mono) (rule part(1))
    also have "\<dots> = sum_list (map (look ?slots) (map hd gs))" by (simp add: comp_def)
    also have "\<dots> = total_of ?slots"
      using sum_look [of ?slots] distinct_heads [OF dist gs(3)] slot(1) by simp
    finally show ?thesis using slot(4) by simp
  qed
  obtain shares where sh: "shares = ?shares" by blast
  have "{key. \<exists>x. (key, x) \<in> set shares \<and> (x < 0 \<or> cap < x)} = {}" "{g \<in> set gs. cap < sum_list (map (look shares) g)} = {}"
    using single [folded sh] group [folded sh] by (auto simp: not_less dest: leD)
  with alloc [folded sh] gs(1) keys [folded sh] all [folded sh] show ?thesis by blast
qed

definition steady :: performance where
  "steady = \<lparr>vp_strategy_id = ''swing'', vp_version = ''1'', vp_stage = Live, vp_live_trades = 50, vp_sharpe_live = 2,
     vp_sharpe_backtest = 1, vp_daily_r = []\<rparr>"

theorem allocation_is_bounded_witness:
  "\<exists>shares gs. allocate_shares [steady, steady\<lparr>vp_strategy_id := ''trend''\<rparr>] 50 (7 / 10) 20 (1 / 4) = Some (shares, gs) \<and>
     total_of shares \<le> 1"
proof -
  have "distinct (map vp_key [steady, steady\<lparr>vp_strategy_id := ''trend''\<rparr>])" "(0 :: flt) < 1 / 4"
    by (simp_all add: vp_key_def steady_def)
  from allocation_is_bounded [OF this, of 50 "7 / 10" 20] show ?thesis by blast
qed
end
