(* ===== verification/Allocator_Properties.thy ===== *)
theory Allocator_Properties
  imports Allocator Weights_Properties
begin

text \<open>What a proposal can risk.\<close>

lemma risk_fraction_capped:
  "risk_fraction a k st \<le> max 0 (stage_limit (at_cfg a) (if st = DemoOnly then Micro else st))"
  by (auto simp: risk_fraction_def split: option.split)

lemma floor_part:
  assumes "0 < b"
  shows "of_int \<lfloor>x / b\<rfloor> * b \<le> (x :: rat)"
  using floor_step_le [OF assms, of x] by (simp add: floor_step_def)

lemma quotient_part: "0 < u \<Longrightarrow> x / u * u = (x :: rat)"
  by simp

text \<open>C30. A proposed order risks at most the version's risk fraction of the equity (a \<open>demo_only\<close> version apart, which
  always proposes the minimum lot), the fraction is within the limit of the version's present stage, the lots
  are between the instrument's minimum and maximum, and the intent's identifier depends on the signal alone.\<close>

theorem proposal_within_budget:
  assumes "check_lots i" and "0 < to_account"
    and "propose intent_id_for a sg st equity entry i to_account account = Inr (Some oi)"
  shows "in_min_lot i \<le> oi_proposed_lots oi \<and> oi_proposed_lots oi \<le> in_max_lot i \<and>
    oi_id oi = intent_id_for (sg_id sg) \<and> 0 < oi_risk_fraction oi \<and>
    oi_risk_fraction oi \<le> stage_limit (at_cfg a) (if st = DemoOnly then Micro else st) \<and>
    (st = DemoOnly \<and> oi_proposed_lots oi = in_min_lot i \<or>
     oi_proposed_lots oi * (\<bar>entry - sg_stop_price sg\<bar> * in_contract_size i * to_account) \<le> equity * oi_risk_fraction oi)"
proof -
  let ?rf = "risk_fraction a (sg_strategy_id sg, sg_strategy_version sg) st"
  let ?dist = "\<bar>entry - sg_stop_price sg\<bar>"
  let ?unit = "?dist * in_contract_size i * to_account"
  let ?raw = "equity * ?rf / ?unit"
  let ?floor = "of_int \<lfloor>?raw / in_lot_step i\<rfloor> * in_lot_step i"
  let ?lots = "if st = DemoOnly then in_min_lot i else min ?floor (in_max_lot i)"
  have inst: "0 < in_min_lot i" "in_min_lot i \<le> in_max_lot i" "0 < in_lot_step i" "0 < in_contract_size i"
    using assms(1) by (auto simp: check_lots_def not_le)
  have live: "0 < ?rf" "0 < ?dist" "0 < equity"
    using assms(3) by (auto simp: propose_def Let_def not_le split: if_splits)
  then have unit: "0 < ?unit" using inst(4) assms(2) by simp
  have oi: "oi_proposed_lots oi = ?lots" "in_min_lot i \<le> ?lots" "oi_id oi = intent_id_for (sg_id sg)" "oi_risk_fraction oi = ?rf"
    using assms(3) live unit inst(3) by (auto simp: propose_def Let_def ddiv_def not_less split: if_splits)
  have "?floor * ?unit \<le> ?raw * ?unit"
    by (rule mult_right_mono) (use floor_part [OF inst(3), of ?raw] unit in simp_all)
  also have "\<dots> = equity * ?rf" by (rule quotient_part [OF unit])
  finally have "?floor * ?unit \<le> equity * ?rf" .
  moreover have "min ?floor (in_max_lot i) * ?unit \<le> ?floor * ?unit"
    by (rule mult_right_mono) (use unit in simp_all)
  ultimately have "st \<noteq> DemoOnly \<longrightarrow> ?lots * ?unit \<le> equity * ?rf" by simp
  moreover have "?rf \<le> stage_limit (at_cfg a) (if st = DemoOnly then Micro else st)"
    using risk_fraction_capped [of a "(sg_strategy_id sg, sg_strategy_version sg)" st] live(1) by (simp add: max_def split: if_splits)
  ultimately show ?thesis using oi live(1) inst(2) by auto
qed

definition micro_allocator :: allocator where
  "micro_allocator = allocator_init \<lparr>ac_shrinkage_k = 50, ac_cluster_threshold = 7 / 10, ac_min_overlap = 20,
     ac_max_share = 1 / 4, ac_risk_budget = 1 / 100, ac_rebalance_days = 7, ac_stage_limits = [(Micro, 1 / 1000)]\<rparr> None"

definition euro :: instrument where
  "euro = \<lparr>in_symbol = ''EURUSD'', in_base = ''EUR'', in_quote = ''USD'', in_contract_size = 100000, in_pip_size = 1 / 10000,
     in_tick_size = 1 / 100000, in_min_lot = 1 / 100, in_lot_step = 1 / 100, in_max_lot = 50, in_commission_per_lot = 7,
     in_swap_long = 0, in_swap_short = 0, in_swap_mode = SwapPoints, in_triple_swap_weekday = 2\<rparr>"

definition euro_signal :: signal where
  "euro_signal = \<lparr>sg_id = ''s1'', sg_strategy_id = ''swing'', sg_strategy_version = ''1'', sg_symbol = ''EURUSD'', sg_side = Buy,
     sg_entry_type = MarketEntry, sg_entry_price = None, sg_stop_price = 109 / 100, sg_target_price = None,
     sg_expiry_bars = None, sg_created_at = 0, sg_reason = ''r'', sg_tags = []\<rparr>"

theorem proposal_within_budget_witness:
  "\<exists>oi. propose (\<lambda>s. s) micro_allocator euro_signal Micro 100000 (11 / 10) euro 1 ''acc'' = Inr (Some oi) \<and>
     oi_proposed_lots oi = 1 / 10 \<and> oi_proposed_lots oi * 1000 \<le> 100"
proof -
  have lots: "check_lots euro" "(0 :: dec) < 1" by (simp_all add: check_lots_def euro_def)
  obtain oi where oi: "propose (\<lambda>s. s) micro_allocator euro_signal Micro 100000 (11 / 10) euro 1 ''acc'' = Inr (Some oi)"
      "oi_proposed_lots oi = 1 / 10" "oi_risk_fraction oi = 1 / 1000"
    by (simp add: propose_def Let_def risk_fraction_def micro_allocator_def allocator_init_def stage_limit_def euro_signal_def
        euro_def ddiv_def)
  from proposal_within_budget [OF lots oi(1)] oi(1,2) show ?thesis by simp
qed
end
