(* ===== verification/Bus.thy ===== *)
theory Bus
  imports Prelude
begin

text \<open>
  The message bus between the services (\<open>core/bus.py\<close>): streams of serialized messages, one cursor and
  one set of unacknowledged messages for every group, and the deterministic \<open>pump\<close>. The messages \<open>'m\<close>,
  their serialized form \<open>'r\<close> and the codec between them (a pydantic type adapter) are parameters. The
  services share one state \<open>'s\<close>; a handler may publish. The Redis transport is a third-party service; the
  blocking wait of \<open>read\<close> does nothing to the bus.
\<close>

section \<open>The bus\<close>

record ('m, 'r) codec =
  cd_encode :: "'m \<Rightarrow> 'r"
  cd_decode :: "'r \<Rightarrow> exn + 'm"

record ('m, 'r) bus =
  bs_streams :: "(string, (string \<times> 'r) list) dict"
  bs_cursors :: "(string \<times> string, nat) dict"
  bs_pending :: "(string \<times> string, (string, 'r) dict) dict"
  bs_seq :: nat
  bs_decoded :: "(string, 'm) dict"

definition empty_bus :: "('m, 'r) bus" where
  "empty_bus = \<lparr>bs_streams = [], bs_cursors = [], bs_pending = [], bs_seq = 0, bs_decoded = []\<rparr>"

definition get_or :: "'v \<Rightarrow> ('k, 'v) dict \<Rightarrow> 'k \<Rightarrow> 'v" where
  "get_or v d k = (case dict_get d k of None \<Rightarrow> v | Some x \<Rightarrow> x)"

definition message_id :: "nat \<Rightarrow> string" where
  "message_id n = nat_str n @ ''-0''"

definition publish :: "('m, 'r) codec \<Rightarrow> string \<Rightarrow> 'm \<Rightarrow> (('m, 'r) bus, string) se" where
  "publish C stream m = (\<lambda>b.
     let n = bs_seq b + 1; mid = message_id n;
         rows = get_or [] (bs_streams b) stream
     in (Inr mid, b\<lparr>bs_seq := n, bs_streams := dict_set stream (rows @ [(mid, cd_encode C m)]) (bs_streams b)\<rparr>))"

text \<open>One message of the batch: decoded once, for every group that reads it.\<close>

definition decode_row :: "('m, 'r) codec \<Rightarrow> string \<times> 'r \<Rightarrow> (string \<times> 'm) list \<Rightarrow> (('m, 'r) bus, (string \<times> 'm) list) se" where
  "decode_row C row out = (case row of (mid, raw) \<Rightarrow>
     bnd (gets (\<lambda>b. dict_get (bs_decoded b) mid)) (\<lambda>known. case known of
       Some m \<Rightarrow> ret (out @ [(mid, m)])
     | None \<Rightarrow>
         (case cd_decode C raw of
            Inl e \<Rightarrow> raise e
          | Inr m \<Rightarrow> seq (modif (\<lambda>b. b\<lparr>bs_decoded := dict_set mid m (bs_decoded b)\<rparr>)) (ret (out @ [(mid, m)])))))"

definition read_rows :: "string \<Rightarrow> string \<Rightarrow> nat \<Rightarrow> ('m, 'r) bus \<Rightarrow> (string \<times> 'r) list" where
  "read_rows stream grp cnt b =
     take cnt (drop (get_or 0 (bs_cursors b) (stream, grp)) (get_or [] (bs_streams b) stream))"

definition bus_read :: "('m, 'r) codec \<Rightarrow> string \<Rightarrow> string \<Rightarrow> nat \<Rightarrow> (('m, 'r) bus, (string \<times> 'm) list) se" where
  "bus_read C stream grp cnt = (\<lambda>b.
     let k = (stream, grp); start = get_or 0 (bs_cursors b) k in
     if dict_get (bs_streams b) stream = None \<or> start \<ge> length (get_or [] (bs_streams b) stream) then (Inr [], b)
     else
       let batch = read_rows stream grp cnt b;
           pend = fold (\<lambda>(mid, raw). dict_set mid raw) batch (get_or [] (bs_pending b) k)
       in fold_each (decode_row C) batch []
            (b\<lparr>bs_pending := dict_set k pend (bs_pending b),
               bs_cursors := dict_set k (start + length batch) (bs_cursors b)\<rparr>))"

definition bus_ack :: "string \<Rightarrow> string \<Rightarrow> string list \<Rightarrow> (('m, 'r) bus, unit) se" where
  "bus_ack stream grp ids = modif (\<lambda>b.
     b\<lparr>bs_pending := dict_set (stream, grp)
         (fold dict_del ids (get_or [] (bs_pending b) (stream, grp))) (bs_pending b)\<rparr>)"

section \<open>Services\<close>

type_synonym ('s, 'm, 'r) net = "'s \<times> ('m, 'r) bus"

definition on_bus :: "(('m, 'r) bus, 'a) se \<Rightarrow> (('s, 'm, 'r) net, 'a) se" where
  "on_bus m = (\<lambda>(s, b). case m b of (x, b') \<Rightarrow> (x, (s, b')))"

definition on_services :: "('s, 'a) se \<Rightarrow> (('s, 'm, 'r) net, 'a) se" where
  "on_services m = (\<lambda>(s, b). case m s of (x, s') \<Rightarrow> (x, (s', b)))"

text \<open>A service: its name, its handlers by stream, and the hook for failing handlers, if it has one.\<close>

record ('s, 'm, 'r) subscriber =
  sv_name :: string
  sv_handlers :: "(string, 'm \<Rightarrow> (('s, 'm, 'r) net, unit) se) dict"
  sv_on_error :: "(string \<Rightarrow> string \<Rightarrow> (('s, 'm, 'r) net, unit) se) option"

text \<open>A handler that raises is logged and reported to the hook; the message is acknowledged either way.\<close>

definition handle_message ::
  "('s, 'm, 'r) subscriber \<Rightarrow> string \<Rightarrow> ('m \<Rightarrow> (('s, 'm, 'r) net, unit) se) \<Rightarrow> string \<times> 'm \<Rightarrow> (('s, 'm, 'r) net, unit) se" where
  "handle_message svc stream handler = (\<lambda>(mid, m).
     seq (\<lambda>n. case handler m n of
            (Inr _, n') \<Rightarrow> (Inr (), n')
          | (Inl _, n') \<Rightarrow> (case sv_on_error svc of None \<Rightarrow> (Inr (), n') | Some hook \<Rightarrow> hook stream mid n'))
         (on_bus (bus_ack stream (sv_name svc) [mid])))"

definition deliver ::
  "('m, 'r) codec \<Rightarrow> ('s, 'm, 'r) subscriber \<Rightarrow> string \<Rightarrow> ('m \<Rightarrow> (('s, 'm, 'r) net, unit) se) \<Rightarrow> (('s, 'm, 'r) net, nat) se" where
  "deliver C svc stream handler =
     bnd (on_bus (bus_read C stream (sv_name svc) 100)) (\<lambda>msgs.
     seq (for_each (handle_message svc stream handler) msgs) (ret (length msgs)))"

text \<open>One round of \<open>pump\<close>: every handler of every service.\<close>

definition round_of :: "('s, 'm, 'r) subscriber list \<Rightarrow> (('s, 'm, 'r) subscriber \<times> string \<times> ('m \<Rightarrow> (('s, 'm, 'r) net, unit) se)) list" where
  "round_of svcs = concat (map (\<lambda>svc. map (\<lambda>(stream, h). (svc, stream, h)) (sv_handlers svc)) svcs)"

definition pump_round :: "('m, 'r) codec \<Rightarrow> ('s, 'm, 'r) subscriber list \<Rightarrow> (('s, 'm, 'r) net, nat) se" where
  "pump_round C svcs =
     fold_each (\<lambda>(svc, stream, h) moved. bnd (deliver C svc stream h) (\<lambda>n. ret (moved + n))) (round_of svcs) 0"

fun pump_loop :: "nat \<Rightarrow> ('m, 'r) codec \<Rightarrow> ('s, 'm, 'r) subscriber list \<Rightarrow> nat \<Rightarrow> (('s, 'm, 'r) net, nat) se" where
  "pump_loop 0 C svcs tot = raise (RuntimeErr [''bus did not settle (a message loop between services?)''])"
| "pump_loop (Suc n) C svcs tot =
     bnd (pump_round C svcs) (\<lambda>moved.
       if moved = 0 then ret (tot + moved) else pump_loop n C svcs (tot + moved))"

definition max_rounds :: nat where
  "max_rounds = 10000"

definition pump :: "('m, 'r) codec \<Rightarrow> ('s, 'm, 'r) subscriber list \<Rightarrow> (('s, 'm, 'r) net, nat) se" where
  "pump C svcs = pump_loop max_rounds C svcs 0"

section \<open>Runs\<close>

text \<open>Anything the services can do to the bus, and what each group was given.\<close>

datatype 'm bus_op = Publish string 'm | Read string string nat | Ack string string "string list"

type_synonym 'm reading = "string \<times> string \<times> string \<times> 'm"

fun bus_do :: "('m, 'r) codec \<Rightarrow> 'm bus_op \<Rightarrow> ('m, 'r) bus \<times> 'm reading list \<Rightarrow> ('m, 'r) bus \<times> 'm reading list" where
  "bus_do C (Publish stream m) (b, given) = (snd (publish C stream m b), given)"
| "bus_do C (Read stream grp cnt) (b, given) =
     (case bus_read C stream grp cnt b of
        (Inl _, b') \<Rightarrow> (b', given)
      | (Inr ms, b') \<Rightarrow> (b', given @ map (\<lambda>(mid, m). (stream, grp, mid, m)) ms))"
| "bus_do C (Ack stream grp ids) (b, given) = (snd (bus_ack stream grp ids b), given)"

definition bus_run :: "('m, 'r) codec \<Rightarrow> 'm bus_op list \<Rightarrow> ('m, 'r) bus \<times> 'm reading list" where
  "bus_run C xs = fold (bus_do C) xs (empty_bus, [])"

text \<open>What was published on a stream, and what a group was given from it.\<close>

fun published :: "string \<Rightarrow> 'm bus_op list \<Rightarrow> 'm list" where
  "published s [] = []"
| "published s (Publish stream m # xs) = (if stream = s then m # published s xs else published s xs)"
| "published s (_ # xs) = published s xs"

definition given_to :: "string \<Rightarrow> string \<Rightarrow> 'm reading list \<Rightarrow> 'm list" where
  "given_to s g given = map (\<lambda>(_, _, _, m). m) (filter (\<lambda>(stream, grp, _, _). stream = s \<and> grp = g) given)"

end
