(* ===== verification/Bus_Properties.thy ===== *)
theory Bus_Properties
  imports Bus
begin

text \<open>
  The delivery promise of the bus: whatever is published, read and acknowledged in whatever order, each
  group is given the messages of a stream in the order of publication, each exactly once and unchanged by
  the serialization and the shared decode cache; and a pump that returns has given every subscriber
  everything published to it.
\<close>

section \<open>The log behind the streams\<close>

lemma get_or_set [dict_simps]: "get_or v (dict_set k x d) j = (if j = k then x else get_or v d j)"
  by (simp add: get_or_def)

lemma message_id_inj [simp]: "message_id m = message_id n \<longleftrightarrow> m = n"
  by (simp add: message_id_def)

definition lossless :: "('m, 'r) codec \<Rightarrow> bool" where
  "lossless C \<longleftrightarrow> (\<forall>m. cd_decode C (cd_encode C m) = Inr m)"

lemma losslessD: "lossless C \<Longrightarrow> cd_decode C (cd_encode C m) = Inr m"
  by (simp add: lossless_def)

text \<open>The numbered messages of every stream.\<close>

type_synonym 'm log = "string \<Rightarrow> (nat \<times> 'm) list"

definition row_of :: "('m, 'r) codec \<Rightarrow> nat \<times> 'm \<Rightarrow> string \<times> 'r" where
  "row_of C p = (message_id (fst p), cd_encode C (snd p))"

definition note_of :: "nat \<times> 'm \<Rightarrow> string \<times> 'm" where
  "note_of p = (message_id (fst p), snd p)"

definition logged :: "'m log \<Rightarrow> nat \<Rightarrow> bool" where
  "logged L n \<longleftrightarrow> (\<forall>s p. p \<in> set (L s) \<longrightarrow> fst p \<le> n)
     \<and> (\<forall>s t p q. p \<in> set (L s) \<longrightarrow> q \<in> set (L t) \<longrightarrow> fst p = fst q \<longrightarrow> p = q)"

text \<open>The decode cache holds messages of the log under their own identifiers.\<close>

definition cached :: "'m log \<Rightarrow> (string, 'm) dict \<Rightarrow> bool" where
  "cached L d \<longleftrightarrow> (\<forall>i m. dict_get d i = Some m \<longrightarrow> (\<exists>s p. p \<in> set (L s) \<and> note_of p = (i, m)))"

definition stored :: "('m, 'r) codec \<Rightarrow> 'm log \<Rightarrow> ('m, 'r) bus \<Rightarrow> bool" where
  "stored C L b \<longleftrightarrow> logged L (bs_seq b) \<and> cached L (bs_decoded b)
     \<and> (\<forall>s. get_or [] (bs_streams b) s = map (row_of C) (L s))"

lemma cached_hit:
  assumes "cached L d" and "logged L n" and "p \<in> set (L s)" and "dict_get d (message_id (fst p)) = Some m"
  shows "m = snd p"
proof -
  obtain t q where q: "q \<in> set (L t)" "note_of q = (message_id (fst p), m)"
    using assms(1,4) unfolding cached_def by blast
  then have "fst q = fst p" and "snd q = m" by (simp_all add: note_of_def)
  moreover have "q = p" using assms(2,3) q(1) calculation(1) unfolding logged_def by blast
  ultimately show ?thesis by simp
qed

lemma cached_set:
  assumes "cached L d" and "p \<in> set (L s)"
  shows "cached L (dict_set (message_id (fst p)) (snd p) d)"
  unfolding cached_def get_set
proof (intro allI impI)
  fix i m
  assume hit: "(if i = message_id (fst p) then Some (snd p) else dict_get d i) = Some m"
  show "\<exists>s q. q \<in> set (L s) \<and> note_of q = (i, m)"
  proof (cases "i = message_id (fst p)")
    case True
    with hit have "note_of p = (i, m)" by (simp add: note_of_def)
    with assms(2) show ?thesis by (intro exI conjI)
  next
    case False
    with hit have "dict_get d i = Some m" by simp
    with assms(1) show ?thesis unfolding cached_def by blast
  qed
qed

lemma decode_row_known:
  assumes "lossless C" and "cached L (bs_decoded b)" and "logged L n" and "p \<in> set (L s)"
  shows "\<exists>d. decode_row C (row_of C p) out b = (Inr (out @ [note_of p]), b\<lparr>bs_decoded := d\<rparr>) \<and> cached L d"
proof (cases "dict_get (bs_decoded b) (message_id (fst p))")
  case None
  then have "decode_row C (row_of C p) out b
      = (Inr (out @ [note_of p]), b\<lparr>bs_decoded := dict_set (message_id (fst p)) (snd p) (bs_decoded b)\<rparr>)"
    by (simp add: decode_row_def row_of_def bnd_gets losslessD [OF assms(1)] seq_modif ret_def note_of_def)
  with cached_set [OF assms(2,4)] show ?thesis by blast
next
  case (Some m)
  with cached_hit [OF assms(2,3,4)] have "m = snd p" by simp
  with Some have "decode_row C (row_of C p) out b = (Inr (out @ [note_of p]), b\<lparr>bs_decoded := bs_decoded b\<rparr>)"
    by (simp add: decode_row_def row_of_def bnd_gets ret_def note_of_def)
  with assms(2) show ?thesis by blast
qed

lemma decode_batch:
  assumes "lossless C" and "logged L n"
  shows "cached L (bs_decoded b) \<Longrightarrow> set ps \<subseteq> set (L s) \<Longrightarrow>
    \<exists>d. fold_each (decode_row C) (map (row_of C) ps) out b = (Inr (out @ map note_of ps), b\<lparr>bs_decoded := d\<rparr>)
      \<and> cached L d"
proof (induction ps arbitrary: out b)
  case Nil
  then have "fold_each (decode_row C) (map (row_of C) []) out b
      = (Inr (out @ map note_of []), b\<lparr>bs_decoded := bs_decoded b\<rparr>)" by (simp add: ret_def)
  with Nil show ?case by blast
next
  case (Cons p ps)
  have "p \<in> set (L s)" and rest: "set ps \<subseteq> set (L s)" using Cons.prems(2) by simp_all
  then obtain d where d: "decode_row C (row_of C p) out b = (Inr (out @ [note_of p]), b\<lparr>bs_decoded := d\<rparr>)"
      and "cached L d"
    using decode_row_known [OF assms(1) Cons.prems(1) assms(2)] by blast
  then have "cached L (bs_decoded (b\<lparr>bs_decoded := d\<rparr>))" by simp
  from Cons.IH [OF this rest, of "out @ [note_of p]"]
  obtain d' where "fold_each (decode_row C) (map (row_of C) ps) (out @ [note_of p]) (b\<lparr>bs_decoded := d\<rparr>)
      = (Inr (out @ map note_of (p # ps)), b\<lparr>bs_decoded := d'\<rparr>)" and "cached L d'" by auto
  then show ?case by (intro exI [of _ d']) (simp add: bnd_run [of "decode_row C (row_of C p) out", OF d])
qed

section \<open>Every group in order, once\<close>

definition delivered :: "('m, 'r) codec \<Rightarrow> 'm log \<Rightarrow> ('m, 'r) bus \<times> 'm reading list \<Rightarrow> bool" where
  "delivered C L = (\<lambda>(b, given). stored C L b
     \<and> (\<forall>s g. given_to s g given = take (get_or 0 (bs_cursors b) (s, g)) (map snd (L s))
          \<and> get_or 0 (bs_cursors b) (s, g) \<le> length (L s)))"

lemma published_append: "published s (xs @ ys) = published s xs @ published s ys"
  by (induction s xs rule: published.induct) auto

lemma given_append: "given_to s g (xs @ ys) = given_to s g xs @ given_to s g ys"
  by (simp add: given_to_def)

lemma given_map:
  "given_to s g (map ((\<lambda>(mid, m). (stream, grp, mid, m)) \<circ> note_of) ps)
    = (if stream = s \<and> grp = g then map snd ps else [])"
  by (induction ps) (auto simp: given_to_def note_of_def)

lemma stored_publish:
  assumes "stored C L b"
  shows "stored C (L (stream := L stream @ [(bs_seq b + 1, m)])) (snd (publish C stream m b))"
proof -
  define L' where "L' = L (stream := L stream @ [(bs_seq b + 1, m)])"
  have le: "fst p \<le> bs_seq b" if "p \<in> set (L s)" for p s
    using assms(1) that unfolding stored_def logged_def by blast
  have one: "p = q" if "p \<in> set (L s)" "q \<in> set (L t)" "fst p = fst q" for p q s t
    using assms(1) that unfolding stored_def logged_def by blast
  have new: "p \<in> set (L' s) \<longleftrightarrow> p \<in> set (L s) \<or> (s = stream \<and> p = (bs_seq b + 1, m))" for p s
    by (auto simp: L'_def)
  have "logged L' (bs_seq b + 1)"
    unfolding logged_def new
  proof (intro conjI allI impI)
    fix s p
    assume "p \<in> set (L s) \<or> (s = stream \<and> p = (bs_seq b + 1, m))"
    then show "fst p \<le> bs_seq b + 1" by (auto dest: le)
  next
    fix s t p q
    assume "p \<in> set (L s) \<or> (s = stream \<and> p = (bs_seq b + 1, m))"
      and "q \<in> set (L t) \<or> (t = stream \<and> q = (bs_seq b + 1, m))" and "fst p = fst q"
    then show "p = q" by (auto dest: le intro: one)
  qed
  moreover have "cached L' (bs_decoded b)"
    using assms(1) unfolding stored_def cached_def new by blast
  ultimately show ?thesis
    using assms(1) unfolding L'_def [symmetric] by (auto simp: stored_def publish_def Let_def get_or_set L'_def row_of_def)
qed

lemma read_empty:
  assumes "length (get_or [] (bs_streams b) stream) \<le> get_or 0 (bs_cursors b) (stream, grp)"
  shows "bus_read C stream grp cnt b = (Inr [], b)"
  using assms by (simp add: bus_read_def)

lemma read_batch:
  fixes cnt :: nat
  assumes "lossless C" and "stored C L b"
    and more: "get_or 0 (bs_cursors b) (stream, grp) < length (L stream)"
  defines "ps \<equiv> take cnt (drop (get_or 0 (bs_cursors b) (stream, grp)) (L stream))"
  shows "\<exists>d pend. bus_read C stream grp cnt b = (Inr (map note_of ps),
      b\<lparr>bs_pending := pend, bs_cursors := dict_set (stream, grp) (get_or 0 (bs_cursors b) (stream, grp) + length ps)
          (bs_cursors b), bs_decoded := d\<rparr>) \<and> cached L d"
proof -
  have rows: "get_or [] (bs_streams b) stream = map (row_of C) (L stream)"
    using assms(2) by (simp add: stored_def)
  have some: "dict_get (bs_streams b) stream \<noteq> None"
  proof
    assume "dict_get (bs_streams b) stream = None"
    then have "L stream = []" using rows by (simp add: get_or_def)
    with more show False by simp
  qed
  have batch: "read_rows stream grp cnt b = map (row_of C) ps"
    by (simp add: read_rows_def rows ps_def take_map drop_map)
  define pend where "pend = dict_set (stream, grp) (fold (\<lambda>(mid, raw). dict_set mid raw) (map (row_of C) ps)
      (get_or [] (bs_pending b) (stream, grp))) (bs_pending b)"
  define b' where "b' = b\<lparr>bs_pending := pend,
      bs_cursors := dict_set (stream, grp) (get_or 0 (bs_cursors b) (stream, grp) + length ps) (bs_cursors b)\<rparr>"
  have run: "bus_read C stream grp cnt b = fold_each (decode_row C) (map (row_of C) ps) [] b'"
    using some more by (auto simp: bus_read_def rows batch pend_def b'_def Let_def)
  have "logged L (bs_seq b)" and "cached L (bs_decoded b')"
    using assms(2) by (simp_all add: stored_def b'_def)
  moreover have "set ps \<subseteq> set (L stream)"
    unfolding ps_def by (meson order_trans set_drop_subset set_take_subset)
  ultimately obtain d where d: "fold_each (decode_row C) (map (row_of C) ps) [] b'
      = (Inr ([] @ map note_of ps), b'\<lparr>bs_decoded := d\<rparr>)" and "cached L d"
    using decode_batch [OF assms(1), of L "bs_seq b" b' ps stream "[]"] by blast
  then show ?thesis unfolding run by (intro exI [of _ d] exI [of _ pend]) (simp add: b'_def)
qed

lemma read_on: "take n xs @ take k (drop n xs) = take (n + length (take k (drop n xs))) xs"
  by (simp add: take_add [symmetric] min_def)

lemma read_delivers:
  assumes "lossless C" and "delivered C L (b, given)"
  shows "delivered C L (bus_do C (Read stream grp cnt) (b, given))"
proof (cases "get_or 0 (bs_cursors b) (stream, grp) < length (L stream)")
  case False
  moreover have "length (get_or [] (bs_streams b) stream) = length (L stream)"
    using assms(2) by (simp add: delivered_def stored_def)
  ultimately show ?thesis using assms(2) by (simp add: read_empty)
next
  case True
  have st: "stored C L b"
    and giv: "\<And>s g. given_to s g given = take (get_or 0 (bs_cursors b) (s, g)) (map snd (L s))"
    and cur: "\<And>s g. get_or 0 (bs_cursors b) (s, g) \<le> length (L s)"
    using assms(2) by (simp_all add: delivered_def)
  define n where "n = get_or 0 (bs_cursors b) (stream, grp)"
  define ps where "ps = take cnt (drop n (L stream))"
  obtain d pend where run: "bus_read C stream grp cnt b = (Inr (map note_of ps),
      b\<lparr>bs_pending := pend, bs_cursors := dict_set (stream, grp) (n + length ps) (bs_cursors b), bs_decoded := d\<rparr>)"
      and d: "cached L d"
    using read_batch [OF assms(1) st True] unfolding n_def ps_def by blast
  have fit: "n + length ps \<le> length (L stream)"
    using True unfolding ps_def n_def by auto
  have on: "take n (map snd (L stream)) @ map snd ps = take (n + length ps) (map snd (L stream))"
    unfolding ps_def take_map [symmetric] drop_map [symmetric]
    by (metis length_map read_on take_map drop_map)
  have "stored C L (b\<lparr>bs_pending := pend, bs_cursors := dict_set (stream, grp) (n + length ps) (bs_cursors b),
      bs_decoded := d\<rparr>)"
    using st d by (simp add: stored_def)
  then show ?thesis
    using giv cur on fit by (auto simp: delivered_def run given_append given_map get_or_set n_def)
qed

lemma delivered_do:
  assumes "lossless C" and "delivered C L st"
  shows "\<exists>L'. delivered C L' (bus_do C x st) \<and> (\<forall>s. map snd (L' s) = map snd (L s) @ published s [x])"
proof -
  obtain b given where st: "st = (b, given)" by (cases st)
  show ?thesis
  proof (cases x)
    case (Publish stream m)
    define L' where "L' = L (stream := L stream @ [(bs_seq b + 1, m)])"
    have "stored C L' (snd (publish C stream m b))"
      unfolding L'_def using assms(2) by (intro stored_publish) (simp add: delivered_def st)
    moreover have "bs_cursors (snd (publish C stream m b)) = bs_cursors b" by (simp add: publish_def Let_def)
    moreover have "given_to s g given = take (get_or 0 (bs_cursors b) (s, g)) (map snd (L' s))
        \<and> get_or 0 (bs_cursors b) (s, g) \<le> length (L' s)" for s g
      using assms(2) by (auto simp: delivered_def st L'_def intro: le_SucI)
    ultimately have "delivered C L' (bus_do C x st)" by (simp add: delivered_def st Publish)
    then show ?thesis by (intro exI [of _ L']) (simp add: L'_def Publish)
  next
    case (Read stream grp cnt)
    have "delivered C L (bus_do C x st)"
      using read_delivers [OF assms(1)] assms(2) unfolding st Read by blast
    then show ?thesis by (intro exI [of _ L]) (simp add: Read)
  next
    case (Ack stream grp ids)
    then have "delivered C L (bus_do C x st)"
      using assms(2) by (simp add: st delivered_def stored_def bus_ack_def modif_def)
    then show ?thesis using Ack by auto
  qed
qed

lemma delivered_run:
  assumes "lossless C"
  shows "\<exists>L. delivered C L (bus_run C xs) \<and> (\<forall>s. map snd (L s) = published s xs)"
proof (induction xs rule: rev_induct)
  case Nil
  have "delivered C (\<lambda>_. []) (bus_run C [])"
    by (simp add: bus_run_def delivered_def stored_def logged_def cached_def empty_bus_def get_or_def given_to_def)
  then show ?case by (intro exI [of _ "\<lambda>_. []"]) simp
next
  case (snoc x xs)
  then obtain L where L: "delivered C L (bus_run C xs)" "\<And>s. map snd (L s) = published s xs" by blast
  from delivered_do [OF assms L(1), of x] obtain L'
    where "delivered C L' (bus_do C x (bus_run C xs))" "\<And>s. map snd (L' s) = map snd (L s) @ published s [x]"
    by blast
  then show ?case using L(2) by (intro exI [of _ L']) (simp add: bus_run_def published_append)
qed

text \<open>C13. For any codec that reads back what it writes and any history of publishing, reading and
  acknowledging: what a group was given from a stream is exactly the beginning of what was published on
  it, up to the cursor of the group. So messages arrive in order, each once, none altered, none skipped, and
  groups do not disturb each other.
\<close>

theorem each_group_in_order_once:
  assumes "\<And>m. cd_decode C (cd_encode C m) = Inr m"
  shows "given_to s g (snd (bus_run C xs))
    = take (get_or 0 (bs_cursors (fst (bus_run C xs))) (s, g)) (published s xs)"
proof -
  have "lossless C" using assms by (simp add: lossless_def)
  from delivered_run [OF this, of xs] show ?thesis by (cases "bus_run C xs") (auto simp: delivered_def)
qed

definition int_codec :: "(int, string) codec" where
  "int_codec = \<lparr>cd_encode = (\<lambda>m. (if m < 0 then CHR ''-'' else CHR ''+'') # nat_str (nat \<bar>m\<bar>)),
     cd_decode = (\<lambda>r. case r of [] \<Rightarrow> Inl (ValueErr ''empty'')
        | c # cs \<Rightarrow> Inr (if c = CHR ''-'' then - int (read_nat cs) else int (read_nat cs)))\<rparr>"

theorem each_group_in_order_once_witness:
  "given_to ''s'' ''g'' (snd (bus_run int_codec
      [Publish ''s'' 7, Publish ''t'' 1, Read ''s'' ''g'' 100, Read ''s'' ''h'' 1, Publish ''s'' (- 3), Read ''s'' ''g'' 5]))
    = take (get_or 0 (bs_cursors (fst (bus_run int_codec
      [Publish ''s'' 7, Publish ''t'' 1, Read ''s'' ''g'' 100, Read ''s'' ''h'' 1, Publish ''s'' (- 3), Read ''s'' ''g'' 5]))) (''s'', ''g''))
      [7, - 3]"
  using each_group_in_order_once [of int_codec "''s''" "''g''"
      "[Publish ''s'' 7, Publish ''t'' 1, Read ''s'' ''g'' 100, Read ''s'' ''h'' 1, Publish ''s'' (- 3), Read ''s'' ''g'' 5]"]
  by (simp add: int_codec_def read_nat_str)

section \<open>A pump that returns has settled\<close>

text \<open>A delivery that moved nothing found nothing to read and left everything as it was.\<close>

lemma fold_decode_length:
  "fold_each (decode_row C) rows out b = (Inr ms, b') \<Longrightarrow> length ms = length out + length rows"
proof (induction rows arbitrary: out b)
  case (Cons r rows)
  then obtain out' b1 where one: "decode_row C r out b = (Inr out', b1)"
      and rest: "fold_each (decode_row C) rows out' b1 = (Inr ms, b')"
    by (auto simp: bnd_def split: prod.splits sum.splits)
  have "length out' = Suc (length out)"
    using one by (auto simp: decode_row_def se_defs split: prod.splits option.splits sum.splits)
  with Cons.IH [OF rest] show ?case by simp
qed (simp add: ret_def)

definition drained :: "('m, 'r) bus \<Rightarrow> string \<Rightarrow> string \<Rightarrow> bool" where
  "drained b stream grp \<longleftrightarrow> length (get_or [] (bs_streams b) stream) \<le> get_or 0 (bs_cursors b) (stream, grp)"

lemma read_nothing:
  assumes "bus_read C stream grp (Suc k) b = (Inr [], b')"
  shows "drained b stream grp \<and> b' = b"
proof (cases "dict_get (bs_streams b) stream = None \<or> drained b stream grp")
  case True
  then have d: "drained b stream grp" by (auto simp: drained_def get_or_def)
  then have "bus_read C stream grp (Suc k) b = (Inr [], b)" by (simp add: read_empty drained_def)
  with assms d show ?thesis by simp
next
  case False
  then have "length (read_rows stream grp (Suc k) b) \<noteq> 0" by (auto simp: read_rows_def drained_def)
  moreover have "length ([] :: (string \<times> 'a) list) = length ([] :: (string \<times> 'a) list) + length (read_rows stream grp (Suc k) b)"
    using assms False unfolding bus_read_def drained_def by (intro fold_decode_length) (auto simp: Let_def)
  ultimately show ?thesis by simp
qed

lemma deliver_nothing:
  assumes "deliver C svc stream h (s, b) = (Inr 0, n')"
  shows "drained b stream (sv_name svc) \<and> n' = (s, b)"
proof -
  obtain r b1 where rd: "bus_read C stream (sv_name svc) 100 b = (r, b1)" by (cases "bus_read C stream (sv_name svc) 100 b")
  with assms obtain ms where ms: "r = Inr ms" by (cases r) (auto simp: deliver_def on_bus_def bnd_def)
  from assms have "ms = []"
    by (auto simp: deliver_def on_bus_def seq_def bnd_def rd ms ret_def split: prod.splits sum.splits)
  with rd ms assms show ?thesis
    using read_nothing [of C stream "sv_name svc" 99 b b1]
    by (simp add: deliver_def on_bus_def seq_def bnd_def ret_def)
qed

lemma round_nothing:
  assumes "fold_each (\<lambda>(svc, stream, h) moved. bnd (deliver C svc stream h) (\<lambda>n. ret (moved + n))) js k (s, b) = (Inr 0, n')"
  shows "n' = (s, b) \<and> k = 0 \<and> (\<forall>(svc, stream, h) \<in> set js. drained b stream (sv_name svc))"
  using assms
proof (induction js arbitrary: k s b)
  case Nil
  then show ?case by (simp add: ret_def)
next
  case (Cons j js)
  obtain svc stream h where j: "j = (svc, stream, h)" by (cases j)
  from Cons.prems obtain n s1 b1 where one: "deliver C svc stream h (s, b) = (Inr n, (s1, b1))"
      and rest: "fold_each (\<lambda>(svc, stream, h) moved. bnd (deliver C svc stream h) (\<lambda>n. ret (moved + n))) js (k + n) (s1, b1) = (Inr 0, n')"
    by (auto simp: j bnd_def ret_def split: prod.splits sum.splits)
  from Cons.IH [OF rest] have IH: "n' = (s1, b1)" "k + n = 0" "\<forall>(svc, stream, h) \<in> set js. drained b1 stream (sv_name svc)"
    by blast+
  with deliver_nothing [of C svc stream h s b] one show ?case by (auto simp: j)
qed

lemma pump_loop_settled:
  "pump_loop n C svcs tot st = (Inr moved, st') \<Longrightarrow>
    \<forall>(svc, stream, h) \<in> set (round_of svcs). drained (snd st') stream (sv_name svc)"
proof (induction n arbitrary: tot st)
  case 0
  then show ?case by (simp add: raise_def)
next
  case (Suc n)
  obtain r st1 where one: "pump_round C svcs st = (r, st1)" by (cases "pump_round C svcs st")
  with Suc.prems obtain k where r: "r = Inr k" by (cases r) (auto simp: bnd_def)
  show ?case
  proof (cases "k = 0")
    case True
    with Suc.prems have "st' = st1" by (simp add: bnd_run [of "pump_round C svcs", OF one [unfolded r]] ret_def)
    with round_nothing [of C "round_of svcs" 0 "fst st" "snd st" st1] one r True show ?thesis
      by (auto simp: pump_round_def)
  next
    case False
    with Suc.prems have "pump_loop n C svcs (tot + k) st1 = (Inr moved, st')"
      by (simp add: bnd_run [of "pump_round C svcs", OF one [unfolded r]])
    then show ?thesis by (rule Suc.IH)
  qed
qed

lemma round_of_member: "svc \<in> set svcs \<Longrightarrow> (stream, h) \<in> set (sv_handlers svc) \<Longrightarrow> (svc, stream, h) \<in> set (round_of svcs)"
  by (force simp: round_of_def)

text \<open>A variant: a round that moved something lowered it, so the rounds run out of things to move.\<close>

lemma round_variant:
  assumes step: "\<And>svc stream h st. (svc, stream, h) \<in> set (round_of svcs) \<Longrightarrow> ok st \<Longrightarrow>
      \<exists>n st'. deliver C svc stream h st = (Inr n, st') \<and> ok st' \<and> todo st' + n \<le> todo st"
    and "ok st" and "set js \<subseteq> set (round_of svcs)"
  shows "\<exists>n st'. fold_each (\<lambda>(svc, stream, h) moved. bnd (deliver C svc stream h) (\<lambda>n. ret (moved + n))) js k st
      = (Inr (k + n), st') \<and> ok st' \<and> todo st' + n \<le> todo st"
  using assms(2,3)
proof (induction js arbitrary: k st)
  case Nil
  then show ?case by (intro exI [of _ 0] exI [of _ st]) (simp add: ret_def)
next
  case (Cons j js)
  obtain svc stream h where j: "j = (svc, stream, h)" by (cases j)
  have "(svc, stream, h) \<in> set (round_of svcs)" and sub: "set js \<subseteq> set (round_of svcs)"
    using Cons.prems(2) by (simp_all add: j)
  from step [OF this(1) Cons.prems(1)] obtain n st1
    where one: "deliver C svc stream h st = (Inr n, st1)" "ok st1" "todo st1 + n \<le> todo st" by blast
  from Cons.IH [OF one(2) sub, of "k + n"] obtain n' st'
    where "fold_each (\<lambda>(svc, stream, h) moved. bnd (deliver C svc stream h) (\<lambda>n. ret (moved + n))) js (k + n) st1
        = (Inr (k + n + n'), st')" "ok st'" "todo st' + n' \<le> todo st1" by blast
  with one show ?case
    by (intro exI [of _ "n + n'"] exI [of _ st']) (simp add: j bnd_def ret_def ac_simps)
qed

lemma pump_loop_returns:
  assumes step: "\<And>svc stream h st. (svc, stream, h) \<in> set (round_of svcs) \<Longrightarrow> ok st \<Longrightarrow>
      \<exists>n st'. deliver C svc stream h st = (Inr n, st') \<and> ok st' \<and> todo st' + n \<le> todo st"
  shows "ok st \<Longrightarrow> todo st < n \<Longrightarrow> \<exists>moved st'. pump_loop n C svcs tot st = (Inr moved, st')"
proof (induction n arbitrary: tot st)
  case (Suc n)
  from round_variant [where svcs = svcs and ok = ok and todo = todo, OF step Suc.prems(1) subset_refl, where k = 0]
  obtain k st1 where one: "pump_round C svcs st = (Inr k, st1)" "ok st1" "todo st1 + k \<le> todo st"
    by (auto simp: pump_round_def)
  show ?case
  proof (cases "k = 0")
    case True
    then show ?thesis by (simp add: bnd_run [of "pump_round C svcs", OF one(1)] ret_def)
  next
    case False
    with one(3) Suc.prems(2) have "todo st1 < n" by simp
    with Suc.IH [OF one(2)] False show ?thesis by (simp add: bnd_run [of "pump_round C svcs", OF one(1)])
  qed
qed simp

text \<open>C31. The pump settles: if the handlers work towards an end (every delivery that hands over \<open>n\<close> messages
  lowers what is left to do by at least \<open>n\<close>, what it publishes included) and less than 10,000 is left to
  do, \<open>pump\<close> returns within its rounds, and then every handler of every service has been given
  everything published on its stream.
\<close>

theorem pump_settles:
  assumes "\<And>svc stream h st. (svc, stream, h) \<in> set (round_of svcs) \<Longrightarrow> ok st \<Longrightarrow>
      \<exists>n st'. deliver C svc stream h st = (Inr n, st') \<and> ok st' \<and> todo st' + n \<le> todo st"
    and "ok st" and "todo st < max_rounds"
  shows "\<exists>moved st'. pump C svcs st = (Inr moved, st')
    \<and> list_all (\<lambda>(svc, stream, h). length (get_or [] (bs_streams (snd st')) stream)
          \<le> get_or 0 (bs_cursors (snd st')) (stream, sv_name svc)) (round_of svcs)"
proof -
  from pump_loop_returns [where svcs = svcs and ok = ok and todo = todo, OF assms] obtain moved st'
    where run: "pump_loop max_rounds C svcs 0 st = (Inr moved, st')" by blast
  with pump_loop_settled [OF run] show ?thesis
    by (auto simp: pump_def drained_def list_all_iff)
qed

text \<open>Two services: one copies every number it gets to a second stream, halved; the other adds them up.\<close>

definition halve :: "int \<Rightarrow> ((int, int, string) net, unit) se" where
  "halve m = bnd (on_bus (publish int_codec ''out'' (m div 2))) (\<lambda>_. ret ())"

definition tally :: "int \<Rightarrow> ((int, int, string) net, unit) se" where
  "tally m = on_services (modif (\<lambda>s. s + m))"

definition relay :: "(int, int, string) subscriber list" where
  "relay = [\<lparr>sv_name = ''adder'', sv_handlers = [(''out'', tally)], sv_on_error = None\<rparr>,
            \<lparr>sv_name = ''halver'', sv_handlers = [(''in'', halve)], sv_on_error = None\<rparr>]"

definition relay_bus :: "nat \<Rightarrow> (int, string) bus" where
  "relay_bus n = fst (bus_run int_codec (take n [Publish ''in'' 14, Read ''in'' ''halver'' 100, Publish ''out'' 7,
     Ack ''in'' ''halver'' [message_id 1], Read ''out'' ''adder'' 100, Ack ''out'' ''adder'' [message_id 2]]))"

definition relay_start :: "(int, int, string) net" where "relay_start = (0, relay_bus 1)"
definition relay_mid :: "(int, int, string) net" where "relay_mid = (0, relay_bus 4)"
definition relay_end :: "(int, int, string) net" where "relay_end = (7, relay_bus 6)"

lemmas relay_defs = bus_run_def publish_def bus_read_def bus_ack_def read_rows_def empty_bus_def get_or_def
  decode_row_def int_codec_def se_defs on_bus_def on_services_def handle_message_def deliver_def relay_bus_def
  halve_def tally_def read_nat_str Let_def relay_start_def relay_mid_def relay_end_def

lemma relay_runs:
  shows "deliver int_codec (relay ! 0) ''out'' tally relay_start = (Inr 0, relay_start)"
    and "deliver int_codec (relay ! 1) ''in'' halve relay_start = (Inr 1, relay_mid)"
    and "deliver int_codec (relay ! 0) ''out'' tally relay_mid = (Inr 1, relay_end)"
    and "deliver int_codec (relay ! 1) ''in'' halve relay_mid = (Inr 0, relay_mid)"
    and "deliver int_codec (relay ! 0) ''out'' tally relay_end = (Inr 0, relay_end)"
    and "deliver int_codec (relay ! 1) ''in'' halve relay_end = (Inr 0, relay_end)"
    and "relay_start \<noteq> relay_mid" and "relay_start \<noteq> relay_end" and "relay_mid \<noteq> relay_end"
  by (simp_all add: relay_defs relay_def)

definition relay_ok :: "(int, int, string) net \<Rightarrow> bool" where
  "relay_ok st \<longleftrightarrow> st = relay_start \<or> st = relay_mid \<or> st = relay_end"

definition relay_todo :: "(int, int, string) net \<Rightarrow> nat" where
  "relay_todo st = (if st = relay_start then 2 else if st = relay_mid then 1 else 0)"

lemma relay_job:
  assumes "(svc, stream, h) \<in> set (round_of relay)" and "relay_ok st"
  shows "\<exists>n st'. deliver int_codec svc stream h st = (Inr n, st') \<and> relay_ok st' \<and> relay_todo st' + n \<le> relay_todo st"
proof -
  have "round_of relay = [(relay ! 0, ''out'', tally), (relay ! 1, ''in'', halve)]"
    by (simp add: round_of_def relay_def)
  with assms(1) consider "svc = relay ! 0" "stream = ''out''" "h = tally" | "svc = relay ! 1" "stream = ''in''" "h = halve"
    by auto
  then obtain n st' where "deliver int_codec svc stream h st = (Inr n, st')"
    and "relay_ok st'" and "relay_todo st' + n \<le> relay_todo st"
  proof cases
    case 1
    with assms(2) that relay_runs show ?thesis
      unfolding relay_ok_def relay_todo_def by (elim disjE) force+
  next
    case 2
    with assms(2) that relay_runs show ?thesis
      unfolding relay_ok_def relay_todo_def by (elim disjE) force+
  qed
  then show ?thesis by blast
qed

theorem pump_settles_witness:
  "\<exists>moved st'. pump int_codec relay relay_start = (Inr moved, st')
    \<and> list_all (\<lambda>(svc, stream, h). length (get_or [] (bs_streams (snd st')) stream)
          \<le> get_or 0 (bs_cursors (snd st')) (stream, sv_name svc)) (round_of relay)"
proof (rule pump_settles [of relay relay_ok int_codec relay_todo])
  show "relay_ok relay_start" by (simp add: relay_ok_def)
  show "relay_todo relay_start < max_rounds" by (simp add: relay_todo_def max_rounds_def)
qed (rule relay_job)

end
