(* ===== verification/Events.thy ===== *)
theory Events
  imports Core_Models Bus
begin

text \<open>
  The messages on the bus (\<open>core/events.py\<close>) and the names of its streams (\<open>core/bus.py\<close>). Every event
  carries its instant; a handler that gets a kind it does not expect ignores it. The free-form metadata of
  \<open>ModelVersionActivated\<close> is a dictionary of strings.
\<close>

section \<open>Parts of messages\<close>

record bar =
  br_symbol :: string
  br_timeframe :: timeframe
  br_open_time :: time
  br_close_time :: time
  br_bid_o :: flt
  br_bid_h :: flt
  br_bid_l :: flt
  br_bid_c :: flt
  br_ask_o :: flt
  br_ask_h :: flt
  br_ask_l :: flt
  br_ask_c :: flt
  br_volume :: flt

definition check_bar :: "bar \<Rightarrow> bool" where
  "check_bar b \<longleftrightarrow> br_open_time b < br_close_time b"

record exposure_row =
  xr_symbol :: string
  xr_side :: side
  xr_lots :: dec
  xr_entry :: dec
  xr_stop :: "dec option"
  xr_strategy_id :: "string option"
  xr_strategy_version :: "string option"
  xr_position_id :: "string option"
  xr_pending :: bool
  xr_external :: bool

record account_update =
  au_at :: time
  au_account_id :: string
  au_tenant_id :: string
  au_currency :: string
  au_balance :: dec
  au_equity :: dec
  au_free_margin :: dec
  au_exposures :: "exposure_row list"
  au_quotes :: "quote list"
  au_margin_per_lot :: "(string, dec) dict"

text \<open>What a strategy in a money stage may ask of execution (\<open>core/models.py\<close>).\<close>

datatype strategy_request =
    CancelRequest string string string string            \<comment> \<open>strategy, version, signal, reason\<close>
  | CloseRequest string string string string             \<comment> \<open>strategy, version, position, reason\<close>
  | ModifyStopRequest string string string flt string    \<comment> \<open>strategy, version, position, new stop, reason\<close>

section \<open>Messages\<close>

datatype message =
    BarClosed time string timeframe bar
  | QuoteUpdate time string flt flt
  | SignalEmitted time signal timeframe bool
  | OrderIntentCreated time intent timeframe
  | RiskDecided time signed_decision
  | OrderPlaced time order_view
  | OrderModified time order_view
  | OrderFilled time fill_record
  | OrderCancelled time string string
  | PositionClosed time trade_record
  | StageChanged stage_changed
  | HaltEntered time halt_state string
  | HaltCleared time halt_state string
  | ConfigChanged time string string string string
  | ModelVersionActivated time string string "(string, string) dict"
  | Heartbeat time string
  | AccountUpdated account_update
  | StageSnapshot time "(string \<times> string \<times> stage) list"
  | DemotionOrder time string string bool string
  | StrategyRequestEmitted time strategy_request
  | AlertRaised time alert
  | ResumeRequested time "(string, string) dict" string

abbreviation QUOTES :: string where "QUOTES \<equiv> ''quotes''"
abbreviation SIGNALS :: string where "SIGNALS \<equiv> ''signals''"
abbreviation INTENTS :: string where "INTENTS \<equiv> ''intents''"
abbreviation DECISIONS :: string where "DECISIONS \<equiv> ''decisions''"
abbreviation HALTS :: string where "HALTS \<equiv> ''halts''"
abbreviation ACCOUNT :: string where "ACCOUNT \<equiv> ''account''"
abbreviation TRADES :: string where "TRADES \<equiv> ''trades''"
abbreviation ORDERS :: string where "ORDERS \<equiv> ''orders''"
abbreviation STAGES :: string where "STAGES \<equiv> ''stages''"
abbreviation CONTROL :: string where "CONTROL \<equiv> ''control''"
abbreviation REQUESTS :: string where "REQUESTS \<equiv> ''strategy_requests''"
abbreviation HEARTBEATS :: string where "HEARTBEATS \<equiv> ''heartbeats''"

section \<open>Publishing from a service\<close>

definition send :: "('m, 'r) codec \<Rightarrow> string \<Rightarrow> 'm \<Rightarrow> (('s, 'm, 'r) net, unit) se" where
  "send C stream m = bnd (on_bus (publish C stream m)) (\<lambda>_. ret ())"

text \<open>A pure operation of a part of the service's state.\<close>

definition on_state :: "('s \<Rightarrow> 'a \<times> 's) \<Rightarrow> (('s, 'm, 'r) net, 'a) se" where
  "on_state f = (\<lambda>(s, b). case f s of (x, s') \<Rightarrow> (Inr x, (s', b)))"

definition service_state :: "(('s, 'm, 'r) net, 's) se" where
  "service_state = gets fst"

text \<open>The messages of a stream, as they were published.\<close>

definition sent_on :: "string \<Rightarrow> ('m, 'r) bus \<Rightarrow> 'r list" where
  "sent_on stream b = map snd (get_or [] (bs_streams b) stream)"

definition published_to :: "('m, 'r) codec \<Rightarrow> string \<Rightarrow> 'm \<Rightarrow> ('m, 'r) bus \<Rightarrow> ('m, 'r) bus" where
  "published_to C stream m b = snd (publish C stream m b)"

lemma send_run: "send C stream m (s, b) = (Inr (), (s, published_to C stream m b))"
  by (simp add: send_def on_bus_def bnd_def ret_def published_to_def publish_def Let_def)

lemma on_state_run: "f s = (x, s') \<Longrightarrow> on_state f (s, b) = (Inr x, (s', b))"
  by (simp add: on_state_def)

lemma bnd_service_state: "bnd service_state f (s, b) = f s (s, b)"
  by (simp add: service_state_def bnd_gets)

lemma sent_on_published [simp]:
  "sent_on stream' (published_to C stream m b)
    = (if stream' = stream then sent_on stream' b @ [cd_encode C m] else sent_on stream' b)"
  by (simp add: sent_on_def published_to_def publish_def Let_def get_or_def)

end
