(* ===== verification/Exec_Bus.thy ===== *)
theory Exec_Bus
  imports Events Watchdog Order_Jobs
begin

text \<open>
  Execution on the bus (\<open>execution/bus_service.py\<close>): signed decisions become orders; halts, demotions and
  requests of strategies become actions; orders, fills, trades and the account go out. The state is the
  order manager, the watchdog, the cache of intents and the outbox that the callbacks of the order manager
  fill. The derivation of an intent identifier from a signal (a UUID of version 5) is a parameter.
\<close>

section \<open>State\<close>

record 'w exec_bus =
  xb_om :: "'w om"
  xb_wd :: watchdog
  xb_intents :: "(string, intent \<times> timeframe) dict"
  xb_outbox :: "(string \<times> message) list"

definition exec_bus_init :: "'w om \<Rightarrow> watchdog \<Rightarrow> 'w exec_bus" where
  "exec_bus_init s wd = \<lparr>xb_om = s, xb_wd = wd, xb_intents = [], xb_outbox = []\<rparr>"

type_synonym ('w, 'a, 'r) exec_op = "(('w exec_bus, message, 'r) net, 'a) se"

definition intent_cache :: nat where
  "intent_cache = 10000"

text \<open>The callbacks \<open>on_trade\<close>, \<open>on_order\<close> and \<open>on_fill\<close>: what each event becomes on the bus.\<close>

fun outbound :: "om_event \<Rightarrow> string \<times> message" where
  "outbound (EvTrade t) = (TRADES, PositionClosed (tr_exit_time t) t)"
| "outbound (EvPlaced at' ord) = (ORDERS, OrderPlaced at' ord)"
| "outbound (EvModified at' ord) = (ORDERS, OrderModified at' ord)"
| "outbound (EvCancelled at' coid why) = (ORDERS, OrderCancelled at' coid why)"
| "outbound (EvFill f) = (ORDERS, OrderFilled (fr_filled_at f) f)"

text \<open>An operation of the order manager: its callbacks run as its events happen, also when it raises.\<close>

definition on_xom :: "('w om, 'a) se \<Rightarrow> ('w, 'a, 'r) exec_op" where
  "on_xom m = (\<lambda>(s, b). case m (xb_om s) of (r, o') \<Rightarrow>
     (r, (s\<lparr>xb_om := o', xb_outbox := xb_outbox s @ map outbound (drop (length (om_events (xb_om s))) (om_events o'))\<rparr>, b)))"

section \<open>Outbound\<close>

fun flush_from :: "(message, 'r) codec \<Rightarrow> (string \<times> message) list \<Rightarrow> ('w, unit, 'r) exec_op" where
  "flush_from C [] = ret ()"
| "flush_from C ((stream, msg) # rest) =
     seq (on_state (\<lambda>s. ((), s\<lparr>xb_outbox := rest\<rparr>))) (seq (send C stream msg) (flush_from C rest))"

definition flush :: "(message, 'r) codec \<Rightarrow> ('w, unit, 'r) exec_op" where
  "flush C = bnd service_state (\<lambda>s. flush_from C (xb_outbox s))"

definition then_flush :: "(message, 'r) codec \<Rightarrow> (message \<Rightarrow> ('w, unit, 'r) exec_op) \<Rightarrow> message \<Rightarrow> ('w, unit, 'r) exec_op" where
  "then_flush C h msg = seq (h msg) (flush C)"

definition exec_heartbeat :: "(message, 'r) codec \<Rightarrow> 'w om_env \<Rightarrow> ('w, unit, 'r) exec_op" where
  "exec_heartbeat C E = bnd service_state (\<lambda>s. send C HEARTBEATS (Heartbeat (om_now E (xb_om s)) ''execution''))"

definition on_quote :: "(message, 'r) codec \<Rightarrow> quote \<Rightarrow> ('w, unit, 'r) exec_op" where
  "on_quote C q =
     seq (on_xom (modif (\<lambda>s. s\<lparr>om_quotes := quote_update q (om_quotes s)\<rparr>)))
         (send C QUOTES (QuoteUpdate (qt_time q) (qt_symbol q) (qt_bid q) (qt_ask q)))"

definition tracked_by_comment :: "'w om \<Rightarrow> string \<Rightarrow> tracked_order option" where
  "tracked_by_comment s comment = (if is_system_comment comment then dict_get (om_orders s) comment else None)"

definition exposure_of_position :: "'w om \<Rightarrow> broker_position \<Rightarrow> exposure_row" where
  "exposure_of_position s p = (let t = tracked_by_comment s (bp_comment p) in
     \<lparr>xr_symbol = bp_symbol p, xr_side = bp_side p, xr_lots = bp_lots p, xr_entry = bp_price_open p,
      xr_stop = bp_sl p, xr_strategy_id = map_option tk_strategy_id t,
      xr_strategy_version = map_option tk_strategy_version t, xr_position_id = Some (bp_position_id p),
      xr_pending = False, xr_external = (\<not> is_system_comment (bp_comment p))\<rparr>)"

definition exposure_of_order :: "'w om \<Rightarrow> broker_order \<Rightarrow> exposure_row" where
  "exposure_of_order s ord = (let t = tracked_by_comment s (bo_comment ord) in
     \<lparr>xr_symbol = bo_symbol ord, xr_side = bo_side ord, xr_lots = bo_lots ord, xr_entry = bo_price ord,
      xr_stop = bo_sl ord, xr_strategy_id = map_option tk_strategy_id t,
      xr_strategy_version = map_option tk_strategy_version t, xr_position_id = None,
      xr_pending = True, xr_external = (\<not> is_system_comment (bo_comment ord))\<rparr>)"

definition known_quotes :: "'w om_env \<Rightarrow> 'w om \<Rightarrow> quote list" where
  "known_quotes E s = concat (map (\<lambda>(sym, _). case dict_get (om_quotes s) sym of None \<Rightarrow> [] | Some q \<Rightarrow> [q]) (oe_symbols E))"

definition margins :: "'w om_env \<Rightarrow> (string, dec) dict" where
  "margins E = concat (map (\<lambda>(sym, i). case si_margin_per_lot i of None \<Rightarrow> [] | Some m \<Rightarrow> [(sym, m)]) (oe_symbols E))"

definition account_view :: "'w om_env \<Rightarrow> ('w om, account_update) se" where
  "account_view E =
     bnd (call (ad_account (oe_adapter E))) (\<lambda>acct.
     bnd (call (ad_positions (oe_adapter E))) (\<lambda>positions.
     bnd (call (ad_orders (oe_adapter E))) (\<lambda>orders.
     gets (\<lambda>s.
       \<lparr>au_at = om_now E s, au_account_id = ai_account_id acct, au_tenant_id = ''default'',
        au_currency = ai_currency acct, au_balance = ai_balance acct, au_equity = ai_equity acct,
        au_free_margin = ai_free_margin acct,
        au_exposures = map (exposure_of_position s) positions @ map (exposure_of_order s) orders,
        au_quotes = known_quotes E s, au_margin_per_lot = margins E\<rparr>))))"

definition publish_account :: "(message, 'r) codec \<Rightarrow> 'w om_env \<Rightarrow> ('w, account_update, 'r) exec_op" where
  "publish_account C E = bnd (on_xom (account_view E)) (\<lambda>u. seq (send C ACCOUNT (AccountUpdated u)) (ret u))"

definition bus_cycle :: "(message, 'r) codec \<Rightarrow> 'w om_env \<Rightarrow> ('w, unit, 'r) exec_op" where
  "bus_cycle C E =
     bnd (on_xom (sync_deals E)) (\<lambda>_.
     bnd (on_xom (expire_pending E)) (\<lambda>_.
     seq (flush C)
     (bnd (publish_account C E) (\<lambda>_. ret ()))))"

section \<open>Inbound\<close>

definition xb_on_heartbeat :: "message \<Rightarrow> ('w, unit, 'r) exec_op" where
  "xb_on_heartbeat msg = (case msg of
     Heartbeat t service \<Rightarrow> on_state (\<lambda>s. ((), s\<lparr>xb_wd := beat service t (xb_wd s)\<rparr>))
   | _ \<Rightarrow> ret ())"

definition xb_on_halt :: "'w om_env \<Rightarrow> message \<Rightarrow> ('w, unit, 'r) exec_op" where
  "xb_on_halt E msg = (case msg of
     HaltEntered t st why \<Rightarrow> on_xom (apply_halt E (halt_command_for_state st why t))
   | _ \<Rightarrow> ret ())"

definition xb_on_control :: "'w om_env \<Rightarrow> message \<Rightarrow> ('w, unit, 'r) exec_op" where
  "xb_on_control E msg = (case msg of
     DemotionOrder t sid ver close_positions why \<Rightarrow>
       seq (on_xom (cancel_pending_of E sid ver why))
           (when_do close_positions (on_xom (close_positions_of E sid ver why)))
   | _ \<Rightarrow> ret ())"

text \<open>The cache drops its oldest entry beyond its size.\<close>

definition xb_on_intent :: "message \<Rightarrow> ('w, unit, 'r) exec_op" where
  "xb_on_intent msg = (case msg of
     OrderIntentCreated t i tf \<Rightarrow> on_state (\<lambda>s.
       let d = dict_set (oi_id i) (i, tf) (xb_intents s)
       in ((), s\<lparr>xb_intents := drop (length d - intent_cache) d\<rparr>))
   | _ \<Rightarrow> ret ())"

definition xb_on_decision :: "'w om_env \<Rightarrow> message \<Rightarrow> ('w, unit, 'r) exec_op" where
  "xb_on_decision E msg = (case msg of
     RiskDecided t d \<Rightarrow>
       if rd_verdict (sd_body d) = Reject then ret ()
       else bnd service_state (\<lambda>s. case dict_get (xb_intents s) (rd_intent_id (sd_body d)) of
         None \<Rightarrow> on_xom (send_alert E Warning ''decision_without_intent'' (''approved decision for an unknown intent'', []) [])
       | Some (i, tf) \<Rightarrow> bnd (on_xom (execute E i d tf)) (\<lambda>_. ret ()))
   | _ \<Rightarrow> ret ())"

text \<open>A cancel request applies to a pending order of the same strategy that has a broker order.\<close>

definition cancel_request :: "'w om_env \<Rightarrow> string \<Rightarrow> string \<Rightarrow> string \<Rightarrow> ('w om, unit) se" where
  "cancel_request E coid sid why =
     bnd (gets (\<lambda>s. dict_get (om_orders s) coid)) (\<lambda>r. case r of
       None \<Rightarrow> ret ()
     | Some t \<Rightarrow>
         when_do (tk_strategy_id t = sid \<and> tk_state t = Pending \<and> str_or_empty (tk_broker_order_id t) \<noteq> [])
           (bnd (call (ad_cancel (oe_adapter E) (str_or_empty (tk_broker_order_id t)))) (\<lambda>ack.
            when_do (ak_ok ack)
              (seq (upd_order coid (\<lambda>t. t\<lparr>tk_state := Cancelled, tk_note := ''strategy: '' @ why\<rparr>)) (save E)))))"

definition owned_position :: "string \<Rightarrow> string \<Rightarrow> string \<Rightarrow> 'w om \<Rightarrow> bool" where
  "owned_position sid ver pid s = (case by_position (om_st s) pid of
     None \<Rightarrow> False | Some (_, t) \<Rightarrow> tk_strategy_id t = sid \<and> tk_strategy_version t = ver)"

definition position_request ::
  "'w om_env \<Rightarrow> string \<Rightarrow> string \<Rightarrow> string \<Rightarrow> ('w om, bool) se \<Rightarrow> ('w om, unit) se" where
  "position_request E sid ver pid act =
     bnd (gets (owned_position sid ver pid)) (\<lambda>own.
       if own then bnd act (\<lambda>_. ret ())
       else send_alert E Warning ''foreign_request'' (''{} asked about a position it does not own'', [AStr sid]) [])"

definition xb_on_request :: "'w om_env \<Rightarrow> (string \<Rightarrow> string) \<Rightarrow> message \<Rightarrow> ('w, unit, 'r) exec_op" where
  "xb_on_request E intent_id_for msg = (case msg of
     StrategyRequestEmitted t req \<Rightarrow>
       (case req of
          CancelRequest sid ver signal why \<Rightarrow> on_xom (cancel_request E (client_order_id (intent_id_for signal)) sid why)
        | CloseRequest sid ver pid why \<Rightarrow>
            on_xom (position_request E sid ver pid (close_position E pid (''strategy: '' @ why)))
        | ModifyStopRequest sid ver pid new_stop why \<Rightarrow>
            on_xom (position_request E sid ver pid (tighten_stop E pid new_stop)))
   | _ \<Rightarrow> ret ())"

definition exec_handlers ::
  "(message, 'r) codec \<Rightarrow> 'w om_env \<Rightarrow> (string \<Rightarrow> string) \<Rightarrow> (string, message \<Rightarrow> ('w, unit, 'r) exec_op) dict" where
  "exec_handlers C E intent_id_for =
     map (\<lambda>(stream, h). (stream, then_flush C h))
       [(HEARTBEATS, xb_on_heartbeat), (HALTS, xb_on_halt E), (CONTROL, xb_on_control E), (INTENTS, xb_on_intent),
        (DECISIONS, xb_on_decision E), (REQUESTS, xb_on_request E intent_id_for)]"

definition exec_subscriber ::
  "(message, 'r) codec \<Rightarrow> 'w om_env \<Rightarrow> (string \<Rightarrow> string) \<Rightarrow> ('w exec_bus, message, 'r) subscriber" where
  "exec_subscriber C E intent_id_for =
     \<lparr>sv_name = ''execution'', sv_handlers = exec_handlers C E intent_id_for, sv_on_error = None\<rparr>"

section \<open>Runs\<close>

datatype exec_event = Message string message | Quoted quote | Cycle | Pulse

fun exec_event_do ::
  "(message, 'r) codec \<Rightarrow> 'w om_env \<Rightarrow> (string \<Rightarrow> string) \<Rightarrow> exec_event \<Rightarrow> ('w exec_bus, message, 'r) net
     \<Rightarrow> ('w exec_bus, message, 'r) net" where
  "exec_event_do C E f (Message stream m) n =
     (case dict_get (exec_handlers C E f) stream of None \<Rightarrow> n | Some h \<Rightarrow> snd (h m n))"
| "exec_event_do C E f (Quoted q) n = snd (on_quote C q n)"
| "exec_event_do C E f Cycle n = snd (bus_cycle C E n)"
| "exec_event_do C E f Pulse n = snd (exec_heartbeat C E n)"

definition exec_run ::
  "(message, 'r) codec \<Rightarrow> 'w om_env \<Rightarrow> (string \<Rightarrow> string) \<Rightarrow> exec_event list \<Rightarrow> ('w exec_bus, message, 'r) net
     \<Rightarrow> ('w exec_bus, message, 'r) net" where
  "exec_run C E f xs n = fold (exec_event_do C E f) xs n"

end
