(* ===== verification/Risk_Service.thy ===== *)
theory Risk_Service
  imports Events Risk_Control
begin

text \<open>
  The risk gate on the bus (\<open>risk/service.py\<close>): stages and account updates in, a signed decision for every
  intent out, halts announced. The state is the gate with the last account update and the stages; the
  reading of the clock during a handler is a field of the state. The economic calendar is a parameter:
  none configured, or a function that may have nothing.
\<close>

section \<open>State\<close>

record risk_service =
  rv_gate :: gate
  rv_account :: "account_update option"
  rv_stages :: "(string \<times> string, stage) dict"
  rv_now :: time

record risk_service_env =
  re_gate :: gate_env
  re_instruments :: "(string, instrument) dict"
  re_max_account_age :: span
  re_news :: "(time \<Rightarrow> event_index option) option"

definition risk_service_init :: "gate \<Rightarrow> time \<Rightarrow> risk_service" where
  "risk_service_init g now = \<lparr>rv_gate = g, rv_account = None, rv_stages = [], rv_now = now\<rparr>"

type_synonym ('a, 'r) risk_op = "((risk_service, message, 'r) net, 'a) se"

definition on_gate :: "(gate \<Rightarrow> 'a \<times> gate) \<Rightarrow> ('a, 'r) risk_op" where
  "on_gate f = on_state (\<lambda>v. case f (rv_gate v) of (x, g) \<Rightarrow> (x, v\<lparr>rv_gate := g\<rparr>))"

section \<open>Stages and halts\<close>

definition risk_on_stage :: "message \<Rightarrow> (unit, 'r) risk_op" where
  "risk_on_stage msg = (case msg of
     StageSnapshot t xs \<Rightarrow>
       on_state (\<lambda>v. ((), v\<lparr>rv_stages := fold (\<lambda>(sid, ver, st). dict_set (sid, ver) st) xs []\<rparr>))
   | StageChanged c \<Rightarrow>
       on_state (\<lambda>v. ((), v\<lparr>rv_stages := dict_set (sc_strategy_id c, sc_strategy_version c) (sc_to c) (rv_stages v)\<rparr>))
   | _ \<Rightarrow> ret ())"

definition publish_halt :: "(message, 'r) codec \<Rightarrow> halt_command \<Rightarrow> (unit, 'r) risk_op" where
  "publish_halt C cmd = send C HALTS (HaltEntered (hc_at cmd) (hc_state cmd) (hc_reason cmd))"

definition announce :: "(message, 'r) codec \<Rightarrow> halt_command option \<Rightarrow> (unit, 'r) risk_op" where
  "announce C cmd = (case cmd of None \<Rightarrow> ret () | Some c \<Rightarrow> publish_halt C c)"

definition risk_on_account :: "(message, 'r) codec \<Rightarrow> risk_service_env \<Rightarrow> message \<Rightarrow> (unit, 'r) risk_op" where
  "risk_on_account C E msg = (case msg of
     AccountUpdated u \<Rightarrow>
       seq (on_state (\<lambda>v. ((), v\<lparr>rv_account := Some u\<rparr>)))
       (bnd service_state (\<lambda>v.
        bnd (on_gate (on_account (re_gate E) (au_equity u) (rv_now v))) (announce C)))
   | _ \<Rightarrow> ret ())"

definition risk_start :: "(message, 'r) codec \<Rightarrow> (unit, 'r) risk_op" where
  "risk_start C = bnd service_state (\<lambda>v. let s = gt_state (rv_gate v) in
     when_do (rs_halt s \<noteq> Normal)
       (publish_halt C (halt_command_for_state (rs_halt s) (rs_halt_reason s) (rv_now v))))"

definition risk_heartbeat :: "(message, 'r) codec \<Rightarrow> (unit, 'r) risk_op" where
  "risk_heartbeat C = bnd service_state (\<lambda>v. send C HEARTBEATS (Heartbeat (rv_now v) ''risk-gate''))"

definition risk_roll_day :: "(message, 'r) codec \<Rightarrow> risk_service_env \<Rightarrow> bool \<Rightarrow> (unit, 'r) risk_op" where
  "risk_roll_day C E new_week = bnd service_state (\<lambda>v. case rv_account v of
     None \<Rightarrow> ret ()
   | Some acct \<Rightarrow>
       let before = rs_halt (gt_state (rv_gate v)) in
       seq (on_gate (\<lambda>g. ((), roll_day (re_gate E) (au_equity acct) new_week g)))
       (bnd service_state (\<lambda>v'.
          when_do (before \<noteq> Normal \<and> rs_halt (gt_state (rv_gate v')) = Normal)
            (send C HALTS (HaltCleared (rv_now v') before ''rollover'')))))"

definition risk_on_control :: "(message, 'r) codec \<Rightarrow> risk_service_env \<Rightarrow> message \<Rightarrow> (unit, 'r) risk_op" where
  "risk_on_control C E msg = (case msg of
     ResumeRequested t tok sig \<Rightarrow>
       bnd service_state (\<lambda>v.
       let before = rs_halt (gt_state (rv_gate v)) in
       bnd (on_gate (resume (re_gate E) tok sig (rv_now v))) (\<lambda>r. case r of
         Inl e \<Rightarrow> raise e
       | Inr ok \<Rightarrow> when_do ok (send C HALTS (HaltCleared (rv_now v) before ''owner''))))
   | _ \<Rightarrow> ret ())"

section \<open>Intents\<close>

definition exposure_of :: "exposure_row \<Rightarrow> exposure" where
  "exposure_of e = \<lparr>ex_symbol = xr_symbol e, ex_side = xr_side e, ex_lots = xr_lots e, ex_entry = xr_entry e,
     ex_stop = xr_stop e, ex_strategy_id = xr_strategy_id e, ex_pending = xr_pending e, ex_external = xr_external e\<rparr>"

definition snapshot_of ::
  "risk_service_env \<Rightarrow> risk_service \<Rightarrow> account_update \<Rightarrow> string \<Rightarrow> time \<Rightarrow> event_index option \<Rightarrow> exn + snapshot" where
  "snapshot_of E v acct symbol now events =
     (let quotes = dict_of qt_symbol (au_quotes acct) [] in
      case dict_get quotes symbol of
        None \<Rightarrow> Inl (KeyErr symbol)
      | Some q \<Rightarrow> Inr
          \<lparr>sn_now = now, sn_equity = au_equity acct, sn_free_margin = au_free_margin acct,
           sn_bid = qt_bid q, sn_ask = qt_ask q, sn_exposures = map exposure_of (au_exposures acct),
           sn_instruments = re_instruments E,
           sn_to_account = (\<lambda>ccy. rate_from_quotes quotes ccy (au_currency acct)),
           sn_margin_per_lot = au_margin_per_lot acct, sn_stages = rv_stages v, sn_events = events\<rparr>)"

definition rejected :: "risk_service_env \<Rightarrow> intent \<Rightarrow> fmt \<Rightarrow> time \<Rightarrow> (signed_decision, 'r) risk_op" where
  "rejected E i why now = on_gate (reject_intent (re_gate E) i why now)"

text \<open>\<open>decide\<close> on the snapshot; missing market data is a KeyError and answered with a reject.\<close>

definition decided ::
  "risk_service_env \<Rightarrow> intent \<Rightarrow> account_update \<Rightarrow> time \<Rightarrow> event_index option \<Rightarrow> (signed_decision, 'r) risk_op" where
  "decided E i acct now events = bnd service_state (\<lambda>v.
     bnd (on_gate (\<lambda>g. case snapshot_of E v acct (sg_symbol (oi_signal i)) now events of
            Inl e \<Rightarrow> (Inl e, g) | Inr sn \<Rightarrow> decide (re_gate E) i sn g))
       (\<lambda>r. case r of
          Inr d \<Rightarrow> ret d
        | Inl (KeyErr e) \<Rightarrow> rejected E i (''missing market data: {}'', [AStr e]) now
        | Inl e \<Rightarrow> raise e))"

definition answer :: "risk_service_env \<Rightarrow> intent \<Rightarrow> (signed_decision, 'r) risk_op" where
  "answer E i = bnd service_state (\<lambda>v.
     let now = rv_now v; events = (case re_news E of None \<Rightarrow> None | Some news \<Rightarrow> news now) in
     case rv_account v of
       None \<Rightarrow> rejected E i (''no fresh account data'', []) now
     | Some acct \<Rightarrow>
         if now - au_at acct > re_max_account_age E then rejected E i (''no fresh account data'', []) now
         else if re_news E \<noteq> None \<and> events = None
         then rejected E i (''economic calendar unavailable or stale'', []) now
         else decided E i acct now events)"

definition risk_on_intent :: "(message, 'r) codec \<Rightarrow> risk_service_env \<Rightarrow> message \<Rightarrow> (unit, 'r) risk_op" where
  "risk_on_intent C E msg = (case msg of
     OrderIntentCreated t i tf \<Rightarrow>
       bnd service_state (\<lambda>v. bnd (answer E i) (\<lambda>d. send C DECISIONS (RiskDecided (rv_now v) d)))
   | _ \<Rightarrow> ret ())"

definition risk_handlers ::
  "(message, 'r) codec \<Rightarrow> risk_service_env \<Rightarrow> (string, message \<Rightarrow> (unit, 'r) risk_op) dict" where
  "risk_handlers C E = [(STAGES, risk_on_stage), (ACCOUNT, risk_on_account C E), (INTENTS, risk_on_intent C E),
     (CONTROL, risk_on_control C E)]"

definition risk_subscriber :: "(message, 'r) codec \<Rightarrow> risk_service_env \<Rightarrow> (risk_service, message, 'r) subscriber" where
  "risk_subscriber C E = \<lparr>sv_name = ''risk-gate'', sv_handlers = risk_handlers C E, sv_on_error = None\<rparr>"

section \<open>Runs\<close>

text \<open>
  Anything the service does: a message on one of its streams (a handler that raises is logged), the
  rollover, a heartbeat, time passing, and what the other services publish on other streams.
\<close>

datatype risk_event = Receive string message | RollDay bool | Beat | Tick time | Others string message

definition ignoring :: "('a, 'r) risk_op \<Rightarrow> (risk_service, message, 'r) net \<Rightarrow> (risk_service, message, 'r) net" where
  "ignoring m n = snd (m n)"

fun risk_event_do ::
  "(message, 'r) codec \<Rightarrow> risk_service_env \<Rightarrow> risk_event \<Rightarrow> (risk_service, message, 'r) net \<Rightarrow> (risk_service, message, 'r) net" where
  "risk_event_do C E (Receive stream m) n =
     (case dict_get (risk_handlers C E) stream of None \<Rightarrow> n | Some h \<Rightarrow> ignoring (h m) n)"
| "risk_event_do C E (RollDay wk) n = ignoring (risk_roll_day C E wk) n"
| "risk_event_do C E Beat n = ignoring (risk_heartbeat C) n"
| "risk_event_do C E (Tick t) n = (case n of (v, b) \<Rightarrow> (v\<lparr>rv_now := t\<rparr>, b))"
| "risk_event_do C E (Others stream m) n = (case n of (v, b) \<Rightarrow> if stream = HALTS then n else (v, published_to C stream m b))"

definition risk_run ::
  "(message, 'r) codec \<Rightarrow> risk_service_env \<Rightarrow> gate \<Rightarrow> time \<Rightarrow> risk_event list \<Rightarrow> (risk_service, message, 'r) net" where
  "risk_run C E g now xs =
     fold (risk_event_do C E) xs (ignoring (risk_start C) (risk_service_init g now, empty_bus))"

text \<open>What a reader of the halts stream takes the halt state to be.\<close>

definition told :: "(message, 'r) codec \<Rightarrow> ('m, 'r) bus \<Rightarrow> halt_state" where
  "told C b = (case rev (sent_on HALTS b) of
     [] \<Rightarrow> Normal
   | r # _ \<Rightarrow> (case cd_decode C r of Inr (HaltEntered t st why) \<Rightarrow> st | _ \<Rightarrow> Normal))"

end
