(* ===== verification/Risk_Service_Properties.thy ===== *)
theory Risk_Service_Properties
  imports Risk_Service Bus_Properties Samples
begin

text \<open>
  What the other services may rely on: every intent is answered with exactly one signed decision, approved
  only on fresh data, and the halts stream always tells the halt state of the gate.
\<close>

section \<open>Running the handlers\<close>

lemma on_gate_run:
  "f (rv_gate v) = (x, g) \<Longrightarrow> on_gate f (v, b) = (Inr x, (v\<lparr>rv_gate := g\<rparr>, b))"
  by (simp add: on_gate_def on_state_def)

lemma bnd_on_gate: "f (rv_gate v) = (x, g) \<Longrightarrow> bnd (on_gate f) k (v, b) = k x (v\<lparr>rv_gate := g\<rparr>, b)"
  by (rule bnd_run) (rule on_gate_run)

lemma finish_fields:
  assumes "finish E i w now g = (d, g')"
  shows "rd_intent_id (sd_body d) = oi_id i \<and> sd_signature d = Some (ge_sign E (sd_body d))
    \<and> rs_halt (gt_state g') = rs_halt (gt_state g) \<and> gt_sent g' = gt_sent g @ [(d, i)]"
  using assms by (auto simp: finish_def Let_def store_def)

lemma reject_fields:
  assumes "reject_intent E i why now g = (d, g')"
  shows "rd_intent_id (sd_body d) = oi_id i \<and> sd_signature d = Some (ge_sign E (sd_body d))
    \<and> rs_halt (gt_state g') = rs_halt (gt_state g) \<and> gt_sent g' = gt_sent g @ [(d, i)]
    \<and> rd_verdict (sd_body d) = Reject"
proof -
  have "rd_verdict (sd_body d) = Reject"
    using assms by (auto simp: reject_intent_def finish_def w_reject_def w_init_def Let_def)
  with assms finish_fields [of E i "w_reject why (w_init 0)" now g d g'] show ?thesis
    by (simp add: reject_intent_def)
qed

lemma decide_fields:
  assumes "decide E i sn g = (r, g')"
  shows "rs_halt (gt_state g') = rs_halt (gt_state g)
    \<and> (\<forall>e. r = Inl e \<longrightarrow> g' = g)
    \<and> (\<forall>d. r = Inr d \<longrightarrow> rd_intent_id (sd_body d) = oi_id i \<and> sd_signature d = Some (ge_sign E (sd_body d))
          \<and> gt_sent g' = gt_sent g @ [(d, i)])"
proof (cases "run_checks (ge_limits E) (ge_civil E) (gt_state g) i sn")
  case (Inl e)
  with assms show ?thesis by (auto simp: decide_def)
next
  case (Inr w)
  obtain d1 g1 where fin: "finish E i w (sn_now sn) g = (d1, g1)" by (cases "finish E i w (sn_now sn) g")
  with Inr assms have "r = Inr d1" and "g' = g1" by (simp_all add: decide_def)
  with finish_fields [OF fin] show ?thesis by simp
qed

text \<open>An answer: a signed decision on the intent; when it is not a reject, the gate decided on fresh data.\<close>

definition fresh_view :: "risk_service_env \<Rightarrow> risk_service \<Rightarrow> intent \<Rightarrow> snapshot \<Rightarrow> bool" where
  "fresh_view E v i sn \<longleftrightarrow> (\<exists>acct. rv_account v = Some acct \<and> rv_now v - au_at acct \<le> re_max_account_age E
     \<and> (re_news E = None \<or> (\<exists>news ev. re_news E = Some news \<and> news (rv_now v) = Some ev \<and> sn_events sn = Some ev))
     \<and> snapshot_of E v acct (sg_symbol (oi_signal i)) (rv_now v) (sn_events sn) = Inr sn)"

definition proper_answer :: "risk_service_env \<Rightarrow> risk_service \<Rightarrow> intent \<Rightarrow> signed_decision \<Rightarrow> gate \<Rightarrow> bool" where
  "proper_answer E v i d g \<longleftrightarrow> rd_intent_id (sd_body d) = oi_id i
     \<and> sd_signature d = Some (ge_sign (re_gate E) (sd_body d)) \<and> gt_sent g = gt_sent (rv_gate v) @ [(d, i)]
     \<and> (rd_verdict (sd_body d) \<noteq> Reject \<longrightarrow>
          (\<exists>sn. fresh_view E v i sn \<and> decide (re_gate E) i sn (rv_gate v) = (Inr d, g)))"

lemma rejected_run:
  "\<exists>d g. rejected E i why now (v, b) = (Inr d, (v\<lparr>rv_gate := g\<rparr>, b)) \<and> proper_answer E v i d g
     \<and> rs_halt (gt_state g) = rs_halt (gt_state (rv_gate v))"
proof -
  obtain d g where r: "reject_intent (re_gate E) i why now (rv_gate v) = (d, g)"
    by (cases "reject_intent (re_gate E) i why now (rv_gate v)")
  from reject_fields [OF r] show ?thesis
    unfolding rejected_def on_gate_run [of "reject_intent (re_gate E) i why now", OF r]
    by (intro exI [of _ d] exI [of _ g]) (simp add: proper_answer_def)
qed

definition answered ::
  "risk_service_env \<Rightarrow> intent \<Rightarrow> risk_service \<Rightarrow> ('m, 'r) bus \<Rightarrow> (exn + signed_decision) \<times> (risk_service, 'm, 'r) net \<Rightarrow> bool" where
  "answered E i v b res \<longleftrightarrow>
     (\<exists>d g. res = (Inr d, (v\<lparr>rv_gate := g\<rparr>, b)) \<and> proper_answer E v i d g
        \<and> rs_halt (gt_state g) = rs_halt (gt_state (rv_gate v)))
   \<or> (\<exists>e. res = (Inl e, (v, b)) \<and> (\<forall>k. e \<noteq> KeyErr k))"

lemma rejected_answered: "answered E i v b (rejected E i why now (v, b))"
  using rejected_run [of E i why now v b] unfolding answered_def by blast

lemma decided_answered:
  assumes acct: "rv_account v = Some acct" and age: "rv_now v - au_at acct \<le> re_max_account_age E"
    and news: "re_news E = None \<and> events = None \<or> (\<exists>news ev. re_news E = Some news \<and> news (rv_now v) = Some ev \<and> events = Some ev)"
  shows "answered E i v b (decided E i acct (rv_now v) events (v, b))"
proof -
  let ?f = "\<lambda>g. case snapshot_of E v acct (sg_symbol (oi_signal i)) (rv_now v) events of
            Inl e \<Rightarrow> (Inl e, g) | Inr sn \<Rightarrow> decide (re_gate E) i sn g"
  obtain r g where f: "?f (rv_gate v) = (r, g)" by (cases "?f (rv_gate v)")
  have run: "decided E i acct (rv_now v) events (v, b) = (case r of
      Inr d \<Rightarrow> ret d
    | Inl (KeyErr e) \<Rightarrow> rejected E i (''missing market data: {}'', [AStr e]) (rv_now v)
    | Inl e \<Rightarrow> raise e) (v\<lparr>rv_gate := g\<rparr>, b)"
    unfolding decided_def bnd_service_state by (rule bnd_on_gate [of ?f, OF f])
  show ?thesis
  proof (cases r)
    case (Inl e)
    then have "g = rv_gate v" using f decide_fields by (auto split: sum.splits)
    then have v: "v\<lparr>rv_gate := g\<rparr> = v" by simp
    show ?thesis
      using rejected_answered [of E i v b] unfolding run v Inl
      by (cases e) (simp_all add: answered_def raise_def)
  next
    case (Inr d)
    then obtain sn where sn: "snapshot_of E v acct (sg_symbol (oi_signal i)) (rv_now v) events = Inr sn"
        and dec: "decide (re_gate E) i sn (rv_gate v) = (Inr d, g)"
      using f by (auto split: sum.splits)
    have "sn_events sn = events" using sn by (auto simp: snapshot_of_def Let_def split: option.splits)
    with sn acct age news have "fresh_view E v i sn" unfolding fresh_view_def by auto
    with dec decide_fields [OF dec] have "proper_answer E v i d g" unfolding proper_answer_def by blast
    with decide_fields [OF dec] show ?thesis unfolding run Inr answered_def
      by (intro disjI1 exI [of _ d] exI [of _ g]) (simp add: ret_def)
  qed
qed

lemma answer_answered: "answered E i v b (answer E i (v, b))"
proof (cases "rv_account v")
  case None
  then show ?thesis by (simp add: answer_def bnd_service_state rejected_answered)
next
  case (Some acct)
  show ?thesis
  proof (cases "rv_now v - au_at acct > re_max_account_age E")
    case True
    with Some show ?thesis by (simp add: answer_def bnd_service_state rejected_answered)
  next
    case False
    then have age: "rv_now v - au_at acct \<le> re_max_account_age E" by simp
    show ?thesis
    proof (cases "re_news E")
      case None
      with Some age decided_answered [OF Some age, of None i b] show ?thesis
        by (simp add: answer_def bnd_service_state)
    next
      case news: (Some news)
      with Some age decided_answered [OF Some age, of "news (rv_now v)" i b] show ?thesis
        by (cases "news (rv_now v)") (simp_all add: answer_def bnd_service_state rejected_answered)
    qed
  qed
qed


text \<open>Sample values: messages travel as they are; one account update with a EURUSD quote, no calendar.\<close>

definition plain_codec :: "(message, message) codec" where
  "plain_codec = \<lparr>cd_encode = (\<lambda>m. m), cd_decode = Inr\<rparr>"

definition sample_update :: account_update where
  "sample_update = \<lparr>au_at = 0, au_account_id = ''a1'', au_tenant_id = ''default'', au_currency = ''USD'',
     au_balance = 10000, au_equity = 10000, au_free_margin = 10000, au_exposures = [],
     au_quotes = [\<lparr>qt_symbol = ''EURUSD'', qt_bid = 10998/10000, qt_ask = 11/10, qt_time = 0\<rparr>],
     au_margin_per_lot = [(''EURUSD'', 1000)]\<rparr>"

definition sample_service_env :: risk_service_env where
  "sample_service_env = \<lparr>re_gate = sample_env, re_instruments = [(''EURUSD'', eurusd)],
     re_max_account_age = 10000000, re_news = None\<rparr>"

definition sample_service :: risk_service where
  "sample_service = \<lparr>rv_gate = sample_gate, rv_account = Some sample_update,
     rv_stages = [((''swing'', ''1''), Live)], rv_now = 5\<rparr>"

lemma sent_on_empty: "sent_on stream empty_bus = []"
  by (simp add: sent_on_def empty_bus_def get_or_def)

lemma sample_answer:
  "case risk_on_intent plain_codec sample_service_env (OrderIntentCreated 0 sample_intent H1) (sample_service, empty_bus) of
     (r, (v, b)) \<Rightarrow> \<exists>d. sent_on DECISIONS b = [RiskDecided 5 d] \<and> rd_verdict (sd_body d) = Resize"
  by (simp add: risk_on_intent_def service_state_def gets_def answer_def decided_def sample_service_def sample_service_env_def
      sample_update_def on_gate_def on_state_def bnd_def snapshot_of_def Let_def sample_defs rate_from_quotes_def
      decide_def check_defs finish_def ret_def send_run plain_codec_def sent_on_empty)


section \<open>The halts stream tells the truth\<close>

definition truthful :: "(message, 'r) codec \<Rightarrow> (risk_service, message, 'r) net \<Rightarrow> bool" where
  "truthful C n \<longleftrightarrow> told C (snd n) = rs_halt (gt_state (rv_gate (fst n)))"

lemma told_other [simp]: "stream \<noteq> HALTS \<Longrightarrow> told C (published_to C' stream m b) = told C b"
  by (simp add: told_def)

lemma told_entered: "cd_decode C (cd_encode C (HaltEntered t st why)) = Inr (HaltEntered t st why) \<Longrightarrow>
    told C (published_to C HALTS (HaltEntered t st why) b) = st"
  by (simp add: told_def)

lemma told_cleared: "cd_decode C (cd_encode C (HaltCleared t st why)) = Inr (HaltCleared t st why) \<Longrightarrow>
    told C (published_to C HALTS (HaltCleared t st why) b) = Normal"
  by (simp add: told_def)

lemma enter_command:
  assumes "enter E st reason now g = (cmd, g')"
  shows "case cmd of None \<Rightarrow> g' = g | Some c \<Rightarrow> hc_state c = rs_halt (gt_state g')"
  using assms by (auto simp: enter_def escalate_def store_def halt_command_for_state_def split: if_splits)

lemma on_account_command:
  assumes "on_account E equity now g = (cmd, g')"
  shows "case cmd of None \<Rightarrow> g' = g | Some c \<Rightarrow> hc_state c = rs_halt (gt_state g')"
  using assms by (auto simp: on_account_def Let_def dest: enter_command split: if_splits)

lemma on_account_truthful:
  assumes "lossless C" and "truthful C (v, b)"
  shows "truthful C (snd (risk_on_account C E m (v, b)))"
proof (cases m)
  case (AccountUpdated u)
  obtain cmd g where r: "on_account (re_gate E) (au_equity u) (rv_now v) (rv_gate v) = (cmd, g)"
    by (cases "on_account (re_gate E) (au_equity u) (rv_now v) (rv_gate v)")
  have run: "risk_on_account C E m (v, b) = announce C cmd (v\<lparr>rv_account := Some u, rv_gate := g\<rparr>, b)"
    by (simp add: AccountUpdated risk_on_account_def seq_def bnd_def on_state_def service_state_def gets_def on_gate_def r)
  from on_account_command [OF r] assms show ?thesis
    by (cases cmd) (simp_all add: run announce_def publish_halt_def send_run truthful_def ret_def told_entered losslessD)
qed (use assms in \<open>simp_all add: risk_on_account_def ret_def\<close>)

lemma resume_halt:
  assumes "resume E tok sig now g = (r, g')"
  shows "rs_halt (gt_state g') = (if r = Inr True then Normal else rs_halt (gt_state g))"
  using assms by (auto simp: resume_def Let_def store_def clear_halt_def split: if_splits option.splits)

lemma on_control_truthful:
  assumes "lossless C" and "truthful C (v, b)"
  shows "truthful C (snd (risk_on_control C E m (v, b)))"
proof (cases m)
  case (ResumeRequested t tok sig)
  obtain r g where r: "resume (re_gate E) tok sig (rv_now v) (rv_gate v) = (r, g)"
    by (cases "resume (re_gate E) tok sig (rv_now v) (rv_gate v)")
  have run: "risk_on_control C E m (v, b) = (case r of
         Inl e \<Rightarrow> raise e
       | Inr ok \<Rightarrow> when_do ok (send C HALTS (HaltCleared (rv_now v) (rs_halt (gt_state (rv_gate v))) ''owner'')))
      (v\<lparr>rv_gate := g\<rparr>, b)"
    by (simp add: ResumeRequested risk_on_control_def bnd_service_state Let_def
        bnd_on_gate [of "resume (re_gate E) tok sig (rv_now v)", OF r])
  from resume_halt [OF r] assms show ?thesis
    by (cases r) (auto simp: run raise_def when_do_def ret_def send_run truthful_def told_cleared losslessD)
qed (use assms in \<open>simp_all add: risk_on_control_def ret_def\<close>)

lemma on_intent_truthful:
  assumes "truthful C (v, b)"
  shows "truthful C (snd (risk_on_intent C E m (v, b)))"
proof (cases m)
  case (OrderIntentCreated t i tf)
  from answer_answered [of E i v b] consider
    (ok) d g where "answer E i (v, b) = (Inr d, (v\<lparr>rv_gate := g\<rparr>, b))" "rs_halt (gt_state g) = rs_halt (gt_state (rv_gate v))"
  | (err) e where "answer E i (v, b) = (Inl e, (v, b))"
    unfolding answered_def by blast
  then show ?thesis
  proof cases
    case ok
    with assms show ?thesis
      by (simp add: OrderIntentCreated risk_on_intent_def bnd_service_state bnd_run [of "answer E i", OF ok(1)]
          send_run truthful_def)
  next
    case err
    with assms show ?thesis
      by (simp add: OrderIntentCreated risk_on_intent_def bnd_service_state bnd_fail [of "answer E i", OF err(1)])
  qed
qed (use assms in \<open>simp_all add: risk_on_intent_def ret_def\<close>)

lemma roll_day_halt:
  "rs_halt (gt_state (roll_day E eq wk g)) = Normal \<or> rs_halt (gt_state (roll_day E eq wk g)) = rs_halt (gt_state g)"
  by (simp add: roll_day_def Let_def store_def clear_halt_def)

lemma roll_day_truthful:
  assumes "lossless C" and "truthful C (v, b)"
  shows "truthful C (snd (risk_roll_day C E wk (v, b)))"
proof (cases "rv_account v")
  case None
  with assms show ?thesis by (simp add: risk_roll_day_def bnd_service_state ret_def)
next
  case (Some acct)
  define g where "g = roll_day (re_gate E) (au_equity acct) wk (rv_gate v)"
  have "risk_roll_day C E wk (v, b)
      = when_do (rs_halt (gt_state (rv_gate v)) \<noteq> Normal \<and> rs_halt (gt_state g) = Normal)
          (send C HALTS (HaltCleared (rv_now v) (rs_halt (gt_state (rv_gate v))) ''rollover'')) (v\<lparr>rv_gate := g\<rparr>, b)"
    by (simp add: risk_roll_day_def bnd_service_state Some Let_def on_gate_def on_state_def seq_def bnd_def
        service_state_def gets_def g_def)
  moreover have "rs_halt (gt_state g) = Normal \<or> rs_halt (gt_state g) = rs_halt (gt_state (rv_gate v))"
    unfolding g_def by (rule roll_day_halt)
  ultimately show ?thesis
    using assms by (auto simp: when_do_def ret_def send_run truthful_def told_cleared losslessD)
qed

lemma handlers_truthful:
  assumes "lossless C" and "truthful C n"
  shows "truthful C (risk_event_do C E (Receive stream m) n)"
proof -
  obtain v b where n: "n = (v, b)" by (cases n)
  have "truthful C (snd (risk_on_stage m n))"
    using assms(2) by (cases m) (simp_all add: n risk_on_stage_def on_state_def ret_def truthful_def)
  with assms show ?thesis
    by (simp add: n risk_handlers_def ignoring_def on_account_truthful on_control_truthful on_intent_truthful)
qed

lemma event_truthful:
  assumes "lossless C" and "truthful C n"
  shows "truthful C (risk_event_do C E x n)"
proof -
  obtain v b where n: "n = (v, b)" by (cases n)
  show ?thesis
  proof (cases x)
    case (Receive stream m)
    with assms show ?thesis using handlers_truthful by blast
  next
    case (RollDay wk)
    with assms roll_day_truthful show ?thesis by (simp add: n ignoring_def)
  next
    case Beat
    with assms show ?thesis
      by (simp add: n ignoring_def risk_heartbeat_def bnd_service_state send_run truthful_def)
  qed (use assms in \<open>simp_all add: n truthful_def\<close>)
qed

lemma start_truthful:
  assumes "lossless C"
  shows "truthful C (ignoring (risk_start C) (risk_service_init g now, empty_bus))"
proof -
  have "told C empty_bus = Normal" by (simp add: told_def sent_on_empty)
  with assms show ?thesis
    by (auto simp: ignoring_def risk_start_def bnd_service_state Let_def when_do_def publish_halt_def send_run
        ret_def truthful_def risk_service_init_def told_entered losslessD halt_command_for_state_def)
qed

lemma run_truthful: "lossless C \<Longrightarrow> truthful C n \<Longrightarrow> truthful C (fold (risk_event_do C E) xs n)"
  by (induction xs arbitrary: n) (simp_all add: event_truthful)

text \<open>C7. Whatever happens to the risk service, from a start with any saved gate through messages, rollovers,
  owner resumes and failing handlers: the last message on the halts stream names the halt state the gate
  is in. A halt is announced at once, and no clearance is announced that did not happen.
\<close>

theorem halts_announced:
  assumes "\<And>m. cd_decode C (cd_encode C m) = Inr m"
  shows "told C (snd (risk_run C E g now xs)) = rs_halt (gt_state (rv_gate (fst (risk_run C E g now xs))))"
proof -
  have "lossless C" using assms by (simp add: lossless_def)
  then have "truthful C (risk_run C E g now xs)"
    unfolding risk_run_def by (intro run_truthful start_truthful)
  then show ?thesis by (simp add: truthful_def)
qed

text \<open>A loss of a sixth of the highest account value, an owner resume with a forged and with a real token.\<close>

definition sample_losses :: "risk_event list" where
  "sample_losses = [Receive ACCOUNT (AccountUpdated sample_update), RollDay True, Tick 7,
     Receive ACCOUNT (AccountUpdated (sample_update\<lparr>au_equity := 8000\<rparr>)),
     Receive CONTROL (ResumeRequested 8 sample_token ''forged''), Beat,
     Receive CONTROL (ResumeRequested 8 sample_token ''owner'')]"

lemma sample_losses_run:
  "rs_halt (gt_state (rv_gate (fst (risk_run plain_codec sample_service_env sample_gate 0 (take 6 sample_losses))))) = FullHalt"
  "rs_halt (gt_state (rv_gate (fst (risk_run plain_codec sample_service_env sample_gate 0 sample_losses)))) = Normal"
  by (simp_all add: risk_run_def ignoring_def risk_start_def service_state_def gets_def bnd_def Let_def when_do_def
      ret_def sample_losses_def risk_handlers_def risk_on_account_def seq_def on_state_def risk_service_init_def
      on_gate_def on_account_def roll_day_def sample_update_def sample_service_env_def sample_defs announce_def
      risk_roll_day_def risk_heartbeat_def send_run risk_on_control_def at_limit_def loss_frac_def enter_def
      escalate_def store_def publish_halt_def resume_def sample_token_def raise_def clear_halt_def dec_or_def)

theorem halts_announced_witness:
  "told plain_codec (snd (risk_run plain_codec sample_service_env sample_gate 0 (take 6 sample_losses))) = FullHalt
    \<and> told plain_codec (snd (risk_run plain_codec sample_service_env sample_gate 0 sample_losses)) = Normal"
proof
  have plain: "cd_decode plain_codec (cd_encode plain_codec m) = Inr m" for m by (simp add: plain_codec_def)
  show "told plain_codec (snd (risk_run plain_codec sample_service_env sample_gate 0 (take 6 sample_losses))) = FullHalt"
    by (subst halts_announced [OF plain]) (rule sample_losses_run)
  show "told plain_codec (snd (risk_run plain_codec sample_service_env sample_gate 0 sample_losses)) = Normal"
    by (subst halts_announced [OF plain]) (rule sample_losses_run)
qed

end
