(* ===== verification/Exec_Bus_Properties.thy ===== *)
theory Exec_Bus_Properties
  imports Exec_Bus Order_Properties Risk_Service_Properties
begin

text \<open>
  What the other services may rely on from execution: every order, fill and trade it records reaches the
  bus once and in order; a request of a strategy touches nothing it does not own; and a demotion whose
  cancellations fail is dropped before the positions are closed.
\<close>

section \<open>The events of the order manager only accumulate\<close>

definition logs :: "'w om \<Rightarrow> 'w om \<Rightarrow> bool" where
  "logs s t \<longleftrightarrow> (\<exists>xs. om_events t = om_events s @ xs)"

interpretation logs: step_rel logs
  by unfold_locales (auto simp: logs_def)

named_theorems logs_intros \<open>operations that keep the events logged so far\<close>

lemma logs_basic [logs_intros]:
  "keeps logs (call m)" "keeps logs (upd_order coid f)" "keeps logs (upd_st g)" "keeps logs (save E)"
  "keeps logs (send_alert E sev k msg d)" "keeps logs (emit es)"
  by (auto simp: keeps_def logs_def call_def upd_order_def upd_st_def modif_def save_def send_alert_def
      emit_def Let_def split: prod.split)

lemma logs_modif: "(\<And>s. om_events (f s) = om_events s) \<Longrightarrow> keeps logs (modif f)"
  by (simp add: keeps_def logs_def modif_def)

lemma logs_with_order [logs_intros]: "(\<And>t. keeps logs (f t)) \<Longrightarrow> keeps logs (with_order coid f)"
  unfolding with_order_def by (intro logs.keeps_rules)

lemma logs_fills [logs_intros]:
  "keeps logs (opened coid price lots)" "keeps logs (confirmed coid)" "keeps logs (closed_trade E coid t)"
  "keeps logs (record_fill E coid price lots latency commission)" "keeps logs (position_at_broker E pid)"
  unfolding opened_def confirmed_def closed_trade_def record_fill_def position_at_broker_def Let_def
  by (intro logs.keeps_rules logs_intros)+

lemma logs_check_case [logs_intros]:
  "keeps logs a \<Longrightarrow> (\<And>ack. keeps logs (b ack)) \<Longrightarrow> keeps logs c \<Longrightarrow>
    keeps logs (case r of Protected \<Rightarrow> a | Exposed ack \<Rightarrow> b ack | NotConfirmed \<Rightarrow> c)"
  by (cases r) auto

lemma logs_send_case [logs_intros]:
  "keeps logs a \<Longrightarrow> (\<And>ack. keeps logs (b ack)) \<Longrightarrow> keeps logs c \<Longrightarrow>
    keeps logs (case r of FoundAtBroker \<Rightarrow> a | Acked ack \<Rightarrow> b ack | NoAnswer \<Rightarrow> c)"
  by (cases r) auto

lemma logs_repair [logs_intros]: "keeps logs (repair_stop E n coid pid)"
  by (induction n) (auto intro!: logs.keeps_rules logs_intros split: option.split)

lemma logs_confirm [logs_intros]: "keeps logs (confirm_stop E coid)"
  unfolding confirm_stop_def check_stop_at_broker_def by (intro logs.keeps_rules logs_intros)

lemma logs_jobs [logs_intros]:
  "keeps logs (sync_deals E)" "keeps logs (expire_pending E)" "keeps logs (apply_halt E cmd)"
  "keeps logs (cancel_pending_of E sid ver why)" "keeps logs (close_position E pid why)"
  "keeps logs (close_positions_of E sid ver why)" "keeps logs (tighten_stop E pid x)"
proof -
  show cl: "keeps logs (close_position E pid why)" for pid why
    unfolding close_position_def by (intro logs.keeps_rules logs_intros)
  have "keeps logs (apply_deal E d acc)" for d acc
    unfolding apply_deal_def apply_trade_deal_def apply_in_def apply_out_def by (intro logs.keeps_rules logs_intros)
  then show "keeps logs (sync_deals E)"
    unfolding sync_deals_def by (intro logs.keeps_rules logs_intros)
  show "keeps logs (expire_pending E)" "keeps logs (apply_halt E cmd)" "keeps logs (cancel_pending_of E sid ver why)"
    unfolding expire_pending_def expire_one_def apply_halt_def close_on_halt_def cancel_pending_entries_def
      cancel_entry_def cancel_pending_of_def cancel_one_of_def
    by (intro logs.keeps_rules logs_intros)+
  show "keeps logs (close_positions_of E sid ver why)" "keeps logs (tighten_stop E pid x)"
    unfolding close_positions_of_def close_one_of_def tighten_stop_def Let_def
    by (intro logs.keeps_rules logs_intros cl)+
qed

lemma logs_entry [logs_intros]: "keeps logs (execute E i d tf)"
proof -
  have "keeps logs (adopt E coid pos oid)" for coid pos oid
    unfolding adopt_def by (intro logs.keeps_rules logs_intros)
  then have "keeps logs (send_attempts E n coid req)" for n coid req
    by (induction n) (auto simp: find_at_broker_def intro!: logs.keeps_rules logs_intros split: option.split)
  then have "keeps logs (write_ahead_and_send E i req p now)" for req p now
    unfolding write_ahead_and_send_def send_order_def Let_def by (intro logs.keeps_rules logs_intros)
  then have "keeps logs (enter_order E i lots tf now)" for lots now
    unfolding enter_order_def Let_def
    by (auto intro!: logs.keeps_rules logs_intros split: option.split sum.split bool.split)
  then show ?thesis
    unfolding execute_def Let_def by (intro logs.keeps_rules logs_intros logs_modif) simp_all
qed

lemma logs_requests [logs_intros]:
  "keeps logs (account_view E)" "keeps logs (cancel_request E coid sid why)"
  "keeps logs act \<Longrightarrow> keeps logs (position_request E sid ver pid act)"
  unfolding account_view_def cancel_request_def position_request_def
  by (intro logs.keeps_rules logs_intros; assumption?)+

section \<open>Everything reported leaves once, in order\<close>

definition on_stream :: "string \<Rightarrow> (string \<times> 'm) list \<Rightarrow> 'm list" where
  "on_stream stream ms = map snd (filter (\<lambda>p. fst p = stream) ms)"

lemma on_stream_simps [simp]:
  "on_stream st [] = []" "on_stream st (p # ms) = (if fst p = st then snd p # on_stream st ms else on_stream st ms)"
  "on_stream st (ms @ ns) = on_stream st ms @ on_stream st ns"
  by (simp_all add: on_stream_def)

definition waiting_after :: "(message, 'r) codec \<Rightarrow> string \<Rightarrow> ('w exec_bus, message, 'r) net \<Rightarrow> 'r list" where
  "waiting_after C st n = sent_on st (snd n) @ map (cd_encode C) (on_stream st (xb_outbox (fst n)))"

definition happened :: "(message, 'r) codec \<Rightarrow> string \<Rightarrow> ('w exec_bus, message, 'r) net \<Rightarrow> 'r list" where
  "happened C st n = map (cd_encode C) (on_stream st (map outbound (om_events (xb_om (fst n)))))"

definition in_order :: "(message, 'r) codec \<Rightarrow> ('w exec_bus, message, 'r) net \<Rightarrow> bool" where
  "in_order C n \<longleftrightarrow> (\<forall>st \<in> {ORDERS, TRADES}. waiting_after C st n = happened C st n)"

lemmas order_defs = in_order_def waiting_after_def happened_def

lemma order_xom:
  fixes m :: "('w om, 'a) se" and C :: "(message, 'r) codec"
  assumes "keeps logs m"
  shows "keeps (preserving (in_order C)) (on_xom m)"
  unfolding keeps_def preserving_def
proof (intro allI impI)
  fix n :: "('w exec_bus, message, 'r) net"
  assume inv: "in_order C n"
  obtain s b where n: "n = (s, b)" by (cases n)
  obtain r o' where m: "m (xb_om s) = (r, o')" by (cases "m (xb_om s)")
  then obtain xs where "om_events o' = om_events (xb_om s) @ xs"
    using keepsD [OF assms m] by (auto simp: logs_def)
  with inv show "in_order C (snd (on_xom m n))" by (simp add: order_defs n on_xom_def m)
qed

lemma order_state:
  "(\<And>s. xb_om (snd (f s)) = xb_om s \<and> xb_outbox (snd (f s)) = xb_outbox s) \<Longrightarrow>
    keeps (preserving (in_order C)) (on_state f)"
  by (auto simp: keeps_def preserving_def order_defs on_state_def split: prod.splits) (metis snd_conv)+

lemma order_send: "stream \<notin> {ORDERS, TRADES} \<Longrightarrow> keeps (preserving (in_order C)) (send C stream m)"
  by (auto simp: keeps_def preserving_def order_defs send_run)

lemma flush_run:
  assumes "xb_outbox s = ms"
  shows "\<exists>b'. flush_from C ms (s, b) = (Inr (), (s\<lparr>xb_outbox := []\<rparr>, b'))
    \<and> (\<forall>st. sent_on st b' = sent_on st b @ map (cd_encode C) (on_stream st ms))"
  using assms
proof (induction ms arbitrary: s b)
  case Nil
  then show ?case by (intro exI [of _ b]) (simp add: ret_def)
next
  case (Cons p ms)
  obtain stream m where p: "p = (stream, m)" by (cases p)
  let ?s = "s\<lparr>xb_outbox := ms\<rparr>"
  from Cons.IH [of ?s "published_to C stream m b"] obtain b' where
    "flush_from C ms (?s, published_to C stream m b) = (Inr (), (s\<lparr>xb_outbox := []\<rparr>, b'))"
    "\<And>st. sent_on st b' = sent_on st (published_to C stream m b) @ map (cd_encode C) (on_stream st ms)" by auto
  then show ?case
    by (intro exI [of _ b']) (simp add: p seq_def bnd_def on_state_def send_run)
qed

lemma flush_done: "\<exists>b'. flush C (s, b) = (Inr (), (s\<lparr>xb_outbox := []\<rparr>, b'))
    \<and> (\<forall>st. sent_on st b' = sent_on st b @ map (cd_encode C) (on_stream st (xb_outbox s)))"
  using flush_run [of s "xb_outbox s" C b] by (simp add: flush_def bnd_service_state)

lemma order_flush: "keeps (preserving (in_order C)) (flush C)"
  unfolding keeps_def preserving_def
proof (intro allI impI)
  fix n
  assume inv: "in_order C n"
  obtain s b where n: "n = (s, b)" by (cases n)
  from flush_done [of C s b] obtain b' where "flush C n = (Inr (), (s\<lparr>xb_outbox := []\<rparr>, b'))"
    "\<And>st. sent_on st b' = sent_on st b @ map (cd_encode C) (on_stream st (xb_outbox s))" unfolding n by blast
  with inv show "in_order C (snd (flush C n))" by (simp add: order_defs n)
qed

lemma order_service_state: "keeps (preserving (in_order C)) service_state"
  unfolding service_state_def by (rule preserve.keeps_gets)

lemmas order_intros = preserve.keeps_rules order_xom order_flush order_service_state logs_intros logs_modif

lemma order_handlers:
  assumes "dict_get (exec_handlers C E f) stream = Some h"
  shows "keeps (preserving (in_order C)) (h m)"
proof -
  have "keeps (preserving (in_order C)) (xb_on_heartbeat m)" "keeps (preserving (in_order C)) (xb_on_intent m)"
    unfolding xb_on_heartbeat_def xb_on_intent_def Let_def
    by (cases m; simp; intro order_intros order_state; simp)+
  moreover have "keeps (preserving (in_order C)) (xb_on_halt E m)" "keeps (preserving (in_order C)) (xb_on_control E m)"
    unfolding xb_on_halt_def xb_on_control_def by (cases m; simp; intro order_intros)+
  moreover have "keeps (preserving (in_order C)) (xb_on_decision E m)"
    unfolding xb_on_decision_def by (cases m; simp; intro order_intros conjI impI)
  moreover have "keeps (preserving (in_order C)) (xb_on_request E f m)"
  proof (cases m)
    case (StrategyRequestEmitted t req)
    then show ?thesis unfolding xb_on_request_def by (cases req) (simp_all add: order_xom logs_requests logs_jobs)
  qed (simp_all add: xb_on_request_def preserve.keeps_ret)
  ultimately show ?thesis
    using assms by (auto simp: exec_handlers_def then_flush_def intro!: preserve.keeps_seq order_flush split: if_splits)
qed

lemma in_orderD: "keeps (preserving (in_order C)) m \<Longrightarrow> in_order C n \<Longrightarrow> in_order C (snd (m n))"
  unfolding keeps_def preserving_def by blast

lemma event_in_order:
  assumes "in_order C n"
  shows "in_order C (exec_event_do C E f x n)"
proof -
  have "keeps (preserving (in_order C)) (on_quote C q)" for q
    unfolding on_quote_def by (intro order_intros order_send) simp_all
  moreover have "keeps (preserving (in_order C)) (exec_heartbeat C E)"
    unfolding exec_heartbeat_def by (intro order_intros order_send) simp
  moreover have "keeps (preserving (in_order C)) (bus_cycle C E)"
    unfolding bus_cycle_def publish_account_def by (intro order_intros order_send logs_requests) simp
  ultimately show ?thesis
    using assms by (cases x) (auto intro: in_orderD order_handlers split: option.split)
qed

lemma handled_flushed:
  assumes "dict_get (exec_handlers C E f) stream = Some h" and "h m n = (Inr (), n')"
  shows "xb_outbox (fst n') = []"
proof -
  obtain g where h: "h = then_flush C g"
    using assms(1) by (auto simp: exec_handlers_def split: if_splits)
  obtain r s1 b1 where g: "g m n = (r, (s1, b1))" by (cases "g m n") auto
  with assms(2) h have r: "r = Inr ()" by (cases r) (auto simp: then_flush_def seq_def bnd_def)
  from flush_done [of C s1 b1] obtain b' where "flush C (s1, b1) = (Inr (), (s1\<lparr>xb_outbox := []\<rparr>, b'))" by blast
  with assms(2) h g r show ?thesis by (auto simp: then_flush_def seq_def bnd_def)
qed

lemma in_order_run: "in_order C n \<Longrightarrow> in_order C (exec_run C E f xs n)"
  unfolding exec_run_def by (induction xs arbitrary: n) (simp_all add: event_in_order)

text \<open>C17. Every order placed, modified or cancelled, every fill and every closed trade that execution records
  leaves on the bus once and in the order it happened: at any time what was published on the two streams,
  followed by what waits in the outbox, is everything that happened, also when handlers raise half-way; and
  whenever a handler returns, nothing waits.
\<close>

theorem reports_leave_in_order:
  assumes "om_events s = []" and "sent_on ORDERS b = []" and "sent_on TRADES b = []"
    and "n = exec_run C E f xs (exec_bus_init s wd, b)"
  shows "list_all (\<lambda>stream. sent_on stream (snd n) @ map (cd_encode C) (on_stream stream (xb_outbox (fst n)))
        = map (cd_encode C) (on_stream stream (map outbound (om_events (xb_om (fst n)))))) [ORDERS, TRADES]
    \<and> (\<forall>stream h m n'. dict_get (exec_handlers C E f) stream = Some h \<longrightarrow> h m n = (Inr (), n') \<longrightarrow> xb_outbox (fst n') = [])"
proof
  have "in_order C (exec_bus_init s wd, b)" using assms(1-3) by (simp add: order_defs exec_bus_init_def)
  then have "in_order C n" unfolding assms(4) by (rule in_order_run)
  then show "list_all (\<lambda>stream. sent_on stream (snd n) @ map (cd_encode C) (on_stream stream (xb_outbox (fst n)))
        = map (cd_encode C) (on_stream stream (map outbound (om_events (xb_om (fst n)))))) [ORDERS, TRADES]"
    by (simp add: order_defs)
qed (blast intro: handled_flushed)

definition sample_exec_events :: "exec_event list" where
  "sample_exec_events = [Message INTENTS (OrderIntentCreated 0 sample_intent H1), Pulse,
     Message DECISIONS (RiskDecided 0 sample_decision), Cycle]"

theorem reports_leave_in_order_witness:
  "\<exists>n. n = exec_run plain_codec (sample_om_env (fake_adapter sample_fake)) (\<lambda>x. x) sample_exec_events
        (exec_bus_init (quoted_om quoted_fake) (watchdog_init 0), empty_bus)
    \<and> sent_on ORDERS (snd n) @ on_stream ORDERS (xb_outbox (fst n))
        = on_stream ORDERS (map outbound (om_events (xb_om (fst n))))"
proof -
  have "om_events (quoted_om quoted_fake) = []" by (simp add: quoted_om_def)
  from reports_leave_in_order [OF this sent_on_empty sent_on_empty refl, of plain_codec
      "sample_om_env (fake_adapter sample_fake)" "\<lambda>x. x" sample_exec_events "watchdog_init 0"]
  show ?thesis by (simp add: plain_codec_def)
qed

section \<open>Requests of strategies\<close>

fun requester :: "strategy_request \<Rightarrow> string" where
  "requester (CancelRequest sid ver signal why) = sid"
| "requester (CloseRequest sid ver pid why) = sid"
| "requester (ModifyStopRequest sid ver pid x why) = sid"

text \<open>What a request is about belongs to the strategy that asks.\<close>

fun owns :: "(string \<Rightarrow> string) \<Rightarrow> strategy_request \<Rightarrow> 'w om \<Rightarrow> bool" where
  "owns f (CancelRequest sid ver signal why) s =
     (case dict_get (om_orders s) (client_order_id (f signal)) of None \<Rightarrow> False | Some t \<Rightarrow> tk_strategy_id t = sid)"
| "owns f (CloseRequest sid ver pid why) s = owned_position sid ver pid s"
| "owns f (ModifyStopRequest sid ver pid x why) s = owned_position sid ver pid s"

text \<open>Changing the journal at most at one key.\<close>

definition only_at :: "string option \<Rightarrow> 'w om \<Rightarrow> 'w om \<Rightarrow> bool" where
  "only_at k s t \<longleftrightarrow> (\<forall>j. Some j \<noteq> k \<longrightarrow> dict_get (om_orders t) j = dict_get (om_orders s) j)"

interpretation only_at: step_rel "only_at k"
  by unfold_locales (auto simp: only_at_def)

lemma only_at_basic:
  "keeps (only_at k) (call m)" "keeps (only_at k) (save E)" "keeps (only_at k) (send_alert E sev kind msg d)"
  "keeps (only_at (Some coid)) (upd_order coid f)"
  by (auto simp: keeps_def only_at_def call_def send_alert_def modif_def upd_order_def upd_st_def split: prod.split)

lemmas only_at_intros = only_at.keeps_rules only_at_basic

lemma only_at_bnd_gets: "only_at k s (snd (f (g s) s)) \<Longrightarrow> only_at k s (snd (bnd (gets g) f s))"
  by (simp add: bnd_gets)

lemma only_at_bnd:
  assumes "only_at k s (snd (m s))" and "\<And>x t. m s = (Inr x, t) \<Longrightarrow> only_at k t (snd (f x t))"
  shows "only_at k s (snd (bnd m f s))"
  using assms by (cases "m s"; cases "fst (m s)") (auto simp: bnd_def intro: only_at.step_trans)

lemma only_atI: "keeps (only_at k) m \<Longrightarrow> only_at k s (snd (m s))"
  by (simp add: keeps_def)

lemma cancel_request_at: "only_at (Some coid) s (snd (cancel_request E coid sid why s))"
  unfolding cancel_request_def by (intro only_atI only_at_intros)

lemma call_st: "call m s = (r, t) \<Longrightarrow> om_st t = om_st s"
  by (auto simp: call_def split: prod.splits)

lemma close_at: "only_at (map_option fst (by_position (om_st s) pid)) s (snd (close_position E pid why s))"
  unfolding close_position_def
proof (rule only_at_bnd, rule only_atI, rule only_at_basic)
  fix ack t
  assume "call (ad_close (oe_adapter E) pid None) s = (Inr ack, t)"
  then have st: "om_st t = om_st s" by (rule call_st)
  show "only_at (map_option fst (by_position (om_st s) pid)) t
      (snd (bnd (gets (\<lambda>s. by_position (om_st s) pid)) (\<lambda>r. seq (case r of None \<Rightarrow> ret ()
          | Some (coid, t) \<Rightarrow> when_do (ak_ok ack) (seq (upd_order coid (\<lambda>t. t\<lparr>tk_note := why\<rparr>)) (save E)))
         (ret (ak_ok ack))) t))"
    by (rule only_at_bnd_gets, cases "by_position (om_st s) pid")
       (auto simp: st intro!: only_atI only_at_intros)
qed

lemma tighten_at: "only_at (map_option fst (by_position (om_st s) pid)) s (snd (tighten_stop E pid x s))"
  unfolding tighten_stop_def Let_def
  by (rule only_at_bnd_gets, cases "by_position (om_st s) pid")
     (auto intro!: only_atI only_at_intros split: option.split)

text \<open>The order a request may change.\<close>

fun target_of :: "(string \<Rightarrow> string) \<Rightarrow> strategy_request \<Rightarrow> 'w om \<Rightarrow> string option" where
  "target_of f (CancelRequest sid ver signal why) s = Some (client_order_id (f signal))"
| "target_of f (CloseRequest sid ver pid why) s = map_option fst (by_position (om_st s) pid)"
| "target_of f (ModifyStopRequest sid ver pid x why) s = map_option fst (by_position (om_st s) pid)"

lemma position_request_at:
  assumes "only_at k s (snd (act s))"
  shows "only_at k s (snd (position_request E sid ver pid act s))"
proof -
  have "only_at k s (snd (bnd act (\<lambda>_. ret ()) s))"
    by (rule only_at_bnd) (auto intro: assms only_atI only_at_intros)
  then show ?thesis
    unfolding position_request_def by (intro only_at_bnd_gets) (simp add: only_atI only_at_basic)
qed

lemma request_at: "only_at (target_of f req (xb_om s)) (xb_om s)
    (xb_om (fst (snd (xb_on_request E f (StrategyRequestEmitted t req) (s, b)))))"
proof (cases req)
  case (CancelRequest sid ver signal why)
  then show ?thesis
    using cancel_request_at [of "client_order_id (f signal)" "xb_om s" E sid why]
    by (simp add: xb_on_request_def on_xom_def split: prod.split) (metis snd_conv)
next
  case (CloseRequest sid ver pid why)
  then show ?thesis
    using position_request_at [of _ "xb_om s" "close_position E pid (''strategy: '' @ why)" E sid ver pid, OF close_at]
    by (simp add: xb_on_request_def on_xom_def split: prod.split) (metis snd_conv)
next
  case (ModifyStopRequest sid ver pid x why)
  then show ?thesis
    using position_request_at [of _ "xb_om s" "tighten_stop E pid x" E sid ver pid, OF tighten_at]
    by (simp add: xb_on_request_def on_xom_def split: prod.split) (metis snd_conv)
qed

lemma foreign_ignored:
  assumes "\<not> owns f req (xb_om s)"
  shows "\<exists>al. xb_on_request E f (StrategyRequestEmitted t req) (s, b)
    = (Inr (), (s\<lparr>xb_om := (xb_om s)\<lparr>om_alerts := al\<rparr>\<rparr>, b))"
  using assms
  by (cases req) (auto simp: xb_on_request_def on_xom_def cancel_request_def position_request_def bnd_gets
      send_alert_def modif_def ret_def when_do_def split: option.splits intro: exI [of _ "om_alerts (xb_om s)"])

text \<open>C32. A request of a strategy (cancel, close, move a stop) about something it does not own changes nothing
  but the alerts: no call reaches the broker, the journal is as before, nothing is published. And no request,
  about whatever, changes the journal entry of an order of another strategy.
\<close>

theorem requests_stay_home:
  assumes "xb_on_request E f (StrategyRequestEmitted t req) (s, b) = (r, (s', b'))"
    and "distinct (map fst (om_orders (xb_om s)))"
  shows "(owns f req (xb_om s) \<or> (r = Inr () \<and> om_world (xb_om s') = om_world (xb_om s)
        \<and> om_st (xb_om s') = om_st (xb_om s) \<and> b' = b))
    \<and> (\<forall>k u. dict_get (om_orders (xb_om s)) k = Some u \<longrightarrow> tk_strategy_id u \<noteq> requester req
        \<longrightarrow> dict_get (om_orders (xb_om s')) k = Some u)"
proof (cases "owns f req (xb_om s)")
  case False
  from foreign_ignored [OF this, of E t b] assms(1) show ?thesis by auto
next
  case True
  have "target_of f req (xb_om s) \<noteq> Some k"
    if u: "dict_get (om_orders (xb_om s)) k = Some u" "tk_strategy_id u \<noteq> requester req" for k u
  proof
    assume target: "target_of f req (xb_om s) = Some k"
    have "dict_get (om_orders (xb_om s)) j = Some v" if "by_position (om_st (xb_om s)) pid = Some (j, v)" for j v pid
      using by_position_Some [OF that] assms(2) by simp
    with True target u show False by (cases req) (auto simp: owned_position_def split: option.splits)
  qed
  moreover have "only_at (target_of f req (xb_om s)) (xb_om s) (xb_om s')"
    using request_at [of f req s E t b] by (simp add: assms(1))
  ultimately show ?thesis using True unfolding only_at_def by metis
qed

theorem requests_stay_home_witness:
  "\<exists>r s' b'. xb_on_request (sample_om_env (fake_adapter sample_fake)) (\<lambda>x. x)
        (StrategyRequestEmitted 0 (CloseRequest ''other'' ''1'' (nat_str 1001) ''bored''))
        (exec_bus_init filled_om (watchdog_init 0), empty_bus :: (message, message) bus) = (r, (s', b'))
    \<and> dict_get (om_orders (xb_om s')) (client_order_id (oi_id sample_intent)) = Some filled_order
    \<and> om_world (xb_om s') = om_world filled_om"
proof -
  let ?req = "CloseRequest ''other'' ''1'' (nat_str 1001) ''bored''"
  let ?n = "(exec_bus_init filled_om (watchdog_init 0), empty_bus :: (message, message) bus)"
  obtain r s' b' where run: "xb_on_request (sample_om_env (fake_adapter sample_fake)) (\<lambda>x. x)
      (StrategyRequestEmitted 0 ?req) ?n = (r, (s', b'))" by (metis prod.exhaust)
  have om: "xb_om (exec_bus_init filled_om (watchdog_init 0)) = filled_om" by (simp add: exec_bus_init_def)
  have sid: "tk_strategy_id filled_order = ''swing''" by (simp add: filled_order_def filled_defs)
  then have foreign: "\<not> owns (\<lambda>x. x) ?req filled_om"
    by (simp add: owned_position_def by_position_def filled_orders)
  from requests_stay_home [OF run] foreign sid
  have "dict_get (om_orders (xb_om s')) (client_order_id (oi_id sample_intent)) = Some filled_order
      \<and> om_world (xb_om s') = om_world filled_om" by (simp add: om filled_orders)
  with run show ?thesis by blast
qed

section \<open>A demotion whose cancellations fail\<close>

lemma handler_failed:
  assumes "h m (s, b) = (Inl e, (s', b'))"
  shows "handle_message (exec_subscriber C E f) stream h (mid, m) (s, b)
    = on_bus (bus_ack stream ''execution'' [mid]) (s', b')"
  using assms by (simp add: handle_message_def seq_def bnd_def exec_subscriber_def)

text \<open>When the broker cannot cancel a resting order of a demoted version, the handler stops there: the order
  to close its positions is never carried out, yet the message is acknowledged and so never delivered again.
  The order manager is left as the failed cancellation left it, with no close sent, and no service is told.
\<close>

theorem failed_cancel_drops_close:
  assumes "cancel_pending_of E sid ver why (xb_om s) = (Inl e, o')"
  shows "\<exists>s' b'. handle_message (exec_subscriber C E f) CONTROL (then_flush C (xb_on_control E))
        (mid, DemotionOrder t sid ver True why) (s, b) = (Inr (), (s', b'))
      \<and> xb_om s' = o' \<and> bs_streams b' = bs_streams b
      \<and> get_or [] (bs_pending b') (CONTROL, ''execution'') = dict_del mid (get_or [] (bs_pending b) (CONTROL, ''execution''))"
proof -
  obtain s' where run: "then_flush C (xb_on_control E) (DemotionOrder t sid ver True why) (s, b) = (Inl e, (s', b))"
    and om: "xb_om s' = o'"
    by (simp add: then_flush_def xb_on_control_def seq_def bnd_def on_xom_def assms)
  from handler_failed [of "then_flush C (xb_on_control E)", OF run] om show ?thesis
    by (simp add: on_bus_def bus_ack_def modif_def get_or_set)
qed

definition stuck_env :: "fake om_env" where
  "stuck_env = sample_om_env ((fake_adapter sample_fake)\<lparr>ad_cancel := (\<lambda>_. ret (ack_error ''market closed''))\<rparr>)"

definition stuck_om :: "fake om" where
  "stuck_om = filled_om\<lparr>om_st := (om_st filled_om)\<lparr>xs_orders :=
     [(''p1'', filled_order\<lparr>tk_state := Pending, tk_broker_order_id := Some ''77''\<rparr>), (''p2'', filled_order)]\<rparr>\<rparr>"

lemma stuck_run:
  "\<exists>o'. cancel_pending_of stuck_env ''swing'' ''1'' ''drawdown'' stuck_om = (Inl (RuntimeErr [''cancel failed for'', tk_client_order_id filled_order]), o')
     \<and> dict_get (om_orders o') ''p2'' = Some filled_order"
proof -
  have "tk_strategy_id filled_order = ''swing''" "tk_strategy_version filled_order = ''1''"
    by (simp_all add: filled_order_def filled_defs)
  then show ?thesis
    by (auto simp: cancel_pending_of_def bnd_gets orders_of_def stuck_om_def filled_orders cancel_one_of_def
        with_order_def bnd_def gets_def call_def stuck_env_def sample_om_env_def ret_def seq_def raise_def
        save_def modif_def Let_def journal_save_def split: prod.split)
qed

theorem failed_cancel_drops_close_witness:
  "\<exists>s' b'. handle_message (exec_subscriber plain_codec stuck_env (\<lambda>x. x)) CONTROL
        (then_flush plain_codec (xb_on_control stuck_env)) (''1-0'', DemotionOrder 0 ''swing'' ''1'' True ''drawdown'')
        (exec_bus_init stuck_om (watchdog_init 0), empty_bus) = (Inr (), (s', b'))
      \<and> dict_get (om_orders (xb_om s')) ''p2'' = Some filled_order \<and> tk_state filled_order = Open"
proof -
  have om: "xb_om (exec_bus_init stuck_om (watchdog_init 0)) = stuck_om" by (simp add: exec_bus_init_def)
  obtain e o' where "cancel_pending_of stuck_env ''swing'' ''1'' ''drawdown'' stuck_om = (Inl e, o')"
    and kept: "dict_get (om_orders o') ''p2'' = Some filled_order" using stuck_run by blast
  from failed_cancel_drops_close [where s = "exec_bus_init stuck_om (watchdog_init 0)", unfolded om, OF this(1),
      of plain_codec "\<lambda>x. x" "''1-0''" 0 empty_bus] kept filled_orders(4)
  show ?thesis by (elim exE conjE) (rule exI, rule exI, intro conjI, assumption, simp_all)
qed

end
