(* ===== verification/Lifecycle_Service.thy ===== *)
theory Lifecycle_Service
  imports Events Evaluator
begin

text \<open>
  The lifecycle on the bus (\<open>lifecycle/service.py\<close>): shadow signals and closed trades in, stage changes and
  demotion orders out. The evaluator acts on a queue of demotion orders (\<open>BusDemotionActions\<close>); the registry
  reports every stage change to a list. Both are published by \<open>flush\<close>, stage changes first.
\<close>

section \<open>The queue of demotion orders\<close>

record demotion_queue =
  dq_now :: time
  dq_queue :: "message list"

definition queue_order :: "bool \<Rightarrow> string \<Rightarrow> string \<Rightarrow> string \<Rightarrow> (demotion_queue, unit) se" where
  "queue_order close_positions sid ver why =
     modif (\<lambda>q. q\<lparr>dq_queue := dq_queue q @ [DemotionOrder (dq_now q) sid ver close_positions why]\<rparr>)"

definition bus_actions :: "demotion_queue demotion_actions" where
  "bus_actions = \<lparr>da_cancel_pending = queue_order False, da_close_positions = queue_order True\<rparr>"

section \<open>The service\<close>

record lifecycle_service =
  lf_ev :: "demotion_queue evaluator"
  lf_changes :: "stage_changed list"

type_synonym ('a, 'r) lifecycle_op = "((lifecycle_service, message, 'r) net, 'a) se"

definition lifecycle_init :: "demotion_queue evaluator \<Rightarrow> lifecycle_service" where
  "lifecycle_init ev = \<lparr>lf_ev = ev, lf_changes = []\<rparr>"

text \<open>The environment of the evaluator with \<open>evaluator.actions = self.actions\<close>.\<close>

definition with_bus_actions :: "demotion_queue eval_env \<Rightarrow> demotion_queue eval_env" where
  "with_bus_actions E = E\<lparr>ee_actions := Some bus_actions\<rparr>"

text \<open>
  An operation of the evaluator: the queue reads the same clock, and \<open>registry.on_stage_change\<close> appends every
  stage change to the list as it happens, also when the operation raises later.
\<close>

definition set_clock :: "demotion_queue evaluator \<Rightarrow> demotion_queue evaluator" where
  "set_clock ev = ev\<lparr>el_world := (el_world ev)\<lparr>dq_now := el_now ev\<rparr>\<rparr>"

definition on_evaluator :: "(demotion_queue evaluator, 'a) se \<Rightarrow> ('a, 'r) lifecycle_op" where
  "on_evaluator m = (\<lambda>(s, b). case m (set_clock (lf_ev s)) of (r, ev) \<Rightarrow>
     (r, (s\<lparr>lf_ev := ev,
            lf_changes := lf_changes s @ drop (length (rg_changes (el_reg (lf_ev s)))) (rg_changes (el_reg ev))\<rparr>, b)))"

fun publish_changes :: "(message, 'r) codec \<Rightarrow> stage_changed list \<Rightarrow> (unit, 'r) lifecycle_op" where
  "publish_changes C [] = ret ()"
| "publish_changes C (c # rest) =
     seq (on_state (\<lambda>s. ((), s\<lparr>lf_changes := rest\<rparr>))) (seq (send C STAGES (StageChanged c)) (publish_changes C rest))"

definition set_queue :: "message list \<Rightarrow> lifecycle_service \<Rightarrow> lifecycle_service" where
  "set_queue q s = s\<lparr>lf_ev := (lf_ev s)\<lparr>el_world := (el_world (lf_ev s))\<lparr>dq_queue := q\<rparr>\<rparr>\<rparr>"

fun publish_orders :: "(message, 'r) codec \<Rightarrow> message list \<Rightarrow> (unit, 'r) lifecycle_op" where
  "publish_orders C [] = ret ()"
| "publish_orders C (m # rest) =
     seq (on_state (\<lambda>s. ((), set_queue rest s))) (seq (send C CONTROL m) (publish_orders C rest))"

definition lf_flush :: "(message, 'r) codec \<Rightarrow> (unit, 'r) lifecycle_op" where
  "lf_flush C =
     bnd service_state (\<lambda>s.
     seq (publish_changes C (lf_changes s))
     (bnd service_state (\<lambda>s. publish_orders C (dq_queue (el_world (lf_ev s))))))"

definition publish_snapshot :: "(message, 'r) codec \<Rightarrow> (unit, 'r) lifecycle_op" where
  "publish_snapshot C = bnd service_state (\<lambda>s.
     send C STAGES (StageSnapshot (el_now (lf_ev s))
       (map (\<lambda>((sid, ver), st). (sid, ver, st)) (sort_key fst (stages (el_reg (lf_ev s)))))))"

definition hourly :: "(message, 'r) codec \<Rightarrow> demotion_queue eval_env \<Rightarrow> (unit, 'r) lifecycle_op" where
  "hourly C E =
     bnd (on_evaluator (evaluate_all (with_bus_actions E))) (\<lambda>_.
     seq (lf_flush C) (publish_snapshot C))"

definition lf_on_signal :: "message \<Rightarrow> (unit, 'r) lifecycle_op" where
  "lf_on_signal msg = (case msg of
     SignalEmitted t sg tf shadow \<Rightarrow>
       if shadow
       then on_state (\<lambda>s. ((), s\<lparr>lf_ev := (lf_ev s)\<lparr>el_data :=
              add_signal (sg_strategy_id sg, sg_strategy_version sg) (sg_created_at sg) (el_data (lf_ev s))\<rparr>\<rparr>))
       else ret ()
   | _ \<Rightarrow> ret ())"

definition lf_on_trade :: "(message, 'r) codec \<Rightarrow> demotion_queue eval_env \<Rightarrow> message \<Rightarrow> (unit, 'r) lifecycle_op" where
  "lf_on_trade C E msg = (case msg of
     PositionClosed t tr \<Rightarrow>
       seq (on_state (\<lambda>s. ((), s\<lparr>lf_ev := (lf_ev s)\<lparr>el_data := add_trade tr (el_data (lf_ev s))\<rparr>\<rparr>)))
       (bnd (on_evaluator (on_trade_closed (with_bus_actions E) tr)) (\<lambda>_. lf_flush C))
   | _ \<Rightarrow> ret ())"

definition lifecycle_handlers ::
  "(message, 'r) codec \<Rightarrow> demotion_queue eval_env \<Rightarrow> (string, message \<Rightarrow> (unit, 'r) lifecycle_op) dict" where
  "lifecycle_handlers C E = [(SIGNALS, lf_on_signal), (TRADES, lf_on_trade C E)]"

definition lifecycle_subscriber ::
  "(message, 'r) codec \<Rightarrow> demotion_queue eval_env \<Rightarrow> (lifecycle_service, message, 'r) subscriber" where
  "lifecycle_subscriber C E = \<lparr>sv_name = ''lifecycle'', sv_handlers = lifecycle_handlers C E, sv_on_error = None\<rparr>"

end
