(* ===== verification/Lifecycle_Service_Properties.thy ===== *)
theory Lifecycle_Service_Properties
  imports Lifecycle_Service Evaluator_Properties Risk_Service_Properties
begin

text \<open>
  A demotion on the bus: what the evaluator decides reaches the other services in an order they can rely on.
\<close>

section \<open>The registry lists every stage change\<close>

definition listed :: "stage_changed option \<Rightarrow> registry \<Rightarrow> registry \<Rightarrow> bool" where
  "listed x g g' \<longleftrightarrow> (\<exists>xs. rg_changes g' = rg_changes g @ xs \<and> (case x of None \<Rightarrow> True | Some ev \<Rightarrow> ev \<in> set xs))"

interpretation listed: step_rel "listed None"
  by unfold_locales (auto simp: listed_def)

lemma listed_trans: "listed x g g' \<Longrightarrow> listed None g' g'' \<Longrightarrow> listed x g g''"
  by (cases x) (auto simp: listed_def)

lemma listed_append: "keeps (listed None) (append_apply E kind p)"
  by (auto simp: keeps_def listed_def append_apply_def Let_def split: sum.splits)

lemma listed_alert: "keeps (listed None) (registry_alert sev kind msg d)"
  by (auto simp: registry_alert_def listed_def intro!: listed.keeps_modif)

lemma listed_change: "keeps (listed None) (record_change E v to reason a m)"
  unfolding record_change_def Let_def
  by (intro listed.keeps_rules listed_append listed_alert listed.keeps_modif) (simp add: listed_def)

lemma change_listed:
  assumes "record_change E v to reason a m g = (Inr ev, g')"
  shows "listed (Some ev) g g'"
proof -
  obtain g1 g2 p al where 1: "append_apply E ''stage_change'' p g = (Inr (), g1)" and 2: "al g1 = (Inr (), g2)"
      and al: "keeps (listed None) al" and g': "g' = g2\<lparr>rg_changes := rg_changes g2 @ [ev]\<rparr>"
    using assms listed_alert
    by (auto simp: record_change_def Let_def inr_simps modif_def split: if_splits)
  from keepsD [OF listed_append 1] keepsD [OF al 2] have "listed None g g2" by (rule listed.step_trans)
  then show ?thesis by (auto simp: listed_def g')
qed

lemma transition_listed:
  assumes "transition E k to reason a m g = (Inr ev, g')"
  shows "listed (Some ev) g g'"
proof -
  obtain v where "record_change E v to reason a m g = (Inr ev, g')"
    using assms by (auto simp: transition_def get_version_def illegal_def inr_simps raise_def split: if_splits option.splits)
  then show ?thesis by (rule change_listed)
qed

lemma listed_rollback: "keeps (listed None) (rollback E sid reason)"
proof -
  have "keeps (listed None) (illegal msg)" for msg :: fmt
    unfolding illegal_def by (intro listed.keeps_rules listed_alert)
  moreover have "keeps (listed None) (get_version k)" for k
    unfolding get_version_def by (intro listed.keeps_rules)
  ultimately show ?thesis unfolding rollback_def by (intro listed.keeps_rules listed_change)
qed

section \<open>The demotion orders that are queued\<close>

definition orders_for :: "time \<Rightarrow> stage_changed \<Rightarrow> message list" where
  "orders_for now ev = (let order = (\<lambda>c. DemotionOrder now (sc_strategy_id ev) (sc_strategy_version ev) c (sc_reason ev)) in
     if sc_to ev = Shadow \<or> sc_to ev = Retired then [order False, order True] else [order False])"

definition queued :: "stage_changed \<Rightarrow> demotion_queue evaluator \<Rightarrow> demotion_queue evaluator \<Rightarrow> bool" where
  "queued ev s t \<longleftrightarrow> listed (Some ev) (el_reg s) (el_reg t)
     \<and> el_world t = (el_world s)\<lparr>dq_queue := dq_queue (el_world s) @ orders_for (dq_now (el_world s)) ev\<rparr>"

lemma act_queues:
  assumes "act (with_bus_actions E) v to reason s = (r, t)"
    and "(sc_strategy_id ev, sc_strategy_version ev) = vs_key v" and "sc_to ev = to" and "sc_reason ev = reason"
  shows "r = Inr () \<and> el_reg t = el_reg s
    \<and> el_world t = (el_world s)\<lparr>dq_queue := dq_queue (el_world s) @ orders_for (dq_now (el_world s)) ev\<rparr>"
proof -
  have "sc_strategy_id ev = fst (vs_key v)" "sc_strategy_version ev = snd (vs_key v)"
    using assms(2) by (metis fst_conv snd_conv)+
  then show ?thesis
    using assms(1,3,4)
    by (auto simp: act_def with_bus_actions_def bus_actions_def queue_order_def Let_def catch_all_def on_world_def
        seq_def bnd_def modif_def when_do_def ret_def orders_for_def split: if_splits)
qed

lemma demote_queues:
  assumes "dict_get (rg_versions (el_reg s)) (vs_key v) = Some v"
    and "demote (with_bus_actions E) v reason m s = (Inr ev, t)"
  shows "queued ev s t"
proof -
  let ?E = "with_bus_actions E"
  let ?to = "demotion_target (ee_cfg ?E) (el_now s) v"
  obtain g where g: "transition (ee_registry ?E) (vs_key v) ?to reason EvaluatorActor m (el_reg s) = (Inr ev, g)"
      and act: "act ?E v ?to reason (s\<lparr>el_reg := g\<rparr>) = (Inr (), t)"
    using assms(2) by (auto simp: demote_def Let_def inr_simps)
  note ev = transition_event [OF g assms(1)]
  from act_queues [OF act, of ev] ev transition_listed [OF g] show ?thesis by (simp add: queued_def)
qed

lemma money_queues:
  assumes "dict_get (rg_versions (el_reg s)) (vs_key v) = Some v"
    and "eval_money (with_bus_actions E) v s = (Inr (Some ev), t)" and "(sc_from ev, sc_to ev) \<in> set demotions"
  shows "queued ev s t"
proof -
  let ?E = "with_bus_actions E"
  have up: False if "transition (ee_registry ?E) (vs_key v) to reason EvaluatorActor m (el_reg s) = (Inr ev, g)"
      and "(vs_stage v, to) \<in> {(Micro, Live), (Live, Scaled)}" for to reason m g
    using transition_event [OF that(1) assms(1)] assms(3) that(2) by (auto simp: demotions_def)
  have down: "queued ev s t" if "demote ?E v reason m s = (Inr ev, t)" for reason m
    using demote_queues [OF assms(1) that] .
  show ?thesis
    using assms(2) up down
    by (auto simp: eval_money_def micro_exit_def Let_def inr_simps split: if_splits option.splits)
qed

lemma maybe_rollback_listed:
  assumes "maybe_rollback E ev s = (r, t)"
  shows "listed None (el_reg s) (el_reg t)"
proof -
  have "listed None (el_reg s) (el_reg s)" by (rule listed.step_refl)
  moreover have "listed None (el_reg s) g" if "rollback (ee_registry E) sid reason (el_reg s) = (x, g)" for sid reason x g
    using keepsD [OF listed_rollback that] .
  ultimately show ?thesis
    using assms by (auto simp: maybe_rollback_def bnd_gets ret_def on_reg_def split: if_splits option.splits prod.splits)
qed

lemma evaluate_queues:
  assumes "registry_ok (ee_registry E) (el_reg s)"
    and "evaluate (with_bus_actions E) k s = (Inr (Some ev), t)" and "(sc_from ev, sc_to ev) \<in> set demotions"
  shows "queued ev s t"
proof -
  let ?E = "with_bus_actions E"
  obtain v where v: "dict_get (rg_versions (el_reg s)) k = Some v"
      "(if vs_stage v = Shadow then eval_shadow ?E v
        else if vs_stage v \<in> set money_stages
        then bnd (eval_money ?E v) (\<lambda>r. case r of
               None \<Rightarrow> ret None | Some ev \<Rightarrow> bnd (maybe_rollback ?E ev) (\<lambda>_. ret (Some ev)))
        else ret None) s = (Inr (Some ev), t)"
    using assms(2)
    by (auto simp: evaluate_def bnd_def on_reg_def get_version_run split: option.splits)
  have k: "dict_get (rg_versions (el_reg s)) (vs_key v) = Some v"
    using registry_key [OF assms(1) v(1)] v(1) by simp
  have "vs_stage v \<noteq> Shadow" using shadow_no_demotion [OF k, of ?E ev t] v(2) assms(3) by auto
  then obtain u r where u: "eval_money ?E v s = (Inr (Some ev), u)" "maybe_rollback ?E ev u = (r, t)"
    using v(2) by (fastforce simp: inr_simps split: if_splits option.splits)
  from money_queues [OF k u(1) assms(3)] maybe_rollback_listed [OF u(2)] maybe_rollback_frame [OF u(2)]
  show ?thesis by (auto simp: queued_def intro: listed_trans)
qed

section \<open>Flushing\<close>

definition publish_all :: "(message, 'r) codec \<Rightarrow> (string \<times> message) list \<Rightarrow> (message, 'r) bus \<Rightarrow> (message, 'r) bus" where
  "publish_all C ms b = fold (\<lambda>(stream, m). published_to C stream m) ms b"

lemma publish_changes_run:
  "lf_changes s = cs \<Longrightarrow> publish_changes C cs (s, b)
    = (Inr (), (s\<lparr>lf_changes := []\<rparr>, publish_all C (map (\<lambda>c. (STAGES, StageChanged c)) cs) b))"
  by (induction cs arbitrary: s b)
     (simp_all add: ret_def publish_all_def seq_def bnd_def on_state_def send_run)

lemma publish_orders_run:
  "dq_queue (el_world (lf_ev s)) = ms \<Longrightarrow> publish_orders C ms (s, b)
    = (Inr (), (set_queue [] s, publish_all C (map (Pair CONTROL) ms) b))"
  by (induction ms arbitrary: s b)
     (simp_all add: ret_def publish_all_def seq_def bnd_def on_state_def send_run set_queue_def)

lemma lf_flush_run:
  "\<exists>s'. lf_flush C (s, b) = (Inr (), (s', publish_all C
      (map (\<lambda>c. (STAGES, StageChanged c)) (lf_changes s) @ map (Pair CONTROL) (dq_queue (el_world (lf_ev s)))) b))
    \<and> lf_changes s' = [] \<and> dq_queue (el_world (lf_ev s')) = []"
  using publish_changes_run [of s "lf_changes s" C b]
    publish_orders_run [of "s\<lparr>lf_changes := []\<rparr>" "dq_queue (el_world (lf_ev s))" C]
  by (simp add: lf_flush_def bnd_service_state seq_run [of "publish_changes C (lf_changes s)"] publish_all_def set_queue_def)

text \<open>C33. A demotion leaves the lifecycle service at once and in order: when the evaluation that a closed trade
  triggers demotes a version, the handler returns, every stage change of it (the demotion among them) is
  published first, so that the risk gate and the allocator know, then the order to cancel the resting orders
  of the version and, when it lost its money stage, the order to close its positions; nothing waits.\<close>

theorem demotion_leaves_in_order:
  assumes "registry_ok (ee_registry E) (el_reg (lf_ev s))" and "lf_changes s = []"
    and "dq_queue (el_world (lf_ev s)) = []"
    and "fst (on_trade_closed (with_bus_actions E) tr
          (set_clock ((lf_ev s)\<lparr>el_data := add_trade tr (el_data (lf_ev s))\<rparr>))) = Inr (Some ev)"
    and "(sc_from ev, sc_to ev) \<in> set demotions"
  shows "\<exists>cs s'. lf_on_trade C E (PositionClosed t tr) (s, b) = (Inr (), (s', publish_all C
        (map (\<lambda>c. (STAGES, StageChanged c)) cs @ map (Pair CONTROL) (orders_for (el_now (lf_ev s)) ev)) b))
    \<and> ev \<in> set cs \<and> lf_changes s' = [] \<and> dq_queue (el_world (lf_ev s')) = []"
proof -
  let ?s = "s\<lparr>lf_ev := (lf_ev s)\<lparr>el_data := add_trade tr (el_data (lf_ev s))\<rparr>\<rparr>"
  let ?start = "set_clock (lf_ev ?s)" and ?m = "on_trade_closed (with_bus_actions E) tr"
  obtain u where run: "?m ?start = (Inr (Some ev), u)" using assms(4) by (cases "?m ?start") auto
  then have "queued ev ?start u"
    unfolding on_trade_closed_def using assms(1,5) by (intro evaluate_queues) (simp_all add: set_clock_def)
  then have world: "dq_queue (el_world u) = orders_for (el_now (lf_ev s)) ev"
    and "listed (Some ev) (el_reg (lf_ev s)) (el_reg u)"
    using assms(3) by (simp_all add: queued_def set_clock_def el_now_def)
  then obtain cs where cs: "drop (length (rg_changes (el_reg (lf_ev s)))) (rg_changes (el_reg u)) = cs" "ev \<in> set cs"
    by (auto simp: listed_def)
  let ?s2 = "?s\<lparr>lf_ev := u, lf_changes := cs\<rparr>"
  have "on_evaluator ?m (?s, b) = (Inr (Some ev), (?s2, b))"
    unfolding on_evaluator_def using run cs(1) assms(2) by simp
  then have "lf_on_trade C E (PositionClosed t tr) (s, b) = lf_flush C (?s2, b)"
    by (simp add: lf_on_trade_def seq_def bnd_def on_state_def)
  with lf_flush_run [of C ?s2 b] cs(2) world show ?thesis by auto
qed

definition losing_service :: lifecycle_service where
  "losing_service = lifecycle_init ((losing \<lparr>dq_now = 0, dq_queue = []\<rparr>)\<lparr>el_data :=
     \<lparr>sd_trade_rows = [], sd_signal_times = [], sd_fill_rows = []\<rparr>\<rparr>)"

lemma bus_acts:
  "\<exists>w'. act (toy_eval_with bus_actions) v Retired reason ((losing w)\<lparr>el_reg := g\<rparr>)
    = (Inr (), (losing w)\<lparr>el_reg := g, el_world := w'\<rparr>)"
  by (simp add: act_def Let_def toy_eval_with_def bus_actions_def queue_order_def catch_all_def se_defs on_world_def
      losing_def)

theorem demotion_leaves_in_order_witness:
  "\<exists>cs s' ev. lf_on_trade plain_codec (toy_eval_with bus_actions) (PositionClosed 30 lost_trade) (losing_service, empty_bus)
      = (Inr (), (s', publish_all plain_codec
        (map (\<lambda>c. (STAGES, StageChanged c)) cs @ map (Pair CONTROL) (orders_for (el_now (lf_ev losing_service)) ev)) empty_bus))
    \<and> ev \<in> set cs \<and> sc_to ev = Retired"
proof -
  let ?E = "toy_eval_with bus_actions" and ?s = losing_service
  let ?start = "set_clock ((lf_ev ?s)\<lparr>el_data := add_trade lost_trade (el_data (lf_ev ?s))\<rparr>)"
  have env: "with_bus_actions ?E = ?E" by (simp add: with_bus_actions_def toy_eval_with_def)
  obtain w where start: "?start = losing w"
    by (simp add: losing_service_def lifecycle_init_def set_clock_def losing_def add_trade_def)
  obtain ev t where ev: "evaluate ?E (''swing'', ''1'') ?start = (Inr (Some ev), t)" "sc_from ev = Micro" "sc_to ev = Retired"
    unfolding start using losing_demoted [OF bus_acts] by blast
  have ok: "registry_ok (ee_registry ?E) (el_reg (lf_ev ?s))"
    using losing_ok by (simp add: losing_service_def lifecycle_init_def)
  have key: "tr_strategy_id lost_trade = ''swing''" "tr_strategy_version lost_trade = ''1''"
    by (simp_all add: lost_trade_def)
  have "fst (on_trade_closed (with_bus_actions ?E) lost_trade ?start) = Inr (Some ev)"
    by (simp add: on_trade_closed_def env key ev(1))
  from demotion_leaves_in_order [OF ok _ _ this] ev(2,3) show ?thesis
    by (fastforce simp: losing_service_def lifecycle_init_def demotions_def losing_def)
qed

end
