(* ===== verification/System.thy ===== *)
theory System
  imports Exec_Bus_Properties Lifecycle_Service_Properties
begin

text \<open>
  The risk gate and execution on one bus: the services run in any interleaving, with anything else on the bus,
  and every order of the journal goes back to an approval of the gate. Signatures are the only link between
  the two that is not checked here: that a decision which verifies was made by the gate is a hypothesis on the
  run (the promise of Ed25519).
\<close>

section \<open>The two services on one bus\<close>

datatype sys_event = AtRisk risk_event | AtExec exec_event

type_synonym ('w, 'r) system = "(risk_service \<times> 'w exec_bus) \<times> (message, 'r) bus"

fun sys_do ::
  "(message, 'r) codec \<Rightarrow> risk_service_env \<Rightarrow> 'w om_env \<Rightarrow> (string \<Rightarrow> string) \<Rightarrow> sys_event \<Rightarrow> ('w, 'r) system \<Rightarrow> ('w, 'r) system" where
  "sys_do C R E f (AtRisk x) ((v, s), b) = (case risk_event_do C R x (v, b) of (v', b') \<Rightarrow> ((v', s), b'))"
| "sys_do C R E f (AtExec x) ((v, s), b) = (case exec_event_do C E f x (s, b) of (s', b') \<Rightarrow> ((v, s'), b'))"

definition sys_run ::
  "(message, 'r) codec \<Rightarrow> risk_service_env \<Rightarrow> 'w om_env \<Rightarrow> (string \<Rightarrow> string) \<Rightarrow> sys_event list \<Rightarrow> ('w, 'r) system \<Rightarrow> ('w, 'r) system" where
  "sys_run C R E f xs n = fold (sys_do C R E f) xs n"

text \<open>A decision that verifies at execution was made by the gate.\<close>

definition genuine_event :: "'w om_env \<Rightarrow> sys_event \<Rightarrow> ('w, 'r) system \<Rightarrow> bool" where
  "genuine_event E x n = (case x of
     AtExec (Message stream (RiskDecided t sd)) \<Rightarrow>
       (case sd_signature sd of
          None \<Rightarrow> True
        | Some sig \<Rightarrow> \<not> oe_sig_ok E (sd_body sd) sig \<or> sd \<in> fst ` set (gt_sent (rv_gate (fst (fst n)))))
   | _ \<Rightarrow> True)"

fun genuine ::
  "(message, 'r) codec \<Rightarrow> risk_service_env \<Rightarrow> 'w om_env \<Rightarrow> (string \<Rightarrow> string) \<Rightarrow> sys_event list \<Rightarrow> ('w, 'r) system \<Rightarrow> bool" where
  "genuine C R E f [] n = True"
| "genuine C R E f (x # xs) n = (genuine_event E x n \<and> genuine C R E f xs (sys_do C R E f x n))"

section \<open>Which orders an operation may add\<close>

definition adding :: "string set \<Rightarrow> 'w om \<Rightarrow> 'w om \<Rightarrow> bool" where
  "adding K s t \<longleftrightarrow> dict_keys (om_orders t) \<subseteq> dict_keys (om_orders s) \<union> K"

interpretation adding: step_rel "adding K"
  by unfold_locales (simp_all add: adding_def, blast)

named_theorems adding_intros \<open>operations that add no order but the ones named\<close>

lemma adding_basic [adding_intros]:
  "keeps (adding K) (call m)" "keeps (adding K) (upd_order coid f)" "keeps (adding K) (save E)"
  "keeps (adding K) (send_alert E sev k msg d)" "keeps (adding K) (emit es)"
  unfolding keeps_def adding_def call_def upd_order_def upd_st_def modif_def send_alert_def emit_def
  by (simp_all add: subset_iff split: prod.split)

lemma adding_modif: "(\<And>s. om_st (f s) = om_st s) \<Longrightarrow> keeps (adding K) (modif f)"
  by (simp add: keeps_def adding_def modif_def)

lemma adding_upd_st: "(\<And>st. dict_keys (xs_orders (g st)) \<subseteq> dict_keys (xs_orders st) \<union> K) \<Longrightarrow> keeps (adding K) (upd_st g)"
  by (simp add: keeps_def adding_def modif_def upd_st_def)

lemma adding_with_order [adding_intros]: "(\<And>t. keeps (adding K) (f t)) \<Longrightarrow> keeps (adding K) (with_order coid f)"
  unfolding with_order_def by (intro adding.keeps_rules)

lemma adding_fills [adding_intros]:
  "keeps (adding K) (opened coid price lots)" "keeps (adding K) (confirmed coid)" "keeps (adding K) (closed_trade E coid t)"
  "keeps (adding K) (record_fill E coid price lots latency commission)" "keeps (adding K) (position_at_broker E pid)"
  unfolding opened_def confirmed_def closed_trade_def record_fill_def position_at_broker_def Let_def
  by (intro adding.keeps_rules adding_intros)+

lemma adding_check_case [adding_intros]:
  "keeps (adding K) a \<Longrightarrow> (\<And>ack. keeps (adding K) (b ack)) \<Longrightarrow> keeps (adding K) c \<Longrightarrow>
    keeps (adding K) (case r of Protected \<Rightarrow> a | Exposed ack \<Rightarrow> b ack | NotConfirmed \<Rightarrow> c)"
  by (cases r) auto

lemma adding_send_case [adding_intros]:
  "keeps (adding K) a \<Longrightarrow> (\<And>ack. keeps (adding K) (b ack)) \<Longrightarrow> keeps (adding K) c \<Longrightarrow>
    keeps (adding K) (case r of FoundAtBroker \<Rightarrow> a | Acked ack \<Rightarrow> b ack | NoAnswer \<Rightarrow> c)"
  by (cases r) auto

lemma adding_confirm [adding_intros]: "keeps (adding K) (confirm_stop E coid)"
proof -
  have "keeps (adding K) (repair_stop E n coid pid)" for n pid
    by (induction n) (auto intro!: adding.keeps_rules adding_intros split: option.split)
  then show ?thesis
    unfolding confirm_stop_def check_stop_at_broker_def by (intro adding.keeps_rules adding_intros)
qed

lemma adding_jobs [adding_intros]:
  "keeps (adding K) (sync_deals E)" "keeps (adding K) (expire_pending E)" "keeps (adding K) (apply_halt E cmd)"
  "keeps (adding K) (cancel_pending_of E sid ver why)" "keeps (adding K) (close_position E pid why)"
  "keeps (adding K) (close_positions_of E sid ver why)" "keeps (adding K) (tighten_stop E pid x)"
proof -
  show cl: "keeps (adding K) (close_position E pid why)" for pid why
    unfolding close_position_def by (intro adding.keeps_rules adding_intros)
  have "xs_orders (count_cash d st) = xs_orders st" for d st
    by (simp add: count_cash_def split: option.split)
  then have "keeps (adding K) (apply_deal E d acc)" for d acc
    unfolding apply_deal_def apply_trade_deal_def apply_in_def apply_out_def
    by (intro adding.keeps_rules adding_intros adding_upd_st) simp_all
  then show "keeps (adding K) (sync_deals E)"
    unfolding sync_deals_def by (intro adding.keeps_rules adding_intros adding_upd_st) simp_all
  show "keeps (adding K) (expire_pending E)" "keeps (adding K) (apply_halt E cmd)" "keeps (adding K) (cancel_pending_of E sid ver why)"
    unfolding expire_pending_def expire_one_def apply_halt_def close_on_halt_def cancel_pending_entries_def
      cancel_entry_def cancel_pending_of_def cancel_one_of_def
    by (intro adding.keeps_rules adding_intros)+
  show "keeps (adding K) (close_positions_of E sid ver why)" "keeps (adding K) (tighten_stop E pid x)"
    unfolding close_positions_of_def close_one_of_def tighten_stop_def Let_def
    by (intro adding.keeps_rules adding_intros cl)+
qed

lemma adding_entry: "keeps (adding {client_order_id (oi_id i)}) (execute E i d tf)"
proof -
  let ?K = "{client_order_id (oi_id i)}"
  have "keeps (adding ?K) (adopt E coid pos oid)" for coid pos oid
    unfolding adopt_def by (intro adding.keeps_rules adding_intros)
  then have "keeps (adding ?K) (send_attempts E n coid req)" for n coid req
    by (induction n) (auto simp: find_at_broker_def intro!: adding.keeps_rules adding_intros split: option.split)
  then have "keeps (adding ?K) (write_ahead_and_send E i (place_request_of (client_order_id (oi_id i)) sig info lots pr ex) p now)"
    for sig info lots pr ex p now
    unfolding write_ahead_and_send_def send_order_def Let_def
    by (intro adding.keeps_rules adding_intros adding_upd_st) (auto simp: place_request_of_def)
  then have "keeps (adding ?K) (enter_order E i lots tf now)" for lots now
    unfolding enter_order_def Let_def
    by (auto intro!: adding.keeps_rules adding_intros split: option.split sum.split bool.split)
  then show ?thesis
    unfolding execute_def Let_def by (intro adding.keeps_rules adding_intros adding_modif) simp_all
qed

lemma adding_requests [adding_intros]:
  "keeps (adding K) (account_view E)" "keeps (adding K) (cancel_request E coid sid why)"
  "keeps (adding K) step \<Longrightarrow> keeps (adding K) (position_request E sid ver pid step)"
  unfolding account_view_def cancel_request_def position_request_def
  by (intro adding.keeps_rules adding_intros; assumption?)+

section \<open>The same on the bus\<close>

definition manager :: "('w exec_bus, message, 'r) net \<Rightarrow> 'w om" where
  "manager n = xb_om (fst n)"

interpretation adding_net: step_rel "through manager (adding K)"
  by unfold_locales (auto simp: through_def intro: adding.step_refl adding.step_trans)

lemma net_xom: "keeps (adding K) m \<Longrightarrow> keeps (through manager (adding K)) (on_xom m)"
  by (auto simp: keeps_def through_def manager_def on_xom_def split: prod.split) (metis snd_conv)

lemma net_state: "(\<And>s. xb_om (snd (f s)) = xb_om s) \<Longrightarrow> keeps (through manager (adding K)) (on_state f)"
  by (auto simp: keeps_def through_def manager_def on_state_def intro: adding.step_refl split: prod.splits)
     (metis snd_conv adding.step_refl)

lemma net_send: "keeps (through manager (adding K)) (send C stream m)"
  by (auto simp: keeps_def through_def manager_def send_run adding.step_refl)

lemma net_get: "keeps (through manager (adding K)) service_state"
  unfolding service_state_def by (rule adding_net.keeps_gets)

lemma net_flush: "keeps (through manager (adding K)) (flush C)"
proof -
  have "keeps (through manager (adding K)) (flush_from C ms)" for ms
    by (induction ms rule: flush_from.induct) (simp_all add: adding_net.keeps_ret adding_net.keeps_seq net_state net_send)
  then show ?thesis unfolding flush_def by (intro adding_net.keeps_rules net_get)
qed

lemmas net_intros = adding_net.keeps_rules net_xom net_flush net_get adding_intros adding_modif

text \<open>The order a decision may create.\<close>

fun may_create :: "'w om_env \<Rightarrow> message \<Rightarrow> string set" where
  "may_create E (RiskDecided t sd) =
     (if rd_verdict (sd_body sd) \<noteq> Reject \<and> (\<exists>sig. sd_signature sd = Some sig \<and> oe_sig_ok E (sd_body sd) sig)
      then {client_order_id (rd_intent_id (sd_body sd))} else {})"
| "may_create E _ = {}"

lemma execute_creates:
  "adding (may_create E (RiskDecided t sd)) s (snd (execute E i sd tf s))"
proof (cases "om_orders (snd (execute E i sd tf s)) = om_orders s")
  case True
  then show ?thesis by (simp add: adding_def)
next
  case False
  then have "om_world (snd (execute E i sd tf s)) \<noteq> om_world s \<or> om_orders (snd (execute E i sd tf s)) \<noteq> om_orders s" ..
  from execute_authorised [OF this] have "may_create E (RiskDecided t sd) = {client_order_id (oi_id i)}" by auto
  moreover have "adding {client_order_id (oi_id i)} s (snd (execute E i sd tf s))"
    using adding_entry [of i E sd tf] by (simp add: keeps_def)
  ultimately show ?thesis by simp
qed

lemma decision_creates: "keeps (through manager (adding (may_create E m))) (xb_on_decision E m)"
proof (cases m)
  case (RiskDecided t sd)
  have "keeps (adding (may_create E m)) (execute E i sd tf)" for i tf
    unfolding keeps_def RiskDecided using execute_creates by blast
  then show ?thesis
    unfolding xb_on_decision_def RiskDecided message.case by (intro net_intros)
qed (simp_all add: xb_on_decision_def adding_net.keeps_ret)

lemma handler_creates:
  assumes "dict_get (exec_handlers C E f) stream = Some h"
  shows "keeps (through manager (adding (may_create E m))) (h m)"
proof -
  let ?R = "through manager (adding (may_create E m))"
  have "keeps ?R (xb_on_heartbeat m)" "keeps ?R (xb_on_intent m)"
    unfolding xb_on_heartbeat_def xb_on_intent_def Let_def
    by (cases m; simp del: may_create.simps; intro net_intros net_state; simp)+
  moreover have "keeps ?R (xb_on_halt E m)" "keeps ?R (xb_on_control E m)"
    unfolding xb_on_halt_def xb_on_control_def by (cases m; simp del: may_create.simps; intro net_intros)+
  moreover have "keeps ?R (xb_on_request E f m)"
  proof (cases m)
    case (StrategyRequestEmitted t req)
    then show ?thesis unfolding xb_on_request_def by (cases req) (simp_all add: net_xom adding_requests adding_jobs)
  qed (simp_all add: xb_on_request_def adding_net.keeps_ret)
  ultimately show ?thesis
    using assms decision_creates
    by (auto simp: exec_handlers_def then_flush_def intro!: adding_net.keeps_seq net_flush split: if_splits)
qed

lemma cycle_creates:
  "keeps (through manager (adding {})) (on_quote C q)" "keeps (through manager (adding {})) (bus_cycle C E)"
  "keeps (through manager (adding {})) (exec_heartbeat C E)"
  unfolding on_quote_def bus_cycle_def publish_account_def exec_heartbeat_def
  by (intro net_intros net_send adding_requests; simp)+

definition creates :: "'w om_env \<Rightarrow> exec_event \<Rightarrow> string set" where
  "creates E x = (case x of Message stream m \<Rightarrow> may_create E m | _ \<Rightarrow> {})"

lemma event_creates:
  "adding (creates E x) (xb_om (fst n)) (xb_om (fst (exec_event_do C E f x n)))"
proof (cases x)
  case (Message stream m)
  show ?thesis
  proof (cases "dict_get (exec_handlers C E f) stream")
    case None
    then show ?thesis by (simp add: Message adding.step_refl)
  next
    case (Some h)
    from handler_creates [OF this, of m] show ?thesis
      by (cases n) (auto simp: Message Some creates_def keeps_def through_def manager_def)
  qed
next
  case (Quoted q)
  then show ?thesis using cycle_creates(1) [of C q] by (cases n) (auto simp: creates_def keeps_def through_def manager_def)
next
  case Cycle
  then show ?thesis using cycle_creates(2) [of C E] by (cases n) (auto simp: creates_def keeps_def through_def manager_def)
next
  case Pulse
  then show ?thesis using cycle_creates(3) [of C E] by (cases n) (auto simp: creates_def keeps_def through_def manager_def)
qed

section \<open>The log of the gate\<close>

lemma sent_frame:
  "on_account E eq now g = (c, g') \<Longrightarrow> gt_sent g' = gt_sent g"
  "resume E tok sig now g = (r, g') \<Longrightarrow> gt_sent g' = gt_sent g"
  "gt_sent (roll_day E eq wk g) = gt_sent g"
  by (auto simp: on_account_def enter_def resume_def roll_day_def store_def Let_def split: if_splits option.splits prod.splits)

definition logs_answers :: "risk_service_env \<Rightarrow> risk_service \<Rightarrow> risk_service \<Rightarrow> bool" where
  "logs_answers R v v' \<longleftrightarrow> gt_sent (rv_gate v') = gt_sent (rv_gate v) \<or> (\<exists>d i. proper_answer R v i d (rv_gate v'))"

lemma intent_logged: "logs_answers R v (fst (snd (risk_on_intent C R m (v, b))))"
proof (cases m)
  case (OrderIntentCreated t i tf)
  from answer_answered [of R i v b] consider
    (ok) d g where "answer R i (v, b) = (Inr d, (v\<lparr>rv_gate := g\<rparr>, b))" "proper_answer R v i d g"
  | (err) e where "answer R i (v, b) = (Inl e, (v, b))"
    unfolding answered_def by blast
  then show ?thesis
  proof cases
    case ok
    then show ?thesis
      by (auto simp: OrderIntentCreated risk_on_intent_def bnd_service_state bnd_run [of "answer R i", OF ok(1)]
          send_run logs_answers_def)
  next
    case err
    then show ?thesis
      by (simp add: OrderIntentCreated risk_on_intent_def bnd_service_state bnd_fail [of "answer R i", OF err]
          logs_answers_def)
  qed
qed (simp_all add: risk_on_intent_def ret_def logs_answers_def)

lemma account_logged: "logs_answers R v (fst (snd (risk_on_account C R m (v, b))))"
proof (cases m)
  case (AccountUpdated u)
  obtain cmd g where r: "on_account (re_gate R) (au_equity u) (rv_now v) (rv_gate v) = (cmd, g)"
    by (cases "on_account (re_gate R) (au_equity u) (rv_now v) (rv_gate v)")
  have "risk_on_account C R m (v, b) = announce C cmd (v\<lparr>rv_account := Some u, rv_gate := g\<rparr>, b)"
    by (simp add: AccountUpdated risk_on_account_def seq_def bnd_def on_state_def service_state_def gets_def on_gate_def r)
  with sent_frame(1) [OF r] show ?thesis
    by (cases cmd) (simp_all add: announce_def publish_halt_def send_run ret_def logs_answers_def)
qed (simp_all add: risk_on_account_def ret_def logs_answers_def)

lemma control_logged: "logs_answers R v (fst (snd (risk_on_control C R m (v, b))))"
proof (cases m)
  case (ResumeRequested t tok sig)
  obtain r g where r: "resume (re_gate R) tok sig (rv_now v) (rv_gate v) = (r, g)"
    by (cases "resume (re_gate R) tok sig (rv_now v) (rv_gate v)")
  show ?thesis
    using sent_frame(2) [OF r]
    by (cases r) (auto simp: ResumeRequested risk_on_control_def bnd_service_state Let_def raise_def when_do_def ret_def
        send_run logs_answers_def bnd_on_gate [of "resume (re_gate R) tok sig (rv_now v)", OF r])
qed (simp_all add: risk_on_control_def ret_def logs_answers_def)

lemma stage_logged: "logs_answers R v (fst (snd (risk_on_stage m (v, b))))"
  by (cases m) (simp_all add: risk_on_stage_def on_state_def ret_def logs_answers_def)

lemma roll_logged: "logs_answers R v (fst (snd (risk_roll_day C R wk (v, b))))"
  by (auto simp: risk_roll_day_def bnd_service_state Let_def on_gate_def on_state_def seq_def bnd_def service_state_def
      gets_def when_do_def ret_def send_run logs_answers_def sent_frame split: option.split)

lemma risk_event_logged: "logs_answers R v (fst (risk_event_do C R x (v, b)))"
proof (cases x)
  case (Receive stream m)
  have same: "logs_answers R v v" by (simp add: logs_answers_def)
  show ?thesis
    by (simp add: Receive risk_handlers_def ignoring_def intent_logged account_logged control_logged stage_logged same)
next
  case (RollDay wk)
  then show ?thesis using roll_logged by (simp add: ignoring_def)
next
  case Beat
  then show ?thesis by (simp add: ignoring_def risk_heartbeat_def bnd_service_state send_run logs_answers_def)
qed (simp_all add: logs_answers_def)

section \<open>Every order goes back to an approval\<close>

definition approved_by :: "risk_service_env \<Rightarrow> signed_decision \<Rightarrow> intent \<Rightarrow> bool" where
  "approved_by R sd i \<longleftrightarrow> (\<exists>v sn g. fresh_view R v i sn \<and> decide (re_gate R) i sn (rv_gate v) = (Inr sd, g))"

definition log_sound :: "risk_service_env \<Rightarrow> risk_service \<Rightarrow> bool" where
  "log_sound R v \<longleftrightarrow> (\<forall>sd i. (sd, i) \<in> set (gt_sent (rv_gate v)) \<longrightarrow>
     rd_intent_id (sd_body sd) = oi_id i \<and> (rd_verdict (sd_body sd) \<noteq> Reject \<longrightarrow> approved_by R sd i))"

definition order_approved :: "risk_service \<Rightarrow> string \<Rightarrow> bool" where
  "order_approved v k \<longleftrightarrow> (\<exists>sd i. (sd, i) \<in> set (gt_sent (rv_gate v)) \<and> k = client_order_id (oi_id i)
     \<and> rd_verdict (sd_body sd) \<noteq> Reject)"

definition system_ok :: "risk_service_env \<Rightarrow> ('w, 'r) system \<Rightarrow> bool" where
  "system_ok R n = (case n of ((v, s), b) \<Rightarrow> log_sound R v \<and> (\<forall>k \<in> dict_keys (om_orders (xb_om s)). order_approved v k))"

lemma risk_step_ok:
  assumes "system_ok R ((v, s), b)" and "logs_answers R v v'"
  shows "system_ok R ((v', s), b')"
proof -
  have "log_sound R v'"
    using assms by (fastforce simp: system_ok_def log_sound_def logs_answers_def proper_answer_def approved_by_def)
  moreover have "set (gt_sent (rv_gate v)) \<subseteq> set (gt_sent (rv_gate v'))"
    using assms(2) by (auto simp: logs_answers_def proper_answer_def)
  ultimately show ?thesis
    using assms(1) unfolding system_ok_def order_approved_def by blast
qed

lemma created_approved:
  assumes "log_sound R v" and "genuine_event E (AtExec x) ((v, s), b)" and "k \<in> creates E x"
  shows "order_approved v k"
proof -
  obtain stream m where x: "x = Message stream m" using assms(3) by (cases x) (simp_all add: creates_def)
  then obtain t sd where m: "m = RiskDecided t sd" using assms(3) by (cases m) (simp_all add: creates_def)
  with x assms(3) obtain sig where sd: "rd_verdict (sd_body sd) \<noteq> Reject" "sd_signature sd = Some sig"
      "oe_sig_ok E (sd_body sd) sig" and k: "k = client_order_id (rd_intent_id (sd_body sd))"
    by (auto simp: creates_def split: if_splits)
  with assms(2) x m obtain i where "(sd, i) \<in> set (gt_sent (rv_gate v))" by (auto simp: genuine_event_def)
  with assms(1) have "rd_intent_id (sd_body sd) = oi_id i" by (simp add: log_sound_def)
  with \<open>(sd, i) \<in> set (gt_sent (rv_gate v))\<close> sd(1) k show ?thesis
    unfolding order_approved_def by (intro exI [of _ sd] exI [of _ i]) simp
qed

lemma sys_step_ok:
  assumes "system_ok R n" and "genuine_event E x n"
  shows "system_ok R (sys_do C R E f x n)"
proof -
  obtain v s b where n: "n = ((v, s), b)" by (cases n) auto
  show ?thesis
  proof (cases x)
    case (AtRisk e)
    obtain v' b' where e: "risk_event_do C R e (v, b) = (v', b')" by (cases "risk_event_do C R e (v, b)")
    have "logs_answers R v v'" using risk_event_logged [of R v C e b] by (simp add: e)
    with risk_step_ok [of R v s b v' b'] assms(1) show ?thesis by (simp add: n AtRisk e)
  next
    case (AtExec e)
    obtain s' b' where e: "exec_event_do C E f e (s, b) = (s', b')" by (cases "exec_event_do C E f e (s, b)")
    have sound: "log_sound R v" and old: "\<forall>k \<in> dict_keys (om_orders (xb_om s)). order_approved v k"
      using assms(1) by (simp_all add: system_ok_def n)
    have "dict_keys (om_orders (xb_om s')) \<subseteq> dict_keys (om_orders (xb_om s)) \<union> creates E e"
      using event_creates [of E e "(s, b)" C f] by (simp add: e adding_def)
    moreover have "order_approved v k" if "k \<in> creates E e" for k
      using created_approved [OF sound, of E e s b] assms(2) that by (simp add: n AtExec)
    ultimately have "\<forall>k \<in> dict_keys (om_orders (xb_om s')). order_approved v k" using old by blast
    with sound show ?thesis by (simp add: n AtExec e system_ok_def)
  qed
qed

lemma sys_run_ok: "system_ok R n \<Longrightarrow> genuine C R E f xs n \<Longrightarrow> system_ok R (sys_run C R E f xs n)"
  unfolding sys_run_def by (induction xs arbitrary: n) (simp_all add: sys_step_ok)


text \<open>A run: the gate answers the sample intent, execution gets the intent and then the decision.\<close>

definition sample_approval :: signed_decision where
  "sample_approval = \<lparr>sd_body = \<lparr>rd_intent_id = oi_id sample_intent, rd_verdict = Resize, rd_approved_lots = 1 / 20,
     rd_reasons = [(''resized: independent sizing'', [])], rd_limits_hash = ''h'', rd_decided_at = 5,
     rd_expires_at = 5000005, rd_sequence = 1\<rparr>, sd_signature = Some (oi_id sample_intent)\<rparr>"

definition sys_env :: "fake om_env" where
  "sys_env = (sample_om_env (fake_adapter sample_fake))\<lparr>oe_sig_ok := (\<lambda>d sig. sig = rd_intent_id d)\<rparr>"

definition sys_start :: "(fake, message) system" where
  "sys_start = ((sample_service, exec_bus_init (quoted_om quoted_fake) (watchdog_init 0)), empty_bus)"

definition sample_traffic :: "sys_event list" where
  "sample_traffic = [AtRisk (Receive INTENTS (OrderIntentCreated 0 sample_intent H1)),
     AtExec (Message INTENTS (OrderIntentCreated 0 sample_intent H1)),
     AtExec (Message DECISIONS (RiskDecided 5 sample_approval))]"

lemma sample_gate_log:
  "gt_sent (rv_gate (fst (snd (risk_on_intent plain_codec sample_service_env (OrderIntentCreated 0 sample_intent H1)
      (sample_service, b))))) = [(sample_approval, sample_intent)]"
  by (simp add: risk_on_intent_def service_state_def gets_def answer_def decided_def sample_service_def sample_service_env_def
      sample_update_def on_gate_def on_state_def bnd_def snapshot_of_def Let_def sample_defs rate_from_quotes_def
      decide_def check_defs finish_def ret_def send_run sample_approval_def store_def)

lemma sample_order:
  "om_orders (snd (execute sys_env sample_intent sample_approval H1 (quoted_om quoted_fake))) \<noteq> []"
  by (simp add: sys_env_def sample_approval_def exec_sample_defs om_run_defs fake_run_defs numeral_peel)

lemma intent_kept:
  "exec_event_do C E f (Message INTENTS (OrderIntentCreated t i tf)) (exec_bus_init o' wd, b)
    = ((exec_bus_init o' wd)\<lparr>xb_intents := [(oi_id i, (i, tf))]\<rparr>, b)"
  by (simp add: exec_handlers_def then_flush_def xb_on_intent_def seq_def bnd_def on_state_def exec_bus_init_def
      intent_cache_def flush_def service_state_def gets_def ret_def)

lemma decision_executed:
  assumes "dict_get (xb_intents s) (rd_intent_id (sd_body sd)) = Some (i, tf)" and "rd_verdict (sd_body sd) \<noteq> Reject"
  shows "om_orders (xb_om (fst (exec_event_do C E f (Message DECISIONS (RiskDecided t sd)) (s, b))))
    = om_orders (snd (execute E i sd tf (xb_om s)))"
proof -
  obtain r o' where x: "execute E i sd tf (xb_om s) = (r, o')" by (cases "execute E i sd tf (xb_om s)")
  obtain s1 where run: "on_xom (execute E i sd tf) (s, b) = (r, (s1, b))" and om: "xb_om s1 = o'"
    by (simp add: on_xom_def x)
  have "xb_om (fst (snd (then_flush C (xb_on_decision E) (RiskDecided t sd) (s, b)))) = o'"
    using flush_done [of C s1 b] om assms
    by (cases r) (auto simp: then_flush_def xb_on_decision_def service_state_def gets_def seq_def bnd_def run ret_def)
  then show ?thesis by (simp add: exec_handlers_def x)
qed


end
