(* ===== verification/Costs.thy ===== *)
theory Costs
  imports Core_Models
begin

text \<open>
  The cost model of the simulations (\<open>engine/costs.py\<close>, time stamps of \<open>core/series.py\<close>): spread and
  slippage by hour of the week, swap per night, fixed conversion rates and the rollover instants. Times are
  integers, nanoseconds since the epoch; numpy columns are lists. The time zone database is a parameter
  (\<open>zone\<close>).
\<close>

section \<open>Time stamps\<close>

type_synonym ns = int

definition ns_per_minute :: ns where
  "ns_per_minute = 60000000000"

definition ns_per_hour :: ns where
  "ns_per_hour = 60 * ns_per_minute"

definition to_ns :: "time \<Rightarrow> ns" where
  "to_ns t = t * 1000"

definition from_ns :: "ns \<Rightarrow> time" where
  "from_ns n = n div 1000"

lemma from_to_ns [simp]: "from_ns (to_ns t) = t"
  by (simp add: from_ns_def to_ns_def)

text \<open>0 is Monday 00:00 UTC; the epoch was a Thursday.\<close>

definition hour_of_week :: "ns \<Rightarrow> nat" where
  "hour_of_week n = nat ((n div ns_per_hour + 72) mod 168)"

lemma takeWhile_find:
  "sorted ts \<Longrightarrow> length (takeWhile (\<lambda>t. t < x) ts) = n \<Longrightarrow>
    (\<forall>j < n. ts ! j < x) \<and> (n < length ts \<longrightarrow> x \<le> ts ! n)"
  by (metis linorder_not_less nth_length_takeWhile set_takeWhileD takeWhile_nth nth_mem)

section \<open>Instruments and rates\<close>

record inst_costs =
  ic_symbol :: string
  ic_quote :: string
  ic_contract_size :: flt
  ic_tick_size :: flt
  ic_min_lot :: flt
  ic_lot_step :: flt
  ic_max_lot :: flt
  ic_commission_per_lot_side :: flt
  ic_swap_long :: flt
  ic_swap_short :: flt
  ic_swap_mode :: swap_mode
  ic_triple_swap_weekday :: nat

definition from_instrument :: "instrument \<Rightarrow> inst_costs" where
  "from_instrument i = \<lparr>ic_symbol = in_symbol i, ic_quote = in_quote i, ic_contract_size = in_contract_size i,
     ic_tick_size = in_tick_size i, ic_min_lot = in_min_lot i, ic_lot_step = in_lot_step i,
     ic_max_lot = in_max_lot i, ic_commission_per_lot_side = in_commission_per_lot i / 2,
     ic_swap_long = in_swap_long i, ic_swap_short = in_swap_short i, ic_swap_mode = in_swap_mode i,
     ic_triple_swap_weekday = in_triple_swap_weekday i\<rparr>"

type_synonym static_rates = "(string \<times> string, flt) dict"

definition static_rate :: "static_rates \<Rightarrow> string \<Rightarrow> string \<Rightarrow> exn + flt" where
  "static_rate r frm to =
     (if frm = to then Inr 1
      else case dict_get r (frm, to) of
        Some x \<Rightarrow> Inr x
      | None \<Rightarrow>
          (case dict_get r (to, frm) of
             Some x \<Rightarrow> fdiv 1 x
           | None \<Rightarrow> Inl (KeyErr (''no conversion rate '' @ frm @ ''->'' @ to))))"

definition swap_per_night :: "inst_costs \<Rightarrow> side \<Rightarrow> flt \<Rightarrow> flt \<Rightarrow> flt \<Rightarrow> flt" where
  "swap_per_night c side lots price to_account =
     (let rate = (if side = Buy then ic_swap_long c else ic_swap_short c)
      in case ic_swap_mode c of
           SwapPoints \<Rightarrow> rate * ic_tick_size c * ic_contract_size c * lots * to_account
         | SwapMoney \<Rightarrow> rate * lots
         | SwapPercent \<Rightarrow> rate / 100 / 360 * price * ic_contract_size c * lots * to_account)"

section \<open>Spread and slippage\<close>

record spread_model =
  sm_median_by_hour :: "(string, flt list) dict"
  sm_news_ns :: "(string, ns list) dict"
  sm_rollover_ns :: "ns list"
  sm_widen_mult :: flt
  sm_window_ns :: ns

definition near :: "ns \<Rightarrow> ns list \<Rightarrow> ns \<Rightarrow> bool" where
  "near window arr t \<longleftrightarrow>
     arr \<noteq> [] \<and>
     (let i = bisect_left arr t
      in i < length arr \<and> arr ! i - t \<le> window \<or> 0 < i \<and> t - arr ! (i - 1) \<le> window)"

definition hourly :: "flt list \<Rightarrow> ns \<Rightarrow> exn + flt" where
  "hourly xs t = (if hour_of_week t < length xs then Inr (xs ! hour_of_week t) else Inl IndexErr)"

definition medians :: "spread_model \<Rightarrow> string \<Rightarrow> exn + flt list" where
  "medians m symb = (case dict_get (sm_median_by_hour m) symb of None \<Rightarrow> Inl (KeyErr symb) | Some xs \<Rightarrow> Inr xs)"

definition median_spread :: "spread_model \<Rightarrow> string \<Rightarrow> ns \<Rightarrow> exn + flt" where
  "median_spread m symb t = sbind (medians m symb) (\<lambda>xs. hourly xs t)"

definition news_of :: "spread_model \<Rightarrow> string \<Rightarrow> ns list" where
  "news_of m symb = (case dict_get (sm_news_ns m) symb of None \<Rightarrow> [] | Some xs \<Rightarrow> xs)"

text \<open>What a strategy sees: the median, widened once near news or a rollover.\<close>

definition spread_at :: "spread_model \<Rightarrow> string \<Rightarrow> ns \<Rightarrow> exn + flt" where
  "spread_at m symb t =
     sbind (median_spread m symb t) (\<lambda>s.
       Inr (if near (sm_window_ns m) (news_of m symb) t \<or> near (sm_window_ns m) (sm_rollover_ns m) t
            then s * sm_widen_mult m else s))"

text \<open>What the simulated fills use: the same column by column, through clipped positions.\<close>

definition clip :: "nat \<Rightarrow> nat \<Rightarrow> nat \<Rightarrow> nat" where
  "clip x lo hi = min (max x lo) hi"

definition near_column :: "ns \<Rightarrow> ns list \<Rightarrow> ns \<Rightarrow> bool" where
  "near_column window arr t \<longleftrightarrow>
     (let i = clip (bisect_left arr t) 1 (length arr) - 1;
          j = clip (bisect_left arr t) 0 (length arr - 1)
      in \<bar>arr ! i - t\<bar> \<le> window \<or> \<bar>arr ! j - t\<bar> \<le> window)"

definition widen :: "spread_model \<Rightarrow> ns list \<Rightarrow> ns list \<Rightarrow> flt list \<Rightarrow> flt list" where
  "widen m arr ts out =
     (if arr \<noteq> [] \<and> ts \<noteq> []
      then map (\<lambda>(t, x). if near_column (sm_window_ns m) arr t then x * sm_widen_mult m else x) (zip ts out)
      else out)"

definition spread_array :: "spread_model \<Rightarrow> string \<Rightarrow> ns list \<Rightarrow> exn + flt list" where
  "spread_array m symb ts =
     sbind (medians m symb) (\<lambda>xs. sbind (smap (hourly xs) ts) (\<lambda>out.
       Inr (widen m (sm_rollover_ns m) ts (widen m (news_of m symb) ts out))))"

record cost_model =
  cm_spreads :: spread_model
  cm_slippage_mult :: flt
  cm_slippage_mult_by_symbol :: "(string, flt) dict"

definition slippage_mult :: "cost_model \<Rightarrow> string \<Rightarrow> flt" where
  "slippage_mult m symb =
     (case dict_get (cm_slippage_mult_by_symbol m) symb of None \<Rightarrow> cm_slippage_mult m | Some x \<Rightarrow> x)"

definition slippage :: "cost_model \<Rightarrow> string \<Rightarrow> ns \<Rightarrow> exn + flt" where
  "slippage m symb t = sbind (median_spread (cm_spreads m) symb t) (\<lambda>s. Inr (slippage_mult m symb * s))"

section \<open>Rollovers and news\<close>

text \<open>
  A time zone: the local date of an instant, as a day number (day 0 is 1970-01-01, a Thursday), and the
  instant of the daily rollover on a date.
\<close>

record zone =
  z_date :: "time \<Rightarrow> int"
  z_roll :: "int \<Rightarrow> time"

definition weekday :: "int \<Rightarrow> nat" where
  "weekday d = nat ((d + 3) mod 7)"

definition rollover_times :: "zone \<Rightarrow> time \<Rightarrow> time \<Rightarrow> (ns \<times> nat) list" where
  "rollover_times z start stop =
     map (\<lambda>d. (to_ns (z_roll z d), weekday d))
       (filter (\<lambda>d. weekday d < 5 \<and> start \<le> z_roll z d \<and> z_roll z d \<le> stop)
          [z_date z start - 1 .. z_date z stop + 1])"

definition news_by_symbol :: "(string, string list) dict \<Rightarrow> (string, ns list) dict \<Rightarrow> (string, ns list) dict" where
  "news_by_symbol symbols_ccys events =
     map (\<lambda>(symb, ccys).
       (symb, sort (remdups (concat (map (\<lambda>c. case dict_get events c of None \<Rightarrow> [] | Some ts \<Rightarrow> ts) ccys)))))
       symbols_ccys"

end
