(* ===== verification/Sim_Broker.thy ===== *)
theory Sim_Broker
  imports Costs "HOL-Library.Product_Lexorder" "HOL-Library.List_Lexorder" "HOL-Library.Char_ord"
begin

text \<open>
  The fill simulator of the backtests (\<open>engine/simbroker.py\<close>, with the views of
  \<open>strategies_api/base.py\<close>). Its columns of M1 bars are a list of \<open>m1_bar\<close>, one element per index, so
  that a slice is \<open>take\<close> and \<open>drop\<close> and a mask is a predicate. Prices and money are exact rationals. The
  objects in its lists are values: within one operation none of them changes while the list still holds
  the old one, except where the model writes the whole list back.
\<close>

section \<open>Its data\<close>

record m1_bar =
  mb_open_time :: ns
  mb_close_time :: ns
  mb_bid_o :: flt
  mb_bid_h :: flt
  mb_bid_l :: flt
  mb_bid_c :: flt

record sim_bar = m1_bar +
  mb_spread :: flt
  mb_slip :: flt
  mb_ask_o :: flt
  mb_ask_h :: flt
  mb_ask_l :: flt
  mb_ask_c :: flt

record symbol_data =
  sy_costs :: inst_costs
  sy_bars :: "sim_bar list"
  sy_to_account :: flt

record pending_order =
  po_signal :: signal
  po_lots :: flt
  po_active_from_ns :: ns
  po_expires_ns :: "ns option"
  po_seq :: nat

datatype market_order =
    EntryOrder (mo_seq: nat) (mo_signal: signal) (mo_lots: flt)
  | CloseOrder (mo_seq: nat) (mo_position_id: string) (mo_reason: string)

record open_position =
  op_position_id :: string
  op_signal :: signal
  op_side :: side
  op_lots :: flt
  op_entry_price :: flt
  op_entry_idx :: nat
  op_entry_ns :: ns
  op_initial_stop :: flt
  op_stop :: flt
  op_target :: "flt option"
  op_money_at_risk :: flt
  op_commission :: flt
  op_swap :: flt
  op_spread_cost :: flt
  op_slippage_cost :: flt
  op_seq :: nat

record sim_trade =
  si_trade_id :: string
  si_signal_id :: string
  si_strategy_id :: string
  si_strategy_version :: string
  si_symbol :: string
  si_side :: side
  si_lots :: flt
  si_entry_time_ns :: ns
  si_entry_price :: flt
  si_stop_price :: flt
  si_exit_time_ns :: ns
  si_exit_price :: flt
  si_exit_reason :: string
  si_pnl_gross :: flt
  si_commission :: flt
  si_swap :: flt
  si_spread_cost :: flt
  si_slippage_cost :: flt
  si_pnl_net :: flt
  si_money_at_risk :: flt
  si_r_multiple :: flt
  si_mae_r :: flt
  si_mfe_r :: flt
  si_bars_held :: nat
  si_tags :: "(string \<times> string) list"

datatype fill_kind = EntryFill | ExitFill

record fill_view =
  fv_signal_id :: string
  fv_position_id :: string
  fv_symbol :: string
  fv_side :: side
  fv_kind :: fill_kind
  fv_price :: flt
  fv_lots :: flt
  fv_time :: time
  fv_exit_reason :: "string option"

record rejection =
  rj_time_ns :: ns
  rj_what :: fmt
  rj_reason :: string

record sim =
  sim_balance :: flt
  sim_pending :: "(string, pending_order list) dict"
  sim_market :: "(string, market_order list) dict"
  sim_positions :: "(string, open_position list) dict"
  sim_trades :: "sim_trade list"
  sim_fills :: "(string \<times> fill_view) list"
  sim_rejections :: "rejection list"
  sim_last_idx :: "(string, nat) dict"
  sim_seq :: nat

type_synonym symbols = "(string, symbol_data) dict"

text \<open>\<open>d.get(k, [])\<close> of a dictionary of lists, and \<open>d.setdefault(k, []).append(x)\<close>.\<close>

definition listed :: "(string, 'a list) dict \<Rightarrow> string \<Rightarrow> 'a list" where
  "listed d k = (case dict_get d k of None \<Rightarrow> [] | Some xs \<Rightarrow> xs)"

lemma listed_set [simp]: "listed (dict_set k v d) j = (if j = k then v else listed d j)"
  by (simp add: listed_def)

definition put_last :: "string \<Rightarrow> 'a \<Rightarrow> (string, 'a list) dict \<Rightarrow> (string, 'a list) dict" where
  "put_last k x d = dict_set k (listed d k @ [x]) d"

text \<open>Assigning a field of an object of a list.\<close>

fun replace1 :: "'a \<Rightarrow> 'a \<Rightarrow> 'a list \<Rightarrow> 'a list" where
  "replace1 x y [] = []"
| "replace1 x y (z # zs) = (if z = x then y # zs else z # replace1 x y zs)"

section \<open>Building the columns\<close>

definition price_bar :: "m1_bar \<Rightarrow> flt \<Rightarrow> flt \<Rightarrow> sim_bar" where
  "price_bar b spr slip = \<lparr>mb_open_time = mb_open_time b, mb_close_time = mb_close_time b,
     mb_bid_o = mb_bid_o b, mb_bid_h = mb_bid_h b, mb_bid_l = mb_bid_l b, mb_bid_c = mb_bid_c b,
     mb_spread = spr, mb_slip = slip, mb_ask_o = mb_bid_o b + spr, mb_ask_h = mb_bid_h b + spr,
     mb_ask_l = mb_bid_l b + spr, mb_ask_c = mb_bid_c b + spr\<rparr>"

definition sim_fresh :: "flt \<Rightarrow> sim" where
  "sim_fresh balance = \<lparr>sim_balance = balance, sim_pending = [], sim_market = [], sim_positions = [],
     sim_trades = [], sim_fills = [], sim_rejections = [], sim_last_idx = [], sim_seq = 0\<rparr>"

definition symbol_columns ::
  "(string, inst_costs) dict \<Rightarrow> cost_model \<Rightarrow> static_rates \<Rightarrow> string \<Rightarrow> string \<times> m1_bar list \<Rightarrow>
    exn + string \<times> symbol_data" where
  "symbol_columns instruments cm rates account_ccy = (\<lambda>(symb, bars).
     case dict_get instruments symb of
       None \<Rightarrow> Inl (KeyErr symb)
     | Some inst \<Rightarrow>
         sbind (spread_array (cm_spreads cm) symb (map mb_open_time bars)) (\<lambda>spr.
         sbind (medians (cm_spreads cm) symb) (\<lambda>med.
         sbind (smap (hourly med) (map mb_open_time bars)) (\<lambda>ms.
         sbind (static_rate rates (ic_quote inst) account_ccy) (\<lambda>rate.
           Inr (symb, \<lparr>sy_costs = inst,
             sy_bars = map (\<lambda>(b, s, m). price_bar b s (slippage_mult cm symb * m)) (zip bars (zip spr ms)),
             sy_to_account = rate\<rparr>))))))"

definition sim_build ::
  "(string, m1_bar list) dict \<Rightarrow> (string, inst_costs) dict \<Rightarrow> cost_model \<Rightarrow> static_rates \<Rightarrow> string \<Rightarrow>
    flt \<Rightarrow> exn + symbols \<times> sim" where
  "sim_build bars instruments cm rates account_ccy balance =
     sbind (smap (symbol_columns instruments cm rates account_ccy) bars) (\<lambda>S. Inr (S, sim_fresh balance))"

section \<open>Order intake\<close>

definition reject :: "ns \<Rightarrow> string \<Rightarrow> string \<Rightarrow> string \<Rightarrow> sim \<Rightarrow> sim" where
  "reject now what arg reason s =
     s\<lparr>sim_rejections := sim_rejections s @ [\<lparr>rj_time_ns = now, rj_what = (what, [AStr arg]), rj_reason = reason\<rparr>]\<rparr>"

definition next_seq :: "(sim, nat) se" where
  "next_seq = seq (modif (\<lambda>s. s\<lparr>sim_seq := sim_seq s + 1\<rparr>)) (gets sim_seq)"

definition submit_entry :: "signal \<Rightarrow> flt \<Rightarrow> ns \<Rightarrow> int \<Rightarrow> (sim, unit) se" where
  "submit_entry sg lots now minutes_of_tf =
     (if sg_entry_type sg = MarketEntry
      then bnd next_seq (\<lambda>n.
             modif (\<lambda>s. s\<lparr>sim_market := put_last (sg_symbol sg) (EntryOrder n sg lots) (sim_market s)\<rparr>))
      else bnd next_seq (\<lambda>n.
             modif (\<lambda>s. s\<lparr>sim_pending := put_last (sg_symbol sg)
               \<lparr>po_signal = sg, po_lots = lots, po_active_from_ns = now,
                po_expires_ns = map_option (\<lambda>b. now + b * minutes_of_tf * ns_per_minute) (sg_expiry_bars sg),
                po_seq = n\<rparr> (sim_pending s)\<rparr>)))"

text \<open>The first matching order over the symbols in insertion order.\<close>

fun find_listed :: "('a \<Rightarrow> bool) \<Rightarrow> (string, 'a list) dict \<Rightarrow> (string \<times> 'a) option" where
  "find_listed p [] = None"
| "find_listed p ((k, xs) # d) =
     (case find_first p xs of Some x \<Rightarrow> Some (k, x) | None \<Rightarrow> find_listed p d)"

definition sim_cancel :: "string \<Rightarrow> string \<Rightarrow> ns \<Rightarrow> (sim, bool) se" where
  "sim_cancel strategy_id signal_id now =
     bnd (gets (\<lambda>s. find_listed (\<lambda>q. sg_id (po_signal q) = signal_id \<and> sg_strategy_id (po_signal q) = strategy_id)
            (sim_pending s))) (\<lambda>r.
       case r of
         Some (k, q) \<Rightarrow>
           seq (modif (\<lambda>s. s\<lparr>sim_pending := dict_upd k (remove1 q) (sim_pending s)\<rparr>)) (ret True)
       | None \<Rightarrow> seq (modif (reject now ''cancel {}'' signal_id ''no such pending order'')) (ret False))"

definition find_position :: "string \<Rightarrow> string \<Rightarrow> sim \<Rightarrow> (string \<times> open_position) option" where
  "find_position strategy_id position_id s =
     find_listed (\<lambda>p. op_position_id p = position_id \<and> sg_strategy_id (op_signal p) = strategy_id) (sim_positions s)"

definition closes :: "string \<Rightarrow> market_order \<Rightarrow> bool" where
  "closes position_id mo = (case mo of CloseOrder n i r \<Rightarrow> i = position_id | EntryOrder n sg l \<Rightarrow> False)"

definition request_close :: "string \<Rightarrow> string \<Rightarrow> ns \<Rightarrow> string \<Rightarrow> (sim, bool) se" where
  "request_close strategy_id position_id now reason =
     bnd (gets (find_position strategy_id position_id)) (\<lambda>r.
       case r of
         None \<Rightarrow> seq (modif (reject now ''close {}'' position_id ''no such position'')) (ret False)
       | Some (k, p) \<Rightarrow>
           bnd (gets (\<lambda>s. list_ex (closes position_id) (listed (sim_market s) (sg_symbol (op_signal p))))) (\<lambda>asked.
             seq (when_do (\<not> asked) (bnd next_seq (\<lambda>n.
                    modif (\<lambda>s. s\<lparr>sim_market := put_last (sg_symbol (op_signal p))
                       (CloseOrder n position_id reason) (sim_market s)\<rparr>))))
               (ret True)))"

definition symbol_of :: "symbols \<Rightarrow> string \<Rightarrow> exn + symbol_data" where
  "symbol_of S symb = (case dict_get S symb of None \<Rightarrow> Inl (KeyErr symb) | Some d \<Rightarrow> Inr d)"

definition bar_at :: "symbol_data \<Rightarrow> nat \<Rightarrow> exn + sim_bar" where
  "bar_at d i = (if i < length (sy_bars d) then Inr (sy_bars d ! i) else Inl IndexErr)"

definition modify_stop :: "symbols \<Rightarrow> string \<Rightarrow> string \<Rightarrow> flt \<Rightarrow> ns \<Rightarrow> (sim, bool) se" where
  "modify_stop S strategy_id position_id new_stop now =
     bnd (gets (find_position strategy_id position_id)) (\<lambda>r.
       case r of
         None \<Rightarrow> seq (modif (reject now ''modify {}'' position_id ''no such position'')) (ret False)
       | Some (k, p) \<Rightarrow>
           bnd (lift (symbol_of S (sg_symbol (op_signal p)))) (\<lambda>d.
           bnd (gets (\<lambda>s. dict_get (sim_last_idx s) (sg_symbol (op_signal p)))) (\<lambda>last.
             case last of
               None \<Rightarrow> seq (modif (reject now ''modify {}'' position_id ''no price yet'')) (ret False)
             | Some i \<Rightarrow>
                 bnd (lift (bar_at d i)) (\<lambda>b.
                   let ok = (if op_side p = Buy then op_stop p < new_stop \<and> new_stop < mb_bid_c b
                             else mb_ask_c b < new_stop \<and> new_stop < op_stop p)
                   in if \<not> ok
                      then seq (modif (reject now ''modify {}'' position_id ''only tightening stops is allowed''))
                             (ret False)
                      else seq (modif (\<lambda>s. s\<lparr>sim_positions := dict_upd k
                                  (replace1 p (p\<lparr>op_stop := new_stop\<rparr>)) (sim_positions s)\<rparr>))
                             (ret True)))))"

section \<open>What a strategy sees\<close>

record position_view =
  pv_position_id :: string
  pv_signal_id :: string
  pv_symbol :: string
  pv_side :: side
  pv_lots :: flt
  pv_entry_price :: flt
  pv_stop_price :: flt
  pv_target_price :: "flt option"
  pv_opened_at :: time

record pending_view =
  qv_signal_id :: string
  qv_symbol :: string
  qv_side :: side
  qv_entry_type :: entry_type
  qv_entry_price :: "flt option"
  qv_stop_price :: flt
  qv_target_price :: "flt option"
  qv_created_at :: time

definition position_views :: "string \<Rightarrow> string option \<Rightarrow> sim \<Rightarrow> position_view list" where
  "position_views strategy_id symbol s =
     concat (map (\<lambda>(symb, ps).
       if symbol \<noteq> None \<and> symbol \<noteq> Some symb then []
       else map (\<lambda>p. \<lparr>pv_position_id = op_position_id p, pv_signal_id = sg_id (op_signal p), pv_symbol = symb,
                      pv_side = op_side p, pv_lots = op_lots p, pv_entry_price = op_entry_price p,
                      pv_stop_price = op_stop p, pv_target_price = op_target p,
                      pv_opened_at = from_ns (op_entry_ns p)\<rparr>)
              (filter (\<lambda>p. sg_strategy_id (op_signal p) = strategy_id) ps)) (sim_positions s))"

fun entry_signal :: "market_order \<Rightarrow> signal list" where
  "entry_signal (EntryOrder n sg lots) = [sg]"
| "entry_signal (CloseOrder n i r) = []"

definition pending_views :: "string \<Rightarrow> string option \<Rightarrow> sim \<Rightarrow> pending_view list" where
  "pending_views strategy_id symbol s =
     concat (map (\<lambda>symb.
       if symbol \<noteq> None \<and> symbol \<noteq> Some symb then []
       else map (\<lambda>g. \<lparr>qv_signal_id = sg_id g, qv_symbol = symb, qv_side = sg_side g,
                      qv_entry_type = sg_entry_type g, qv_entry_price = sg_entry_price g,
                      qv_stop_price = sg_stop_price g, qv_target_price = sg_target_price g,
                      qv_created_at = sg_created_at g\<rparr>)
              (filter (\<lambda>g. sg_strategy_id g = strategy_id)
                 (map po_signal (listed (sim_pending s) symb) @
                  concat (map entry_signal (listed (sim_market s) symb)))))
       (sort (remdups (map fst (sim_pending s) @ map fst (sim_market s)))))"

definition has_activity :: "string \<Rightarrow> sim \<Rightarrow> bool" where
  "has_activity symb s \<longleftrightarrow>
     listed (sim_pending s) symb \<noteq> [] \<or> listed (sim_market s) symb \<noteq> [] \<or> listed (sim_positions s) symb \<noteq> []"

section \<open>Triggers\<close>

definition pending_trigger :: "symbol_data \<Rightarrow> pending_order \<Rightarrow> sim_bar \<Rightarrow> bool" where
  "pending_trigger d q b \<longleftrightarrow>
     (let g = po_signal q; tick = ic_tick_size (sy_costs d); px = dec_or (sg_entry_price g) 0
      in (if sg_entry_type g = LimitEntry
          then (if sg_side g = Buy then mb_ask_l b \<le> px - tick else mb_bid_h b \<ge> px + tick)
          else (if sg_side g = Buy then mb_ask_h b \<ge> px else mb_bid_l b \<le> px)) \<and>
         mb_open_time b \<ge> po_active_from_ns q)"

definition reaches :: "flt option \<Rightarrow> (flt \<Rightarrow> bool) \<Rightarrow> bool" where
  "reaches target p = (case target of None \<Rightarrow> False | Some t \<Rightarrow> p t)"

definition exit_trigger :: "open_position \<Rightarrow> sim_bar \<Rightarrow> bool" where
  "exit_trigger p b \<longleftrightarrow>
     (if op_side p = Buy then mb_bid_l b \<le> op_stop p \<or> reaches (op_target p) (\<lambda>t. mb_bid_h b \<ge> t)
      else mb_ask_h b \<ge> op_stop p \<or> reaches (op_target p) (\<lambda>t. mb_ask_l b \<le> t))"

text \<open>\<open>_first(mask, lo)\<close> for a mask over the columns \<open>[lo:hi]\<close>.\<close>

definition first_bar :: "symbol_data \<Rightarrow> (sim_bar \<Rightarrow> bool) \<Rightarrow> nat \<Rightarrow> nat \<Rightarrow> nat option" where
  "first_bar d p lo hi = find_first (\<lambda>k. p (sy_bars d ! k)) [lo..<min hi (length (sy_bars d))]"

definition sooner :: "nat option \<Rightarrow> nat option \<Rightarrow> nat option" where
  "sooner best f =
     (case f of
        None \<Rightarrow> best
      | Some k \<Rightarrow> (case best of None \<Rightarrow> Some k | Some b \<Rightarrow> if k < b then Some k else best))"

definition horizon :: "nat option \<Rightarrow> nat \<Rightarrow> nat" where
  "horizon best hi = (case best of None \<Rightarrow> hi | Some b \<Rightarrow> b + 1)"

definition open_times :: "symbol_data \<Rightarrow> nat \<Rightarrow> nat \<Rightarrow> ns list" where
  "open_times d lo hi = map mb_open_time (drop lo (take hi (sy_bars d)))"

definition expiry_bar :: "symbol_data \<Rightarrow> pending_order \<Rightarrow> nat \<Rightarrow> nat \<Rightarrow> nat option" where
  "expiry_bar d q lo hi =
     (case po_expires_ns q of
        None \<Rightarrow> None
      | Some x \<Rightarrow> (let e = bisect_left (open_times d lo hi) x + lo in if e < hi then Some e else None))"

fun scan_pending :: "symbol_data \<Rightarrow> nat \<Rightarrow> nat \<Rightarrow> pending_order list \<Rightarrow> nat option \<Rightarrow> nat option" where
  "scan_pending d lo hi [] best = best"
| "scan_pending d lo hi (q # qs) best =
     (let best = sooner best (expiry_bar d q lo hi)
      in scan_pending d lo hi qs (sooner best (first_bar d (pending_trigger d q) lo (horizon best hi))))"

fun scan_positions :: "symbol_data \<Rightarrow> nat \<Rightarrow> nat \<Rightarrow> open_position list \<Rightarrow> nat option \<Rightarrow> nat option" where
  "scan_positions d lo hi [] best = best"
| "scan_positions d lo hi (p # ps) best =
     scan_positions d lo hi ps (sooner best (first_bar d (exit_trigger p) lo (horizon best hi)))"

definition earliest_event :: "symbol_data \<Rightarrow> string \<Rightarrow> nat \<Rightarrow> nat \<Rightarrow> sim \<Rightarrow> nat option" where
  "earliest_event d symb lo hi s =
     scan_positions d lo hi (listed (sim_positions s) symb)
       (scan_pending d lo hi (listed (sim_pending s) symb)
          (if listed (sim_market s) symb \<noteq> [] then Some lo else None))"

section \<open>Fills\<close>

text \<open>The fill is recorded under the strategy that owns the position.\<close>

definition fill_out :: "signal \<Rightarrow> fill_view \<Rightarrow> sim \<Rightarrow> sim" where
  "fill_out g f s = s\<lparr>sim_fills := sim_fills s @ [(sg_strategy_id g, f)]\<rparr>"

definition beyond_stop :: "signal \<Rightarrow> flt \<Rightarrow> bool" where
  "beyond_stop g px \<longleftrightarrow>
     (sg_side g = Buy \<and> sg_stop_price g \<ge> px \<or> sg_side g = Sell \<and> sg_stop_price g \<le> px) \<or>
     \<bar>px - sg_stop_price g\<bar> = 0"

definition units :: "symbol_data \<Rightarrow> flt \<Rightarrow> flt" where
  "units d lots = ic_contract_size (sy_costs d) * lots * sy_to_account d"

definition side_commission :: "symbol_data \<Rightarrow> flt \<Rightarrow> flt" where
  "side_commission d lots = ic_commission_per_lot_side (sy_costs d) * lots"

definition new_position :: "symbol_data \<Rightarrow> signal \<Rightarrow> flt \<Rightarrow> flt \<Rightarrow> nat \<Rightarrow> ns \<Rightarrow> flt \<Rightarrow> flt \<Rightarrow> nat \<Rightarrow> open_position" where
  "new_position d g lots px i t slip spread n =
     \<lparr>op_position_id = sg_id g, op_signal = g, op_side = sg_side g, op_lots = lots, op_entry_price = px,
      op_entry_idx = i, op_entry_ns = t, op_initial_stop = sg_stop_price g, op_stop = sg_stop_price g,
      op_target = sg_target_price g, op_money_at_risk = \<bar>px - sg_stop_price g\<bar> * units d lots,
      op_commission = side_commission d lots, op_swap = 0,
      op_spread_cost = (if sg_side g = Buy then spread * units d lots else 0),
      op_slippage_cost = slip * units d lots, op_seq = n\<rparr>"

definition entry_view :: "open_position \<Rightarrow> fill_view" where
  "entry_view p =
     \<lparr>fv_signal_id = sg_id (op_signal p), fv_position_id = op_position_id p, fv_symbol = sg_symbol (op_signal p),
      fv_side = op_side p, fv_kind = EntryFill, fv_price = op_entry_price p, fv_lots = op_lots p,
      fv_time = from_ns (op_entry_ns p), fv_exit_reason = None\<rparr>"

definition open_pos :: "symbol_data \<Rightarrow> signal \<Rightarrow> flt \<Rightarrow> flt \<Rightarrow> nat \<Rightarrow> flt \<Rightarrow> flt \<Rightarrow> (sim, open_position option) se" where
  "open_pos d g lots px i slip spread =
     bnd (lift (bar_at d i)) (\<lambda>b.
       if beyond_stop g px
       then seq (modif (reject (mb_open_time b) ''entry {}'' (sg_id g) ''fill price beyond stop'')) (ret None)
       else
         seq (modif (\<lambda>s. s\<lparr>sim_balance := sim_balance s - side_commission d lots\<rparr>))
         (bnd next_seq (\<lambda>n.
          let p = new_position d g lots px i (mb_open_time b) slip spread n
          in seq (modif (\<lambda>s. s\<lparr>sim_positions := put_last (sg_symbol g) p (sim_positions s)\<rparr>))
             (seq (modif (fill_out g (entry_view p))) (ret (Some p))))))"

text \<open>\<open>column[lo:hi].min()\<close> and \<open>.max()\<close>: numpy raises on an empty slice.\<close>

definition span_of :: "(sim_bar \<Rightarrow> flt) \<Rightarrow> symbol_data \<Rightarrow> nat \<Rightarrow> nat \<Rightarrow> flt list" where
  "span_of f d lo hi = map f (drop lo (take hi (sy_bars d)))"

definition low_of :: "flt list \<Rightarrow> exn + flt" where
  "low_of xs = (case xs of [] \<Rightarrow> Inl (ValueErr ''zero-size array'') | y # ys \<Rightarrow> Inr (foldl min y ys))"

definition high_of :: "flt list \<Rightarrow> exn + flt" where
  "high_of xs = (case xs of [] \<Rightarrow> Inl (ValueErr ''zero-size array'') | y # ys \<Rightarrow> Inr (foldl max y ys))"

text \<open>The adverse and the favourable excursion over the holding bars, in multiples of the initial risk.\<close>

definition excursions :: "symbol_data \<Rightarrow> open_position \<Rightarrow> nat \<Rightarrow> exn + flt \<times> flt" where
  "excursions d p i =
     (let lo = op_entry_idx p; hi = i + 1; e = op_entry_price p; rpu = \<bar>e - op_initial_stop p\<bar>
      in if op_side p = Buy
         then sbind (low_of (span_of mb_bid_l d lo hi)) (\<lambda>l. sbind (fdiv (e - l) rpu) (\<lambda>mae.
              sbind (high_of (span_of mb_bid_h d lo hi)) (\<lambda>h. sbind (fdiv (h - e) rpu) (\<lambda>mfe. Inr (mae, mfe)))))
         else sbind (high_of (span_of mb_ask_h d lo hi)) (\<lambda>h. sbind (fdiv (h - e) rpu) (\<lambda>mae.
              sbind (low_of (span_of mb_ask_l d lo hi)) (\<lambda>l. sbind (fdiv (e - l) rpu) (\<lambda>mfe. Inr (mae, mfe))))))"

definition close_request :: string where "close_request = ''close_request''"

definition gross_of :: "symbol_data \<Rightarrow> open_position \<Rightarrow> flt \<Rightarrow> flt" where
  "gross_of d p px = (if op_side p = Buy then 1 else -1) * (px - op_entry_price p) * units d (op_lots p)"

definition commission_of :: "symbol_data \<Rightarrow> open_position \<Rightarrow> flt" where
  "commission_of d p = op_commission p + side_commission d (op_lots p)"

definition net_of :: "symbol_data \<Rightarrow> open_position \<Rightarrow> flt \<Rightarrow> flt" where
  "net_of d p px = gross_of d p px - commission_of d p + op_swap p"

definition exit_time_of :: "sim_bar \<Rightarrow> string \<Rightarrow> ns" where
  "exit_time_of b reason = (if reason = close_request then mb_open_time b else mb_close_time b)"

definition closed_trade_of ::
  "symbol_data \<Rightarrow> open_position \<Rightarrow> flt \<Rightarrow> nat \<Rightarrow> sim_bar \<Rightarrow> string \<Rightarrow> flt \<Rightarrow> flt \<Rightarrow> flt \<Rightarrow> flt \<Rightarrow> sim_trade" where
  "closed_trade_of d p px i b reason slip r_multiple mae mfe =
     (let g = op_signal p in
      \<lparr>si_trade_id = op_position_id p, si_signal_id = sg_id g, si_strategy_id = sg_strategy_id g,
       si_strategy_version = sg_strategy_version g, si_symbol = sg_symbol g, si_side = op_side p,
       si_lots = op_lots p, si_entry_time_ns = op_entry_ns p, si_entry_price = op_entry_price p,
       si_stop_price = op_initial_stop p, si_exit_time_ns = exit_time_of b reason, si_exit_price = px,
       si_exit_reason = reason, si_pnl_gross = gross_of d p px, si_commission = commission_of d p,
       si_swap = op_swap p,
       si_spread_cost = op_spread_cost p + (if op_side p = Sell then mb_spread b * units d (op_lots p) else 0),
       si_slippage_cost = op_slippage_cost p + slip * units d (op_lots p), si_pnl_net = net_of d p px,
       si_money_at_risk = op_money_at_risk p, si_r_multiple = r_multiple, si_mae_r = max 0 mae,
       si_mfe_r = max 0 mfe, si_bars_held = i + 1 - op_entry_idx p, si_tags = sort (sg_tags g)\<rparr>)"

definition exit_view :: "open_position \<Rightarrow> flt \<Rightarrow> sim_bar \<Rightarrow> string \<Rightarrow> fill_view" where
  "exit_view p px b reason =
     \<lparr>fv_signal_id = sg_id (op_signal p), fv_position_id = op_position_id p, fv_symbol = sg_symbol (op_signal p),
      fv_side = op_side p, fv_kind = ExitFill, fv_price = px, fv_lots = op_lots p,
      fv_time = from_ns (exit_time_of b reason), fv_exit_reason = Some reason\<rparr>"

definition take_out :: "open_position \<Rightarrow> (sim, unit) se" where
  "take_out p =
     bnd (gets (\<lambda>s. dict_get (sim_positions s) (sg_symbol (op_signal p)))) (\<lambda>ps.
       case ps of
         None \<Rightarrow> raise (KeyErr (sg_symbol (op_signal p)))
       | Some xs \<Rightarrow>
           if p \<in> set xs
           then modif (\<lambda>s. s\<lparr>sim_positions := dict_set (sg_symbol (op_signal p)) (remove1 p xs) (sim_positions s)\<rparr>)
           else raise (ValueErr ''list.remove(x): x not in list''))"

definition close_pos :: "symbol_data \<Rightarrow> open_position \<Rightarrow> flt \<Rightarrow> nat \<Rightarrow> string \<Rightarrow> flt \<Rightarrow> (sim, unit) se" where
  "close_pos d p px i reason slip =
     seq (take_out p)
     (seq (modif (\<lambda>s. s\<lparr>sim_balance := sim_balance s + (gross_of d p px - side_commission d (op_lots p))\<rparr>))
     (bnd (lift (bar_at d i)) (\<lambda>b.
      bnd (lift (excursions d p i)) (\<lambda>(mae, mfe).
      bnd (lift (fdiv (net_of d p px) (op_money_at_risk p))) (\<lambda>r_multiple.
      seq (modif (\<lambda>s. s\<lparr>sim_trades := sim_trades s @ [closed_trade_of d p px i b reason slip r_multiple mae mfe]\<rparr>))
          (modif (fill_out (op_signal p) (exit_view p px b reason))))))))"

definition check_exit :: "symbol_data \<Rightarrow> bool \<Rightarrow> nat \<Rightarrow> open_position \<Rightarrow> (sim, unit) se" where
  "check_exit d allow_target i p =
     bnd (gets (\<lambda>s. p \<in> set (listed (sim_positions s) (sg_symbol (op_signal p))))) (\<lambda>there.
       when_do there (bnd (lift (bar_at d i)) (\<lambda>b.
         if op_side p = Buy
         then (if mb_bid_l b \<le> op_stop p
               then close_pos d p
                      ((if mb_bid_o b \<le> op_stop p \<and> i \<noteq> op_entry_idx p then mb_bid_o b else op_stop p) - mb_slip b)
                      i ''stop'' (mb_slip b)
               else if allow_target \<and> reaches (op_target p) (\<lambda>t. mb_bid_h b \<ge> t)
               then close_pos d p (the (op_target p)) i ''target'' 0
               else ret ())
         else if mb_ask_h b \<ge> op_stop p
         then close_pos d p
                ((if mb_ask_o b \<ge> op_stop p \<and> i \<noteq> op_entry_idx p then mb_ask_o b else op_stop p) + mb_slip b)
                i ''stop'' (mb_slip b)
         else if allow_target \<and> reaches (op_target p) (\<lambda>t. mb_ask_l b \<le> t)
         then close_pos d p (the (op_target p)) i ''target'' 0
         else ret ())))"

section \<open>One bar\<close>

definition fill_market :: "symbol_data \<Rightarrow> string \<Rightarrow> nat \<Rightarrow> sim_bar \<Rightarrow> market_order \<Rightarrow> (sim, unit) se" where
  "fill_market d symb i b mo =
     (case mo of
        EntryOrder n g lots \<Rightarrow>
          bnd (open_pos d g lots (if sg_side g = Buy then mb_ask_o b + mb_slip b else mb_bid_o b - mb_slip b)
                 i (mb_slip b) (mb_spread b)) (\<lambda>_. ret ())
      | CloseOrder n position_id reason \<Rightarrow>
          bnd (gets (\<lambda>s. find_first (\<lambda>q. op_position_id q = position_id) (listed (sim_positions s) symb))) (\<lambda>r.
            case r of
              None \<Rightarrow> ret ()
            | Some p \<Rightarrow>
                close_pos d p (if op_side p = Buy then mb_bid_o b - mb_slip b else mb_ask_o b + mb_slip b)
                  i reason (mb_slip b)))"

definition take_market :: "string \<Rightarrow> (sim, market_order list) se" where
  "take_market symb =
     bnd (gets (\<lambda>s. listed (sim_market s) symb)) (\<lambda>ms.
       seq (modif (\<lambda>s. s\<lparr>sim_market := dict_del symb (sim_market s)\<rparr>)) (ret ms))"

definition drop_pending :: "string \<Rightarrow> pending_order \<Rightarrow> (sim, unit) se" where
  "drop_pending symb q = modif (\<lambda>s. s\<lparr>sim_pending := dict_upd symb (remove1 q) (sim_pending s)\<rparr>)"

definition expired :: "pending_order \<Rightarrow> ns \<Rightarrow> bool" where
  "expired q t = (case po_expires_ns q of None \<Rightarrow> False | Some x \<Rightarrow> t \<ge> x)"

text \<open>The price and the slippage of an entry that triggers at a bar.\<close>

definition entry_fill :: "signal \<Rightarrow> sim_bar \<Rightarrow> flt \<times> flt" where
  "entry_fill g b =
     (let px = dec_or (sg_entry_price g) 0
      in if sg_entry_type g = StopEntry
         then (if sg_side g = Buy then max px (mb_ask_o b) + mb_slip b else min px (mb_bid_o b) - mb_slip b,
               mb_slip b)
         else (px, 0))"

definition fill_pending :: "symbol_data \<Rightarrow> string \<Rightarrow> nat \<Rightarrow> sim_bar \<Rightarrow> pending_order \<Rightarrow> (sim, unit) se" where
  "fill_pending d symb i b q =
     when_do (pending_trigger d q b)
       (seq (drop_pending symb q)
         (case entry_fill (po_signal q) b of (px, slip) \<Rightarrow>
            bnd (open_pos d (po_signal q) (po_lots q) px i slip (mb_spread b)) (\<lambda>r.
              case r of None \<Rightarrow> ret () | Some p \<Rightarrow> check_exit d False i p)))"

definition process_bar :: "symbol_data \<Rightarrow> string \<Rightarrow> nat \<Rightarrow> (sim, unit) se" where
  "process_bar d symb i =
     bnd (lift (bar_at d i)) (\<lambda>b.
     bnd (take_market symb) (\<lambda>ms.
     seq (for_each (fill_market d symb i b) (sort_key mo_seq ms))
     (bnd (gets (\<lambda>s. listed (sim_pending s) symb)) (\<lambda>qs.
     seq (for_each (\<lambda>q. when_do (expired q (mb_open_time b)) (drop_pending symb q)) qs)
     (bnd (gets (\<lambda>s. listed (sim_positions s) symb)) (\<lambda>ps.
     seq (for_each (check_exit d True i) (sort_key op_seq ps))
     (bnd (gets (\<lambda>s. listed (sim_pending s) symb)) (\<lambda>qs.
       for_each (fill_pending d symb i b) (sort_key po_seq qs)))))))))"

lemma sooner_least: "sooner best f = Some k \<Longrightarrow> best = Some k \<or> f = Some k"
  by (auto simp: sooner_def split: option.splits if_splits)

lemma first_bar_ge: "first_bar d p lo hi = Some k \<Longrightarrow> lo \<le> k \<and> k < hi \<and> k < length (sy_bars d) \<and> p (sy_bars d ! k)"
  by (auto simp: first_bar_def dest!: find_first_Some)

lemma expiry_bar_ge: "expiry_bar d q lo hi = Some k \<Longrightarrow> lo \<le> k \<and> k < hi"
  by (auto simp: expiry_bar_def Let_def split: option.splits if_splits)

lemma scan_pending_ge:
  "\<lbrakk>scan_pending d lo hi qs best = Some k; \<And>j. best = Some j \<Longrightarrow> lo \<le> j\<rbrakk> \<Longrightarrow> lo \<le> k"
proof (induction qs arbitrary: best)
  case (Cons q qs)
  show ?case
    by (rule Cons.IH [OF Cons.prems(1) [unfolded scan_pending.simps Let_def]])
      (auto dest!: sooner_least first_bar_ge expiry_bar_ge Cons.prems(2))
qed simp

lemma scan_positions_ge:
  "\<lbrakk>scan_positions d lo hi ps best = Some k; \<And>j. best = Some j \<Longrightarrow> lo \<le> j\<rbrakk> \<Longrightarrow> lo \<le> k"
proof (induction ps arbitrary: best)
  case (Cons p ps)
  show ?case
    by (rule Cons.IH [OF Cons.prems(1) [unfolded scan_positions.simps Let_def]])
      (auto dest!: sooner_least first_bar_ge Cons.prems(2))
qed simp

lemma earliest_event_ge: "earliest_event d symb lo hi s = Some i \<Longrightarrow> lo \<le> i"
  unfolding earliest_event_def
  by (erule scan_positions_ge) (auto elim!: scan_pending_ge split: if_splits)

function advance_loop :: "symbol_data \<Rightarrow> string \<Rightarrow> nat \<Rightarrow> nat \<Rightarrow> (sim, unit) se" where
  "advance_loop d symb cur hi s =
     (if cur < hi \<and> has_activity symb s
      then (case earliest_event d symb cur hi s of
              None \<Rightarrow> (Inr (), s)
            | Some i \<Rightarrow>
                (case process_bar d symb i s of
                   (Inl e, t) \<Rightarrow> (Inl e, t)
                 | (Inr _, t) \<Rightarrow> advance_loop d symb (i + 1) hi t))
      else (Inr (), s))"
  by pat_completeness auto

termination
  by (relation "measure (\<lambda>(d, symb, cur, hi, s). hi - cur)") (auto dest: earliest_event_ge)

declare advance_loop.simps [simp del]

definition sim_advance :: "symbols \<Rightarrow> string \<Rightarrow> nat \<Rightarrow> nat \<Rightarrow> (sim, unit) se" where
  "sim_advance S symb lo hi =
     (if hi \<le> lo then ret ()
      else seq (modif (\<lambda>s. s\<lparr>sim_last_idx := dict_set symb (hi - 1) (sim_last_idx s)\<rparr>))
             (bnd (lift (symbol_of S symb)) (\<lambda>d. advance_loop d symb lo hi)))"

section \<open>The account\<close>

definition charge_position :: "symbol_data \<Rightarrow> nat \<Rightarrow> flt \<Rightarrow> open_position \<Rightarrow> flt" where
  "charge_position d nights price p =
     of_nat nights * swap_per_night (sy_costs d) (op_side p) (op_lots p) price (sy_to_account d)"

definition charge_symbol :: "symbols \<Rightarrow> nat \<Rightarrow> string \<times> open_position list \<Rightarrow> (sim, unit) se" where
  "charge_symbol S wd = (\<lambda>(symb, ps).
     bnd (lift (symbol_of S symb)) (\<lambda>d.
     bnd (gets (\<lambda>s. dict_get (sim_last_idx s) symb)) (\<lambda>last.
       case last of
         None \<Rightarrow> ret ()
       | Some i \<Rightarrow>
           when_do (ps \<noteq> []) (bnd (lift (bar_at d i)) (\<lambda>b.
             let amount = charge_position d (if wd = ic_triple_swap_weekday (sy_costs d) then 3 else 1) (mb_bid_c b)
             in modif (\<lambda>s. s\<lparr>
                  sim_positions := dict_set symb (map (\<lambda>p. p\<lparr>op_swap := op_swap p + amount p\<rparr>) ps) (sim_positions s),
                  sim_balance := sim_balance s + sum_list (map amount ps)\<rparr>))))))"

definition charge_swaps :: "symbols \<Rightarrow> nat \<Rightarrow> (sim, unit) se" where
  "charge_swaps S wd = bnd (gets sim_positions) (for_each (charge_symbol S wd))"

definition float_of :: "symbol_data \<Rightarrow> sim_bar \<Rightarrow> open_position \<Rightarrow> flt" where
  "float_of d b p =
     (if op_side p = Buy then mb_bid_c b - op_entry_price p else op_entry_price p - mb_ask_c b) *
       ic_contract_size (sy_costs d) * op_lots p * sy_to_account d"

definition float_symbol :: "symbols \<Rightarrow> sim \<Rightarrow> string \<times> open_position list \<Rightarrow> exn + flt" where
  "float_symbol S s = (\<lambda>(symb, ps).
     sbind (symbol_of S symb) (\<lambda>d.
       case dict_get (sim_last_idx s) symb of
         None \<Rightarrow> Inr 0
       | Some i \<Rightarrow> if ps = [] then Inr 0
                  else sbind (bar_at d i) (\<lambda>b. Inr (sum_list (map (float_of d b) ps)))))"

definition floating :: "symbols \<Rightarrow> sim \<Rightarrow> exn + flt" where
  "floating S s = sbind (smap (float_symbol S s) (sim_positions s)) (\<lambda>xs. Inr (sum_list xs))"

definition sim_equity :: "symbols \<Rightarrow> sim \<Rightarrow> exn + flt" where
  "sim_equity S s = sbind (floating S s) (\<lambda>f. Inr (sim_balance s + f))"

definition close_symbol :: "symbols \<Rightarrow> string \<Rightarrow> string \<Rightarrow> (sim, unit) se" where
  "close_symbol S reason symb =
     bnd (lift (symbol_of S symb)) (\<lambda>d.
     bnd (gets (\<lambda>s. dict_get (sim_last_idx s) symb)) (\<lambda>last.
       case last of
         None \<Rightarrow> ret ()
       | Some i \<Rightarrow>
           bnd (gets (\<lambda>s. listed (sim_positions s) symb)) (\<lambda>ps.
             for_each (\<lambda>p. bnd (lift (bar_at d i)) (\<lambda>b.
               close_pos d p (if op_side p = Buy then mb_bid_c b else mb_ask_c b) i reason 0)) (sort_key op_seq ps))))"

definition close_all :: "symbols \<Rightarrow> string \<Rightarrow> (sim, unit) se" where
  "close_all S reason =
     bnd (gets (\<lambda>s. sort (map fst (sim_positions s)))) (\<lambda>syms.
     seq (for_each (close_symbol S reason) syms)
         (modif (\<lambda>s. s\<lparr>sim_pending := [], sim_market := []\<rparr>)))"

end
