(* ===== verification/Engine.thy ===== *)
theory Engine
  imports Sim_Broker Events
begin

text \<open>
  The parts the backtest and the live runner share: the sizing guard of the backtest (\<open>engine/gate.py\<close>),
  the market view with its series buffers (\<open>engine/market.py\<close>), the check of what a strategy returns
  (\<open>engine/requests.py\<close>) and the part of the manifest they read (\<open>strategies_api/manifest.py\<close>). A buffer
  is the list of its rows; the spare capacity of its columns is not modelled.
\<close>

section \<open>The guard of the backtest\<close>

record gate_request =
  gq_signal :: signal
  gq_ref_entry :: flt
  gq_spread :: flt
  gq_equity :: flt
  gq_open_risk :: flt
  gq_costs :: inst_costs
  gq_to_account :: flt

text \<open>\<open>round(x, 10)\<close>.\<close>

definition round10 :: "flt \<Rightarrow> flt" where
  "round10 x = of_int (round_int HalfEven (x * 10000000000)) / 10000000000"

definition lots_for_risk :: "flt \<Rightarrow> flt \<Rightarrow> flt \<Rightarrow> flt \<Rightarrow> inst_costs \<Rightarrow> flt \<Rightarrow> exn + flt" where
  "lots_for_risk equity risk_fraction entry stop c to_account =
     (let distance = \<bar>entry - stop\<bar>
      in if distance \<le> 0 \<or> equity \<le> 0 \<or> risk_fraction \<le> 0 then Inr 0
         else sbind (fdiv (equity * risk_fraction) (distance * ic_contract_size c * to_account)) (\<lambda>raw.
              sbind (fdiv raw (ic_lot_step c)) (\<lambda>q.
                let steps = \<lfloor>q + 1 / 1000000000\<rfloor>;
                    lots = min (round10 (of_int steps * ic_lot_step c)) (ic_max_lot c)
                in Inr (if lots < ic_min_lot c then 0 else lots))))"

record guard =
  gd_risk_fraction :: flt
  gd_min_stop_spreads :: flt
  gd_open_risk_total_max :: flt
  gd_reasons_seen :: "(string, nat) dict"

definition guard_reject :: "string \<Rightarrow> (guard, flt \<times> string list) se" where
  "guard_reject why =
     seq (modif (\<lambda>g. g\<lparr>gd_reasons_seen :=
            dict_set why ((case dict_get (gd_reasons_seen g) why of None \<Rightarrow> 0 | Some n \<Rightarrow> n) + 1) (gd_reasons_seen g)\<rparr>))
         (ret (0, [why]))"

definition risk_of :: "gate_request \<Rightarrow> flt \<Rightarrow> flt" where
  "risk_of q lots =
     \<bar>gq_ref_entry q - sg_stop_price (gq_signal q)\<bar> * ic_contract_size (gq_costs q) * lots * gq_to_account q"

definition guard_decide :: "gate_request \<Rightarrow> (guard, flt \<times> string list) se" where
  "guard_decide q =
     (let g = gq_signal q
      in if sg_side g = Buy \<and> sg_stop_price g \<ge> gq_ref_entry q \<or> sg_side g = Sell \<and> sg_stop_price g \<le> gq_ref_entry q
         then guard_reject ''stop on wrong side of entry''
         else bnd (gets id) (\<lambda>cfg.
           if \<bar>gq_ref_entry q - sg_stop_price g\<bar> < gd_min_stop_spreads cfg * gq_spread q
           then guard_reject ''stop closer than 1.5 x spread''
           else bnd (lift (lots_for_risk (gq_equity q) (gd_risk_fraction cfg) (gq_ref_entry q) (sg_stop_price g)
                       (gq_costs q) (gq_to_account q))) (\<lambda>lots.
             if lots = 0 then guard_reject ''size below min lot''
             else if gq_open_risk q + risk_of q lots > gd_open_risk_total_max cfg * gq_equity q
             then guard_reject ''total open risk limit''
             else ret (lots, []))))"

section \<open>Series buffers and the market view\<close>

record full_bar = m1_bar +
  fb_ask_o :: flt
  fb_ask_h :: flt
  fb_ask_l :: flt
  fb_ask_c :: flt
  fb_volume :: flt

type_synonym series_key = "string \<times> timeframe"

record series_buffer =
  sb_rows :: "full_bar list"
  sb_visible :: nat

definition loaded :: "full_bar list \<Rightarrow> series_buffer" where
  "loaded rows = \<lparr>sb_rows = rows, sb_visible = 0\<rparr>"

definition buffer_advance_to :: "nat \<Rightarrow> series_buffer \<Rightarrow> exn + series_buffer" where
  "buffer_advance_to n b =
     (if n < sb_visible b \<or> length (sb_rows b) < n
      then Inl (ValueErr ''visibility can only move forward within loaded data'')
      else Inr (b\<lparr>sb_visible := n\<rparr>))"

definition buffer_append :: "full_bar \<Rightarrow> series_buffer \<Rightarrow> exn + series_buffer" where
  "buffer_append row b =
     (if sb_rows b \<noteq> [] \<and> mb_close_time row \<le> mb_close_time (last (sb_rows b))
      then Inl (ValueErr ''bars must be appended in close_time order'')
      else Inr \<lparr>sb_rows = sb_rows b @ [row], sb_visible = length (sb_rows b) + 1\<rparr>)"

definition buffer_last :: "int \<Rightarrow> series_buffer \<Rightarrow> exn + full_bar list" where
  "buffer_last n b =
     (if n < 0 then Inl (ValueErr ''n must be >= 0'')
      else Inr (drop (sb_visible b - nat n) (take (sb_visible b) (sb_rows b))))"

definition buffer_row :: "nat \<Rightarrow> series_buffer \<Rightarrow> exn + full_bar" where
  "buffer_row i b = (if i < sb_visible b \<and> i < length (sb_rows b) then Inr (sb_rows b ! i) else Inl IndexErr)"

type_synonym news_fn = "string \<Rightarrow> ns \<Rightarrow> flt option \<times> flt option"

definition news_from_times :: "(string, ns list) dict \<Rightarrow> news_fn" where
  "news_from_times tms symb now =
     (case dict_get tms symb of
        None \<Rightarrow> (None, None)
      | Some arr \<Rightarrow>
          if arr = [] then (None, None)
          else (let i = bisect_left arr now
                in (if i < length arr then Some (of_int (arr ! i - now) / 60000000000) else None,
                    if 0 < i then Some (of_int (now - arr ! (i - 1)) / 60000000000) else None)))"

text \<open>
  What a strategy sees when it is called: the instant, the closed bars, the spread, the news, its open
  positions and its pending entries.
\<close>

record view =
  vw_now :: ns
  vw_bars :: "string \<Rightarrow> timeframe \<Rightarrow> int \<Rightarrow> exn + full_bar list"
  vw_spread :: "string \<Rightarrow> exn + flt"
  vw_news :: "string \<Rightarrow> flt option \<times> flt option"
  vw_positions :: "string option \<Rightarrow> position_view list"
  vw_pending :: "string option \<Rightarrow> pending_view list"

definition market_bars :: "(series_key, series_buffer) dict \<Rightarrow> string \<Rightarrow> timeframe \<Rightarrow> int \<Rightarrow> exn + full_bar list" where
  "market_bars series symb tf n =
     (case dict_get series (symb, tf) of
        None \<Rightarrow> Inl (KeyErr (''not subscribed to '' @ symb))
      | Some b \<Rightarrow> buffer_last n b)"

definition set_now :: "ns \<Rightarrow> ns \<Rightarrow> exn + ns" where
  "set_now now t = (if t < now then Inl (ValueErr ''market time cannot move backwards'') else Inr t)"

section \<open>What a strategy returns\<close>

record manifest =
  mf_id :: string
  mf_version :: string
  mf_symbols :: "string list"
  mf_timeframes :: "timeframe list"
  mf_demo_only :: bool

definition check_manifest :: "manifest \<Rightarrow> bool" where
  "check_manifest m \<longleftrightarrow>
     mf_symbols m \<noteq> [] \<and> mf_timeframes m \<noteq> [] \<and> distinct (mf_symbols m) \<and> distinct (mf_timeframes m)"

datatype engine_request = NewSignal signal | Ask strategy_request

definition check_request :: "manifest \<Rightarrow> time \<Rightarrow> engine_request \<Rightarrow> (string list, unit) se" where
  "check_request m now r =
     (case r of
        Ask q \<Rightarrow> ret ()
      | NewSignal g \<Rightarrow>
          if (sg_strategy_id g, sg_strategy_version g) \<noteq> (mf_id m, mf_version m)
          then raise (StrategyErr ''signal carries another strategy's id or version'')
          else if sg_created_at g \<noteq> now
          then raise (StrategyErr ''signal created_at must equal market.now (use ctx.signal)'')
          else if sg_symbol g \<notin> set (mf_symbols m)
          then raise (StrategyErr (''signal for unsubscribed symbol '' @ sg_symbol g))
          else bnd (gets id) (\<lambda>seen.
            if sg_id g \<in> set seen then raise (StrategyErr (''duplicate signal id '' @ sg_id g))
            else modif (\<lambda>s. s @ [sg_id g])))"

definition check_requests :: "manifest \<Rightarrow> time \<Rightarrow> engine_request list \<Rightarrow> (string list, unit) se" where
  "check_requests m now rs = for_each (check_request m now) rs"

end
