(* ===== verification/Live.thy ===== *)
theory Live
  imports Engine
begin

text \<open>
  The live side of the engine: buckets of the higher time frames (\<open>core/timeframes.py\<close>), the bar builder
  (\<open>engine/live_bars.py\<close>) and the strategy runner (\<open>engine/live.py\<close>). The local time of a time zone is a
  parameter. A bar under construction (\<open>_Agg\<close>) has the fields of \<open>full_bar\<close>. The callback \<open>on_m1\<close> is a list
  of the bars it was given. No operation of the builder raises: a minute bar and a bucket close after they
  open.
\<close>

section \<open>Buckets\<close>

definition day_shift :: "int \<Rightarrow> int \<Rightarrow> span" where
  "day_shift hh mm = days 1 - minutes (60 * hh + mm)"

definition bucket_open_ns :: "(time \<Rightarrow> time) \<Rightarrow> span \<Rightarrow> ns \<Rightarrow> timeframe \<Rightarrow> ns" where
  "bucket_open_ns loc shift open_ns tf =
     (if tf = M1 then open_ns - open_ns mod ns_per_minute
      else let local_time = loc (from_ns open_ns) + shift
           in open_ns - (local_time mod minutes (tf_minutes tf)) * 1000)"

section \<open>A bar under construction\<close>

type_synonym agg = full_bar

definition agg_first :: "ns \<Rightarrow> ns \<Rightarrow> flt \<Rightarrow> flt \<Rightarrow> agg" where
  "agg_first open_ns close_ns bid ask = \<lparr>mb_open_time = open_ns, mb_close_time = close_ns, mb_bid_o = bid, mb_bid_h = bid,
     mb_bid_l = bid, mb_bid_c = bid, fb_ask_o = ask, fb_ask_h = ask, fb_ask_l = ask, fb_ask_c = ask, fb_volume = 1\<rparr>"

definition add_quote :: "flt \<Rightarrow> flt \<Rightarrow> agg \<Rightarrow> agg" where
  "add_quote bid ask a = a\<lparr>mb_bid_h := max (mb_bid_h a) bid, mb_bid_l := min (mb_bid_l a) bid, mb_bid_c := bid,
     fb_ask_h := max (fb_ask_h a) ask, fb_ask_l := min (fb_ask_l a) ask, fb_ask_c := ask, fb_volume := fb_volume a + 1\<rparr>"

definition add_bar :: "agg \<Rightarrow> agg \<Rightarrow> agg" where
  "add_bar b a = a\<lparr>mb_bid_h := max (mb_bid_h a) (mb_bid_h b), mb_bid_l := min (mb_bid_l a) (mb_bid_l b),
     mb_bid_c := mb_bid_c b, fb_ask_h := max (fb_ask_h a) (fb_ask_h b), fb_ask_l := min (fb_ask_l a) (fb_ask_l b),
     fb_ask_c := fb_ask_c b, fb_volume := fb_volume a + fb_volume b\<rparr>"

definition agg_bar :: "string \<Rightarrow> timeframe \<Rightarrow> agg \<Rightarrow> bar" where
  "agg_bar symb tf a = \<lparr>br_symbol = symb, br_timeframe = tf, br_open_time = from_ns (mb_open_time a),
     br_close_time = from_ns (mb_close_time a), br_bid_o = mb_bid_o a, br_bid_h = mb_bid_h a, br_bid_l = mb_bid_l a,
     br_bid_c = mb_bid_c a, br_ask_o = fb_ask_o a, br_ask_h = fb_ask_h a, br_ask_l = fb_ask_l a, br_ask_c = fb_ask_c a,
     br_volume = fb_volume a\<rparr>"

section \<open>The bar builder\<close>

text \<open>\<open>list(dict.fromkeys(xs))\<close>.\<close>

definition firsts :: "'a list \<Rightarrow> 'a list" where
  "firsts xs = rev (remdups (rev xs))"

record live_config =
  lc_subs :: "series_key list"                     \<comment> \<open>without duplicates\<close>
  lc_grace :: ns
  lc_local :: "time \<Rightarrow> time"
  lc_shift :: span

definition live_symbols :: "live_config \<Rightarrow> string list" where
  "live_symbols C = firsts (map fst (lc_subs C))"

definition higher :: "live_config \<Rightarrow> string \<Rightarrow> timeframe list" where
  "higher C symb = map snd (filter (\<lambda>(x, tf). x = symb \<and> tf \<noteq> M1) (lc_subs C))"

definition sub_order :: "series_key list \<Rightarrow> series_key \<Rightarrow> nat" where
  "sub_order subs k = length (takeWhile (\<lambda>x. x \<noteq> k) subs)"

record closed_bar =
  cb_at :: time
  cb_symbol :: string
  cb_timeframe :: timeframe
  cb_bar :: bar

type_synonym live_event = "(ns \<times> nat) \<times> closed_bar"

record builder =
  lb_building :: "(string, agg) dict"
  lb_done :: "(string, agg list) dict"
  lb_htf :: "(series_key, agg) dict"
  lb_until :: "(string, ns) dict"
  lb_late :: nat
  lb_next_due :: ns
  lb_m1 :: "bar list"

definition never :: ns where "never = 4611686018427387904"      \<comment> \<open>\<open>1 << 62\<close>\<close>

definition builder_init :: "live_config \<Rightarrow> builder" where
  "builder_init C = \<lparr>lb_building = [], lb_done = map (\<lambda>s. (s, [])) (live_symbols C), lb_htf = [],
     lb_until = map (\<lambda>s. (s, 0)) (live_symbols C), lb_late = 0, lb_next_due = never, lb_m1 = []\<rparr>"

definition event_of :: "live_config \<Rightarrow> string \<Rightarrow> timeframe \<Rightarrow> agg \<Rightarrow> live_event" where
  "event_of C symb tf a =
     (let b = agg_bar symb tf a
      in ((mb_close_time a, sub_order (lc_subs C) (symb, tf)),
          \<lparr>cb_at = br_close_time b, cb_symbol = symb, cb_timeframe = tf, cb_bar = b\<rparr>))"

definition open_bucket :: "live_config \<Rightarrow> timeframe \<Rightarrow> ns \<Rightarrow> agg \<Rightarrow> agg" where
  "open_bucket C tf start b = b\<lparr>mb_open_time := start, mb_close_time := start + tf_minutes tf * ns_per_minute\<rparr>"

definition add_to_bucket ::
  "live_config \<Rightarrow> string \<Rightarrow> agg \<Rightarrow> timeframe \<Rightarrow> builder \<times> live_event list \<Rightarrow> builder \<times> live_event list" where
  "add_to_bucket C symb b tf = (\<lambda>(st, evs).
     let start = bucket_open_ns (lc_local C) (lc_shift C) (mb_open_time b) tf;
         k = (symb, tf);
         put = (\<lambda>a. st\<lparr>lb_htf := dict_set k a (lb_htf st)\<rparr>)
     in case dict_get (lb_htf st) k of
          None \<Rightarrow> (put (open_bucket C tf start b), evs)
        | Some a \<Rightarrow>
            if mb_open_time a \<le> mb_open_time b \<and> mb_open_time b < mb_close_time a then (put (add_bar b a), evs)
            else if mb_open_time a \<noteq> start then (put (open_bucket C tf start b), evs @ [event_of C symb tf a])
            else (put (add_bar b a), evs))"

definition emit_m1 :: "live_config \<Rightarrow> string \<Rightarrow> builder \<times> live_event list \<Rightarrow> agg \<Rightarrow> builder \<times> live_event list" where
  "emit_m1 C symb = (\<lambda>(st, evs) b.
     let st = st\<lparr>lb_until := dict_set symb (mb_close_time b) (lb_until st), lb_m1 := lb_m1 st @ [agg_bar symb M1 b]\<rparr>;
         evs = (if (symb, M1) \<in> set (lc_subs C) then evs @ [event_of C symb M1 b] else evs)
     in fold (add_to_bucket C symb b) (higher C symb) (st, evs))"

definition close_bucket ::
  "live_config \<Rightarrow> ns \<Rightarrow> string \<Rightarrow> timeframe \<Rightarrow> builder \<times> live_event list \<Rightarrow> builder \<times> live_event list" where
  "close_bucket C cutoff symb tf = (\<lambda>(st, evs).
     case dict_get (lb_htf st) (symb, tf) of
       None \<Rightarrow> (st, evs)
     | Some a \<Rightarrow>
         if mb_close_time a \<le> cutoff
         then (st\<lparr>lb_htf := dict_del (symb, tf) (lb_htf st)\<rparr>, evs @ [event_of C symb tf a])
         else (st, evs))"

text \<open>The bar being built moves to the finished ones when it is due.\<close>

definition finish_building :: "ns \<Rightarrow> string \<Rightarrow> builder \<Rightarrow> builder" where
  "finish_building cutoff symb st =
     (case dict_get (lb_building st) symb of
        None \<Rightarrow> st
      | Some a \<Rightarrow>
          if mb_close_time a \<le> cutoff
          then st\<lparr>lb_done := put_last symb a (lb_done st), lb_building := dict_del symb (lb_building st)\<rparr>
          else st)"

definition close_symbol_bars ::
  "live_config \<Rightarrow> ns \<Rightarrow> string \<Rightarrow> builder \<times> live_event list \<Rightarrow> builder \<times> live_event list" where
  "close_symbol_bars C cutoff symb = (\<lambda>(st, evs).
     let st = finish_building cutoff symb st;
         waiting = listed (lb_done st) symb;
         due = filter (\<lambda>b. mb_close_time b \<le> cutoff) waiting;
         st = st\<lparr>lb_done := dict_set symb (filter (\<lambda>b. cutoff < mb_close_time b) waiting) (lb_done st)\<rparr>
     in fold (close_bucket C cutoff symb) (higher C symb) (foldl (emit_m1 C symb) (st, evs) due))"

definition waiting_closes :: "builder \<Rightarrow> ns list" where
  "waiting_closes st =
     map mb_close_time (map snd (lb_building st) @ concat (map snd (lb_done st)) @ map snd (lb_htf st))"

definition on_time_ns :: "live_config \<Rightarrow> ns \<Rightarrow> builder \<Rightarrow> closed_bar list \<times> builder" where
  "on_time_ns C now st =
     (let cutoff = now - lc_grace C
      in if cutoff < lb_next_due st then ([], st)
         else case fold (close_symbol_bars C cutoff) (live_symbols C) (st, []) of
                (st, evs) \<Rightarrow>
                  (map snd (sort_key fst evs),
                   st\<lparr>lb_next_due := (case waiting_closes st of [] \<Rightarrow> never | x # xs \<Rightarrow> foldl min x xs)\<rparr>))"

definition builder_on_time :: "live_config \<Rightarrow> time \<Rightarrow> builder \<Rightarrow> closed_bar list \<times> builder" where
  "builder_on_time C now = on_time_ns C (to_ns now)"

definition take_quote :: "quote \<Rightarrow> ns \<Rightarrow> builder \<Rightarrow> builder" where
  "take_quote q minute st =
     (let symb = qt_symbol q; bid = qt_bid q; ask = qt_ask q;
          begin_bar = (\<lambda>st. st\<lparr>lb_building := dict_set symb (agg_first minute (minute + ns_per_minute) bid ask) (lb_building st),
                          lb_next_due := min (lb_next_due st) (minute + ns_per_minute)\<rparr>)
      in case dict_get (lb_building st) symb of
           None \<Rightarrow> begin_bar st
         | Some a \<Rightarrow>
             if mb_open_time a = minute
             then st\<lparr>lb_building := dict_set symb (add_quote bid ask a) (lb_building st)\<rparr>
             else if minute < mb_open_time a then st\<lparr>lb_late := lb_late st + 1\<rparr>
             else begin_bar (st\<lparr>lb_done := put_last symb a (lb_done st)\<rparr>))"

definition builder_on_quote :: "live_config \<Rightarrow> quote \<Rightarrow> builder \<Rightarrow> closed_bar list \<times> builder" where
  "builder_on_quote C q st =
     (if qt_symbol q \<notin> dict_keys (lb_done st) then builder_on_time C (qt_time q) st
      else case on_time_ns C (to_ns (qt_time q)) st of
             (out, st) \<Rightarrow>
               let t = to_ns (qt_time q); minute = t - t mod ns_per_minute;
                   until = (case dict_get (lb_until st) (qt_symbol q) of None \<Rightarrow> 0 | Some u \<Rightarrow> u)
               in (out, if minute + ns_per_minute \<le> until then st\<lparr>lb_late := lb_late st + 1\<rparr> else take_quote q minute st))"

section \<open>The strategy runner\<close>

text \<open>What the runner gets from its surroundings: prices, news, positions and pending entries.\<close>

record surroundings =
  sr_spread :: "string \<Rightarrow> ns \<Rightarrow> exn + flt"
  sr_news :: "string \<Rightarrow> ns \<Rightarrow> flt option \<times> flt option"
  sr_positions :: "string option \<Rightarrow> position_view list"
  sr_pending :: "string option \<Rightarrow> pending_view list"

text \<open>A strategy: its state (with its parameters, generator and counter) is a value of its own type.\<close>

record 's live_strategy =
  ls_manifest :: manifest
  ls_warmup :: "(series_key, int) dict"
  ls_on_bar :: "'s \<Rightarrow> view \<Rightarrow> closed_bar \<Rightarrow> (exn + engine_request list) \<times> 's"
  ls_on_fill :: "'s \<Rightarrow> view \<Rightarrow> fill_view \<Rightarrow> (exn + engine_request list) \<times> 's"

record 's runner =
  lr_series :: "(series_key, series_buffer) dict"
  lr_now :: ns
  lr_seen :: "string list"
  lr_strategy :: 's

definition runner_subs :: "manifest \<Rightarrow> series_key list" where
  "runner_subs m = concat (map (\<lambda>symb. map (Pair symb) (sort_key tf_minutes (mf_timeframes m))) (mf_symbols m))"

definition row_of :: "bar \<Rightarrow> full_bar" where
  "row_of b = \<lparr>mb_open_time = to_ns (br_open_time b), mb_close_time = to_ns (br_close_time b), mb_bid_o = br_bid_o b,
     mb_bid_h = br_bid_h b, mb_bid_l = br_bid_l b, mb_bid_c = br_bid_c b, fb_ask_o = br_ask_o b, fb_ask_h = br_ask_h b,
     fb_ask_l = br_ask_l b, fb_ask_c = br_ask_c b, fb_volume = br_volume b\<rparr>"

definition with_series :: "series_key \<Rightarrow> (series_buffer \<Rightarrow> exn + series_buffer) \<Rightarrow> ('s runner, unit) se" where
  "with_series k f =
     bnd (gets (\<lambda>r. dict_get (lr_series r) k)) (\<lambda>b. case b of
       None \<Rightarrow> raise (KeyErr (fst k))
     | Some b \<Rightarrow> bnd (lift (f b)) (\<lambda>b. modif (\<lambda>r. r\<lparr>lr_series := dict_set k b (lr_series r)\<rparr>)))"

definition runner_set_now :: "ns \<Rightarrow> ('s runner, unit) se" where
  "runner_set_now t = bnd (gets lr_now) (\<lambda>n. bnd (lift (set_now n t)) (\<lambda>n. modif (\<lambda>r. r\<lparr>lr_now := n\<rparr>)))"

text \<open>The history of one subscription, loaded when the runner is built.\<close>

definition load_series :: "(series_key, full_bar list) dict \<Rightarrow> series_key \<Rightarrow> ('s runner, unit) se" where
  "load_series history k =
     seq (modif (\<lambda>r. r\<lparr>lr_series := dict_set k (loaded []) (lr_series r)\<rparr>))
       (case dict_get history k of
          None \<Rightarrow> ret ()
        | Some rows \<Rightarrow>
            seq (for_each (\<lambda>row. with_series k (buffer_append row)) rows)
              (if rows = [] then ret () else runner_set_now (mb_close_time (last rows))))"

definition runner_init :: "'s live_strategy \<Rightarrow> 's \<Rightarrow> (series_key, full_bar list) dict \<Rightarrow> exn + 's runner" where
  "runner_init L st history =
     (case for_each (load_series history) (runner_subs (ls_manifest L))
             \<lparr>lr_series = [], lr_now = 0, lr_seen = [], lr_strategy = st\<rparr> of
        (Inl e, r) \<Rightarrow> Inl e
      | (Inr _, r) \<Rightarrow> Inr r)"

definition runner_view :: "surroundings \<Rightarrow> 's runner \<Rightarrow> view" where
  "runner_view R r = \<lparr>vw_now = lr_now r, vw_bars = market_bars (lr_series r),
     vw_spread = (\<lambda>symb. sr_spread R symb (lr_now r)), vw_news = (\<lambda>symb. sr_news R symb (lr_now r)),
     vw_positions = sr_positions R, vw_pending = sr_pending R\<rparr>"

fun runner_warmed :: "'s runner \<Rightarrow> (series_key \<times> int) list \<Rightarrow> exn + bool" where
  "runner_warmed r [] = Inr True"
| "runner_warmed r ((k, n) # ws) =
     (case dict_get (lr_series r) k of
        None \<Rightarrow> Inl (KeyErr (fst k))
      | Some b \<Rightarrow> if n \<le> int (sb_visible b) then runner_warmed r ws else Inr False)"

text \<open>One call of the strategy with the check of what it returns.\<close>

definition call_strategy ::
  "'s live_strategy \<Rightarrow> surroundings \<Rightarrow> ('s \<Rightarrow> view \<Rightarrow> (exn + engine_request list) \<times> 's) \<Rightarrow>
    ('s runner, engine_request list) se" where
  "call_strategy L R f =
     bnd (\<lambda>r. case f (lr_strategy r) (runner_view R r) of (x, st) \<Rightarrow> (x, r\<lparr>lr_strategy := st\<rparr>)) (\<lambda>rs.
     bnd (gets lr_now) (\<lambda>now.
     seq (\<lambda>r. case check_requests (ls_manifest L) (from_ns now) rs (lr_seen r) of (x, seen) \<Rightarrow> (x, r\<lparr>lr_seen := seen\<rparr>))
       (ret rs)))"

text \<open>\<open>groupby\<close>: maximal runs of events with the same instant.\<close>

fun same_instant :: "closed_bar list \<Rightarrow> closed_bar list list" where
  "same_instant [] = []"
| "same_instant (e # es) =
     (case same_instant es of
        [] \<Rightarrow> [[e]]
      | g # gs \<Rightarrow> if to_ns (cb_at (hd g)) = to_ns (cb_at e) then (e # g) # gs else [e] # g # gs)"

definition apply_group ::
  "'s live_strategy \<Rightarrow> surroundings \<Rightarrow> closed_bar list \<Rightarrow> engine_request list \<Rightarrow> ('s runner, engine_request list) se" where
  "apply_group L R g out =
     seq (for_each (\<lambda>e. with_series (cb_symbol e, cb_timeframe e) (buffer_append (row_of (cb_bar e)))) g)
     (seq (runner_set_now (to_ns (cb_at (hd g))))
     (bnd (gets (\<lambda>r. runner_warmed r (ls_warmup L))) (\<lambda>w. bnd (lift w) (\<lambda>ok.
        if ok then fold_each (\<lambda>e out. bnd (call_strategy L R (\<lambda>st v. ls_on_bar L st v e)) (\<lambda>rs. ret (out @ rs))) g out
        else ret out))))"

definition mine :: "manifest \<Rightarrow> closed_bar list \<Rightarrow> closed_bar list" where
  "mine m events = sort_key (\<lambda>e. (to_ns (cb_at e), sub_order (runner_subs m) (cb_symbol e, cb_timeframe e)))
     (filter (\<lambda>e. (cb_symbol e, cb_timeframe e) \<in> set (runner_subs m)) events)"

definition on_bars :: "'s live_strategy \<Rightarrow> surroundings \<Rightarrow> closed_bar list \<Rightarrow> ('s runner, engine_request list) se" where
  "on_bars L R events = fold_each (apply_group L R) (same_instant (mine (ls_manifest L) events)) []"

definition runner_on_fill :: "'s live_strategy \<Rightarrow> surroundings \<Rightarrow> fill_view \<Rightarrow> ('s runner, engine_request list) se" where
  "runner_on_fill L R f = call_strategy L R (\<lambda>st v. ls_on_fill L st v f)"

end
