(* ===== verification/Shadow.thy ===== *)
theory Shadow
  imports Live
begin

text \<open>
  Shadow trading (\<open>engine/shadow.py\<close>): the rules of the simulated broker on live quotes, and the session that
  takes a strategy from quotes to trades. The callbacks \<open>on_signal\<close> and \<open>on_trade\<close> are one list of what they
  were given, in order. The task that feeds the quotes and the ticker is asynchronous and not modelled.
\<close>

section \<open>The shadow broker\<close>

record shadow_pending =
  sp_signal :: signal
  sp_lots :: flt
  sp_expires_ns :: "ns option"

record shadow_position =
  so_signal :: signal
  so_lots :: flt
  so_entry :: flt
  so_entry_ns :: ns
  so_stop :: flt
  so_target :: "flt option"
  so_money_at_risk :: flt
  so_commission :: flt
  so_spread_cost :: flt
  so_worst :: flt
  so_best :: flt
  so_swap :: flt
  so_entry_quote_ns :: ns
  so_close_requested :: bool

record shadow_config =
  sf_instruments :: "(string, inst_costs) dict"
  sf_rates :: static_rates
  sf_account_ccy :: string
  sf_nominal_equity :: flt
  sf_risk_fraction :: flt
  sf_min_stop_spreads :: flt

record shadow =
  sb_quotes :: "(string, quote) dict"
  sb_pending :: "(string, shadow_pending) dict"
  sb_positions :: "(string, shadow_position) dict"
  sb_trades :: "sim_trade list"
  sb_rejections :: "rejection list"

definition shadow_fresh :: shadow where
  "shadow_fresh = \<lparr>sb_quotes = [], sb_pending = [], sb_positions = [], sb_trades = [], sb_rejections = []\<rparr>"

definition inst_of :: "shadow_config \<Rightarrow> string \<Rightarrow> exn + inst_costs" where
  "inst_of F symb = (case dict_get (sf_instruments F) symb of None \<Rightarrow> Inl (KeyErr symb) | Some c \<Rightarrow> Inr c)"

definition shadow_fx :: "shadow_config \<Rightarrow> string \<Rightarrow> exn + flt" where
  "shadow_fx F symb = sbind (inst_of F symb) (\<lambda>c. static_rate (sf_rates F) (ic_quote c) (sf_account_ccy F))"

definition shadow_reject :: "ns \<Rightarrow> string \<Rightarrow> string \<Rightarrow> string \<Rightarrow> (shadow, unit) se" where
  "shadow_reject now what arg reason = modif (\<lambda>b. b\<lparr>sb_rejections :=
     sb_rejections b @ [\<lparr>rj_time_ns = now, rj_what = (what, [AStr arg]), rj_reason = reason\<rparr>]\<rparr>)"

subsection \<open>Requests\<close>

definition expiry_of :: "signal \<Rightarrow> timeframe \<Rightarrow> ns \<Rightarrow> ns option" where
  "expiry_of s tf now =
     (case sg_expiry_bars s of
        None \<Rightarrow> None
      | Some n \<Rightarrow> if sg_entry_type s = MarketEntry \<or> n = 0 then None else Some (now + to_ns (minutes (n * tf_minutes tf))))"

definition shadow_submit :: "shadow_config \<Rightarrow> signal \<Rightarrow> timeframe \<Rightarrow> (shadow, unit) se" where
  "shadow_submit F s tf =
     (let now = to_ns (sg_created_at s)
      in bnd (gets (\<lambda>b. dict_get (sb_quotes b) (sg_symbol s))) (\<lambda>q. case q of
           None \<Rightarrow> shadow_reject now ''signal {}'' (sg_id s) ''no price yet''
         | Some q \<Rightarrow>
             let bid = qt_bid q; ask = qt_ask q;
                 ref = (if sg_entry_type s = MarketEntry then (if sg_side s = Buy then ask else bid) else dec_or (sg_entry_price s) 0);
                 wrong = (sg_side s = Buy \<and> sg_stop_price s \<ge> ref \<or> sg_side s = Sell \<and> sg_stop_price s \<le> ref)
             in if wrong \<or> \<bar>ref - sg_stop_price s\<bar> < sf_min_stop_spreads F * (ask - bid)
                then shadow_reject now ''signal {}'' (sg_id s) ''stop invalid or too close''
                else bnd (lift (inst_of F (sg_symbol s))) (\<lambda>c.
                     bnd (lift (shadow_fx F (sg_symbol s))) (\<lambda>fx.
                     bnd (lift (lots_for_risk (sf_nominal_equity F) (sf_risk_fraction F) ref (sg_stop_price s) c fx)) (\<lambda>lots.
                       if lots \<le> 0 then shadow_reject now ''signal {}'' (sg_id s) ''size below min lot''
                       else modif (\<lambda>b. b\<lparr>sb_pending := dict_set (sg_id s)
                              \<lparr>sp_signal = s, sp_lots = lots, sp_expires_ns = expiry_of s tf now\<rparr> (sb_pending b)\<rparr>))))))"

definition upd_position :: "string \<Rightarrow> (shadow_position \<Rightarrow> shadow_position) \<Rightarrow> shadow \<Rightarrow> shadow" where
  "upd_position pid f b = b\<lparr>sb_positions := dict_upd pid f (sb_positions b)\<rparr>"

definition tighter :: "shadow_position \<Rightarrow> flt \<Rightarrow> bool" where
  "tighter p x \<longleftrightarrow> (if sg_side (so_signal p) = Buy then so_stop p < x else x < so_stop p)"

definition shadow_handle :: "shadow_config \<Rightarrow> timeframe \<Rightarrow> engine_request \<Rightarrow> (shadow, unit) se" where
  "shadow_handle F tf r =
     (case r of
        NewSignal s \<Rightarrow> shadow_submit F s tf
      | Ask (CancelRequest sid ver gid why) \<Rightarrow> modif (\<lambda>b. b\<lparr>sb_pending := dict_del gid (sb_pending b)\<rparr>)
      | Ask (CloseRequest sid ver pid why) \<Rightarrow> modif (upd_position pid (\<lambda>p.
          if sg_strategy_id (so_signal p) = sid then p\<lparr>so_close_requested := True\<rparr> else p))
      | Ask (ModifyStopRequest sid ver pid stop why) \<Rightarrow> modif (upd_position pid (\<lambda>p.
          if sg_strategy_id (so_signal p) = sid \<and> tighter p stop then p\<lparr>so_stop := stop\<rparr> else p)))"

subsection \<open>Quotes\<close>

definition shadow_open :: "shadow_config \<Rightarrow> shadow_pending \<Rightarrow> flt \<Rightarrow> ns \<Rightarrow> flt \<Rightarrow> (shadow, fill_view list) se" where
  "shadow_open F od px t spread =
     (let s = sp_signal od; lots = sp_lots od
      in bnd (lift (inst_of F (sg_symbol s))) (\<lambda>c.
         if beyond_stop s px
         then seq (shadow_reject t ''entry {}'' (sg_id s) ''fill price beyond stop'') (ret [])
         else bnd (lift (shadow_fx F (sg_symbol s))) (\<lambda>fx.
           seq (modif (\<lambda>b. b\<lparr>sb_positions := dict_set (sg_id s)
                 \<lparr>so_signal = s, so_lots = lots, so_entry = px, so_entry_ns = t, so_stop = sg_stop_price s,
                  so_target = sg_target_price s,
                  so_money_at_risk = \<bar>px - sg_stop_price s\<bar> * ic_contract_size c * lots * fx,
                  so_commission = ic_commission_per_lot_side c * lots,
                  so_spread_cost = (if sg_side s = Buy then spread * ic_contract_size c * lots * fx else 0),
                  so_worst = px, so_best = px, so_swap = 0, so_entry_quote_ns = t, so_close_requested = False\<rparr>
                 (sb_positions b)\<rparr>))
             (ret [\<lparr>fv_signal_id = sg_id s, fv_position_id = sg_id s, fv_symbol = sg_symbol s, fv_side = sg_side s,
                    fv_kind = EntryFill, fv_price = px, fv_lots = lots, fv_time = from_ns t, fv_exit_reason = None\<rparr>]))))"

definition sign_of :: "side \<Rightarrow> flt" where
  "sign_of sd = (if sd = Buy then 1 else -1)"

definition shadow_trade ::
  "inst_costs \<Rightarrow> flt \<Rightarrow> string \<Rightarrow> shadow_position \<Rightarrow> flt \<Rightarrow> ns \<Rightarrow> string \<Rightarrow> flt \<Rightarrow> exn + sim_trade" where
  "shadow_trade c fx pid p px t reason spread =
     (let s = so_signal p; sign = sign_of (sg_side s);
          gross = sign * (px - so_entry p) * ic_contract_size c * so_lots p * fx;
          commission = so_commission p + ic_commission_per_lot_side c * so_lots p;
          net = gross - commission + so_swap p;
          rpu = \<bar>so_entry p - sg_stop_price s\<bar>
      in sbind (fdiv net (so_money_at_risk p)) (\<lambda>r_multiple.
         sbind (fdiv (sign * (so_entry p - so_worst p)) rpu) (\<lambda>mae.
         sbind (fdiv (sign * (so_best p - so_entry p)) rpu) (\<lambda>mfe.
           Inr \<lparr>si_trade_id = pid, si_signal_id = pid, si_strategy_id = sg_strategy_id s,
                si_strategy_version = sg_strategy_version s, si_symbol = sg_symbol s, si_side = sg_side s,
                si_lots = so_lots p, si_entry_time_ns = so_entry_ns p, si_entry_price = so_entry p,
                si_stop_price = sg_stop_price s, si_exit_time_ns = t, si_exit_price = px, si_exit_reason = reason,
                si_pnl_gross = gross, si_commission = commission, si_swap = so_swap p,
                si_spread_cost = so_spread_cost p + (if sg_side s = Sell then spread * ic_contract_size c * so_lots p * fx else 0),
                si_slippage_cost = 0, si_pnl_net = net, si_money_at_risk = so_money_at_risk p,
                si_r_multiple = r_multiple, si_mae_r = max 0 mae, si_mfe_r = max 0 mfe,
                si_bars_held = nat (max 1 ((t - so_entry_ns p) div ns_per_minute)), si_tags = sort (sg_tags s)\<rparr>))))"

definition shadow_close ::
  "shadow_config \<Rightarrow> string \<Rightarrow> shadow_position \<Rightarrow> flt \<Rightarrow> ns \<Rightarrow> string \<Rightarrow> flt \<Rightarrow> (shadow, fill_view list) se" where
  "shadow_close F pid p px t reason spread =
     (let s = so_signal p
      in seq (modif (\<lambda>b. b\<lparr>sb_positions := dict_del pid (sb_positions b)\<rparr>))
         (bnd (lift (inst_of F (sg_symbol s))) (\<lambda>c.
          bnd (lift (shadow_fx F (sg_symbol s))) (\<lambda>fx.
          bnd (lift (shadow_trade c fx pid p px t reason spread)) (\<lambda>x.
          seq (modif (\<lambda>b. b\<lparr>sb_trades := sb_trades b @ [x]\<rparr>))
            (ret [\<lparr>fv_signal_id = pid, fv_position_id = pid, fv_symbol = sg_symbol s, fv_side = sg_side s,
                   fv_kind = ExitFill, fv_price = px, fv_lots = so_lots p, fv_time = from_ns t,
                   fv_exit_reason = Some reason\<rparr>]))))))"

definition entry_price_of :: "flt \<Rightarrow> signal \<Rightarrow> flt \<Rightarrow> flt \<Rightarrow> flt option" where
  "entry_price_of tick s bid ask =
     (let level = dec_or (sg_entry_price s) 0
      in case sg_entry_type s of
           MarketEntry \<Rightarrow> Some (if sg_side s = Buy then ask else bid)
         | LimitEntry \<Rightarrow>
             if sg_side s = Buy \<and> ask \<le> level - tick \<or> sg_side s = Sell \<and> bid \<ge> level + tick then Some level else None
         | StopEntry \<Rightarrow>
             if sg_side s = Buy \<and> ask \<ge> level then Some ask
             else if sg_side s = Sell \<and> bid \<le> level then Some bid else None)"

definition try_entry ::
  "shadow_config \<Rightarrow> quote \<Rightarrow> flt \<Rightarrow> string \<times> shadow_pending \<Rightarrow> fill_view list \<Rightarrow> (shadow, fill_view list) se" where
  "try_entry F q tick = (\<lambda>(sid, od) fills.
     let s = sp_signal od; t = to_ns (qt_time q); drop_it = modif (\<lambda>b. b\<lparr>sb_pending := dict_del sid (sb_pending b)\<rparr>)
     in if sg_symbol s \<noteq> qt_symbol q \<or> t \<le> to_ns (sg_created_at s) then ret fills
        else if (case sp_expires_ns od of None \<Rightarrow> False | Some e \<Rightarrow> e \<le> t) then seq drop_it (ret fills)
        else case entry_price_of tick s (qt_bid q) (qt_ask q) of
               None \<Rightarrow> ret fills
             | Some px \<Rightarrow>
                 seq drop_it (bnd (shadow_open F od px t (qt_ask q - qt_bid q)) (\<lambda>fs. ret (fills @ fs))))"

definition marked :: "flt \<Rightarrow> shadow_position \<Rightarrow> shadow_position" where
  "marked mark p =
     (if sg_side (so_signal p) = Buy
      then p\<lparr>so_worst := min (so_worst p) mark, so_best := max (so_best p) mark\<rparr>
      else p\<lparr>so_worst := max (so_worst p) mark, so_best := min (so_best p) mark\<rparr>)"

text \<open>The exit of a position on a quote: its reason and price.\<close>

definition exit_of :: "shadow_position \<Rightarrow> flt \<Rightarrow> flt \<Rightarrow> (string \<times> flt) option" where
  "exit_of p bid ask =
     (let buy = sg_side (so_signal p) = Buy; mark = (if buy then bid else ask)
      in if so_close_requested p then Some (close_request, mark)
         else if buy \<and> bid \<le> so_stop p \<or> \<not> buy \<and> ask \<ge> so_stop p then Some (''stop'', mark)
         else case so_target p of
                None \<Rightarrow> None
              | Some x \<Rightarrow> if buy \<and> bid \<ge> x \<or> \<not> buy \<and> ask \<le> x then Some (''target'', x) else None)"

definition try_exit ::
  "shadow_config \<Rightarrow> quote \<Rightarrow> string \<times> shadow_position \<Rightarrow> fill_view list \<Rightarrow> (shadow, fill_view list) se" where
  "try_exit F q = (\<lambda>(pid, p) fills.
     let t = to_ns (qt_time q); bid = qt_bid q; ask = qt_ask q;
         p' = marked (if sg_side (so_signal p) = Buy then bid else ask) p
     in if sg_symbol (so_signal p) \<noteq> qt_symbol q \<or> t \<le> so_entry_quote_ns p then ret fills
        else seq (modif (\<lambda>b. b\<lparr>sb_positions := dict_set pid p' (sb_positions b)\<rparr>))
               (case exit_of p bid ask of
                  None \<Rightarrow> ret fills
                | Some (reason, px) \<Rightarrow> bnd (shadow_close F pid p' px t reason (ask - bid)) (\<lambda>fs. ret (fills @ fs))))"

definition shadow_quote :: "shadow_config \<Rightarrow> quote \<Rightarrow> (shadow, fill_view list) se" where
  "shadow_quote F q =
     seq (modif (\<lambda>b. b\<lparr>sb_quotes := dict_set (qt_symbol q) q (sb_quotes b)\<rparr>))
     (bnd (lift (inst_of F (qt_symbol q))) (\<lambda>c.
      bnd (gets sb_pending) (\<lambda>ps.
      bnd (fold_each (try_entry F q (ic_tick_size c)) ps []) (\<lambda>fills.
      bnd (gets sb_positions) (\<lambda>os. fold_each (try_exit F q) os fills)))))"

definition shadow_swap :: "shadow_config \<Rightarrow> nat \<Rightarrow> string \<times> shadow_position \<Rightarrow> (shadow, unit) se" where
  "shadow_swap F wd = (\<lambda>(pid, p).
     let s = so_signal p
     in bnd (lift (inst_of F (sg_symbol s))) (\<lambda>c.
        bnd (gets (\<lambda>b. dict_get (sb_quotes b) (sg_symbol s))) (\<lambda>q. case q of
          None \<Rightarrow> raise (KeyErr (sg_symbol s))
        | Some q \<Rightarrow>
            bnd (lift (shadow_fx F (sg_symbol s))) (\<lambda>fx.
              modif (upd_position pid (\<lambda>p. p\<lparr>so_swap := so_swap p +
                (if wd = ic_triple_swap_weekday c then 3 else 1) * swap_per_night c (sg_side s) (so_lots p) (qt_bid q) fx\<rparr>))))))"

definition shadow_swaps :: "shadow_config \<Rightarrow> nat \<Rightarrow> (shadow, unit) se" where
  "shadow_swaps F wd = bnd (gets sb_positions) (for_each (shadow_swap F wd))"

subsection \<open>What the strategy sees\<close>

definition shadow_position_views :: "string \<Rightarrow> shadow \<Rightarrow> string option \<Rightarrow> position_view list" where
  "shadow_position_views sid b symbol =
     map (\<lambda>(pid, p). \<lparr>pv_position_id = pid, pv_signal_id = pid, pv_symbol = sg_symbol (so_signal p),
            pv_side = sg_side (so_signal p), pv_lots = so_lots p, pv_entry_price = so_entry p, pv_stop_price = so_stop p,
            pv_target_price = so_target p, pv_opened_at = from_ns (so_entry_ns p)\<rparr>)
       (filter (\<lambda>(pid, p). sg_strategy_id (so_signal p) = sid \<and> (symbol = None \<or> symbol = Some (sg_symbol (so_signal p))))
          (sb_positions b))"

definition shadow_pending_views :: "string \<Rightarrow> shadow \<Rightarrow> string option \<Rightarrow> pending_view list" where
  "shadow_pending_views sid b symbol =
     map (\<lambda>(gid, od). let s = sp_signal od in
            \<lparr>qv_signal_id = gid, qv_symbol = sg_symbol s, qv_side = sg_side s, qv_entry_type = sg_entry_type s,
             qv_entry_price = sg_entry_price s, qv_stop_price = sg_stop_price s, qv_target_price = sg_target_price s,
             qv_created_at = sg_created_at s\<rparr>)
       (filter (\<lambda>(gid, od). sg_strategy_id (sp_signal od) = sid \<and> (symbol = None \<or> symbol = Some (sg_symbol (sp_signal od))))
          (sb_pending b))"

section \<open>A shadow session\<close>

definition round8 :: "flt \<Rightarrow> dec" where
  "round8 x = of_int (round_int HalfEven (x * 100000000)) / 100000000"

definition to_trade :: "string \<Rightarrow> sim_trade \<Rightarrow> trade_record" where
  "to_trade account_id x = \<lparr>tr_trade_id = si_trade_id x, tr_account_id = account_id, tr_tenant_id = ''default'',
     tr_strategy_id = si_strategy_id x, tr_strategy_version = si_strategy_version x, tr_symbol = si_symbol x,
     tr_side = si_side x, tr_lots = round8 (si_lots x), tr_entry_time = from_ns (si_entry_time_ns x),
     tr_entry_price = round8 (si_entry_price x), tr_stop_price = round8 (si_stop_price x),
     tr_exit_time = from_ns (si_exit_time_ns x), tr_exit_price = round8 (si_exit_price x),
     tr_pnl_gross = round8 (si_pnl_gross x), tr_costs = round8 (si_commission x - si_swap x + si_slippage_cost x),
     tr_pnl_net = round8 (si_pnl_net x), tr_money_at_risk = round8 (si_money_at_risk x),
     tr_r_multiple = si_r_multiple x, tr_mae = si_mae_r x, tr_mfe = si_mfe_r x\<rparr>"

text \<open>What the callbacks of a session were given, in order.\<close>

datatype shadow_report = ShadowSignal signal | ShadowTrade trade_record

record 's session_env =
  se_strategy :: "'s live_strategy"
  se_broker :: shadow_config
  se_builder :: live_config
  se_zone :: zone

record 's session =
  ss_broker :: shadow
  ss_runner :: "'s runner"
  ss_builder :: builder
  ss_signals :: "signal list"
  ss_last_ns :: "ns option"
  ss_n_trades :: nat
  ss_reports :: "shadow_report list"

text \<open>The instruments of the session's broker are those of its symbols; a missing one raises.\<close>

definition session_init :: "'s session_env \<Rightarrow> 's \<Rightarrow> exn + 's session" where
  "session_init N st =
     sbind (smap (inst_of (se_broker N)) (mf_symbols (ls_manifest (se_strategy N)))) (\<lambda>cs.
     sbind (runner_init (se_strategy N) st []) (\<lambda>r.
       Inr \<lparr>ss_broker = shadow_fresh, ss_runner = r, ss_builder = builder_init (se_builder N), ss_signals = [],
            ss_last_ns = None, ss_n_trades = 0, ss_reports = []\<rparr>))"

definition session_tf :: "'s session_env \<Rightarrow> timeframe" where
  "session_tf N = hd (sort_key tf_minutes (mf_timeframes (ls_manifest (se_strategy N))))"

definition on_broker :: "(shadow, 'a) se \<Rightarrow> ('s session, 'a) se" where
  "on_broker m = (\<lambda>s. case m (ss_broker s) of (x, b) \<Rightarrow> (x, s\<lparr>ss_broker := b\<rparr>))"

definition on_runner :: "('s runner, 'a) se \<Rightarrow> ('s session, 'a) se" where
  "on_runner m = (\<lambda>s. case m (ss_runner s) of (x, r) \<Rightarrow> (x, s\<lparr>ss_runner := r\<rparr>))"

definition on_builder :: "(builder \<Rightarrow> 'a \<times> builder) \<Rightarrow> ('s session, 'a) se" where
  "on_builder f = (\<lambda>s. case f (ss_builder s) of (x, b) \<Rightarrow> (Inr x, s\<lparr>ss_builder := b\<rparr>))"

text \<open>The last quote gives the spread; a session has no calendar.\<close>

definition session_surroundings :: "'s session_env \<Rightarrow> 's session \<Rightarrow> surroundings" where
  "session_surroundings N s =
     (let sid = mf_id (ls_manifest (se_strategy N)); b = ss_broker s
      in \<lparr>sr_spread = (\<lambda>symb t. Inr (case dict_get (sb_quotes b) symb of None \<Rightarrow> 0 | Some q \<Rightarrow> qt_ask q - qt_bid q)),
          sr_news = (\<lambda>symb t. (None, None)), sr_positions = shadow_position_views sid b,
          sr_pending = shadow_pending_views sid b\<rparr>)"

definition route_one :: "'s session_env \<Rightarrow> engine_request \<Rightarrow> ('s session, unit) se" where
  "route_one N r =
     seq (case r of
            NewSignal g \<Rightarrow> modif (\<lambda>s. s\<lparr>ss_signals := ss_signals s @ [g], ss_reports := ss_reports s @ [ShadowSignal g]\<rparr>)
          | Ask q \<Rightarrow> ret ())
       (on_broker (shadow_handle (se_broker N) (session_tf N) r))"

definition session_bars :: "'s session_env \<Rightarrow> closed_bar list \<Rightarrow> ('s session, unit) se" where
  "session_bars N events =
     bnd (gets (session_surroundings N)) (\<lambda>R.
     bnd (on_runner (on_bars (se_strategy N) R events)) (for_each (route_one N)))"

definition session_rollovers :: "'s session_env \<Rightarrow> time \<Rightarrow> ('s session, unit) se" where
  "session_rollovers N now =
     bnd (gets ss_last_ns) (\<lambda>last.
     seq (case last of
            None \<Rightarrow> ret ()
          | Some l \<Rightarrow> for_each (\<lambda>(t, wd). on_broker (shadow_swaps (se_broker N) wd))
                        (rollover_times (se_zone N) (from_ns (l + 1)) now))
       (modif (\<lambda>s. s\<lparr>ss_last_ns := Some (to_ns now)\<rparr>)))"

text \<open>A trade whose money at risk is rounded away is refused by the trade record, after it was counted.\<close>

definition emit_trade :: "sim_trade \<Rightarrow> ('s session, unit) se" where
  "emit_trade x =
     (if tr_money_at_risk (to_trade ''shadow'' x) \<le> 0 then raise (ValueErr ''money_at_risk'')
      else modif (\<lambda>s. s\<lparr>ss_reports := ss_reports s @ [ShadowTrade (to_trade ''shadow'' x)]\<rparr>))"

definition emit_trades :: "('s session, unit) se" where
  "emit_trades =
     bnd (gets (\<lambda>s. drop (ss_n_trades s) (sb_trades (ss_broker s)))) (\<lambda>new.
     seq (modif (\<lambda>s. s\<lparr>ss_n_trades := length (sb_trades (ss_broker s))\<rparr>))
       (for_each emit_trade new))"

definition session_on_time :: "'s session_env \<Rightarrow> time \<Rightarrow> ('s session, unit) se" where
  "session_on_time N now =
     bnd (on_builder (builder_on_time (se_builder N) now)) (\<lambda>events.
     seq (session_bars N events)
     (seq (session_rollovers N now) emit_trades))"

definition session_fill :: "'s session_env \<Rightarrow> fill_view \<Rightarrow> ('s session, unit) se" where
  "session_fill N f =
     bnd (gets (session_surroundings N)) (\<lambda>R.
     bnd (on_runner (runner_on_fill (se_strategy N) R f)) (for_each (route_one N)))"

definition session_on_quote :: "'s session_env \<Rightarrow> quote \<Rightarrow> ('s session, unit) se" where
  "session_on_quote N q =
     bnd (on_builder (builder_on_quote (se_builder N) q)) (\<lambda>events.
     seq (session_bars N events)
     (seq (session_rollovers N (qt_time q))
     (seq (bnd (on_broker (shadow_quote (se_broker N) q)) (for_each (session_fill N)))
          emit_trades)))"

end
