(* ===== verification/Engine_Service.thy ===== *)
theory Engine_Service
  imports Shadow
begin

text \<open>
  The engine on the bus (\<open>engine/service.py\<close>): quotes drive the shadow sessions and the runners of the
  versions in a money stage; stage changes decide whose requests leave. The messages of a session's
  callbacks go to the outbox as the callbacks are called, also when the session raises later.
\<close>

section \<open>State\<close>

record 's engine_env =
  ge_sessions :: "'s session_env list"
  ge_strategies :: "'s live_strategy list"         \<comment> \<open>one for each runner\<close>
  ge_builder :: live_config
  ge_news :: "(string \<Rightarrow> ns \<Rightarrow> flt option \<times> flt option) option"
  ge_shadow_signals :: bool

record 's engine_service =
  gs_stages :: "(string \<times> string, stage) dict"
  gs_account :: "account_update option"
  gs_out :: "(string \<times> message) list"
  gs_sessions :: "'s session list"
  gs_runners :: "'s runner list"
  gs_builder :: builder
  gs_quotes :: "(string, quote) dict"
  gs_now :: time

type_synonym ('s, 'a, 'r) engine_op = "(('s engine_service, message, 'r) net, 'a) se"

definition money_stage :: "stage \<Rightarrow> bool" where
  "money_stage st \<longleftrightarrow> st \<in> {Micro, Live, Scaled, DemoOnly}"

text \<open>The subscriptions of the shared builder: those of all runners.\<close>

definition shared_subs :: "'s live_strategy list \<Rightarrow> series_key list" where
  "shared_subs Ls = firsts (concat (map (\<lambda>L. runner_subs (ls_manifest L)) Ls))"

definition engine_init ::
  "'s engine_env \<Rightarrow> 's session list \<Rightarrow> 's list \<Rightarrow> (series_key, full_bar list) dict \<Rightarrow> time \<Rightarrow> exn + 's engine_service" where
  "engine_init E sessions states history now =
     sbind (smap (\<lambda>(L, st). runner_init L st history) (zip (ge_strategies E) states)) (\<lambda>rs.
       Inr \<lparr>gs_stages = [], gs_account = None, gs_out = [], gs_sessions = sessions, gs_runners = rs,
            gs_builder = builder_init (ge_builder E), gs_quotes = [], gs_now = now\<rparr>)"

section \<open>What money strategies see\<close>

definition exposure_view :: "time \<Rightarrow> exposure_row \<Rightarrow> position_view" where
  "exposure_view t e = \<lparr>pv_position_id = (case xr_position_id e of None \<Rightarrow> [] | Some p \<Rightarrow> p), pv_signal_id = [],
     pv_symbol = xr_symbol e, pv_side = xr_side e, pv_lots = xr_lots e, pv_entry_price = xr_entry e,
     pv_stop_price = (case xr_stop e of None \<Rightarrow> 0 | Some x \<Rightarrow> x), pv_target_price = None, pv_opened_at = t\<rparr>"

definition engine_positions :: "'s engine_service \<Rightarrow> string \<Rightarrow> string option \<Rightarrow> position_view list" where
  "engine_positions g sid symbol =
     (case gs_account g of
        None \<Rightarrow> []
      | Some u \<Rightarrow> map (exposure_view (au_at u))
          (filter (\<lambda>e. \<not> xr_pending e \<and> xr_strategy_id e = Some sid \<and> (symbol = None \<or> symbol = Some (xr_symbol e)))
             (au_exposures u)))"

text \<open>The live calendar as the news of a symbol: the nearest event in either of its currencies (\<open>engine/market.py\<close>).\<close>

fun least :: "rat list \<Rightarrow> rat option" where
  "least [] = None"
| "least (x # xs) = Some (foldl min x xs)"

definition somes :: "'a option list \<Rightarrow> 'a list" where
  "somes xs = map the (filter (\<lambda>x. x \<noteq> None) xs)"

definition news_from_index :: "event_index option \<Rightarrow> (string, string \<times> string) dict \<Rightarrow> news_fn" where
  "news_from_index index currencies symb now =
     (case (index, dict_get currencies symb) of
        (Some ix, Some (a, b)) \<Rightarrow>
          (least (somes (map (minutes_to_next ix (from_ns now)) [a, b])),
           least (somes (map (minutes_since_last ix (from_ns now)) [a, b])))
      | _ \<Rightarrow> (None, None))"

definition engine_surroundings :: "'s engine_env \<Rightarrow> 's live_strategy \<Rightarrow> 's engine_service \<Rightarrow> surroundings" where
  "engine_surroundings E L g = \<lparr>
     sr_spread = (\<lambda>symb t. Inr (case dict_get (gs_quotes g) symb of None \<Rightarrow> 0 | Some q \<Rightarrow> qt_ask q - qt_bid q)),
     sr_news = (\<lambda>symb t. case ge_news E of None \<Rightarrow> (None, None) | Some f \<Rightarrow> f symb t),
     sr_positions = engine_positions g (mf_id (ls_manifest L)), sr_pending = (\<lambda>symbol. [])\<rparr>"

section \<open>Inbound\<close>

definition engine_on_stage :: "message \<Rightarrow> ('s, unit, 'r) engine_op" where
  "engine_on_stage msg = (case msg of
     StageSnapshot t xs \<Rightarrow>
       on_state (\<lambda>g. ((), g\<lparr>gs_stages := fold (\<lambda>(sid, ver, st). dict_set (sid, ver) st) xs []\<rparr>))
   | StageChanged c \<Rightarrow>
       on_state (\<lambda>g. ((), g\<lparr>gs_stages := dict_set (sc_strategy_id c, sc_strategy_version c) (sc_to c) (gs_stages g)\<rparr>))
   | _ \<Rightarrow> ret ())"

definition engine_on_account :: "message \<Rightarrow> ('s, unit, 'r) engine_op" where
  "engine_on_account msg = (case msg of
     AccountUpdated u \<Rightarrow> on_state (\<lambda>g. ((), g\<lparr>gs_account := Some u\<rparr>))
   | _ \<Rightarrow> ret ())"

text \<open>The outbox of a callback: shadow signals with the time frame of the session, shadow trades.\<close>

definition report_message :: "timeframe \<Rightarrow> shadow_report \<Rightarrow> string \<times> message" where
  "report_message tf x = (case x of
     ShadowSignal s \<Rightarrow> (SIGNALS, SignalEmitted (sg_created_at s) s tf True)
   | ShadowTrade t \<Rightarrow> (TRADES, PositionClosed (tr_exit_time t) t))"

text \<open>Running one session, with what its callbacks were given.\<close>

definition on_session :: "'s session_env \<Rightarrow> nat \<Rightarrow> ('s session, unit) se \<Rightarrow> ('s engine_service, unit) se" where
  "on_session N k m = (\<lambda>g.
     if k < length (gs_sessions g)
     then case m (gs_sessions g ! k) of
            (x, s) \<Rightarrow> (x, g\<lparr>gs_sessions := (gs_sessions g)[k := s],
              gs_out := gs_out g @ map (report_message (session_tf N)) (drop (length (ss_reports (gs_sessions g ! k))) (ss_reports s))\<rparr>)
     else (Inl IndexErr, g))"

definition for_sessions :: "'s engine_env \<Rightarrow> ('s session_env \<Rightarrow> ('s session, unit) se) \<Rightarrow> ('s engine_service, unit) se" where
  "for_sessions E m = for_each (\<lambda>(k, N). on_session N k (m N)) (zip [0..<length (ge_sessions E)] (ge_sessions E))"

definition engine_route :: "'s engine_env \<Rightarrow> 's live_strategy \<Rightarrow> engine_request list \<Rightarrow> 's engine_service \<Rightarrow> 's engine_service" where
  "engine_route E L rs g =
     (let m = ls_manifest L; tf = hd (sort_key tf_minutes (mf_timeframes m)); st = dict_get (gs_stages g) (mf_id m, mf_version m);
          money = (case st of None \<Rightarrow> False | Some x \<Rightarrow> money_stage x)
      in g\<lparr>gs_out := gs_out g @
           (if \<not> money
            then (if ge_shadow_signals E \<and> st = Some Shadow
                  then concat (map (\<lambda>r. case r of NewSignal s \<Rightarrow> [(SIGNALS, SignalEmitted (sg_created_at s) s tf True)] | Ask q \<Rightarrow> []) rs)
                  else [])
            else map (\<lambda>r. case r of
                   NewSignal s \<Rightarrow> (SIGNALS, SignalEmitted (sg_created_at s) s tf False)
                 | Ask q \<Rightarrow> (REQUESTS, StrategyRequestEmitted (gs_now g) q)) rs)\<rparr>)"

definition on_engine_builder :: "(builder \<Rightarrow> 'a \<times> builder) \<Rightarrow> ('s engine_service, 'a) se" where
  "on_engine_builder f = (\<lambda>g. case f (gs_builder g) of (x, b) \<Rightarrow> (Inr x, g\<lparr>gs_builder := b\<rparr>))"

text \<open>One runner gets a batch of bars and its requests are routed.\<close>

definition feed_runner :: "'s engine_env \<Rightarrow> nat \<Rightarrow> 's live_strategy \<Rightarrow> closed_bar list \<Rightarrow> ('s engine_service, unit) se" where
  "feed_runner E k L events =
     bnd (\<lambda>g. if k < length (gs_runners g)
              then case on_bars L (engine_surroundings E L g) events (gs_runners g ! k) of
                     (x, r) \<Rightarrow> (x, g\<lparr>gs_runners := (gs_runners g)[k := r]\<rparr>)
              else (Inl IndexErr, g))
       (\<lambda>rs. modif (engine_route E L rs))"

definition numbered :: "'a list \<Rightarrow> (nat \<times> 'a) list" where
  "numbered xs = zip [0..<length xs] xs"

text \<open>Every runner asks the builder about the quote again: \<open>r.on_bars(self.builder.on_quote(q))\<close>.\<close>

definition quote_runner :: "'s engine_env \<Rightarrow> quote \<Rightarrow> nat \<times> 's live_strategy \<Rightarrow> ('s engine_service, unit) se" where
  "quote_runner E q = (\<lambda>(k, L). bnd (on_engine_builder (builder_on_quote (ge_builder E) q)) (feed_runner E k L))"

definition engine_quote :: "'s engine_env \<Rightarrow> quote \<Rightarrow> ('s engine_service, unit) se" where
  "engine_quote E q =
     seq (modif (\<lambda>g. g\<lparr>gs_quotes := dict_set (qt_symbol q) q (gs_quotes g)\<rparr>))
     (seq (for_sessions E (\<lambda>N. session_on_quote N q))
          (for_each (quote_runner E q) (numbered (ge_strategies E))))"

definition engine_time :: "'s engine_env \<Rightarrow> time \<Rightarrow> ('s engine_service, unit) se" where
  "engine_time E now =
     seq (for_sessions E (\<lambda>N. session_on_time N now))
     (bnd (on_engine_builder (builder_on_time (ge_builder E) now)) (\<lambda>events.
        for_each (\<lambda>(k, L). feed_runner E k L events) (numbered (ge_strategies E))))"

section \<open>Outbound\<close>

definition in_engine :: "('s engine_service, 'a) se \<Rightarrow> ('s, 'a, 'r) engine_op" where
  "in_engine m = (\<lambda>(g, b). case m g of (x, g') \<Rightarrow> (x, (g', b)))"

fun publish_out :: "(message, 'r) codec \<Rightarrow> (string \<times> message) list \<Rightarrow> ('s, unit, 'r) engine_op" where
  "publish_out C [] = ret ()"
| "publish_out C ((stream, msg) # rest) =
     seq (on_state (\<lambda>g. ((), g\<lparr>gs_out := rest\<rparr>))) (seq (send C stream msg) (publish_out C rest))"

definition engine_flush :: "(message, 'r) codec \<Rightarrow> ('s, unit, 'r) engine_op" where
  "engine_flush C = bnd service_state (\<lambda>g. publish_out C (gs_out g))"

definition engine_on_quote :: "(message, 'r) codec \<Rightarrow> 's engine_env \<Rightarrow> message \<Rightarrow> ('s, unit, 'r) engine_op" where
  "engine_on_quote C E msg = (case msg of
     QuoteUpdate t symb bid ask \<Rightarrow>
       seq (in_engine (engine_quote E \<lparr>qt_symbol = symb, qt_bid = bid, qt_ask = ask, qt_time = t\<rparr>)) (engine_flush C)
   | _ \<Rightarrow> ret ())"

definition engine_on_time :: "(message, 'r) codec \<Rightarrow> 's engine_env \<Rightarrow> time \<Rightarrow> ('s, unit, 'r) engine_op" where
  "engine_on_time C E now = seq (in_engine (engine_time E now)) (engine_flush C)"

definition engine_heartbeat :: "(message, 'r) codec \<Rightarrow> ('s, unit, 'r) engine_op" where
  "engine_heartbeat C = bnd service_state (\<lambda>g. send C HEARTBEATS (Heartbeat (gs_now g) ''engine''))"

definition engine_handlers :: "(message, 'r) codec \<Rightarrow> 's engine_env \<Rightarrow> (string, message \<Rightarrow> ('s, unit, 'r) engine_op) dict" where
  "engine_handlers C E = [(STAGES, engine_on_stage), (ACCOUNT, engine_on_account), (QUOTES, engine_on_quote C E)]"

end
