(* ===== verification/Live_Builder.thy ===== *)
theory Live_Builder
  imports Engine_Service
begin

text \<open>The state of the bar builder: its invariant, and what one call does to the bars that are waiting.\<close>

section \<open>Lists and dictionaries\<close>

lemma firsts_set [simp]: "set (firsts xs) = set xs"
  by (simp add: firsts_def)

lemma firsts_distinct [simp]: "distinct (firsts xs)"
  by (simp add: firsts_def)

lemma firsts_snoc: "firsts (xs @ [x]) = (if x \<in> set xs then firsts xs else firsts xs @ [x])"
  by (simp add: firsts_def)

lemma map_self: "map_of (map (\<lambda>s. (s, f s)) xs) k = (if k \<in> set xs then Some (f k) else None)"
  by (induction xs) auto

lemma fold_pres: "\<lbrakk>\<And>x s. x \<in> set xs \<Longrightarrow> P s \<Longrightarrow> P (f x s); P s\<rbrakk> \<Longrightarrow> P (fold f xs s)"
  by (induction xs arbitrary: s) auto

lemma foldl_pres: "\<lbrakk>\<And>x s. x \<in> set xs \<Longrightarrow> P s \<Longrightarrow> P (f s x); P s\<rbrakk> \<Longrightarrow> P (foldl f s xs)"
  by (induction xs arbitrary: s) auto

lemma foldl_min_le: "foldl min (x :: 'a :: linorder) xs \<le> x" "y \<in> set xs \<Longrightarrow> foldl min x xs \<le> y"
proof -
  have *: "foldl min a xs \<le> a \<and> (\<forall>y \<in> set xs. foldl min a xs \<le> y)" for a :: 'a
  proof (induction xs arbitrary: a)
    case (Cons b bs)
    from Cons.IH [of "min a b"] show ?case by (auto simp: min_def split: if_splits dest: order_trans)
  qed simp
  from * [of x] show "foldl min x xs \<le> x" "y \<in> set xs \<Longrightarrow> foldl min x xs \<le> y" by auto
qed

lemma foldl_min_mem: "foldl min (x :: 'a :: linorder) xs \<in> insert x (set xs)"
proof (induction xs arbitrary: x)
  case (Cons b bs)
  from Cons.IH [of "min x b"] show ?case by (auto simp: min_def split: if_splits)
qed simp

section \<open>The higher time frames\<close>

text \<open>A step that touches only the buckets of one symbol.\<close>

definition buckets_of :: "live_config \<Rightarrow> string \<Rightarrow> builder \<Rightarrow> builder \<Rightarrow> bool" where
  "buckets_of C symb st st' \<longleftrightarrow>
     (\<exists>h. st' = st\<lparr>lb_htf := h\<rparr>) \<and>
     (distinct (map fst (lb_htf st)) \<longrightarrow> distinct (map fst (lb_htf st'))) \<and>
     dict_keys (lb_htf st') \<subseteq> dict_keys (lb_htf st) \<union> {symb} \<times> set (higher C symb) \<and>
     (distinct (map fst (lb_htf st)) \<longrightarrow> (\<forall>k tf. k \<noteq> symb \<longrightarrow> dict_get (lb_htf st') (k, tf) = dict_get (lb_htf st) (k, tf)))"

lemma buckets_refl: "buckets_of C symb st st"
  by (auto simp: buckets_of_def intro: exI [of _ "lb_htf st"])

lemma buckets_trans:
  assumes 1: "buckets_of C symb st u" and 2: "buckets_of C symb u v"
  shows "buckets_of C symb st v"
proof -
  obtain h h' where "u = st\<lparr>lb_htf := h\<rparr>" "v = u\<lparr>lb_htf := h'\<rparr>" using 1 2 unfolding buckets_of_def by metis
  then have "v = st\<lparr>lb_htf := h'\<rparr>" by simp
  moreover have "dict_keys (lb_htf v) \<subseteq> dict_keys (lb_htf st) \<union> {symb} \<times> set (higher C symb)"
    using 1 2 unfolding buckets_of_def by blast
  ultimately show ?thesis using 1 2 unfolding buckets_of_def by metis
qed

lemma add_to_bucket_step:
  assumes "tf \<in> set (higher C symb)"
  shows "buckets_of C symb (fst p) (fst (add_to_bucket C symb b tf p))"
proof -
  obtain st evs where p: "p = (st, evs)" by fastforce
  have "buckets_of C symb st (st\<lparr>lb_htf := dict_set (symb, tf) a (lb_htf st)\<rparr>)" for a
    using assms by (auto simp: buckets_of_def)
  then show ?thesis by (simp add: p add_to_bucket_def Let_def split: option.split)
qed

lemma close_bucket_step:
  assumes "tf \<in> set (higher C symb)"
  shows "buckets_of C symb (fst p) (fst (close_bucket C cutoff symb tf p))"
proof -
  obtain st evs where p: "p = (st, evs)" by fastforce
  have "buckets_of C symb st (st\<lparr>lb_htf := dict_del (symb, tf) (lb_htf st)\<rparr>)"
    using keys_del_subset [of "(symb, tf)" "lb_htf st"] by (auto simp: buckets_of_def distinct_del get_del)
  then show ?thesis by (simp add: p close_bucket_def buckets_refl split: option.split)
qed

lemma fold_buckets:
  assumes "\<And>tf p. tf \<in> set tfs \<Longrightarrow> buckets_of C symb (fst p) (fst (f tf p))"
  shows "buckets_of C symb (fst p) (fst (fold f tfs p))"
  using assms
proof (induction tfs arbitrary: p)
  case Nil
  then show ?case by (simp add: buckets_refl)
next
  case (Cons tf tfs)
  have "buckets_of C symb (fst p) (fst (f tf p))" by (rule Cons.prems) simp
  moreover have "buckets_of C symb (fst (f tf p)) (fst (fold f tfs (f tf p)))" by (rule Cons.IH, rule Cons.prems) simp
  ultimately show ?case by (simp del: split_paired_All) (rule buckets_trans)
qed

text \<open>After the buckets of a symbol were closed, those left close later.\<close>

lemma close_buckets_late:
  assumes "distinct (map fst (lb_htf st))"
  shows "\<forall>tf \<in> set tfs. \<forall>a. dict_get (lb_htf (fst (fold (close_bucket C cutoff symb) tfs (st, evs)))) (symb, tf) = Some a \<longrightarrow>
    cutoff < mb_close_time a"
proof -
  let ?late = "\<lambda>tf (p :: builder \<times> live_event list). \<forall>a. dict_get (lb_htf (fst p)) (symb, tf) = Some a \<longrightarrow> cutoff < mb_close_time a"
  let ?d = "\<lambda>p :: builder \<times> live_event list. distinct (map fst (lb_htf (fst p)))"
  have d: "?d (close_bucket C cutoff symb tf p)" if "?d p" for tf p
    using that by (cases p) (simp add: close_bucket_def split: option.split)
  have get: "dict_get (lb_htf (fst (close_bucket C cutoff symb tf p))) (symb, tf') =
      (case dict_get (lb_htf (fst p)) (symb, tf) of
         None \<Rightarrow> dict_get (lb_htf (fst p)) (symb, tf')
       | Some a \<Rightarrow> if mb_close_time a \<le> cutoff \<and> tf' = tf then None else dict_get (lb_htf (fst p)) (symb, tf'))"
    if "?d p" for tf tf' p
    using get_del [OF that] by (cases p; cases "dict_get (lb_htf (fst p)) (symb, tf)") (simp_all add: close_bucket_def)
  have one: "?late tf (close_bucket C cutoff symb tf p)" if "?d p" for tf p
    unfolding get [OF that] by (cases "dict_get (lb_htf (fst p)) (symb, tf)") auto
  have keep: "?late tf' (close_bucket C cutoff symb tf p)" if dp: "?d p" and l: "?late tf' p" for tf tf' p
    unfolding get [OF dp] using l by (cases "dict_get (lb_htf (fst p)) (symb, tf)") auto
  have stay: "?late tf (fold (close_bucket C cutoff symb) tfs p)" if dp: "?d p" and l: "?late tf p" for tf p tfs
    using dp l
  proof (induction tfs arbitrary: p)
    case (Cons t tfs)
    from Cons.IH [OF d [OF Cons.prems(1)] keep [OF Cons.prems]] show ?case by simp
  qed simp
  have "\<forall>tf \<in> set tfs. ?late tf (fold (close_bucket C cutoff symb) tfs p)" if "?d p" for p
    using that
  proof (induction tfs arbitrary: p)
    case (Cons tf tfs)
    show ?case
      using Cons.IH [OF d [OF Cons.prems]] stay [OF d [OF Cons.prems] one [OF Cons.prems]] by auto
  qed simp
  from this [of "(st, evs)"] assms show ?thesis by simp
qed

section \<open>One symbol\<close>

lemma emit_m1_step:
  "\<exists>h. fst (emit_m1 C symb (st, evs) b) =
      st\<lparr>lb_until := dict_set symb (mb_close_time b) (lb_until st), lb_m1 := lb_m1 st @ [agg_bar symb M1 b], lb_htf := h\<rparr> \<and>
    buckets_of C symb st (st\<lparr>lb_htf := h\<rparr>)"
proof -
  let ?st = "st\<lparr>lb_until := dict_set symb (mb_close_time b) (lb_until st), lb_m1 := lb_m1 st @ [agg_bar symb M1 b]\<rparr>"
  let ?evs = "if (symb, M1) \<in> set (lc_subs C) then evs @ [event_of C symb M1 b] else evs"
  have "buckets_of C symb ?st (fst (emit_m1 C symb (st, evs) b))"
    using fold_buckets [of "higher C symb" C symb "add_to_bucket C symb b" "(?st, ?evs)"] add_to_bucket_step
    by (auto simp: emit_m1_def Let_def)
  then obtain h where h: "fst (emit_m1 C symb (st, evs) b) = ?st\<lparr>lb_htf := h\<rparr>" and "buckets_of C symb ?st (?st\<lparr>lb_htf := h\<rparr>)"
    unfolding buckets_of_def by metis
  then have "buckets_of C symb st (st\<lparr>lb_htf := h\<rparr>)" by (auto simp: buckets_of_def)
  with h show ?thesis by auto
qed

definition until_of :: "builder \<Rightarrow> string \<Rightarrow> ns" where
  "until_of st symb = (case dict_get (lb_until st) symb of None \<Rightarrow> 0 | Some u \<Rightarrow> u)"

lemma emit_all_step:
  "\<exists>h u. fst (foldl (emit_m1 C symb) (st, evs) bs) =
      st\<lparr>lb_until := u, lb_m1 := lb_m1 st @ map (agg_bar symb M1) bs, lb_htf := h\<rparr> \<and>
    (\<forall>k. dict_get u k = (if k = symb \<and> bs \<noteq> [] then Some (mb_close_time (last bs)) else dict_get (lb_until st) k)) \<and>
    buckets_of C symb st (st\<lparr>lb_htf := h\<rparr>)"
proof (induction bs rule: rev_induct)
  case Nil
  have "buckets_of C symb st (st\<lparr>lb_htf := lb_htf st\<rparr>)" using buckets_refl [of C symb st] by simp
  then show ?case by (intro exI [of _ "lb_htf st"] exI [of _ "lb_until st"]) simp
next
  case (snoc b bs)
  obtain h u where 1: "fst (foldl (emit_m1 C symb) (st, evs) bs) =
      st\<lparr>lb_until := u, lb_m1 := lb_m1 st @ map (agg_bar symb M1) bs, lb_htf := h\<rparr>"
    and u: "\<forall>k. dict_get u k = (if k = symb \<and> bs \<noteq> [] then Some (mb_close_time (last bs)) else dict_get (lb_until st) k)"
    and b1: "buckets_of C symb st (st\<lparr>lb_htf := h\<rparr>)" using snoc.IH by blast
  obtain st1 evs1 where p: "foldl (emit_m1 C symb) (st, evs) bs = (st1, evs1)" by fastforce
  with 1 have st1: "st1 = st\<lparr>lb_until := u, lb_m1 := lb_m1 st @ map (agg_bar symb M1) bs, lb_htf := h\<rparr>" by simp
  obtain h' where 2: "fst (emit_m1 C symb (st1, evs1) b) =
      st1\<lparr>lb_until := dict_set symb (mb_close_time b) (lb_until st1), lb_m1 := lb_m1 st1 @ [agg_bar symb M1 b], lb_htf := h'\<rparr>"
    and b2: "buckets_of C symb st1 (st1\<lparr>lb_htf := h'\<rparr>)" using emit_m1_step [of C symb st1 evs1 b] by blast
  have "buckets_of C symb (st\<lparr>lb_htf := h\<rparr>) (st\<lparr>lb_htf := h'\<rparr>)"
    using b2 by (auto simp: st1 buckets_of_def)
  with b1 have "buckets_of C symb st (st\<lparr>lb_htf := h'\<rparr>)" by (rule buckets_trans)
  with 2 u show ?case
    by (intro exI [of _ h'] exI [of _ "dict_set symb (mb_close_time b) u"]) (simp add: p st1)
qed

text \<open>The bars of a symbol that wait to be handed out, oldest first.\<close>

definition waiting :: "builder \<Rightarrow> string \<Rightarrow> agg list" where
  "waiting st symb = listed (lb_done st) symb @ (case dict_get (lb_building st) symb of None \<Rightarrow> [] | Some a \<Rightarrow> [a])"

lemma finish_building_waiting:
  assumes "distinct (map fst (lb_building st))"
  shows "waiting (finish_building cutoff symb st) k = waiting st k"
    and "\<And>a. dict_get (lb_building (finish_building cutoff symb st)) symb = Some a \<Longrightarrow> cutoff < mb_close_time a"
proof -
  note del = get_del [OF assms, of symb]
  show "waiting (finish_building cutoff symb st) k = waiting st k"
    by (cases "dict_get (lb_building st) symb") (auto simp: finish_building_def waiting_def put_last_def del)
  show "\<And>a. dict_get (lb_building (finish_building cutoff symb st)) symb = Some a \<Longrightarrow> cutoff < mb_close_time a"
    by (cases "dict_get (lb_building st) symb") (auto simp: finish_building_def del split: if_splits)
qed

definition dicts_ok :: "live_config \<Rightarrow> builder \<Rightarrow> bool" where
  "dicts_ok C st \<longleftrightarrow>
     distinct (map fst (lb_building st)) \<and> dict_keys (lb_building st) \<subseteq> set (live_symbols C) \<and>
     distinct (map fst (lb_done st)) \<and> dict_keys (lb_done st) = set (live_symbols C) \<and>
     distinct (map fst (lb_htf st)) \<and> (\<forall>k \<in> dict_keys (lb_htf st). fst k \<in> set (live_symbols C) \<and> snd k \<in> set (higher C (fst k)))"

definition kept_building :: "ns \<Rightarrow> agg option \<Rightarrow> agg option" where
  "kept_building cutoff x = (case x of None \<Rightarrow> None | Some a \<Rightarrow> if mb_close_time a \<le> cutoff then None else Some a)"

lemma finish_building_get:
  assumes "distinct (map fst (lb_building st))"
  shows "dict_get (lb_building (finish_building cutoff symb st)) k =
    (if k = symb then kept_building cutoff (dict_get (lb_building st) k) else dict_get (lb_building st) k)"
  using get_del [OF assms, of symb] by (cases "dict_get (lb_building st) symb") (auto simp: finish_building_def kept_building_def)

lemma finish_building_ok:
  assumes "dicts_ok C st" and "symb \<in> set (live_symbols C)"
  shows "dicts_ok C (finish_building cutoff symb st)"
    and "lb_m1 (finish_building cutoff symb st) = lb_m1 st" "lb_until (finish_building cutoff symb st) = lb_until st"
    and "lb_late (finish_building cutoff symb st) = lb_late st" "lb_next_due (finish_building cutoff symb st) = lb_next_due st"
    and "lb_htf (finish_building cutoff symb st) = lb_htf st"
  using assms keys_del_subset [of symb "lb_building st"]
  by (auto simp: finish_building_def dicts_ok_def put_last_def insert_absorb split: option.split)

lemma filter_waiting:
  assumes "\<And>a. dict_get (lb_building st) symb = Some a \<Longrightarrow> cutoff < mb_close_time a"
  shows "filter (\<lambda>b. mb_close_time b \<le> cutoff) (waiting st symb) = filter (\<lambda>b. mb_close_time b \<le> cutoff) (listed (lb_done st) symb)"
    and "filter (\<lambda>b. cutoff < mb_close_time b) (waiting st symb) =
      filter (\<lambda>b. cutoff < mb_close_time b) (listed (lb_done st) symb) @
        (case dict_get (lb_building st) symb of None \<Rightarrow> [] | Some a \<Rightarrow> [a])"
  using assms by (auto simp: waiting_def split: option.split)

lemma close_symbol_step:
  assumes ok: "dicts_ok C st" and symb: "symb \<in> set (live_symbols C)"
    and run: "close_symbol_bars C cutoff symb (st, evs) = (st', evs')"
  shows "dicts_ok C st' \<and> lb_late st' = lb_late st \<and> lb_next_due st' = lb_next_due st \<and>
    (\<forall>k. waiting st' k = (if k = symb then filter (\<lambda>b. cutoff < mb_close_time b) (waiting st k) else waiting st k)) \<and>
    lb_m1 st' = lb_m1 st @ map (agg_bar symb M1) (filter (\<lambda>b. mb_close_time b \<le> cutoff) (waiting st symb)) \<and>
    (\<forall>k. dict_get (lb_until st') k =
      (let due = filter (\<lambda>b. mb_close_time b \<le> cutoff) (waiting st symb)
       in if k = symb \<and> due \<noteq> [] then Some (mb_close_time (last due)) else dict_get (lb_until st) k)) \<and>
    (\<forall>k tf a. dict_get (lb_htf st') (k, tf) = Some a \<longrightarrow>
       (if k = symb then cutoff < mb_close_time a else dict_get (lb_htf st) (k, tf) = Some a)) \<and>
    (\<forall>k. dict_get (lb_building st') k =
       (if k = symb then kept_building cutoff (dict_get (lb_building st) k) else dict_get (lb_building st) k))"
proof -
  let ?f = "finish_building cutoff symb st"
  note f = finish_building_ok [OF ok symb, of cutoff]
  have db: "distinct (map fst (lb_building st))" using ok by (simp add: dicts_ok_def)
  note w = finish_building_waiting [OF db, of cutoff symb]
  let ?due = "filter (\<lambda>b. mb_close_time b \<le> cutoff) (waiting st symb)"
  let ?rest = "filter (\<lambda>b. cutoff < mb_close_time b) (listed (lb_done ?f) symb)"
  have due: "filter (\<lambda>b. mb_close_time b \<le> cutoff) (listed (lb_done ?f) symb) = ?due"
    using filter_waiting(1) [of ?f symb cutoff] w by simp
  let ?g = "?f\<lparr>lb_done := dict_set symb ?rest (lb_done ?f)\<rparr>"
  obtain h u where e: "fst (foldl (emit_m1 C symb) (?g, evs) ?due) =
      ?g\<lparr>lb_until := u, lb_m1 := lb_m1 ?g @ map (agg_bar symb M1) ?due, lb_htf := h\<rparr>"
    and u: "\<forall>k. dict_get u k = (if k = symb \<and> ?due \<noteq> [] then Some (mb_close_time (last ?due)) else dict_get (lb_until ?g) k)"
    and b: "buckets_of C symb ?g (?g\<lparr>lb_htf := h\<rparr>)" using emit_all_step [of C symb ?g evs ?due] by blast
  obtain st1 evs1 where p: "foldl (emit_m1 C symb) (?g, evs) ?due = (st1, evs1)" by fastforce
  then have st1: "st1 = ?g\<lparr>lb_until := u, lb_m1 := lb_m1 ?g @ map (agg_bar symb M1) ?due, lb_htf := h\<rparr>" using e by simp
  have st': "st' = fst (fold (close_bucket C cutoff symb) (higher C symb) (st1, evs1))"
    using run by (simp add: close_symbol_bars_def Let_def due p)
  have b2: "buckets_of C symb st1 st'"
    using fold_buckets [of "higher C symb" C symb "close_bucket C cutoff symb" "(st1, evs1)"] close_bucket_step st' by auto
  have dg: "distinct (map fst (lb_htf ?g))" using f(1) by (simp add: dicts_ok_def)
  then have d1: "distinct (map fst (lb_htf st1))" using b by (simp add: buckets_of_def st1)
  have k1: "dict_keys h \<subseteq> dict_keys (lb_htf ?f) \<union> {symb} \<times> set (higher C symb)"
    using b unfolding buckets_of_def by simp
  have k2: "dict_keys (lb_htf st') \<subseteq> dict_keys h \<union> {symb} \<times> set (higher C symb)"
    using b2 unfolding buckets_of_def st1 by simp
  have d2: "distinct (map fst (lb_htf st'))" using b2 d1 unfolding buckets_of_def by blast
  have fr: "dict_get h (k, tf) = dict_get (lb_htf ?f) (k, tf)" "dict_get (lb_htf st') (k, tf) = dict_get h (k, tf)"
    if "k \<noteq> symb" for k tf
    using b b2 dg d1 that unfolding buckets_of_def st1 by simp_all
  obtain h2 where st'_eq: "st' = st1\<lparr>lb_htf := h2\<rparr>" using b2 by (auto simp: buckets_of_def)
  have late: "cutoff < mb_close_time a" if "dict_get (lb_htf st') (symb, tf) = Some a" for tf a
  proof -
    have "(symb, tf) \<in> dict_keys (lb_htf st')" using that by (rule get_Some_key)
    with k1 k2 have "(symb, tf) \<in> dict_keys (lb_htf ?f) \<union> {symb} \<times> set (higher C symb)" by blast
    then have "tf \<in> set (higher C symb)"
    proof
      assume "(symb, tf) \<in> dict_keys (lb_htf ?f)"
      with f(1) show ?thesis unfolding dicts_ok_def by (metis fst_conv snd_conv)
    qed simp
    with close_buckets_late [OF d1, of "higher C symb" C cutoff symb evs1] that show ?thesis by (simp add: st')
  qed
  have other: "dict_get (lb_htf st') (k, tf) = dict_get (lb_htf st) (k, tf)" if "k \<noteq> symb" for k tf
    using fr [OF that] f(6) by simp
  have keys: "fst k \<in> set (live_symbols C) \<and> snd k \<in> set (higher C (fst k))" if "k \<in> dict_keys (lb_htf st')" for k
  proof -
    from that k1 k2 have "k \<in> dict_keys (lb_htf ?f) \<union> {symb} \<times> set (higher C symb)" by blast
    then show ?thesis
    proof
      assume "k \<in> dict_keys (lb_htf ?f)"
      with f(1) show ?thesis unfolding dicts_ok_def by blast
    qed (use symb in auto)
  qed
  have "dicts_ok C st'"
    unfolding dicts_ok_def
  proof (intro conjI)
    show "\<forall>k \<in> dict_keys (lb_htf st'). fst k \<in> set (live_symbols C) \<and> snd k \<in> set (higher C (fst k))" using keys by blast
  qed (use f(1) symb d2 in \<open>simp_all add: dicts_ok_def st'_eq st1 insert_absorb\<close>)
  moreover have "waiting st' k = (if k = symb then filter (\<lambda>b. cutoff < mb_close_time b) (waiting st k) else waiting st k)" for k
  proof -
    have "waiting st' k = listed (lb_done st') k @ (case dict_get (lb_building ?f) k of None \<Rightarrow> [] | Some a \<Rightarrow> [a])"
      by (simp add: waiting_def st'_eq st1)
    moreover have "lb_done st' = dict_set symb ?rest (lb_done ?f)" by (simp add: st'_eq st1)
    moreover have "listed (lb_done ?f) k @ (case dict_get (lb_building ?f) k of None \<Rightarrow> [] | Some a \<Rightarrow> [a]) = waiting st k"
      using w(1) [of k] by (simp add: waiting_def)
    ultimately show ?thesis using filter_waiting(2) [of ?f symb cutoff, OF w(2)] w(1) [of symb] by simp
  qed
  moreover have "lb_late st' = lb_late st" "lb_next_due st' = lb_next_due st"
    "lb_m1 st' = lb_m1 st @ map (agg_bar symb M1) ?due" using f by (simp_all add: st'_eq st1)
  moreover have "dict_get (lb_until st') k = (if k = symb \<and> ?due \<noteq> [] then Some (mb_close_time (last ?due)) else dict_get (lb_until st) k)" for k
    using u f(3) by (simp add: st'_eq st1)
  moreover have "if k = symb then cutoff < mb_close_time a else dict_get (lb_htf st) (k, tf) = Some a"
    if "dict_get (lb_htf st') (k, tf) = Some a" for k tf a
    using that late [of tf a] other [of k tf] by (cases "k = symb") auto
  moreover have "dict_get (lb_building st') k =
      (if k = symb then kept_building cutoff (dict_get (lb_building st) k) else dict_get (lb_building st) k)" for k
    using finish_building_get [OF db, of cutoff symb k] by (simp add: st'_eq st1)
  ultimately show ?thesis unfolding Let_def by blast
qed

section \<open>All symbols\<close>

definition is_waiting :: "builder \<Rightarrow> agg \<Rightarrow> bool" where
  "is_waiting st a \<longleftrightarrow> (\<exists>k. a \<in> set (waiting st k)) \<or> (\<exists>k. dict_get (lb_htf st) k = Some a)"

lemma waiting_closes_set:
  assumes "dicts_ok C st"
  shows "set (waiting_closes st) = mb_close_time ` {a. is_waiting st a}"
proof -
  have entry: "a \<in> set (map snd d) \<longleftrightarrow> (\<exists>k. dict_get d k = Some a)" if "distinct (map fst d)" for d :: "('k, 'v) dict" and a
  proof -
    have "(\<exists>k. (k, a) \<in> set d) \<longleftrightarrow> (\<exists>k. dict_get d k = Some a)" using that by (metis map_of_SomeD map_of_is_SomeI)
    then show ?thesis by force
  qed
  have d: "distinct (map fst (lb_building st))" "distinct (map fst (lb_done st))" "distinct (map fst (lb_htf st))"
    using assms by (simp_all add: dicts_ok_def)
  have "a \<in> set (concat (map snd (lb_done st))) \<longleftrightarrow> (\<exists>k. a \<in> set (listed (lb_done st) k))" for a
  proof -
    have "a \<in> set (concat (map snd (lb_done st))) \<longleftrightarrow> (\<exists>xs \<in> set (map snd (lb_done st)). a \<in> set xs)" by auto
    also have "\<dots> \<longleftrightarrow> (\<exists>k xs. dict_get (lb_done st) k = Some xs \<and> a \<in> set xs)" using entry [OF d(2)] by blast
    also have "\<dots> \<longleftrightarrow> (\<exists>k. a \<in> set (listed (lb_done st) k))"
    proof -
      have "a \<in> set (listed (lb_done st) k) \<longleftrightarrow> (\<exists>xs. dict_get (lb_done st) k = Some xs \<and> a \<in> set xs)" for k
        by (cases "dict_get (lb_done st) k") (simp_all add: listed_def)
      then show ?thesis by blast
    qed
    finally show ?thesis .
  qed
  moreover have "a \<in> set (waiting st k) \<longleftrightarrow> a \<in> set (listed (lb_done st) k) \<or> dict_get (lb_building st) k = Some a" for k a
    by (cases "dict_get (lb_building st) k") (auto simp: waiting_def)
  ultimately have "a \<in> set (map snd (lb_building st)) \<union> set (concat (map snd (lb_done st))) \<union> set (map snd (lb_htf st)) \<longleftrightarrow> is_waiting st a" for a
    unfolding is_waiting_def Un_iff entry [OF d(1)] entry [OF d(3)] by blast
  then have "set (map snd (lb_building st) @ concat (map snd (lb_done st)) @ map snd (lb_htf st)) = {a. is_waiting st a}"
    by (simp add: set_eq_iff Un_assoc)
  then show ?thesis unfolding waiting_closes_def by (simp only: set_map)
qed

definition of_symbol :: "string \<Rightarrow> bar list \<Rightarrow> bar list" where
  "of_symbol symb bs = filter (\<lambda>b. br_symbol b = symb) bs"

lemma of_symbol_bars [simp]: "of_symbol k (map (agg_bar symb tf) xs) = (if k = symb then map (agg_bar symb tf) xs else [])"
  by (induction xs) (auto simp: of_symbol_def agg_bar_def)

lemma of_symbol_append [simp]: "of_symbol k (xs @ ys) = of_symbol k xs @ of_symbol k ys"
  by (simp add: of_symbol_def)

definition due_of :: "ns \<Rightarrow> builder \<Rightarrow> string \<Rightarrow> agg list" where
  "due_of cutoff st k = filter (\<lambda>b. mb_close_time b \<le> cutoff) (waiting st k)"

text \<open>What closing at an instant does, for the symbols already visited.\<close>

definition closed_for :: "live_config \<Rightarrow> ns \<Rightarrow> string set \<Rightarrow> builder \<Rightarrow> builder \<Rightarrow> bool" where
  "closed_for C cutoff V st st' \<longleftrightarrow>
     dicts_ok C st' \<and> lb_late st' = lb_late st \<and>
     (\<forall>k. waiting st' k = (if k \<in> V then filter (\<lambda>b. cutoff < mb_close_time b) (waiting st k) else waiting st k)) \<and>
     (\<forall>k. of_symbol k (lb_m1 st') = of_symbol k (lb_m1 st) @ (if k \<in> V then map (agg_bar k M1) (due_of cutoff st k) else [])) \<and>
     (\<forall>k. dict_get (lb_until st') k =
        (if k \<in> V \<and> due_of cutoff st k \<noteq> [] then Some (mb_close_time (last (due_of cutoff st k))) else dict_get (lb_until st) k)) \<and>
     (\<forall>k. dict_get (lb_building st') k =
        (if k \<in> V then kept_building cutoff (dict_get (lb_building st) k) else dict_get (lb_building st) k)) \<and>
     (\<forall>k tf a. k \<in> V \<longrightarrow> dict_get (lb_htf st') (k, tf) = Some a \<longrightarrow> cutoff < mb_close_time a)"

lemma close_all_symbols:
  assumes "dicts_ok C st" and "set syms \<subseteq> set (live_symbols C)" and "distinct syms"
    and "fold (close_symbol_bars C cutoff) syms (st, evs) = (st', evs')"
  shows "closed_for C cutoff (set syms) st st'"
  using assms
proof (induction syms arbitrary: st' evs' rule: rev_induct)
  case Nil
  then show ?case by (simp add: closed_for_def)
next
  case (snoc s syms)
  obtain u evu where u: "fold (close_symbol_bars C cutoff) syms (st, evs) = (u, evu)" by fastforce
  have IH: "closed_for C cutoff (set syms) st u" using snoc.IH [OF snoc.prems(1) _ _ u] snoc.prems(2,3) by simp
  have run: "close_symbol_bars C cutoff s (u, evu) = (st', evs')" using snoc.prems(4) u by simp
  have s: "s \<in> set (live_symbols C)" "s \<notin> set syms" using snoc.prems(2,3) by auto
  have uok: "dicts_ok C u" using IH by (simp add: closed_for_def)
  have due: "filter (\<lambda>b. mb_close_time b \<le> cutoff) (waiting u s) = due_of cutoff st s"
    using IH s(2) by (simp add: closed_for_def due_of_def)
  note st = close_symbol_step [OF uok s(1) run, unfolded due]
  show ?case
    unfolding closed_for_def
  proof (intro conjI allI impI)
    fix k
    show "waiting st' k = (if k \<in> set (syms @ [s]) then filter (\<lambda>b. cutoff < mb_close_time b) (waiting st k) else waiting st k)"
      using st IH s(2) by (auto simp: closed_for_def)
    show "of_symbol k (lb_m1 st') = of_symbol k (lb_m1 st) @ (if k \<in> set (syms @ [s]) then map (agg_bar k M1) (due_of cutoff st k) else [])"
      using st IH s(2) by (auto simp: closed_for_def)
    show "dict_get (lb_until st') k = (if k \<in> set (syms @ [s]) \<and> due_of cutoff st k \<noteq> []
        then Some (mb_close_time (last (due_of cutoff st k))) else dict_get (lb_until st) k)"
      using st IH s(2) by (auto simp: closed_for_def Let_def)
    show "dict_get (lb_building st') k = (if k \<in> set (syms @ [s]) then kept_building cutoff (dict_get (lb_building st) k)
        else dict_get (lb_building st) k)"
      using st IH s(2) by (auto simp: closed_for_def)
  next
    fix k tf a
    assume "k \<in> set (syms @ [s])" and a: "dict_get (lb_htf st') (k, tf) = Some a"
    moreover have "if k = s then cutoff < mb_close_time a else dict_get (lb_htf u) (k, tf) = Some a"
      using st a by blast
    moreover have "\<forall>k tf a. k \<in> set syms \<longrightarrow> dict_get (lb_htf u) (k, tf) = Some a \<longrightarrow> cutoff < mb_close_time a"
      using IH unfolding closed_for_def by blast
    ultimately show "cutoff < mb_close_time a" by (cases "k = s") auto
  qed (use st IH in \<open>simp_all add: closed_for_def\<close>)
qed

text \<open>The instant of the next event is never missed by the fast path.\<close>

definition due_bound :: "builder \<Rightarrow> bool" where
  "due_bound st \<longleftrightarrow> (\<forall>a. is_waiting st a \<longrightarrow> lb_next_due st \<le> mb_close_time a)"

lemma waiting_none: "dicts_ok C st \<Longrightarrow> k \<notin> set (live_symbols C) \<Longrightarrow> waiting st k = []"
proof -
  assume ok: "dicts_ok C st" and k: "k \<notin> set (live_symbols C)"
  then have "k \<notin> dict_keys (lb_building st)" "k \<notin> dict_keys (lb_done st)" by (auto simp: dicts_ok_def)
  then have "dict_get (lb_building st) k = None" "dict_get (lb_done st) k = None" by (simp_all only: get_None_iff not_False_eq_True)
  then show ?thesis by (simp add: waiting_def listed_def)
qed

lemma on_time_step:
  assumes ok: "dicts_ok C st" and bound: "due_bound st" and run: "on_time_ns C now st = (evs, st')"
  shows "closed_for C (now - lc_grace C) UNIV st st' \<and> due_bound st' \<and>
    (now - lc_grace C < never \<longrightarrow> now - lc_grace C < lb_next_due st')"
proof (cases "now - lc_grace C < lb_next_due st")
  case True
  let ?c = "now - lc_grace C"
  have same: "st' = st" using run True by (simp add: on_time_ns_def Let_def)
  have late: "?c < mb_close_time a" if "is_waiting st a" for a
    using that bound True by (fastforce simp: due_bound_def)
  then have "due_of ?c st k = []" "filter (\<lambda>b. ?c < mb_close_time b) (waiting st k) = waiting st k" for k
    by (auto simp: due_of_def filter_empty_conv filter_id_conv is_waiting_def not_le)
  moreover have "kept_building ?c (dict_get (lb_building st) k) = dict_get (lb_building st) k" for k
  proof (cases "dict_get (lb_building st) k")
    case (Some a)
    then have "is_waiting st a" unfolding is_waiting_def waiting_def by (intro disjI1 exI [of _ k]) simp
    from late [OF this] show ?thesis by (simp add: Some kept_building_def)
  qed (simp add: kept_building_def)
  moreover have "?c < mb_close_time a" if "dict_get (lb_htf st) (k, tf) = Some a" for k tf a
    by (rule late) (use that in \<open>auto simp: is_waiting_def\<close>)
  ultimately show ?thesis
    using same True ok bound by (auto simp: closed_for_def)
next
  case False
  let ?c = "now - lc_grace C"
  obtain u evu where u: "fold (close_symbol_bars C ?c) (live_symbols C) (st, []) = (u, evu)" by fastforce
  have st': "st' = u\<lparr>lb_next_due := (case waiting_closes u of [] \<Rightarrow> never | x # xs \<Rightarrow> foldl min x xs)\<rparr>"
    using run False by (simp add: on_time_ns_def Let_def u)
  have cl: "closed_for C ?c (set (live_symbols C)) st u"
    by (rule close_all_symbols [OF ok _ _ u]) (simp_all add: live_symbols_def)
  have uok: "dicts_ok C u" using cl by (simp add: closed_for_def)
  have none: "waiting st k = []" "waiting u k = []" if "k \<notin> set (live_symbols C)" for k
    using waiting_none [OF ok that] waiting_none [OF uok that] by auto
  have hk: "k \<in> set (live_symbols C)" if "dict_get (lb_htf u) (k, tf) = Some a" for k tf a
    using uok get_Some_key [OF that] unfolding dicts_ok_def by (metis fst_conv)
  have full: "closed_for C ?c UNIV st u"
    unfolding closed_for_def
  proof (intro conjI allI impI)
    fix k
    show "waiting u k = (if k \<in> UNIV then filter (\<lambda>b. ?c < mb_close_time b) (waiting st k) else waiting st k)"
      using cl none by (cases "k \<in> set (live_symbols C)") (simp_all add: closed_for_def)
    show "of_symbol k (lb_m1 u) = of_symbol k (lb_m1 st) @ (if k \<in> UNIV then map (agg_bar k M1) (due_of ?c st k) else [])"
      using cl none by (cases "k \<in> set (live_symbols C)") (simp_all add: closed_for_def due_of_def)
    show "dict_get (lb_until u) k = (if k \<in> UNIV \<and> due_of ?c st k \<noteq> [] then Some (mb_close_time (last (due_of ?c st k)))
        else dict_get (lb_until st) k)"
      using cl none by (cases "k \<in> set (live_symbols C)") (simp_all add: closed_for_def due_of_def)
    show "dict_get (lb_building u) k = (if k \<in> UNIV then kept_building ?c (dict_get (lb_building st) k) else dict_get (lb_building st) k)"
    proof (cases "k \<in> set (live_symbols C)")
      case False
      then have "dict_get (lb_building st) k = None" using ok by (auto simp: dicts_ok_def get_None_iff)
      with False cl show ?thesis by (simp add: closed_for_def kept_building_def)
    qed (use cl in \<open>simp add: closed_for_def\<close>)
  next
    fix k tf a
    assume "dict_get (lb_htf u) (k, tf) = Some a"
    with hk [OF this] cl show "?c < mb_close_time a" by (auto simp: closed_for_def)
  qed (use cl in \<open>simp_all add: closed_for_def\<close>)
  have w: "is_waiting st' a \<longleftrightarrow> is_waiting u a" for a by (simp add: is_waiting_def waiting_def st')
  have after: "?c < mb_close_time a" if "is_waiting u a" for a
    using that full by (auto simp: is_waiting_def closed_for_def)
  have "lb_next_due st' \<le> mb_close_time a" if "is_waiting st' a" for a
  proof -
    have "mb_close_time a \<in> set (waiting_closes u)" using that w waiting_closes_set [OF uok] by auto
    then show ?thesis by (cases "waiting_closes u") (auto simp: st' foldl_min_le)
  qed
  moreover have "?c < lb_next_due st'" if "?c < never"
  proof (cases "waiting_closes u")
    case (Cons x xs)
    have "lb_next_due st' \<in> set (waiting_closes u)" using foldl_min_mem [of x xs] by (simp add: st' Cons)
    then show ?thesis using after waiting_closes_set [OF uok] by auto
  qed (use that in \<open>simp add: st'\<close>)
  moreover have "closed_for C ?c UNIV st st'"
  proof -
    have "dicts_ok C st' = dicts_ok C u" by (simp add: dicts_ok_def st')
    moreover have "waiting st' k = waiting u k" for k by (simp add: waiting_def st')
    moreover have "lb_late st' = lb_late u" "lb_m1 st' = lb_m1 u" "lb_until st' = lb_until u" "lb_htf st' = lb_htf u"
      "lb_building st' = lb_building u" by (simp_all add: st')
    ultimately show ?thesis using full unfolding closed_for_def by simp
  qed
  ultimately show ?thesis by (simp add: due_bound_def)
qed

section \<open>The events of the minute bars\<close>

definition m1_of_symbol :: "string \<Rightarrow> closed_bar \<Rightarrow> bool" where
  "m1_of_symbol symb e \<longleftrightarrow> cb_symbol e = symb \<and> cb_timeframe e = M1"

definition m1_events :: "string \<Rightarrow> live_event list \<Rightarrow> live_event list" where
  "m1_events symb evs = filter (\<lambda>e. m1_of_symbol symb (snd e)) evs"

lemma m1_event_of: "m1_of_symbol k (snd (event_of C symb tf a)) \<longleftrightarrow> k = symb \<and> tf = M1"
  by (auto simp: m1_of_symbol_def event_of_def Let_def)

lemma m1_events_append [simp]: "m1_events k (xs @ ys) = m1_events k xs @ m1_events k ys"
  by (simp add: m1_events_def)

lemma m1_events_other: "tf \<noteq> M1 \<Longrightarrow> m1_events k [event_of C symb tf a] = []"
  by (simp add: m1_events_def m1_event_of)

lemma bucket_events:
  assumes "tf \<noteq> M1"
  shows "m1_events k (snd (add_to_bucket C symb b tf p)) = m1_events k (snd p)"
    and "m1_events k (snd (close_bucket C cutoff symb tf p)) = m1_events k (snd p)"
  using m1_events_other [OF assms]
  by (auto simp: add_to_bucket_def close_bucket_def Let_def split: prod.split option.split)

lemma fold_same: "(\<And>x p. x \<in> set xs \<Longrightarrow> f (g x p) = f p) \<Longrightarrow> f (fold g xs p) = f p"
  by (induction xs arbitrary: p) auto

lemma higher_not_m1: "tf \<in> set (higher C symb) \<Longrightarrow> tf \<noteq> M1"
  by (auto simp: higher_def)

lemma emit_events:
  "m1_events k (snd (emit_m1 C symb p b)) =
    m1_events k (snd p) @ (if k = symb \<and> (symb, M1) \<in> set (lc_subs C) then [event_of C symb M1 b] else [])"
proof -
  obtain st evs where p: "p = (st, evs)" by fastforce
  have "m1_events k (snd (fold (add_to_bucket C symb b) (higher C symb) q)) = m1_events k (snd q)" for q
    by (rule fold_same) (rule bucket_events(1) [OF higher_not_m1])
  then show ?thesis by (auto simp: p emit_m1_def Let_def m1_events_def m1_event_of)
qed

lemma emit_all_events:
  "m1_events k (snd (foldl (emit_m1 C symb) p bs)) =
    m1_events k (snd p) @ (if k = symb \<and> (symb, M1) \<in> set (lc_subs C) then map (event_of C symb M1) bs else [])"
  by (induction bs arbitrary: p) (auto simp: emit_events)

lemma close_symbol_events:
  assumes "dicts_ok C st"
  shows "m1_events k (snd (close_symbol_bars C cutoff symb (st, evs))) =
    m1_events k evs @ (if k = symb \<and> (symb, M1) \<in> set (lc_subs C) then map (event_of C symb M1) (due_of cutoff st symb) else [])"
proof -
  have db: "distinct (map fst (lb_building st))" using assms by (simp add: dicts_ok_def)
  note w = finish_building_waiting [OF db, of cutoff symb]
  have "filter (\<lambda>b. mb_close_time b \<le> cutoff) (listed (lb_done (finish_building cutoff symb st)) symb) = due_of cutoff st symb"
    using filter_waiting(1) [of "finish_building cutoff symb st" symb cutoff, OF w(2)] w(1) by (simp add: due_of_def)
  moreover have "m1_events k (snd (fold (close_bucket C cutoff symb) (higher C symb) q)) = m1_events k (snd q)" for q
    by (rule fold_same) (rule bucket_events(2) [OF higher_not_m1])
  ultimately show ?thesis by (simp add: close_symbol_bars_def Let_def emit_all_events)
qed

lemma close_all_events:
  assumes "dicts_ok C st" and "set syms \<subseteq> set (live_symbols C)" and "distinct syms"
  shows "m1_events k (snd (fold (close_symbol_bars C cutoff) syms (st, evs))) =
    m1_events k evs @ (if k \<in> set syms \<and> (k, M1) \<in> set (lc_subs C) then map (event_of C k M1) (due_of cutoff st k) else [])"
  using assms
proof (induction syms rule: rev_induct)
  case (snoc s syms)
  obtain u evu where u: "fold (close_symbol_bars C cutoff) syms (st, evs) = (u, evu)" by fastforce
  have cl: "closed_for C cutoff (set syms) st u"
    using close_all_symbols [OF snoc.prems(1) _ _ u] snoc.prems(2,3) by simp
  then have "dicts_ok C u" "due_of cutoff u s = due_of cutoff st s"
    using snoc.prems(3) by (simp_all add: closed_for_def due_of_def)
  moreover have "m1_events k evu = m1_events k evs @
      (if k \<in> set syms \<and> (k, M1) \<in> set (lc_subs C) then map (event_of C k M1) (due_of cutoff st k) else [])"
    using snoc.IH snoc.prems u by simp
  ultimately show ?case using close_symbol_events [of C u k cutoff s evu] snoc.prems(3) u by auto
qed simp

lemma filter_sort_key: "filter P (sort_key f xs) = sort_key f (filter P xs)"
  by (rule filter_sort)

lemma on_time_events:
  assumes ok: "dicts_ok C st" and bound: "due_bound st" and sub: "(k, M1) \<in> set (lc_subs C)"
    and "sorted (map mb_close_time (due_of (now - lc_grace C) st k))"
  shows "filter (m1_of_symbol k) (fst (on_time_ns C now st)) =
    map (\<lambda>a. snd (event_of C k M1 a)) (due_of (now - lc_grace C) st k)"
proof (cases "now - lc_grace C < lb_next_due st")
  case True
  have "due_of (now - lc_grace C) st k = []"
  proof -
    have "now - lc_grace C < mb_close_time a" if "a \<in> set (waiting st k)" for a
      using that bound True unfolding due_bound_def is_waiting_def by (meson order_less_le_trans)
    then show ?thesis by (auto simp: due_of_def filter_empty_conv not_le)
  qed
  with True show ?thesis by (simp add: on_time_ns_def Let_def)
next
  case False
  let ?c = "now - lc_grace C"
  obtain u evu where u: "fold (close_symbol_bars C ?c) (live_symbols C) (st, []) = (u, evu)" by fastforce
  have k: "k \<in> set (live_symbols C)" using sub by (force simp: live_symbols_def)
  have "m1_events k evu = map (event_of C k M1) (due_of ?c st k)"
    using close_all_events [OF ok, of "live_symbols C" k ?c "[]"] u k sub by (simp add: live_symbols_def m1_events_def)
  moreover have "sorted (map fst (map (event_of C k M1) (due_of ?c st k)))"
    using assms(4) by (induction "due_of ?c st k") (auto simp: event_of_def Let_def sorted_wrt_map intro: sorted_wrt_mono_rel [rotated])
  ultimately have "filter (\<lambda>e. m1_of_symbol k (snd e)) (sort_key fst evu) = map (event_of C k M1) (due_of ?c st k)"
    unfolding filter_sort_key m1_events_def by (simp add: sort_key_id_if_sorted)
  then have "filter (m1_of_symbol k) (map snd (sort_key fst evu)) = map (\<lambda>a. snd (event_of C k M1 a)) (due_of ?c st k)"
    by (simp add: filter_map comp_def)
  then show ?thesis using False u by (simp add: on_time_ns_def Let_def)
qed

end
