(* ===== verification/Live_Candles.thy ===== *)
theory Live_Candles
  imports Live_Builder
begin

text \<open>The bars of a list of quotes, minute by minute, and the builder as their computation one quote at a time.\<close>

section \<open>The bars of a list of quotes\<close>

definition minute_of :: "quote \<Rightarrow> ns" where
  "minute_of q = to_ns (qt_time q) - to_ns (qt_time q) mod ns_per_minute"

definition in_minute :: "string \<Rightarrow> ns \<Rightarrow> quote \<Rightarrow> bool" where
  "in_minute symb m q \<longleftrightarrow> qt_symbol q = symb \<and> minute_of q = m"

definition candle :: "string \<Rightarrow> quote list \<Rightarrow> ns \<Rightarrow> agg" where
  "candle symb qs m =
     (let ps = filter (in_minute symb m) qs; bids = map qt_bid ps; asks = map qt_ask ps
      in \<lparr>mb_open_time = m, mb_close_time = m + ns_per_minute, mb_bid_o = hd bids, mb_bid_h = Max (set bids),
          mb_bid_l = Min (set bids), mb_bid_c = last bids, fb_ask_o = hd asks, fb_ask_h = Max (set asks),
          fb_ask_l = Min (set asks), fb_ask_c = last asks, fb_volume = of_nat (length ps)\<rparr>)"

definition minutes_with_quotes :: "string \<Rightarrow> quote list \<Rightarrow> ns list" where
  "minutes_with_quotes symb qs = firsts (map minute_of (filter (\<lambda>q. qt_symbol q = symb) qs))"

definition candles :: "string \<Rightarrow> quote list \<Rightarrow> agg list" where
  "candles symb qs = map (candle symb qs) (minutes_with_quotes symb qs)"

lemma in_minute_symbol: "filter (in_minute symb m) (filter (\<lambda>q. qt_symbol q = symb) qs) = filter (in_minute symb m) qs"
  by (auto simp: in_minute_def intro: filter_cong)

lemma candle_first:
  assumes "m \<notin> set (minutes_with_quotes symb qs)" and "in_minute symb m q"
  shows "candle symb (qs @ [q]) m = agg_first m (m + ns_per_minute) (qt_bid q) (qt_ask q)"
proof -
  have "filter (in_minute symb m) qs = []"
    using assms(1) by (auto simp: filter_empty_conv in_minute_def minutes_with_quotes_def)
  with assms(2) show ?thesis by (simp add: candle_def agg_first_def)
qed

lemma candle_more:
  assumes "m \<in> set (minutes_with_quotes symb qs)" and "in_minute symb m q"
  shows "candle symb (qs @ [q]) m = add_quote (qt_bid q) (qt_ask q) (candle symb qs m)"
proof -
  obtain p where p: "p \<in> set qs" "in_minute symb m p"
    using assms(1) by (auto simp: in_minute_def minutes_with_quotes_def)
  then have "{x \<in> set qs. in_minute symb m x} \<noteq> {}" and "filter (in_minute symb m) qs \<noteq> []"
    by (auto simp: filter_empty_conv)
  then show ?thesis
    using assms(2) by (simp add: candle_def add_quote_def Let_def max.commute min.commute hd_append)
qed

lemma candle_other: "\<not> in_minute symb m q \<Longrightarrow> candle symb (qs @ [q]) m = candle symb qs m"
  by (simp add: candle_def)

text \<open>A quote later than all others of its symbol touches only the last bar.\<close>

lemma candles_other: "qt_symbol q \<noteq> symb \<Longrightarrow> candles symb (qs @ [q]) = candles symb qs"
  by (simp add: candles_def minutes_with_quotes_def candle_other in_minute_def)

lemma candles_new:
  assumes "qt_symbol q = symb" and "minute_of q \<notin> set (minutes_with_quotes symb qs)"
  shows "candles symb (qs @ [q]) =
    candles symb qs @ [agg_first (minute_of q) (minute_of q + ns_per_minute) (qt_bid q) (qt_ask q)]"
proof -
  have m: "minutes_with_quotes symb (qs @ [q]) = minutes_with_quotes symb qs @ [minute_of q]"
    using assms by (simp add: minutes_with_quotes_def firsts_snoc)
  have "candle symb (qs @ [q]) m = candle symb qs m" if "m \<in> set (minutes_with_quotes symb qs)" for m
    using that assms(2) by (intro candle_other) (auto simp: in_minute_def)
  with m candle_first [OF assms(2), of q] assms(1) show ?thesis by (simp add: candles_def in_minute_def)
qed

definition ordered_minutes :: "string \<Rightarrow> quote list \<Rightarrow> bool" where
  "ordered_minutes symb qs \<longleftrightarrow> sorted (minutes_with_quotes symb qs)"

lemma sorted_last_max:
  fixes x :: "'a :: linorder"
  assumes "sorted xs" and "distinct xs" and "x \<in> set xs" and "\<And>y. y \<in> set xs \<Longrightarrow> y \<le> x"
  shows "xs = butlast xs @ [x] \<and> x \<notin> set (butlast xs)"
proof (cases xs rule: rev_cases)
  case (snoc ys y)
  have "y \<le> x" using assms(4) snoc by simp
  moreover have "x \<in> set ys \<Longrightarrow> x \<le> y" using assms(1) snoc by (simp add: sorted_append)
  ultimately have "x = y" using assms(2,3) snoc by auto
  with assms(2) snoc show ?thesis by simp
qed (use assms(3) in simp)

lemma candles_more:
  assumes "qt_symbol q = symb" and "minute_of q \<in> set (minutes_with_quotes symb qs)"
    and "ordered_minutes symb qs" and "\<And>m. m \<in> set (minutes_with_quotes symb qs) \<Longrightarrow> m \<le> minute_of q"
  shows "candles symb (qs @ [q]) = butlast (candles symb qs) @ [add_quote (qt_bid q) (qt_ask q) (last (candles symb qs))]"
    and "mb_open_time (last (candles symb qs)) = minute_of q" and "candles symb qs \<noteq> []"
proof -
  let ?ms = "minutes_with_quotes symb qs"
  have ms: "?ms = butlast ?ms @ [minute_of q]" "minute_of q \<notin> set (butlast ?ms)"
    using sorted_last_max [of ?ms "minute_of q"] assms by (simp_all add: ordered_minutes_def minutes_with_quotes_def)
  have "minutes_with_quotes symb (qs @ [q]) = ?ms"
    using assms(1,2) by (simp add: minutes_with_quotes_def firsts_snoc)
  then have "candles symb (qs @ [q]) = map (candle symb (qs @ [q])) ?ms" by (simp add: candles_def)
  also have "\<dots> = map (candle symb (qs @ [q])) (butlast ?ms @ [minute_of q])" using ms(1) by simp
  finally have "candles symb (qs @ [q]) = map (candle symb (qs @ [q])) (butlast ?ms) @ [candle symb (qs @ [q]) (minute_of q)]"
    by simp
  moreover have "map (candle symb (qs @ [q])) (butlast ?ms) = map (candle symb qs) (butlast ?ms)"
    using ms(2) by (intro map_cong refl candle_other) (auto simp: in_minute_def)
  moreover have c: "candles symb qs = map (candle symb qs) (butlast ?ms) @ [candle symb qs (minute_of q)]"
    unfolding candles_def by (subst ms(1)) simp
  ultimately show "candles symb (qs @ [q]) = butlast (candles symb qs) @ [add_quote (qt_bid q) (qt_ask q) (last (candles symb qs))]"
    using candle_more [OF assms(2), of q] assms(1) by (simp add: in_minute_def)
  show "mb_open_time (last (candles symb qs)) = minute_of q" "candles symb qs \<noteq> []"
    using c by (simp_all add: candle_def Let_def)
qed

section \<open>Feeding the builder\<close>

datatype feed = FeedQuote quote | FeedTime time

fun feed_time :: "feed \<Rightarrow> time" where
  "feed_time (FeedQuote q) = qt_time q"
| "feed_time (FeedTime t) = t"

fun feed_one :: "live_config \<Rightarrow> feed \<Rightarrow> builder \<Rightarrow> closed_bar list \<times> builder" where
  "feed_one C (FeedQuote q) st = builder_on_quote C q st"
| "feed_one C (FeedTime t) st = builder_on_time C t st"

definition feed_step :: "live_config \<Rightarrow> closed_bar list \<times> builder \<Rightarrow> feed \<Rightarrow> closed_bar list \<times> builder" where
  "feed_step C = (\<lambda>(out, st) x. case feed_one C x st of (es, st') \<Rightarrow> (out @ es, st'))"

definition feed_all :: "live_config \<Rightarrow> feed list \<Rightarrow> closed_bar list \<times> builder" where
  "feed_all C xs = foldl (feed_step C) ([], builder_init C) xs"

definition quotes_in :: "feed list \<Rightarrow> quote list" where
  "quotes_in xs = concat (map (\<lambda>x. case x of FeedQuote q \<Rightarrow> [q] | FeedTime t \<Rightarrow> []) xs)"

definition tracks_symbol :: "live_config \<Rightarrow> ns \<Rightarrow> quote list \<Rightarrow> closed_bar list \<Rightarrow> builder \<Rightarrow> string \<Rightarrow> agg list \<Rightarrow> bool" where
  "tracks_symbol C T qs out st s em \<longleftrightarrow>
     candles s qs = em @ waiting st s \<and> of_symbol s (lb_m1 st) = map (agg_bar s M1) em \<and>
     ((s, M1) \<in> set (lc_subs C) \<longrightarrow> filter (m1_of_symbol s) out = map (\<lambda>a. snd (event_of C s M1 a)) em) \<and>
     until_of st s = (if em = [] then 0 else mb_close_time (last em)) \<and> (\<forall>a \<in> set em. mb_close_time a \<le> T - lc_grace C) \<and>
     dict_get (lb_building st) s = (if waiting st s = [] then None else Some (last (waiting st s)))"

definition tracks :: "live_config \<Rightarrow> ns \<Rightarrow> quote list \<Rightarrow> closed_bar list \<Rightarrow> builder \<Rightarrow> bool" where
  "tracks C T qs out st \<longleftrightarrow>
     dicts_ok C st \<and> due_bound st \<and> lb_late st = 0 \<and> 0 \<le> T \<and> (\<forall>q \<in> set qs. to_ns (qt_time q) \<le> T) \<and>
     (\<forall>s. ordered_minutes s qs) \<and> (\<forall>s \<in> set (live_symbols C). \<exists>em. tracks_symbol C T qs out st s em)"

lemma candle_close: "mb_close_time (candle s qs m) = m + ns_per_minute" and candle_open: "mb_open_time (candle s qs m) = m"
  by (simp_all add: candle_def Let_def)

lemma candles_sorted: "ordered_minutes s qs \<Longrightarrow> sorted (map mb_close_time (candles s qs))"
  by (simp add: candles_def ordered_minutes_def comp_def candle_close sorted_iff_nth_mono)

lemma sorted_split:
  fixes f :: "'a \<Rightarrow> ns"
  assumes "sorted (map f xs)"
  shows "xs = filter (\<lambda>a. f a \<le> c) xs @ filter (\<lambda>a. c < f a) xs"
  using assms
proof (induction xs)
  case (Cons x xs)
  show ?case
  proof (cases "f x \<le> c")
    case False
    with Cons.prems have "\<forall>y \<in> set (x # xs). c < f y" by auto
    then have "filter (\<lambda>a. f a \<le> c) (x # xs) = []" "filter (\<lambda>a. c < f a) (x # xs) = x # xs"
      by (auto simp: filter_empty_conv filter_id_conv)
    then show ?thesis by simp
  qed (use Cons in auto)
qed simp

lemma minute_bounds: "minute_of q \<le> to_ns (qt_time q)" "to_ns (qt_time q) < minute_of q + ns_per_minute"
  by (simp_all add: minute_of_def ns_per_minute_def algebra_simps)

lemma init_tracks: "tracks C 0 [] [] (builder_init C)"
proof -
  have "dict_get (lb_done (builder_init C)) s = (if s \<in> set (live_symbols C) then Some [] else None)"
    "dict_get (lb_until (builder_init C)) s = (if s \<in> set (live_symbols C) then Some 0 else None)" for s
    by (simp_all add: builder_init_def map_self)
  then have "waiting (builder_init C) s = []" "until_of (builder_init C) s = 0" for s
    by (simp_all add: waiting_def listed_def until_of_def builder_init_def)
  moreover have "dicts_ok C (builder_init C)"
  proof -
    have "distinct (live_symbols C)" by (simp add: live_symbols_def)
    then show ?thesis by (simp add: dicts_ok_def builder_init_def comp_def image_image)
  qed
  ultimately show ?thesis
    by (auto simp: tracks_def tracks_symbol_def due_bound_def is_waiting_def builder_init_def candles_def
        minutes_with_quotes_def firsts_def ordered_minutes_def of_symbol_def)
qed

lemma time_tracks:
  assumes t: "tracks C T qs out st" and now: "T \<le> now" and run: "on_time_ns C now st = (es, st')"
  shows "tracks C now qs (out @ es) st' \<and> (\<forall>s. \<forall>a \<in> set (waiting st' s). now - lc_grace C < mb_close_time a)"
proof -
  let ?c = "now - lc_grace C"
  have ok: "dicts_ok C st" and bound: "due_bound st" using t by (simp_all add: tracks_def)
  from on_time_step [OF ok bound run] have cl: "closed_for C ?c UNIV st st'" and bound': "due_bound st'" by simp_all
  have wait: "waiting st' s = filter (\<lambda>b. ?c < mb_close_time b) (waiting st s)" for s using cl by (simp add: closed_for_def)
  have "\<exists>em. tracks_symbol C now qs (out @ es) st' s em" if s: "s \<in> set (live_symbols C)" for s
  proof -
    obtain em where em: "tracks_symbol C T qs out st s em" using t s by (auto simp: tracks_def)
    let ?due = "due_of ?c st s"
    have "ordered_minutes s qs" using t by (simp add: tracks_def)
    from candles_sorted [OF this] em have srt: "sorted (map mb_close_time (waiting st s))"
      by (simp add: tracks_symbol_def sorted_append)
    have split: "waiting st s = ?due @ waiting st' s"
      using sorted_split [OF srt, of ?c] by (simp add: due_of_def wait)
    have "filter (m1_of_symbol s) es = map (\<lambda>a. snd (event_of C s M1 a)) ?due" if "(s, M1) \<in> set (lc_subs C)"
    proof -
      have "sorted (map mb_close_time ?due)" using srt split by (metis map_append sorted_append)
      from on_time_events [OF ok bound that this] run show ?thesis by simp
    qed
    moreover have "dict_get (lb_building st') s = (if waiting st' s = [] then None else Some (last (waiting st' s)))"
    proof (cases "waiting st' s = []")
      case True
      have "kept_building ?c (dict_get (lb_building st) s) = None"
      proof (cases "waiting st s = []")
        case False
        then have "last (waiting st s) \<in> set ?due" using split True by (metis append_Nil2 last_in_set)
        with em False show ?thesis by (simp add: tracks_symbol_def kept_building_def due_of_def)
      qed (use em in \<open>simp add: tracks_symbol_def kept_building_def\<close>)
      with True cl show ?thesis by (simp add: closed_for_def)
    next
      case False
      then have "last (waiting st s) = last (waiting st' s)" "waiting st s \<noteq> []" using split by (metis last_appendR, auto)
      moreover have "?c < mb_close_time (last (waiting st' s))" using last_in_set [OF False] by (simp add: wait)
      ultimately show ?thesis using em cl False by (simp add: tracks_symbol_def closed_for_def kept_building_def)
    qed
    moreover have "until_of st' s = (if em @ ?due = [] then 0 else mb_close_time (last (em @ ?due)))"
      using em cl by (simp add: tracks_symbol_def until_of_def closed_for_def)
    moreover have "\<forall>a \<in> set (em @ ?due). mb_close_time a \<le> ?c"
      using em now by (fastforce simp: tracks_symbol_def due_of_def)
    moreover have "of_symbol s (lb_m1 st') = map (agg_bar s M1) (em @ ?due)"
      using em cl by (simp add: tracks_symbol_def closed_for_def)
    moreover have "candles s qs = (em @ ?due) @ waiting st' s" using em split by (simp add: tracks_symbol_def)
    ultimately have "tracks_symbol C now qs (out @ es) st' s (em @ ?due)"
      using em by (simp add: tracks_symbol_def)
    then show ?thesis by blast
  qed
  moreover have "dicts_ok C st'" "lb_late st' = 0" using t cl by (simp_all add: tracks_def closed_for_def)
  moreover have "\<forall>q \<in> set qs. to_ns (qt_time q) \<le> T" "0 \<le> T" using t by (simp_all add: tracks_def)
  with now have "\<forall>q \<in> set qs. to_ns (qt_time q) \<le> now" "0 \<le> now" by fastforce+
  moreover have "\<forall>s. ordered_minutes s qs" using t by (simp add: tracks_def)
  ultimately have "tracks C now qs (out @ es) st'" using bound' unfolding tracks_def by blast
  moreover have "\<forall>s. \<forall>a \<in> set (waiting st' s). ?c < mb_close_time a" by (simp add: wait)
  ultimately show ?thesis ..
qed

lemma quote_taken:
  assumes t: "tracks C T qs out st" and now: "to_ns (qt_time q) = T" and grace: "0 \<le> lc_grace C"
    and symb: "qt_symbol q \<in> set (live_symbols C)"
  shows "\<not> minute_of q + ns_per_minute \<le> until_of st (qt_symbol q)"
    and "tracks C T (qs @ [q]) out (take_quote q (minute_of q) st)"
    and "\<And>s a. a \<in> set (waiting (take_quote q (minute_of q) st) s) \<Longrightarrow>
      (\<exists>b \<in> set (waiting st s). mb_close_time a = mb_close_time b) \<or> mb_close_time a = minute_of q + ns_per_minute"
proof -
  let ?s = "qt_symbol q" and ?m = "minute_of q" and ?new = "take_quote q (minute_of q) st"
  let ?first = "agg_first ?m (?m + ns_per_minute) (qt_bid q) (qt_ask q)"
  note m = minute_bounds [of q, unfolded now]
  have T: "0 \<le> T" and ok: "dicts_ok C st" and bound: "due_bound st" and late: "lb_late st = 0"
    using t by (simp_all add: tracks_def)
  obtain em where em: "tracks_symbol C T qs out st ?s em" using t symb by (auto simp: tracks_def)
  have db: "dict_get (lb_building st) ?s = (if waiting st ?s = [] then None else Some (last (waiting st ?s)))"
    and cs: "candles ?s qs = em @ waiting st ?s" and closed: "\<And>a. a \<in> set em \<Longrightarrow> mb_close_time a \<le> T - lc_grace C"
    using em by (simp_all add: tracks_symbol_def)
  show "\<not> ?m + ns_per_minute \<le> until_of st ?s"
  proof (cases "em = []")
    case True
    then show ?thesis using em m T by (simp add: tracks_symbol_def)
  next
    case False
    then have "until_of st ?s = mb_close_time (last em)" using em by (simp add: tracks_symbol_def)
    with closed [OF last_in_set [OF False]] m grace show ?thesis by linarith
  qed
  have before: "m' \<le> ?m" if mem: "m' \<in> set (minutes_with_quotes s qs)" for s m'
  proof -
    obtain p where p: "p \<in> set qs" "m' = minute_of p" using mem by (auto simp: minutes_with_quotes_def)
    then have "to_ns (qt_time p) \<le> T" using t by (simp add: tracks_def)
    then have "to_ns (qt_time p) div ns_per_minute \<le> T div ns_per_minute" by (simp add: zdiv_mono1 ns_per_minute_def)
    then show ?thesis unfolding p(2) minute_of_def now by (simp add: minus_mod_eq_mult_div ns_per_minute_def)
  qed
  have ord: "ordered_minutes s (qs @ [q])" for s
  proof -
    have "ordered_minutes s qs" using t by (simp add: tracks_def)
    with before show ?thesis
      by (auto simp: ordered_minutes_def minutes_with_quotes_def firsts_snoc sorted_append)
  qed
  text \<open>The bars of the symbol with the quote, and what the builder holds.\<close>
  have new: "candles ?s (qs @ [q]) = em @ waiting ?new ?s \<and>
      dict_get (lb_building ?new) ?s = Some (last (waiting ?new ?s)) \<and> waiting ?new ?s \<noteq> [] \<and> lb_late ?new = 0 \<and>
      (\<forall>a \<in> set (waiting ?new ?s). (\<exists>b \<in> set (waiting st ?s). mb_close_time a = mb_close_time b) \<or>
         mb_close_time a = ?m + ns_per_minute \<and> lb_next_due ?new \<le> mb_close_time a)"
  proof (cases "waiting st ?s = []")
    case True
    have "?m \<notin> set (minutes_with_quotes ?s qs)"
    proof
      assume "?m \<in> set (minutes_with_quotes ?s qs)"
      then have "candle ?s qs ?m \<in> set em" using cs True by (auto simp: candles_def)
      from closed [OF this] m grace show False by (simp add: candle_close)
    qed
    from candles_new [OF refl this] cs True have "candles ?s (qs @ [q]) = em @ [?first]" by simp
    moreover have none: "dict_get (lb_building st) ?s = None" using db True by simp
    moreover have n: "?new = st\<lparr>lb_building := dict_set ?s ?first (lb_building st), lb_next_due := min (lb_next_due st) (?m + ns_per_minute)\<rparr>"
      unfolding take_quote_def Let_def none option.case ..
    moreover have "waiting ?new ?s = [?first]"
    proof -
      have "listed (lb_done st) ?s = []" using True by (simp add: waiting_def)
      then show ?thesis by (simp add: n waiting_def)
    qed
    ultimately show ?thesis using late by (simp add: agg_first_def)
  next
    case False
    let ?a = "last (waiting st ?s)"
    have b: "dict_get (lb_building st) ?s = Some ?a" using db False by simp
    then have w: "waiting st ?s = listed (lb_done st) ?s @ [?a]" by (subst (1) waiting_def) (simp only: option.case)
    have mem: "?a \<in> set (waiting st ?s)" "set (listed (lb_done st) ?s) \<subseteq> set (waiting st ?s)"
      using last_in_set [OF False] by (simp_all add: waiting_def)
    have a: "?a = candle ?s qs (mb_open_time ?a)" "mb_open_time ?a \<in> set (minutes_with_quotes ?s qs)"
    proof -
      have "?a \<in> set (candles ?s qs)" using cs False by simp
      then show "?a = candle ?s qs (mb_open_time ?a)" "mb_open_time ?a \<in> set (minutes_with_quotes ?s qs)"
        by (auto simp: candles_def candle_open)
    qed
    show ?thesis
    proof (cases "mb_open_time ?a = ?m")
      case True
      have mm: "?m \<in> set (minutes_with_quotes ?s qs)" using a(2) True by simp
      have om: "ordered_minutes ?s qs" using t by (simp add: tracks_def)
      have more: "candles ?s (qs @ [q]) = butlast (candles ?s qs) @ [add_quote (qt_bid q) (qt_ask q) (last (candles ?s qs))]"
        by (rule candles_more(1) [OF refl mm om]) (rule before)
      have "candles ?s qs = (em @ listed (lb_done st) ?s) @ [?a]"
        unfolding cs append.assoc by (rule arg_cong [OF w])
      then have "candles ?s (qs @ [q]) = em @ listed (lb_done st) ?s @ [add_quote (qt_bid q) (qt_ask q) ?a]"
        using more by (simp add: butlast_append)
      moreover have n: "?new = st\<lparr>lb_building := dict_set ?s (add_quote (qt_bid q) (qt_ask q) ?a) (lb_building st)\<rparr>"
        using b True by (simp add: take_quote_def Let_def)
      moreover have "waiting ?new ?s = listed (lb_done st) ?s @ [add_quote (qt_bid q) (qt_ask q) ?a]"
        by (simp add: n waiting_def)
      moreover have "mb_close_time (add_quote x y ?a) = mb_close_time ?a" for x y by (simp add: add_quote_def)
      ultimately show ?thesis using late mem by auto
    next
      case other: False
      have "mb_open_time ?a < ?m" using before [OF a(2)] other by simp
      moreover have "?m \<notin> set (minutes_with_quotes ?s qs)"
      proof
        assume mem: "?m \<in> set (minutes_with_quotes ?s qs)"
        have om: "ordered_minutes ?s qs" using t by (simp add: tracks_def)
        have "mb_open_time (last (candles ?s qs)) = ?m" by (rule candles_more(2) [OF refl mem om]) (rule before)
        with cs False other show False by simp
      qed
      from candles_new [OF refl this] cs
      have "candles ?s (qs @ [q]) = em @ waiting st ?s @ [?first]" by simp
      moreover have n: "?new = st\<lparr>lb_done := put_last ?s ?a (lb_done st), lb_building := dict_set ?s ?first (lb_building st),
          lb_next_due := min (lb_next_due st) (?m + ns_per_minute)\<rparr>"
        using b other \<open>mb_open_time ?a < ?m\<close> by (simp add: take_quote_def Let_def)
      moreover have "waiting ?new ?s = waiting st ?s @ [?first]" using w by (simp add: n waiting_def put_last_def)
      ultimately show ?thesis using late by (auto simp: agg_first_def)
    qed
  qed
  have frame: "waiting ?new k = waiting st k" "dict_get (lb_building ?new) k = dict_get (lb_building st) k" if "k \<noteq> ?s" for k
    using that by (auto simp: take_quote_def Let_def waiting_def put_last_def split: option.split)
  have same: "lb_m1 ?new = lb_m1 st" "lb_until ?new = lb_until st" "lb_htf ?new = lb_htf st" "lb_next_due ?new \<le> lb_next_due st"
    by (auto simp: take_quote_def Let_def split: option.split)
  have "dicts_ok C ?new"
    using ok symb by (auto simp: take_quote_def Let_def dicts_ok_def put_last_def insert_absorb split: option.split)
  moreover have "due_bound ?new"
    unfolding due_bound_def
  proof (intro allI impI)
    fix a
    assume "is_waiting ?new a"
    then consider k where "k \<noteq> ?s" "a \<in> set (waiting st k)" | "a \<in> set (waiting ?new ?s)" | k where "dict_get (lb_htf st) k = Some a"
      unfolding is_waiting_def same(3) using frame(1) by metis
    then show "lb_next_due ?new \<le> mb_close_time a"
    proof cases
      case 2
      with new consider b where "b \<in> set (waiting st ?s)" "mb_close_time a = mb_close_time b" | "lb_next_due ?new \<le> mb_close_time a" by blast
      then show ?thesis
      proof cases
        case 1
        then have "is_waiting st b" by (auto simp: is_waiting_def)
        with bound same(4) 1(2) show ?thesis by (fastforce simp: due_bound_def)
      qed
    qed (use bound same(4) in \<open>fastforce simp: due_bound_def is_waiting_def\<close>)+
  qed
  moreover have "\<exists>em. tracks_symbol C T (qs @ [q]) out ?new s em" if "s \<in> set (live_symbols C)" for s
  proof (cases "s = ?s")
    case True
    with em new same show ?thesis by (intro exI [of _ em]) (simp add: tracks_symbol_def until_of_def)
  next
    case False
    obtain em' where "tracks_symbol C T qs out st s em'" using t \<open>s \<in> set (live_symbols C)\<close> by (auto simp: tracks_def)
    with False frame same candles_other [of q s qs] show ?thesis
      by (intro exI [of _ em']) (simp add: tracks_symbol_def until_of_def)
  qed
  moreover have "\<forall>p \<in> set (qs @ [q]). to_ns (qt_time p) \<le> T" using t now by (simp add: tracks_def)
  ultimately show "tracks C T (qs @ [q]) out ?new" using T new ord unfolding tracks_def by blast
  show "(\<exists>b \<in> set (waiting st s). mb_close_time a = mb_close_time b) \<or> mb_close_time a = ?m + ns_per_minute"
    if "a \<in> set (waiting ?new s)" for s a
    using that new frame(1) [of s] by (cases "s = ?s") auto
qed

lemma feed_tracks:
  assumes t: "tracks C T (quotes_in xs) out st" and later: "T \<le> to_ns (feed_time x)" and grace: "0 \<le> lc_grace C"
    and run: "feed_one C x st = (es, st')"
  shows "tracks C (to_ns (feed_time x)) (quotes_in (xs @ [x])) (out @ es) st' \<and>
    (\<forall>s. \<forall>a \<in> set (waiting st' s). to_ns (feed_time x) - lc_grace C < mb_close_time a)"
proof (cases x)
  case (FeedTime t)
  with run time_tracks [OF assms(1) later, of es st'] show ?thesis by (simp add: builder_on_time_def quotes_in_def)
next
  case q: (FeedQuote q)
  let ?T = "to_ns (qt_time q)"
  obtain es1 u where u: "on_time_ns C ?T st = (es1, u)" by fastforce
  have tu: "tracks C ?T (quotes_in xs) (out @ es1) u" and far: "\<And>s a. a \<in> set (waiting u s) \<Longrightarrow> ?T - lc_grace C < mb_close_time a"
    using time_tracks [OF t _ u] later q by auto
  have qs: "quotes_in (xs @ [FeedQuote q]) = quotes_in xs @ [q]" by (simp add: quotes_in_def)
  have keys: "qt_symbol q \<in> dict_keys (lb_done st) \<longleftrightarrow> qt_symbol q \<in> set (live_symbols C)"
    using t by (simp add: tracks_def dicts_ok_def)
  show ?thesis
  proof (cases "qt_symbol q \<in> set (live_symbols C)")
    case False
    with run q keys u have st': "es = es1" "st' = u" by (simp_all add: builder_on_quote_def builder_on_time_def)
    have "candles s (quotes_in xs @ [q]) = candles s (quotes_in xs)" if "s \<in> set (live_symbols C)" for s
      using that False by (intro candles_other) auto
    moreover have "ordered_minutes s (quotes_in xs @ [q])" for s
    proof (cases "qt_symbol q = s")
      case True
      have "m \<le> minute_of q" if m: "m \<in> set (minutes_with_quotes s (quotes_in xs))" for m
      proof -
        obtain p where p: "p \<in> set (quotes_in xs)" "m = minute_of p" using m by (auto simp: minutes_with_quotes_def)
        then have "to_ns (qt_time p) div ns_per_minute \<le> ?T div ns_per_minute"
          using tu by (simp add: tracks_def zdiv_mono1 ns_per_minute_def)
        then show ?thesis unfolding p(2) minute_of_def by (simp add: minus_mod_eq_mult_div ns_per_minute_def)
      qed
      moreover have "ordered_minutes s (quotes_in xs)" using tu by (simp add: tracks_def)
      ultimately show ?thesis
        using True by (auto simp: ordered_minutes_def minutes_with_quotes_def firsts_snoc sorted_append)
    next
      case False
      moreover have "ordered_minutes s (quotes_in xs)" using tu by (simp add: tracks_def)
      ultimately show ?thesis by (simp add: ordered_minutes_def minutes_with_quotes_def)
    qed
    ultimately have "tracks C ?T (quotes_in xs @ [q]) (out @ es1) u"
      using tu unfolding tracks_def tracks_symbol_def by auto
    with far show ?thesis by (simp add: qs st' q)
  next
    case True
    note q1 = quote_taken [OF tu refl grace True]
    from run q keys u True q1(1) have st': "es = es1" "st' = take_quote q (minute_of q) u"
      by (simp_all add: builder_on_quote_def Let_def minute_of_def until_of_def)
    have "?T - lc_grace C < mb_close_time a" if "a \<in> set (waiting st' s)" for s a
    proof -
      from q1(3) that have "(\<exists>b \<in> set (waiting u s). mb_close_time a = mb_close_time b) \<or> mb_close_time a = minute_of q + ns_per_minute"
        unfolding st' by blast
      then show ?thesis using far minute_bounds [of q] grace by fastforce
    qed
    with q1(2) show ?thesis by (simp add: qs st' q)
  qed
qed

lemma feed_all_tracks:
  assumes "sorted (map feed_time xs)" and "\<And>x. x \<in> set xs \<Longrightarrow> 0 \<le> feed_time x" and "0 \<le> lc_grace C" and "xs \<noteq> []"
  shows "tracks C (to_ns (feed_time (last xs))) (quotes_in xs) (fst (feed_all C xs)) (snd (feed_all C xs)) \<and>
    (\<forall>s. \<forall>a \<in> set (waiting (snd (feed_all C xs)) s). to_ns (feed_time (last xs)) - lc_grace C < mb_close_time a)"
  using assms(1,2,4)
proof (induction xs rule: rev_induct)
  case (snoc x xs)
  obtain out st where st: "feed_all C xs = (out, st)" by fastforce
  obtain es st' where run: "feed_one C x st = (es, st')" by fastforce
  have all: "feed_all C (xs @ [x]) = (out @ es, st')"
    using st run by (simp add: feed_all_def feed_step_def)
  define T where "T = (if xs = [] then 0 else to_ns (feed_time (last xs)))"
  have "tracks C T (quotes_in xs) out st"
  proof (cases "xs = []")
    case True
    with st init_tracks [of C] show ?thesis by (simp add: T_def feed_all_def quotes_in_def)
  qed (use snoc.IH snoc.prems st in \<open>simp add: T_def sorted_append\<close>)
  moreover have "T \<le> to_ns (feed_time x)"
    using snoc.prems by (auto simp: T_def to_ns_def sorted_append)
  ultimately show ?case using feed_tracks [of C T xs out st x es st'] assms(3) run by (simp add: all)
qed simp

end
