(* ===== verification/Live_Service.thy ===== *)
theory Live_Service
  imports Live_Candles
begin

text \<open>The bar builder under quotes in any order, and the frames of the operations of the engine on the bus.\<close>

section \<open>The builder under any quotes\<close>

definition builder_ok :: "live_config \<Rightarrow> builder \<Rightarrow> bool" where
  "builder_ok C st \<longleftrightarrow> dicts_ok C st \<and> due_bound st"

lemma init_ok: "builder_ok C (builder_init C)"
  using init_tracks [of C] by (simp add: builder_ok_def tracks_def)

lemma on_time_ok: "builder_ok C st \<Longrightarrow> builder_ok C (snd (on_time_ns C now st))"
  using on_time_step [of C st now "fst (on_time_ns C now st)" "snd (on_time_ns C now st)"]
  by (simp add: builder_ok_def closed_for_def)

lemma on_time_due: "builder_ok C st \<Longrightarrow> now - lc_grace C < never \<Longrightarrow> now - lc_grace C < lb_next_due (snd (on_time_ns C now st))"
  using on_time_step [of C st now "fst (on_time_ns C now st)" "snd (on_time_ns C now st)"]
  by (simp add: builder_ok_def)

text \<open>A quote changes no closing time of what is waiting, except that it may begin a bar.\<close>

lemma take_quote_waiting:
  assumes "a \<in> set (waiting (take_quote q m st) s)"
  shows "(\<exists>b \<in> set (waiting st s). mb_close_time a = mb_close_time b) \<or>
    mb_close_time a = m + ns_per_minute \<and> lb_next_due (take_quote q m st) \<le> m + ns_per_minute"
  using assms
  by (auto simp: take_quote_def Let_def waiting_def put_last_def agg_first_def add_quote_def
      split: option.splits if_splits)

lemma take_quote_due:
  "lb_next_due (take_quote q m st) \<le> lb_next_due st"
  "c < lb_next_due st \<Longrightarrow> c < m + ns_per_minute \<Longrightarrow> c < lb_next_due (take_quote q m st)"
  by (auto simp: take_quote_def Let_def split: option.splits)

lemma take_quote_ok:
  assumes "builder_ok C st" and "qt_symbol q \<in> set (live_symbols C)"
  shows "builder_ok C (take_quote q m st)"
proof -
  have "dicts_ok C (take_quote q m st)"
    using assms by (auto simp: builder_ok_def take_quote_def Let_def dicts_ok_def put_last_def insert_absorb split: option.split)
  moreover have "lb_next_due (take_quote q m st) \<le> mb_close_time a" if w: "is_waiting (take_quote q m st) a" for a
  proof -
    have h: "lb_htf (take_quote q m st) = lb_htf st" by (auto simp: take_quote_def Let_def split: option.split)
    have b: "lb_next_due (take_quote q m st) \<le> mb_close_time b" if "is_waiting st b" for b
      using that assms(1) take_quote_due(1) [of q m st] by (fastforce simp: builder_ok_def due_bound_def)
    from w consider s where "a \<in> set (waiting (take_quote q m st) s)" | k where "dict_get (lb_htf st) k = Some a"
      by (auto simp: is_waiting_def h)
    then show ?thesis
    proof cases
      case (1 s)
      from take_quote_waiting [OF 1] show ?thesis
      proof
        assume "\<exists>b \<in> set (waiting st s). mb_close_time a = mb_close_time b"
        then obtain b' where b': "b' \<in> set (waiting st s)" "mb_close_time a = mb_close_time b'" by blast
        then have "is_waiting st b'" by (auto simp: is_waiting_def)
        from b [OF this] b'(2) show ?thesis by simp
      qed simp
    next
      case (2 k)
      then have "is_waiting st a" unfolding is_waiting_def by blast
      then show ?thesis by (rule b)
    qed
  qed
  ultimately show ?thesis by (simp add: builder_ok_def due_bound_def)
qed

lemma late_ok: "builder_ok C (st\<lparr>lb_late := n\<rparr>) = builder_ok C st"
  by (simp add: builder_ok_def dicts_ok_def due_bound_def is_waiting_def waiting_def)

lemma quote_ok:
  assumes "builder_ok C st"
  shows "builder_ok C (snd (builder_on_quote C q st))"
proof -
  obtain out u where u: "on_time_ns C (to_ns (qt_time q)) st = (out, u)" by fastforce
  with on_time_ok [OF assms, of "to_ns (qt_time q)"] have "builder_ok C u" by simp
  moreover have "qt_symbol q \<in> dict_keys (lb_done st) \<longleftrightarrow> qt_symbol q \<in> set (live_symbols C)"
    using assms by (simp add: builder_ok_def dicts_ok_def)
  ultimately show ?thesis by (auto simp: builder_on_quote_def builder_on_time_def u Let_def late_ok intro: take_quote_ok)
qed

lemma feed_ok: "builder_ok C (snd (feed_all C xs))"
proof (induction xs rule: rev_induct)
  case Nil
  then show ?case by (simp add: feed_all_def init_ok)
next
  case (snoc x xs)
  obtain out st where st: "feed_all C xs = (out, st)" by fastforce
  have "snd (feed_all C (xs @ [x])) = snd (feed_one C x st)"
    using st by (simp add: feed_all_def feed_step_def split: prod.split)
  with snoc st show ?case
    using quote_ok [of C st] on_time_ok [of C st] by (cases x) (simp_all add: builder_on_time_def)
qed

text \<open>Asked a second time about the same quote, the builder has nothing left to hand out.\<close>

lemma asked_once:
  assumes "builder_ok C st" and "to_ns (qt_time q) - lc_grace C < never" and "0 \<le> lc_grace C"
  shows "to_ns (qt_time q) - lc_grace C < lb_next_due (snd (builder_on_quote C q st))"
proof -
  let ?c = "to_ns (qt_time q) - lc_grace C"
  obtain out u where u: "on_time_ns C (to_ns (qt_time q)) st = (out, u)" by fastforce
  with on_time_due [OF assms(1,2)] have due: "?c < lb_next_due u" by simp
  have "?c < to_ns (qt_time q) - to_ns (qt_time q) mod ns_per_minute + ns_per_minute"
    using assms(3) minute_bounds(2) [of q] by (simp add: minute_of_def)
  from take_quote_due(2) [OF due this] due show ?thesis
    by (simp add: builder_on_quote_def builder_on_time_def u Let_def)
qed

lemma asked_again:
  assumes "to_ns (qt_time q) - lc_grace C < lb_next_due st"
  shows "fst (builder_on_quote C q st) = []"
  using assms by (simp add: builder_on_quote_def builder_on_time_def on_time_ns_def Let_def)

section \<open>Frames\<close>

text \<open>A relation between two states of the engine that is kept by all that leaves the outbox and the sessions alone.\<close>

definition same_builder :: "'s engine_service \<Rightarrow> 's engine_service \<Rightarrow> bool" where
  "same_builder g g' \<longleftrightarrow> gs_builder g' = gs_builder g \<and> gs_runners g' = gs_runners g"

interpretation same_builder: step_rel same_builder
  by unfold_locales (auto simp: same_builder_def)

lemma sessions_frame: "keeps same_builder (for_sessions E m)"
  unfolding for_sessions_def
  by (intro same_builder.keeps_for_each same_builder.keeps_prod)
    (auto simp: keeps_def on_session_def same_builder_def split: prod.split)

lemma no_bars: "on_bars L R [] r = (Inr [], r)"
  by (simp add: on_bars_def mine_def ret_def)

lemma feed_nothing: "gs_runners (snd (feed_runner E k L [] g)) = gs_runners g"
  by (simp add: feed_runner_def no_bars bnd_def modif_def engine_route_def Let_def)

lemma feed_runner_frame:
  "gs_builder (snd (feed_runner E j L es g)) = gs_builder g"
  "k \<noteq> j \<Longrightarrow> gs_runners (snd (feed_runner E j L es g)) ! k = gs_runners g ! k"
  by (simp_all add: feed_runner_def bnd_def modif_def engine_route_def Let_def split: prod.split sum.split)

section \<open>Several runners\<close>

lemma quote_runner_eq:
  "quote_runner E q (k, L) g = feed_runner E k L (fst (builder_on_quote (ge_builder E) q (gs_builder g)))
     (g\<lparr>gs_builder := snd (builder_on_quote (ge_builder E) q (gs_builder g))\<rparr>)"
  by (simp add: quote_runner_def on_engine_builder_def bnd_def split_def)

text \<open>Once the builder was asked about a quote, the runners asked later get nothing.\<close>

lemma later_runners:
  assumes "builder_ok (ge_builder E) (gs_builder g)" and "to_ns (qt_time q) - lc_grace (ge_builder E) < lb_next_due (gs_builder g)"
    and "to_ns (qt_time q) - lc_grace (ge_builder E) < never" and "0 \<le> lc_grace (ge_builder E)"
  shows "gs_runners (snd (for_each (quote_runner E q) ks g)) = gs_runners g"
  using assms(1,2)
proof (induction ks arbitrary: g)
  case Nil
  then show ?case by (simp add: ret_def)
next
  case (Cons kL ks)
  obtain k L where kL: "kL = (k, L)" by fastforce
  let ?b = "snd (builder_on_quote (ge_builder E) q (gs_builder g))"
  have "fst (builder_on_quote (ge_builder E) q (gs_builder g)) = []" by (rule asked_again [OF Cons.prems(2)])
  then have q: "quote_runner E q kL g = feed_runner E k L [] (g\<lparr>gs_builder := ?b\<rparr>)"
    by (simp add: quote_runner_eq kL)
  obtain x g' where run: "quote_runner E q kL g = (x, g')" by fastforce
  have same: "gs_runners g' = gs_runners g" "gs_builder g' = ?b"
    using run q feed_nothing [of E k L "g\<lparr>gs_builder := ?b\<rparr>"] feed_runner_frame(1) [of E k L "[]" "g\<lparr>gs_builder := ?b\<rparr>"]
    by simp_all
  have "builder_ok (ge_builder E) (gs_builder g')" using quote_ok [OF Cons.prems(1)] same by simp
  moreover have "to_ns (qt_time q) - lc_grace (ge_builder E) < lb_next_due (gs_builder g')"
    using asked_once [OF Cons.prems(1) assms(3,4)] same by simp
  ultimately show ?case
    using Cons.IH [of g'] same by (cases x) (simp_all add: seq_def bnd_def run)
qed

lemma first_runner_only:
  assumes "builder_ok (ge_builder E) (gs_builder g)" and "to_ns (qt_time q) - lc_grace (ge_builder E) < never"
    and "0 \<le> lc_grace (ge_builder E)" and "0 < k"
  shows "gs_runners (snd (for_each (quote_runner E q) (numbered Ls) g)) ! k = gs_runners g ! k"
proof (cases Ls)
  case (Cons L rest)
  obtain ks where ks: "numbered Ls = (0, L) # ks"
    by (simp add: numbered_def Cons upt_conv_Cons del: upt_Suc)
  let ?b = "snd (builder_on_quote (ge_builder E) q (gs_builder g))"
  obtain es where q: "quote_runner E q (0, L) g = feed_runner E 0 L es (g\<lparr>gs_builder := ?b\<rparr>)"
    using quote_runner_eq by blast
  obtain x g' where run: "quote_runner E q (0, L) g = (x, g')" by fastforce
  have same: "gs_runners g' ! k = gs_runners g ! k" "gs_builder g' = ?b"
    using run q feed_runner_frame(2) [of k 0 E L es "g\<lparr>gs_builder := ?b\<rparr>"] feed_runner_frame(1) [of E 0 L es "g\<lparr>gs_builder := ?b\<rparr>"] assms(4)
    by simp_all
  have "gs_runners (snd (for_each (quote_runner E q) ks g')) = gs_runners g'"
    by (rule later_runners) (use quote_ok [OF assms(1)] asked_once [OF assms(1-3)] same assms(2,3) in simp_all)
  with same show ?thesis by (cases x) (simp_all add: ks seq_def bnd_def run)
qed (simp add: numbered_def ret_def)

lemma quote_reaches_first:
  assumes "builder_ok (ge_builder E) (gs_builder g)" and "to_ns (qt_time q) - lc_grace (ge_builder E) < never"
    and "0 \<le> lc_grace (ge_builder E)" and "0 < k"
  shows "gs_runners (snd (engine_quote E q g)) ! k = gs_runners g ! k"
proof -
  let ?g = "g\<lparr>gs_quotes := dict_set (qt_symbol q) q (gs_quotes g)\<rparr>"
  obtain x h where run: "for_sessions E (\<lambda>N. session_on_quote N q) ?g = (x, h)" by fastforce
  have "same_builder ?g h" by (rule keepsD [OF sessions_frame run])
  then have same: "gs_builder h = gs_builder g" "gs_runners h = gs_runners g" by (simp_all add: same_builder_def)
  show ?thesis
    using first_runner_only [of E h q k "ge_strategies E"] assms same
    by (cases x) (simp_all add: engine_quote_def seq_def bnd_def modif_def run)
qed

end
