(* ===== verification/Live_Outbox.thy ===== *)
theory Live_Outbox
  imports Live_Service
begin

text \<open>What the engine puts into its outbox: relations kept by the parts of its handlers.\<close>

section \<open>What a runner returns\<close>

text \<open>A fact about the result of a loop, whatever the state.\<close>

lemma fold_each_result:
  assumes "\<And>x acc s y t. P acc \<Longrightarrow> f x acc s = (Inr y, t) \<Longrightarrow> P y" and "P acc" and "fold_each f xs acc s = (Inr y, t)"
  shows "P y"
  using assms(2,3)
proof (induction xs arbitrary: acc s)
  case Nil
  then show ?case by (simp add: ret_Inr)
next
  case (Cons x xs)
  then obtain z u where "f x acc s = (Inr z, u)" "fold_each f xs z u = (Inr y, t)" by (auto simp: bnd_Inr)
  with Cons.IH assms(1) [OF Cons.prems(1)] show ?case by blast
qed

definition own_signal :: "manifest \<Rightarrow> engine_request \<Rightarrow> bool" where
  "own_signal m r \<longleftrightarrow> (case r of NewSignal s \<Rightarrow> sg_strategy_id s = mf_id m \<and> sg_strategy_version s = mf_version m \<and>
     sg_symbol s \<in> set (mf_symbols m) | Ask q \<Rightarrow> True)"

lemma checked_own:
  assumes "check_requests m now rs seen = (Inr u, seen')"
  shows "\<forall>r \<in> set rs. own_signal m r"
  using assms
proof (induction rs arbitrary: seen)
  case (Cons r rs)
  then obtain seen1 where "check_request m now r seen = (Inr (), seen1)" and "check_requests m now rs seen1 = (Inr u, seen')"
    by (auto simp: check_requests_def seq_Inr)
  with Cons.IH show ?case
    by (cases r) (auto simp: own_signal_def check_request_def raise_def split: if_splits)
qed simp

lemma call_own:
  assumes "call_strategy L R f r = (Inr rs, r')"
  shows "\<forall>x \<in> set rs. own_signal (ls_manifest L) x"
proof -
  from assms obtain u where "(case check_requests (ls_manifest L) (from_ns (lr_now u)) rs (lr_seen u) of
      (x, seen) \<Rightarrow> (x, u\<lparr>lr_seen := seen\<rparr>)) = (Inr (), r')"
    by (auto simp: call_strategy_def bnd_Inr seq_Inr gets_Inr ret_Inr)
  then obtain seen where "check_requests (ls_manifest L) (from_ns (lr_now u)) rs (lr_seen u) = (Inr (), seen)"
    by (auto split: prod.splits)
  then show ?thesis by (rule checked_own)
qed

lemma on_bars_own:
  assumes "on_bars L R es r = (Inr rs, r')"
  shows "\<forall>x \<in> set rs. own_signal (ls_manifest L) x"
proof -
  let ?own = "\<lambda>rs. \<forall>x \<in> set rs. own_signal (ls_manifest L) x"
  let ?call = "\<lambda>e out. bnd (call_strategy L R (\<lambda>st v. ls_on_bar L st v e)) (\<lambda>rs. ret (out @ rs))"
  have one: "?own y" if "?own acc" "?call e acc s = (Inr y, t)" for e acc s y t
    using that call_own [of L R] by (auto simp: bnd_Inr ret_Inr)
  have all: "?own y" if own: "?own acc" and run: "fold_each ?call g acc s = (Inr y, t)" for g acc s y t
    by (rule fold_each_result [where P = ?own, OF one own run])
  have "?own y" if own: "?own acc" and run: "apply_group L R g acc s = (Inr y, t)" for g acc s y t
  proof -
    from run obtain ok u where "(if ok then fold_each ?call g acc else ret acc) u = (Inr y, t)"
      unfolding apply_group_def bnd_Inr seq_Inr by blast
    then consider u where "fold_each ?call g acc u = (Inr y, t)" | "y = acc" by (cases ok) (auto simp: ret_Inr)
    then show ?thesis using all [OF own] own by cases auto
  qed
  from fold_each_result [where P = ?own, OF this _ assms [unfolded on_bars_def]] show ?thesis by simp
qed

section \<open>What a session reports\<close>

definition shadow_only :: "shadow_report \<Rightarrow> bool" where
  "shadow_only x \<longleftrightarrow> (case x of ShadowSignal s \<Rightarrow> True | ShadowTrade t \<Rightarrow> tr_account_id t = ''shadow'')"

definition reported :: "'s session \<Rightarrow> 's session \<Rightarrow> bool" where
  "reported s s' \<longleftrightarrow> (\<exists>new. ss_reports s' = ss_reports s @ new \<and> (\<forall>x \<in> set new. shadow_only x))"

interpretation reported: step_rel reported
  by unfold_locales (auto simp: reported_def ball_Un)

lemma reported_parts: "keeps reported (on_broker m)" "keeps reported (on_runner n)" "keeps reported (on_builder f)"
  by (auto simp: keeps_def on_broker_def on_runner_def on_builder_def reported_def split: prod.split)

lemma reported_emit: "keeps reported emit_trades"
proof -
  have "keeps reported (emit_trade x)" for x :: sim_trade
    unfolding emit_trade_def
    by (intro reported.keeps_if reported.keeps_raise reported.keeps_modif) (simp add: reported_def shadow_only_def to_trade_def)
  then show ?thesis
    unfolding emit_trades_def
    by (intro reported.keeps_bnd reported.keeps_gets reported.keeps_seq reported.keeps_for_each reported.keeps_modif)
      (simp_all add: reported_def)
qed

lemma reported_route: "keeps reported (route_one N r)"
  unfolding route_one_def
  by (cases r) (auto intro!: reported.keeps_seq reported.keeps_modif reported.keeps_ret reported_parts
      simp: reported_def shadow_only_def)

lemma reported_bars: "keeps reported (session_bars N es)" "keeps reported (session_fill N f)"
  unfolding session_bars_def session_fill_def
  by (intro reported.keeps_bnd reported.keeps_gets reported.keeps_for_each reported_parts reported_route)+

lemma reported_rollovers: "keeps reported (session_rollovers N now)"
  unfolding session_rollovers_def
  by (intro reported.keeps_bnd reported.keeps_gets reported.keeps_seq reported.keeps_option reported.keeps_ret
      reported.keeps_for_each reported.keeps_prod reported.keeps_modif reported_parts) (simp add: reported_def)

lemma reported_time: "keeps reported (session_on_time N now)"
  unfolding session_on_time_def
  by (intro reported.keeps_bnd reported.keeps_seq reported_parts reported_emit reported_bars reported_rollovers)

lemma reported_quote: "keeps reported (session_on_quote N q)"
  unfolding session_on_quote_def
  by (intro reported.keeps_bnd reported.keeps_seq reported.keeps_for_each reported_parts reported_emit reported_bars reported_rollovers)

section \<open>What leaves the engine\<close>

definition in_money :: "(string \<times> string, stage) dict \<Rightarrow> 's live_strategy \<Rightarrow> bool" where
  "in_money stages L \<longleftrightarrow>
     (\<exists>st. dict_get stages (mf_id (ls_manifest L), mf_version (ls_manifest L)) = Some st \<and> money_stage st)"

definition may_leave :: "'s engine_env \<Rightarrow> (string \<times> string, stage) dict \<Rightarrow> message \<Rightarrow> bool" where
  "may_leave E stages m \<longleftrightarrow> (case m of
     SignalEmitted t s tf shadow \<Rightarrow>
       shadow \<or> (\<exists>L \<in> set (ge_strategies E). in_money stages L \<and> own_signal (ls_manifest L) (NewSignal s))
   | StrategyRequestEmitted t q \<Rightarrow> (\<exists>L \<in> set (ge_strategies E). in_money stages L)
   | PositionClosed t x \<Rightarrow> tr_account_id x = ''shadow''
   | _ \<Rightarrow> False)"

definition emitted :: "'s engine_env \<Rightarrow> 's engine_service \<Rightarrow> 's engine_service \<Rightarrow> bool" where
  "emitted E g g' \<longleftrightarrow> gs_stages g' = gs_stages g \<and>
     (\<exists>new. gs_out g' = gs_out g @ new \<and> (\<forall>m \<in> set new. may_leave E (gs_stages g) (snd m)))"

interpretation emitted: step_rel "emitted E"
  by unfold_locales (auto simp: emitted_def ball_Un)

lemma emitted_session:
  assumes "keeps reported m"
  shows "keeps (emitted E) (on_session N k m)"
  unfolding keeps_def
proof
  fix g
  show "emitted E g (snd (on_session N k m g))"
  proof (cases "k < length (gs_sessions g)")
    case True
    obtain x s where run: "m (gs_sessions g ! k) = (x, s)" by fastforce
    with assms have "reported (gs_sessions g ! k) s" by (rule keepsD)
    then obtain new where new: "ss_reports s = ss_reports (gs_sessions g ! k) @ new" "\<forall>x \<in> set new. shadow_only x"
      by (auto simp: reported_def)
    have "may_leave E st (snd (report_message tf y))" if "shadow_only y" for st tf y
      using that by (cases y) (simp_all add: report_message_def may_leave_def shadow_only_def)
    with True run new show ?thesis by (auto simp: on_session_def emitted_def)
  qed (simp add: on_session_def emitted_def)
qed

lemma emitted_sessions:
  assumes "\<And>N. keeps reported (m N)"
  shows "keeps (emitted E) (for_sessions E m)"
  unfolding for_sessions_def by (intro emitted.keeps_for_each emitted.keeps_prod emitted_session assms)

lemma emitted_route:
  assumes "L \<in> set (ge_strategies E)" and "\<forall>r \<in> set rs. own_signal (ls_manifest L) r"
  shows "emitted E g (engine_route E L rs g)"
proof -
  let ?st = "dict_get (gs_stages g) (mf_id (ls_manifest L), mf_version (ls_manifest L))"
  let ?money = "case ?st of None \<Rightarrow> False | Some x \<Rightarrow> money_stage x"
  have money: "?money \<longleftrightarrow> in_money (gs_stages g) L" by (auto simp: in_money_def split: option.split)
  show ?thesis
  proof (cases ?money)
    case True
    have "may_leave E (gs_stages g) (snd (case r of
        NewSignal s \<Rightarrow> (SIGNALS, SignalEmitted (sg_created_at s) s tf False)
      | Ask q \<Rightarrow> (REQUESTS, StrategyRequestEmitted (gs_now g) q)))" if "r \<in> set rs" for r tf
    proof -
      have "own_signal (ls_manifest L) r" "in_money (gs_stages g) L" using that assms(2) True money by blast+
      with assms(1) show ?thesis by (cases r) (auto simp: may_leave_def)
    qed
    with True show ?thesis by (auto simp: engine_route_def Let_def emitted_def)
  next
    case False
    then show ?thesis
      by (auto simp: engine_route_def Let_def emitted_def may_leave_def split: engine_request.splits)
  qed
qed

lemma emitted_feed:
  assumes "L \<in> set (ge_strategies E)"
  shows "keeps (emitted E) (feed_runner E k L es)"
  unfolding keeps_def
proof
  fix g
  show "emitted E g (snd (feed_runner E k L es g))"
  proof (cases "k < length (gs_runners g)")
    case True
    obtain x r where run: "on_bars L (engine_surroundings E L g) es (gs_runners g ! k) = (x, r)" by fastforce
    let ?g = "g\<lparr>gs_runners := (gs_runners g)[k := r]\<rparr>"
    show ?thesis
    proof (cases x)
      case (Inr rs)
      with run on_bars_own have "\<forall>x \<in> set rs. own_signal (ls_manifest L) x" by blast
      from emitted_route [OF assms this, of ?g] True run Inr show ?thesis
        by (simp add: feed_runner_def bnd_def modif_def emitted_def)
    qed (use True run in \<open>simp add: feed_runner_def bnd_def emitted_def\<close>)
  qed (simp add: feed_runner_def bnd_def emitted_def)
qed

lemma emitted_builder: "keeps (emitted E) (on_engine_builder f)"
  by (simp add: keeps_def on_engine_builder_def emitted_def split: prod.split)

lemma keeps_numbered:
  assumes "step_rel R" and "\<And>k x. x \<in> set xs \<Longrightarrow> keeps R (f (k, x))"
  shows "keeps R (for_each f (numbered xs))"
proof -
  have "keeps R (for_each f (zip ns xs))" for ns :: "nat list"
    using assms(2)
  proof (induction xs arbitrary: ns)
    case Nil
    then show ?case by (simp add: step_rel.keeps_ret [OF assms(1)])
  next
    case (Cons x xs)
    then show ?case
      by (cases ns) (auto intro: step_rel.keeps_ret [OF assms(1)] step_rel.keeps_seq [OF assms(1)])
  qed
  then show ?thesis by (simp add: numbered_def)
qed

lemma emitted_quote: "keeps (emitted E) (engine_quote E q)"
  unfolding engine_quote_def
proof (intro emitted.keeps_seq emitted_sessions reported_quote keeps_numbered emitted.step_rel_axioms)
  show "keeps (emitted E) (modif (\<lambda>g. g\<lparr>gs_quotes := dict_set (qt_symbol q) q (gs_quotes g)\<rparr>))"
    by (rule emitted.keeps_modif) (simp add: emitted_def)
  show "keeps (emitted E) (quote_runner E q (k, L))" if "L \<in> set (ge_strategies E)" for k L
    unfolding quote_runner_def prod.case by (intro emitted.keeps_bnd emitted_builder emitted_feed that)
qed

lemma emitted_time: "keeps (emitted E) (engine_time E now)"
  unfolding engine_time_def
proof (intro emitted.keeps_seq emitted_sessions reported_time emitted.keeps_bnd emitted_builder keeps_numbered emitted.step_rel_axioms)
  show "keeps (emitted E) (case (k, L) of (k, L) \<Rightarrow> feed_runner E k L es)" if "L \<in> set (ge_strategies E)" for k L es
    unfolding prod.case by (intro emitted_feed that)
qed

end
