(* ===== verification/Shadow_Fills.thy ===== *)
theory Shadow_Fills
  imports Shadow
begin

text \<open>The shadow broker on one quote: every fill, and the trade of every exit.\<close>

section \<open>Loops\<close>

lemma fold_each_inv:
  assumes "\<And>x acc s y t. x \<in> set xs \<Longrightarrow> I acc s \<Longrightarrow> f x acc s = (Inr y, t) \<Longrightarrow> I y t"
    and "I acc s" and "fold_each f xs acc s = (Inr y, t)"
  shows "I y t"
  using assms
proof (induction xs arbitrary: acc s)
  case Nil
  then show ?case by (simp add: ret_Inr)
next
  case (Cons x xs)
  from Cons.prems(3) obtain z u where "f x acc s = (Inr z, u)" and rest: "fold_each f xs z u = (Inr y, t)"
    by (auto simp: bnd_Inr)
  with Cons.prems(1,2) have "I z u" by (metis list.set_intros(1))
  with Cons.IH Cons.prems(1) rest show ?case by (metis list.set_intros(2))
qed

lemma dict_set_entries: "set (dict_set k v d) \<subseteq> insert (k, v) (set d)"
  by (induction d rule: dict_set.induct) auto

section \<open>Fair fills\<close>

definition fair_entry :: "shadow \<Rightarrow> quote \<Rightarrow> fill_view \<Rightarrow> bool" where
  "fair_entry b q f \<longleftrightarrow>
     (\<exists>gid od. (gid, od) \<in> set (sb_pending b) \<and> sg_id (sp_signal od) = fv_signal_id f \<and> sg_side (sp_signal od) = fv_side f \<and>
        sp_lots od = fv_lots f \<and> to_ns (sg_created_at (sp_signal od)) < to_ns (qt_time q) \<and>
        (\<forall>e. sp_expires_ns od = Some e \<longrightarrow> to_ns (qt_time q) < e) \<and> \<not> beyond_stop (sp_signal od) (fv_price f)) \<and>
     (if fv_side f = Buy then qt_ask q \<le> fv_price f else fv_price f \<le> qt_bid q)"

definition fair_exit :: "shadow \<Rightarrow> quote \<Rightarrow> fill_view \<Rightarrow> bool" where
  "fair_exit b q f \<longleftrightarrow>
     (\<exists>p. (fv_position_id f, p) \<in> set (sb_positions b) \<and> sg_side (so_signal p) = fv_side f \<and> so_lots p = fv_lots f \<and>
        so_entry_quote_ns p < to_ns (qt_time q) \<and>
        (fv_exit_reason f = Some ''stop'' \<longrightarrow> (if fv_side f = Buy then fv_price f \<le> so_stop p else so_stop p \<le> fv_price f)) \<and>
        (fv_exit_reason f = Some ''target'' \<longrightarrow> so_target p = Some (fv_price f))) \<and>
     (if fv_side f = Buy then fv_price f \<le> qt_bid q else qt_ask q \<le> fv_price f)"

definition fair_fill :: "shadow \<Rightarrow> quote \<Rightarrow> fill_view \<Rightarrow> bool" where
  "fair_fill b q f \<longleftrightarrow> fv_symbol f = qt_symbol q \<and> (if fv_kind f = EntryFill then fair_entry b q f else fair_exit b q f)"

definition exits_of :: "fill_view list \<Rightarrow> (string \<times> flt \<times> flt) list" where
  "exits_of fs = map (\<lambda>f. (fv_position_id f, fv_price f, fv_lots f)) (filter (\<lambda>f. fv_kind f \<noteq> EntryFill) fs)"

definition trade_exit :: "sim_trade \<Rightarrow> string \<times> flt \<times> flt" where
  "trade_exit x = (si_trade_id x, si_exit_price x, si_lots x)"

definition figures_agree :: "sim_trade \<Rightarrow> bool" where
  "figures_agree x \<longleftrightarrow> si_pnl_net x = si_pnl_gross x - si_commission x + si_swap x \<and>
     si_r_multiple x * si_money_at_risk x = si_pnl_net x \<and> si_money_at_risk x \<noteq> 0 \<and> 0 \<le> si_mae_r x \<and> 0 \<le> si_mfe_r x \<and>
     1 \<le> si_bars_held x"

section \<open>Entries\<close>

lemma open_result:
  assumes "shadow_open F od px t spread s = (Inr fs, s')"
  shows "sb_trades s' = sb_trades s \<and>
    (fs = [] \<and> sb_positions s' = sb_positions s \<or>
     \<not> beyond_stop (sp_signal od) px \<and>
     (\<exists>f. fs = [f] \<and> fv_signal_id f = sg_id (sp_signal od) \<and> fv_symbol f = sg_symbol (sp_signal od) \<and>
        fv_side f = sg_side (sp_signal od) \<and> fv_kind f = EntryFill \<and> fv_price f = px \<and> fv_lots f = sp_lots od) \<and>
     (\<exists>p. sb_positions s' = dict_set (sg_id (sp_signal od)) p (sb_positions s) \<and> so_entry_quote_ns p = t))"
proof (cases "beyond_stop (sp_signal od) px")
  case True
  with assms show ?thesis
    by (auto simp: shadow_open_def Let_def bnd_Inr seq_Inr lift_Inr ret_Inr shadow_reject_def modif_def)
next
  case False
  with assms show ?thesis
    by (auto simp: shadow_open_def Let_def bnd_Inr seq_Inr lift_Inr ret_Inr modif_def)
qed

lemma entry_price_fair:
  assumes "entry_price_of tick s bid ask = Some px" and "0 \<le> tick"
  shows "if sg_side s = Buy then ask \<le> px else px \<le> bid"
  using assms by (cases "sg_side s") (auto simp: entry_price_of_def Let_def split: entry_type.splits if_splits)

definition after_entries :: "shadow \<Rightarrow> quote \<Rightarrow> fill_view list \<Rightarrow> shadow \<Rightarrow> bool" where
  "after_entries b q fills s \<longleftrightarrow> (\<forall>f \<in> set fills. fv_kind f = EntryFill \<and> fair_fill b q f) \<and> sb_trades s = sb_trades b \<and>
     (\<forall>(pid, p) \<in> set (sb_positions s). (pid, p) \<in> set (sb_positions b) \<or> so_entry_quote_ns p = to_ns (qt_time q))"

lemma entry_step:
  assumes mem: "x \<in> set (sb_pending b)" and inv: "after_entries b q fills s" and tick: "0 \<le> tick"
    and run: "try_entry F q tick x fills s = (Inr fs, s')"
  shows "after_entries b q fs s'"
proof -
  obtain gid od where x: "x = (gid, od)" by fastforce
  let ?s = "sp_signal od"
  let ?t = "to_ns (qt_time q)"
  let ?u = "s\<lparr>sb_pending := dict_del gid (sb_pending s)\<rparr>"
  have gone: "after_entries b q fills ?u" using inv by (simp add: after_entries_def)
  consider "fs = fills" "s' = s" | "fs = fills" "s' = ?u"
    | px new where "sg_symbol ?s = qt_symbol q" "to_ns (sg_created_at ?s) < ?t" "\<forall>e. sp_expires_ns od = Some e \<longrightarrow> ?t < e"
        "entry_price_of tick ?s (qt_bid q) (qt_ask q) = Some px"
        "shadow_open F od px ?t (qt_ask q - qt_bid q) ?u = (Inr new, s')" "fs = fills @ new"
    using run unfolding x
    by (fastforce simp: try_entry_def Let_def bnd_Inr seq_Inr ret_Inr modif_def split: if_splits option.splits)
  then show ?thesis
  proof cases
    case 3
    note open_run = open_result [OF 3(5)]
    have entries: "set (dict_set k p d) \<subseteq> insert (k, p) (set d)" for k p and d :: "(string, shadow_position) dict"
      by (rule dict_set_entries)
    have fair: "fair_fill b q f" if "f \<in> set new" for f
    proof -
      from that open_run have f: "new = [f]" "\<not> beyond_stop ?s px" "fv_signal_id f = sg_id ?s" "fv_symbol f = sg_symbol ?s"
        "fv_side f = sg_side ?s" "fv_kind f = EntryFill" "fv_price f = px" "fv_lots f = sp_lots od" by auto
      with entry_price_fair [OF 3(4) tick] 3(1-3) mem x show ?thesis
        by (auto simp: fair_fill_def fair_entry_def)
    qed
    moreover have "fv_kind f = EntryFill" if "f \<in> set new" for f using that open_run by auto
    moreover have "(pid, p) \<in> set (sb_positions b) \<or> so_entry_quote_ns p = ?t" if "(pid, p) \<in> set (sb_positions s')" for pid p
    proof -
      from open_run that entries have "(pid, p) \<in> set (sb_positions s) \<or> so_entry_quote_ns p = ?t" by fastforce
      with inv show ?thesis by (auto simp: after_entries_def)
    qed
    ultimately show ?thesis using inv open_run 3(6) by (auto simp: after_entries_def)
  qed (use inv gone in simp_all)
qed

section \<open>Exits\<close>

lemma close_result:
  assumes "shadow_close F pid p px t reason spread s = (Inr fs, s')"
  shows "\<exists>f x. fs = [f] \<and> fv_position_id f = pid \<and> fv_symbol f = sg_symbol (so_signal p) \<and> fv_side f = sg_side (so_signal p) \<and>
    fv_kind f = ExitFill \<and> fv_exit_reason f = Some reason \<and> fv_price f = px \<and> fv_lots f = so_lots p \<and> sb_trades s' = sb_trades s @ [x] \<and>
    trade_exit x = (pid, px, so_lots p) \<and> figures_agree x"
proof -
  from assms obtain c fx x where x: "shadow_trade c fx pid p px t reason spread = Inr x"
    and s': "sb_trades s' = sb_trades s @ [x]"
    and fs: "\<exists>f. fs = [f] \<and> fv_position_id f = pid \<and> fv_symbol f = sg_symbol (so_signal p) \<and> fv_side f = sg_side (so_signal p) \<and>
      fv_kind f = ExitFill \<and> fv_exit_reason f = Some reason \<and> fv_price f = px \<and> fv_lots f = so_lots p"
    by (auto simp: shadow_close_def Let_def bnd_Inr seq_Inr lift_Inr ret_Inr modif_def)
  have "trade_exit x = (pid, px, so_lots p) \<and> figures_agree x"
    using x by (auto simp: shadow_trade_def Let_def fdiv_def trade_exit_def figures_agree_def split: if_splits)
  with s' fs show ?thesis by blast
qed

lemma exit_of_fair:
  assumes "exit_of p bid ask = Some (reason, px)"
  shows "(if sg_side (so_signal p) = Buy then px \<le> bid else ask \<le> px) \<and>
    (reason = ''stop'' \<longrightarrow> (if sg_side (so_signal p) = Buy then px \<le> so_stop p else so_stop p \<le> px)) \<and>
    (reason = ''target'' \<longrightarrow> so_target p = Some px)"
  using assms by (cases "sg_side (so_signal p)") (auto simp: exit_of_def Let_def close_request_def split: option.splits if_splits)

definition after_exits :: "shadow \<Rightarrow> quote \<Rightarrow> fill_view list \<Rightarrow> shadow \<Rightarrow> bool" where
  "after_exits b q fills s \<longleftrightarrow> (\<forall>f \<in> set fills. fair_fill b q f) \<and>
     (\<exists>new. sb_trades s = sb_trades b @ new \<and> map trade_exit new = exits_of fills \<and> (\<forall>x \<in> set new. figures_agree x))"

lemma exit_step:
  assumes mem: "(pid, p) \<in> set (sb_positions b) \<or> so_entry_quote_ns p = to_ns (qt_time q)" and inv: "after_exits b q fills s"
    and run: "try_exit F q (pid, p) fills s = (Inr fs, s')"
  shows "after_exits b q fs s'"
proof -
  let ?t = "to_ns (qt_time q)"
  let ?p = "marked (if sg_side (so_signal p) = Buy then qt_bid q else qt_ask q) p"
  let ?u = "s\<lparr>sb_positions := dict_set pid ?p (sb_positions s)\<rparr>"
  have u: "after_exits b q fills ?u" using inv by (simp add: after_exits_def)
  have same: "so_signal ?p = so_signal p" "so_lots ?p = so_lots p" by (simp_all add: marked_def)
  consider "fs = fills" "s' = s" | "fs = fills" "s' = ?u"
    | reason px new where "sg_symbol (so_signal p) = qt_symbol q" "so_entry_quote_ns p < ?t"
        "exit_of p (qt_bid q) (qt_ask q) = Some (reason, px)"
        "shadow_close F pid ?p px ?t reason (qt_ask q - qt_bid q) ?u = (Inr new, s')" "fs = fills @ new"
    using run
    by (fastforce simp: try_exit_def Let_def bnd_Inr seq_Inr ret_Inr modif_def split: if_splits option.splits)
  then show ?thesis
  proof cases
    case 3
    obtain f x where f: "new = [f]" "fv_position_id f = pid" "fv_symbol f = sg_symbol (so_signal p)"
      "fv_side f = sg_side (so_signal p)" "fv_kind f = ExitFill" "fv_exit_reason f = Some reason" "fv_price f = px" "fv_lots f = so_lots p"
      and x: "sb_trades s' = sb_trades s @ [x]" "trade_exit x = (pid, px, so_lots p)" "figures_agree x"
      using close_result [OF 3(4)] unfolding same by auto
    have "(pid, p) \<in> set (sb_positions b)" using mem 3(2) by auto
    with f 3(1,2) exit_of_fair [OF 3(3)] have "fair_fill b q f" by (auto simp: fair_fill_def fair_exit_def)
    moreover obtain old where "sb_trades s = sb_trades b @ old" "map trade_exit old = exits_of fills" "\<forall>x \<in> set old. figures_agree x"
      using inv by (auto simp: after_exits_def)
    moreover have "exits_of fs = exits_of fills @ [(pid, px, so_lots p)]" using f 3(5) by (simp add: exits_of_def)
    ultimately show ?thesis
      using inv f(1) x 3(5) unfolding after_exits_def by (intro conjI exI [of _ "old @ [x]"]) auto
  qed (use inv u in simp_all)
qed

section \<open>One quote\<close>

lemma quote_fills:
  assumes "\<And>c. inst_of F (qt_symbol q) = Inr c \<Longrightarrow> 0 \<le> ic_tick_size c" and "shadow_quote F q b = (Inr fills, b')"
  shows "after_exits b q fills b'"
proof -
  let ?b = "b\<lparr>sb_quotes := dict_set (qt_symbol q) q (sb_quotes b)\<rparr>"
  from assms(2) obtain c fs s where c: "inst_of F (qt_symbol q) = Inr c"
    and 1: "fold_each (try_entry F q (ic_tick_size c)) (sb_pending b) [] ?b = (Inr fs, s)"
    and 2: "fold_each (try_exit F q) (sb_positions s) fs s = (Inr fills, b')"
    by (auto simp: shadow_quote_def seq_modif bnd_Inr seq_Inr lift_Inr gets_Inr modif_def)
  have "after_entries b q [] ?b" by (auto simp: after_entries_def)
  moreover have "after_entries b q y t"
    if "x \<in> set (sb_pending b)" "after_entries b q acc u" "try_entry F q (ic_tick_size c) x acc u = (Inr y, t)" for x acc u y t
    by (rule entry_step [OF that(1,2) assms(1) [OF c] that(3)])
  ultimately have e: "after_entries b q fs s" using fold_each_inv [where I = "after_entries b q", OF _ _ 1] by blast
  then have "after_exits b q fs s"
    by (auto simp: after_entries_def after_exits_def exits_of_def filter_empty_conv)
  moreover have "after_exits b q y t" if "x \<in> set (sb_positions s)" "after_exits b q acc u" "try_exit F q x acc u = (Inr y, t)" for x acc u y t
    using that e exit_step [of "fst x" "snd x" b q acc u F y t] by (auto simp: after_entries_def)
  ultimately show ?thesis using fold_each_inv [where I = "after_exits b q", OF _ _ 2] by blast
qed

end
