(* ===== verification/Live_Properties.thy ===== *)
theory Live_Properties
  imports Live_Outbox Shadow_Fills
begin

text \<open>What the live side of the engine promises, and where it breaks its word.\<close>

section \<open>Bars\<close>

text \<open>C15. The minute bars that the builder hands out are the bars of the quotes: fed with quotes and ticks in the
  order of their times, it has handed out, in order and each once, exactly the bars (first, highest, lowest and
  last price, number of quotes) of the minutes that closed by the last time less the grace, and dropped nothing.\<close>

theorem bars_are_their_quotes:
  assumes "sorted (map feed_time xs)" and "\<And>x. x \<in> set xs \<Longrightarrow> 0 \<le> feed_time x" and "0 \<le> lc_grace C" and "xs \<noteq> []"
    and "s \<in> set (live_symbols C)" and "feed_all C xs = (out, st)"
    and "due = filter (\<lambda>a. mb_close_time a \<le> to_ns (feed_time (last xs)) - lc_grace C) (candles s (quotes_in xs))"
  shows "of_symbol s (lb_m1 st) = map (agg_bar s M1) due \<and>
    ((s, M1) \<in> set (lc_subs C) \<longrightarrow> map cb_bar (filter (m1_of_symbol s) out) = map (agg_bar s M1) due) \<and> lb_late st = 0"
proof -
  let ?T = "to_ns (feed_time (last xs))"
  from feed_all_tracks [OF assms(1-4)] assms(6)
  have t: "tracks C ?T (quotes_in xs) out st" and far: "\<forall>a \<in> set (waiting st s). ?T - lc_grace C < mb_close_time a" by simp_all
  then obtain em where em: "tracks_symbol C ?T (quotes_in xs) out st s em" using assms(5) by (auto simp: tracks_def)
  have "due = em"
    using em far by (auto simp: assms(7) tracks_symbol_def filter_id_conv filter_empty_conv not_le)
  moreover have "cb_bar (snd (event_of C s M1 a)) = agg_bar s M1 a" for a by (simp add: event_of_def Let_def)
  ultimately show ?thesis using em t by (simp add: tracks_symbol_def tracks_def comp_def)
qed

definition live_sample :: live_config where
  "live_sample = \<lparr>lc_subs = [(''X'', M1), (''X'', M5)], lc_grace = 1000000000, lc_local = (\<lambda>t. t), lc_shift = day_shift 17 0\<rparr>"

definition tick_at :: "time \<Rightarrow> flt \<Rightarrow> feed" where
  "tick_at t p = FeedQuote \<lparr>qt_symbol = ''X'', qt_bid = p, qt_ask = p + 1, qt_time = t\<rparr>"

definition ticks :: "feed list" where
  "ticks = [tick_at 1000000 10, tick_at 2000000 12, tick_at 59000000 9, tick_at 60500000 11, FeedTime 121000000]"

theorem bars_are_their_quotes_witness:
  "of_symbol ''X'' (lb_m1 (snd (feed_all live_sample ticks))) =
     map (agg_bar ''X'' M1) (candles ''X'' (quotes_in ticks)) \<and>
   map (\<lambda>b. (br_bid_o b, br_bid_h b, br_bid_l b, br_bid_c b, br_volume b)) (lb_m1 (snd (feed_all live_sample ticks))) =
     [(10, 12, 9, 9, 3), (11, 11, 11, 11, 1)]"
proof
  have "of_symbol ''X'' (lb_m1 (snd (feed_all live_sample ticks))) = map (agg_bar ''X'' M1)
      (filter (\<lambda>a. mb_close_time a \<le> to_ns (feed_time (last ticks)) - lc_grace live_sample) (candles ''X'' (quotes_in ticks)))"
  proof (rule bars_are_their_quotes [THEN conjunct1, OF _ _ _ _ _ surjective_pairing refl])
    show "sorted (map feed_time ticks)" "ticks \<noteq> []" by (simp_all add: ticks_def tick_at_def)
    show "0 \<le> feed_time x" if "x \<in> set ticks" for x using that by (auto simp: ticks_def tick_at_def)
    show "0 \<le> lc_grace live_sample" "''X'' \<in> set (live_symbols live_sample)" by (simp_all add: live_sample_def live_symbols_def)
  qed
  moreover have "filter (\<lambda>a. mb_close_time a \<le> to_ns (feed_time (last ticks)) - lc_grace live_sample) (candles ''X'' (quotes_in ticks))
      = candles ''X'' (quotes_in ticks)" by code_simp
  ultimately show "of_symbol ''X'' (lb_m1 (snd (feed_all live_sample ticks))) = map (agg_bar ''X'' M1) (candles ''X'' (quotes_in ticks))"
    by simp
  show "map (\<lambda>b. (br_bid_o b, br_bid_h b, br_bid_l b, br_bid_c b, br_volume b)) (lb_m1 (snd (feed_all live_sample ticks))) =
     [(10, 12, 9, 9, 3), (11, 11, 11, 11, 1)]" by code_simp
qed

section \<open>Runners\<close>

text \<open>A strategy that sends a buy signal on every bar and counts its calls.\<close>

definition live_buyer :: "string \<Rightarrow> nat live_strategy" where
  "live_buyer sid = \<lparr>ls_manifest = \<lparr>mf_id = sid, mf_version = ''1'', mf_symbols = [''X''], mf_timeframes = [M1], mf_demo_only = False\<rparr>,
     ls_warmup = [],
     ls_on_bar = (\<lambda>n v e. (Inr [NewSignal \<lparr>sg_id = sid @ nat_str n, sg_strategy_id = sid, sg_strategy_version = ''1'',
        sg_symbol = ''X'', sg_side = Buy, sg_entry_type = MarketEntry, sg_entry_price = None, sg_stop_price = br_bid_l (cb_bar e) - 5,
        sg_target_price = None, sg_expiry_bars = None, sg_created_at = from_ns (vw_now v), sg_reason = ''bar'', sg_tags = []\<rparr>], n + 1)),
     ls_on_fill = (\<lambda>n v f. (Inr [], n))\<rparr>"

definition live_runner :: "string \<Rightarrow> nat runner" where
  "live_runner sid = (case runner_init (live_buyer sid) 0 [] of Inr r \<Rightarrow> r
     | Inl e \<Rightarrow> \<lparr>lr_series = [], lr_now = 0, lr_seen = [], lr_strategy = 0\<rparr>)"

definition live_engine :: "nat engine_env" where
  "live_engine = \<lparr>ge_sessions = [], ge_strategies = [live_buyer ''a'', live_buyer ''b''],
     ge_builder = \<lparr>lc_subs = shared_subs [live_buyer ''a'', live_buyer ''b''], lc_grace = 1000000000, lc_local = (\<lambda>t. t),
       lc_shift = day_shift 17 0\<rparr>, ge_news = None, ge_shadow_signals = False\<rparr>"

definition live_state :: "stage \<Rightarrow> nat engine_service" where
  "live_state st = \<lparr>gs_stages = [((''a'', ''1''), st), ((''b'', ''1''), st)], gs_account = None, gs_out = [], gs_sessions = [],
     gs_runners = [live_runner ''a'', live_runner ''b''],
     gs_builder = snd (feed_all (ge_builder live_engine) [tick_at 1000000 10]), gs_quotes = [], gs_now = 0\<rparr>"

definition later_tick :: quote where
  "later_tick = \<lparr>qt_symbol = ''X'', qt_bid = 11, qt_ask = 12, qt_time = 62000000\<rparr>"

text \<open>C40. Only the first strategy gets the bars that a quote closes. The service asks its one bar builder again for
  every runner, and the builder hands out a bar once: in every state whose builder has seen some quotes and ticks,
  in whatever order, a quote leaves all runners but the first as they were.\<close>

theorem second_runner_starves:
  assumes "gs_builder g = snd (feed_all (ge_builder E) xs)" and "0 \<le> lc_grace (ge_builder E)"
    and "to_ns (qt_time q) - lc_grace (ge_builder E) < never" and "0 < k"
  shows "gs_runners (snd (engine_quote E q g)) ! k = gs_runners g ! k"
proof (rule quote_reaches_first)
  show "builder_ok (ge_builder E) (gs_builder g)" using feed_ok assms(1) by metis
qed (use assms in simp_all)

theorem second_runner_starves_witness:
  "map lr_strategy (gs_runners (snd (engine_quote live_engine later_tick (live_state Live)))) = [1, 0] \<and>
   gs_runners (snd (engine_quote live_engine later_tick (live_state Live))) ! 1 = gs_runners (live_state Live) ! 1"
proof
  show "gs_runners (snd (engine_quote live_engine later_tick (live_state Live))) ! 1 = gs_runners (live_state Live) ! 1"
  proof (rule second_runner_starves)
    show "gs_builder (live_state Live) = snd (feed_all (ge_builder live_engine) [tick_at 1000000 10])" by (simp add: live_state_def)
  qed (simp_all add: live_engine_def later_tick_def never_def to_ns_def)
  show "map lr_strategy (gs_runners (snd (engine_quote live_engine later_tick (live_state Live)))) = [1, 0]" by code_simp
qed

section \<open>Stages\<close>



section \<open>Shadow trading\<close>

definition shadow_costs :: inst_costs where
  "shadow_costs = \<lparr>ic_symbol = ''X'', ic_quote = ''USD'', ic_contract_size = 10, ic_tick_size = 1/10, ic_min_lot = 1,
     ic_lot_step = 1, ic_max_lot = 100, ic_commission_per_lot_side = 2, ic_swap_long = -3, ic_swap_short = 1,
     ic_swap_mode = SwapMoney, ic_triple_swap_weekday = 2\<rparr>"

definition shadow_sample :: shadow_config where
  "shadow_sample = \<lparr>sf_instruments = [(''X'', shadow_costs)], sf_rates = [], sf_account_ccy = ''USD'', sf_nominal_equity = 100000,
     sf_risk_fraction = 5/1000, sf_min_stop_spreads = 3/2\<rparr>"

definition quote_at :: "time \<Rightarrow> flt \<Rightarrow> quote" where
  "quote_at t p = \<lparr>qt_symbol = ''X'', qt_bid = p, qt_ask = p + 1, qt_time = t\<rparr>"

definition shadow_buy :: signal where
  "shadow_buy = \<lparr>sg_id = ''s1'', sg_strategy_id = ''a'', sg_strategy_version = ''1'', sg_symbol = ''X'', sg_side = Buy,
     sg_entry_type = MarketEntry, sg_entry_price = None, sg_stop_price = 95, sg_target_price = Some 110, sg_expiry_bars = None,
     sg_created_at = 1000000, sg_reason = ''test'', sg_tags = []\<rparr>"

text \<open>A position of eight lots bought at 101, with its stop at 95.\<close>

definition shadow_holding :: shadow where
  "shadow_holding = shadow_fresh\<lparr>sb_quotes := [(''X'', quote_at 2000000 100)],
     sb_positions := [(''s1'', \<lparr>so_signal = shadow_buy, so_lots = 8, so_entry = 101, so_entry_ns = 2000000000, so_stop = 95,
       so_target = Some 110, so_money_at_risk = 480, so_commission = 16, so_spread_cost = 80, so_worst = 101, so_best = 101,
       so_swap = 0, so_entry_quote_ns = 2000000000, so_close_requested = False\<rparr>)]\<rparr>"

text \<open>C18. Shadow trades are what the strategy would really have got. A quote fills only entries that were pending, not
  expired and asked for before it, at the ask or dearer for a buy, at the bid or cheaper for a sell, and never at a
  price beyond the stop; it closes only positions that were open before it, a buy at the bid or cheaper, a sell
  at the ask or dearer, a stop never better than the stop and a target at the target. Every exit is one trade, in
  order, whose net result, result in units of risk and excursions agree with its parts.\<close>

theorem shadow_fills_fair:
  assumes "\<And>c. inst_of F (qt_symbol q) = Inr c \<Longrightarrow> 0 \<le> ic_tick_size c" and "shadow_quote F q b = (Inr fills, b')"
  shows "(\<forall>f \<in> set fills. fair_fill b q f) \<and>
    (\<exists>new. sb_trades b' = sb_trades b @ new \<and> map trade_exit new = exits_of fills \<and> (\<forall>x \<in> set new. figures_agree x))"
  using quote_fills [OF assms] unfolding after_exits_def .

theorem shadow_fills_fair_witness:
  "\<exists>fills b'. shadow_quote shadow_sample (quote_at 3000000 90) shadow_holding = (Inr fills, b') \<and>
     list_all (fair_fill shadow_holding (quote_at 3000000 90)) fills \<and>
     map (\<lambda>f. (fv_kind f, fv_price f, fv_exit_reason f)) fills = [(ExitFill, 90, Some ''stop'')] \<and>
     map (\<lambda>x. (si_entry_price x, si_lots x, si_pnl_net x)) (sb_trades b') = [(101, 8, -912)]"
proof -
  let ?run = "shadow_quote shadow_sample (quote_at 3000000 90) shadow_holding"
  have fin: "(case fst ?run of Inr fs \<Rightarrow> map (\<lambda>f. (fv_kind f, fv_price f, fv_exit_reason f)) fs | Inl e \<Rightarrow> []) =
      [(ExitFill, 90, Some ''stop'')]" by code_simp
  have trades: "map (\<lambda>x. (si_entry_price x, si_lots x, si_pnl_net x)) (sb_trades (snd ?run)) = [(101, 8, -912)]" by code_simp
  from fin obtain fills b' where run: "?run = (Inr fills, b')" by (cases ?run; cases "fst ?run") auto
  moreover have "\<forall>f \<in> set fills. fair_fill shadow_holding (quote_at 3000000 90) f"
  proof (rule shadow_fills_fair [THEN conjunct1, OF _ run])
    show "0 \<le> ic_tick_size c" if "inst_of shadow_sample (qt_symbol (quote_at 3000000 90)) = Inr c" for c
      using that by (auto simp: inst_of_def shadow_sample_def quote_at_def shadow_costs_def)
  qed
  ultimately show ?thesis using fin trades by (auto simp: list_all_iff)
qed

section \<open>Where the code breaks its word\<close>

definition live_zone :: zone where
  "live_zone = \<lparr>z_date = (\<lambda>t. t div 86400000000), z_roll = (\<lambda>d. d * 86400000000 + 79200000000)\<rparr>"

definition shadow_env :: "nat session_env" where
  "shadow_env = \<lparr>se_strategy = live_buyer ''a'', se_broker = shadow_sample, se_builder = live_sample, se_zone = live_zone\<rparr>"

definition swaps_after :: "time list \<Rightarrow> flt list" where
  "swaps_after ts = map so_swap (map snd (sb_positions (ss_broker (snd (for_each (session_rollovers shadow_env) ts
     \<lparr>ss_broker = shadow_holding, ss_runner = live_runner ''a'', ss_builder = builder_init live_sample, ss_signals = [],
      ss_last_ns = None, ss_n_trades = 0, ss_reports = []\<rparr>)))))"

text \<open>A rollover at 22:00 is charged once when a session sees 21:59:59 and 22:00:01, but twice when it also sees 22:00:00
  itself (the nanosecond added to the last instant is lost in the conversion to microseconds), and twice when a
  quote arrives whose time is a little before a tick of the clock that was already processed.\<close>

theorem swaps_charged_again:
  "swaps_after [79199000000, 79201000000] = [-24] \<and>
   swaps_after [79199000000, 79200000000, 79201000000] = [-48] \<and>
   swaps_after [79199000000, 79200500000, 79199900000, 79201000000] = [-48]"
  by code_simp

text \<open>The check for late quotes looks at one symbol only: a first quote of a quiet symbol whose minute lies before the
  last bar of another symbol makes the bars, when they are handed out, move the runner's time backwards. The
  runner raises, and the quote of the other symbol is lost with the batch.\<close>

definition two_symbols :: "nat live_strategy" where
  "two_symbols = (live_buyer ''a'')\<lparr>ls_manifest := \<lparr>mf_id = ''a'', mf_version = ''1'', mf_symbols = [''X'', ''Y''],
     mf_timeframes = [M1], mf_demo_only = False\<rparr>\<rparr>"

definition quiet_engine :: "nat engine_env" where
  "quiet_engine = \<lparr>ge_sessions = [], ge_strategies = [two_symbols],
     ge_builder = \<lparr>lc_subs = shared_subs [two_symbols], lc_grace = 1000000000, lc_local = (\<lambda>t. t), lc_shift = day_shift 17 0\<rparr>,
     ge_news = None, ge_shadow_signals = False\<rparr>"

definition quiet_start :: "nat engine_service" where
  "quiet_start = \<lparr>gs_stages = [((''a'', ''1''), Live)], gs_account = None, gs_out = [], gs_sessions = [],
     gs_runners = (case runner_init two_symbols 0 [] of Inr r \<Rightarrow> [r] | Inl e \<Rightarrow> []),
     gs_builder = builder_init (ge_builder quiet_engine), gs_quotes = [], gs_now = 0\<rparr>"

definition stale_y :: quote where
  "stale_y = \<lparr>qt_symbol = ''Y'', qt_bid = 5, qt_ask = 6, qt_time = 30000000\<rparr>"

theorem quiet_symbol_breaks_runner:
  "fst (for_each (engine_quote quiet_engine)
     [quote_at 61000000 100, quote_at 122000000 100, stale_y, quote_at 130000000 100] quiet_start) =
       Inl (ValueErr ''market time cannot move backwards'') \<and>
   fst (for_each (engine_quote quiet_engine) [quote_at 61000000 100, quote_at 122000000 100, quote_at 130000000 100] quiet_start) = Inr ()"
  by code_simp

end
