(* ===== verification/Engine_Properties.thy ===== *)
theory Engine_Properties
  imports Engine
begin

text \<open>What the guard of the backtest lets through, and the order of the signals a strategy may return.\<close>

section \<open>Sizing\<close>

lemma half_even_near: "of_int (round_int HalfEven x) \<le> x + 1 / 2"
proof -
  have "of_int \<lfloor>x\<rfloor> \<le> x" "x < of_int \<lfloor>x\<rfloor> + 1" by linarith+
  then show ?thesis unfolding round_int.simps Let_def by (simp split: if_split) linarith
qed

lemma round10_near: "round10 x \<le> x + 1 / 20000000000"
  using half_even_near [of "x * 10000000000"] unfolding round10_def by linarith

definition money_per_lot :: "gate_request \<Rightarrow> flt" where
  "money_per_lot q = \<bar>gq_ref_entry q - sg_stop_price (gq_signal q)\<bar> * ic_contract_size (gq_costs q) * gq_to_account q"

lemma risk_of_lots: "risk_of q lots = money_per_lot q * lots"
  by (simp add: risk_of_def money_per_lot_def)

lemma lots_within:
  assumes "lots_for_risk eq f e st c acc = Inr lots" and "lots \<noteq> 0"
    and pos: "0 < ic_contract_size c" "0 < acc" "0 < ic_lot_step c"
  shows "ic_min_lot c \<le> lots \<and> lots \<le> ic_max_lot c \<and>
    \<bar>e - st\<bar> * ic_contract_size c * acc * lots \<le>
      eq * f + \<bar>e - st\<bar> * ic_contract_size c * acc * (ic_lot_step c / 1000000000 + 1 / 20000000000)"
proof -
  let ?m = "\<bar>e - st\<bar> * ic_contract_size c * acc"
  let ?raw = "eq * f / ?m"
  let ?steps = "of_int \<lfloor>?raw / ic_lot_step c + 1 / 1000000000\<rfloor> :: flt"
  have dist: "0 < \<bar>e - st\<bar>" using assms(1,2) by (auto simp: lots_for_risk_def Let_def split: if_splits)
  then have m: "0 < ?m" using pos by simp
  then have lots: "lots = min (round10 (?steps * ic_lot_step c)) (ic_max_lot c)" "\<not> lots < ic_min_lot c"
    using assms(1,2) pos by (auto simp: lots_for_risk_def fdiv_def Let_def split: if_splits)
  have "?steps \<le> ?raw / ic_lot_step c + 1 / 1000000000" by linarith
  then have "?steps * ic_lot_step c \<le> (?raw / ic_lot_step c + 1 / 1000000000) * ic_lot_step c"
    using pos(3) by (simp add: mult_right_mono)
  also have "\<dots> = ?raw + ic_lot_step c / 1000000000" using pos(3) by (simp add: field_simps)
  finally have "lots \<le> ?raw + (ic_lot_step c / 1000000000 + 1 / 20000000000)"
    using lots(1) round10_near [of "?steps * ic_lot_step c"] by linarith
  then have "?m * lots \<le> ?m * (?raw + (ic_lot_step c / 1000000000 + 1 / 20000000000))"
    using m by (simp only: mult_left_mono less_imp_le)
  also have "\<dots> = eq * f + ?m * (ic_lot_step c / 1000000000 + 1 / 20000000000)"
    using m dist pos by (simp add: distrib_left)
  finally show ?thesis using lots by (metis min.cobounded2 not_less)
qed

definition wrong_side :: "gate_request \<Rightarrow> bool" where
  "wrong_side q \<longleftrightarrow>
     sg_side (gq_signal q) = Buy \<and> sg_stop_price (gq_signal q) \<ge> gq_ref_entry q \<or>
     sg_side (gq_signal q) = Sell \<and> sg_stop_price (gq_signal q) \<le> gq_ref_entry q"

lemma guard_decide_run:
  "guard_decide q g =
     (if wrong_side q then guard_reject ''stop on wrong side of entry'' g
      else if \<bar>gq_ref_entry q - sg_stop_price (gq_signal q)\<bar> < gd_min_stop_spreads g * gq_spread q
      then guard_reject ''stop closer than 1.5 x spread'' g
      else case lots_for_risk (gq_equity q) (gd_risk_fraction g) (gq_ref_entry q) (sg_stop_price (gq_signal q))
                  (gq_costs q) (gq_to_account q) of
             Inl e \<Rightarrow> (Inl e, g)
           | Inr lots \<Rightarrow>
               if lots = 0 then guard_reject ''size below min lot'' g
               else if gd_open_risk_total_max g * gq_equity q < gq_open_risk q + risk_of q lots
               then guard_reject ''total open risk limit'' g
               else (Inr (lots, []), g))"
  unfolding guard_decide_def wrong_side_def Let_def
  by (auto simp: bnd_def gets_def lift_def ret_def raise_def split: sum.splits)

text \<open>C38. What the guard of the backtest admits has its stop on the losing side of the entry and at least the
  configured number of spreads away, a size within the instrument's limits, a risk of at most the configured
  fraction of the equity (up to the two roundings of the size), and keeps the total open risk within its limit.\<close>

theorem guard_admits:
  assumes "guard_decide q g = (Inr (lots, reasons), g')" and "lots \<noteq> 0"
    and "0 < ic_contract_size (gq_costs q)" and "0 < gq_to_account q" and "0 < ic_lot_step (gq_costs q)"
  shows "(if sg_side (gq_signal q) = Buy then sg_stop_price (gq_signal q) < gq_ref_entry q
      else gq_ref_entry q < sg_stop_price (gq_signal q)) \<and>
    gd_min_stop_spreads g * gq_spread q \<le> \<bar>gq_ref_entry q - sg_stop_price (gq_signal q)\<bar> \<and>
    ic_min_lot (gq_costs q) \<le> lots \<and> lots \<le> ic_max_lot (gq_costs q) \<and>
    risk_of q lots \<le> gq_equity q * gd_risk_fraction g +
      money_per_lot q * (ic_lot_step (gq_costs q) / 1000000000 + 1 / 20000000000) \<and>
    gq_open_risk q + risk_of q lots \<le> gd_open_risk_total_max g * gq_equity q \<and> reasons = [] \<and> g' = g"
proof -
  let ?g = "gq_signal q"
  have rejected: "guard_reject why s \<noteq> (Inr (lots, reasons), g')" for why s
    using assms(2) by (auto simp: guard_reject_def seq_def bnd_def modif_def ret_def)
  note run = assms(1) [unfolded guard_decide_run]
  have sides: "\<not> wrong_side q" using run rejected by auto
  moreover from this have away: "\<not> \<bar>gq_ref_entry q - sg_stop_price ?g\<bar> < gd_min_stop_spreads g * gq_spread q"
    using run rejected by auto
  ultimately obtain k where size: "lots_for_risk (gq_equity q) (gd_risk_fraction g) (gq_ref_entry q) (sg_stop_price ?g)
      (gq_costs q) (gq_to_account q) = Inr k"
    and rest: "(if k = 0 then guard_reject ''size below min lot'' g
      else if gd_open_risk_total_max g * gq_equity q < gq_open_risk q + risk_of q k then guard_reject ''total open risk limit'' g
      else (Inr (k, []), g)) = (Inr (lots, reasons), g')"
    using run by (auto split: sum.splits)
  have total: "\<not> gd_open_risk_total_max g * gq_equity q < gq_open_risk q + risk_of q k" and same: "k = lots" "reasons = []" "g' = g"
    using rest rejected by (auto split: if_splits)
  from lots_within [OF size [unfolded same(1)] assms(2-5)] sides away total same show ?thesis
    by (cases "sg_side ?g") (simp_all add: wrong_side_def risk_of_lots money_per_lot_def not_less not_le)
qed

definition guard_sample :: gate_request where
  "guard_sample = \<lparr>gq_signal = \<lparr>sg_id = ''s1'', sg_strategy_id = ''swing'', sg_strategy_version = ''1'',
     sg_symbol = ''X'', sg_side = Buy, sg_entry_type = MarketEntry, sg_entry_price = None,
     sg_stop_price = 98, sg_target_price = None, sg_expiry_bars = None, sg_created_at = 0,
     sg_reason = [], sg_tags = []\<rparr>, gq_ref_entry = 102, gq_spread = 1, gq_equity = 1000, gq_open_risk = 0,
     gq_costs = \<lparr>ic_symbol = ''X'', ic_quote = ''USD'', ic_contract_size = 10, ic_tick_size = 1/10,
     ic_min_lot = 1, ic_lot_step = 1, ic_max_lot = 100, ic_commission_per_lot_side = 2, ic_swap_long = -3,
     ic_swap_short = 1, ic_swap_mode = SwapMoney, ic_triple_swap_weekday = 2\<rparr>, gq_to_account = 1\<rparr>"

definition guard_config :: guard where
  "guard_config = \<lparr>gd_risk_fraction = 1/2, gd_min_stop_spreads = 3/2, gd_open_risk_total_max = 1, gd_reasons_seen = []\<rparr>"

theorem guard_admits_witness:
  "guard_decide guard_sample guard_config = (Inr (12, []), guard_config) \<and>
   risk_of guard_sample 12 = 480 \<and>
   risk_of guard_sample 12 \<le> gq_equity guard_sample * gd_risk_fraction guard_config +
      money_per_lot guard_sample * (ic_lot_step (gq_costs guard_sample) / 1000000000 + 1 / 20000000000) \<and>
   gq_open_risk guard_sample + risk_of guard_sample 12 \<le> gd_open_risk_total_max guard_config * gq_equity guard_sample"
proof -
  have run: "guard_decide guard_sample guard_config = (Inr (12, []), guard_config)" by code_simp
  have "risk_of guard_sample 12 = 480" by (simp add: risk_of_def guard_sample_def)
  with run guard_admits [OF run] show ?thesis by (simp add: guard_sample_def)
qed

end
