(* ===== verification/Backtest.thy ===== *)
theory Backtest
  imports Engine
begin

text \<open>
  The backtest loop (\<open>engine/backtest.py\<close>): the simulated broker, the guard, the market view and a strategy
  driven over the instants at which a bar closes or a day rolls over. The strategy is a parameter: a function
  of its own state (which also holds its parameters, its random generator and its signal counter) and of the
  view. The rows of the buffers never change during a backtest; they stay in the environment and the state
  holds how many are visible. The metrics of the result are not modelled.
\<close>

section \<open>Inputs and state\<close>

type_synonym 's reply = "(exn + engine_request list) \<times> 's"

record 's bt_env =
  be_manifest :: manifest
  be_m1 :: "(string, full_bar list) dict"
  be_series :: "(series_key, full_bar list) dict"
  be_instruments :: "(string, inst_costs) dict"
  be_costs :: cost_model
  be_rates :: static_rates
  be_initial_equity :: flt
  be_account_ccy :: string
  be_guard :: guard
  be_zone :: zone
  be_promotion :: bool                             \<comment> \<open>\<open>meta["purpose"] == "promotion"\<close>\<close>
  be_warmup :: "(series_key, int) dict"
  be_strategy :: 's
  be_on_bar :: "'s \<Rightarrow> view \<Rightarrow> series_key \<Rightarrow> full_bar \<Rightarrow> 's reply"
  be_on_fill :: "'s \<Rightarrow> view \<Rightarrow> fill_view \<Rightarrow> 's reply"

record 's bt_state =
  bt_sim :: sim
  bt_guard :: guard
  bt_now :: ns
  bt_clock :: time
  bt_ptr :: "(string, nat) dict"
  bt_visible :: "(series_key, nat) dict"
  bt_next_close :: "(series_key, nat) dict"
  bt_signals :: "signal list"
  bt_seen :: "string list"
  bt_curve :: "(ns \<times> flt) list"
  bt_strategy :: 's

definition on_sim :: "(sim, 'a) se \<Rightarrow> ('s bt_state, 'a) se" where
  "on_sim m = (\<lambda>s. case m (bt_sim s) of (x, t) \<Rightarrow> (x, s\<lparr>bt_sim := t\<rparr>))"

definition on_guard :: "(guard, 'a) se \<Rightarrow> ('s bt_state, 'a) se" where
  "on_guard m = (\<lambda>s. case m (bt_guard s) of (x, t) \<Rightarrow> (x, s\<lparr>bt_guard := t\<rparr>))"

definition on_seen :: "(string list, 'a) se \<Rightarrow> ('s bt_state, 'a) se" where
  "on_seen m = (\<lambda>s. case m (bt_seen s) of (x, t) \<Rightarrow> (x, s\<lparr>bt_seen := t\<rparr>))"

definition timeframes :: "'s bt_env \<Rightarrow> timeframe list" where
  "timeframes E = sort_key tf_minutes (mf_timeframes (be_manifest E))"

definition subs :: "'s bt_env \<Rightarrow> series_key list" where
  "subs E = concat (map (\<lambda>symb. map (Pair symb) (timeframes E)) (mf_symbols (be_manifest E)))"

definition m1_of :: "'s bt_env \<Rightarrow> string \<Rightarrow> full_bar list" where
  "m1_of E symb = listed (be_m1 E) symb"

definition rows_of :: "'s bt_env \<Rightarrow> series_key \<Rightarrow> full_bar list" where
  "rows_of E k =
     (case dict_get (be_series E) k of Some rows \<Rightarrow> rows | None \<Rightarrow> if snd k = M1 then m1_of E (fst k) else [])"

definition at_zero :: "('k, nat) dict \<Rightarrow> 'k \<Rightarrow> nat" where
  "at_zero d k = (case dict_get d k of None \<Rightarrow> 0 | Some n \<Rightarrow> n)"

definition buffer_of :: "'s bt_env \<Rightarrow> 's bt_state \<Rightarrow> series_key \<Rightarrow> series_buffer" where
  "buffer_of E s k = (loaded (rows_of E k))\<lparr>sb_visible := at_zero (bt_visible s) k\<rparr>"

definition view_of :: "'s bt_env \<Rightarrow> 's bt_state \<Rightarrow> view" where
  "view_of E s = \<lparr>vw_now = bt_now s,
     vw_bars = market_bars (map (\<lambda>k. (k, buffer_of E s k)) (subs E)),
     vw_spread = (\<lambda>symb. spread_at (cm_spreads (be_costs E)) symb (bt_now s)),
     vw_news = (\<lambda>symb. news_from_times (sm_news_ns (cm_spreads (be_costs E))) symb (bt_now s)),
     vw_positions = (\<lambda>symb. position_views (mf_id (be_manifest E)) symb (bt_sim s)),
     vw_pending = (\<lambda>symb. pending_views (mf_id (be_manifest E)) symb (bt_sim s))\<rparr>"

section \<open>Handling what the strategy returns\<close>

definition risk_left :: "symbol_data \<Rightarrow> open_position \<Rightarrow> flt" where
  "risk_left d p =
     max 0 (if op_side p = Buy then op_entry_price p - op_stop p else op_stop p - op_entry_price p) *
       ic_contract_size (sy_costs d) * op_lots p * sy_to_account d"

definition open_risk :: "symbols \<Rightarrow> sim \<Rightarrow> exn + flt" where
  "open_risk S s =
     sbind (smap (\<lambda>(symb, ps). sbind (symbol_of S symb) (\<lambda>d. Inr (sum_list (map (risk_left d) ps)))) (sim_positions s))
       (\<lambda>xs. Inr (sum_list xs))"

definition reference_price :: "signal \<Rightarrow> sim_bar \<Rightarrow> flt" where
  "reference_price g b =
     (if sg_entry_type g = MarketEntry then (if sg_side g = Buy then mb_ask_c b else mb_bid_c b)
      else dec_or (sg_entry_price g) 0)"

definition size_signal :: "symbols \<Rightarrow> ns \<Rightarrow> timeframe \<Rightarrow> signal \<Rightarrow> symbol_data \<Rightarrow> sim_bar \<Rightarrow> ('s bt_state, unit) se" where
  "size_signal S now tf g d b =
     bnd (gets bt_sim) (\<lambda>sim.
     bnd (lift (sim_equity S sim)) (\<lambda>equity.
     bnd (lift (open_risk S sim)) (\<lambda>risk.
     bnd (on_guard (guard_decide \<lparr>gq_signal = g, gq_ref_entry = reference_price g b, gq_spread = mb_spread b,
            gq_equity = equity, gq_open_risk = risk, gq_costs = sy_costs d, gq_to_account = sy_to_account d\<rparr>))
       (\<lambda>(lots, reasons).
         if lots \<le> 0 then on_sim (modif (reject now ''signal {}'' (sg_id g) (join_with ''; '' reasons)))
         else on_sim (submit_entry g lots now (tf_minutes tf))))))"

definition handle_signal :: "symbols \<Rightarrow> ns \<Rightarrow> timeframe \<Rightarrow> signal \<Rightarrow> ('s bt_state, unit) se" where
  "handle_signal S now tf g =
     seq (modif (\<lambda>s. s\<lparr>bt_signals := bt_signals s @ [g]\<rparr>))
     (bnd (lift (symbol_of S (sg_symbol g))) (\<lambda>d.
      bnd (gets (\<lambda>s. dict_get (sim_last_idx (bt_sim s)) (sg_symbol g))) (\<lambda>last.
        case last of
          None \<Rightarrow> on_sim (modif (reject now ''signal {}'' (sg_id g) ''no price yet''))
        | Some i \<Rightarrow> bnd (lift (bar_at d i)) (size_signal S now tf g d))))"

definition ignore :: "('s, 'a) se \<Rightarrow> ('s, unit) se" where
  "ignore m = bnd m (\<lambda>_. ret ())"

definition handle_request :: "symbols \<Rightarrow> 's bt_env \<Rightarrow> ns \<Rightarrow> timeframe \<Rightarrow> engine_request \<Rightarrow> ('s bt_state, unit) se" where
  "handle_request S E now tf r =
     (let me = mf_id (be_manifest E)
      in case r of
           NewSignal g \<Rightarrow> handle_signal S now tf g
         | Ask (CancelRequest sid ver gid why) \<Rightarrow> ignore (on_sim (sim_cancel me gid now))
         | Ask (CloseRequest sid ver pid why) \<Rightarrow> ignore (on_sim (request_close me pid now close_request))
         | Ask (ModifyStopRequest sid ver pid stop why) \<Rightarrow> ignore (on_sim (modify_stop S me pid stop now)))"

definition handle_all :: "symbols \<Rightarrow> 's bt_env \<Rightarrow> ns \<Rightarrow> timeframe \<Rightarrow> engine_request list \<Rightarrow> ('s bt_state, unit) se" where
  "handle_all S E now tf rs =
     bnd (gets bt_now) (\<lambda>market_now.
     seq (on_seen (check_requests (be_manifest E) (from_ns market_now) rs))
         (for_each (handle_request S E now tf) rs))"

definition ask_strategy :: "'s bt_env \<Rightarrow> ('s \<Rightarrow> view \<Rightarrow> 's reply) \<Rightarrow> ('s bt_state, engine_request list) se" where
  "ask_strategy E f = (\<lambda>s. case f (bt_strategy s) (view_of E s) of (r, st) \<Rightarrow> (r, s\<lparr>bt_strategy := st\<rparr>))"

section \<open>One instant\<close>

definition closed_by :: "full_bar list \<Rightarrow> ns \<Rightarrow> nat" where
  "closed_by rows t = length (takeWhile (\<lambda>b. mb_close_time b \<le> t) rows)"

definition sync_symbol :: "symbols \<Rightarrow> 's bt_env \<Rightarrow> ns \<Rightarrow> string \<Rightarrow> ('s bt_state, unit) se" where
  "sync_symbol S E t symb =
     (let hi = closed_by (m1_of E symb) t
      in bnd (gets (\<lambda>s. at_zero (bt_ptr s) symb)) (\<lambda>ptr.
           when_do (ptr < hi)
             (seq (bnd (gets (\<lambda>s. has_activity symb (bt_sim s))) (\<lambda>active.
                     if active then on_sim (sim_advance S symb ptr hi)
                     else on_sim (modif (\<lambda>b. b\<lparr>sim_last_idx := dict_set symb (hi - 1) (sim_last_idx b)\<rparr>))))
                  (modif (\<lambda>s. s\<lparr>bt_ptr := dict_set symb hi (bt_ptr s)\<rparr>)))))"

definition move_clocks :: "ns \<Rightarrow> ('s bt_state, unit) se" where
  "move_clocks t =
     bnd (gets bt_clock) (\<lambda>c. bnd (lift (advance_to c (from_ns t))) (\<lambda>c.
     seq (modif (\<lambda>s. s\<lparr>bt_clock := c\<rparr>))
     (bnd (gets bt_now) (\<lambda>n. bnd (lift (set_now n t)) (\<lambda>n. modif (\<lambda>s. s\<lparr>bt_now := n\<rparr>))))))"

definition drain_fills :: "('s bt_state, (string \<times> fill_view) list) se" where
  "drain_fills =
     bnd (gets (\<lambda>s. sim_fills (bt_sim s))) (\<lambda>fs.
       seq (on_sim (modif (\<lambda>b. b\<lparr>sim_fills := []\<rparr>))) (ret fs))"

definition deliver_fill :: "symbols \<Rightarrow> 's bt_env \<Rightarrow> ns \<Rightarrow> string \<times> fill_view \<Rightarrow> ('s bt_state, unit) se" where
  "deliver_fill S E t = (\<lambda>(sid, f).
     bnd (ask_strategy E (\<lambda>st v. be_on_fill E st v f)) (handle_all S E t (hd (timeframes E))))"

definition record_equity :: "symbols \<Rightarrow> ns \<Rightarrow> ('s bt_state, unit) se" where
  "record_equity S t =
     bnd (gets bt_sim) (\<lambda>sim. bnd (lift (sim_equity S sim)) (\<lambda>e.
       modif (\<lambda>s. s\<lparr>bt_curve := bt_curve s @ [(t, e)]\<rparr>)))"

definition roll_over :: "symbols \<Rightarrow> (ns, nat) dict \<Rightarrow> ns \<Rightarrow> ('s bt_state, unit) se" where
  "roll_over S rolls t =
     (case dict_get rolls t of
        None \<Rightarrow> ret ()
      | Some wd \<Rightarrow> seq (on_sim (charge_swaps S wd)) (record_equity S t))"

definition close_due :: "'s bt_env \<Rightarrow> ns \<Rightarrow> series_key \<Rightarrow> series_key list \<Rightarrow> ('s bt_state, series_key list) se" where
  "close_due E t k acc =
     bnd (gets (\<lambda>s. (at_zero (bt_next_close s) k, buffer_of E s k))) (\<lambda>(j, b).
       if j < length (rows_of E k) \<and> mb_close_time (rows_of E k ! j) = t
       then bnd (lift (buffer_advance_to (j + 1) b)) (\<lambda>b.
              seq (modif (\<lambda>s. s\<lparr>bt_visible := dict_set k (sb_visible b) (bt_visible s),
                               bt_next_close := dict_set k (j + 1) (bt_next_close s)\<rparr>))
                  (ret (acc @ [k])))
       else if j < length (rows_of E k) \<and> mb_close_time (rows_of E k ! j) < t
       then raise (RuntimeErr [''series bar skipped; timeline is inconsistent''])
       else ret acc)"

text \<open>\<open>warmed()\<close>: a series named by the warm-up but not subscribed is a KeyError.\<close>

fun warmed :: "'s bt_env \<Rightarrow> 's bt_state \<Rightarrow> (series_key \<times> int) list \<Rightarrow> exn + bool" where
  "warmed E s [] = Inr True"
| "warmed E s ((k, n) # ws) =
     (if k \<notin> set (subs E) then Inl (KeyErr (fst k))
      else if n \<le> int (at_zero (bt_visible s) k) then warmed E s ws else Inr False)"

definition check_bar :: "full_bar \<Rightarrow> exn + full_bar" where
  "check_bar b =
     (if from_ns (mb_close_time b) \<le> from_ns (mb_open_time b)
      then Inl (ValueErr ''close_time must be after open_time'') else Inr b)"

definition deliver_bar :: "symbols \<Rightarrow> 's bt_env \<Rightarrow> ns \<Rightarrow> series_key \<Rightarrow> ('s bt_state, unit) se" where
  "deliver_bar S E t k =
     bnd (gets (\<lambda>s. buffer_of E s k)) (\<lambda>b.
     bnd (lift (buffer_row (sb_visible b - 1) b)) (\<lambda>row.
     bnd (lift (check_bar row)) (\<lambda>bar.
     bnd (ask_strategy E (\<lambda>st v. be_on_bar E st v k bar)) (handle_all S E t (snd k)))))"

definition bt_step :: "symbols \<Rightarrow> 's bt_env \<Rightarrow> (ns, nat) dict \<Rightarrow> ns \<Rightarrow> ('s bt_state, unit) se" where
  "bt_step S E rolls t =
     seq (for_each (sync_symbol S E t) (mf_symbols (be_manifest E)))
     (seq (move_clocks t)
     (seq (bnd drain_fills (for_each (deliver_fill S E t)))
     (seq (roll_over S rolls t)
     (bnd (fold_each (close_due E t) (subs E) []) (\<lambda>due.
      when_do (due \<noteq> [])
        (bnd (gets (\<lambda>s. warmed E s (be_warmup E))) (\<lambda>w.
         bnd (lift w) (\<lambda>ok. when_do ok (for_each (deliver_bar S E t) due)))))))))"

section \<open>The whole run\<close>

definition missing :: "'s bt_env \<Rightarrow> bool" where
  "missing E \<longleftrightarrow>
     (\<exists>k \<in> set (subs E). k \<notin> dict_keys (be_series E) \<and> \<not> (snd k = M1 \<and> fst k \<in> dict_keys (be_m1 E))) \<or>
     (\<exists>symb \<in> set (mf_symbols (be_manifest E)). symb \<notin> dict_keys (be_m1 E))"

fun smallest :: "ns list \<Rightarrow> exn + ns" where
  "smallest [] = Inl (ValueErr ''min() arg is an empty sequence'')"
| "smallest (x # xs) = Inr (foldl min x xs)"

fun largest :: "ns list \<Rightarrow> exn + ns" where
  "largest [] = Inl (ValueErr ''max() arg is an empty sequence'')"
| "largest (x # xs) = Inr (foldl max x xs)"

definition first_open :: "full_bar list \<Rightarrow> exn + ns" where
  "first_open rows = (case rows of [] \<Rightarrow> Inl IndexErr | b # bs \<Rightarrow> Inr (mb_open_time b))"

definition last_close :: "full_bar list \<Rightarrow> exn + ns" where
  "last_close rows = (if rows = [] then Inl IndexErr else Inr (mb_close_time (last rows)))"

definition roll_map :: "(ns \<times> nat) list \<Rightarrow> (ns, nat) dict" where
  "roll_map rolls = foldl (\<lambda>d (t, wd). dict_set t wd d) [] rolls"

definition instants :: "'s bt_env \<Rightarrow> (ns \<times> nat) list \<Rightarrow> ns list" where
  "instants E rolls = sort (remdups (map fst rolls @ concat (map (\<lambda>k. map mb_close_time (rows_of E k)) (subs E))))"

definition bt_start :: "'s bt_env \<Rightarrow> sim \<Rightarrow> ns \<Rightarrow> 's bt_state" where
  "bt_start E sim start = \<lparr>bt_sim = sim, bt_guard = be_guard E, bt_now = 0, bt_clock = from_ns start, bt_ptr = [],
     bt_visible = [], bt_next_close = [], bt_signals = [], bt_seen = [], bt_curve = [], bt_strategy = be_strategy E\<rparr>"

record 's bt_setup =
  su_symbols :: symbols
  su_rolls :: "(ns \<times> nat) list"
  su_end :: ns
  su_state :: "'s bt_state"

definition bt_columns :: "'s bt_env \<Rightarrow> exn + symbols \<times> sim" where
  "bt_columns E =
     sim_build (map (\<lambda>symb. (symb, map m1_bar.truncate (m1_of E symb))) (mf_symbols (be_manifest E)))
       (be_instruments E) (be_costs E) (be_rates E) (be_account_ccy E) (be_initial_equity E)"

definition prepare :: "'s bt_env \<Rightarrow> exn + 's bt_setup" where
  "prepare E =
     (let symbols = mf_symbols (be_manifest E)
      in if mf_demo_only (be_manifest E) \<and> be_promotion E
         then Inl (StrategyErr ''demo_only strategies can never be used for promotion'')
         else if missing E then Inl (ValueErr ''missing data'')
         else sbind (bt_columns E) (\<lambda>(S, sim).
              sbind (smap (\<lambda>symb. first_open (m1_of E symb)) symbols) (\<lambda>opens.
              sbind (smallest opens) (\<lambda>start.
              sbind (smap (\<lambda>symb. last_close (m1_of E symb)) symbols) (\<lambda>closes.
              sbind (largest closes) (\<lambda>stop.
                Inr \<lparr>su_symbols = S,
                     su_rolls = rollover_times (be_zone E) (from_ns start) (from_ns stop),
                     su_end = stop, su_state = bt_start E sim start\<rparr>))))))"

definition bt_loop :: "'s bt_env \<Rightarrow> 's bt_setup \<Rightarrow> ns list \<Rightarrow> ('s bt_state, unit) se" where
  "bt_loop E u ts = for_each (bt_step (su_symbols u) E (roll_map (su_rolls u))) ts"

definition drain_symbol :: "symbols \<Rightarrow> 's bt_env \<Rightarrow> string \<Rightarrow> ('s bt_state, unit) se" where
  "drain_symbol S E symb =
     (let n = length (m1_of E symb)
      in bnd (gets (\<lambda>s. at_zero (bt_ptr s) symb)) (\<lambda>ptr.
           when_do (ptr < n)
             (seq (on_sim (sim_advance S symb ptr n)) (modif (\<lambda>s. s\<lparr>bt_ptr := dict_set symb n (bt_ptr s)\<rparr>)))))"

definition bt_finish :: "'s bt_env \<Rightarrow> 's bt_setup \<Rightarrow> ('s bt_state, unit) se" where
  "bt_finish E u =
     seq (for_each (drain_symbol (su_symbols u) E) (mf_symbols (be_manifest E)))
     (seq (on_sim (close_all (su_symbols u) ''end_of_data''))
     (seq (on_sim (modif (\<lambda>b. b\<lparr>sim_fills := []\<rparr>)))
          (record_equity (su_symbols u) (su_end u))))"

record bt_result =
  rr_signals :: "signal list"
  rr_trades :: "sim_trade list"
  rr_curve :: "(ns \<times> flt) list"
  rr_rejections :: "rejection list"

definition run_backtest :: "'s bt_env \<Rightarrow> exn + bt_result" where
  "run_backtest E =
     sbind (prepare E) (\<lambda>u.
       case seq (bt_loop E u (instants E (su_rolls u))) (bt_finish E u) (su_state u) of
         (Inl e, s) \<Rightarrow> Inl e
       | (Inr _, s) \<Rightarrow>
           Inr \<lparr>rr_signals = bt_signals s, rr_trades = sim_trades (bt_sim s), rr_curve = bt_curve s,
                rr_rejections = sim_rejections (bt_sim s)\<rparr>)"

end
