(* ===== verification/Sim_Jumps.thy ===== *)
theory Sim_Jumps
  imports Sim_Broker
begin

text \<open>
  The jumps of the simulator: \<open>advance\<close> looks for the next bar on which anything can happen and skips the
  bars before it; the reference \<open>walk\<close> processes every bar in turn. They are the same computation.
\<close>

section \<open>The first bar with a property\<close>

definition first_in :: "(nat \<Rightarrow> bool) \<Rightarrow> nat \<Rightarrow> nat \<Rightarrow> nat option" where
  "first_in p lo hi = find_first p [lo..<hi]"

lemma find_first_upt:
  "find_first p [lo..<hi] = Some k \<longleftrightarrow> lo \<le> k \<and> k < hi \<and> p k \<and> (\<forall>j \<in> {lo..<k}. \<not> p j)"
proof (induction "hi - lo" arbitrary: lo)
  case 0
  then show ?case by auto
next
  case (Suc n)
  then have "[lo..<hi] = lo # [Suc lo..<hi]" by (simp add: upt_conv_Cons)
  with Suc show ?case
    by (auto simp: Suc_le_eq le_eq_less_or_eq)
qed

lemma first_in_Some: "first_in p lo hi = Some k \<longleftrightarrow> lo \<le> k \<and> k < hi \<and> p k \<and> (\<forall>j \<in> {lo..<k}. \<not> p j)"
  by (simp add: first_in_def find_first_upt)

lemma first_in_None: "first_in p lo hi = None \<longleftrightarrow> (\<forall>j \<in> {lo..<hi}. \<not> p j)"
  by (simp add: first_in_def)

lemma first_in_eqI:
  assumes "\<And>k. r = Some k \<Longrightarrow> lo \<le> k \<and> k < hi \<and> p k \<and> (\<forall>j \<in> {lo..<k}. \<not> p j)"
    and "r = None \<Longrightarrow> \<forall>j \<in> {lo..<hi}. \<not> p j"
  shows "r = first_in p lo hi"
  using assms by (cases r) (metis first_in_None, metis first_in_Some)

lemma find_first_cong: "(\<And>x. x \<in> set xs \<Longrightarrow> p x = q x) \<Longrightarrow> find_first p xs = find_first q xs"
  by (induction xs) auto

lemma first_in_cong: "(\<And>k. lo \<le> k \<Longrightarrow> k < hi \<Longrightarrow> p k = q k) \<Longrightarrow> first_in p lo hi = first_in q lo hi"
  by (auto simp: first_in_def intro!: find_first_cong)

text \<open>Searching only up to the best bar so far.\<close>

lemma sooner_first:
  "sooner (first_in p lo hi) (first_in q lo (horizon (first_in p lo hi) hi)) = first_in (\<lambda>k. p k \<or> q k) lo hi"
proof (rule first_in_eqI)
  fix k
  assume k: "sooner (first_in p lo hi) (first_in q lo (horizon (first_in p lo hi) hi)) = Some k"
  show "lo \<le> k \<and> k < hi \<and> (p k \<or> q k) \<and> (\<forall>j \<in> {lo..<k}. \<not> (p j \<or> q j))"
  proof (cases "first_in p lo hi")
    case None
    with k have "first_in q lo hi = Some k" by (simp add: sooner_def horizon_def split: option.splits)
    with None show ?thesis by (auto simp: first_in_Some first_in_None)
  next
    case (Some b)
    show ?thesis
    proof (cases "first_in q lo (b + 1)")
      case None
      with k Some have "k = b" by (simp add: sooner_def horizon_def)
      with None Some show ?thesis by (auto simp: first_in_Some first_in_None)
    next
      case (Some c)
      with k \<open>first_in p lo hi = Some b\<close> have "k = (if c < b then c else b)"
        by (simp add: sooner_def horizon_def split: if_splits)
      with Some \<open>first_in p lo hi = Some b\<close> show ?thesis
        by (auto simp: first_in_Some split: if_splits)
    qed
  qed
next
  assume n: "sooner (first_in p lo hi) (first_in q lo (horizon (first_in p lo hi) hi)) = None"
  then have "first_in p lo hi = None" by (auto simp: sooner_def split: option.splits if_splits)
  moreover from this n have "first_in q lo hi = None"
    by (simp add: sooner_def horizon_def split: option.splits)
  ultimately show "\<forall>j \<in> {lo..<hi}. \<not> (p j \<or> q j)" by (auto simp: first_in_None)
qed

lemma sooner_both: "sooner (first_in p lo hi) (first_in q lo hi) = first_in (\<lambda>k. p k \<or> q k) lo hi"
proof (rule first_in_eqI)
  fix k
  assume "sooner (first_in p lo hi) (first_in q lo hi) = Some k"
  then show "lo \<le> k \<and> k < hi \<and> (p k \<or> q k) \<and> (\<forall>j \<in> {lo..<k}. \<not> (p j \<or> q j))"
    by (cases "first_in p lo hi"; cases "first_in q lo hi")
      (auto simp: sooner_def first_in_Some first_in_None split: if_splits)
next
  assume "sooner (first_in p lo hi) (first_in q lo hi) = None"
  then show "\<forall>j \<in> {lo..<hi}. \<not> (p j \<or> q j)"
    by (cases "first_in p lo hi"; cases "first_in q lo hi") (auto simp: sooner_def first_in_None split: if_splits)
qed

section \<open>The next event\<close>

definition in_order :: "symbol_data \<Rightarrow> bool" where
  "in_order d \<longleftrightarrow> sorted (map mb_open_time (sy_bars d))"

lemma expiry_first:
  assumes "in_order d" and "hi \<le> length (sy_bars d)"
  shows "expiry_bar d q lo hi = first_in (\<lambda>k. expired q (mb_open_time (sy_bars d ! k))) lo hi"
proof (cases "po_expires_ns q")
  case None
  then have "first_in (\<lambda>k. expired q (mb_open_time (sy_bars d ! k))) lo hi = None"
    by (simp add: expired_def first_in_None)
  with None show ?thesis by (simp add: expiry_bar_def)
next
  case (Some x)
  let ?ts = "open_times d lo hi"
  define n where "n = bisect_left ?ts x"
  have nth: "?ts ! j = mb_open_time (sy_bars d ! (lo + j))" if "lo + j < hi" for j
    using that assms(2) by (simp add: open_times_def)
  have len: "length ?ts = hi - lo" using assms(2) by (simp add: open_times_def)
  have "sorted ?ts" using assms(1) unfolding in_order_def open_times_def
    by (metis drop_map sorted_wrt_drop sorted_wrt_take take_map)
  then have n: "\<forall>j < n. ?ts ! j < x" "n < hi - lo \<longrightarrow> x \<le> ?ts ! n"
    using takeWhile_find [of ?ts x n] len by (auto simp: n_def bisect_left_def)
  have n_le: "n \<le> hi - lo" unfolding n_def bisect_left_def len [symmetric] by (rule length_takeWhile_le)
  have early: "\<not> expired q (mb_open_time (sy_bars d ! k))" if "lo \<le> k" "k < lo + n" for k
  proof -
    have "?ts ! (k - lo) < x" using n(1) that by auto
    then show ?thesis using nth [of "k - lo"] that n_le Some by (auto simp: expired_def)
  qed
  show ?thesis
  proof (rule first_in_eqI)
    fix k
    assume "expiry_bar d q lo hi = Some k"
    with Some have k: "k = lo + n" "k < hi" by (auto simp: expiry_bar_def n_def Let_def split: if_splits)
    then have "expired q (mb_open_time (sy_bars d ! k))"
      using n(2) nth [of n] Some by (auto simp: expired_def)
    with k early show "lo \<le> k \<and> k < hi \<and> expired q (mb_open_time (sy_bars d ! k)) \<and>
        (\<forall>j \<in> {lo..<k}. \<not> expired q (mb_open_time (sy_bars d ! j)))" by auto
  next
    assume "expiry_bar d q lo hi = None"
    with Some have "hi \<le> lo + n" by (auto simp: expiry_bar_def n_def Let_def split: if_splits)
    with early show "\<forall>j \<in> {lo..<hi}. \<not> expired q (mb_open_time (sy_bars d ! j))" by auto
  qed
qed

lemma first_bar_first: "hi \<le> length (sy_bars d) \<Longrightarrow> first_bar d p lo hi = first_in (\<lambda>k. p (sy_bars d ! k)) lo hi"
  by (simp add: first_bar_def first_in_def min_absorb1)

definition pending_event :: "symbol_data \<Rightarrow> sim_bar \<Rightarrow> pending_order \<Rightarrow> bool" where
  "pending_event d b q \<longleftrightarrow> expired q (mb_open_time b) \<or> pending_trigger d q b"

definition bar_event :: "symbol_data \<Rightarrow> string \<Rightarrow> sim \<Rightarrow> sim_bar \<Rightarrow> bool" where
  "bar_event d symb s b \<longleftrightarrow>
     listed (sim_market s) symb \<noteq> [] \<or>
     (\<exists>q \<in> set (listed (sim_pending s) symb). pending_event d b q) \<or>
     (\<exists>p \<in> set (listed (sim_positions s) symb). exit_trigger p b)"

lemma horizon_le: "hi \<le> n \<Longrightarrow> horizon (first_in p lo hi) hi \<le> n"
  by (auto simp: horizon_def first_in_Some split: option.splits)

lemma scan_pending_first:
  assumes "in_order d" and "hi \<le> length (sy_bars d)"
  shows "scan_pending d lo hi qs (first_in p lo hi) =
    first_in (\<lambda>k. p k \<or> (\<exists>q \<in> set qs. pending_event d (sy_bars d ! k) q)) lo hi"
proof (induction qs arbitrary: p)
  case (Cons q qs)
  then show ?case
    by (simp add: expiry_first [OF assms] sooner_both first_bar_first horizon_le assms(2) sooner_first Let_def
        pending_event_def disj_ac)
qed (simp add: first_in_def)

lemma scan_positions_first:
  assumes "hi \<le> length (sy_bars d)"
  shows "scan_positions d lo hi ps (first_in p lo hi) =
    first_in (\<lambda>k. p k \<or> (\<exists>q \<in> set ps. exit_trigger q (sy_bars d ! k))) lo hi"
proof (induction ps arbitrary: p)
  case (Cons q ps)
  then show ?case
    by (simp add: first_bar_first horizon_le assms sooner_first disj_ac)
qed (simp add: first_in_def)

lemma earliest_event_first:
  assumes "in_order d" and "hi \<le> length (sy_bars d)" and "lo < hi"
  shows "earliest_event d symb lo hi s = first_in (\<lambda>k. bar_event d symb s (sy_bars d ! k)) lo hi"
proof -
  have "(if listed (sim_market s) symb \<noteq> [] then Some lo else None) =
      first_in (\<lambda>k. listed (sim_market s) symb \<noteq> []) lo hi"
    using assms(3) by (intro first_in_eqI) (auto split: if_splits)
  then show ?thesis
    unfolding earliest_event_def
    by (simp only: scan_pending_first [OF assms(1,2)] scan_positions_first [OF assms(2)])
      (simp add: bar_event_def disj_ac)
qed

section \<open>A bar without an event\<close>

definition tidy :: "string \<Rightarrow> sim \<Rightarrow> bool" where
  "tidy symb s \<longleftrightarrow> distinct (map fst (sim_market s)) \<and> dict_get (sim_market s) symb \<noteq> Some []"

lemma dict_set_same: "dict_get d k = Some v \<Longrightarrow> dict_set k v d = d"
  by (induction d) auto

lemma dict_del_absent: "dict_get d k = None \<Longrightarrow> dict_del k d = d"
  by (induction d rule: dict_del.induct) (auto split: if_splits)

lemma for_each_skip: "(\<And>x. x \<in> set xs \<Longrightarrow> f x s = (Inr (), s)) \<Longrightarrow> for_each f xs s = (Inr (), s)"
  by (induction xs) (simp_all add: ret_def seq_def bnd_def)

lemma quiet_bar:
  assumes "i < length (sy_bars d)" and "tidy symb s" and "\<not> bar_event d symb s (sy_bars d ! i)"
  shows "process_bar d symb i s = (Inr (), s)"
proof -
  let ?b = "sy_bars d ! i"
  have "listed (sim_market s) symb = []" using assms(3) by (simp add: bar_event_def)
  with assms(2) have none: "dict_get (sim_market s) symb = None"
    by (auto simp: listed_def tidy_def split: option.splits)
  have exits: "check_exit d True i p s = (Inr (), s)" if "p \<in> set (listed (sim_positions s) symb)" for p
  proof -
    have "\<not> exit_trigger p ?b" using assms(3) that by (auto simp: bar_event_def)
    with assms(1) show ?thesis
      by (auto simp: check_exit_def exit_trigger_def bar_at_def lift_def bnd_def ret_def gets_def when_do_def
          split: if_splits)
  qed
  have drops: "when_do (expired q (mb_open_time ?b)) (drop_pending symb q) s = (Inr (), s)"
    and fills: "fill_pending d symb i ?b q s = (Inr (), s)" if "q \<in> set (listed (sim_pending s) symb)" for q
  proof -
    have "\<not> pending_event d ?b q" using assms(3) that by (auto simp: bar_event_def)
    then show "when_do (expired q (mb_open_time ?b)) (drop_pending symb q) s = (Inr (), s)"
      and "fill_pending d symb i ?b q s = (Inr (), s)"
      by (simp_all add: pending_event_def when_do_def fill_pending_def ret_def)
  qed
  have "take_market symb s = (Inr [], s)"
    by (simp add: take_market_def bnd_gets seq_modif dict_del_absent none listed_def ret_def)
  moreover have "for_each (check_exit d True i) (sort_key op_seq (listed (sim_positions s) symb)) s = (Inr (), s)"
    by (rule for_each_skip) (simp add: exits)
  moreover have "for_each (fill_pending d symb i ?b) (sort_key po_seq (listed (sim_pending s) symb)) s = (Inr (), s)"
    by (rule for_each_skip) (simp add: fills)
  moreover have "for_each (\<lambda>q. when_do (expired q (mb_open_time ?b)) (drop_pending symb q))
      (listed (sim_pending s) symb) s = (Inr (), s)"
    by (rule for_each_skip) (rule drops)
  ultimately show ?thesis
    using assms(1) by (simp add: process_bar_def bnd_def seq_def gets_def lift_def bar_at_def ret_def)
qed

section \<open>Jumping is walking\<close>

definition walk :: "symbol_data \<Rightarrow> string \<Rightarrow> nat \<Rightarrow> nat \<Rightarrow> (sim, unit) se" where
  "walk d symb lo hi = for_each (process_bar d symb) [lo..<hi]"

text \<open>Only the first step of a bar touches the market orders; it empties the list of the symbol.\<close>

definition market_kept :: "sim \<Rightarrow> sim \<Rightarrow> bool" where
  "market_kept s t \<longleftrightarrow> sim_market t = sim_market s"

interpretation orders: step_rel market_kept
  by unfold_locales (auto simp: market_kept_def)

lemma lift_keeps: "(\<And>s. R s s) \<Longrightarrow> keeps R (lift r)"
  by (cases r) (simp_all add: keeps_def lift_def raise_def ret_def)

lemmas order_steps = orders.keeps_rules orders.keeps_modif lift_keeps

lemma next_seq_market: "keeps market_kept next_seq"
  unfolding next_seq_def by (intro order_steps) (simp_all add: market_kept_def)

lemma open_pos_market: "keeps market_kept (open_pos d g lots px i slip spread)"
  unfolding open_pos_def Let_def
  by (intro order_steps next_seq_market) (simp_all add: market_kept_def reject_def fill_out_def)

lemma close_pos_market: "keeps market_kept (close_pos d p px i reason slip)"
  unfolding close_pos_def take_out_def Let_def
  by (intro order_steps) (simp_all add: market_kept_def fill_out_def)

lemma check_exit_market: "keeps market_kept (check_exit d a i p)"
  unfolding check_exit_def by (intro order_steps close_pos_market) (simp_all add: market_kept_def)

lemma fill_market_market: "keeps market_kept (fill_market d symb i b mo)"
  unfolding fill_market_def
  by (cases mo) (auto intro!: order_steps close_pos_market open_pos_market simp: market_kept_def)

lemma fill_pending_market: "keeps market_kept (fill_pending d symb i b q)"
  unfolding fill_pending_def drop_pending_def
  by (intro order_steps check_exit_market open_pos_market) (simp_all add: market_kept_def)

lemma market_tidy: "keeps market_kept m \<Longrightarrow> keeps (preserving (tidy symb)) m"
  by (erule keeps_weaken) (simp add: market_kept_def preserving_def tidy_def)

lemma process_bar_tidy: "keeps (preserving (tidy symb)) (process_bar d symb i)"
proof -
  have "keeps (preserving (tidy symb)) (take_market symb)"
    unfolding take_market_def
    by (intro preserve.keeps_rules preserve.keeps_modif) (auto simp: preserving_def tidy_def)
  moreover have "keeps (preserving (tidy symb)) (drop_pending symb q)" for q
    unfolding drop_pending_def
    by (intro preserve.keeps_modif) (auto simp: preserving_def tidy_def)
  ultimately show ?thesis
    unfolding process_bar_def
    by (intro preserve.keeps_rules lift_keeps market_tidy [OF check_exit_market] market_tidy [OF fill_pending_market]
        market_tidy [OF fill_market_market]) (simp_all add: preserving_def)
qed

lemma for_each_append: "for_each f (xs @ ys) s = (case for_each f xs s of (Inl e, t) \<Rightarrow> (Inl e, t) | (Inr _, t) \<Rightarrow> for_each f ys t)"
  by (induction xs arbitrary: s) (auto simp: ret_def seq_def bnd_def split: prod.splits sum.splits)

lemma quiet_bars:
  assumes "hi \<le> length (sy_bars d)" and "tidy symb s"
    and "\<And>k. lo \<le> k \<Longrightarrow> k < hi \<Longrightarrow> \<not> bar_event d symb s (sy_bars d ! k)"
  shows "walk d symb lo hi s = (Inr (), s)"
  unfolding walk_def using assms by (intro for_each_skip quiet_bar) auto

lemma walk_jump:
  assumes "in_order d" and "hi \<le> length (sy_bars d)" and "tidy symb s"
  shows "advance_loop d symb lo hi s = walk d symb lo hi s"
  using assms
proof (induction "hi - lo" arbitrary: lo s rule: less_induct)
  case less
  consider (stop) "\<not> (lo < hi \<and> has_activity symb s)" | (go) "lo < hi" "has_activity symb s" by blast
  then show ?case
  proof cases
    case stop
    then have "walk d symb lo hi s = (Inr (), s)"
    proof (cases "lo < hi")
      case True
      with stop have "\<not> has_activity symb s" by simp
      then show ?thesis
        by (intro quiet_bars less.prems) (auto simp: has_activity_def bar_event_def)
    qed (simp add: walk_def ret_def)
    with stop show ?thesis by (auto simp: advance_loop.simps [of d symb lo])
  next
    case go
    show ?thesis
    proof (cases "earliest_event d symb lo hi s")
      case None
      then have "walk d symb lo hi s = (Inr (), s)"
        by (intro quiet_bars less.prems)
          (auto simp: earliest_event_first [OF less.prems(1,2) go(1)] first_in_None)
      with go None show ?thesis by (simp add: advance_loop.simps [of d symb lo])
    next
      case (Some i)
      then have i: "lo \<le> i" "i < hi" and quiet: "\<And>k. lo \<le> k \<Longrightarrow> k < i \<Longrightarrow> \<not> bar_event d symb s (sy_bars d ! k)"
        by (auto simp: earliest_event_first [OF less.prems(1,2) go(1)] first_in_Some)
      have "[lo..<hi] = [lo..<i] @ i # [i + 1..<hi]"
        using i upt_add_eq_append [of lo i "hi - i"] by (simp add: upt_conv_Cons)
      moreover have "for_each (process_bar d symb) [lo..<i] s = (Inr (), s)"
        using quiet_bars [of i d symb s lo] i less.prems quiet by (simp add: walk_def)
      moreover have "advance_loop d symb (i + 1) hi t = walk d symb (i + 1) hi t"
        if "process_bar d symb i s = (Inr (), t)" for t
        using i go less.prems process_bar_tidy [of symb d i] that
        by (intro less.hyps) (auto dest: keepsD simp: preserving_def)
      ultimately show ?thesis
        using go Some
        by (auto simp: advance_loop.simps [of d symb lo] walk_def for_each_append seq_def bnd_def
            split: prod.splits sum.splits)
    qed
  qed
qed

end
