(* ===== verification/Sim_Sound.thy ===== *)
theory Sim_Sound
  imports Sim_Jumps
begin

text \<open>
  What every state of the simulator satisfies: the account balances to the cent, every position is at risk
  by its initial stop and its stop has only moved towards the price, and no fill is better than the bar it
  happened on. No operation raises.
\<close>

section \<open>The books\<close>

definition book :: "sim \<Rightarrow> open_position list" where
  "book s = concat (map snd (sim_positions s))"

definition paid_in :: "open_position \<Rightarrow> flt" where
  "paid_in p = op_swap p - op_commission p"

definition books :: "sim \<Rightarrow> flt" where
  "books s = sim_balance s - sum_list (map si_pnl_net (sim_trades s)) - sum_list (map paid_in (book s))"

lemma listed_put [simp]: "listed (put_last k x d) j = (if j = k then listed d k @ [x] else listed d j)"
  by (simp add: put_last_def)

lemma sum_list_set:
  "sum_list (map f (concat (map snd (dict_set k ys d)))) =
     sum_list (map f (concat (map snd d))) - sum_list (map f (listed d k)) + (sum_list (map f ys) :: rat)"
  by (induction d rule: dict_set.induct) (auto simp: listed_def)

lemma sum_list_remove1: "x \<in> set xs \<Longrightarrow> sum_list (map f (remove1 x xs)) = sum_list (map f xs) - (f x :: rat)"
  by (induction xs) auto

section \<open>Fair prices\<close>

definition data_ok :: "symbol_data \<Rightarrow> bool" where
  "data_ok d \<longleftrightarrow>
     in_order d \<and> 0 < ic_contract_size (sy_costs d) \<and> 0 < sy_to_account d \<and> 0 \<le> ic_tick_size (sy_costs d) \<and>
     (\<forall>b \<in> set (sy_bars d).
        mb_bid_l b \<le> mb_bid_o b \<and> mb_bid_o b \<le> mb_bid_h b \<and> mb_bid_l b \<le> mb_bid_c b \<and> mb_bid_c b \<le> mb_bid_h b \<and>
        0 \<le> mb_slip b \<and> 0 \<le> mb_spread b \<and>
        mb_ask_o b = mb_bid_o b + mb_spread b \<and> mb_ask_h b = mb_bid_h b + mb_spread b \<and>
        mb_ask_l b = mb_bid_l b + mb_spread b \<and> mb_ask_c b = mb_bid_c b + mb_spread b)"

text \<open>Buying at less than the lowest ask of a bar, or selling above its highest bid, is a price the bar never had.\<close>

definition buyable :: "flt \<Rightarrow> sim_bar \<Rightarrow> bool" where
  "buyable px b \<longleftrightarrow> mb_ask_l b \<le> px"

definition sellable :: "flt \<Rightarrow> sim_bar \<Rightarrow> bool" where
  "sellable px b \<longleftrightarrow> px \<le> mb_bid_h b"

definition fair_entry :: "side \<Rightarrow> flt \<Rightarrow> sim_bar \<Rightarrow> bool" where
  "fair_entry sd px b \<longleftrightarrow> (if sd = Buy then buyable px b else sellable px b)"

definition fair_exit :: "side \<Rightarrow> flt \<Rightarrow> sim_bar \<Rightarrow> bool" where
  "fair_exit sd px b \<longleftrightarrow> (if sd = Buy then sellable px b else buyable px b)"

definition fair_trade :: "symbol_data \<Rightarrow> sim_trade \<Rightarrow> bool" where
  "fair_trade d t \<longleftrightarrow>
     (\<exists>e i. e \<le> i \<and> i < length (sy_bars d) \<and> si_bars_held t = i + 1 - e \<and>
        si_entry_time_ns t = mb_open_time (sy_bars d ! e) \<and>
        si_exit_time_ns t = exit_time_of (sy_bars d ! i) (si_exit_reason t) \<and>
        fair_entry (si_side t) (si_entry_price t) (sy_bars d ! e) \<and>
        (e < i \<longrightarrow> fair_exit (si_side t) (si_exit_price t) (sy_bars d ! i)))"

text \<open>The numbers of a trade agree with each other.\<close>

definition priced :: "sim_trade \<Rightarrow> bool" where
  "priced t \<longleftrightarrow>
     0 < si_money_at_risk t \<and> si_pnl_net t = si_pnl_gross t - si_commission t + si_swap t \<and>
     si_r_multiple t = si_pnl_net t / si_money_at_risk t"

definition trade_ok :: "symbols \<Rightarrow> sim_trade \<Rightarrow> bool" where
  "trade_ok S t \<longleftrightarrow> priced t \<and> (\<exists>d. dict_get S (si_symbol t) = Some d \<and> fair_trade d t)"

section \<open>Sound states\<close>

definition pos_ok :: "symbol_data \<Rightarrow> string \<Rightarrow> open_position \<Rightarrow> bool" where
  "pos_ok d symb p \<longleftrightarrow>
     sg_symbol (op_signal p) = symb \<and> 0 < op_lots p \<and>
     op_money_at_risk p = \<bar>op_entry_price p - op_initial_stop p\<bar> * units d (op_lots p) \<and>
     (if op_side p = Buy then op_initial_stop p < op_entry_price p \<and> op_initial_stop p \<le> op_stop p
      else op_entry_price p < op_initial_stop p \<and> op_stop p \<le> op_initial_stop p) \<and>
     op_entry_idx p < length (sy_bars d) \<and> op_entry_ns p = mb_open_time (sy_bars d ! op_entry_idx p) \<and>
     fair_entry (op_side p) (op_entry_price p) (sy_bars d ! op_entry_idx p)"

definition order_ok :: "string \<Rightarrow> signal \<Rightarrow> flt \<Rightarrow> bool" where
  "order_ok symb g lots \<longleftrightarrow> sg_symbol g = symb \<and> 0 < lots"

definition pending_ok :: "string \<Rightarrow> pending_order \<Rightarrow> bool" where
  "pending_ok symb q \<longleftrightarrow> order_ok symb (po_signal q) (po_lots q) \<and> sg_entry_type (po_signal q) \<noteq> MarketEntry"

definition market_ok :: "string \<Rightarrow> market_order \<Rightarrow> bool" where
  "market_ok symb mo = (case mo of EntryOrder n g lots \<Rightarrow> order_ok symb g lots | CloseOrder n i r \<Rightarrow> True)"

definition orders_ok :: "sim \<Rightarrow> bool" where
  "orders_ok s \<longleftrightarrow>
     distinct (map fst (sim_market s)) \<and> (\<forall>symb. dict_get (sim_market s) symb \<noteq> Some []) \<and>
     (\<forall>symb. \<forall>q \<in> set (listed (sim_pending s) symb). pending_ok symb q) \<and>
     (\<forall>symb. \<forall>mo \<in> set (listed (sim_market s) symb). market_ok symb mo)"

definition book_ok :: "symbols \<Rightarrow> sim \<Rightarrow> bool" where
  "book_ok S s \<longleftrightarrow>
     distinct (map fst (sim_positions s)) \<and> dict_keys (sim_positions s) \<subseteq> dict_keys S \<and>
     (\<forall>symb d. dict_get S symb = Some d \<longrightarrow> (\<forall>p \<in> set (listed (sim_positions s) symb). pos_ok d symb p)) \<and>
     (\<forall>t \<in> set (sim_trades s). trade_ok S t)"

definition sound :: "symbols \<Rightarrow> sim \<Rightarrow> bool" where
  "sound S s \<longleftrightarrow> orders_ok s \<and> book_ok S s"

lemmas sound_defs = sound_def orders_ok_def book_ok_def

text \<open>At bar \<open>i\<close> of a symbol, in an operation that began in \<open>s0\<close>.\<close>

definition at_bar :: "symbols \<Rightarrow> string \<Rightarrow> nat \<Rightarrow> sim \<Rightarrow> sim \<Rightarrow> bool" where
  "at_bar S symb i s0 s \<longleftrightarrow>
     sound S s \<and> (\<forall>p \<in> set (listed (sim_positions s) symb). op_entry_idx p \<le> i) \<and>
     books s = books s0 \<and> sim_last_idx s = sim_last_idx s0 \<and>
     (\<forall>k. k \<noteq> symb \<longrightarrow> listed (sim_positions s) k = listed (sim_positions s0) k)"

lemma runs_fact: "\<lbrakk>\<And>s. P s \<Longrightarrow> C; C \<Longrightarrow> runs P m Q\<rbrakk> \<Longrightarrow> runs P m Q"
  unfolding runs_def by blast

lemma span_nonempty: "\<lbrakk>lo \<le> i; i < length (sy_bars d)\<rbrakk> \<Longrightarrow> span_of f d lo (i + 1) \<noteq> []"
  by (simp add: span_of_def)

lemma excursions_exist:
  assumes "op_entry_idx p \<le> i" and "i < length (sy_bars d)" and "pos_ok d symb p"
  shows "\<exists>x. excursions d p i = Inr x"
proof -
  have "\<exists>x. low_of (span_of f d (op_entry_idx p) (i + 1)) = Inr x"
    and "\<exists>x. high_of (span_of f d (op_entry_idx p) (i + 1)) = Inr x" for f
    using span_nonempty [OF assms(1,2), of f] by (cases "span_of f d (op_entry_idx p) (i + 1)"; simp add: low_of_def high_of_def)+
  moreover have "op_entry_price p \<noteq> op_initial_stop p" using assms(3) by (auto simp: pos_ok_def split: if_splits)
  ultimately show ?thesis
    by (simp add: excursions_def Let_def fdiv_def) (metis (no_types, lifting) sbind.simps(2))
qed

section \<open>Closing and opening\<close>

lemma close_pos_run:
  assumes d: "data_ok d" and i: "op_entry_idx p \<le> i" "i < length (sy_bars d)" and ok: "pos_ok d symb p"
    and mem: "p \<in> set (listed (sim_positions s) symb)"
  obtains r mae mfe where
    "close_pos d p px i reason slip s = (Inr (),
       fill_out (op_signal p) (exit_view p px (sy_bars d ! i) reason)
         (s\<lparr>sim_positions := dict_set symb (remove1 p (listed (sim_positions s) symb)) (sim_positions s),
            sim_balance := sim_balance s + (gross_of d p px - side_commission d (op_lots p)),
            sim_trades := sim_trades s @ [closed_trade_of d p px i (sy_bars d ! i) reason slip r mae mfe]\<rparr>))"
    "r = net_of d p px / op_money_at_risk p" "0 < op_money_at_risk p"
proof -
  have sy: "sg_symbol (op_signal p) = symb" using ok by (simp add: pos_ok_def)
  obtain xs where xs: "dict_get (sim_positions s) symb = Some xs" "p \<in> set xs" "listed (sim_positions s) symb = xs"
    using mem that by (cases "dict_get (sim_positions s) symb") (simp_all add: listed_def)
  have "op_entry_price p \<noteq> op_initial_stop p" using ok by (auto simp: pos_ok_def split: if_splits)
  then have pos: "0 < op_money_at_risk p"
    using ok d by (auto simp: pos_ok_def data_ok_def units_def)
  obtain mae mfe where ex: "excursions d p i = Inr (mae, mfe)"
    using excursions_exist [OF i ok] by fastforce
  show thesis
    by (rule that [of "net_of d p px / op_money_at_risk p" mae mfe])
      (use sy xs pos ex i(2) in \<open>simp_all add: close_pos_def take_out_def seq_def bnd_def modif_def gets_def lift_def
         bar_at_def fdiv_def ret_def fill_out_def\<close>)
qed

lemma close_pos_step:
  assumes S: "dict_get S symb = Some d" and d: "data_ok d" and i: "i < length (sy_bars d)"
    and fair: "op_entry_idx p < i \<Longrightarrow> fair_exit (op_side p) px (sy_bars d ! i)"
    and a: "at_bar S symb i s0 s \<and> p \<in> set (listed (sim_positions s) symb)"
  obtains t where "close_pos d p px i reason slip s = (Inr (), t)" "at_bar S symb i s0 t"
    "listed (sim_positions t) symb = remove1 p (listed (sim_positions s) symb)"
proof -
  from a have ok: "pos_ok d symb p" and e: "op_entry_idx p \<le> i" and mem: "p \<in> set (listed (sim_positions s) symb)"
    using S by (auto simp: at_bar_def sound_defs)
  obtain r mae mfe where run: "close_pos d p px i reason slip s = (Inr (),
       fill_out (op_signal p) (exit_view p px (sy_bars d ! i) reason)
         (s\<lparr>sim_positions := dict_set symb (remove1 p (listed (sim_positions s) symb)) (sim_positions s),
            sim_balance := sim_balance s + (gross_of d p px - side_commission d (op_lots p)),
            sim_trades := sim_trades s @ [closed_trade_of d p px i (sy_bars d ! i) reason slip r mae mfe]\<rparr>))"
      (is "_ = (_, ?t)")
    and r: "r = net_of d p px / op_money_at_risk p" "0 < op_money_at_risk p"
    using close_pos_run [OF d e i ok mem] by metis
  have "fair_trade d (closed_trade_of d p px i (sy_bars d ! i) reason slip r mae mfe)"
    unfolding fair_trade_def
    by (rule exI [of _ "op_entry_idx p"], rule exI [of _ i])
      (use ok e i fair in \<open>simp add: closed_trade_of_def pos_ok_def Let_def\<close>)
  then have "trade_ok S (closed_trade_of d p px i (sy_bars d ! i) reason slip r mae mfe)"
    using ok S r by (simp add: trade_ok_def closed_trade_of_def pos_ok_def priced_def net_of_def Let_def)
  moreover have "books ?t = books s"
    by (simp add: books_def fill_out_def book_def sum_list_set sum_list_remove1 mem paid_in_def closed_trade_of_def
        Let_def net_of_def commission_of_def)
  moreover have "set (remove1 p (listed (sim_positions s) symb)) \<subseteq> set (listed (sim_positions s) symb)"
    by (rule set_remove1_subset)
  moreover have "symb \<in> dict_keys S" using S by (rule get_Some_key)
  ultimately have "at_bar S symb i s0 ?t"
    using a by (auto simp: at_bar_def sound_defs fill_out_def)
  then show thesis by (rule that [OF run]) (simp add: fill_out_def)
qed

lemma close_pos_runs:
  assumes S: "dict_get S symb = Some d" and d: "data_ok d" and i: "i < length (sy_bars d)"
    and fair: "op_entry_idx p < i \<Longrightarrow> fair_exit (op_side p) px (sy_bars d ! i)"
  shows "runs (\<lambda>s. at_bar S symb i s0 s \<and> p \<in> set (listed (sim_positions s) symb))
    (close_pos d p px i reason slip) (\<lambda>_. at_bar S symb i s0)"
  by (rule runsI) (metis close_pos_step [OF S d i fair])

lemma open_pos_runs:
  assumes S: "dict_get S symb = Some d" and i: "i < length (sy_bars d)" and ok: "order_ok symb g lots"
    and fair: "\<not> beyond_stop g px \<Longrightarrow> fair_entry (sg_side g) px (sy_bars d ! i)"
  shows "runs (at_bar S symb i s0) (open_pos d g lots px i slip spread) (\<lambda>_. at_bar S symb i s0)"
proof (rule runsI)
  fix s
  assume a: "at_bar S symb i s0 s"
  show "\<exists>x t. open_pos d g lots px i slip spread s = (Inr x, t) \<and> at_bar S symb i s0 t"
  proof (cases "beyond_stop g px")
    case True
    with i a show ?thesis
      by (auto simp: open_pos_def bnd_def lift_def bar_at_def ret_def seq_def modif_def reject_def at_bar_def
          sound_defs books_def book_def)
  next
    case False
    let ?b = "sy_bars d ! i"
    let ?p = "new_position d g lots px i (mb_open_time ?b) slip spread (sim_seq s + 1)"
    let ?t = "fill_out g (entry_view ?p) (s\<lparr>sim_balance := sim_balance s - side_commission d lots,
                sim_seq := sim_seq s + 1, sim_positions := put_last symb ?p (sim_positions s)\<rparr>)"
    have sy: "sg_symbol g = symb" using ok by (simp add: order_ok_def)
    have run: "open_pos d g lots px i slip spread s = (Inr (Some ?p), ?t)"
      using i False sy by (simp add: open_pos_def bnd_def lift_def bar_at_def ret_def seq_def modif_def gets_def
          next_seq_def Let_def fill_out_def)
    have "pos_ok d symb ?p"
      using False fair [OF False] ok i
      by (cases "sg_side g") (auto simp: pos_ok_def new_position_def order_ok_def beyond_stop_def)
    moreover have "books ?t = books s"
      by (simp add: books_def fill_out_def book_def put_last_def sum_list_set paid_in_def new_position_def)
    moreover have "op_entry_idx ?p = i" by (simp add: new_position_def)
    moreover have "symb \<in> dict_keys S" using S by (rule get_Some_key)
    moreover have "dict_keys (put_last symb ?p (sim_positions s)) = insert symb (dict_keys (sim_positions s))"
      and "distinct (map fst (put_last symb ?p (sim_positions s))) = distinct (map fst (sim_positions s))"
      by (simp_all add: put_last_def)
    ultimately have "at_bar S symb i s0 ?t"
      using a S by (auto simp: at_bar_def sound_defs fill_out_def)
    with run show ?thesis by blast
  qed
qed

lemma ohlc:
  assumes "data_ok d" and "i < length (sy_bars d)"
  shows "mb_bid_l (sy_bars d ! i) \<le> mb_bid_o (sy_bars d ! i)" "mb_bid_o (sy_bars d ! i) \<le> mb_bid_h (sy_bars d ! i)"
    "mb_ask_l (sy_bars d ! i) \<le> mb_ask_o (sy_bars d ! i)" "mb_bid_c (sy_bars d ! i) \<le> mb_bid_h (sy_bars d ! i)"
    "mb_ask_l (sy_bars d ! i) \<le> mb_ask_c (sy_bars d ! i)" "0 \<le> mb_slip (sy_bars d ! i)"
  using assms nth_mem [OF assms(2)] by (auto simp: data_ok_def)

lemmas fair_defs = fair_entry_def fair_exit_def buyable_def sellable_def

lemma check_exit_runs:
  assumes S: "dict_get S symb = Some d" and d: "data_ok d" and i: "i < length (sy_bars d)"
    and sy: "sg_symbol (op_signal p) = symb"
  shows "runs (at_bar S symb i s0) (check_exit d a i p) (\<lambda>_. at_bar S symb i s0)"
proof -
  let ?b = "sy_bars d ! i"
  have close: "runs (\<lambda>s. (at_bar S symb i s0 s \<and> there = (p \<in> set (listed (sim_positions s) symb))))
      (close_pos d p px i reason slip) (\<lambda>_. at_bar S symb i s0)"
    if "there" "op_entry_idx p < i \<Longrightarrow> fair_exit (op_side p) px ?b" for px reason slip there
    using that by (intro runs_weaken [OF close_pos_runs [OF S d i]]) auto
  show ?thesis
    unfolding check_exit_def sy
    by (intro runs_gets runs_when runs_lift runs_if close runs_ret)
      (use ohlc [OF d i] i in \<open>auto simp: bar_at_def reaches_def fair_defs split: option.splits if_splits\<close>)
qed

lemma fill_market_runs:
  assumes S: "dict_get S symb = Some d" and d: "data_ok d" and i: "i < length (sy_bars d)"
    and ok: "market_ok symb mo"
  shows "runs (at_bar S symb i s0) (fill_market d symb i (sy_bars d ! i) mo) (\<lambda>_. at_bar S symb i s0)"
proof (cases mo)
  case (EntryOrder n g lots)
  with ok have "order_ok symb g lots" by (simp add: market_ok_def)
  then have "runs (at_bar S symb i s0) (open_pos d g lots (if sg_side g = Buy then mb_ask_o (sy_bars d ! i) + mb_slip (sy_bars d ! i)
      else mb_bid_o (sy_bars d ! i) - mb_slip (sy_bars d ! i)) i slip spread) (\<lambda>_. at_bar S symb i s0)" for slip spread
    using ohlc [OF d i] by (intro open_pos_runs [OF S i]) (auto simp: fair_defs)
  then show ?thesis by (auto simp: fill_market_def EntryOrder intro!: runs_bnd runs_ret)
next
  case (CloseOrder n pid reason)
  have close: "runs (\<lambda>s. at_bar S symb i s0 s \<and> Some p = find_first (\<lambda>q. op_position_id q = pid) (listed (sim_positions s) symb))
      (close_pos d p px i reason slip) (\<lambda>_. at_bar S symb i s0)"
    if "fair_exit (op_side p) px (sy_bars d ! i)" for p px slip
    using that by (intro runs_weaken [OF close_pos_runs [OF S d i]]) (auto dest: find_first_Some [OF sym])
  show ?thesis
    unfolding fill_market_def CloseOrder market_order.case
  proof (rule runs_gets)
    fix r
    show "runs (\<lambda>s. at_bar S symb i s0 s \<and> r = find_first (\<lambda>q. op_position_id q = pid) (listed (sim_positions s) symb))
       (case r of None \<Rightarrow> ret ()
        | Some p \<Rightarrow> close_pos d p (if op_side p = Buy then mb_bid_o (sy_bars d ! i) - mb_slip (sy_bars d ! i)
                     else mb_ask_o (sy_bars d ! i) + mb_slip (sy_bars d ! i)) i reason (mb_slip (sy_bars d ! i)))
       (\<lambda>_. at_bar S symb i s0)"
      using ohlc [OF d i] by (cases r) (auto intro!: runs_ret close simp: fair_defs)
  qed
qed

lemma at_bar_drop:
  "at_bar S symb i s0 s \<Longrightarrow> at_bar S symb i s0 (s\<lparr>sim_pending := dict_upd symb (remove1 q) (sim_pending s)\<rparr>)"
proof -
  assume a: "at_bar S symb i s0 s"
  have "set (listed (dict_upd symb (remove1 q) (sim_pending s)) k) \<subseteq> set (listed (sim_pending s) k)" for k
    using set_remove1_subset [of q] by (cases "dict_get (sim_pending s) symb") (auto simp: listed_def)
  with a show ?thesis by (fastforce simp: at_bar_def sound_defs books_def book_def)
qed

lemma drop_pending_runs: "runs (at_bar S symb i s0) (drop_pending symb q) (\<lambda>_. at_bar S symb i s0)"
  unfolding drop_pending_def by (intro runs_modif at_bar_drop)

lemma fair_pending:
  assumes "data_ok d" and "i < length (sy_bars d)" and "pending_ok symb q" and "pending_trigger d q (sy_bars d ! i)"
  shows "fair_entry (sg_side (po_signal q)) (fst (entry_fill (po_signal q) (sy_bars d ! i))) (sy_bars d ! i)"
proof -
  have "0 \<le> ic_tick_size (sy_costs d)" using assms(1) by (simp add: data_ok_def)
  then show ?thesis
    using assms(3,4) ohlc [OF assms(1,2)]
    by (cases "sg_entry_type (po_signal q)"; cases "sg_side (po_signal q)")
      (auto simp: pending_ok_def pending_trigger_def Let_def entry_fill_def fair_defs max_def min_def)
qed

lemma fill_pending_runs:
  assumes S: "dict_get S symb = Some d" and d: "data_ok d" and i: "i < length (sy_bars d)"
    and ok: "pending_ok symb q"
  shows "runs (at_bar S symb i s0) (fill_pending d symb i (sy_bars d ! i) q) (\<lambda>_. at_bar S symb i s0)"
proof -
  obtain px slip where f: "entry_fill (po_signal q) (sy_bars d ! i) = (px, slip)" by fastforce
  have opened: "runs (at_bar S symb i s0) (open_pos d (po_signal q) (po_lots q) px i slip spread)
      (\<lambda>r s. at_bar S symb i s0 s \<and> (\<forall>p. r = Some p \<longrightarrow> sg_symbol (op_signal p) = symb))"
    if "pending_trigger d q (sy_bars d ! i)" for spread
  proof -
    have "runs (at_bar S symb i s0) (open_pos d (po_signal q) (po_lots q) px i slip spread) (\<lambda>_. at_bar S symb i s0)"
      using ok fair_pending [OF d i ok that] f by (intro open_pos_runs [OF S i]) (simp_all add: pending_ok_def)
    moreover have "sg_symbol (op_signal p) = symb"
      if "open_pos d (po_signal q) (po_lots q) px i slip spread s = (Inr (Some p), t)" for p s t
      using that ok by (auto simp: open_pos_def bnd_Inr seq_Inr ret_Inr new_position_def pending_ok_def order_ok_def
          Let_def split: if_splits)
    ultimately show ?thesis unfolding runs_def by blast
  qed
  have exits: "runs (\<lambda>s. at_bar S symb i s0 s \<and> (\<forall>p. r = Some p \<longrightarrow> sg_symbol (op_signal p) = symb))
      (case r of None \<Rightarrow> ret () | Some p \<Rightarrow> check_exit d False i p) (\<lambda>_. at_bar S symb i s0)" for r
  proof (cases r)
    case (Some p)
    show ?thesis
    proof (rule runs_fact)
      assume "sg_symbol (op_signal p) = symb"
      then show ?thesis using Some by (auto intro: runs_weaken [OF check_exit_runs [OF S d i]])
    qed (use Some in blast)
  qed (auto intro: runs_ret)
  show ?thesis
    unfolding fill_pending_def f prod.case
    by (intro runs_when runs_seq [OF drop_pending_runs] runs_bnd [OF opened] exits)
qed

section \<open>One bar, and many\<close>

lemma take_market_runs:
  "runs (at_bar S symb i s0) (take_market symb)
     (\<lambda>ms s. at_bar S symb i s0 s \<and> (dict_get S symb \<noteq> None \<longrightarrow> (\<forall>mo \<in> set ms. market_ok symb mo)))"
proof (rule runsI)
  fix s
  assume a: "at_bar S symb i s0 s"
  have m: "distinct (map fst (sim_market s))" using a by (simp add: at_bar_def sound_defs)
  then have "listed (dict_del symb (sim_market s)) k = (if k = symb then [] else listed (sim_market s) k)" for k
    by (simp add: listed_def)
  with a m have "at_bar S symb i s0 (s\<lparr>sim_market := dict_del symb (sim_market s)\<rparr>)"
    by (auto simp: at_bar_def sound_defs books_def book_def)
  with a show "\<exists>x t. take_market symb s = (Inr x, t) \<and> at_bar S symb i s0 t \<and>
      (dict_get S symb \<noteq> None \<longrightarrow> (\<forall>mo \<in> set x. market_ok symb mo))"
    by (auto simp: take_market_def bnd_gets seq_modif ret_def at_bar_def sound_defs)
qed

lemma process_bar_runs:
  assumes S: "dict_get S symb = Some d" and d: "data_ok d" and i: "i < length (sy_bars d)"
  shows "runs (at_bar S symb i s0) (process_bar d symb i) (\<lambda>_. at_bar S symb i s0)"
proof -
  let ?b = "sy_bars d ! i" and ?J = "at_bar S symb i s0"
  have market: "runs (\<lambda>s. ?J s \<and> (dict_get S symb \<noteq> None \<longrightarrow> (\<forall>mo \<in> set ms. market_ok symb mo)))
      (for_each (fill_market d symb i ?b) (sort_key mo_seq ms)) (\<lambda>_. ?J)" for ms
    by (rule runs_fact [where C = "\<forall>mo \<in> set ms. market_ok symb mo"])
      (use S in \<open>auto intro!: runs_weaken [OF runs_for_each [where I = ?J]] fill_market_runs [OF S d i]\<close>)
  have expiries: "runs (\<lambda>s. ?J s \<and> qs = listed (sim_pending s) symb)
      (for_each (\<lambda>q. when_do (expired q (mb_open_time ?b)) (drop_pending symb q)) qs) (\<lambda>_. ?J)" for qs
    by (rule runs_weaken [OF runs_for_each [where I = ?J]]) (auto intro!: runs_when drop_pending_runs)
  have exits: "runs (\<lambda>s. ?J s \<and> ps = listed (sim_positions s) symb)
      (for_each (check_exit d True i) (sort_key op_seq ps)) (\<lambda>_. ?J)" for ps
    by (rule runs_fact [where C = "\<forall>p \<in> set ps. sg_symbol (op_signal p) = symb"])
      (use S in \<open>auto intro!: runs_weaken [OF runs_for_each [where I = ?J]] check_exit_runs [OF S d i]
         simp: at_bar_def sound_defs pos_ok_def\<close>)
  have fills: "runs (\<lambda>s. ?J s \<and> qs = listed (sim_pending s) symb)
      (for_each (fill_pending d symb i ?b) (sort_key po_seq qs)) (\<lambda>_. ?J)" for qs
    by (rule runs_fact [where C = "\<forall>q \<in> set qs. pending_ok symb q"])
      (use S in \<open>auto intro!: runs_weaken [OF runs_for_each [where I = ?J]] fill_pending_runs [OF S d i]
         simp: at_bar_def sound_defs\<close>)
  have b: "bar_at d i = Inr ?b" using i by (simp add: bar_at_def)
  show ?thesis
    unfolding process_bar_def b
    by (intro runs_lift) (auto intro!: runs_bnd [OF take_market_runs] runs_seq [OF market] runs_gets
      runs_seq [OF expiries] runs_seq [OF exits] fills)
qed

lemma at_bar_later: "at_bar S symb i s0 s \<Longrightarrow> i \<le> j \<Longrightarrow> at_bar S symb j s0 s"
  by (auto simp: at_bar_def)

lemma walk_runs:
  assumes S: "dict_get S symb = Some d" and d: "data_ok d" and hi: "hi \<le> length (sy_bars d)"
  shows "runs (at_bar S symb lo s0) (walk d symb lo hi) (\<lambda>_. at_bar S symb (max lo (hi - 1)) s0)"
  using hi
proof (induction "hi - lo" arbitrary: lo)
  case 0
  then show ?case by (auto simp: walk_def intro!: runs_ret at_bar_later)
next
  case (Suc n)
  then have "walk d symb lo hi = seq (process_bar d symb lo) (walk d symb (lo + 1) hi)"
    by (simp add: walk_def upt_conv_Cons)
  moreover have "runs (at_bar S symb lo s0) (walk d symb (lo + 1) hi) (\<lambda>_. at_bar S symb (max lo (hi - 1)) s0)"
  proof (cases "n = 0")
    case True
    with Suc.hyps(2) show ?thesis by (auto simp: walk_def intro!: runs_ret at_bar_later)
  next
    case False
    with Suc.hyps(2) have "max (lo + 1) (hi - 1) = max lo (hi - 1)" by simp
    with Suc.hyps(1) [of "lo + 1"] Suc.hyps(2) Suc.prems
    have "runs (at_bar S symb (lo + 1) s0) (walk d symb (lo + 1) hi) (\<lambda>_. at_bar S symb (max lo (hi - 1)) s0)"
      by simp
    then show ?thesis by (rule runs_weaken) (auto intro: at_bar_later)
  qed
  moreover have "runs (at_bar S symb lo s0) (process_bar d symb lo) (\<lambda>_. at_bar S symb lo s0)"
    using Suc.hyps(2) Suc.prems by (intro process_bar_runs [OF S d]) simp
  ultimately show ?case by (auto intro: runs_seq)
qed

end
