(* ===== verification/Sim_Account.thy ===== *)
theory Sim_Account
  imports Sim_Sound "HOL-Library.Multiset"
begin

text \<open>
  Every operation of the simulator keeps the invariant \<open>sim_inv\<close>, and the runs of a simulator as a step
  relation: any operation in any order, each symbol's bars handed over once and in order.
\<close>

definition all_data_ok :: "symbols \<Rightarrow> bool" where
  "all_data_ok S \<longleftrightarrow> (\<forall>symb d. dict_get S symb = Some d \<longrightarrow> data_ok d)"

text \<open>Positions were opened on bars that have been handed over.\<close>

definition held :: "symbols \<Rightarrow> sim \<Rightarrow> bool" where
  "held S s \<longleftrightarrow> (\<forall>symb d. dict_get S symb = Some d \<longrightarrow>
     (dict_get (sim_last_idx s) symb = None \<longrightarrow> listed (sim_positions s) symb = []) \<and>
     (\<forall>i. dict_get (sim_last_idx s) symb = Some i \<longrightarrow>
        i < length (sy_bars d) \<and> (\<forall>p \<in> set (listed (sim_positions s) symb). op_entry_idx p \<le> i)))"

definition sim_inv :: "symbols \<Rightarrow> flt \<Rightarrow> sim \<Rightarrow> bool" where
  "sim_inv S B s \<longleftrightarrow> sound S s \<and> held S s \<and> books s = B"

lemma inv_at_bar:
  assumes "sim_inv S B s0" and "dict_get (sim_last_idx s0) symb = Some i" and "dict_get S symb = Some d"
  shows "at_bar S symb i s0 s0"
  using assms unfolding sim_inv_def at_bar_def held_def by blast

definition held_elsewhere :: "symbols \<Rightarrow> string \<Rightarrow> sim \<Rightarrow> bool" where
  "held_elsewhere S symb s \<longleftrightarrow> (\<forall>k e. k \<noteq> symb \<longrightarrow> dict_get S k = Some e \<longrightarrow>
     (dict_get (sim_last_idx s) k = None \<longrightarrow> listed (sim_positions s) k = []) \<and>
     (\<forall>i. dict_get (sim_last_idx s) k = Some i \<longrightarrow>
        i < length (sy_bars e) \<and> (\<forall>p \<in> set (listed (sim_positions s) k). op_entry_idx p \<le> i)))"

lemma inv_held_elsewhere: "sim_inv S B s \<Longrightarrow> held_elsewhere S symb s"
  by (simp add: sim_inv_def held_def held_elsewhere_def)

lemma at_bar_inv:
  assumes a: "at_bar S symb i s0 s" and B: "books s0 = B" and i: "dict_get (sim_last_idx s0) symb = Some i"
    "dict_get S symb = Some d" "i < length (sy_bars d)"
    and others: "held_elsewhere S symb s0"
  shows "sim_inv S B s"
proof -
  have "held_elsewhere S symb s" using a others by (simp add: held_elsewhere_def at_bar_def)
  with a i have "held S s"
    unfolding held_def held_elsewhere_def at_bar_def by (metis option.distinct(1) option.inject)
  with a B show ?thesis by (simp add: sim_inv_def at_bar_def)
qed

section \<open>Bars\<close>

definition next_bar :: "sim \<Rightarrow> string \<Rightarrow> nat" where
  "next_bar s symb = (case dict_get (sim_last_idx s) symb of None \<Rightarrow> 0 | Some i \<Rightarrow> i + 1)"

lemma sound_last_idx [simp]: "sound S (s\<lparr>sim_last_idx := l\<rparr>) = sound S s"
  by (simp add: sound_defs)

lemma books_last_idx [simp]: "books (s\<lparr>sim_last_idx := l\<rparr>) = books s"
  by (simp add: books_def book_def)

lemma advance_run:
  assumes ok: "all_data_ok S" and d: "dict_get S symb = Some d" and lo: "next_bar s symb \<le> lo"
    and hi: "hi \<le> length (sy_bars d)" and inv: "sim_inv S B s"
  shows "\<exists>t. sim_advance S symb lo hi s = (Inr (), t) \<and> sim_inv S B t \<and>
    (lo < hi \<longrightarrow> sim_last_idx t = dict_set symb (hi - 1) (sim_last_idx s))"
proof (cases "hi \<le> lo")
  case True
  with inv show ?thesis by (simp add: sim_advance_def ret_def)
next
  case False
  have dok: "data_ok d" using ok d by (simp add: all_data_ok_def)
  let ?s = "s\<lparr>sim_last_idx := dict_set symb (hi - 1) (sim_last_idx s)\<rparr>"
  have below: "\<forall>p \<in> set (listed (sim_positions s) symb). op_entry_idx p \<le> lo"
    using inv d lo by (fastforce simp: sim_inv_def held_def next_bar_def split: option.splits)
  have "at_bar S symb lo ?s ?s"
    using inv below by (simp add: at_bar_def sim_inv_def)
  from runsD [OF walk_runs [OF d dok hi] this]
  obtain t where t: "walk d symb lo hi ?s = (Inr (), t)" "at_bar S symb (max lo (hi - 1)) ?s t" by auto
  have "tidy symb ?s" using inv by (simp add: tidy_def sim_inv_def sound_defs)
  then have "sim_advance S symb lo hi s = (Inr (), t)"
    using False d t dok walk_jump [OF _ hi, of symb ?s lo]
    by (simp add: sim_advance_def seq_modif symbol_of_def lift_def bnd_def ret_def data_ok_def)
  moreover have "sim_inv S B t"
  proof (rule at_bar_inv)
    show "at_bar S symb (hi - 1) ?s t" using t(2) False by (simp add: max_absorb2)
    show "hi - 1 < length (sy_bars d)" using False hi by linarith
    show "held_elsewhere S symb ?s" using inv_held_elsewhere [OF inv, of symb] by (simp add: held_elsewhere_def)
  qed (use inv d in \<open>auto simp: sim_inv_def\<close>)
  moreover have "sim_last_idx t = dict_set symb (hi - 1) (sim_last_idx s)" using t(2) by (simp add: at_bar_def)
  ultimately show ?thesis by blast
qed

section \<open>Orders and requests\<close>

lemma inv_frame:
  assumes "sim_inv S B s" and "sim_positions t = sim_positions s" "sim_balance t = sim_balance s"
    "sim_trades t = sim_trades s" "sim_last_idx t = sim_last_idx s" and "orders_ok t"
  shows "sim_inv S B t"
proof -
  have "book_ok S t" using assms by (simp add: sim_inv_def sound_def book_ok_def)
  moreover have "held S t" using assms by (simp add: sim_inv_def held_def)
  moreover have "books t = B" using assms by (simp add: sim_inv_def books_def book_def)
  ultimately show ?thesis using assms(6) by (simp add: sim_inv_def sound_def)
qed

lemma inv_orders: "sim_inv S B s \<Longrightarrow> orders_ok s"
  by (simp add: sim_inv_def sound_def)

lemma inv_put_market:
  assumes "sim_inv S B s" and "market_ok k mo"
  shows "sim_inv S B (s\<lparr>sim_seq := n, sim_market := put_last k mo (sim_market s)\<rparr>)"
proof (rule inv_frame [OF assms(1)])
  let ?m = "put_last k mo (sim_market s)"
  have "distinct (map fst ?m) = distinct (map fst (sim_market s))"
    and "dict_get ?m j = (if j = k then Some (listed (sim_market s) k @ [mo]) else dict_get (sim_market s) j)" for j
    by (simp_all add: put_last_def)
  then show "orders_ok (s\<lparr>sim_seq := n, sim_market := ?m\<rparr>)"
    using inv_orders [OF assms(1)] assms(2) by (auto simp: orders_ok_def)
qed auto

lemma inv_put_pending:
  assumes "sim_inv S B s" and "pending_ok k q"
  shows "sim_inv S B (s\<lparr>sim_seq := n, sim_pending := put_last k q (sim_pending s)\<rparr>)"
  by (rule inv_frame [OF assms(1)]) (use inv_orders [OF assms(1)] assms(2) in \<open>auto simp: orders_ok_def\<close>)

lemma inv_reject: "sim_inv S B s \<Longrightarrow> sim_inv S B (reject now w x r s)"
  by (rule inv_frame, assumption) (auto simp: reject_def orders_ok_def dest: inv_orders)

lemma submit_run:
  "\<lbrakk>sim_inv S B s; 0 < lots\<rbrakk> \<Longrightarrow> \<exists>t. submit_entry g lots now m s = (Inr (), t) \<and> sim_inv S B t"
  by (auto simp: submit_entry_def bnd_def seq_def next_seq_def modif_def gets_def
      intro!: inv_put_market inv_put_pending simp: market_ok_def pending_ok_def order_ok_def)

lemma cancel_run:
  assumes "sim_inv S B s"
  shows "\<exists>x t. sim_cancel sid gid now s = (Inr x, t) \<and> sim_inv S B t"
proof -
  have sub: "set (listed (dict_upd k (remove1 q) (sim_pending s)) j) \<subseteq> set (listed (sim_pending s) j)" for j k q
    using set_remove1_subset [of q] by (cases "dict_get (sim_pending s) k") (auto simp: listed_def)
  have "sim_inv S B (s\<lparr>sim_pending := dict_upd k (remove1 q) (sim_pending s)\<rparr>)" for k q
    by (rule inv_frame [OF assms]) (use inv_orders [OF assms] subsetD [OF sub] in \<open>auto simp: orders_ok_def\<close>)
  then show ?thesis
    using inv_reject [OF assms] by (auto simp: sim_cancel_def bnd_gets seq_modif ret_def split: option.splits)
qed

lemma request_close_run:
  assumes "sim_inv S B s"
  shows "\<exists>x t. request_close sid pid now reason s = (Inr x, t) \<and> sim_inv S B t"
  using assms inv_reject [OF assms]
  by (auto simp: request_close_def bnd_gets seq_modif ret_def when_do_def seq_def bnd_def next_seq_def modif_def gets_def
      market_ok_def intro!: inv_put_market split: option.splits)

lemma find_listed_Some:
  "\<lbrakk>find_listed p d = Some (k, x); distinct (map fst d)\<rbrakk> \<Longrightarrow> x \<in> set (listed d k) \<and> p x \<and> k \<in> dict_keys d"
proof (induction p d rule: find_listed.induct)
  case (2 p j xs d)
  show ?case
  proof (cases "find_first p xs")
    case None
    with 2 show ?thesis by (fastforce simp: listed_def image_iff)
  next
    case (Some y)
    with 2 find_first_Some [OF Some] show ?thesis by (auto simp: listed_def)
  qed
qed simp

lemma set_replace1: "set (replace1 x y zs) \<subseteq> insert y (set zs)"
  by (induction zs) auto

lemma sum_replace1: "f x = f y \<Longrightarrow> sum_list (map f (replace1 x y zs)) = (sum_list (map f zs) :: rat)"
  by (induction zs) auto

lemma modify_stop_run:
  assumes ok: "all_data_ok S" and inv: "sim_inv S B s"
  shows "\<exists>x t. modify_stop S sid pid new_stop now s = (Inr x, t) \<and> sim_inv S B t"
proof (cases "find_position sid pid s")
  case None
  with inv_reject [OF inv] show ?thesis by (auto simp: modify_stop_def bnd_gets seq_modif ret_def)
next
  case (Some r)
  then obtain k p where f: "find_position sid pid s = Some (k, p)" by fastforce
  then have p: "p \<in> set (listed (sim_positions s) k)" and "k \<in> dict_keys (sim_positions s)"
    using inv find_listed_Some [of _ "sim_positions s" k p]
    by (auto simp: find_position_def sim_inv_def sound_defs)
  moreover have "dict_keys (sim_positions s) \<subseteq> dict_keys S" using inv by (simp add: sim_inv_def sound_defs)
  ultimately obtain d where d: "dict_get S k = Some d" using key_get [of k S] by blast
  with p inv have pk: "pos_ok d k p" by (simp add: sim_inv_def sound_defs)
  have "held S s" using inv by (simp add: sim_inv_def)
  with d p have "dict_get (sim_last_idx s) k \<noteq> None" unfolding held_def by (metis empty_iff empty_set)
  then obtain i where i: "dict_get (sim_last_idx s) k = Some i" by blast
  with \<open>held S s\<close> d have len: "i < length (sy_bars d)"
    and idx: "\<forall>r \<in> set (listed (sim_positions s) k). op_entry_idx r \<le> i"
    unfolding held_def by blast+
  let ?q = "p\<lparr>op_stop := new_stop\<rparr>"
  let ?t = "s\<lparr>sim_positions := dict_upd k (replace1 p ?q) (sim_positions s)\<rparr>"
  have k: "sg_symbol (op_signal p) = k" using pk by (simp add: pos_ok_def)
  obtain xs where xs: "dict_get (sim_positions s) k = Some xs" "listed (sim_positions s) k = xs"
    using p by (cases "dict_get (sim_positions s) k") (simp_all add: listed_def)
  have tight: "sim_inv S B ?t"
    if "if op_side p = Buy then op_stop p < new_stop else new_stop < op_stop p"
  proof -
    have "pos_ok d k ?q" using pk that by (auto simp: pos_ok_def split: if_splits)
    moreover have "\<forall>r \<in> set xs. pos_ok d k r" using inv d xs by (auto simp: sim_inv_def sound_defs)
    ultimately have each: "\<forall>r \<in> set (replace1 p ?q xs). pos_ok d k r \<and> op_entry_idx r \<le> i"
      using set_replace1 [of p ?q xs] idx p xs(2) by auto
    have books: "books ?t = books s"
      by (simp add: books_def book_def dict_upd_def xs sum_list_set sum_replace1 paid_in_def)
    have l: "listed (sim_positions ?t) j = (if j = k then replace1 p ?q xs else listed (sim_positions s) j)" for j
      by (simp add: listed_def xs)
    have "book_ok S ?t"
      using inv each d unfolding sim_inv_def sound_defs l by simp
    moreover have "orders_ok ?t" using inv_orders [OF inv] by (simp add: orders_ok_def)
    moreover have "held S ?t"
      using \<open>held S s\<close> each d i len unfolding held_def l by auto
    ultimately show ?thesis using inv books by (simp add: sim_inv_def sound_def)
  qed
  have run: "modify_stop S sid pid new_stop now s =
      (if (if op_side p = Buy then op_stop p < new_stop \<and> new_stop < mb_bid_c (sy_bars d ! i)
           else mb_ask_c (sy_bars d ! i) < new_stop \<and> new_stop < op_stop p)
       then (Inr True, ?t)
       else (Inr False, reject now ''modify {}'' pid ''only tightening stops is allowed'' s))"
    using len by (simp add: modify_stop_def bnd_gets seq_modif ret_def f k d i symbol_of_def bar_at_def lift_def bnd_def
        Let_def gets_def)
  show ?thesis
    using tight inv_reject [OF inv] by (auto simp: run split: if_splits)
qed

section \<open>Swaps and the end of the data\<close>

lemma inv_last:
  assumes "sim_inv S B s" and "dict_get S k = Some d" and "listed (sim_positions s) k \<noteq> []"
  obtains i where "dict_get (sim_last_idx s) k = Some i" "i < length (sy_bars d)"
    "\<forall>p \<in> set (listed (sim_positions s) k). op_entry_idx p \<le> i"
proof -
  have "held S s" using assms(1) by (simp add: sim_inv_def)
  with assms(2,3) have "dict_get (sim_last_idx s) k \<noteq> None" unfolding held_def by metis
  with \<open>held S s\<close> assms(2) that show thesis unfolding held_def by blast
qed

lemma inv_known: "sim_inv S B s \<Longrightarrow> k \<in> dict_keys (sim_positions s) \<Longrightarrow> \<exists>d. dict_get S k = Some d"
  by (rule key_get) (auto simp: sim_inv_def sound_defs)

lemma inv_charged:
  assumes inv: "sim_inv S B s" and d: "dict_get S k = Some d" and k: "k \<in> dict_keys (sim_positions s)"
  shows "sim_inv S B (s\<lparr>sim_positions := dict_set k (map (\<lambda>p. p\<lparr>op_swap := op_swap p + f p\<rparr>) (listed (sim_positions s) k)) (sim_positions s),
           sim_balance := sim_balance s + sum_list (map f (listed (sim_positions s) k))\<rparr>)"
    (is "sim_inv S B ?t")
proof -
  let ?ps = "listed (sim_positions s) k" and ?g = "\<lambda>p. p\<lparr>op_swap := op_swap p + f p\<rparr>"
  have "pos_ok d k (?g p)" if "pos_ok d k p" for p using that by (simp add: pos_ok_def)
  then have "book_ok S ?t" using inv d k unfolding sim_inv_def sound_defs by auto
  moreover have "orders_ok ?t" using inv_orders [OF inv] by (simp add: orders_ok_def)
  moreover have "held S ?t" using inv d unfolding sim_inv_def held_def by auto
  moreover have "sum_list (map paid_in (map ?g xs)) = sum_list (map paid_in xs) + sum_list (map f xs)" for xs
    by (induction xs) (simp_all add: paid_in_def)
  then have "books ?t = books s" by (simp add: books_def book_def sum_list_set)
  ultimately show ?thesis using inv by (simp add: sim_inv_def sound_def)
qed

lemma charge_each_run:
  assumes "sim_inv S B s" and "distinct (map fst xs)"
    and "\<forall>(k, ps) \<in> set xs. k \<in> dict_keys (sim_positions s) \<and> listed (sim_positions s) k = ps"
  shows "\<exists>t. for_each (charge_symbol S wd) xs s = (Inr (), t) \<and> sim_inv S B t"
  using assms
proof (induction xs arbitrary: s)
  case Nil
  then show ?case by (simp add: ret_def)
next
  case (Cons x xs)
  obtain k ps where x: "x = (k, ps)" by fastforce
  with Cons.prems obtain d where d: "dict_get S k = Some d" using inv_known by fastforce
  have ps: "listed (sim_positions s) k = ps" and k: "k \<in> dict_keys (sim_positions s)" using Cons.prems(3) x by auto
  obtain t where t: "charge_symbol S wd x s = (Inr (), t)" "sim_inv S B t"
    "\<forall>j. j \<noteq> k \<longrightarrow> listed (sim_positions t) j = listed (sim_positions s) j"
    "dict_keys (sim_positions t) = dict_keys (sim_positions s)"
  proof (cases "ps = []")
    case True
    with that [of s] Cons.prems(1) d x show thesis
      by (auto simp: charge_symbol_def symbol_of_def lift_def bnd_def gets_def ret_def when_do_def split: option.splits)
  next
    case False
    with inv_last [OF Cons.prems(1) d] ps obtain i where i: "dict_get (sim_last_idx s) k = Some i" "i < length (sy_bars d)"
      by metis
    let ?f = "charge_position d (if wd = ic_triple_swap_weekday (sy_costs d) then 3 else 1) (mb_bid_c (sy_bars d ! i))"
    show thesis
      by (rule that [OF _ inv_charged [OF Cons.prems(1) d k, of ?f]])
        (use False d i x ps k in \<open>auto simp: charge_symbol_def symbol_of_def lift_def bnd_def gets_def ret_def
           when_do_def bar_at_def modif_def Let_def insert_absorb\<close>)
  qed
  have "k \<notin> fst ` set xs" using Cons.prems(2) x by auto
  then have "\<forall>(j, qs) \<in> set xs. j \<in> dict_keys (sim_positions t) \<and> listed (sim_positions t) j = qs"
    using Cons.prems(3) t(3,4) by (auto split: prod.splits)
  moreover have "distinct (map fst xs)" using Cons.prems(2) by simp
  ultimately show ?case using Cons.IH [OF t(2)] t(1) by (simp add: seq_run)
qed

lemma charge_run:
  assumes "sim_inv S B s"
  shows "\<exists>t. charge_swaps S wd s = (Inr (), t) \<and> sim_inv S B t"
proof -
  have dist: "distinct (map fst (sim_positions s))" using assms by (simp add: sim_inv_def sound_defs)
  have "listed (sim_positions s) k = ps" if "(k, ps) \<in> set (sim_positions s)" for k ps
    using map_of_is_SomeI [OF dist that] by (simp add: listed_def)
  then have "\<forall>(k, ps) \<in> set (sim_positions s). k \<in> dict_keys (sim_positions s) \<and> listed (sim_positions s) k = ps"
    by force
  from charge_each_run [OF assms dist this] show ?thesis by (simp add: charge_swaps_def bnd_gets)
qed

lemma close_each_run:
  assumes S: "dict_get S symb = Some d" and d: "data_ok d" and i: "i < length (sy_bars d)"
    and a: "at_bar S symb i s0 s" and m: "mset ps = mset (listed (sim_positions s) symb)"
  shows "\<exists>t. for_each (\<lambda>p. bnd (lift (bar_at d i)) (\<lambda>b.
      close_pos d p (if op_side p = Buy then mb_bid_c b else mb_ask_c b) i reason 0)) ps s = (Inr (), t) \<and>
    at_bar S symb i s0 t \<and> listed (sim_positions t) symb = []"
  using a m
proof (induction ps arbitrary: s)
  case Nil
  then show ?case by (simp add: ret_def)
next
  case (Cons p ps)
  have mem: "p \<in> set (listed (sim_positions s) symb)"
    using Cons.prems(2) by (metis list.set_intros(1) set_mset_mset)
  let ?px = "if op_side p = Buy then mb_bid_c (sy_bars d ! i) else mb_ask_c (sy_bars d ! i)"
  have fair: "fair_exit (op_side p) ?px (sy_bars d ! i)" using ohlc [OF d i] by (simp add: fair_defs)
  obtain t where t: "close_pos d p ?px i reason 0 s = (Inr (), t)" "at_bar S symb i s0 t"
    "listed (sim_positions t) symb = remove1 p (listed (sim_positions s) symb)"
    using close_pos_step [OF S d i fair] Cons.prems(1) mem by blast
  have "mset ps = mset (listed (sim_positions t) symb)"
    using Cons.prems(2) t(3) by (metis add_mset_remove_trivial mset.simps(2) mset_remove1)
  with Cons.IH [OF t(2)] t(1) i show ?case
    by (auto simp: seq_def bnd_def lift_def bar_at_def ret_def)
qed

lemma close_symbol_run:
  assumes ok: "all_data_ok S" and inv: "sim_inv S B s" and d: "dict_get S symb = Some d"
  shows "\<exists>t. close_symbol S reason symb s = (Inr (), t) \<and> sim_inv S B t \<and> listed (sim_positions t) symb = [] \<and>
    (\<forall>k. k \<noteq> symb \<longrightarrow> listed (sim_positions t) k = listed (sim_positions s) k) \<and>
    sim_last_idx t = sim_last_idx s"
proof (cases "dict_get (sim_last_idx s) symb")
  case None
  with inv d have "listed (sim_positions s) symb = []" unfolding sim_inv_def held_def by blast
  with None inv d show ?thesis
    by (simp add: close_symbol_def symbol_of_def lift_def bnd_def gets_def ret_def)
next
  case (Some i)
  have dok: "data_ok d" using ok d by (simp add: all_data_ok_def)
  have i: "i < length (sy_bars d)" using inv d Some unfolding sim_inv_def held_def by blast
  obtain t where t: "for_each (\<lambda>p. bnd (lift (bar_at d i)) (\<lambda>b.
      close_pos d p (if op_side p = Buy then mb_bid_c b else mb_ask_c b) i reason 0))
      (sort_key op_seq (listed (sim_positions s) symb)) s = (Inr (), t)"
    "at_bar S symb i s t" "listed (sim_positions t) symb = []"
    using close_each_run [OF d dok i inv_at_bar [OF inv Some d], of "sort_key op_seq (listed (sim_positions s) symb)"]
    by auto
  have "sim_inv S B t"
    using inv by (intro at_bar_inv [OF t(2) _ Some d i inv_held_elsewhere [OF inv]]) (simp add: sim_inv_def)
  with t d Some show ?thesis
    by (simp add: close_symbol_def symbol_of_def lift_def bnd_def gets_def ret_def at_bar_def)
qed

lemma close_symbols_run:
  assumes ok: "all_data_ok S" and inv: "sim_inv S B s" and "\<forall>k \<in> set ks. \<exists>d. dict_get S k = Some d"
  shows "\<exists>t. for_each (close_symbol S reason) ks s = (Inr (), t) \<and> sim_inv S B t \<and>
    (\<forall>k. listed (sim_positions t) k = (if k \<in> set ks then [] else listed (sim_positions s) k))"
  using inv assms(3)
proof (induction ks arbitrary: s)
  case Nil
  then show ?case by (simp add: ret_def)
next
  case (Cons k ks)
  then obtain d where "dict_get S k = Some d" by auto
  from close_symbol_run [OF ok Cons.prems(1) this]
  obtain t where t: "close_symbol S reason k s = (Inr (), t)" "sim_inv S B t" "listed (sim_positions t) k = []"
    "\<forall>j. j \<noteq> k \<longrightarrow> listed (sim_positions t) j = listed (sim_positions s) j" by blast
  with Cons.IH [OF t(2)] Cons.prems(2) show ?case by (auto simp: seq_def bnd_def)
qed

lemma close_all_run:
  assumes ok: "all_data_ok S" and inv: "sim_inv S B s"
  shows "\<exists>t. close_all S reason s = (Inr (), t) \<and> sim_inv S B t \<and> book t = []"
proof -
  have "\<forall>k \<in> set (sort (map fst (sim_positions s))). \<exists>d. dict_get S k = Some d"
    using inv_known [OF inv] by simp
  from close_symbols_run [OF ok inv this]
  obtain t where t: "for_each (close_symbol S reason) (sort (map fst (sim_positions s))) s = (Inr (), t)"
    "sim_inv S B t"
    and l: "\<And>k. listed (sim_positions t) k = (if k \<in> dict_keys (sim_positions s) then [] else listed (sim_positions s) k)"
    by auto
  let ?t = "t\<lparr>sim_pending := [], sim_market := []\<rparr>"
  have none: "listed (sim_positions t) k = []" for k
  proof (cases "k \<in> dict_keys (sim_positions s)")
    case False
    then have "listed (sim_positions s) k = []" by (simp add: listed_def map_of_eq_None_iff [symmetric])
    with l [of k] show ?thesis by simp
  qed (simp add: l)
  have "distinct (map fst (sim_positions t))" using t(2) by (simp add: sim_inv_def sound_defs)
  then have "xs = []" if "(k, xs) \<in> set (sim_positions t)" for k xs
    using none [of k] map_of_is_SomeI [OF _ that] by (simp add: listed_def)
  then have "book ?t = []" by (auto simp: book_def)
  moreover have "orders_ok ?t" by (simp add: orders_ok_def listed_def)
  then have "sim_inv S B ?t" by (intro inv_frame [OF t(2)]) simp_all
  ultimately show ?thesis
    using t(1) by (simp add: close_all_def bnd_gets seq_run modif_def)
qed

section \<open>Runs\<close>

text \<open>
  The engine hands the bars of a symbol over once and in order; \<open>SrIdle\<close> is its shortcut for a symbol
  without activity, \<open>SrDrain\<close> its taking of the fills.
\<close>

inductive sim_reach :: "symbols \<Rightarrow> flt \<Rightarrow> sim \<Rightarrow> bool" for S B where
  SrFresh: "sim_reach S B (sim_fresh B)"
| SrEntry: "\<lbrakk>sim_reach S B s; 0 < lots; submit_entry g lots now m s = (r, t)\<rbrakk> \<Longrightarrow> sim_reach S B t"
| SrCancel: "\<lbrakk>sim_reach S B s; sim_cancel sid gid now s = (r', t)\<rbrakk> \<Longrightarrow> sim_reach S B t"
| SrClose: "\<lbrakk>sim_reach S B s; request_close sid pid now reason s = (r', t)\<rbrakk> \<Longrightarrow> sim_reach S B t"
| SrModify: "\<lbrakk>sim_reach S B s; modify_stop S sid pid stop now s = (r', t)\<rbrakk> \<Longrightarrow> sim_reach S B t"
| SrAdvance: "\<lbrakk>sim_reach S B s; dict_get S symb = Some d; hi \<le> length (sy_bars d);
    sim_advance S symb (next_bar s symb) hi s = (r, t)\<rbrakk> \<Longrightarrow> sim_reach S B t"
| SrIdle: "\<lbrakk>sim_reach S B s; dict_get S symb = Some d; next_bar s symb < hi; hi \<le> length (sy_bars d);
    \<not> has_activity symb s\<rbrakk> \<Longrightarrow>
    sim_reach S B (s\<lparr>sim_last_idx := dict_set symb (hi - 1) (sim_last_idx s)\<rparr>)"
| SrDrain: "sim_reach S B s \<Longrightarrow> sim_reach S B (s\<lparr>sim_fills := []\<rparr>)"
| SrReject: "sim_reach S B s \<Longrightarrow> sim_reach S B (reject now what arg why s)"
| SrSwaps: "\<lbrakk>sim_reach S B s; charge_swaps S wd s = (r, t)\<rbrakk> \<Longrightarrow> sim_reach S B t"
| SrCloseAll: "\<lbrakk>sim_reach S B s; close_all S reason s = (r, t)\<rbrakk> \<Longrightarrow> sim_reach S B t"

lemma fresh_inv: "sim_inv S B (sim_fresh B)"
  by (simp add: sim_inv_def sound_defs held_def sim_fresh_def books_def book_def listed_def)

lemma idle_inv:
  assumes inv: "sim_inv S B s" and d: "dict_get S symb = Some d" and hi: "0 < hi" "hi \<le> length (sy_bars d)"
    and idle: "\<not> has_activity symb s"
  shows "sim_inv S B (s\<lparr>sim_last_idx := dict_set symb (hi - 1) (sim_last_idx s)\<rparr>)"
proof -
  have "held S (s\<lparr>sim_last_idx := dict_set symb (hi - 1) (sim_last_idx s)\<rparr>)"
    using inv d hi idle unfolding sim_inv_def held_def has_activity_def by auto
  with inv show ?thesis by (simp add: sim_inv_def)
qed

lemma reach_inv: "sim_reach S B s \<Longrightarrow> all_data_ok S \<Longrightarrow> sim_inv S B s"
proof (induction rule: sim_reach.induct)
  case SrFresh
  show ?case by (rule fresh_inv)
next
  case (SrEntry s lots g now m r t)
  with submit_run [of S B s lots g now m] show ?case by auto
next
  case (SrCancel s sid gid now r' t)
  with cancel_run [of S B s sid gid now] show ?case by auto
next
  case (SrClose s sid pid now reason r' t)
  with request_close_run [of S B s sid pid now reason] show ?case by auto
next
  case (SrModify s sid pid stop now r' t)
  with modify_stop_run [of S B s sid pid stop now] show ?case by auto
next
  case (SrAdvance s symb d hi r t)
  with advance_run [of S symb d s "next_bar s symb" hi B] show ?case by auto
next
  case (SrIdle s symb d hi)
  then show ?case by (intro idle_inv) auto
next
  case (SrDrain s)
  then have inv: "sim_inv S B s" by simp
  show ?case by (rule inv_frame [OF inv]) (use inv_orders [OF inv] in \<open>simp_all add: orders_ok_def\<close>)
next
  case (SrReject s now what arg why)
  then show ?case by (simp add: inv_reject)
next
  case (SrSwaps s wd r t)
  with charge_run [of S B s wd] show ?case by auto
next
  case (SrCloseAll s reason r t)
  with close_all_run [of S B s reason] show ?case by auto
qed

end
