(* ===== verification/Costs_Properties.thy ===== *)
theory Costs_Properties
  imports Costs
begin

text \<open>
  The two routes to the spread: the number a strategy is shown (\<open>spread_at\<close>) and the column the simulated
  fills are charged (\<open>spread_array\<close>).
\<close>

lemma bisect_sorted:
  assumes "sorted arr"
  shows "bisect_left arr t \<le> length arr" and "j < bisect_left arr t \<Longrightarrow> arr ! j < t"
    and "bisect_left arr t < length arr \<Longrightarrow> t \<le> arr ! bisect_left arr t"
  using takeWhile_find [OF assms, of t "bisect_left arr t"]
  by (auto simp: bisect_left_def intro: length_takeWhile_le)

lemma near_column_iff:
  assumes "sorted arr" and "arr \<noteq> []"
  shows "near_column w arr t \<longleftrightarrow> near w arr t"
proof -
  define n where "n = bisect_left arr t"
  note b = bisect_sorted [OF assms(1), where t = t, folded n_def]
  have len: "0 < length arr" using assms(2) by simp
  have below: "\<bar>arr ! (n - 1) - t\<bar> = t - arr ! (n - 1)" if "0 < n" using b(2) [of "n - 1"] that by simp
  have above: "\<bar>arr ! n - t\<bar> = arr ! n - t" if "n < length arr" using b(3) that by simp
  consider "n = 0" | "0 < n" "n < length arr" | "n = length arr" "0 < n" using b(1) len by linarith
  then show ?thesis
  proof cases
    case 1
    with above len assms(2) show ?thesis
      by (simp add: near_column_def near_def clip_def n_def [symmetric] Let_def)
  next
    case 2
    with above below assms(2) show ?thesis
      by (auto simp: near_column_def near_def clip_def n_def [symmetric] Let_def min_def max_def)
  next
    case 3
    with below assms(2) show ?thesis
      by (auto simp: near_column_def near_def clip_def n_def [symmetric] Let_def min_def max_def)
  qed
qed

definition factor :: "spread_model \<Rightarrow> ns list \<Rightarrow> ns \<Rightarrow> flt" where
  "factor m arr t = (if near (sm_window_ns m) arr t then sm_widen_mult m else 1)"

lemma widen_nth:
  assumes "sorted arr" and "k < length ts" and "length out = length ts"
  shows "widen m arr ts out ! k = out ! k * factor m arr (ts ! k)"
proof (cases "arr = []")
  case True
  then show ?thesis by (simp add: widen_def factor_def near_def)
next
  case False
  then show ?thesis
    using assms near_column_iff [OF assms(1) False] by (auto simp: widen_def factor_def)
qed

lemma widen_length [simp]: "length out = length ts \<Longrightarrow> length (widen m arr ts out) = length ts"
  by (simp add: widen_def)

lemma smap_nth: "smap f xs = Inr ys \<Longrightarrow> length ys = length xs \<and> (\<forall>k < length xs. f (xs ! k) = Inr (ys ! k))"
proof (induction xs arbitrary: ys)
  case (Cons x xs)
  then show ?case by (auto simp: nth_Cons split: nat.split)
qed simp

lemma spread_array_nth:
  assumes "spread_array m symb ts = Inr xs" and "k < length ts" and "sorted (news_of m symb)" and "sorted (sm_rollover_ns m)"
  shows "\<exists>s. median_spread m symb (ts ! k) = Inr s \<and>
    xs ! k = s * factor m (news_of m symb) (ts ! k) * factor m (sm_rollover_ns m) (ts ! k)"
proof -
  obtain hs out where hs: "medians m symb = Inr hs" and out: "smap (hourly hs) ts = Inr out"
    and xs: "xs = widen m (sm_rollover_ns m) ts (widen m (news_of m symb) ts out)"
    using assms(1) by (auto simp: spread_array_def)
  from smap_nth [OF out] assms(2) have "length out = length ts" "hourly hs (ts ! k) = Inr (out ! k)" by auto
  with assms hs xs show ?thesis by (simp add: widen_nth median_spread_def)
qed

text \<open>C39. The spread the fills are charged is the spread a strategy is shown, except near news and a rollover at
  the same time, where the fills are charged the widening factor twice.\<close>

theorem charged_and_shown_spread:
  assumes "spread_array m symb ts = Inr xs" and "k < length ts"
    and "sorted (news_of m symb)" and "sorted (sm_rollover_ns m)"
  shows "\<exists>v. spread_at m symb (ts ! k) = Inr v \<and>
    xs ! k = (if near (sm_window_ns m) (news_of m symb) (ts ! k) \<and> near (sm_window_ns m) (sm_rollover_ns m) (ts ! k)
              then v * sm_widen_mult m else v)"
  using spread_array_nth [OF assms] by (auto simp: spread_at_def factor_def)

definition busy_spreads :: spread_model where
  "busy_spreads = \<lparr>sm_median_by_hour = [(''X'', replicate 168 2)], sm_news_ns = [(''X'', [0])], sm_rollover_ns = [60],
     sm_widen_mult = 3, sm_window_ns = 120\<rparr>"

theorem charged_and_shown_spread_witness:
  "spread_at busy_spreads ''X'' 60 = Inr 6 \<and> spread_array busy_spreads ''X'' [60] = Inr [18] \<and>
   (\<exists>v. spread_at busy_spreads ''X'' ([60] ! 0) = Inr v \<and>
      [18] ! 0 = (if near (sm_window_ns busy_spreads) (news_of busy_spreads ''X'') ([60] ! 0) \<and>
                     near (sm_window_ns busy_spreads) (sm_rollover_ns busy_spreads) ([60] ! 0)
                  then v * sm_widen_mult busy_spreads else v))"
proof -
  have array: "spread_array busy_spreads ''X'' [60] = Inr [18]" by code_simp
  moreover have "spread_at busy_spreads ''X'' 60 = Inr 6" by code_simp
  moreover have "sorted (news_of busy_spreads ''X'')" "sorted (sm_rollover_ns busy_spreads)"
    by (simp_all add: busy_spreads_def news_of_def)
  ultimately show ?thesis using charged_and_shown_spread [OF array, of 0] by simp
qed

end
