(* ===== verification/Backtest_Account.thy ===== *)
theory Backtest_Account
  imports Backtest Sim_Account Costs_Properties
begin

text \<open>
  A backtest is a run of its simulated broker: the loop uses the broker only through the operations of
  \<open>sim_reach\<close> and hands every bar over once.
\<close>

section \<open>Operations of the broker within the loop\<close>

definition sim_kept :: "symbols \<Rightarrow> flt \<Rightarrow> 's bt_state \<Rightarrow> 's bt_state \<Rightarrow> bool" where
  "sim_kept S B s t \<longleftrightarrow>
     (sim_reach S B (bt_sim s) \<longrightarrow> sim_reach S B (bt_sim t)) \<and>
     sim_last_idx (bt_sim t) = sim_last_idx (bt_sim s) \<and> bt_ptr t = bt_ptr s \<and>
     bt_visible t = bt_visible s \<and> bt_next_close t = bt_next_close s"

interpretation bt_kept: step_rel "sim_kept S B"
  by unfold_locales (auto simp: sim_kept_def)

text \<open>The bars handed over are not touched by any operation but \<open>advance\<close>.\<close>

definition last_kept :: "sim \<Rightarrow> sim \<Rightarrow> bool" where
  "last_kept s t \<longleftrightarrow> sim_last_idx t = sim_last_idx s"

interpretation lasts: step_rel last_kept
  by unfold_locales (auto simp: last_kept_def)

lemmas last_steps = lasts.keeps_rules lasts.keeps_modif lift_keeps

lemma next_seq_last: "keeps last_kept next_seq"
  unfolding next_seq_def by (intro last_steps) (simp_all add: last_kept_def)

lemma submit_last: "keeps last_kept (submit_entry g lots now m)"
  unfolding submit_entry_def by (intro last_steps next_seq_last) (simp_all add: last_kept_def)

lemma cancel_last: "keeps last_kept (sim_cancel sid gid now)"
  unfolding sim_cancel_def by (intro last_steps) (simp_all add: last_kept_def reject_def)

lemma request_close_last: "keeps last_kept (request_close sid pid now why)"
  unfolding request_close_def by (intro last_steps next_seq_last) (simp_all add: last_kept_def reject_def)

lemma modify_stop_last: "keeps last_kept (modify_stop S sid pid stop now)"
  unfolding modify_stop_def Let_def by (intro last_steps) (simp_all add: last_kept_def reject_def)

lemma charge_last: "keeps last_kept (charge_swaps S wd)"
  unfolding charge_swaps_def charge_symbol_def Let_def by (intro last_steps) (simp_all add: last_kept_def)

lemma close_pos_last: "keeps last_kept (close_pos d p px i reason slip)"
  unfolding close_pos_def take_out_def by (intro last_steps) (simp_all add: last_kept_def fill_out_def)

lemma close_all_last: "keeps last_kept (close_all S reason)"
  unfolding close_all_def close_symbol_def
  by (intro last_steps close_pos_last) (simp_all add: last_kept_def)

lemma on_sim_kept:
  assumes "keeps last_kept m" and "\<And>s r t. sim_reach S B s \<Longrightarrow> m s = (r, t) \<Longrightarrow> sim_reach S B t"
  shows "keeps (sim_kept S B) (on_sim m)"
  unfolding keeps_def
proof
  fix s :: "'s bt_state"
  obtain r t where m: "m (bt_sim s) = (r, t)" by fastforce
  with keepsD [OF assms(1)] assms(2) show "sim_kept S B s (snd (on_sim m s))"
    by (auto simp: on_sim_def sim_kept_def last_kept_def)
qed

lemma modif_last: "(\<And>s. sim_last_idx (f s) = sim_last_idx s) \<Longrightarrow> keeps last_kept (modif f)"
  by (simp add: keeps_def modif_def last_kept_def)

lemma frame_kept:
  assumes "\<And>s r t. m s = (r, t) \<Longrightarrow> bt_sim t = bt_sim s \<and> bt_ptr t = bt_ptr s \<and>
    bt_visible t = bt_visible s \<and> bt_next_close t = bt_next_close s"
  shows "keeps (sim_kept S B) m"
  unfolding keeps_def sim_kept_def by (metis assms prod.collapse)

lemma on_guard_kept: "keeps (sim_kept S B) (on_guard m)"
  by (rule frame_kept) (auto simp: on_guard_def split: prod.splits)

lemma on_seen_kept: "keeps (sim_kept S B) (on_seen m)"
  by (rule frame_kept) (auto simp: on_seen_def split: prod.splits)

lemma ask_kept: "keeps (sim_kept S B) (ask_strategy E f)"
  by (rule frame_kept) (auto simp: ask_strategy_def split: prod.splits)

lemma reject_kept: "keeps (sim_kept S B) (on_sim (modif (reject now w x r)))"
  by (rule on_sim_kept, rule modif_last) (auto simp: modif_def reject_def dest: sim_reach.SrReject [unfolded reject_def])

lemma drain_kept: "keeps (sim_kept S B) (on_sim (modif (\<lambda>b. b\<lparr>sim_fills := []\<rparr>)))"
  by (rule on_sim_kept, rule modif_last) (auto simp: modif_def intro: sim_reach.SrDrain)

lemma charge_kept: "keeps (sim_kept S B) (on_sim (charge_swaps S wd))"
  by (rule on_sim_kept [OF charge_last]) (rule sim_reach.SrSwaps)

lemma close_all_kept: "keeps (sim_kept S B) (on_sim (close_all S why))"
  by (rule on_sim_kept [OF close_all_last]) (rule sim_reach.SrCloseAll)

lemma kept_if:
  "\<lbrakk>b \<Longrightarrow> keeps (sim_kept S B) m; \<not> b \<Longrightarrow> keeps (sim_kept S B) n\<rbrakk> \<Longrightarrow> keeps (sim_kept S B) (if b then m else n)"
  by simp

lemmas kept_steps = bt_kept.keeps_ret bt_kept.keeps_raise bt_kept.keeps_gets bt_kept.keeps_bnd bt_kept.keeps_seq
  bt_kept.keeps_for_each bt_kept.keeps_fold_each bt_kept.keeps_when_do kept_if bt_kept.keeps_option
  bt_kept.keeps_prod bt_kept.keeps_sum bt_kept.keeps_modif lift_keeps on_guard_kept on_seen_kept ask_kept
  reject_kept drain_kept charge_kept

lemma kept_modif:
  "(\<And>s. bt_sim (f s) = bt_sim s \<and> bt_ptr (f s) = bt_ptr s \<and> bt_visible (f s) = bt_visible s \<and>
     bt_next_close (f s) = bt_next_close s) \<Longrightarrow> keeps (sim_kept S B) (modif f)"
  by (rule frame_kept) (auto simp: modif_def)

lemma size_signal_kept: "keeps (sim_kept S B) (size_signal S now tf g d b)"
proof -
  have "keeps (sim_kept S B) (on_sim (submit_entry g lots now (tf_minutes tf)))" if "\<not> lots \<le> 0" for lots
    by (intro on_sim_kept [OF submit_last]) (rule sim_reach.SrEntry, use that in auto)
  then show ?thesis
    unfolding size_signal_def by (intro kept_steps) (simp_all add: sim_kept_def)
qed

lemma handle_request_kept: "keeps (sim_kept S B) (handle_request S E now tf r)"
proof -
  have "keeps (sim_kept S B) (ignore (on_sim (sim_cancel me gid now)))" for me gid
    unfolding ignore_def by (intro kept_steps on_sim_kept [OF cancel_last]) (rule sim_reach.SrCancel)
  moreover have "keeps (sim_kept S B) (ignore (on_sim (request_close me pid now why)))" for me pid why
    unfolding ignore_def by (intro kept_steps on_sim_kept [OF request_close_last]) (rule sim_reach.SrClose)
  moreover have "keeps (sim_kept S B) (ignore (on_sim (modify_stop S me pid stop now)))" for me pid stop
    unfolding ignore_def by (intro kept_steps on_sim_kept [OF modify_stop_last]) (rule sim_reach.SrModify)
  moreover have "keeps (sim_kept S B) (handle_signal S now tf g)" for g
    unfolding handle_signal_def
    by (intro kept_steps kept_modif size_signal_kept) (simp_all add: sim_kept_def)
  ultimately show ?thesis
    unfolding handle_request_def Let_def
    by (auto split: engine_request.split strategy_request.split)
qed

lemma handle_all_kept: "keeps (sim_kept S B) (handle_all S E now tf rs)"
  unfolding handle_all_def by (intro kept_steps handle_request_kept)

lemma record_equity_kept: "keeps (sim_kept S B) (record_equity S t)"
  unfolding record_equity_def by (intro kept_steps kept_modif) (simp_all add: sim_kept_def)

lemma after_sync_kept:
  "keeps (sim_kept S B) (move_clocks t)"
  "keeps (sim_kept S B) (bnd drain_fills (for_each (deliver_fill S E t)))"
  "keeps (sim_kept S B) (roll_over S rolls t)"
  "keeps (sim_kept S B) (deliver_bar S E t k)"
proof -
  show "keeps (sim_kept S B) (move_clocks t)"
    unfolding move_clocks_def by (intro kept_steps kept_modif) (simp_all add: sim_kept_def)
  show "keeps (sim_kept S B) (bnd drain_fills (for_each (deliver_fill S E t)))"
    unfolding drain_fills_def deliver_fill_def by (intro kept_steps handle_all_kept)
  show "keeps (sim_kept S B) (roll_over S rolls t)"
    unfolding roll_over_def by (intro kept_steps record_equity_kept)
  show "keeps (sim_kept S B) (deliver_bar S E t k)"
    unfolding deliver_bar_def by (intro kept_steps handle_all_kept) (simp_all add: sim_kept_def)
qed

section \<open>The columns\<close>

lemma symbol_columns_Inr:
  assumes "symbol_columns instruments cm rates ccy (k, bars) = Inr p"
  shows "\<exists>d. p = (k, d) \<and> length (sy_bars d) = length bars"
proof -
  from assms obtain inst spr med ms rate where
    a: "dict_get instruments k = Some inst" "spread_array (cm_spreads cm) k (map mb_open_time bars) = Inr spr"
    "medians (cm_spreads cm) k = Inr med" "smap (hourly med) (map mb_open_time bars) = Inr ms"
    and p: "p = (k, \<lparr>sy_costs = inst, sy_bars = map (\<lambda>(b, s, m). price_bar b s (slippage_mult cm k * m)) (zip bars (zip spr ms)),
             sy_to_account = rate\<rparr>)"
    by (auto simp: symbol_columns_def split: option.splits)
  obtain out where "smap (hourly med) (map mb_open_time bars) = Inr out"
    "spr = widen (cm_spreads cm) (sm_rollover_ns (cm_spreads cm)) (map mb_open_time bars)
       (widen (cm_spreads cm) (news_of (cm_spreads cm) k) (map mb_open_time bars) out)"
    using a(2,3) by (auto simp: spread_array_def)
  with smap_nth [OF a(4)] a(4) have "length ms = length bars" "length spr = length bars" by auto
  with p show ?thesis by simp
qed

lemma smap_keys:
  "\<lbrakk>smap f xs = Inr ys; \<And>x y. f x = Inr y \<Longrightarrow> fst y = fst x\<rbrakk> \<Longrightarrow> map fst ys = map fst xs"
  by (induction xs arbitrary: ys) auto

lemma smap_mem: "smap f xs = Inr ys \<Longrightarrow> y \<in> set ys \<Longrightarrow> \<exists>x \<in> set xs. f x = Inr y"
  by (induction xs arbitrary: ys) auto

lemma columns_Inr:
  assumes "bt_columns E = Inr (S, sim)"
  shows "sim = sim_fresh (be_initial_equity E) \<and> map fst S = mf_symbols (be_manifest E) \<and>
    (\<forall>symb d. dict_get S symb = Some d \<longrightarrow> length (sy_bars d) = length (m1_of E symb))"
proof -
  let ?f = "symbol_columns (be_instruments E) (be_costs E) (be_rates E) (be_account_ccy E)"
  let ?xs = "map (\<lambda>symb. (symb, map m1_bar.truncate (m1_of E symb))) (mf_symbols (be_manifest E))"
  from assms have S: "smap ?f ?xs = Inr S" and "sim = sim_fresh (be_initial_equity E)"
    by (auto simp: bt_columns_def sim_build_def)
  moreover have "map fst S = map fst ?xs"
    by (rule smap_keys [OF S]) (auto dest: symbol_columns_Inr)
  then have "map fst S = mf_symbols (be_manifest E)" by (simp add: comp_def)
  moreover have "length (sy_bars d) = length (m1_of E symb)" if d: "dict_get S symb = Some d" for symb d
  proof -
    obtain x where "x \<in> set ?xs" and x: "?f x = Inr (symb, d)" using smap_mem [OF S map_of_SomeD [OF d]] by blast
    moreover obtain k bars where kb: "x = (k, bars)" by fastforce
    ultimately have "k = symb" "length (sy_bars d) = length bars" using symbol_columns_Inr by blast+
    with kb \<open>x \<in> set ?xs\<close> show ?thesis by auto
  qed
  ultimately show ?thesis by blast
qed

section \<open>The loop\<close>

definition aligned :: "symbols \<Rightarrow> flt \<Rightarrow> 's bt_state \<Rightarrow> bool" where
  "aligned S B s \<longleftrightarrow>
     sim_reach S B (bt_sim s) \<and> (\<forall>symb. at_zero (bt_ptr s) symb = next_bar (bt_sim s) symb)"

lemma kept_aligned: "keeps (sim_kept S B) m \<Longrightarrow> keeps (preserving (aligned S B)) m"
  by (erule keeps_weaken) (auto simp: sim_kept_def preserving_def aligned_def next_bar_def)

lemma at_zero_set [simp]: "at_zero (dict_set k n d) j = (if j = k then n else at_zero d j)"
  by (simp add: at_zero_def)

lemma closed_by_le: "closed_by rows t \<le> length rows"
  by (simp add: closed_by_def length_takeWhile_le)

lemma sync_aligned:
  assumes ok: "all_data_ok S" and d: "dict_get S symb = Some d" and len: "length (sy_bars d) = length (m1_of E symb)"
    and al: "aligned S B s"
  shows "\<exists>t. sync_symbol S E t0 symb s = (Inr (), t) \<and> aligned S B t \<and>
    bt_visible t = bt_visible s \<and> bt_next_close t = bt_next_close s \<and>
    (\<forall>k i. dict_get (sim_last_idx (bt_sim t)) k = Some i \<longrightarrow>
       dict_get (sim_last_idx (bt_sim s)) k = Some i \<or> k = symb \<and> i < closed_by (m1_of E symb) t0)"
proof -
  let ?hi = "closed_by (m1_of E symb) t0" and ?ptr = "at_zero (bt_ptr s) symb"
  have hi: "?hi \<le> length (sy_bars d)" using closed_by_le len by metis
  have reach: "sim_reach S B (bt_sim s)" and ptr: "\<And>k. at_zero (bt_ptr s) k = next_bar (bt_sim s) k"
    using al by (auto simp: aligned_def)
  show ?thesis
  proof (cases "?ptr < ?hi")
    case False
    with al show ?thesis by (simp add: sync_symbol_def Let_def bnd_gets when_do_def ret_def)
  next
    case True
    show ?thesis
    proof (cases "has_activity symb (bt_sim s)")
      case active: True
      obtain b where b: "sim_advance S symb ?ptr ?hi (bt_sim s) = (Inr (), b)"
        "sim_last_idx b = dict_set symb (?hi - 1) (sim_last_idx (bt_sim s))"
        using advance_run [OF ok d _ hi reach_inv [OF reach ok], of ?ptr] ptr True by auto
      then have "sim_reach S B b" using sim_reach.SrAdvance [OF reach d hi] ptr by simp
      then have "aligned S B (s\<lparr>bt_sim := b, bt_ptr := dict_set symb ?hi (bt_ptr s)\<rparr>)"
        using ptr True by (auto simp: aligned_def next_bar_def b(2))
      with True active b show ?thesis
        by (auto simp: sync_symbol_def Let_def bnd_gets when_do_def seq_def bnd_def gets_def on_sim_def modif_def)
    next
      case idle: False
      let ?b = "(bt_sim s)\<lparr>sim_last_idx := dict_set symb (?hi - 1) (sim_last_idx (bt_sim s))\<rparr>"
      have "sim_reach S B ?b" by (rule sim_reach.SrIdle [OF reach d _ hi idle]) (use ptr True in auto)
      then have "aligned S B (s\<lparr>bt_sim := ?b, bt_ptr := dict_set symb ?hi (bt_ptr s)\<rparr>)"
        using ptr True by (auto simp: aligned_def next_bar_def)
      with True idle show ?thesis
        by (auto simp: sync_symbol_def Let_def bnd_gets when_do_def seq_def bnd_def gets_def on_sim_def modif_def)
    qed
  qed
qed

lemma drain_symbol_aligned:
  assumes ok: "all_data_ok S" and d: "dict_get S symb = Some d" and len: "length (sy_bars d) = length (m1_of E symb)"
    and al: "aligned S B s"
  shows "\<exists>t. drain_symbol S E symb s = (Inr (), t) \<and> aligned S B t"
proof -
  let ?n = "length (m1_of E symb)" and ?ptr = "at_zero (bt_ptr s) symb"
  have reach: "sim_reach S B (bt_sim s)" and ptr: "\<And>k. at_zero (bt_ptr s) k = next_bar (bt_sim s) k"
    using al by (auto simp: aligned_def)
  show ?thesis
  proof (cases "?ptr < ?n")
    case False
    with al show ?thesis by (simp add: drain_symbol_def Let_def bnd_gets when_do_def ret_def)
  next
    case True
    obtain b where b: "sim_advance S symb ?ptr ?n (bt_sim s) = (Inr (), b)"
      "sim_last_idx b = dict_set symb (?n - 1) (sim_last_idx (bt_sim s))"
      using advance_run [OF ok d _ _ reach_inv [OF reach ok], of ?ptr ?n] ptr True len by auto
    then have "sim_reach S B b" using sim_reach.SrAdvance [OF reach d, of ?n] ptr len by simp
    then have "aligned S B (s\<lparr>bt_sim := b, bt_ptr := dict_set symb ?n (bt_ptr s)\<rparr>)"
      using ptr True by (auto simp: aligned_def next_bar_def b(2))
    with True b(1) show ?thesis
      by (simp add: drain_symbol_def Let_def when_do_def seq_def bnd_def gets_def on_sim_def modif_def)
  qed
qed

lemma preserving_for_each:
  "(\<And>x. x \<in> set xs \<Longrightarrow> keeps (preserving I) (f x)) \<Longrightarrow> keeps (preserving I) (for_each f xs)"
  by (induction xs) (auto intro: preserve.keeps_ret preserve.keeps_seq)

lemma close_due_aligned: "keeps (preserving (aligned S B)) (close_due E t k acc)"
  unfolding close_due_def
  by (intro preserve.keeps_rules preserve.keeps_modif lift_keeps) (simp_all add: preserving_def aligned_def)

definition columns_ok :: "symbols \<Rightarrow> 's bt_env \<Rightarrow> bool" where
  "columns_ok S E \<longleftrightarrow> (\<forall>symb \<in> set (mf_symbols (be_manifest E)). \<exists>d. dict_get S symb = Some d \<and>
     length (sy_bars d) = length (m1_of E symb))"

lemma step_aligned:
  assumes ok: "all_data_ok S" and cols: "columns_ok S E"
  shows "keeps (preserving (aligned S B)) (bt_step S E rolls t)"
proof -
  have "keeps (preserving (aligned S B)) (sync_symbol S E t symb)" if mem: "symb \<in> set (mf_symbols (be_manifest E))" for symb
  proof -
    obtain d where d: "dict_get S symb = Some d" "length (sy_bars d) = length (m1_of E symb)"
      using cols mem by (auto simp: columns_ok_def)
    show ?thesis
      unfolding keeps_def preserving_def
    proof (intro allI impI, goal_cases)
      case (1 s)
      from sync_aligned [OF ok d 1, of t] show ?case by auto
    qed
  qed
  then show ?thesis
    unfolding bt_step_def
    by (intro preserve.keeps_rules preserving_for_each lift_keeps close_due_aligned
        after_sync_kept [THEN kept_aligned])
      (simp_all add: preserving_def)
qed

lemma loop_aligned:
  "\<lbrakk>all_data_ok S; columns_ok S E\<rbrakk> \<Longrightarrow> keeps (preserving (aligned S B)) (for_each (bt_step S E rolls) ts)"
  by (intro preserving_for_each step_aligned)

lemma drain_symbols_aligned:
  assumes ok: "all_data_ok S" and "\<forall>symb \<in> set ks. \<exists>d. dict_get S symb = Some d \<and> length (sy_bars d) = length (m1_of E symb)"
    and "aligned S B s"
  shows "\<exists>t. for_each (drain_symbol S E) ks s = (Inr (), t) \<and> aligned S B t"
  using assms(2,3)
proof (induction ks arbitrary: s)
  case Nil
  then show ?case by (simp add: ret_def)
next
  case (Cons k ks)
  then obtain d where "dict_get S k = Some d" "length (sy_bars d) = length (m1_of E k)" by auto
  from drain_symbol_aligned [OF ok this Cons.prems(2)]
  obtain t where t: "drain_symbol S E k s = (Inr (), t)" "aligned S B t" by blast
  from Cons.IH [OF _ t(2)] Cons.prems(1) t(1) show ?case by (simp add: seq_run)
qed

lemma equity_flat:
  assumes "book s = []" and "dict_keys (sim_positions s) \<subseteq> dict_keys S"
  shows "sim_equity S s = Inr (sim_balance s)"
proof -
  have "smap (float_symbol S s) xs = Inr (map (\<lambda>_. 0) xs)" if "set xs \<subseteq> set (sim_positions s)" for xs
    using that
  proof (induction xs)
    case (Cons x xs)
    obtain k ps where x: "x = (k, ps)" by fastforce
    with Cons.prems assms(1) have "ps = []" by (auto simp: book_def)
    moreover have "k \<in> dict_keys (sim_positions s)" using Cons.prems x by (simp add: image_iff) (metis fst_conv)
    with assms(2) have "k \<in> dict_keys S" by (rule subsetD)
    from key_get [OF this] obtain d where "dict_get S k = Some d" by blast
    ultimately have "float_symbol S s x = Inr 0"
      using x by (cases "dict_get (sim_last_idx s) k") (simp_all add: float_symbol_def symbol_of_def)
    with Cons show ?case by simp
  qed simp
  then show ?thesis by (simp add: sim_equity_def floating_def)
qed

definition curve_kept :: "'s bt_state \<Rightarrow> 's bt_state \<Rightarrow> bool" where
  "curve_kept s t \<longleftrightarrow> bt_curve t = bt_curve s"

interpretation curves: step_rel curve_kept
  by unfold_locales (auto simp: curve_kept_def)

lemma finish_run:
  assumes ok: "all_data_ok (su_symbols u)" and cols: "columns_ok (su_symbols u) E" and al: "aligned (su_symbols u) B s"
  shows "\<exists>t. bt_finish E u s = (Inr (), t) \<and>
    bt_curve t = bt_curve s @ [(su_end u, B + (\<Sum>x \<leftarrow> sim_trades (bt_sim t). si_pnl_net x))]"
proof -
  let ?S = "su_symbols u"
  from drain_symbols_aligned [OF ok cols [unfolded columns_ok_def] al]
  obtain s1 where s1: "for_each (drain_symbol ?S E) (mf_symbols (be_manifest E)) s = (Inr (), s1)" "aligned ?S B s1"
    by blast
  have curve: "bt_curve s1 = bt_curve s"
  proof -
    have "keeps curve_kept (drain_symbol ?S E symb)" for symb
      by (auto simp: keeps_def curve_kept_def drain_symbol_def Let_def when_do_def ret_def seq_def bnd_def gets_def
          on_sim_def modif_def split: prod.splits sum.splits)
    then have "keeps curve_kept (for_each (drain_symbol ?S E) (mf_symbols (be_manifest E)))"
      by (rule curves.keeps_for_each)
    from keepsD [OF this s1(1)] show ?thesis by (simp add: curve_kept_def)
  qed
  have "sim_reach ?S B (bt_sim s1)" using s1(2) by (simp add: aligned_def)
  from close_all_run [OF ok reach_inv [OF this ok], of "''end_of_data''"]
  obtain b where b: "close_all ?S ''end_of_data'' (bt_sim s1) = (Inr (), b)" "sim_inv ?S B b" "book b = []" by blast
  let ?b = "b\<lparr>sim_fills := []\<rparr>"
  have "dict_keys (sim_positions b) \<subseteq> dict_keys ?S" using b(2) by (simp add: sim_inv_def sound_defs)
  then have "sim_equity ?S ?b = Inr (sim_balance b)"
    using equity_flat [of ?b ?S] b(3) by (simp add: book_def)
  moreover have "sim_balance b = B + (\<Sum>x \<leftarrow> sim_trades b. si_pnl_net x)"
    using b(2,3) by (simp add: sim_inv_def books_def)
  ultimately show ?thesis
    using s1(1) b(1) curve
    by (simp add: bt_finish_def seq_def bnd_def on_sim_def modif_def record_equity_def gets_def lift_def ret_def)
qed

lemma prepare_Inr:
  assumes "prepare E = Inr u"
  shows "columns_ok (su_symbols u) E" and "aligned (su_symbols u) (be_initial_equity E) (su_state u)"
    and "mf_symbols (be_manifest E) = map fst (su_symbols u)"
proof -
  from assms obtain S sim start stop where c: "bt_columns E = Inr (S, sim)"
    and u: "u = \<lparr>su_symbols = S, su_rolls = rollover_times (be_zone E) (from_ns start) (from_ns stop), su_end = stop,
      su_state = bt_start E sim start\<rparr>"
    by (auto simp: prepare_def Let_def split: if_splits)
  note cols = columns_Inr [OF c]
  show "mf_symbols (be_manifest E) = map fst (su_symbols u)" using cols u by simp
  show "columns_ok (su_symbols u) E"
    unfolding columns_ok_def
  proof
    fix symb
    assume "symb \<in> set (mf_symbols (be_manifest E))"
    with cols have "symb \<in> dict_keys S" by (metis image_set)
    with cols u show "\<exists>d. dict_get (su_symbols u) symb = Some d \<and> length (sy_bars d) = length (m1_of E symb)"
      using key_get [of symb S] by auto
  qed
  show "aligned (su_symbols u) (be_initial_equity E) (su_state u)"
    using cols u sim_reach.SrFresh [of S "be_initial_equity E"]
    by (simp add: aligned_def bt_start_def next_bar_def at_zero_def sim_fresh_def)
qed

end
