(* ===== verification/Backtest_Prefix.thy ===== *)
theory Backtest_Prefix
  imports Backtest_Account "HOL-Library.Sublist"
begin

text \<open>
  Two backtests over histories that agree up to an instant. Every operation reads only bars that have been
  handed over, so the two runs are the same computation until that instant.
\<close>

section \<open>Columns that agree on their first bars\<close>

definition same_upto :: "nat \<Rightarrow> symbol_data \<Rightarrow> symbol_data \<Rightarrow> bool" where
  "same_upto m d d' \<longleftrightarrow>
     sy_costs d = sy_costs d' \<and> sy_to_account d = sy_to_account d' \<and> take m (sy_bars d) = take m (sy_bars d')"

lemma take_less: "take m xs = take m ys \<Longrightarrow> k \<le> m \<Longrightarrow> take k xs = take k ys"
  by (metis min.absorb1 take_take)

lemma nth_same: "take m xs = take m ys \<Longrightarrow> i < m \<Longrightarrow> i < length xs \<Longrightarrow> i < length ys \<and> xs ! i = ys ! i"
  by (metis length_take min_less_iff_conj nth_take)

lemma bar_at_same:
  assumes "same_upto m d d'" and "i < m"
  shows "bar_at d i = bar_at d' i"
proof -
  have t: "take m (sy_bars d) = take m (sy_bars d')" using assms(1) by (simp add: same_upto_def)
  show ?thesis
  proof (cases "i < length (sy_bars d)")
    case True
    with nth_same [OF t assms(2)] show ?thesis by (simp add: bar_at_def)
  next
    case False
    with nth_same [OF t [symmetric] assms(2)] have "\<not> i < length (sy_bars d')" by blast
    with False show ?thesis by (simp add: bar_at_def)
  qed
qed

lemma span_same: "same_upto m d d' \<Longrightarrow> hi \<le> m \<Longrightarrow> span_of f d lo hi = span_of f d' lo hi"
  unfolding span_of_def same_upto_def by (metis take_less)

lemma units_same: "same_upto m d d' \<Longrightarrow> units d = units d' \<and> side_commission d = side_commission d'"
  by (simp add: fun_eq_iff units_def side_commission_def same_upto_def)

lemma trade_same:
  assumes "same_upto m d d'"
  shows "gross_of d = gross_of d'" "commission_of d = commission_of d'" "net_of d = net_of d'"
    "closed_trade_of d = closed_trade_of d'" "new_position d = new_position d'" "pending_trigger d = pending_trigger d'"
proof -
  note u = units_same [OF assms]
  show g: "gross_of d = gross_of d'" and c: "commission_of d = commission_of d'"
    using u by (simp_all add: fun_eq_iff gross_of_def commission_of_def)
  show n: "net_of d = net_of d'" using g c by (simp add: fun_eq_iff net_of_def)
  show "closed_trade_of d = closed_trade_of d'" using u g c n by (simp add: fun_eq_iff closed_trade_of_def)
  show "new_position d = new_position d'" using u by (simp add: fun_eq_iff new_position_def)
  show "pending_trigger d = pending_trigger d'"
    using assms by (simp add: fun_eq_iff pending_trigger_def same_upto_def)
qed

lemma excursions_same: "same_upto m d d' \<Longrightarrow> i < m \<Longrightarrow> excursions d p i = excursions d' p i"
  using span_same [of m d d' "i + 1"] by (simp add: excursions_def Let_def)

lemma close_pos_same:
  assumes "same_upto m d d'" and "i < m"
  shows "close_pos d p px i reason slip = close_pos d' p px i reason slip"
  unfolding close_pos_def trade_same [OF assms(1)] units_same [OF assms(1), THEN conjunct2] bar_at_same [OF assms]
    excursions_same [OF assms] ..

lemma open_pos_same:
  assumes "same_upto m d d'" and "i < m"
  shows "open_pos d g lots px i slip spread = open_pos d' g lots px i slip spread"
  unfolding open_pos_def trade_same [OF assms(1)] units_same [OF assms(1), THEN conjunct2] bar_at_same [OF assms] ..

lemma check_exit_same:
  assumes "same_upto m d d'" and "i < m"
  shows "check_exit d a i p = check_exit d' a i p"
  unfolding check_exit_def close_pos_same [OF assms] bar_at_same [OF assms] ..

lemma process_bar_same:
  assumes "same_upto m d d'" and "i < m"
  shows "process_bar d symb i = process_bar d' symb i"
proof -
  have "fill_market d symb i = fill_market d' symb i"
    unfolding fun_eq_iff [where 'a = sim_bar] fill_market_def close_pos_same [OF assms] open_pos_same [OF assms] by simp
  moreover have "fill_pending d symb i = fill_pending d' symb i"
    unfolding fun_eq_iff [where 'a = sim_bar] fill_pending_def check_exit_same [OF assms] open_pos_same [OF assms]
      trade_same [OF assms(1)] by simp
  moreover have "check_exit d True i = check_exit d' True i" by (rule ext) (rule check_exit_same [OF assms])
  ultimately show ?thesis unfolding process_bar_def bar_at_same [OF assms] by simp
qed

lemma for_each_cong: "(\<And>x. x \<in> set xs \<Longrightarrow> f x = g x) \<Longrightarrow> for_each f xs = for_each g xs"
  by (induction xs) auto

lemma walk_same: "same_upto m d d' \<Longrightarrow> hi \<le> m \<Longrightarrow> walk d symb lo hi = walk d' symb lo hi"
  unfolding walk_def by (rule for_each_cong) (auto intro: process_bar_same)

section \<open>Symbols that agree\<close>

definition same_symbols :: "(string \<Rightarrow> nat) \<Rightarrow> symbols \<Rightarrow> symbols \<Rightarrow> bool" where
  "same_symbols n S S' \<longleftrightarrow> dict_keys S = dict_keys S' \<and>
     (\<forall>symb d d'. dict_get S symb = Some d \<longrightarrow> dict_get S' symb = Some d' \<longrightarrow> same_upto (n symb) d d')"

definition lasts_below :: "(string \<Rightarrow> nat) \<Rightarrow> sim \<Rightarrow> bool" where
  "lasts_below n s \<longleftrightarrow> (\<forall>symb i. dict_get (sim_last_idx s) symb = Some i \<longrightarrow> i < n symb)"

lemma symbol_cases:
  assumes "same_symbols n S S'"
  obtains "symbol_of S symb = Inl (KeyErr symb)" "symbol_of S' symb = Inl (KeyErr symb)"
  | d d' where "symbol_of S symb = Inr d" "symbol_of S' symb = Inr d'" "same_upto (n symb) d d'"
proof (cases "dict_get S symb")
  case None
  with assms have "dict_get S' symb = None" by (metis get_None_iff same_symbols_def)
  with None that(1) show thesis by (simp add: symbol_of_def)
next
  case (Some d)
  with assms obtain d' where "dict_get S' symb = Some d'" by (metis get_Some_key key_get same_symbols_def)
  with Some assms that(2) show thesis by (auto simp: symbol_of_def same_symbols_def)
qed

lemma bnd_lift: "bnd (lift r) f s = (case r of Inl e \<Rightarrow> (Inl e, s) | Inr x \<Rightarrow> f x s)"
  by (cases r) (simp_all add: bnd_def lift_def raise_def ret_def)

lemma modify_stop_same:
  assumes S: "same_symbols n S S'" and below: "lasts_below n s"
  shows "modify_stop S sid pid stop now s = modify_stop S' sid pid stop now s"
proof (cases "find_position sid pid s")
  case (Some r)
  obtain k p where r: "r = (k, p)" by fastforce
  let ?k = "sg_symbol (op_signal p)"
  show ?thesis
  proof (rule symbol_cases [OF S, of ?k])
    fix d d'
    assume d: "symbol_of S ?k = Inr d" "symbol_of S' ?k = Inr d'" "same_upto (n ?k) d d'"
    have "bar_at d i = bar_at d' i" if "dict_get (sim_last_idx s) ?k = Some i" for i
      using bar_at_same [OF d(3)] below that by (simp add: lasts_below_def)
    then show ?thesis
      using Some r d(1,2) by (auto simp: modify_stop_def bnd_gets bnd_lift split: option.split)
  qed (use Some r in \<open>simp add: modify_stop_def bnd_gets bnd_lift\<close>)
qed (simp add: modify_stop_def bnd_gets)

lemma float_same:
  assumes S: "same_symbols n S S'" and below: "lasts_below n s"
  shows "float_symbol S s x = float_symbol S' s x"
proof -
  obtain k ps where x: "x = (k, ps)" by fastforce
  show ?thesis
  proof (rule symbol_cases [OF S, of k])
    fix d d'
    assume d: "symbol_of S k = Inr d" "symbol_of S' k = Inr d'" "same_upto (n k) d d'"
    then have "float_of d = float_of d'" by (simp add: fun_eq_iff float_of_def same_upto_def)
    moreover have "bar_at d i = bar_at d' i" if "dict_get (sim_last_idx s) k = Some i" for i
      using bar_at_same [OF d(3)] below that by (simp add: lasts_below_def)
    ultimately show ?thesis using x d(1,2) by (auto simp: float_symbol_def split: option.split)
  qed (use x in \<open>simp add: float_symbol_def\<close>)
qed

lemma equity_same: "same_symbols n S S' \<Longrightarrow> lasts_below n s \<Longrightarrow> sim_equity S s = sim_equity S' s"
  using float_same [of n S S' s] by (simp add: sim_equity_def floating_def ext [of "float_symbol S s" "float_symbol S' s"])

lemma open_risk_same:
  assumes S: "same_symbols n S S'"
  shows "open_risk S s = open_risk S' s"
proof -
  have "sbind (symbol_of S k) (\<lambda>d. Inr (sum_list (map (risk_left d) ps))) =
      sbind (symbol_of S' k) (\<lambda>d. Inr (sum_list (map (risk_left d) ps)))" for k ps
  proof (rule symbol_cases [OF S, of k])
    fix d d'
    assume d: "symbol_of S k = Inr d" "symbol_of S' k = Inr d'" "same_upto (n k) d d'"
    then have "risk_left d = risk_left d'" by (simp add: fun_eq_iff risk_left_def same_upto_def)
    with d show ?thesis by simp
  qed simp
  then show ?thesis by (simp add: open_risk_def)
qed

section \<open>Two computations that agree under an invariant\<close>

definition agree :: "('s \<Rightarrow> bool) \<Rightarrow> ('s, 'a) se \<Rightarrow> ('s, 'a) se \<Rightarrow> bool" where
  "agree I m m' \<longleftrightarrow> (\<forall>s. I s \<longrightarrow> m s = m' s \<and> I (snd (m s)))"

lemma agreeI: "(\<And>s. I s \<Longrightarrow> m s = m' s) \<Longrightarrow> keeps (preserving I) m \<Longrightarrow> agree I m m'"
  by (simp add: agree_def keeps_def preserving_def)

lemma agree_refl: "keeps (preserving I) m \<Longrightarrow> agree I m m"
  by (rule agreeI) auto

lemma agree_bnd: "agree I m m' \<Longrightarrow> (\<And>x. agree I (f x) (f' x)) \<Longrightarrow> agree I (bnd m f) (bnd m' f')"
  unfolding agree_def bnd_def by (fastforce split: prod.splits sum.splits)

lemma agree_seq: "agree I m m' \<Longrightarrow> agree I n n' \<Longrightarrow> agree I (seq m n) (seq m' n')"
  unfolding seq_def by (rule agree_bnd)

lemma agree_gets:
  "(\<And>s. I s \<Longrightarrow> f s = f' s \<and> k (f s) s = k' (f s) s \<and> I (snd (k (f s) s))) \<Longrightarrow> agree I (bnd (gets f) k) (bnd (gets f') k')"
  unfolding agree_def bnd_gets by metis

lemma agree_ret: "agree I (ret x) (ret x)"
  by (simp add: agree_def ret_def)

lemma agree_for_each: "(\<And>x. x \<in> set xs \<Longrightarrow> agree I (f x) (f' x)) \<Longrightarrow> agree I (for_each f xs) (for_each f' xs)"
  by (induction xs) (auto intro: agree_ret agree_seq)

lemma agree_fold_each:
  "(\<And>x acc. x \<in> set xs \<Longrightarrow> agree I (f x acc) (f' x acc)) \<Longrightarrow> agree I (fold_each f xs acc) (fold_each f' xs acc)"
  by (induction xs arbitrary: acc) (auto intro: agree_ret agree_bnd)

lemma agree_when: "(b \<Longrightarrow> agree I m m') \<Longrightarrow> agree I (when_do b m) (when_do b m')"
  by (simp add: when_do_def agree_ret)

lemma agreeD: "agree I m m' \<Longrightarrow> I s \<Longrightarrow> m s = m' s \<and> I (snd (m s)) \<and> I (snd (m' s))"
  unfolding agree_def by metis

end
