(* ===== verification/Backtest_Causal.thy ===== *)
theory Backtest_Causal
  imports Backtest_Prefix
begin

text \<open>The loop of two backtests whose histories agree up to an instant.\<close>

section \<open>Histories that agree\<close>

definition known :: "full_bar list \<Rightarrow> ns \<Rightarrow> full_bar list" where
  "known rows t = takeWhile (\<lambda>b. mb_close_time b \<le> t) rows"

lemma closed_by_known: "closed_by rows t = length (known rows t)"
  by (simp add: closed_by_def known_def)

lemma known_take: "known rows t = take (closed_by rows t) rows"
  unfolding closed_by_def known_def by (rule takeWhile_eq_take)

lemma takeWhile_less: "(\<And>x. P x \<Longrightarrow> Q x) \<Longrightarrow> takeWhile P (takeWhile Q xs) = takeWhile P xs"
  by (induction xs) auto

lemma known_known: "t \<le> u \<Longrightarrow> known (known rows u) t = known rows t"
  unfolding known_def by (rule takeWhile_less) auto

lemma closed_by_same: "\<lbrakk>known rows T = known rows' T; t \<le> T\<rbrakk> \<Longrightarrow> closed_by rows t = closed_by rows' t"
  unfolding closed_by_known by (metis known_known)

lemma closed_by_mono:
  assumes "t \<le> u"
  shows "closed_by rows t \<le> closed_by rows u"
proof -
  have "length (takeWhile P xs) \<le> length xs" for P :: "full_bar \<Rightarrow> bool" and xs by (rule length_takeWhile_le)
  then have "length (known (known rows u) t) \<le> length (known rows u)" unfolding known_def .
  then show ?thesis by (simp only: closed_by_known known_known [OF assms])
qed

definition in_sequence :: "full_bar list \<Rightarrow> bool" where
  "in_sequence rows \<longleftrightarrow> sorted (map mb_close_time rows)"

lemma beyond_known:
  assumes "in_sequence rows" and "closed_by rows T \<le> j" and "j < length rows"
  shows "T < mb_close_time (rows ! j)"
proof -
  have "\<not> mb_close_time (rows ! closed_by rows T) \<le> T"
    using nth_length_takeWhile [of "\<lambda>b. mb_close_time b \<le> T" rows] assms(2,3) by (simp add: closed_by_def)
  moreover have "mb_close_time (rows ! closed_by rows T) \<le> mb_close_time (rows ! j)"
    using sorted_nth_mono [of "map mb_close_time rows" "closed_by rows T" j] assms by (simp add: in_sequence_def)
  ultimately show ?thesis by linarith
qed

lemma known_nth:
  assumes "known rows T = known rows' T" and "j < closed_by rows T"
  shows "rows ! j = rows' ! j" "j < length rows" "j < length rows'"
proof -
  have "rows ! j = known rows T ! j" using assms(2) by (simp add: known_take)
  moreover have "closed_by rows T = closed_by rows' T" using closed_by_same [OF assms(1)] by simp
  then have "rows' ! j = known rows' T ! j" using assms(2) by (simp add: known_take)
  ultimately show "rows ! j = rows' ! j" using assms(1) by simp
  show "j < length rows" using assms(2) closed_by_le less_le_trans by blast
  show "j < length rows'" using assms(2) \<open>closed_by rows T = closed_by rows' T\<close> closed_by_le less_le_trans by metis
qed

text \<open>Whether the next bar of a series closes at an instant, or before it.\<close>

lemma due_same:
  assumes k: "known rows T = known rows' T" and s: "in_sequence rows" "in_sequence rows'" and t: "t \<le> T"
  shows "(j < length rows \<and> mb_close_time (rows ! j) = t) = (j < length rows' \<and> mb_close_time (rows' ! j) = t)"
    and "(j < length rows \<and> mb_close_time (rows ! j) < t) = (j < length rows' \<and> mb_close_time (rows' ! j) < t)"
    and "j < length rows \<and> mb_close_time (rows ! j) = t \<Longrightarrow> j < closed_by rows T"
proof -
  have c: "closed_by rows T = closed_by rows' T" using closed_by_same [OF k] by simp
  have far: "j < length r \<Longrightarrow> closed_by r T \<le> j \<Longrightarrow> in_sequence r \<Longrightarrow> t < mb_close_time (r ! j)" for r
    using beyond_known [of r T j] t by linarith
  have near: "j < closed_by rows T \<Longrightarrow> rows ! j = rows' ! j \<and> j < length rows \<and> j < length rows'"
    using known_nth [OF k] by blast
  have distant: "\<not> j < closed_by rows T \<Longrightarrow> (j < length rows \<longrightarrow> t < mb_close_time (rows ! j)) \<and>
      (j < length rows' \<longrightarrow> t < mb_close_time (rows' ! j))"
    using far [of rows] far [of rows'] s c by (simp add: not_less)
  show "(j < length rows \<and> mb_close_time (rows ! j) = t) = (j < length rows' \<and> mb_close_time (rows' ! j) = t)"
    using near distant by (cases "j < closed_by rows T") auto
  show "(j < length rows \<and> mb_close_time (rows ! j) < t) = (j < length rows' \<and> mb_close_time (rows' ! j) < t)"
    using near distant by (cases "j < closed_by rows T") auto
  show "j < length rows \<and> mb_close_time (rows ! j) = t \<Longrightarrow> j < closed_by rows T"
    using distant by (cases "j < closed_by rows T") auto
qed

section \<open>Environments that agree\<close>

definition same_history :: "ns \<Rightarrow> 's bt_env \<Rightarrow> 's bt_env \<Rightarrow> bool" where
  "same_history T E E' \<longleftrightarrow>
     E' = E\<lparr>be_m1 := be_m1 E', be_series := be_series E'\<rparr> \<and>
     (\<forall>symb \<in> set (mf_symbols (be_manifest E)). known (m1_of E symb) T = known (m1_of E' symb) T) \<and>
     (\<forall>k \<in> set (subs E). known (rows_of E k) T = known (rows_of E' k) T)"

definition ordered_env :: "'s bt_env \<Rightarrow> bool" where
  "ordered_env E \<longleftrightarrow> (\<forall>k \<in> set (subs E). in_sequence (rows_of E k))"

lemma same_fields:
  assumes "same_history T E E'"
  shows "be_manifest E' = be_manifest E" "be_instruments E' = be_instruments E" "be_costs E' = be_costs E"
    "be_rates E' = be_rates E" "be_initial_equity E' = be_initial_equity E" "be_account_ccy E' = be_account_ccy E"
    "be_guard E' = be_guard E" "be_zone E' = be_zone E" "be_promotion E' = be_promotion E"
    "be_warmup E' = be_warmup E" "be_strategy E' = be_strategy E" "be_on_bar E' = be_on_bar E" "be_on_fill E' = be_on_fill E"
    "timeframes E' = timeframes E" "subs E' = subs E"
proof -
  have "E' = E\<lparr>be_m1 := be_m1 E', be_series := be_series E'\<rparr>" using assms by (simp add: same_history_def)
  then obtain m ss where e: "E' = E\<lparr>be_m1 := m, be_series := ss\<rparr>" by blast
  show "be_manifest E' = be_manifest E" "be_instruments E' = be_instruments E" "be_costs E' = be_costs E"
    "be_rates E' = be_rates E" "be_initial_equity E' = be_initial_equity E" "be_account_ccy E' = be_account_ccy E"
    "be_guard E' = be_guard E" "be_zone E' = be_zone E" "be_promotion E' = be_promotion E"
    "be_warmup E' = be_warmup E" "be_strategy E' = be_strategy E" "be_on_bar E' = be_on_bar E" "be_on_fill E' = be_on_fill E"
    unfolding e by simp_all
  show "timeframes E' = timeframes E" unfolding e by (simp add: timeframes_def)
  then show "subs E' = subs E" unfolding subs_def by (simp add: e)
qed

text \<open>What has been read so far lies within the known history.\<close>

definition within_known :: "ns \<Rightarrow> 's bt_env \<Rightarrow> symbols \<Rightarrow> flt \<Rightarrow> 's bt_state \<Rightarrow> bool" where
  "within_known T E S B s \<longleftrightarrow>
     aligned S B s \<and> lasts_below (\<lambda>symb. closed_by (m1_of E symb) T) (bt_sim s) \<and>
     (\<forall>k. at_zero (bt_visible s) k \<le> closed_by (rows_of E k) T \<and>
        at_zero (bt_next_close s) k \<le> closed_by (rows_of E k) T)"

lemma kept_within: "keeps (sim_kept S B) m \<Longrightarrow> keeps (preserving (within_known T E S B)) m"
  by (erule keeps_weaken) (auto simp: sim_kept_def preserving_def within_known_def aligned_def next_bar_def lasts_below_def)

definition twins :: "ns \<Rightarrow> 's bt_env \<Rightarrow> 's bt_env \<Rightarrow> symbols \<Rightarrow> symbols \<Rightarrow> bool" where
  "twins T E E' S S' \<longleftrightarrow>
     same_history T E E' \<and> ordered_env E \<and> ordered_env E' \<and> all_data_ok S \<and> all_data_ok S' \<and>
     columns_ok S E \<and> columns_ok S' E' \<and> same_symbols (\<lambda>symb. closed_by (m1_of E symb) T) S S'"

lemma on_sim_agree:
  fixes E :: "'s bt_env"
  assumes "\<And>s. within_known T E S B s \<Longrightarrow> m (bt_sim s) = m' (bt_sim s)" and "keeps (sim_kept S B) (on_sim m :: ('s bt_state, 'a) se)"
  shows "agree (within_known T E S B) (on_sim m) (on_sim m')"
  by (rule agreeI [OF _ kept_within [OF assms(2)]]) (simp add: on_sim_def assms(1))

lemma kept_agree: "keeps (sim_kept S B) m \<Longrightarrow> agree (within_known T E S B) m m"
  by (rule agree_refl [OF kept_within])

lemma advance_same:
  assumes tw: "twins T E E' S S'" and symb: "symb \<in> set (mf_symbols (be_manifest E))"
    and hi: "hi \<le> closed_by (m1_of E symb) T" and reach: "sim_reach S B s"
  shows "sim_advance S symb lo hi s = sim_advance S' symb lo hi s"
proof -
  let ?n = "\<lambda>symb. closed_by (m1_of E symb) T"
  have S: "same_symbols ?n S S'" using tw by (simp add: twins_def)
  obtain d where d: "dict_get S symb = Some d" "length (sy_bars d) = length (m1_of E symb)"
    using tw symb by (auto simp: twins_def columns_ok_def)
  obtain d' where d': "dict_get S' symb = Some d'" "length (sy_bars d') = length (m1_of E' symb)"
    using tw symb same_fields(1) [of T E E'] by (auto simp: twins_def columns_ok_def)
  have same: "same_upto (?n symb) d d'" using S d d' by (auto simp: same_symbols_def)
  have n': "?n symb = closed_by (m1_of E' symb) T"
    using tw symb closed_by_same [of "m1_of E symb" T "m1_of E' symb" T] by (auto simp: twins_def same_history_def)
  have len: "hi \<le> length (sy_bars d)" "hi \<le> length (sy_bars d')"
    using hi d(2) d'(2) n' closed_by_le [of "m1_of E symb" T] closed_by_le [of "m1_of E' symb" T] by linarith+
  have ord: "in_order d" "in_order d'" using tw d(1) d'(1) by (auto simp: twins_def all_data_ok_def data_ok_def)
  let ?s = "s\<lparr>sim_last_idx := dict_set symb (hi - 1) (sim_last_idx s)\<rparr>"
  have "sim_inv S B s" using reach_inv [OF reach] tw by (simp add: twins_def)
  then have "tidy symb ?s" by (simp add: tidy_def sim_inv_def sound_defs)
  then have "advance_loop d symb lo hi ?s = advance_loop d' symb lo hi ?s"
    using walk_jump ord len walk_same [OF same hi] by metis
  then show ?thesis
    using d(1) d'(1) by (simp add: sim_advance_def seq_modif symbol_of_def bnd_lift)
qed

lemma sync_agree:
  assumes tw: "twins T E E' S S'" and t: "t \<le> T" and symb: "symb \<in> set (mf_symbols (be_manifest E))"
  shows "agree (within_known T E S B) (sync_symbol S E t symb) (sync_symbol S' E' t symb)"
proof (rule agreeI)
  have known: "known (m1_of E symb) T = known (m1_of E' symb) T"
    using tw symb by (auto simp: twins_def same_history_def)
  have hi: "closed_by (m1_of E symb) t = closed_by (m1_of E' symb) t" by (rule closed_by_same [OF known t])
  have le: "closed_by (m1_of E symb) t \<le> closed_by (m1_of E symb) T" by (rule closed_by_mono [OF t])
  show "sync_symbol S E t symb s = sync_symbol S' E' t symb s" if "within_known T E S B s" for s
  proof -
    have "sim_reach S B (bt_sim s)" using that by (simp add: within_known_def aligned_def)
    from advance_same [OF tw symb le this] show ?thesis
      by (simp add: sync_symbol_def hi Let_def bnd_gets when_do_def seq_def bnd_def gets_def on_sim_def cong: if_cong)
  qed
  obtain d where d: "dict_get S symb = Some d" "length (sy_bars d) = length (m1_of E symb)"
    using tw symb by (auto simp: twins_def columns_ok_def)
  have ok: "all_data_ok S" using tw by (simp add: twins_def)
  show "keeps (preserving (within_known T E S B)) (sync_symbol S E t symb)"
    unfolding keeps_def preserving_def
  proof (intro allI impI, goal_cases)
    case (1 s)
    then have "aligned S B s" by (simp add: within_known_def)
    from sync_aligned [OF ok d this, of t] 1 le show ?case
      by (auto simp: within_known_def lasts_below_def) (metis less_le_trans)
  qed
qed

section \<open>The other steps\<close>

lemma twins_symbols: "twins T E E' S S' \<Longrightarrow> same_symbols (\<lambda>symb. closed_by (m1_of E symb) T) S S'"
  by (simp add: twins_def)

lemma within_lasts: "within_known T E S B s \<Longrightarrow> lasts_below (\<lambda>symb. closed_by (m1_of E symb) T) (bt_sim s)"
  by (simp add: within_known_def)

lemma agree_gets_same:
  "(\<And>s. I s \<Longrightarrow> f s = f' s) \<Longrightarrow> (\<And>x. agree I (k x) (k' x)) \<Longrightarrow> agree I (bnd (gets f) k) (bnd (gets f') k')"
  unfolding agree_def bnd_gets by metis

lemma bnd_lift_Inr: "bnd (lift (Inr x)) f = f x"
  by (simp add: fun_eq_iff bnd_lift)

lemma agree_lift:
  "(\<And>x. r = Inr x \<Longrightarrow> agree I (k x) (k' x)) \<Longrightarrow> agree I (bnd (lift r) k) (bnd (lift r) k')"
  unfolding agree_def bnd_lift by (cases r) auto

lemma size_signal_agree:
  assumes tw: "twins T E E' S S'" and d: "same_upto m d d'"
  shows "agree (within_known T E S B) (size_signal S now tf g d b) (size_signal S' now tf g d' b)"
proof (rule agreeI [OF _ kept_within [OF size_signal_kept]])
  fix s :: "'a bt_state"
  assume "within_known T E S B s"
  note below = within_lasts [OF this]
  show "size_signal S now tf g d b s = size_signal S' now tf g d' b s"
    using d unfolding size_signal_def bnd_gets
    by (simp add: equity_same [OF twins_symbols [OF tw] below] open_risk_same [OF twins_symbols [OF tw]] same_upto_def)
qed

lemma handle_signal_agree:
  assumes tw: "twins T E E' S S'"
  shows "agree (within_known T E S B) (handle_signal S now tf g) (handle_signal S' now tf g)"
proof -
  let ?I = "within_known T E S B" and ?n = "\<lambda>symb. closed_by (m1_of E symb) T"
  have priced: "agree ?I
      (bnd (gets (\<lambda>s. dict_get (sim_last_idx (bt_sim s)) (sg_symbol g))) (\<lambda>last.
        case last of
          None \<Rightarrow> on_sim (modif (reject now ''signal {}'' (sg_id g) ''no price yet''))
        | Some i \<Rightarrow> bnd (lift (bar_at d i)) (size_signal S now tf g d)))
      (bnd (gets (\<lambda>s. dict_get (sim_last_idx (bt_sim s)) (sg_symbol g))) (\<lambda>last.
        case last of
          None \<Rightarrow> on_sim (modif (reject now ''signal {}'' (sg_id g) ''no price yet''))
        | Some i \<Rightarrow> bnd (lift (bar_at d' i)) (size_signal S' now tf g d')))"
    if d: "same_upto (?n (sg_symbol g)) d d'" for d d'
  proof (rule agree_gets)
    fix s
    assume I: "?I s"
    show "dict_get (sim_last_idx (bt_sim s)) (sg_symbol g) = dict_get (sim_last_idx (bt_sim s)) (sg_symbol g) \<and>
       (case dict_get (sim_last_idx (bt_sim s)) (sg_symbol g) of
          None \<Rightarrow> on_sim (modif (reject now ''signal {}'' (sg_id g) ''no price yet''))
        | Some i \<Rightarrow> bnd (lift (bar_at d i)) (size_signal S now tf g d)) s =
       (case dict_get (sim_last_idx (bt_sim s)) (sg_symbol g) of
          None \<Rightarrow> on_sim (modif (reject now ''signal {}'' (sg_id g) ''no price yet''))
        | Some i \<Rightarrow> bnd (lift (bar_at d' i)) (size_signal S' now tf g d')) s \<and>
       ?I (snd ((case dict_get (sim_last_idx (bt_sim s)) (sg_symbol g) of
          None \<Rightarrow> on_sim (modif (reject now ''signal {}'' (sg_id g) ''no price yet''))
        | Some i \<Rightarrow> bnd (lift (bar_at d i)) (size_signal S now tf g d)) s))"
    proof (cases "dict_get (sim_last_idx (bt_sim s)) (sg_symbol g)")
      case None
      with agreeD [OF kept_agree [OF reject_kept] I] show ?thesis by simp
    next
      case (Some i)
      then have "i < ?n (sg_symbol g)" using within_lasts [OF I] by (simp add: lasts_below_def)
      then have b: "bar_at d i = bar_at d' i" by (rule bar_at_same [OF d])
      have "agree ?I (bnd (lift (bar_at d i)) (size_signal S now tf g d)) (bnd (lift (bar_at d' i)) (size_signal S' now tf g d'))"
        unfolding b by (rule agree_lift) (rule size_signal_agree [OF tw d])
      from agreeD [OF this I] Some show ?thesis by simp
    qed
  qed
  have first: "agree ?I (modif (\<lambda>s. s\<lparr>bt_signals := bt_signals s @ [g]\<rparr>)) (modif (\<lambda>s. s\<lparr>bt_signals := bt_signals s @ [g]\<rparr>))"
    by (rule kept_agree [OF kept_modif]) simp
  show ?thesis
    unfolding handle_signal_def
  proof (rule agree_seq [OF first], rule symbol_cases [OF twins_symbols [OF tw], of "sg_symbol g"])
    fix d d'
    assume d: "symbol_of S (sg_symbol g) = Inr d" "symbol_of S' (sg_symbol g) = Inr d'" "same_upto (?n (sg_symbol g)) d d'"
    show "agree ?I (bnd (lift (symbol_of S (sg_symbol g))) (\<lambda>d.
        bnd (gets (\<lambda>s. dict_get (sim_last_idx (bt_sim s)) (sg_symbol g))) (\<lambda>last.
          case last of
            None \<Rightarrow> on_sim (modif (reject now ''signal {}'' (sg_id g) ''no price yet''))
          | Some i \<Rightarrow> bnd (lift (bar_at d i)) (size_signal S now tf g d))))
      (bnd (lift (symbol_of S' (sg_symbol g))) (\<lambda>d.
        bnd (gets (\<lambda>s. dict_get (sim_last_idx (bt_sim s)) (sg_symbol g))) (\<lambda>last.
          case last of
            None \<Rightarrow> on_sim (modif (reject now ''signal {}'' (sg_id g) ''no price yet''))
          | Some i \<Rightarrow> bnd (lift (bar_at d i)) (size_signal S' now tf g d))))"
      using priced [OF d(3)] unfolding d(1,2) bnd_lift_Inr .
  qed (simp add: agree_def bnd_lift)
qed

lemma handle_request_agree:
  assumes tw: "twins T E E' S S'"
  shows "agree (within_known T E S B) (handle_request S E now tf r) (handle_request S' E' now tf r)"
proof -
  have m: "be_manifest E' = be_manifest E" using tw same_fields(1) by (auto simp: twins_def)
  show ?thesis
  proof (cases r)
    case (NewSignal g)
    with handle_signal_agree [OF tw] show ?thesis by (simp add: handle_request_def)
  next
    case (Ask q)
    show ?thesis
    proof (cases q)
      case (ModifyStopRequest sid ver pid stop why)
      show ?thesis
      proof (rule agreeI [OF _ kept_within [OF handle_request_kept]])
        fix s :: "'a bt_state"
        assume "within_known T E S B s"
        from modify_stop_same [OF twins_symbols [OF tw] within_lasts [OF this]]
        show "handle_request S E now tf r s = handle_request S' E' now tf r s"
          by (simp add: handle_request_def Ask ModifyStopRequest m ignore_def bnd_def on_sim_def)
      qed
    next
      case (CancelRequest sid ver gid why)
      have "handle_request S E now tf r = handle_request S' E' now tf r"
        by (simp add: handle_request_def Ask CancelRequest m)
      with kept_agree [OF handle_request_kept] show ?thesis by metis
    next
      case (CloseRequest sid ver pid why)
      have "handle_request S E now tf r = handle_request S' E' now tf r"
        by (simp add: handle_request_def Ask CloseRequest m)
      with kept_agree [OF handle_request_kept] show ?thesis by metis
    qed
  qed
qed

lemma handle_all_agree:
  assumes tw: "twins T E E' S S'"
  shows "agree (within_known T E S B) (handle_all S E now tf rs) (handle_all S' E' now tf rs)"
proof -
  have m: "be_manifest E' = be_manifest E" using tw same_fields(1) by (auto simp: twins_def)
  show ?thesis
    unfolding handle_all_def m
    by (intro agree_gets_same agree_seq agree_for_each handle_request_agree [OF tw] kept_agree [OF on_seen_kept]) simp
qed

lemma take_known:
  assumes "known rows T = known rows' T" and "v \<le> closed_by rows T"
  shows "take v rows = take v rows'"
proof -
  have "closed_by rows T = closed_by rows' T" using closed_by_same [OF assms(1)] by simp
  then have "take (closed_by rows T) rows = take (closed_by rows T) rows'" using assms(1) by (simp add: known_take)
  from take_less [OF this assms(2)] show ?thesis .
qed

lemma view_same:
  assumes tw: "twins T E E' S S'" and I: "within_known T E S B s"
  shows "view_of E s = view_of E' s"
proof -
  have h: "same_history T E E'" using tw by (simp add: twins_def)
  note f = same_fields [OF h]
  have "buffer_last n (buffer_of E s k) = buffer_last n (buffer_of E' s k)" if k: "k \<in> set (subs E)" for n k
  proof -
    have "known (rows_of E k) T = known (rows_of E' k) T" using h k by (simp add: same_history_def)
    moreover have "at_zero (bt_visible s) k \<le> closed_by (rows_of E k) T" using I unfolding within_known_def by blast
    ultimately have "take (at_zero (bt_visible s) k) (rows_of E k) = take (at_zero (bt_visible s) k) (rows_of E' k)"
      by (rule take_known)
    then show ?thesis by (simp add: buffer_last_def buffer_of_def loaded_def)
  qed
  moreover have "dict_get (map (\<lambda>k. (k, f k)) ks) k = (if k \<in> set ks then Some (f k) else None)" for f :: "series_key \<Rightarrow> series_buffer" and ks k
    by (induction ks) auto
  ultimately have "market_bars (map (\<lambda>k. (k, buffer_of E s k)) (subs E)) =
      market_bars (map (\<lambda>k. (k, buffer_of E' s k)) (subs E))"
    by (simp add: fun_eq_iff market_bars_def)
  then show ?thesis by (simp add: view_of_def f)
qed

lemma ask_agree:
  assumes tw: "twins T E E' S S'"
  shows "agree (within_known T E S B) (ask_strategy E f) (ask_strategy E' f)"
  by (rule agreeI [OF _ kept_within [OF ask_kept]]) (simp add: ask_strategy_def view_same [OF tw])

lemma deliver_fill_agree:
  assumes tw: "twins T E E' S S'"
  shows "agree (within_known T E S B) (deliver_fill S E t x) (deliver_fill S' E' t x)"
proof -
  have "be_on_fill E' = be_on_fill E" "timeframes E' = timeframes E" using tw same_fields [of T E E'] by (auto simp: twins_def)
  then show ?thesis
    unfolding deliver_fill_def by (cases x) (simp add: agree_bnd [OF ask_agree [OF tw] handle_all_agree [OF tw]])
qed

lemma charge_same:
  assumes S: "same_symbols n S S'" and below: "lasts_below n s"
  shows "charge_swaps S wd s = charge_swaps S' wd s"
proof -
  have one: "agree (lasts_below n) (charge_symbol S wd x) (charge_symbol S' wd x)" for x
  proof (rule agreeI)
    obtain k ps where x: "x = (k, ps)" by fastforce
    show "charge_symbol S wd x s = charge_symbol S' wd x s" if b: "lasts_below n s" for s
    proof (rule symbol_cases [OF S, of k])
      fix d d'
      assume d: "symbol_of S k = Inr d" "symbol_of S' k = Inr d'" "same_upto (n k) d d'"
      then have "charge_position d = charge_position d'" and c: "sy_costs d = sy_costs d'"
        by (simp_all add: fun_eq_iff charge_position_def same_upto_def)
      moreover have "bar_at d i = bar_at d' i" if "dict_get (sim_last_idx s) k = Some i" for i
        using bar_at_same [OF d(3)] b that by (simp add: lasts_below_def)
      ultimately show ?thesis
        using x d(1,2) by (cases "dict_get (sim_last_idx s) k") (simp_all add: charge_symbol_def bnd_lift bnd_gets)
    qed (use x in \<open>simp add: charge_symbol_def bnd_lift\<close>)
    have "keeps last_kept (charge_symbol S wd x)"
      unfolding charge_symbol_def Let_def by (intro last_steps) (simp_all add: last_kept_def)
    then show "keeps (preserving (lasts_below n)) (charge_symbol S wd x)"
      by (rule keeps_weaken) (simp add: last_kept_def preserving_def lasts_below_def)
  qed
  show ?thesis
    unfolding charge_swaps_def bnd_gets
    using agreeD [OF agree_for_each [of "sim_positions s" _ "charge_symbol S wd" "charge_symbol S' wd", OF one] below] by blast
qed

lemma record_equity_agree:
  assumes tw: "twins T E E' S S'"
  shows "agree (within_known T E S B) (record_equity S t) (record_equity S' t)"
  by (rule agreeI [OF _ kept_within [OF record_equity_kept]])
    (simp add: record_equity_def bnd_gets equity_same [OF twins_symbols [OF tw] within_lasts])

lemma roll_over_agree:
  assumes tw: "twins T E E' S S'" and "dict_get rolls t = dict_get rolls' t"
  shows "agree (within_known T E S B) (roll_over S rolls t) (roll_over S' rolls' t)"
proof (cases "dict_get rolls t")
  case None
  with assms(2) show ?thesis by (simp add: roll_over_def agree_ret)
next
  case (Some wd)
  have "agree (within_known T E S B) (on_sim (charge_swaps S wd)) (on_sim (charge_swaps S' wd))"
    by (rule on_sim_agree [OF _ charge_kept]) (rule charge_same [OF twins_symbols [OF tw] within_lasts])
  with Some assms(2) record_equity_agree [OF tw] show ?thesis by (auto simp: roll_over_def intro: agree_seq)
qed

section \<open>Bars that close\<close>

lemma agree_bnd_fact:
  assumes "agree I m m'" and "\<And>s x t. m s = (Inr x, t) \<Longrightarrow> P x" and "\<And>x. P x \<Longrightarrow> agree I (f x) (f' x)"
  shows "agree I (bnd m f) (bnd m' f')"
  unfolding agree_def
proof (intro allI impI)
  fix s
  assume I: "I s"
  obtain r t where m: "m s = (r, t)" by fastforce
  with agreeD [OF assms(1) I] have m': "m' s = (r, t)" and It: "I t" by auto
  show "bnd m f s = bnd m' f' s \<and> I (snd (bnd m f s))"
  proof (cases r)
    case (Inr x)
    with m assms(2) have "P x" by blast
    from agreeD [OF assms(3) [OF this] It] Inr m m' show ?thesis by (simp add: bnd_def)
  qed (use m m' It in \<open>simp add: bnd_def\<close>)
qed

lemma within_due:
  assumes "within_known T E S B s" and "v \<le> closed_by (rows_of E k) T" and "j \<le> closed_by (rows_of E k) T"
  shows "within_known T E S B (s\<lparr>bt_visible := dict_set k v (bt_visible s), bt_next_close := dict_set k j (bt_next_close s)\<rparr>)"
  using assms by (simp add: within_known_def aligned_def)

lemma close_due_agree:
  assumes tw: "twins T E E' S S'" and t: "t \<le> T" and k: "k \<in> set (subs E)"
  shows "agree (within_known T E S B) (close_due E t k acc) (close_due E' t k acc)"
  unfolding agree_def
proof (intro allI impI)
  fix s
  assume I: "within_known T E S B s"
  have h: "same_history T E E'" using tw by (simp add: twins_def)
  have known: "known (rows_of E k) T = known (rows_of E' k) T" using h k by (simp add: same_history_def)
  have ord: "in_sequence (rows_of E k)" "in_sequence (rows_of E' k)"
    using tw k same_fields(15) [OF h] by (auto simp: twins_def ordered_env_def)
  let ?j = "at_zero (bt_next_close s) k" and ?b = "buffer_of E s k"
  note due = due_same [OF known ord t, of ?j]
  show "close_due E t k acc s = close_due E' t k acc s \<and> within_known T E S B (snd (close_due E t k acc s))"
  proof (cases "?j < length (rows_of E k) \<and> mb_close_time (rows_of E k ! ?j) = t")
    case True
    then have j: "?j < closed_by (rows_of E k) T" by (rule due(3))
    have "?j < length (rows_of E' k)" using known_nth(3) [OF known j] .
    then have adv: "buffer_advance_to (?j + 1) (buffer_of E' s k) = map_sum id (\<lambda>b. b\<lparr>sb_rows := rows_of E' k\<rparr>) (buffer_advance_to (?j + 1) ?b)"
      using True by (simp add: buffer_advance_to_def buffer_of_def loaded_def)
    have run: "close_due F t k acc s = (case buffer_advance_to (?j + 1) (buffer_of F s k) of
        Inl e \<Rightarrow> (Inl e, s)
      | Inr b \<Rightarrow> (Inr (acc @ [k]), s\<lparr>bt_visible := dict_set k (sb_visible b) (bt_visible s),
          bt_next_close := dict_set k (?j + 1) (bt_next_close s)\<rparr>))"
      if "?j < length (rows_of F k) \<and> mb_close_time (rows_of F k ! ?j) = t" for F
      using that by (simp add: close_due_def bnd_gets bnd_lift seq_modif ret_def split: sum.split)
    have "close_due E t k acc s = close_due E' t k acc s"
      unfolding run [OF True] run [OF True [unfolded due(1)]] adv by (cases "buffer_advance_to (?j + 1) ?b") simp_all
    moreover have "within_known T E S B (snd (close_due E t k acc s))"
      unfolding run [OF True]
      using I j by (auto simp: buffer_advance_to_def buffer_of_def loaded_def intro!: within_due)
    ultimately show ?thesis by blast
  next
    case False
    then have F: "\<not> (?j < length (rows_of E' k) \<and> mb_close_time (rows_of E' k ! ?j) = t)" using due(1) by simp
    have run: "close_due G t k acc s =
        (if ?j < length (rows_of G k) \<and> mb_close_time (rows_of G k ! ?j) < t
         then (Inl (RuntimeErr [''series bar skipped; timeline is inconsistent'']), s) else (Inr acc, s))"
      if "\<not> (?j < length (rows_of G k) \<and> mb_close_time (rows_of G k ! ?j) = t)" for G
      unfolding close_due_def bnd_gets prod.case if_not_P [OF that] raise_def ret_def by simp
    show ?thesis unfolding run [OF False] run [OF F] due(2) using I by simp
  qed
qed

lemma warmed_same: "subs E' = subs E \<Longrightarrow> warmed E s ws = warmed E' s ws"
  by (induction ws rule: warmed.induct [of _ E s]) auto

lemma deliver_bar_agree:
  assumes tw: "twins T E E' S S'" and k: "k \<in> set (subs E)"
  shows "agree (within_known T E S B) (deliver_bar S E t k) (deliver_bar S' E' t k)"
  unfolding agree_def
proof (intro allI impI)
  fix s
  assume I: "within_known T E S B s"
  have h: "same_history T E E'" using tw by (simp add: twins_def)
  have ob: "be_on_bar E' = be_on_bar E" using same_fields [OF h] by simp
  have known: "known (rows_of E k) T = known (rows_of E' k) T" using h k by (simp add: same_history_def)
  let ?v = "at_zero (bt_visible s) k"
  have v: "?v \<le> closed_by (rows_of E k) T" using I unfolding within_known_def by blast
  have row: "buffer_row (?v - 1) (buffer_of E s k) = buffer_row (?v - 1) (buffer_of E' s k)"
  proof (cases "?v")
    case (Suc i)
    with v have "i < closed_by (rows_of E k) T" by simp
    from known_nth [OF known this] Suc show ?thesis by (simp add: buffer_row_def buffer_of_def loaded_def)
  qed (simp add: buffer_row_def buffer_of_def)
  have run: "deliver_bar Z G t k s = bnd (lift (buffer_row (?v - 1) (buffer_of G s k))) (\<lambda>row.
      bnd (lift (check_bar row)) (\<lambda>bar.
      bnd (ask_strategy G (\<lambda>st v. be_on_bar G st v k bar)) (handle_all Z G t (snd k)))) s" for Z G
    by (simp add: deliver_bar_def bnd_gets buffer_of_def loaded_def)
  have "agree (within_known T E S B)
     (bnd (lift (buffer_row (?v - 1) (buffer_of E s k))) (\<lambda>row. bnd (lift (check_bar row)) (\<lambda>bar.
        bnd (ask_strategy E (\<lambda>st v. be_on_bar E st v k bar)) (handle_all S E t (snd k)))))
     (bnd (lift (buffer_row (?v - 1) (buffer_of E s k))) (\<lambda>row. bnd (lift (check_bar row)) (\<lambda>bar.
        bnd (ask_strategy E' (\<lambda>st v. be_on_bar E st v k bar)) (handle_all S' E' t (snd k)))))"
    by (intro agree_lift agree_bnd [OF ask_agree [OF tw] handle_all_agree [OF tw]])
  from agreeD [OF this I]
  show "deliver_bar S E t k s = deliver_bar S' E' t k s \<and> within_known T E S B (snd (deliver_bar S E t k s))"
    unfolding run ob row [symmetric] by blast
qed

section \<open>The loop\<close>

lemma fold_due_subset:
  "fold_each (close_due E t) ks acc s = (Inr due, u) \<Longrightarrow> set due \<subseteq> set acc \<union> set ks"
proof (induction ks arbitrary: acc s)
  case Nil
  then show ?case by (simp add: ret_def)
next
  case (Cons k ks)
  obtain acc' v where one: "close_due E t k acc s = (Inr acc', v)" and rest: "fold_each (close_due E t) ks acc' v = (Inr due, u)"
    using Cons.prems by (auto simp: bnd_Inr)
  have "set acc' \<subseteq> insert k (set acc)"
    using one by (auto simp: close_due_def bnd_Inr gets_Inr lift_Inr seq_Inr ret_Inr raise_def split: if_splits)
  with Cons.IH [OF rest] show ?case by auto
qed

lemma step_agree:
  assumes tw: "twins T E E' S S'" and t: "t \<le> T" and rolls: "dict_get rolls t = dict_get rolls' t"
  shows "agree (within_known T E S B) (bt_step S E rolls t) (bt_step S' E' rolls' t)"
proof -
  have h: "same_history T E E'" using tw by (simp add: twins_def)
  note f = same_fields [OF h]
  have warm: "agree (within_known T E S B) (bnd (gets (\<lambda>s. warmed E s ws)) k) (bnd (gets (\<lambda>s. warmed E' s ws)) k')"
    if "\<And>w. agree (within_known T E S B) (k w) (k' w)" for ws and k k' :: "exn + bool \<Rightarrow> ('a bt_state, unit) se"
    by (rule agree_gets_same) (use warmed_same f(15) that in auto)
  show ?thesis
    unfolding bt_step_def f(1,10,15)
  proof (intro agree_seq)
    show "agree (within_known T E S B) (for_each (sync_symbol S E t) (mf_symbols (be_manifest E)))
        (for_each (sync_symbol S' E' t) (mf_symbols (be_manifest E)))"
      by (rule agree_for_each) (rule sync_agree [OF tw t])
    show "agree (within_known T E S B) (move_clocks t) (move_clocks t)"
      by (rule kept_agree [OF after_sync_kept(1)])
    show "agree (within_known T E S B) (bnd drain_fills (for_each (deliver_fill S E t))) (bnd drain_fills (for_each (deliver_fill S' E' t)))"
    proof (rule agree_bnd)
      show "agree (within_known T E S B) drain_fills drain_fills"
        unfolding drain_fills_def by (intro kept_agree kept_steps)
    qed (intro agree_for_each deliver_fill_agree [OF tw])
    show "agree (within_known T E S B) (roll_over S rolls t) (roll_over S' rolls' t)"
      by (rule roll_over_agree [OF tw rolls])
    show "agree (within_known T E S B)
       (bnd (fold_each (close_due E t) (subs E) []) (\<lambda>due. when_do (due \<noteq> [])
          (bnd (gets (\<lambda>s. warmed E s (be_warmup E))) (\<lambda>w. bnd (lift w) (\<lambda>ok. when_do ok (for_each (deliver_bar S E t) due))))))
       (bnd (fold_each (close_due E' t) (subs E) []) (\<lambda>due. when_do (due \<noteq> [])
          (bnd (gets (\<lambda>s. warmed E' s (be_warmup E))) (\<lambda>w. bnd (lift w) (\<lambda>ok. when_do ok (for_each (deliver_bar S' E' t) due))))))"
    proof (rule agree_bnd_fact [where P = "\<lambda>due. set due \<subseteq> set (subs E)"])
      show "agree (within_known T E S B) (fold_each (close_due E t) (subs E) []) (fold_each (close_due E' t) (subs E) [])"
        by (rule agree_fold_each) (rule close_due_agree [OF tw t])
    next
      fix s x u
      assume "fold_each (close_due E t) (subs E) [] s = (Inr x, u)"
      from fold_due_subset [OF this] show "set x \<subseteq> set (subs E)" by simp
    next
      fix x
      assume "set x \<subseteq> set (subs E)"
      then show "agree (within_known T E S B)
         (when_do (x \<noteq> []) (bnd (gets (\<lambda>s. warmed E s (be_warmup E))) (\<lambda>w. bnd (lift w) (\<lambda>ok. when_do ok (for_each (deliver_bar S E t) x)))))
         (when_do (x \<noteq> []) (bnd (gets (\<lambda>s. warmed E' s (be_warmup E))) (\<lambda>w. bnd (lift w) (\<lambda>ok. when_do ok (for_each (deliver_bar S' E' t) x)))))"
        by (intro agree_when warm agree_lift agree_for_each deliver_bar_agree [OF tw]) auto
    qed
  qed
qed

lemma loop_agree:
  assumes "twins T E E' S S'" and "\<And>t. t \<in> set ts \<Longrightarrow> t \<le> T \<and> dict_get rolls t = dict_get rolls' t"
  shows "agree (within_known T E S B) (for_each (bt_step S E rolls) ts) (for_each (bt_step S' E' rolls') ts)"
  by (rule agree_for_each) (use assms step_agree in blast)

end
