(* ===== verification/Backtest_Future.thy ===== *)
theory Backtest_Future
  imports Backtest_Causal
begin

text \<open>
  The preparation of two backtests that agree up to an instant: the same columns, rollovers and instants up
  to it; and what a run has recorded stays recorded.
\<close>

section \<open>The same columns\<close>

lemma smap_take: "smap f xs = Inr ys \<Longrightarrow> smap f (take m xs) = Inr (take m ys)"
proof (induction xs arbitrary: ys m)
  case (Cons x xs)
  then show ?case by (cases m) auto
qed simp

lemma widen_take:
  assumes "length out = length ts"
  shows "widen m arr (take k ts) (take k out) = take k (widen m arr ts out)"
  using assms by (cases "k = 0") (auto simp: widen_def take_map take_zip)

lemma spread_array_take:
  assumes "spread_array m symb ts = Inr xs"
  shows "spread_array m symb (take k ts) = Inr (take k xs)"
proof -
  obtain hs out where hs: "medians m symb = Inr hs" and out: "smap (hourly hs) ts = Inr out"
    and xs: "xs = widen m (sm_rollover_ns m) ts (widen m (news_of m symb) ts out)"
    using assms by (auto simp: spread_array_def)
  have "length out = length ts" using smap_nth [OF out] by simp
  with hs smap_take [OF out, of k] xs show ?thesis by (simp add: spread_array_def widen_take)
qed

lemma symbol_columns_take:
  assumes "symbol_columns instruments cm rates ccy (k, bars) = Inr (k, d)"
  shows "symbol_columns instruments cm rates ccy (k, take m bars) = Inr (k, d\<lparr>sy_bars := take m (sy_bars d)\<rparr>)"
proof -
  from assms obtain inst spr med ms rate where
    a: "dict_get instruments k = Some inst" "spread_array (cm_spreads cm) k (map mb_open_time bars) = Inr spr"
    "medians (cm_spreads cm) k = Inr med" "smap (hourly med) (map mb_open_time bars) = Inr ms"
    "static_rate rates (ic_quote inst) ccy = Inr rate"
    and d: "d = \<lparr>sy_costs = inst, sy_bars = map (\<lambda>(b, s, m). price_bar b s (slippage_mult cm k * m)) (zip bars (zip spr ms)),
             sy_to_account = rate\<rparr>"
    by (auto simp: symbol_columns_def split: option.splits)
  have "spread_array (cm_spreads cm) k (map mb_open_time (take m bars)) = Inr (take m spr)"
    using spread_array_take [OF a(2), of m] by (simp only: take_map)
  moreover have "smap (hourly med) (map mb_open_time (take m bars)) = Inr (take m ms)"
    using smap_take [OF a(4), of m] by (simp only: take_map)
  ultimately show ?thesis
    using a(1,3,5) by (simp add: symbol_columns_def d take_map take_zip)
qed

lemma columns_same:
  assumes "bt_columns E = Inr (S, sim)" and "bt_columns E' = Inr (S', sim')" and h: "same_history T E E'"
  shows "same_symbols (\<lambda>symb. closed_by (m1_of E symb) T) S S'"
proof -
  note f = same_fields [OF h]
  let ?f = "symbol_columns (be_instruments E) (be_costs E) (be_rates E) (be_account_ccy E)"
  let ?xs = "\<lambda>F. map (\<lambda>symb. (symb, map m1_bar.truncate (m1_of F symb))) (mf_symbols (be_manifest E))"
  have S: "smap ?f (?xs E) = Inr S" using assms(1) by (auto simp: bt_columns_def sim_build_def)
  have S': "smap ?f (?xs E') = Inr S'" using assms(2) f by (auto simp: bt_columns_def sim_build_def)
  have "dict_keys S = dict_keys S'"
    using columns_Inr [OF assms(1)] columns_Inr [OF assms(2)] f by (metis image_set)
  moreover have "same_upto (closed_by (m1_of E symb) T) d d'"
    if d: "dict_get S symb = Some d" and d': "dict_get S' symb = Some d'" for symb d d'
  proof -
    let ?m = "closed_by (m1_of E symb) T"
    have one: "?f (symb, map m1_bar.truncate (m1_of F symb)) = Inr (symb, e) \<and> symb \<in> set (mf_symbols (be_manifest E))"
      if Z: "smap ?f (?xs F) = Inr Z" and e: "dict_get Z symb = Some e" for F Z e
    proof -
      obtain x where "x \<in> set (?xs F)" and x: "?f x = Inr (symb, e)"
        using smap_mem [OF Z map_of_SomeD [OF e]] by blast
      moreover from this obtain j where j: "x = (j, map m1_bar.truncate (m1_of F j))" "j \<in> set (mf_symbols (be_manifest E))" by auto
      moreover have "j = symb" using symbol_columns_Inr [of _ _ _ _ j] x j by blast
      ultimately show ?thesis by blast
    qed
    have mem: "symb \<in> set (mf_symbols (be_manifest E))" using one [OF S d] by blast
    have "known (m1_of E symb) T = known (m1_of E' symb) T" using h mem by (simp add: same_history_def)
    then have "take ?m (m1_of E symb) = take ?m (m1_of E' symb)" by (rule take_known) simp
    then have t: "take ?m (map m1_bar.truncate (m1_of E symb)) = take ?m (map m1_bar.truncate (m1_of E' symb))"
      by (simp add: take_map)
    have "Inr (symb, d\<lparr>sy_bars := take ?m (sy_bars d)\<rparr>) = (Inr (symb, d'\<lparr>sy_bars := take ?m (sy_bars d')\<rparr>) :: exn + string \<times> symbol_data)"
      using symbol_columns_take [OF one [OF S d, THEN conjunct1], of ?m]
        symbol_columns_take [OF one [OF S' d', THEN conjunct1], of ?m] by (simp add: t)
    then show ?thesis
      by (cases d; cases d') (simp add: same_upto_def)
  qed
  ultimately show ?thesis by (simp add: same_symbols_def)
qed

section \<open>The same rollovers and instants\<close>

text \<open>On the date of a rollover, and after it, the local date is at least that date.\<close>

definition zone_ok :: "zone \<Rightarrow> bool" where
  "zone_ok z \<longleftrightarrow> (\<forall>d t. z_roll z d \<le> t \<longrightarrow> d \<le> z_date z t)"

lemma filter_upto_same:
  fixes lo :: int
  assumes "\<And>d. Q d \<Longrightarrow> d \<le> h \<and> d \<le> h'"
  shows "filter Q [lo..h] = filter Q [lo..h']"
proof (rule sorted_distinct_set_unique)
  show "set (filter Q [lo..h]) = set (filter Q [lo..h'])" using assms by auto
qed (simp_all add: sorted_filter [of id, simplified])

lemma rollovers_same:
  assumes z: "zone_ok z" and "T \<le> stop" and "T \<le> stop'"
  shows "filter (\<lambda>p. fst p \<le> T) (rollover_times z a (from_ns stop)) = filter (\<lambda>p. fst p \<le> T) (rollover_times z a (from_ns stop'))"
proof -
  let ?Q = "\<lambda>d. weekday d < 5 \<and> a \<le> z_roll z d \<and> z_roll z d \<le> from_ns T"
  have to: "to_ns x \<le> T \<longleftrightarrow> x \<le> from_ns T" for x
  proof -
    have "1000 * (T div 1000) + T mod 1000 = T" "0 \<le> T mod 1000" "T mod 1000 < 1000" by simp_all
    then show ?thesis unfolding to_ns_def from_ns_def by linarith
  qed
  have cut: "filter (\<lambda>p. fst p \<le> T) (rollover_times z a (from_ns b)) =
      map (\<lambda>d. (to_ns (z_roll z d), weekday d)) (filter ?Q [z_date z a - 1 .. z_date z (from_ns b) + 1])"
    if b: "T \<le> b" for b
  proof -
    have le: "from_ns T \<le> from_ns b" using b by (simp add: from_ns_def zdiv_mono1)
    have "filter (\<lambda>p. fst p \<le> T) (rollover_times z a (from_ns b)) =
        map (\<lambda>d. (to_ns (z_roll z d), weekday d))
          (filter (\<lambda>d. to_ns (z_roll z d) \<le> T)
            (filter (\<lambda>d. weekday d < 5 \<and> a \<le> z_roll z d \<and> z_roll z d \<le> from_ns b)
              [z_date z a - 1 .. z_date z (from_ns b) + 1]))"
      unfolding rollover_times_def filter_map comp_def fst_conv ..
    also have "\<dots> = map (\<lambda>d. (to_ns (z_roll z d), weekday d)) (filter ?Q [z_date z a - 1 .. z_date z (from_ns b) + 1])"
      unfolding filter_filter to by (rule arg_cong, rule filter_cong [OF refl]) (use le in linarith)
    finally show ?thesis .
  qed
  have "filter ?Q [z_date z a - 1 .. z_date z (from_ns stop) + 1] = filter ?Q [z_date z a - 1 .. z_date z (from_ns stop') + 1]"
  proof (rule filter_upto_same)
    fix d
    assume "?Q d"
    moreover have "from_ns T \<le> from_ns stop" "from_ns T \<le> from_ns stop'"
      using assms(2,3) by (simp_all add: from_ns_def zdiv_mono1)
    ultimately have "z_roll z d \<le> from_ns stop" "z_roll z d \<le> from_ns stop'" by auto
    with z show "d \<le> z_date z (from_ns stop) + 1 \<and> d \<le> z_date z (from_ns stop') + 1"
      unfolding zone_ok_def by (meson add_increasing2 zero_le_one)
  qed
  then show ?thesis by (simp add: cut assms(2,3))
qed

lemma roll_map_get: "dict_get (roll_map rolls) t = map_of (rev rolls) t"
proof -
  have "dict_get (foldl (\<lambda>d (t, wd). dict_set t wd d) acc rolls) t =
      (case map_of (rev rolls) t of Some v \<Rightarrow> Some v | None \<Rightarrow> dict_get acc t)" for acc
    by (induction rolls arbitrary: acc) (auto simp: map_add_def split: option.splits)
  then show ?thesis by (simp add: roll_map_def split: option.splits)
qed

lemma map_of_filter: "map_of (filter (\<lambda>p. fst p \<le> T) xs) t = (if t \<le> T then map_of xs t else None)" for t T :: ns
  by (induction xs) auto

lemma roll_map_same:
  assumes "filter (\<lambda>p. fst p \<le> T) rolls = filter (\<lambda>p. fst p \<le> T) rolls'" and "t \<le> T"
  shows "dict_get (roll_map rolls) t = dict_get (roll_map rolls') t"
proof -
  have "map_of (filter (\<lambda>p. fst p \<le> T) (rev rolls)) t = map_of (filter (\<lambda>p. fst p \<le> T) (rev rolls')) t"
    using assms(1) by (metis rev_filter)
  with assms(2) show ?thesis by (simp add: roll_map_get map_of_filter)
qed

lemma known_closes:
  assumes "in_sequence rows"
  shows "{t \<in> set (map mb_close_time rows). t \<le> T} = set (map mb_close_time (known rows T))"
proof (intro equalityI subsetI)
  fix t
  assume "t \<in> {t \<in> set (map mb_close_time rows). t \<le> T}"
  then obtain j where j: "j < length rows" "t = mb_close_time (rows ! j)" "t \<le> T" by (auto simp: in_set_conv_nth)
  with beyond_known [OF assms, of T j] have "j < closed_by rows T" by (meson not_le not_less)
  then have "rows ! j \<in> set (known rows T)"
    unfolding known_take using j(1) by (auto simp: in_set_conv_nth intro!: exI [of _ j])
  with j(2) show "t \<in> set (map mb_close_time (known rows T))" by simp
next
  fix t
  assume "t \<in> set (map mb_close_time (known rows T))"
  then show "t \<in> {t \<in> set (map mb_close_time rows). t \<le> T}"
    unfolding known_def by (auto dest: set_takeWhileD)
qed

lemma instants_same:
  assumes h: "same_history T E E'" and o: "ordered_env E" "ordered_env E'"
    and rolls: "filter (\<lambda>p. fst p \<le> T) rolls = filter (\<lambda>p. fst p \<le> T) rolls'"
  shows "filter (\<lambda>t. t \<le> T) (instants E rolls) = filter (\<lambda>t. t \<le> T) (instants E' rolls')"
proof (rule sorted_distinct_set_unique)
  have closes: "{t \<in> set (map mb_close_time (rows_of E k)). t \<le> T} = {t \<in> set (map mb_close_time (rows_of E' k)). t \<le> T}"
    if "k \<in> set (subs E)" for k
  proof -
    have "in_sequence (rows_of E k)" "in_sequence (rows_of E' k)"
      using that o same_fields(15) [OF h] by (simp_all add: ordered_env_def)
    moreover have "known (rows_of E k) T = known (rows_of E' k) T" using that h by (simp add: same_history_def)
    ultimately show ?thesis by (metis known_closes)
  qed
  have "{t \<in> fst ` set rs. t \<le> T} = fst ` set (filter (\<lambda>p. fst p \<le> T) rs)" for rs :: "(ns \<times> nat) list" by auto
  then have r: "{t \<in> fst ` set rolls. t \<le> T} = {t \<in> fst ` set rolls'. t \<le> T}" using rolls by metis
  have set: "set (filter (\<lambda>t. t \<le> T) (instants F rs)) =
      {t \<in> fst ` set rs. t \<le> T} \<union> (\<Union>k \<in> set (subs F). {t \<in> set (map mb_close_time (rows_of F k)). t \<le> T})" for F :: "'a bt_env" and rs
    by (auto simp: instants_def)
  show "set (filter (\<lambda>t. t \<le> T) (instants E rolls)) = set (filter (\<lambda>t. t \<le> T) (instants E' rolls'))"
    unfolding set r same_fields(15) [OF h] using closes by blast
qed (simp_all add: instants_def sorted_filter [of id, simplified])

lemma instants_split: "instants E rolls = filter (\<lambda>t. t \<le> T) (instants E rolls) @ filter (\<lambda>t. T < t) (instants E rolls)"
proof -
  have "sorted xs \<Longrightarrow> xs = filter (\<lambda>t. t \<le> T) xs @ filter (\<lambda>t. T < t) xs" for xs :: "ns list"
  proof (induction xs)
    case (Cons x xs)
    show ?case
    proof (cases "x \<le> T")
      case False
      with Cons.prems have "\<forall>y \<in> set (x # xs). T < y" by auto
      then have "filter (\<lambda>t. t \<le> T) (x # xs) = []" "filter (\<lambda>t. T < t) (x # xs) = x # xs"
        by (auto simp: filter_empty_conv filter_id_conv)
      then show ?thesis by simp
    qed (use Cons in auto)
  qed simp
  then show ?thesis by (simp add: instants_def)
qed

section \<open>The same start\<close>

lemma first_open_same:
  assumes "known rows T = known rows' T" and "0 < closed_by rows T"
  shows "first_open rows = first_open rows'"
proof -
  from known_nth [OF assms] have "rows ! 0 = rows' ! 0" "rows \<noteq> []" "rows' \<noteq> []" by auto
  then show ?thesis by (cases rows; cases rows') (simp_all add: first_open_def)
qed

lemma smap_cong: "(\<And>x. x \<in> set xs \<Longrightarrow> f x = g x) \<Longrightarrow> smap f xs = smap g xs"
  by (induction xs) auto

definition started :: "ns \<Rightarrow> 's bt_env \<Rightarrow> bool" where
  "started T E \<longleftrightarrow> (\<forall>symb \<in> set (mf_symbols (be_manifest E)). 0 < closed_by (m1_of E symb) T)"

lemma prepare_same:
  assumes p: "prepare E = Inr u" and p': "prepare E' = Inr u'" and h: "same_history T E E'" and st: "started T E"
    and z: "zone_ok (be_zone E)" and stop: "T \<le> su_end u" "T \<le> su_end u'"
  shows "su_state u' = su_state u"
    and "filter (\<lambda>p. fst p \<le> T) (su_rolls u) = filter (\<lambda>p. fst p \<le> T) (su_rolls u')"
    and "same_symbols (\<lambda>symb. closed_by (m1_of E symb) T) (su_symbols u) (su_symbols u')"
proof -
  note f = same_fields [OF h]
  from p obtain S sim opens start end1 where c: "bt_columns E = Inr (S, sim)"
    and s: "smap (\<lambda>symb. first_open (m1_of E symb)) (mf_symbols (be_manifest E)) = Inr opens" "smallest opens = Inr start"
    and u: "u = \<lparr>su_symbols = S, su_rolls = rollover_times (be_zone E) (from_ns start) (from_ns end1), su_end = end1,
      su_state = bt_start E sim start\<rparr>"
    by (auto simp: prepare_def Let_def split: if_splits)
  from p' obtain S' sim' opens' start' end2 where c': "bt_columns E' = Inr (S', sim')"
    and s': "smap (\<lambda>symb. first_open (m1_of E' symb)) (mf_symbols (be_manifest E)) = Inr opens'" "smallest opens' = Inr start'"
    and u': "u' = \<lparr>su_symbols = S', su_rolls = rollover_times (be_zone E) (from_ns start') (from_ns end2), su_end = end2,
      su_state = bt_start E' sim' start'\<rparr>"
    by (auto simp: prepare_def Let_def f split: if_splits)
  have "smap (\<lambda>symb. first_open (m1_of E symb)) (mf_symbols (be_manifest E)) =
      smap (\<lambda>symb. first_open (m1_of E' symb)) (mf_symbols (be_manifest E))"
    by (rule smap_cong, rule first_open_same) (use h st in \<open>auto simp: same_history_def started_def\<close>)
  with s s' have start: "start' = start" by simp
  have "sim = sim'" using columns_Inr [OF c] columns_Inr [OF c'] f by simp
  then show "su_state u' = su_state u" using u u' start f by (simp add: bt_start_def)
  show "filter (\<lambda>p. fst p \<le> T) (su_rolls u) = filter (\<lambda>p. fst p \<le> T) (su_rolls u')"
    using rollovers_same [OF z, of T end1 end2 "from_ns start"] stop u u' start by simp
  show "same_symbols (\<lambda>symb. closed_by (m1_of E symb) T) (su_symbols u) (su_symbols u')"
    using columns_same [OF c c' h] u u' by simp
qed

end
