(* ===== verification/Backtest_Grow.thy ===== *)
theory Backtest_Grow
  imports Backtest_Future
begin

text \<open>What a backtest has recorded stays recorded: trades, rejections, signals and the curve only grow.\<close>

section \<open>The simulated broker\<close>

definition sim_grows :: "sim \<Rightarrow> sim \<Rightarrow> bool" where
  "sim_grows s t \<longleftrightarrow> prefix (sim_trades s) (sim_trades t) \<and> prefix (sim_rejections s) (sim_rejections t)"

interpretation sgrow: step_rel sim_grows
  by unfold_locales (auto simp: sim_grows_def)

lemmas sgrow_steps = sgrow.keeps_rules sgrow.keeps_modif lift_keeps

lemma take_out_grows: "keeps sim_grows (take_out p)"
  unfolding take_out_def by (intro sgrow_steps) (simp_all add: sim_grows_def)

lemma close_pos_grows: "keeps sim_grows (close_pos d p px i reason slip)"
  unfolding close_pos_def by (intro sgrow_steps take_out_grows) (simp_all add: sim_grows_def fill_out_def)

lemma next_seq_grows: "keeps sim_grows next_seq"
  unfolding next_seq_def by (intro sgrow_steps) (simp_all add: sim_grows_def)

lemma open_pos_grows: "keeps sim_grows (open_pos d g lots px i slip spread)"
  unfolding open_pos_def Let_def
  by (intro sgrow_steps next_seq_grows) (simp_all add: sim_grows_def fill_out_def reject_def)

lemma check_exit_grows: "keeps sim_grows (check_exit d a i p)"
  unfolding check_exit_def by (intro sgrow_steps close_pos_grows) (simp_all add: sim_grows_def)

lemma drop_pending_grows: "keeps sim_grows (drop_pending symb q)"
  unfolding drop_pending_def by (intro sgrow_steps) (simp add: sim_grows_def)

lemma fill_market_grows: "keeps sim_grows (fill_market d symb i b mo)"
  unfolding fill_market_def by (cases mo) (auto intro!: sgrow_steps open_pos_grows close_pos_grows)

lemma process_bar_grows: "keeps sim_grows (process_bar d symb i)"
  unfolding process_bar_def take_market_def fill_pending_def
  by (intro sgrow_steps fill_market_grows drop_pending_grows check_exit_grows open_pos_grows) (simp_all add: sim_grows_def)

lemma advance_loop_grows: "sim_grows s (snd (advance_loop d symb cur hi s))"
proof (induction d symb cur hi s rule: advance_loop.induct)
  case (1 d symb cur hi s)
  show ?case
  proof (cases "cur < hi \<and> has_activity symb s")
    case True
    show ?thesis
    proof (cases "earliest_event d symb cur hi s")
      case (Some i)
      obtain r t where b: "process_bar d symb i s = (r, t)" by fastforce
      have "sim_grows s t" using keepsD [OF process_bar_grows b] .
      with 1 [OF True Some b [symmetric]] True Some b show ?thesis
        by (cases r) (auto simp: advance_loop.simps [of d symb cur hi s] intro: sgrow.step_trans)
    qed (use True in \<open>simp add: advance_loop.simps [of d symb cur hi s] sgrow.step_refl\<close>)
  qed (subst advance_loop.simps, auto simp: sgrow.step_refl)
qed

lemma sim_advance_grows: "keeps sim_grows (sim_advance S symb lo hi)"
proof -
  have "keeps sim_grows (advance_loop d symb lo hi)" for d by (simp add: keeps_def advance_loop_grows)
  then show ?thesis unfolding sim_advance_def by (intro sgrow_steps) (simp_all add: sim_grows_def)
qed

lemma intake_grows:
  "keeps sim_grows (submit_entry g lots now m)"
  "keeps sim_grows (sim_cancel sid gid now)"
  "keeps sim_grows (request_close sid pid now why)"
  "keeps sim_grows (modify_stop S sid pid stop now)"
  "keeps sim_grows (charge_swaps S wd)"
  "keeps sim_grows (close_all S why)"
  unfolding submit_entry_def sim_cancel_def request_close_def modify_stop_def charge_swaps_def charge_symbol_def
    close_all_def close_symbol_def Let_def
  by (intro sgrow_steps next_seq_grows close_pos_grows; simp add: sim_grows_def reject_def)+

section \<open>The backtest\<close>

definition grows :: "'s bt_state \<Rightarrow> 's bt_state \<Rightarrow> bool" where
  "grows s t \<longleftrightarrow> sim_grows (bt_sim s) (bt_sim t) \<and> prefix (bt_signals s) (bt_signals t) \<and> prefix (bt_curve s) (bt_curve t)"

interpretation grow: step_rel grows
  by unfold_locales (auto simp: grows_def sgrow.step_refl intro: sgrow.step_trans)

lemma on_sim_grows: "keeps sim_grows m \<Longrightarrow> keeps grows (on_sim m)"
  unfolding keeps_def on_sim_def grows_def by (auto split: prod.splits) (metis snd_conv)

lemma sim_modif_grows: "(\<And>b. sim_grows b (f b)) \<Longrightarrow> keeps grows (on_sim (modif f))"
  by (rule on_sim_grows [OF sgrow.keeps_modif])

lemma frame_grows:
  "keeps grows (on_guard m)" "keeps grows (on_seen n)" "keeps grows (ask_strategy E f)"
  by (auto simp: keeps_def on_guard_def on_seen_def ask_strategy_def grows_def sgrow.step_refl split: prod.splits)

lemmas grow_steps = grow.keeps_rules grow.keeps_modif lift_keeps frame_grows on_sim_grows

lemma handle_all_grows: "keeps grows (handle_all S E now tf rs)"
proof -
  have "keeps grows (handle_request S E now tf r)" for r
    unfolding handle_request_def Let_def ignore_def handle_signal_def size_signal_def
    by (auto split: engine_request.split strategy_request.split
        intro!: grow_steps intake_grows sim_modif_grows simp: grows_def sgrow.step_refl sim_grows_def reject_def)
  then show ?thesis unfolding handle_all_def by (intro grow_steps)
qed

lemma sync_grows: "keeps grows (sync_symbol S E t symb)"
  unfolding sync_symbol_def Let_def
  by (intro grow_steps sim_advance_grows sgrow.keeps_modif) (simp_all add: grows_def sgrow.step_refl sim_grows_def)

lemma move_clocks_grows: "keeps grows (move_clocks t)"
  unfolding move_clocks_def by (intro grow_steps) (simp_all add: grows_def sgrow.step_refl)

lemma drain_grows: "keeps grows drain_fills"
  unfolding drain_fills_def by (intro grow_steps sgrow.keeps_modif) (simp add: sim_grows_def)

lemma record_grows: "keeps grows (record_equity S t)"
  unfolding record_equity_def by (intro grow_steps) (simp_all add: grows_def sgrow.step_refl)

lemma close_due_grows: "keeps grows (close_due E t k acc)"
  unfolding close_due_def by (intro grow_steps) (simp_all add: grows_def sgrow.step_refl)

lemma step_grows: "keeps grows (bt_step S E rolls t)"
  unfolding bt_step_def deliver_fill_def deliver_bar_def roll_over_def
  by (intro grow_steps sync_grows move_clocks_grows drain_grows record_grows close_due_grows handle_all_grows intake_grows)
    (simp_all add: grow.step_refl)

lemma finish_grows: "keeps grows (bt_finish E u)"
  unfolding bt_finish_def drain_symbol_def Let_def
  by (intro grow_steps sim_advance_grows sgrow.keeps_modif record_grows intake_grows)
    (simp_all add: grows_def sgrow.step_refl sim_grows_def)

section \<open>The same beginning\<close>

lemma prepare_start:
  assumes "prepare E = Inr u"
  shows "\<exists>start. su_state u = bt_start E (sim_fresh (be_initial_equity E)) start"
  using assms columns_Inr [of E] by (auto simp: prepare_def Let_def split: if_splits)

section \<open>A run is its beginning and the rest\<close>

text \<open>The computation up to an instant, and what the result keeps of it.\<close>

lemma run_split:
  assumes run: "run_backtest E = Inr r" and p: "prepare E = Inr u"
  shows "\<exists>s. bt_loop E u (filter (\<lambda>t. t \<le> T) (instants E (su_rolls u))) (su_state u) = (Inr (), s) \<and>
    prefix (bt_signals s) (rr_signals r) \<and> prefix (sim_trades (bt_sim s)) (rr_trades r) \<and>
    prefix (bt_curve s) (rr_curve r) \<and> prefix (sim_rejections (bt_sim s)) (rr_rejections r)"
proof -
  let ?now = "filter (\<lambda>t. t \<le> T) (instants E (su_rolls u))" and ?later = "filter (\<lambda>t. T < t) (instants E (su_rolls u))"
  obtain w where w: "seq (bt_loop E u (instants E (su_rolls u))) (bt_finish E u) (su_state u) = (Inr (), w)"
    and r: "r = \<lparr>rr_signals = bt_signals w, rr_trades = sim_trades (bt_sim w), rr_curve = bt_curve w,
      rr_rejections = sim_rejections (bt_sim w)\<rparr>"
    using run p by (auto simp: run_backtest_def split: prod.splits sum.splits)
  have "bt_loop E u (instants E (su_rolls u)) = bt_loop E u (?now @ ?later)" using instants_split [of E "su_rolls u" T] by simp
  then obtain s v where s: "bt_loop E u ?now (su_state u) = (Inr (), s)" and v: "bt_loop E u ?later s = (Inr (), v)"
    and f: "bt_finish E u v = (Inr (), w)"
    using w by (auto simp: bt_loop_def for_each_append seq_Inr split: prod.splits sum.splits)
  have "grows s v" using keepsD [OF grow.keeps_for_each [OF step_grows]] v by (fastforce simp: bt_loop_def)
  moreover have "grows v w" using keepsD [OF finish_grows f] .
  ultimately have "grows s w" by (rule grow.step_trans)
  with s r show ?thesis by (auto simp: grows_def sim_grows_def)
qed

lemma loops_same:
  assumes p: "prepare E = Inr u" "prepare E' = Inr u'" and h: "same_history T E E'" and o: "ordered_env E" "ordered_env E'"
    and st: "started T E" and z: "zone_ok (be_zone E)"
    and ok: "all_data_ok (su_symbols u)" "all_data_ok (su_symbols u')" and stop: "T \<le> su_end u" "T \<le> su_end u'"
  shows "bt_loop E u (filter (\<lambda>t. t \<le> T) (instants E (su_rolls u))) (su_state u) =
    bt_loop E' u' (filter (\<lambda>t. t \<le> T) (instants E' (su_rolls u'))) (su_state u')"
proof -
  note same = prepare_same [OF p h st z stop]
  let ?ts = "filter (\<lambda>t. t \<le> T) (instants E (su_rolls u))"
  have tw: "twins T E E' (su_symbols u) (su_symbols u')"
    using h o ok same(3) prepare_Inr(1) [OF p(1)] prepare_Inr(1) [OF p(2)] by (simp add: twins_def)
  have "aligned (su_symbols u) (be_initial_equity E) (su_state u)" by (rule prepare_Inr(2) [OF p(1)])
  moreover have "sim_last_idx (bt_sim (su_state u)) = [] \<and> bt_visible (su_state u) = [] \<and> bt_next_close (su_state u) = []"
    using prepare_start [OF p(1)] by (auto simp: bt_start_def sim_fresh_def)
  ultimately have "within_known T E (su_symbols u) (be_initial_equity E) (su_state u)"
    by (simp add: within_known_def lasts_below_def at_zero_def)
  from agreeD [OF loop_agree [OF tw, of ?ts "roll_map (su_rolls u)" "roll_map (su_rolls u')"] this]
  have "bt_loop E u ?ts (su_state u) = bt_loop E' u' ?ts (su_state u)"
    using roll_map_same [OF same(2)] by (simp add: bt_loop_def)
  then show ?thesis by (simp only: instants_same [OF h o same(2)] same(1))
qed

end
