(* ===== verification/Backtest_Properties.thy ===== *)
theory Backtest_Properties
  imports Backtest_Grow
begin

text \<open>What a backtest promises about its result.\<close>

section \<open>A small backtest\<close>

definition bt_row :: "ns \<Rightarrow> flt \<Rightarrow> flt \<Rightarrow> flt \<Rightarrow> flt \<Rightarrow> full_bar" where
  "bt_row t p h l c = \<lparr>mb_open_time = t, mb_close_time = t + 60000, mb_bid_o = p, mb_bid_h = h, mb_bid_l = l,
     mb_bid_c = c, fb_ask_o = p, fb_ask_h = h, fb_ask_l = l, fb_ask_c = c, fb_volume = 1\<rparr>"

definition bt_rows :: "flt \<Rightarrow> full_bar list" where
  "bt_rows c = [bt_row 0 100 102 99 101, bt_row 60000 101 104 100 103, bt_row 120000 103 106 102 105,
     bt_row 180000 c (c + 1) (c - 1) c]"

definition bt_spreads :: spread_model where
  "bt_spreads = \<lparr>sm_median_by_hour = [(''X'', replicate 168 1)], sm_news_ns = [], sm_rollover_ns = [],
     sm_widen_mult = 3, sm_window_ns = 120\<rparr>"

definition bt_costs :: inst_costs where
  "bt_costs = \<lparr>ic_symbol = ''X'', ic_quote = ''USD'', ic_contract_size = 10, ic_tick_size = 1/10,
     ic_min_lot = 1, ic_lot_step = 1, ic_max_lot = 100, ic_commission_per_lot_side = 2, ic_swap_long = -3,
     ic_swap_short = 1, ic_swap_mode = SwapMoney, ic_triple_swap_weekday = 2\<rparr>"

definition day_zone :: zone where
  "day_zone = \<lparr>z_date = (\<lambda>t. t div 86400000000), z_roll = (\<lambda>d. d * 86400000000 + 79200000000)\<rparr>"

text \<open>A strategy that buys once, when it sees its first bar.\<close>

definition buy_once :: "nat \<Rightarrow> view \<Rightarrow> series_key \<Rightarrow> full_bar \<Rightarrow> nat reply" where
  "buy_once n v k b =
     (Inr (if n = 0 then [NewSignal \<lparr>sg_id = ''s1'', sg_strategy_id = ''swing'', sg_strategy_version = ''1'',
        sg_symbol = ''X'', sg_side = Buy, sg_entry_type = MarketEntry, sg_entry_price = None,
        sg_stop_price = mb_bid_l b - 1, sg_target_price = None, sg_expiry_bars = None,
        sg_created_at = from_ns (vw_now v), sg_reason = ''first bar'', sg_tags = []\<rparr>] else []), n + 1)"

definition bt_sample :: "flt \<Rightarrow> nat bt_env" where
  "bt_sample c = \<lparr>be_manifest = \<lparr>mf_id = ''swing'', mf_version = ''1'', mf_symbols = [''X''], mf_timeframes = [M1],
       mf_demo_only = False\<rparr>,
     be_m1 = [(''X'', bt_rows c)], be_series = [], be_instruments = [(''X'', bt_costs)],
     be_costs = \<lparr>cm_spreads = bt_spreads, cm_slippage_mult = 1/2, cm_slippage_mult_by_symbol = []\<rparr>, be_rates = [],
     be_initial_equity = 1000, be_account_ccy = ''USD'',
     be_guard = \<lparr>gd_risk_fraction = 1/2, gd_min_stop_spreads = 3/2, gd_open_risk_total_max = 1, gd_reasons_seen = []\<rparr>,
     be_zone = day_zone, be_promotion = False, be_warmup = [((''X'', M1), 1)], be_strategy = 0,
     be_on_bar = buy_once, be_on_fill = (\<lambda>n v f. (Inr [], n))\<rparr>"

definition bt_prepared :: "flt \<Rightarrow> nat bt_setup" where
  "bt_prepared c = (case prepare (bt_sample c) of Inr u \<Rightarrow> u
     | Inl e \<Rightarrow> \<lparr>su_symbols = [], su_rolls = [], su_end = 0, su_state = bt_start (bt_sample c) (sim_fresh 0) 0\<rparr>)"

definition bt_outcome :: "flt \<Rightarrow> bt_result" where
  "bt_outcome c = (case run_backtest (bt_sample c) of Inr r \<Rightarrow> r
     | Inl e \<Rightarrow> \<lparr>rr_signals = [], rr_trades = [], rr_curve = [], rr_rejections = []\<rparr>)"

definition is_done :: "exn + 'a \<Rightarrow> bool" where
  "is_done x = (case x of Inr y \<Rightarrow> True | Inl e \<Rightarrow> False)"

definition bt_stopped :: "flt \<Rightarrow> ns \<Rightarrow> nat bt_state" where
  "bt_stopped c T = snd (bt_loop (bt_sample c) (bt_prepared c)
     (filter (\<lambda>t. t \<le> T) (instants (bt_sample c) (su_rolls (bt_prepared c)))) (su_state (bt_prepared c)))"

lemma is_done_Inr: "is_done x \<Longrightarrow> \<exists>y. x = Inr y"
  by (cases x) (auto simp: is_done_def)

lemma bt_sample_done:
  "is_done (prepare (bt_sample 111))" "is_done (prepare (bt_sample 101))"
  "is_done (run_backtest (bt_sample 111))" "is_done (run_backtest (bt_sample 101))"
  by code_simp+

lemma bt_sample_prepared: "prepare (bt_sample 111) = Inr (bt_prepared 111)" "prepare (bt_sample 101) = Inr (bt_prepared 101)"
  using bt_sample_done(1,2) [THEN is_done_Inr] by (auto simp: bt_prepared_def)

lemma bt_sample_outcome: "run_backtest (bt_sample 111) = Inr (bt_outcome 111)" "run_backtest (bt_sample 101) = Inr (bt_outcome 101)"
  using bt_sample_done(3,4) [THEN is_done_Inr] by (auto simp: bt_outcome_def)

definition sound_columns :: "symbols \<Rightarrow> bool" where
  "sound_columns S \<longleftrightarrow> list_all (\<lambda>(symb, d). data_ok d) S"

lemma sound_columns: "sound_columns S \<Longrightarrow> all_data_ok S"
  unfolding sound_columns_def all_data_ok_def by (auto simp: list_all_iff dest!: map_of_SomeD)

lemma bt_sample_columns: "all_data_ok (su_symbols (bt_prepared 111))" "all_data_ok (su_symbols (bt_prepared 101))"
  by (rule sound_columns, code_simp)+

section \<open>No look-ahead\<close>

text \<open>C9. A backtest does not look ahead: two backtests whose bars agree on everything closed by an instant T are,
  until T, in the same state (account, signals, curve, everything the strategy has seen), and the signals,
  trades, rejections and equity points of that state open the results of both.\<close>

theorem no_lookahead:
  assumes "prepare E = Inr u" and "prepare E' = Inr u'"
    and "run_backtest E = Inr r" and "run_backtest E' = Inr r'"
    and "same_history T E E'" and "ordered_env E" and "ordered_env E'" and "started T E" and "zone_ok (be_zone E)"
    and "all_data_ok (su_symbols u)" and "all_data_ok (su_symbols u')" and "T \<le> su_end u" and "T \<le> su_end u'"
  shows "\<exists>s. bt_loop E u (filter (\<lambda>t. t \<le> T) (instants E (su_rolls u))) (su_state u) = (Inr (), s) \<and>
    bt_loop E' u' (filter (\<lambda>t. t \<le> T) (instants E' (su_rolls u'))) (su_state u') = (Inr (), s) \<and>
    prefix (bt_signals s) (rr_signals r) \<and> prefix (bt_signals s) (rr_signals r') \<and>
    prefix (sim_trades (bt_sim s)) (rr_trades r) \<and> prefix (sim_trades (bt_sim s)) (rr_trades r') \<and>
    prefix (sim_rejections (bt_sim s)) (rr_rejections r) \<and> prefix (sim_rejections (bt_sim s)) (rr_rejections r') \<and>
    prefix (bt_curve s) (rr_curve r) \<and> prefix (bt_curve s) (rr_curve r')"
proof -
  have "bt_loop E u (filter (\<lambda>t. t \<le> T) (instants E (su_rolls u))) (su_state u) =
      bt_loop E' u' (filter (\<lambda>t. t \<le> T) (instants E' (su_rolls u'))) (su_state u')"
    by (rule loops_same [OF assms(1,2,5-13)])
  with run_split [OF assms(3,1), of T] run_split [OF assms(4,2), of T] show ?thesis by auto
qed

theorem no_lookahead_witness:
  "\<exists>s. bt_loop (bt_sample 111) (bt_prepared 111)
      (filter (\<lambda>t. t \<le> 180000) (instants (bt_sample 111) (su_rolls (bt_prepared 111)))) (su_state (bt_prepared 111)) = (Inr (), s) \<and>
    bt_loop (bt_sample 101) (bt_prepared 101)
      (filter (\<lambda>t. t \<le> 180000) (instants (bt_sample 101) (su_rolls (bt_prepared 101)))) (su_state (bt_prepared 101)) = (Inr (), s) \<and>
    map sg_id (bt_signals s) = [''s1''] \<and>
    prefix (bt_signals s) (rr_signals (bt_outcome 111)) \<and> prefix (bt_signals s) (rr_signals (bt_outcome 101)) \<and>
    map si_pnl_net (rr_trades (bt_outcome 111)) = [972] \<and> map si_pnl_net (rr_trades (bt_outcome 101)) = [- 228]"
proof -
  have "bt_sample 101 = (bt_sample 111)\<lparr>be_m1 := be_m1 (bt_sample 101), be_series := be_series (bt_sample 101)\<rparr>"
    by (simp add: bt_sample_def)
  moreover have "\<forall>symb \<in> set (mf_symbols (be_manifest (bt_sample 111))).
      known (m1_of (bt_sample 111) symb) 180000 = known (m1_of (bt_sample 101) symb) 180000" by code_simp
  moreover have "\<forall>k \<in> set (subs (bt_sample 111)).
      known (rows_of (bt_sample 111) k) 180000 = known (rows_of (bt_sample 101) k) 180000" by code_simp
  ultimately have history: "same_history 180000 (bt_sample 111) (bt_sample 101)" by (simp only: same_history_def simp_thms)
  have ordered: "ordered_env (bt_sample 111)" "ordered_env (bt_sample 101)" by code_simp+
  have started: "started 180000 (bt_sample 111)" by code_simp
  have zone: "zone_ok (be_zone (bt_sample 111))"
    by (auto simp: zone_ok_def bt_sample_def day_zone_def)
  have stop: "180000 \<le> su_end (bt_prepared 111)" "180000 \<le> su_end (bt_prepared 101)" by code_simp+
  have shown: "map sg_id (bt_signals (bt_stopped 111 180000)) = [''s1'']"
    and profit: "map si_pnl_net (rr_trades (bt_outcome 111)) = [972]"
    and loss: "map si_pnl_net (rr_trades (bt_outcome 101)) = [- 228]" by code_simp+
  from no_lookahead [OF bt_sample_prepared bt_sample_outcome history ordered started zone bt_sample_columns stop]
  obtain s where s: "bt_loop (bt_sample 111) (bt_prepared 111)
      (filter (\<lambda>t. t \<le> 180000) (instants (bt_sample 111) (su_rolls (bt_prepared 111)))) (su_state (bt_prepared 111)) = (Inr (), s)"
    and rest: "bt_loop (bt_sample 101) (bt_prepared 101)
      (filter (\<lambda>t. t \<le> 180000) (instants (bt_sample 101) (su_rolls (bt_prepared 101)))) (su_state (bt_prepared 101)) = (Inr (), s)"
    "prefix (bt_signals s) (rr_signals (bt_outcome 111))" "prefix (bt_signals s) (rr_signals (bt_outcome 101))"
    by blast
  from s shown have signals: "map sg_id (bt_signals s) = [''s1'']" unfolding bt_stopped_def by (simp only: snd_conv)
  show ?thesis by (intro exI [of _ s] conjI) (rule s rest signals profit loss)+
qed

section \<open>The account\<close>

text \<open>C34. The equity curve of a backtest ends at the end of its data with the initial equity plus the net results
  of its trades: no money appears or disappears anywhere in the loop.\<close>

theorem backtest_balances:
  assumes "run_backtest E = Inr r" and "prepare E = Inr u" and "all_data_ok (su_symbols u)"
  shows "\<exists>points. rr_curve r = points @ [(su_end u, be_initial_equity E + (\<Sum>t \<leftarrow> rr_trades r. si_pnl_net t))]"
proof -
  obtain v w where v: "bt_loop E u (instants E (su_rolls u)) (su_state u) = (Inr (), v)" and w: "bt_finish E u v = (Inr (), w)"
    and r: "rr_curve r = bt_curve w" "rr_trades r = sim_trades (bt_sim w)"
    using assms(1,2) by (auto simp: run_backtest_def seq_Inr split: prod.splits sum.splits)
  note cols = prepare_Inr [OF assms(2)]
  have "aligned (su_symbols u) (be_initial_equity E) v"
    using keepsD [OF loop_aligned [OF assms(3) cols(1)] v [unfolded bt_loop_def]] cols(2) by (simp add: preserving_def)
  from finish_run [OF assms(3) cols(1) this] w r show ?thesis by auto
qed

theorem backtest_balances_witness:
  "(\<exists>points. rr_curve (bt_outcome 111) =
     points @ [(su_end (bt_prepared 111), be_initial_equity (bt_sample 111) + (\<Sum>t \<leftarrow> rr_trades (bt_outcome 111). si_pnl_net t))]) \<and>
   rr_curve (bt_outcome 111) = [(240000, 1972)]"
proof
  show "rr_curve (bt_outcome 111) = [(240000, 1972)]" by code_simp
qed (rule backtest_balances [OF bt_sample_outcome(1) bt_sample_prepared(1) bt_sample_columns(1)])

end
