(* ===== verification/Sim_Properties.thy ===== *)
theory Sim_Properties
  imports Sim_Account
begin

text \<open>What a backtest may rely on from its simulated broker.\<close>

section \<open>A small market\<close>

definition sample_costs :: inst_costs where
  "sample_costs = \<lparr>ic_symbol = ''X'', ic_quote = ''USD'', ic_contract_size = 10, ic_tick_size = 1/10,
     ic_min_lot = 1, ic_lot_step = 1, ic_max_lot = 100, ic_commission_per_lot_side = 2, ic_swap_long = -3,
     ic_swap_short = 1, ic_swap_mode = SwapMoney, ic_triple_swap_weekday = 2\<rparr>"

definition sample_bar :: "ns \<Rightarrow> flt \<Rightarrow> flt \<Rightarrow> flt \<Rightarrow> flt \<Rightarrow> flt \<Rightarrow> sim_bar" where
  "sample_bar t p h l c spr = price_bar \<lparr>mb_open_time = t, mb_close_time = t + 60, mb_bid_o = p, mb_bid_h = h,
     mb_bid_l = l, mb_bid_c = c\<rparr> spr (1/2)"

definition sample_market :: symbol_data where
  "sample_market = \<lparr>sy_costs = sample_costs, sy_bars = [sample_bar 0 100 102 99 101 1, sample_bar 60 101 104 100 103 1,
     sample_bar 120 103 106 102 105 1, sample_bar 180 105 112 104 111 1], sy_to_account = 1\<rparr>"

definition sample_symbols :: symbols where
  "sample_symbols = [(''X'', sample_market)]"

definition sample_order :: signal where
  "sample_order = \<lparr>sg_id = ''s1'', sg_strategy_id = ''swing'', sg_strategy_version = ''1'',
     sg_symbol = ''X'', sg_side = Buy, sg_entry_type = MarketEntry, sg_entry_price = None,
     sg_stop_price = 98, sg_target_price = Some 110, sg_expiry_bars = None, sg_created_at = 0,
     sg_reason = [], sg_tags = []\<rparr>"

definition sample_submitted :: sim where
  "sample_submitted = snd (submit_entry sample_order 2 0 1 (sim_fresh 1000))"

definition sample_advanced :: sim where
  "sample_advanced = snd (sim_advance sample_symbols ''X'' 0 4 sample_submitted)"

lemmas market_defs = sample_symbols_def sample_market_def sample_bar_def sample_costs_def price_bar_def

lemma sample_data_ok: "all_data_ok sample_symbols"
  by (simp add: all_data_ok_def data_ok_def in_order_def market_defs)

lemma sample_submitted_state:
  "sample_submitted = (sim_fresh 1000)\<lparr>sim_market := [(''X'', [EntryOrder 1 sample_order 2])], sim_seq := 1\<rparr>"
  by (simp add: sample_submitted_def submit_entry_def sample_order_def bnd_def next_seq_def seq_def modif_def gets_def
      sim_fresh_def put_last_def listed_def)

lemma sample_reach_1: "sim_reach sample_symbols 1000 sample_submitted"
proof -
  obtain r t where "submit_entry sample_order 2 0 1 (sim_fresh 1000) = (r, t)" by fastforce
  with sim_reach.SrEntry [OF sim_reach.SrFresh, of 2 sample_order 0 1 1000 r t sample_symbols] show ?thesis
    by (simp add: sample_submitted_def)
qed

lemma sample_reach_2: "sim_reach sample_symbols 1000 sample_advanced"
proof -
  obtain r t where a: "sim_advance sample_symbols ''X'' 0 4 sample_submitted = (r, t)" by fastforce
  have "next_bar sample_submitted ''X'' = 0" by (simp add: next_bar_def sample_submitted_state sim_fresh_def)
  with sim_reach.SrAdvance [OF sample_reach_1, of "''X''" sample_market 4 r t] a show ?thesis
    by (simp add: sample_advanced_def market_defs)
qed

lemma sample_trade: "map si_pnl_net (sim_trades sample_advanced) = [162] \<and> sim_balance sample_advanced = 1162"
  by code_simp

section \<open>Jumping over quiet bars\<close>

text \<open>C10. The jumps of the simulator skip nothing: advancing over bars whose opening times are in order does
  exactly what processing every bar in turn does, errors included.\<close>

theorem jumping_is_walking:
  assumes "dict_get S symb = Some d" and "in_order d" and "lo < hi" and "hi \<le> length (sy_bars d)"
    and "tidy symb s"
  shows "sim_advance S symb lo hi s =
    walk d symb lo hi (s\<lparr>sim_last_idx := dict_set symb (hi - 1) (sim_last_idx s)\<rparr>)"
proof -
  have "tidy symb (s\<lparr>sim_last_idx := dict_set symb (hi - 1) (sim_last_idx s)\<rparr>)"
    using assms(5) by (simp add: tidy_def)
  from walk_jump [OF assms(2,4) this, of lo] assms(1,3) show ?thesis
    by (simp add: sim_advance_def seq_modif symbol_of_def lift_def bnd_def ret_def)
qed

theorem jumping_is_walking_witness:
  "sim_advance sample_symbols ''X'' 0 4 sample_submitted =
     walk sample_market ''X'' 0 4 (sample_submitted\<lparr>sim_last_idx := dict_set ''X'' (4 - 1) (sim_last_idx sample_submitted)\<rparr>) \<and>
   map si_pnl_net (sim_trades sample_advanced) = [162]"
proof -
  have "tidy ''X'' sample_submitted" by (simp add: tidy_def sample_submitted_state)
  moreover have "in_order sample_market" by (simp add: in_order_def market_defs)
  ultimately show ?thesis
    using sample_trade by (intro conjI jumping_is_walking) (simp_all add: sample_symbols_def sample_market_def)
qed

section \<open>The account\<close>

text \<open>C35. Whatever orders, requests, bars and rollovers a run of the simulator consists of, the balance is the
  initial balance plus the net result of every closed trade plus what the open positions have paid so far
  (swap received less entry commission).\<close>

theorem account_balances:
  assumes "sim_reach S B s" and "all_data_ok S"
  shows "sim_balance s = B + (\<Sum>t \<leftarrow> sim_trades s. si_pnl_net t) + (\<Sum>p \<leftarrow> book s. op_swap p - op_commission p)"
proof -
  have "books s = B" using reach_inv [OF assms] by (simp add: sim_inv_def)
  then show ?thesis by (simp add: books_def paid_in_def [abs_def])
qed

theorem account_balances_witness:
  "sim_balance sample_advanced = 1000 + (\<Sum>t \<leftarrow> sim_trades sample_advanced. si_pnl_net t) +
     (\<Sum>p \<leftarrow> book sample_advanced. op_swap p - op_commission p)"
  by (rule account_balances [OF sample_reach_2 sample_data_ok])

text \<open>At the end of the data everything is closed: no position is left and the balance is the initial one
  plus the net results of the trades.\<close>

theorem end_of_data_settles:
  assumes "sim_reach S B s" and "all_data_ok S"
  shows "\<exists>t. close_all S reason s = (Inr (), t) \<and> book t = [] \<and>
    sim_balance t = B + (\<Sum>x \<leftarrow> sim_trades t. si_pnl_net x)"
proof -
  obtain t where t: "close_all S reason s = (Inr (), t)" "sim_inv S B t" "book t = []"
    using close_all_run [OF assms(2) reach_inv [OF assms]] by blast
  then have "books t = B" by (simp add: sim_inv_def)
  with t show ?thesis by (auto simp: books_def)
qed

theorem end_of_data_settles_witness:
  "\<exists>t. close_all sample_symbols ''end_of_data'' sample_advanced = (Inr (), t) \<and> book t = [] \<and>
    sim_balance t = 1000 + (\<Sum>x \<leftarrow> sim_trades t. si_pnl_net x)"
  by (rule end_of_data_settles [OF sample_reach_2 sample_data_ok])

section \<open>Prices\<close>



definition well_formed :: "symbols \<Rightarrow> sim \<Rightarrow> bool" where
  "well_formed S s \<longleftrightarrow>
     (\<forall>symb d p. dict_get S symb = Some d \<longrightarrow> p \<in> set (listed (sim_positions s) symb) \<longrightarrow>
        0 < op_lots p \<and> op_money_at_risk p = \<bar>op_entry_price p - op_initial_stop p\<bar> * units d (op_lots p) \<and>
        (if op_side p = Buy then op_initial_stop p \<le> op_stop p else op_stop p \<le> op_initial_stop p))"

text \<open>C37. The state of the simulator is well formed and its operations never get stuck: in every state of a
  run each position carries a positive size, its risk is the distance of its initial stop and its stop has
  not moved away from the price; and every operation the engine may call next returns a result.\<close>

theorem simulation_never_stuck:
  assumes "sim_reach S B s" and "all_data_ok S"
  shows "well_formed S s \<and>
    (\<forall>g lots now m. 0 < lots \<longrightarrow> \<not> isl (fst (submit_entry g lots now m s))) \<and>
    (\<forall>sid gid now. \<not> isl (fst (sim_cancel sid gid now s))) \<and>
    (\<forall>sid pid now why. \<not> isl (fst (request_close sid pid now why s))) \<and>
    (\<forall>sid pid stop now. \<not> isl (fst (modify_stop S sid pid stop now s))) \<and>
    (\<forall>symb d hi. dict_get S symb = Some d \<longrightarrow> hi \<le> length (sy_bars d) \<longrightarrow>
       \<not> isl (fst (sim_advance S symb (next_bar s symb) hi s))) \<and>
    (\<forall>wd. \<not> isl (fst (charge_swaps S wd s))) \<and> (\<forall>why. \<not> isl (fst (close_all S why s)))"
proof -
  note inv = reach_inv [OF assms]
  have returns: "\<not> isl (fst r)" if "\<exists>x t. r = (Inr x, t) \<and> Q t" for r :: "(exn + 'r) \<times> sim" and Q
    using that by auto
  have "well_formed S s" using inv by (auto simp: well_formed_def sim_inv_def sound_defs pos_ok_def)
  moreover have "\<not> isl (fst (submit_entry g lots now m s))" if "0 < lots" for g lots now m
    using submit_run [OF inv that, of g now m] by auto
  moreover have "\<not> isl (fst (sim_cancel sid gid now s))" for sid gid now
    using cancel_run [OF inv, of sid gid now] by auto
  moreover have "\<not> isl (fst (request_close sid pid now why s))" for sid pid now why
    using request_close_run [OF inv, of sid pid now why] by auto
  moreover have "\<not> isl (fst (modify_stop S sid pid stop now s))" for sid pid stop now
    using modify_stop_run [OF assms(2) inv, of sid pid stop now] by auto
  moreover have "\<not> isl (fst (sim_advance S symb (next_bar s symb) hi s))"
    if "dict_get S symb = Some d" "hi \<le> length (sy_bars d)" for symb d hi
    using advance_run [OF assms(2) that(1) _ that(2) inv, of "next_bar s symb"] by auto
  moreover have "\<not> isl (fst (charge_swaps S wd s))" for wd
    using charge_run [OF inv, of wd] by auto
  moreover have "\<not> isl (fst (close_all S why s))" for why
    using close_all_run [OF assms(2) inv, of why] by auto
  ultimately show ?thesis by blast
qed

theorem simulation_never_stuck_witness:
  "well_formed sample_symbols sample_advanced \<and> \<not> isl (fst (charge_swaps sample_symbols 2 sample_advanced))"
  using simulation_never_stuck [OF sample_reach_2 sample_data_ok] by blast

section \<open>The bar of the entry\<close>

text \<open>
  On the bar of its entry a stop fills at the stop even when the whole bar traded below it: with the spread
  widened, a stop between the bid and the ask is sold at a price above the highest bid of the bar.
\<close>

definition wide_market :: symbol_data where
  "wide_market = sample_market\<lparr>sy_bars := [sample_bar 0 100 102 99 101 8]\<rparr>"

definition wide_order :: signal where
  "wide_order = sample_order\<lparr>sg_stop_price := 105, sg_target_price := None\<rparr>"

definition wide_run :: sim where
  "wide_run = snd (sim_advance [(''X'', wide_market)] ''X'' 0 1 (snd (submit_entry wide_order 2 0 1 (sim_fresh 1000))))"

theorem entry_bar_stop_above_market:
  "map si_exit_price (sim_trades wide_run) = [209/2] \<and> mb_bid_h (sy_bars wide_market ! 0) = 102"
  by code_simp

end
