(* ===== verification/Spec2Isabelle.thy ===== *)
theory Spec2Isabelle
  imports Risk_Properties Stop_Properties Deal_Properties Recon_Properties Watch_Properties Registry_Properties
    Evaluator_Properties Allocator_Properties
    Bus_Properties System
    Live_Properties Engine_Properties Backtest_Properties Sim_Properties Costs_Properties
begin

text \<open>
  Kometa is a trading platform: strategies propose orders, a risk gate decides on them, execution places
  them at a broker, a lifecycle evaluator promotes and demotes strategy versions and an allocator shares the
  risk budget between them. This library models the services that move money and the data they keep, over
  the sources in \<open>src/packages/<package>/src/autotrader/<package>/\<close>; paths below are relative to that.

  \<^bold>\<open>Conventions.\<close> \<open>Prelude\<close> fixes them. \<open>Decimal\<close> and \<open>float\<close> are exact rationals (rounding that the code
  asks for is written out, rounding errors of binary floats are not modelled). Instants are integers, in
  microseconds (\<open>datetime\<close>) or nanoseconds (numpy time stamps). Dictionaries are association lists in
  insertion order, f-strings are a template with its arguments. Code that mutates objects and may raise is a
  computation \<open>se\<close> that returns an exception or a result together with the state it leaves behind: the
  state after an exception is the one the code leaves, not the one before. A whole operation keeps a
  relation between the state before and after when its parts do (locale \<open>step_rel\<close>, interpreted for each
  relation used); \<open>runs\<close> is the total-correctness triple for code that must not raise.

  \<^bold>\<open>The parts and their theories.\<close>

  \<^item> \<open>Core_Models\<close>: \<open>core/models.py\<close>, \<open>core/broker.py\<close>, \<open>core/fx.py\<close>, the event index of
    \<open>core/indicators/sessions.py\<close>; order identities with the CRC-32 magic number.
  \<^item> Risk (\<open>risk/\<close>): \<open>Risk_State\<close> (state file), \<open>Risk_Gate\<close> (the nine checks in the code's order),
    \<open>Risk_Control\<close> (\<open>RiskGate\<close> with its halts, day roll and owner resume), \<open>Risk_Service\<close> (the handlers on
    the bus). \<open>Risk_Properties\<close>: what an approval implies and which halts survive; \<open>Risk_Service_Properties\<close>:
    every intent is answered, halts are announced.
  \<^item> Execution (\<open>execution/\<close>): \<open>Journal\<close>, \<open>Broker_Api\<close> (the adapter protocol as a record of operations),
    \<open>Order_Manager\<close> and \<open>Order_Jobs\<close>, \<open>Reconcile\<close>, \<open>Watchdog\<close> (with the service loop), \<open>Exec_Bus\<close>;
    \<open>Fake_Broker\<close> is the in-memory broker and \<open>Fake_Contract\<close> proves that it meets the broker contract of
    \<open>Broker_Api\<close>. \<open>Exec_System\<close> is the transition system of the service with kills and restarts at any call to
    the broker. \<open>Order_Safety\<close>, \<open>Order_Properties\<close>, \<open>Execution_Properties\<close>, \<open>Deal_Properties\<close>,
    \<open>Stop_Properties\<close>, \<open>Recon_Properties\<close>, \<open>Watch_Properties\<close>, \<open>Exec_Bus_Properties\<close>: one entry per
    intent, deals counted once, stops confirmed, what a clean reconciliation means, reports in order.
  \<^item> \<open>Ledger\<close> (\<open>core/ledger.py\<close>), \<open>Registry\<close> (\<open>lifecycle/registry.py\<close>, \<open>champion.py\<close> as the replayed state),
    \<open>Stage_Stats\<close> (\<open>lifecycle/stats.py\<close>, \<open>champion.py\<close>), \<open>Evaluator\<close> (\<open>lifecycle/evaluator.py\<close>),
    \<open>Lifecycle_Service\<close> (\<open>lifecycle/service.py\<close>) with their \<open>_Properties\<close>: the chain of the ledger, the
    registry as its replay, the promotion ladder, demotions that reach the book.
  \<^item> Allocation (\<open>allocator/\<close>): \<open>Weights\<close>, \<open>Allocator\<close>, with \<open>Weights_Properties\<close> (clusters are the connected
    components, capped shares are a water filling) and \<open>Allocator_Properties\<close>.
  \<^item> \<open>Bus\<close> and \<open>Events\<close> (\<open>core/bus.py\<close>, \<open>core/events.py\<close>): streams, consumer groups, the pump.
    \<open>Bus_Properties\<close>: each group in order and once. \<open>System\<close> puts the risk gate and execution on one bus.
  \<^item> Backtests (\<open>engine/\<close>): \<open>Costs\<close> (\<open>costs.py\<close>), \<open>Sim_Broker\<close> (\<open>simbroker.py\<close>, every operation),
    \<open>Engine\<close> (\<open>gate.py\<close>, \<open>market.py\<close>, \<open>requests.py\<close>), \<open>Backtest\<close> (\<open>backtest.py\<close>, \<open>run_backtest\<close> with its
    strategy as a parameter). \<open>Sim_Jumps\<close>: the jumps from event to event are the walk over every bar;
    \<open>Sim_Sound\<close> and \<open>Sim_Account\<close>: the invariant of the simulator over every run of its operations
    (\<open>sim_reach\<close>), with total correctness by \<open>runs\<close>; \<open>Sim_Properties\<close> states it. \<open>Backtest_Account\<close>: the
    loop uses the simulator only through those operations; \<open>Backtest_Prefix\<close>, \<open>Backtest_Causal\<close>,
    \<open>Backtest_Future\<close> and \<open>Backtest_Grow\<close>: two runs over bars that agree until an instant are one computation
    until then (relation \<open>agree\<close>), and what is recorded stays; \<open>Backtest_Properties\<close>, \<open>Engine_Properties\<close>,
    \<open>Costs_Properties\<close> state what follows.
  \<^item> Live trading (\<open>engine/\<close>): \<open>Live\<close> (\<open>core/timeframes.py\<close>, \<open>live_bars.py\<close>, \<open>live.py\<close>), \<open>Shadow\<close> (\<open>shadow.py\<close>),
    \<open>Engine_Service\<close> (\<open>service.py\<close>). \<open>Live_Builder\<close>: the invariant of the bar builder and what one call hands
    out; \<open>Live_Candles\<close>: the bars of a list of quotes as a specification, and the builder as its computation one
    quote at a time (\<open>tracks\<close>); \<open>Live_Service\<close>: the builder under quotes in any order, asked by several runners;
    \<open>Live_Outbox\<close>: what may leave the engine (\<open>emitted\<close>, a relation kept by all handlers); \<open>Shadow_Fills\<close>: loop
    invariants of the shadow broker on one quote. \<open>Live_Properties\<close> states what follows, and three places where
    the code breaks its word (starving runners, swaps charged twice, late quotes of quiet symbols).

  \<^bold>\<open>Bounds and fuel.\<close> The retry loop of an order recurses on its number of attempts, the pump of the bus on
  its number of rounds (\<open>max_rounds\<close>, 10000 in the code, where it raises; \<open>pump_settles\<close> shows when that is
  never reached). The merging of clusters recurses on the number of clusters, which shrinks. No definition
  uses fuel that the code does not have.

  \<^bold>\<open>What is a parameter.\<close> Ed25519 signatures and digests (\<open>core/signing.py\<close>), the message codec of pydantic, the
  time zone database, the bootstrap draws of numpy, the broker behind the adapter (instantiated by the
  in-memory broker), the strategies. Hypotheses on them are documented behaviour: a codec loses nothing, a
  decision that verifies was signed by the gate, the clock does not run backwards; each property that has
  one has a witness on concrete functions.

  \<^bold>\<open>Not modelled.\<close> Input and output (YAML, JSON text, HTTP, Redis, Postgres, logging), asynchronous reader
  tasks, the network brokers behind the adapter (\<open>ctrader.py\<close>, \<open>oanda.py\<close>, \<open>mt5.py\<close>, the MetaTrader
  bridge), the numpy and pandas pipelines (indicators, market data, validation, learning), prompts and calls
  of language models, the dashboard, the web API and the command line. Strategies are trading ideas with no
  contract beyond the interface, and enter as parameters.
\<close>

end
